(* ===== verification/Talos_Prelude.thy ===== *)
theory Talos_Prelude
  imports Main "HOL-Library.Word"
begin

text \<open>
  Shared vocabulary of the development: the machine types of the Rust sources, results with
  errors as values, slices, checked and saturating arithmetic, and the little- and big-endian
  encodings of integers with their round-trip laws.

  Conventions. \<open>u8\<close>, \<open>u16\<close>, \<open>u32\<close> and \<open>u64\<close> are words of that width. A \<open>usize\<close> is a \<open>nat\<close>
  and the targets are 64-bit, so its checked operations compare with \<open>usize_max\<close>. A
  \<open>Result<A, E>\<close> is a value of \<open>E + A\<close> with \<open>Inl\<close> for the error.
\<close>

named_theorems codec_simps \<open>round trips and lengths of the integer encodings\<close>
named_theorems res_simps \<open>elimination of results bound by rbind\<close>

section \<open>Machine types and results\<close>

type_synonym u8 = "8 word"
type_synonym u16 = "16 word"
type_synonym u32 = "32 word"
type_synonym u64 = "64 word"
type_synonym bytes = "u8 list"

definition usize_max :: nat where
  "usize_max = 2 ^ 64 - 1"

text \<open>Where the code can also panic (a slice out of range, an \<open>unwrap\<close> of an error), the error side is
  a \<open>fault\<close>: the \<open>Err\<close> value the code returns, or \<open>Panic\<close>.\<close>

datatype 'e fault = Err 'e | Panic

fun rbind :: "'e + 'a \<Rightarrow> ('a \<Rightarrow> 'e + 'b) \<Rightarrow> 'e + 'b" where
  "rbind (Inl e) f = Inl e"
| "rbind (Inr a) f = f a"

fun rmap :: "('a \<Rightarrow> 'b) \<Rightarrow> 'e + 'a \<Rightarrow> 'e + 'b" where
  "rmap f (Inl e) = Inl e"
| "rmap f (Inr a) = Inr (f a)"

fun ok_or :: "'e \<Rightarrow> 'a option \<Rightarrow> 'e + 'a" where
  "ok_or e None = Inl e"
| "ok_or e (Some a) = Inr a"

fun try_fold :: "('s \<Rightarrow> 'a \<Rightarrow> 'e + 's) \<Rightarrow> 's \<Rightarrow> 'a list \<Rightarrow> 'e + 's" where
  "try_fold f s [] = Inr s"
| "try_fold f s (x # xs) = rbind (f s x) (\<lambda>s'. try_fold f s' xs)"

fun try_map :: "('a \<Rightarrow> 'e + 'b) \<Rightarrow> 'a list \<Rightarrow> 'e + 'b list" where
  "try_map f [] = Inr []"
| "try_map f (x # xs) = rbind (f x) (\<lambda>y. rbind (try_map f xs) (\<lambda>ys. Inr (y # ys)))"

text \<open>An operation on a state that can fail: the state after it and its result, because an error is often
  returned after part of the state has changed.\<close>

type_synonym ('s, 'e, 'a) sresult = "'s \<times> ('e + 'a)"

fun sbind :: "('s, 'e, 'a) sresult \<Rightarrow> ('s \<Rightarrow> 'a \<Rightarrow> ('s, 'e, 'b) sresult) \<Rightarrow> ('s, 'e, 'b) sresult" where
  "sbind (s, Inl e) f = (s, Inl e)"
| "sbind (s, Inr a) f = f s a"

lemma sbind_Inr_iff [res_simps]:
  "sbind m f = (s', Inr b) \<longleftrightarrow> (\<exists>s a. m = (s, Inr a) \<and> f s a = (s', Inr b))"
  by (cases "(m, f)" rule: sbind.cases) auto

text \<open>What holds after such an operation: \<open>E\<close> of the state where it stops early and \<open>Q\<close> of the result and the state
  where it succeeds.\<close>

definition after :: "('s \<Rightarrow> bool) \<Rightarrow> ('a \<Rightarrow> 's \<Rightarrow> bool) \<Rightarrow> ('s, 'e, 'a) sresult \<Rightarrow> bool" where
  "after E Q out = (case out of (m, Inl _) \<Rightarrow> E m | (m, Inr x) \<Rightarrow> Q x m)"

lemma after_Inr [simp]: "after E Q (m, Inr x) \<longleftrightarrow> Q x m"
  by (simp add: after_def)

lemma after_Inl [simp]: "after E Q (m, Inl e) \<longleftrightarrow> E m"
  by (simp add: after_def)

lemma after_lift: "E m \<Longrightarrow> Q m \<Longrightarrow> after E (\<lambda>_. Q) (m, r)"
  by (cases r) simp_all

lemma after_sbind:
  assumes "after E P out" "\<And>x m. P x m \<Longrightarrow> after E Q (k m x)"
  shows "after E Q (sbind out k)"
  using assms by (cases "(out, k)" rule: sbind.cases) auto

lemma after_weaken:
  assumes "after E P out" "\<And>m. E m \<Longrightarrow> E' m" "\<And>x m. P x m \<Longrightarrow> Q x m"
  shows "after E' Q out"
  using assms by (auto simp: after_def split: prod.splits sum.splits)

lemma after_conj: "after E P out \<Longrightarrow> after F Q out \<Longrightarrow> after (\<lambda>m. E m \<and> F m) (\<lambda>x m. P x m \<and> Q x m) out"
  by (auto simp: after_def split: prod.splits sum.splits)

lemma after_fst: "after E (\<lambda>_. E) out \<Longrightarrow> E (fst out)"
  by (auto simp: after_def split: prod.splits sum.splits)

lemma after_never: "after E (\<lambda>_ _. False) out \<Longrightarrow> (\<exists>e. snd out = Inl e) \<and> E (fst out)"
  by (auto simp: after_def split: prod.splits sum.splits)

lemma after_success: "after E Q out \<Longrightarrow> snd out = Inr x \<Longrightarrow> Q x (fst out)"
  by (auto simp: after_def split: prod.splits sum.splits)

lemma rbind_Inr_iff [res_simps]: "rbind m f = Inr b \<longleftrightarrow> (\<exists>a. m = Inr a \<and> f a = Inr b)"
  by (cases m) auto

lemma rbind_Inl_iff: "rbind m f = Inl e \<longleftrightarrow> m = Inl e \<or> (\<exists>a. m = Inr a \<and> f a = Inl e)"
  by (cases m) auto

lemma rbind_rmap: "rbind (rmap f m) g = rbind m (\<lambda>x. g (f x))"
  by (cases m) auto

lemma rmap_rbind: "rmap f (rbind m g) = rbind m (\<lambda>x. rmap f (g x))"
  by (cases m) auto

lemma rmap_Inr_iff [res_simps]: "rmap f m = Inr b \<longleftrightarrow> (\<exists>a. m = Inr a \<and> b = f a)"
  by (cases m) auto

lemma ok_or_Inr_iff [res_simps]: "ok_or e m = Inr a \<longleftrightarrow> m = Some a"
  by (cases m) auto

lemma ok_or_Inl_iff: "ok_or e m = Inl e' \<longleftrightarrow> m = None \<and> e' = e"
  by (cases m) auto

lemma try_map_length: "try_map f xs = Inr ys \<Longrightarrow> length ys = length xs"
  by (induction xs arbitrary: ys) (auto simp: res_simps)

lemma try_map_nth:
  "try_map f xs = Inr ys \<Longrightarrow> i < length xs \<Longrightarrow> f (xs ! i) = Inr (ys ! i)"
  by (induction xs arbitrary: ys i) (auto simp: res_simps nth_Cons split: nat.splits)

lemma try_map_ok:
  "(\<And>x. x \<in> set xs \<Longrightarrow> f x = Inr (g x)) \<Longrightarrow> try_map f xs = Inr (map g xs)"
  by (induction xs) auto

lemma try_map_append:
  "try_map f (xs @ ys) = rbind (try_map f xs) (\<lambda>as. rbind (try_map f ys) (\<lambda>bs. Inr (as @ bs)))"
proof (induction xs)
  case (Cons x xs)
  then show ?case
    by (cases "f x"; cases "try_map f xs"; cases "try_map f ys") auto
next
  case Nil
  then show ?case by (cases "try_map f ys") auto
qed

lemma try_fold_append:
  "try_fold f s (xs @ ys) = rbind (try_fold f s xs) (\<lambda>s'. try_fold f s' ys)"
proof (induction xs arbitrary: s)
  case (Cons x xs)
  then show ?case by (cases "f s x") auto
qed simp

lemma try_fold_concat: "try_fold f s (concat xss) = try_fold (try_fold f) s xss"
proof (induction xss arbitrary: s)
  case (Cons xs xss)
  then show ?case by (cases "try_fold f s xs") (auto simp: try_fold_append)
qed simp

lemma try_fold_map: "try_fold f s (map g xs) = try_fold (\<lambda>s x. f s (g x)) s xs"
proof (induction xs arbitrary: s)
  case (Cons x xs)
  then show ?case by (cases "f s (g x)") auto
qed simp

lemma try_fold_cong:
  "(\<And>s x. x \<in> set xs \<Longrightarrow> f s x = g s x) \<Longrightarrow> try_fold f s xs = try_fold g s xs"
proof (induction xs arbitrary: s)
  case (Cons x xs)
  then show ?case by (cases "g s x") auto
qed simp

text \<open>An invariant kept by every step of a fallible fold holds at its end.\<close>

lemma try_fold_invariant:
  assumes "try_fold f s xs = Inr s'" and "I s"
    and "\<And>s x s''. I s \<Longrightarrow> x \<in> set xs \<Longrightarrow> f s x = Inr s'' \<Longrightarrow> I s''"
  shows "I s'"
  using assms
proof (induction xs arbitrary: s)
  case (Cons x xs)
  from Cons.prems(1) obtain s1 where s1: "f s x = Inr s1" "try_fold f s1 xs = Inr s'"
    by (auto simp: res_simps)
  have "I s1" using Cons.prems(2,3) s1(1) by (meson list.set_intros(1))
  with s1(2) show ?case
    by (rule Cons.IH) (meson Cons.prems(3) list.set_intros(2))
qed simp

section \<open>Slices\<close>

text \<open>\<open>slice a b xs\<close> is the Rust \<open>xs[a..b]\<close> where that is in range; \<open>get_range\<close> is
  \<open>xs.get(a..b)\<close>; \<open>put_range\<close> is \<open>xs[a..a+n].copy_from_slice(ys)\<close> for an \<open>ys\<close> of length \<open>n\<close>, with
  \<open>None\<close> for the panic on an out-of-range slice.\<close>

definition slice :: "nat \<Rightarrow> nat \<Rightarrow> 'a list \<Rightarrow> 'a list" where
  "slice a b xs = take (b - a) (drop a xs)"

definition get_range :: "nat \<Rightarrow> nat \<Rightarrow> 'a list \<Rightarrow> 'a list option" where
  "get_range a b xs = (if a \<le> b \<and> b \<le> length xs then Some (slice a b xs) else None)"

definition put_range :: "nat \<Rightarrow> 'a list \<Rightarrow> 'a list \<Rightarrow> 'a list option" where
  "put_range a ys xs =
     (if a + length ys \<le> length xs then Some (take a xs @ ys @ drop (a + length ys) xs) else None)"

lemma length_slice [simp]: "length (slice a b xs) = min (b - a) (length xs - a)"
  by (simp add: slice_def)

lemma slice_nth: "i < b - a \<Longrightarrow> a + i < length xs \<Longrightarrow> slice a b xs ! i = xs ! (a + i)"
  by (simp add: slice_def)

lemma slice_append1: "b \<le> length xs \<Longrightarrow> slice a b (xs @ ys) = slice a b xs"
  by (simp add: slice_def)

lemma slice_append2:
  "length xs \<le> a \<Longrightarrow> slice a b (xs @ ys) = slice (a - length xs) (b - length xs) ys"
  by (simp add: slice_def)

lemma slice_all: "slice 0 (length xs) xs = xs"
  by (simp add: slice_def)

lemma put_range_length: "put_range a ys xs = Some zs \<Longrightarrow> length zs = length xs"
  by (auto simp: put_range_def split: if_splits)

lemma put_range_nth:
  "put_range a ys xs = Some zs \<Longrightarrow> i < length xs \<Longrightarrow>
   zs ! i = (if a \<le> i \<and> i < a + length ys then ys ! (i - a) else xs ! i)"
  by (auto simp: put_range_def nth_append split: if_splits)

text \<open>Consecutive fields of a buffer, put back together.\<close>

lemma take_drop_join: "i + n = j \<Longrightarrow> take n (drop i xs) @ drop j xs = drop i xs"
  by (metis add.commute append_take_drop_id drop_drop)

lemma take_drop_join0: "take n xs @ drop n xs = xs"
  by simp

section \<open>Checked and saturating arithmetic\<close>

definition checked_add :: "'a::len word \<Rightarrow> 'a word \<Rightarrow> 'a word option" where
  "checked_add a b = (if unat a + unat b < 2 ^ LENGTH('a) then Some (a + b) else None)"

definition checked_mul :: "'a::len word \<Rightarrow> 'a word \<Rightarrow> 'a word option" where
  "checked_mul a b = (if unat a * unat b < 2 ^ LENGTH('a) then Some (a * b) else None)"

definition saturating_add :: "'a::len word \<Rightarrow> 'a word \<Rightarrow> 'a word" where
  "saturating_add a b = (if unat a + unat b < 2 ^ LENGTH('a) then a + b else - 1)"

definition saturating_sub :: "'a::len word \<Rightarrow> 'a word \<Rightarrow> 'a word" where
  "saturating_sub a b = (if b \<le> a then a - b else 0)"

definition usize_checked_add :: "nat \<Rightarrow> nat \<Rightarrow> nat option" where
  "usize_checked_add a b = (if a + b \<le> usize_max then Some (a + b) else None)"

definition usize_checked_mul :: "nat \<Rightarrow> nat \<Rightarrow> nat option" where
  "usize_checked_mul a b = (if a * b \<le> usize_max then Some (a * b) else None)"

definition usize_saturating_add :: "nat \<Rightarrow> nat \<Rightarrow> nat" where
  "usize_saturating_add a b = min usize_max (a + b)"

definition usize_saturating_mul :: "nat \<Rightarrow> nat \<Rightarrow> nat" where
  "usize_saturating_mul a b = min usize_max (a * b)"

lemma checked_add_Some_iff:
  "checked_add a b = Some c \<longleftrightarrow> unat a + unat b < 2 ^ LENGTH('a) \<and> c = a + (b :: 'a::len word)"
  by (auto simp: checked_add_def)

lemma unat_bound: "unat (w :: 'a::len word) < 2 ^ LENGTH('a)"
  by (rule unsigned_less)

lemma unat_mult_no_wrap: "unat a * unat b < 2 ^ LENGTH('a) \<Longrightarrow> unat (a * b) = unat a * unat (b :: 'a::len word)"
  by (simp add: unat_word_ariths)

lemma unat_add_no_wrap:
  "unat a + unat b < 2 ^ LENGTH('a) \<Longrightarrow> unat (a + b) = unat a + unat (b :: 'a::len word)"
  by (simp add: unat_word_ariths)

lemma unat_saturating_add:
  "unat (saturating_add a b) = min (2 ^ LENGTH('a) - 1) (unat a + unat (b :: 'a::len word))"
  by (auto simp: saturating_add_def unat_add_no_wrap unsigned_minus_1_eq_mask mask_eq_exp_minus_1)

lemma unat_saturating_sub: "unat (saturating_sub a b) = unat a - unat (b :: 'a::len word)"
  by (auto simp: saturating_sub_def unat_sub word_le_nat_alt)

section \<open>Integer encodings\<close>

fun le_nat :: "bytes \<Rightarrow> nat" where
  "le_nat [] = 0"
| "le_nat (b # bs) = unat b + 256 * le_nat bs"

fun nat_le :: "nat \<Rightarrow> nat \<Rightarrow> bytes" where
  "nat_le 0 n = []"
| "nat_le (Suc k) n = of_nat n # nat_le k (n div 256)"

definition u16_be :: "u16 \<Rightarrow> bytes" where "u16_be w = rev (nat_le 2 (unat w))"
definition u32_be :: "u32 \<Rightarrow> bytes" where "u32_be w = rev (nat_le 4 (unat w))"
definition u64_be :: "u64 \<Rightarrow> bytes" where "u64_be w = rev (nat_le 8 (unat w))"
definition u32_le :: "u32 \<Rightarrow> bytes" where "u32_le w = nat_le 4 (unat w)"
definition u64_le :: "u64 \<Rightarrow> bytes" where "u64_le w = nat_le 8 (unat w)"

definition u16_of_be :: "bytes \<Rightarrow> u16" where "u16_of_be bs = of_nat (le_nat (rev bs))"
definition u32_of_be :: "bytes \<Rightarrow> u32" where "u32_of_be bs = of_nat (le_nat (rev bs))"
definition u32_of_le :: "bytes \<Rightarrow> u32" where "u32_of_le bs = of_nat (le_nat bs)"
definition u64_of_le :: "bytes \<Rightarrow> u64" where "u64_of_le bs = of_nat (le_nat bs)"

lemma nat_le_numeral [simp]:
  "nat_le (numeral k) n = of_nat n # nat_le (pred_numeral k) (n div 256)"
  by (simp only: numeral_eq_Suc [of k] nat_le.simps)

lemma length_nat_le [codec_simps]: "length (nat_le k n) = k"
  by (induction k arbitrary: n) auto

lemma le_nat_nat_le: "le_nat (nat_le k n) = n mod 256 ^ k"
proof (induction k arbitrary: n)
  case (Suc k)
  have "n mod (256 * 256 ^ k) = 256 * (n div 256 mod 256 ^ k) + n mod 256"
    by (rule mod_mult2_eq)
  with Suc show ?case by (simp add: unat_of_nat)
qed simp

lemma nat_le_le_nat: "nat_le (length bs) (le_nat bs) = bs"
proof (induction bs)
  case (Cons b bs)
  have "unat b < 256" using unat_bound [of b] by simp
  then have "(unat b + 256 * le_nat bs) div 256 = le_nat bs" by simp
  moreover have "(of_nat (unat b + 256 * le_nat bs) :: u8) = b"
    using \<open>unat b < 256\<close> by (intro word_unat_eq_iff [THEN iffD2]) (simp only: unat_of_nat, simp)
  ultimately show ?case using Cons by simp
qed simp

lemma le_nat_bound: "le_nat bs < 256 ^ length bs"
proof (induction bs)
  case (Cons b bs)
  have "unat b < 256" using unat_bound [of b] by simp
  with Cons show ?case by simp
qed simp

lemma length_codecs [codec_simps]:
  "length (u16_be a) = 2" "length (u32_be b) = 4" "length (u64_be c) = 8"
  "length (u32_le b) = 4" "length (u64_le c) = 8"
  by (simp_all add: u16_be_def u32_be_def u64_be_def u32_le_def u64_le_def)

lemma u16_be_roundtrip [codec_simps]: "u16_of_be (u16_be w) = w"
  using unat_bound [of w] by (simp add: u16_of_be_def u16_be_def le_nat_nat_le del: nat_le_numeral)

lemma u32_be_roundtrip [codec_simps]: "u32_of_be (u32_be w) = w"
  using unat_bound [of w] by (simp add: u32_of_be_def u32_be_def le_nat_nat_le del: nat_le_numeral)

lemma u32_le_roundtrip [codec_simps]: "u32_of_le (u32_le w) = w"
  using unat_bound [of w] by (simp add: u32_of_le_def u32_le_def le_nat_nat_le del: nat_le_numeral)

lemma u64_le_roundtrip [codec_simps]: "u64_of_le (u64_le w) = w"
  using unat_bound [of w] by (simp add: u64_of_le_def u64_le_def le_nat_nat_le del: nat_le_numeral)

lemma unat_of_nat_bound: "n < 2 ^ LENGTH('a) \<Longrightarrow> unat (of_nat n :: 'a::len word) = n"
  by (simp add: unat_of_nat)

lemma u16_be_inverse: "length bs = 2 \<Longrightarrow> u16_be (u16_of_be bs) = bs"
  using le_nat_bound [of "rev bs"] nat_le_le_nat [of "rev bs"]
  by (simp add: u16_of_be_def u16_be_def unat_of_nat_bound del: nat_le_numeral)

lemma u32_be_inverse: "length bs = 4 \<Longrightarrow> u32_be (u32_of_be bs) = bs"
  using le_nat_bound [of "rev bs"] nat_le_le_nat [of "rev bs"]
  by (simp add: u32_of_be_def u32_be_def unat_of_nat_bound del: nat_le_numeral)

lemma u32_le_inverse: "length bs = 4 \<Longrightarrow> u32_le (u32_of_le bs) = bs"
  using le_nat_bound [of bs] nat_le_le_nat [of bs]
  by (simp add: u32_of_le_def u32_le_def unat_of_nat_bound del: nat_le_numeral)

lemma u64_le_inverse: "length bs = 8 \<Longrightarrow> u64_le (u64_of_le bs) = bs"
  using le_nat_bound [of bs] nat_le_le_nat [of bs]
  by (simp add: u64_of_le_def u64_le_def unat_of_nat_bound del: nat_le_numeral)

lemma u32_le_inject: "u32_le a = u32_le b \<longleftrightarrow> a = b"
  by (metis u32_le_roundtrip)

lemma u64_be_inject: "u64_be a = u64_be b \<longleftrightarrow> a = b"
proof
  assume "u64_be a = u64_be b"
  then have "unat a mod 256 ^ 8 = unat b mod 256 ^ 8"
    by (metis u64_be_def le_nat_nat_le rev_is_rev_conv)
  then show "a = b" using unat_bound [of a] unat_bound [of b] by (simp add: word_unat_eq_iff)
qed simp

end
