(* ===== verification/Wire_Frames.thy ===== *)
theory Wire_Frames
  imports Talos_Prelude
begin

text \<open>
  The length-prefixed frames of \<open>talos_protocol/src/lib.rs\<close>: control frames, shell frames, chat
  frames and file-transfer frames, and the stream readers of the worker that take one frame at
  a time off a byte stream. A stream is the list of bytes the peer has sent before closing.

  The contract the four codecs share is the locale \<open>frame_codec\<close> (building and parsing are
  inverse, and the accepted payloads are those within the limit); the contract of the readers
  is \<open>frame_reader\<close>. Both are interpreted on the definitions below.
\<close>

section \<open>Control frames\<close>

definition CONTROL_MAX_PAYLOAD_LEN :: nat where
  "CONTROL_MAX_PAYLOAD_LEN = 65535"

record ControlFrame =
  cf_message_type :: u8
  cf_payload :: bytes

datatype ControlParseError = CtlTooShort | CtlLengthMismatch | CtlLengthOverflow

datatype ControlEncodeError = CtlPayloadTooLarge

definition parse_control_frame :: "bytes \<Rightarrow> ControlParseError + ControlFrame" where
  "parse_control_frame frame =
     (if length frame < 3 then Inl CtlTooShort
      else let len = unat (u16_of_be [frame ! 0, frame ! 1]) in
        if len > CONTROL_MAX_PAYLOAD_LEN then Inl CtlLengthOverflow
        else if length frame \<noteq> 3 + len then Inl CtlLengthMismatch
        else Inr \<lparr>cf_message_type = frame ! 2, cf_payload = drop 3 frame\<rparr>)"

definition build_control_frame :: "u8 \<Rightarrow> bytes \<Rightarrow> ControlEncodeError + bytes" where
  "build_control_frame message_type payload =
     (if length payload > CONTROL_MAX_PAYLOAD_LEN then Inl CtlPayloadTooLarge
      else Inr (u16_be (of_nat (length payload)) @ [message_type] @ payload))"

section \<open>Shell frames\<close>

definition SHELL_MAX_PAYLOAD_LEN :: nat where
  "SHELL_MAX_PAYLOAD_LEN = 65535"

record ShellFrame =
  sf_message_type :: u8
  sf_payload :: bytes

datatype ShellFrameError = ShTooShort | ShLengthOverflow | ShIo string

definition build_shell_frame :: "u8 \<Rightarrow> bytes \<Rightarrow> ShellFrameError + bytes" where
  "build_shell_frame message_type payload =
     (if length payload > SHELL_MAX_PAYLOAD_LEN then Inl ShLengthOverflow
      else Inr ([message_type] @ u16_be (of_nat (length payload)) @ payload))"

definition build_shell_resize_payload :: "u16 \<Rightarrow> u16 \<Rightarrow> bytes" where
  "build_shell_resize_payload cols rows = u16_be cols @ u16_be rows"

definition parse_shell_resize_payload :: "bytes \<Rightarrow> (u16 \<times> u16) option" where
  "parse_shell_resize_payload payload =
     (if length payload < 4 then None
      else Some (u16_of_be [payload ! 0, payload ! 1], u16_of_be [payload ! 2, payload ! 3]))"

definition build_shell_exit_payload :: "u32 \<Rightarrow> bytes" where
  "build_shell_exit_payload exit_code = u32_be exit_code"

definition parse_shell_exit_payload :: "bytes \<Rightarrow> u32 option" where
  "parse_shell_exit_payload payload =
     (if length payload < 4 then None
      else Some (u32_of_be [payload ! 0, payload ! 1, payload ! 2, payload ! 3]))"

section \<open>Chat frames\<close>

definition CHAT_MAX_PAYLOAD_LEN :: nat where
  "CHAT_MAX_PAYLOAD_LEN = 65535"

datatype ChatFrameError = ChTooShort | ChLengthMismatch | ChLengthOverflow | ChIo string

definition build_chat_frame :: "u8 \<Rightarrow> bytes \<Rightarrow> ChatFrameError + bytes" where
  "build_chat_frame message_type payload =
     (if length payload > CHAT_MAX_PAYLOAD_LEN then Inl ChLengthOverflow
      else Inr ([message_type] @ u16_be (of_nat (length payload)) @ payload))"

definition parse_chat_frame :: "bytes \<Rightarrow> ChatFrameError + u8 \<times> bytes" where
  "parse_chat_frame frame =
     (if length frame < 3 then Inl ChTooShort
      else let message_type = frame ! 0;
               len = unat (u16_of_be [frame ! 1, frame ! 2]) in
        if len > CHAT_MAX_PAYLOAD_LEN then Inl ChLengthOverflow
        else if length frame \<noteq> 3 + len then Inl ChLengthMismatch
        else Inr (message_type, drop 3 frame))"

section \<open>File-transfer frames\<close>

definition FILE_TRANSFER_MAX_PAYLOAD_LEN :: nat where
  "FILE_TRANSFER_MAX_PAYLOAD_LEN = 4 * 1024 * 1024"

record FileTransferFrame =
  ft_message_type :: u8
  ft_payload :: bytes

datatype FileTransferFrameError = FtTooShort | FtLengthOverflow | FtLengthMismatch | FtPayloadTooLarge

definition parse_file_transfer_frame :: "bytes \<Rightarrow> FileTransferFrameError + FileTransferFrame" where
  "parse_file_transfer_frame frame =
     (if length frame < 5 then Inl FtTooShort
      else let payload_len = unat (u32_of_be [frame ! 1, frame ! 2, frame ! 3, frame ! 4]) in
        if payload_len > FILE_TRANSFER_MAX_PAYLOAD_LEN then Inl FtLengthOverflow
        else if length frame \<noteq> 5 + payload_len then Inl FtLengthMismatch
        else Inr \<lparr>ft_message_type = frame ! 0, ft_payload = drop 5 frame\<rparr>)"

definition build_file_transfer_frame :: "u8 \<Rightarrow> bytes \<Rightarrow> FileTransferFrameError + bytes" where
  "build_file_transfer_frame message_type payload =
     (if length payload > FILE_TRANSFER_MAX_PAYLOAD_LEN then Inl FtPayloadTooLarge
      else Inr ([message_type] @ u32_be (of_nat (length payload)) @ payload))"

section \<open>Reading frames off a stream\<close>

text \<open>\<open>read_exact n s\<close> is \<open>AsyncReadExt::read_exact\<close> for \<open>n\<close> bytes on a stream that ends after \<open>s\<close>:
  \<open>None\<close> is the end-of-stream error. The chat and file-transfer readers turn the end of the stream
  inside a header into \<open>Ok(None)\<close>; inside a payload it is an error for every reader.\<close>

datatype frame_read_error = HeaderEof | PayloadEof | ReadPayloadTooLarge

definition read_exact :: "nat \<Rightarrow> bytes \<Rightarrow> (bytes \<times> bytes) option" where
  "read_exact n s = (if n \<le> length s then Some (take n s, drop n s) else None)"

definition read_shell_frame :: "bytes \<Rightarrow> frame_read_error + ShellFrame \<times> bytes" where
  "read_shell_frame reader =
     rbind (ok_or HeaderEof (read_exact 3 reader)) (\<lambda>(header, reader).
       let message_type = header ! 0;
           len = unat (u16_of_be [header ! 1, header ! 2]) in
       if len > 0 then
         rbind (ok_or PayloadEof (read_exact len reader)) (\<lambda>(payload, reader).
           Inr (\<lparr>sf_message_type = message_type, sf_payload = payload\<rparr>, reader))
       else Inr (\<lparr>sf_message_type = message_type, sf_payload = []\<rparr>, reader))"

definition read_chat_tcp_frame :: "bytes \<Rightarrow> frame_read_error + (u8 \<times> bytes) option \<times> bytes" where
  "read_chat_tcp_frame read =
     (case read_exact 3 read of
        None \<Rightarrow> Inr (None, [])
      | Some (hdr, read) \<Rightarrow>
          let len = unat (u16_of_be [hdr ! 1, hdr ! 2]) in
          if len > CHAT_MAX_PAYLOAD_LEN then Inl ReadPayloadTooLarge
          else if len > 0 then
            rbind (ok_or PayloadEof (read_exact len read)) (\<lambda>(payload, read).
              Inr (Some (hdr ! 0, payload), read))
          else Inr (Some (hdr ! 0, []), read))"

definition read_file_transfer_quic_frame ::
    "bytes \<Rightarrow> frame_read_error + (u8 \<times> bytes) option \<times> bytes" where
  "read_file_transfer_quic_frame recv =
     (case read_exact 5 recv of
        None \<Rightarrow> Inr (None, [])
      | Some (header, recv) \<Rightarrow>
          let payload_len = unat (u32_of_be [header ! 1, header ! 2, header ! 3, header ! 4]) in
          if payload_len > FILE_TRANSFER_MAX_PAYLOAD_LEN then Inl ReadPayloadTooLarge
          else if payload_len > 0 then
            rbind (ok_or PayloadEof (read_exact payload_len recv)) (\<lambda>(payload, recv).
              Inr (Some (header ! 0, payload), recv))
          else Inr (Some (header ! 0, []), recv))"

text \<open>The successive calls of a reader that returns \<open>Ok(None)\<close> at the end of the stream, as the
  receive loops make them: the frames read before the stream ended. Every frame consumes at
  least one byte, so the length of the stream is enough fuel.\<close>

fun read_frames ::
    "(bytes \<Rightarrow> frame_read_error + (u8 \<times> bytes) option \<times> bytes) \<Rightarrow> nat \<Rightarrow> bytes
       \<Rightarrow> frame_read_error + (u8 \<times> bytes) list" where
  "read_frames read 0 s = Inr []"
| "read_frames read (Suc fuel) s =
     rbind (read s) (\<lambda>(r, s'). case r of
         None \<Rightarrow> Inr []
       | Some f \<Rightarrow> rbind (read_frames read fuel s') (\<lambda>fs. Inr (f # fs)))"

section \<open>The codec contract\<close>

locale frame_codec =
  fixes build :: "u8 \<Rightarrow> bytes \<Rightarrow> 'e + bytes"
    and parse :: "bytes \<Rightarrow> 'f + u8 \<times> bytes"
    and max_len :: nat
    and header_len :: nat
  assumes build_parse: "build t p = Inr f \<Longrightarrow> parse f = Inr (t, p)"
    and parse_build: "parse f = Inr (t, p) \<Longrightarrow> build t p = Inr f"
    and build_accepts: "(\<exists>f. build t p = Inr f) \<longleftrightarrow> length p \<le> max_len"
    and build_length: "build t p = Inr f \<Longrightarrow> length f = header_len + length p"
    and header_local: "parse f = Inr r \<Longrightarrow> parse (f @ g) = Inr r' \<Longrightarrow> g = []"
    and header_pos: "0 < header_len"
begin

lemma parse_iff_build: "parse f = Inr (t, p) \<longleftrightarrow> build t p = Inr f"
  using build_parse parse_build by blast

lemma build_inject: "build t p = Inr f \<Longrightarrow> build t' p' = Inr f \<Longrightarrow> t' = t \<and> p' = p"
  by (metis build_parse Inr_inject prod.inject)

lemma parse_payload_bound: "parse f = Inr (t, p) \<Longrightarrow> length p \<le> max_len"
  using parse_build build_accepts by blast

lemma parse_length: "parse f = Inr (t, p) \<Longrightarrow> length f = header_len + length p"
  using parse_build build_length by blast

lemma parse_nonempty: "parse f = Inr r \<Longrightarrow> f \<noteq> []"
  using parse_length header_pos by (cases r) fastforce

text \<open>A concatenation of frames splits into frames in one way only.\<close>

lemma stream_unique:
  assumes "\<And>f. f \<in> set fs \<Longrightarrow> \<exists>r. parse f = Inr r"
    and "\<And>g. g \<in> set gs \<Longrightarrow> \<exists>r. parse g = Inr r"
    and "concat fs = concat gs"
  shows "fs = gs"
  using assms
proof (induction fs arbitrary: gs)
  case Nil
  then have "\<forall>g\<in>set gs. g = []" by simp
  with Nil.prems(2) have "set gs = {}" using parse_nonempty by fastforce
  then show ?case by simp
next
  case (Cons f fs)
  obtain r where f: "parse f = Inr r" using Cons.prems(1) [of f] by auto
  then have "f \<noteq> []" by (rule parse_nonempty)
  with Cons.prems(3) obtain g gs' where gs: "gs = g # gs'"
    by (cases gs) auto
  obtain r' where g: "parse g = Inr r'" using Cons.prems(2) [of g] gs by auto
  from Cons.prems(3) gs have eq: "f @ concat fs = g @ concat gs'" by simp
  then obtain us where "f = g @ us \<and> us @ concat fs = concat gs' \<or> f @ us = g \<and> concat fs = us @ concat gs'"
    by (auto simp: append_eq_append_conv2)
  then have "f = g" using f g by (metis header_local append_Nil2)
  with eq have "concat fs = concat gs'" by simp
  then have "fs = gs'"
    using Cons.IH [of gs'] Cons.prems(1,2) gs by simp
  with \<open>f = g\<close> gs show ?case by simp
qed

end

text \<open>The length field of a built frame, read back byte by byte.\<close>

lemma u16_be_bytes [codec_simps]: "[u16_be w ! 0, u16_be w ! Suc 0] = u16_be w"
  by (rule nth_equalityI) (auto simp: codec_simps less_Suc_eq numeral_2_eq_2)

lemma u32_be_bytes [codec_simps]: "[u32_be w ! 0, u32_be w ! Suc 0, u32_be w ! 2, u32_be w ! 3] = u32_be w"
  by (rule nth_equalityI) (auto simp: codec_simps less_Suc_eq numeral_eq_Suc)

lemma split_header3: "3 \<le> length f \<Longrightarrow> \<exists>a b c p. f = a # b # c # p"
  by (auto simp: numeral_eq_Suc Suc_le_length_iff)

lemma split_header5: "5 \<le> length f \<Longrightarrow> \<exists>a b c d e p. f = a # b # c # d # e # p"
  by (auto simp: numeral_eq_Suc Suc_le_length_iff)

lemmas frame_defs = Let_def nth_append codec_simps unat_of_nat_bound
  CONTROL_MAX_PAYLOAD_LEN_def SHELL_MAX_PAYLOAD_LEN_def CHAT_MAX_PAYLOAD_LEN_def
  FILE_TRANSFER_MAX_PAYLOAD_LEN_def

definition control_parts :: "ControlFrame \<Rightarrow> u8 \<times> bytes" where
  "control_parts f = (cf_message_type f, cf_payload f)"

definition file_transfer_parts :: "FileTransferFrame \<Rightarrow> u8 \<times> bytes" where
  "file_transfer_parts f = (ft_message_type f, ft_payload f)"

definition shell_parts :: "ShellFrame \<Rightarrow> u8 \<times> bytes" where
  "shell_parts f = (sf_message_type f, sf_payload f)"

lemma parse_control_frame_built:
  "build_control_frame t p = Inr f \<Longrightarrow>
   parse_control_frame f = Inr \<lparr>cf_message_type = t, cf_payload = p\<rparr>"
  by (auto simp: build_control_frame_def parse_control_frame_def frame_defs split: if_splits)

lemma build_control_frame_parsed:
  "parse_control_frame f = Inr cf \<Longrightarrow>
   build_control_frame (cf_message_type cf) (cf_payload cf) = Inr f"
  using split_header3 [of f]
  by (fastforce simp: build_control_frame_def parse_control_frame_def frame_defs u16_be_inverse
      not_less split: if_splits)


lemma parse_chat_frame_built:
  "build_chat_frame t p = Inr f \<Longrightarrow> parse_chat_frame f = Inr (t, p)"
  by (auto simp: build_chat_frame_def parse_chat_frame_def frame_defs split: if_splits)

lemma build_chat_frame_parsed:
  "parse_chat_frame f = Inr (t, p) \<Longrightarrow> build_chat_frame t p = Inr f"
  using split_header3 [of f]
  by (fastforce simp: build_chat_frame_def parse_chat_frame_def frame_defs u16_be_inverse
      not_less split: if_splits)

lemma parse_file_transfer_frame_built:
  "build_file_transfer_frame t p = Inr f \<Longrightarrow>
   parse_file_transfer_frame f = Inr \<lparr>ft_message_type = t, ft_payload = p\<rparr>"
  by (auto simp: build_file_transfer_frame_def parse_file_transfer_frame_def frame_defs
      split: if_splits)

lemma build_file_transfer_frame_parsed:
  "parse_file_transfer_frame f = Inr ff \<Longrightarrow>
   build_file_transfer_frame (ft_message_type ff) (ft_payload ff) = Inr f"
  using split_header5 [of f]
  by (fastforce simp: build_file_transfer_frame_def parse_file_transfer_frame_def frame_defs
      u32_be_inverse not_less split: if_splits)

lemma map_sum_Inr_iff: "map_sum f g m = Inr b \<longleftrightarrow> (\<exists>a. m = Inr a \<and> b = g a)"
  by (cases m) auto

interpretation control_codec: frame_codec build_control_frame
    "\<lambda>f. map_sum id control_parts (parse_control_frame f)" CONTROL_MAX_PAYLOAD_LEN 3
proof (unfold_locales, goal_cases)
  case (1 t p f)
  then show ?case by (simp add: parse_control_frame_built control_parts_def)
next
  case (2 f t p)
  then show ?case
    by (auto simp: map_sum_Inr_iff control_parts_def dest: build_control_frame_parsed)
next
  case (5 f r g r')
  then show ?case
    using split_header3 [of f]
    by (fastforce simp: map_sum_Inr_iff parse_control_frame_def Let_def not_less split: if_splits)
qed (auto simp: build_control_frame_def frame_defs split: if_splits)

interpretation chat_codec: frame_codec build_chat_frame parse_chat_frame CHAT_MAX_PAYLOAD_LEN 3
proof (unfold_locales, goal_cases)
  case (1 t p f)
  then show ?case by (rule parse_chat_frame_built)
next
  case (2 f t p)
  then show ?case by (rule build_chat_frame_parsed)
next
  case (5 f r g r')
  then show ?case
    using split_header3 [of f]
    by (fastforce simp: parse_chat_frame_def Let_def not_less split: if_splits)
qed (auto simp: build_chat_frame_def frame_defs split: if_splits)

interpretation file_transfer_codec: frame_codec build_file_transfer_frame
    "\<lambda>f. map_sum id file_transfer_parts (parse_file_transfer_frame f)"
    FILE_TRANSFER_MAX_PAYLOAD_LEN 5
proof (unfold_locales, goal_cases)
  case (1 t p f)
  then show ?case by (simp add: parse_file_transfer_frame_built file_transfer_parts_def)
next
  case (2 f t p)
  then show ?case
    by (auto simp: map_sum_Inr_iff file_transfer_parts_def dest: build_file_transfer_frame_parsed)
next
  case (5 f r g r')
  then show ?case
    using split_header5 [of f]
    by (fastforce simp: map_sum_Inr_iff parse_file_transfer_frame_def Let_def not_less split: if_splits)
qed (auto simp: build_file_transfer_frame_def frame_defs split: if_splits)

section \<open>The reader contract\<close>

locale frame_reader =
  fixes build :: "u8 \<Rightarrow> bytes \<Rightarrow> 'e + bytes"
    and read :: "bytes \<Rightarrow> frame_read_error + (u8 \<times> bytes) option \<times> bytes"
  assumes read_built: "build t p = Inr f \<Longrightarrow> read (f @ rest) = Inr (Some (t, p), rest)"
    and read_end: "read [] = Inr (None, [])"
    and built_nonempty: "build t p = Inr f \<Longrightarrow> f \<noteq> []"
begin

text \<open>The receive loop returns the messages the peer wrote, in order, and then the end.\<close>

lemma read_frames_written:
  assumes "try_map (\<lambda>(t, p). build t p) msgs = Inr frames"
    and "length (concat frames) < fuel"
  shows "read_frames read fuel (concat frames) = Inr msgs"
  using assms
proof (induction msgs arbitrary: frames fuel)
  case Nil
  then show ?case by (cases fuel) (auto simp: read_end)
next
  case (Cons m msgs)
  obtain t p where m: "m = (t, p)" by (cases m)
  from Cons.prems(1) obtain f fs where f: "build t p = Inr f"
    and fs: "try_map (\<lambda>(t, p). build t p) msgs = Inr fs" and frames: "frames = f # fs"
    by (auto simp: res_simps m)
  obtain fuel' where fuel: "fuel = Suc fuel'" using Cons.prems(2) by (cases fuel) auto
  have "f \<noteq> []" using f by (rule built_nonempty)
  then have "0 < length f" by simp
  then have "length (concat fs) < fuel'"
    using Cons.prems(2) unfolding frames fuel by (simp del: length_greater_0_conv)
  with fs have "read_frames read fuel' (concat fs) = Inr msgs" by (rule Cons.IH)
  then show ?case using f by (simp add: frames fuel read_built m)
qed

end

lemma read_exact_append: "length a = n \<Longrightarrow> read_exact n (a @ b) = Some (a, b)"
  by (simp add: read_exact_def)

lemma read_exact_header3: "read_exact 3 (t # u16_be n @ rest) = Some (t # u16_be n, rest)"
  using read_exact_append [of "t # u16_be n" 3 rest] by (simp add: codec_simps)

lemma read_exact_header5: "read_exact 5 (t # u32_be n @ rest) = Some (t # u32_be n, rest)"
  using read_exact_append [of "t # u32_be n" 5 rest] by (simp add: codec_simps)

interpretation chat_reader: frame_reader build_chat_frame read_chat_tcp_frame
proof (unfold_locales, goal_cases)
  case (1 t p f rest)
  then have len: "length p \<le> 65535" and f: "f = t # u16_be (of_nat (length p)) @ p"
    by (auto simp: build_chat_frame_def CHAT_MAX_PAYLOAD_LEN_def split: if_splits)
  then show ?case
    by (simp add: read_chat_tcp_frame_def read_exact_header3 read_exact_append frame_defs)
qed (auto simp: build_chat_frame_def read_chat_tcp_frame_def read_exact_def split: if_splits)

interpretation file_transfer_reader: frame_reader build_file_transfer_frame read_file_transfer_quic_frame
proof (unfold_locales, goal_cases)
  case (1 t p f rest)
  then have len: "length p \<le> 4194304" and f: "f = t # u32_be (of_nat (length p)) @ p"
    by (auto simp: build_file_transfer_frame_def FILE_TRANSFER_MAX_PAYLOAD_LEN_def split: if_splits)
  then show ?case
    by (simp add: read_file_transfer_quic_frame_def read_exact_header5 read_exact_append frame_defs)
qed (auto simp: build_file_transfer_frame_def read_file_transfer_quic_frame_def read_exact_def
    split: if_splits)

section \<open>Shell streams\<close>

text \<open>The shell reader has no end-of-stream value: a stream that ends before a header is an error.\<close>

lemma read_shell_frame_built:
  assumes "build_shell_frame t p = Inr f"
  shows "read_shell_frame (f @ rest) = Inr (\<lparr>sf_message_type = t, sf_payload = p\<rparr>, rest)"
proof -
  from assms have len: "length p \<le> 65535" and f: "f = t # u16_be (of_nat (length p)) @ p"
    by (auto simp: build_shell_frame_def SHELL_MAX_PAYLOAD_LEN_def split: if_splits)
  then show ?thesis
    by (simp add: read_shell_frame_def read_exact_header3 read_exact_append frame_defs)
qed

text \<open>A frame cut short anywhere is an error, never a shorter frame.\<close>

lemma read_shell_frame_truncated:
  assumes "build_shell_frame t p = Inr (s @ tail_bytes)" and "tail_bytes \<noteq> []"
  shows "read_shell_frame s = Inl (if length s < 3 then HeaderEof else PayloadEof)"
proof (cases "length s < 3")
  case False
  from assms have len: "length p \<le> 65535" and f: "s @ tail_bytes = t # u16_be (of_nat (length p)) @ p"
    by (auto simp: build_shell_frame_def SHELL_MAX_PAYLOAD_LEN_def split: if_splits)
  define hd where "hd = t # u16_be (of_nat (length p))"
  have hd3: "length hd = 3" by (simp add: hd_def codec_simps)
  have "s @ tail_bytes = hd @ p" using f by (simp add: hd_def)
  then have "take 3 s = hd" "p = drop 3 s @ tail_bytes"
    using False hd3 by (auto dest: arg_cong [of _ _ "take 3"] arg_cong [of _ _ "drop 3"])
  then obtain q where s: "s = hd @ q" and p: "p = q @ tail_bytes"
    by (metis append_take_drop_id)
  have "length q < length p" using assms(2) by (simp add: p)
  then show ?thesis
    using len False
    by (simp add: read_shell_frame_def s hd_def read_exact_header3 frame_defs)
      (auto simp: read_exact_def)
qed (simp add: read_shell_frame_def read_exact_def)

section \<open>Properties\<close>

text \<open>C27. A chat, a file-transfer and a shell stream decode to the messages that were written. If the sender
  writes a list of chat messages, each accepted by \<open>build_chat_frame\<close>, the receive loop over
  \<open>read_chat_tcp_frame\<close> returns exactly that list, in order, and then the end of the stream, whatever
  the payload bytes are.\<close>

theorem chat_stream_delivered:
  assumes "try_map (\<lambda>(t, p). build_chat_frame t p) msgs = Inr frames"
    and "length (concat frames) < fuel"
  shows "read_frames read_chat_tcp_frame fuel (concat frames) = Inr msgs"
  using assms by (rule chat_reader.read_frames_written)

theorem chat_stream_delivered_witness:
  "read_frames read_chat_tcp_frame 9 (concat [[1, 0, 2, 7, 8], [2, 0, 0]])
     = Inr [(1, [7, 8]), (2, [])]"
  by (rule chat_stream_delivered)
    (simp_all add: build_chat_frame_def CHAT_MAX_PAYLOAD_LEN_def u16_be_def)

text \<open>A file-transfer stream decodes to the messages that were written: the receive loop over
  \<open>read_file_transfer_quic_frame\<close> returns the list of messages the sender built, in order.\<close>

theorem file_transfer_stream_delivered:
  assumes "try_map (\<lambda>(t, p). build_file_transfer_frame t p) msgs = Inr frames"
    and "length (concat frames) < fuel"
  shows "read_frames read_file_transfer_quic_frame fuel (concat frames) = Inr msgs"
  using assms by (rule file_transfer_reader.read_frames_written)

theorem file_transfer_stream_delivered_witness:
  "read_frames read_file_transfer_quic_frame 20 (concat [[3, 0, 0, 0, 1, 9], [4, 0, 0, 0, 0]])
     = Inr [(3, [9]), (4, [])]"
  by (rule file_transfer_stream_delivered)
    (simp_all add: build_file_transfer_frame_def FILE_TRANSFER_MAX_PAYLOAD_LEN_def u32_be_def)

text \<open>A control frame parses to a message if and only if building that message gives the frame:
  \<open>parse_control_frame\<close> and \<open>build_control_frame\<close> are inverse partial functions, and a payload is
  refused exactly when it is longer than the 65535 bytes the length field can name.\<close>

theorem control_frame_exact:
  "(parse_control_frame f = Inr \<lparr>cf_message_type = t, cf_payload = p\<rparr>
      \<longleftrightarrow> build_control_frame t p = Inr f)
   \<and> (build_control_frame t p = Inl CtlPayloadTooLarge \<longleftrightarrow> 65535 < length p)"
  using parse_control_frame_built [of t p f]
    build_control_frame_parsed [of f "\<lparr>cf_message_type = t, cf_payload = p\<rparr>"]
  by (auto simp: build_control_frame_def CONTROL_MAX_PAYLOAD_LEN_def)

text \<open>A concatenation of file-transfer frames can be cut into frames in one way only.\<close>

theorem file_transfer_stream_unique:
  assumes "list_all (\<lambda>f. \<exists>r. parse_file_transfer_frame f = Inr r) fs"
    and "list_all (\<lambda>g. \<exists>r. parse_file_transfer_frame g = Inr r) gs"
    and "concat fs = concat gs"
  shows "fs = gs"
  using assms(3)
  by (rule file_transfer_codec.stream_unique [rotated 2])
    (use assms in \<open>fastforce simp: list_all_iff map_sum_Inr_iff file_transfer_parts_def\<close>)+

theorem file_transfer_stream_unique_witness:
  "[[3, 0, 0, 0, 1, 9], [4, 0, 0, 0, 0]] = [[3, 0, 0, 0, 1, 9], [4, 0, 0, 0, 0 :: u8]]"
  by (rule file_transfer_stream_unique)
    (simp_all add: parse_file_transfer_frame_def FILE_TRANSFER_MAX_PAYLOAD_LEN_def u32_of_be_def)

text \<open>Reading a shell frame off a stream takes exactly one built frame and leaves the rest, and a
  frame cut anywhere is an error, in the header or in the payload, never a shorter message.\<close>

theorem shell_frame_read:
  assumes "build_shell_frame t p = Inr f" and "n < length f"
  shows "read_shell_frame (f @ rest) = Inr (\<lparr>sf_message_type = t, sf_payload = p\<rparr>, rest)
    \<and> read_shell_frame (take n f) = Inl (if n < 3 then HeaderEof else PayloadEof)"
  using read_shell_frame_built [of t p f rest] read_shell_frame_truncated [of t p "take n f" "drop n f"] assms
  by simp

theorem shell_frame_read_witness:
  "read_shell_frame ([1, 0, 2, 7, 8] @ [5]) = Inr (\<lparr>sf_message_type = 1, sf_payload = [7, 8]\<rparr>, [5])
   \<and> read_shell_frame (take 4 [1, 0, 2, 7, 8]) = Inl (if 4 < (3 :: nat) then HeaderEof else PayloadEof)"
  by (rule shell_frame_read) (simp_all add: build_shell_frame_def SHELL_MAX_PAYLOAD_LEN_def u16_be_def)

text \<open>The shell resize and exit payloads round trip, and a payload shorter than four bytes is
  refused by both parsers.\<close>

theorem shell_payload_roundtrip:
  "parse_shell_resize_payload (build_shell_resize_payload cols rows) = Some (cols, rows)
   \<and> parse_shell_exit_payload (build_shell_exit_payload code) = Some code
   \<and> (parse_shell_resize_payload p = None \<longleftrightarrow> length p < 4)
   \<and> (parse_shell_exit_payload p = None \<longleftrightarrow> length p < 4)"
  by (simp add: parse_shell_resize_payload_def build_shell_resize_payload_def
      parse_shell_exit_payload_def build_shell_exit_payload_def nth_append codec_simps)

end
