(* ===== verification/Display_Records.thy ===== *)
theory Display_Records
  imports Talos_Prelude
begin

text \<open>
  The display-stream records of \<open>talos_protocol/src/lib.rs\<close>: the seven record types the agent
  sends to the viewer, their builders and the decoder. The decoder is modelled with every
  slice it takes and every \<open>unwrap\<close> it performs as a possible \<open>Panic\<close>, one definition per arm of
  its \<open>match\<close>.
\<close>

section \<open>Records\<close>

definition DISPLAY_RECORD_FRAME_BEGIN :: u8 where "DISPLAY_RECORD_FRAME_BEGIN = 0x01"
definition DISPLAY_RECORD_FRAME_END :: u8 where "DISPLAY_RECORD_FRAME_END = 0x03"
definition DISPLAY_RECORD_KEYFRAME :: u8 where "DISPLAY_RECORD_KEYFRAME = 0x04"
definition DISPLAY_RECORD_MOVE_RECT :: u8 where "DISPLAY_RECORD_MOVE_RECT = 0x05"
definition DISPLAY_RECORD_ATLAS_H264 :: u8 where "DISPLAY_RECORD_ATLAS_H264 = 0x06"
definition DISPLAY_RECORD_EXPERIMENTAL_ATLAS_COMMANDS :: u8 where
  "DISPLAY_RECORD_EXPERIMENTAL_ATLAS_COMMANDS = 0x07"
definition DISPLAY_RECORD_EXPERIMENTAL_ATLAS_COMMANDS_CHUNK :: u8 where
  "DISPLAY_RECORD_EXPERIMENTAL_ATLAS_COMMANDS_CHUNK = 0x08"

lemmas display_record_types = DISPLAY_RECORD_FRAME_BEGIN_def DISPLAY_RECORD_FRAME_END_def
  DISPLAY_RECORD_KEYFRAME_def DISPLAY_RECORD_MOVE_RECT_def DISPLAY_RECORD_ATLAS_H264_def
  DISPLAY_RECORD_EXPERIMENTAL_ATLAS_COMMANDS_def DISPLAY_RECORD_EXPERIMENTAL_ATLAS_COMMANDS_CHUNK_def

record DisplayAtlasRect =
  dst_x :: u32
  dst_y :: u32
  rect_width :: u32
  rect_height :: u32
  atlas_x :: u32
  atlas_y :: u32

text \<open>The fields of each constructor are in the order of the source: the frame id first, then
  the fields as \<open>enum DisplayRecord\<close> lists them.\<close>

datatype DisplayRecord =
    FrameBegin u64 u32 u32
  | FrameEnd u64
  | Keyframe u64 u32 u32 u32 bytes
  | MoveRect u64 u32 u32 u32 u32 u32 u32
  | AtlasH264 u64 u32 u32 u32 "DisplayAtlasRect list" bytes
  | ExperimentalAtlasCommands u64 u32 u32 "DisplayAtlasRect list" bytes
  | ExperimentalAtlasCommandsChunk u64 u32 u32 u32 u32 u32 "DisplayAtlasRect list" bytes

datatype DisplayRecordParseError = DrTooShort | DrLengthMismatch | DrInvalidPayload

record ParsedDisplayRecord =
  pd_message_type :: u8
  pd_payload :: bytes

section \<open>Builders\<close>

definition build_display_record :: "u8 \<Rightarrow> bytes \<Rightarrow> bytes" where
  "build_display_record message_type payload =
     [message_type] @ u32_le (of_nat (length payload)) @ payload"

definition rect_bytes :: "DisplayAtlasRect \<Rightarrow> bytes" where
  "rect_bytes rect = u32_le (dst_x rect) @ u32_le (dst_y rect) @ u32_le (rect_width rect)
     @ u32_le (rect_height rect) @ u32_le (atlas_x rect) @ u32_le (atlas_y rect)"

definition rects_bytes :: "DisplayAtlasRect list \<Rightarrow> bytes" where
  "rects_bytes rects = concat (map rect_bytes rects)"

definition build_display_frame_begin :: "u64 \<Rightarrow> u32 \<Rightarrow> u32 \<Rightarrow> bytes" where
  "build_display_frame_begin frame_id width height =
     build_display_record DISPLAY_RECORD_FRAME_BEGIN
       (u64_le frame_id @ u32_le width @ u32_le height)"

definition build_display_frame_end :: "u64 \<Rightarrow> bytes" where
  "build_display_frame_end frame_id =
     build_display_record DISPLAY_RECORD_FRAME_END (u64_le frame_id)"

definition build_display_move_rect ::
    "u64 \<Rightarrow> u32 \<Rightarrow> u32 \<Rightarrow> u32 \<Rightarrow> u32 \<Rightarrow> u32 \<Rightarrow> u32 \<Rightarrow> bytes" where
  "build_display_move_rect frame_id src_x src_y to_x to_y width height =
     build_display_record DISPLAY_RECORD_MOVE_RECT
       (u64_le frame_id @ u32_le src_x @ u32_le src_y @ u32_le to_x @ u32_le to_y
          @ u32_le width @ u32_le height)"

definition build_display_keyframe :: "u64 \<Rightarrow> u32 \<Rightarrow> u32 \<Rightarrow> u32 \<Rightarrow> bytes \<Rightarrow> bytes" where
  "build_display_keyframe frame_id width height raw_len payload =
     build_display_record DISPLAY_RECORD_KEYFRAME
       (u64_le frame_id @ u32_le width @ u32_le height @ u32_le raw_len @ payload)"

definition build_display_atlas_h264 ::
    "u64 \<Rightarrow> u32 \<Rightarrow> u32 \<Rightarrow> u32 \<Rightarrow> DisplayAtlasRect list \<Rightarrow> bytes \<Rightarrow> bytes" where
  "build_display_atlas_h264 frame_id flags atlas_width atlas_height rects payload =
     build_display_record DISPLAY_RECORD_ATLAS_H264
       (u64_le frame_id @ u32_le flags @ u32_le atlas_width @ u32_le atlas_height
          @ u32_le (of_nat (length rects)) @ rects_bytes rects @ payload)"

definition build_display_experimental_atlas_commands ::
    "u64 \<Rightarrow> u32 \<Rightarrow> u32 \<Rightarrow> DisplayAtlasRect list \<Rightarrow> bytes \<Rightarrow> bytes" where
  "build_display_experimental_atlas_commands frame_id atlas_width atlas_height rects tile_commands =
     build_display_record DISPLAY_RECORD_EXPERIMENTAL_ATLAS_COMMANDS
       (u64_le frame_id @ u32_le atlas_width @ u32_le atlas_height
          @ u32_le (of_nat (length rects)) @ u32_le (of_nat (length tile_commands))
          @ rects_bytes rects @ tile_commands)"

definition build_display_experimental_atlas_commands_chunk ::
    "u64 \<Rightarrow> u32 \<Rightarrow> u32 \<Rightarrow> u32 \<Rightarrow> u32 \<Rightarrow> u32 \<Rightarrow> DisplayAtlasRect list \<Rightarrow> bytes \<Rightarrow> bytes" where
  "build_display_experimental_atlas_commands_chunk frame_id flags chunk_index chunk_count
      atlas_width atlas_height rects tile_commands =
     build_display_record DISPLAY_RECORD_EXPERIMENTAL_ATLAS_COMMANDS_CHUNK
       (u64_le frame_id @ u32_le flags @ u32_le chunk_index @ u32_le chunk_count
          @ u32_le atlas_width @ u32_le atlas_height
          @ u32_le (of_nat (length rects)) @ u32_le (of_nat (length tile_commands))
          @ rects_bytes rects @ tile_commands)"

section \<open>Decoder\<close>

definition parse_display_record :: "bytes \<Rightarrow> DisplayRecordParseError + ParsedDisplayRecord" where
  "parse_display_record frame =
     (if length frame < 5 then Inl DrTooShort
      else let payload_len = unat (u32_of_le [frame ! 1, frame ! 2, frame ! 3, frame ! 4]) in
        if length frame \<noteq> 5 + payload_len then Inl DrLengthMismatch
        else Inr \<lparr>pd_message_type = frame ! 0, pd_payload = drop 5 frame\<rparr>)"

text \<open>\<open>u32::from_le_bytes(payload[i..i + 4].try_into().unwrap())\<close> and its 64-bit form.\<close>

definition u32_at :: "bytes \<Rightarrow> nat \<Rightarrow> 'e fault + u32" where
  "u32_at payload i = rbind (ok_or Panic (get_range i (i + 4) payload)) (\<lambda>b. Inr (u32_of_le b))"

definition u64_at :: "bytes \<Rightarrow> nat \<Rightarrow> 'e fault + u64" where
  "u64_at payload i = rbind (ok_or Panic (get_range i (i + 8) payload)) (\<lambda>b. Inr (u64_of_le b))"

definition rect_in_atlas :: "u32 \<Rightarrow> u32 \<Rightarrow> DisplayAtlasRect \<Rightarrow> bool" where
  "rect_in_atlas atlas_width atlas_height rect \<longleftrightarrow>
     \<not> (rect_width rect = 0
        \<or> rect_height rect = 0
        \<or> checked_add (atlas_x rect) (rect_width rect) = None
        \<or> checked_add (atlas_y rect) (rect_height rect) = None
        \<or> atlas_x rect + rect_width rect > atlas_width
        \<or> atlas_y rect + rect_height rect > atlas_height)"

text \<open>The loop over the rectangle table, which the three atlas arms share word for word:
  \<open>decode_rects payload atlas_width atlas_height n cursor rects\<close> is the loop with \<open>n\<close> rounds left.\<close>

fun decode_rects :: "bytes \<Rightarrow> u32 \<Rightarrow> u32 \<Rightarrow> nat \<Rightarrow> nat \<Rightarrow> DisplayAtlasRect list
     \<Rightarrow> DisplayRecordParseError fault + DisplayAtlasRect list" where
  "decode_rects payload atlas_width atlas_height 0 cursor rects = Inr rects"
| "decode_rects payload atlas_width atlas_height (Suc n) cursor rects =
     rbind (u32_at payload cursor) (\<lambda>dx.
     rbind (u32_at payload (cursor + 4)) (\<lambda>dy.
     rbind (u32_at payload (cursor + 8)) (\<lambda>w.
     rbind (u32_at payload (cursor + 12)) (\<lambda>h.
     rbind (u32_at payload (cursor + 16)) (\<lambda>ax.
     rbind (u32_at payload (cursor + 20)) (\<lambda>ay.
       let rect = \<lparr>dst_x = dx, dst_y = dy, rect_width = w, rect_height = h, atlas_x = ax, atlas_y = ay\<rparr> in
       if \<not> rect_in_atlas atlas_width atlas_height rect then Inl (Err DrInvalidPayload)
       else decode_rects payload atlas_width atlas_height n (cursor + 24) (rects @ [rect])))))))"

definition decode_frame_begin :: "bytes \<Rightarrow> DisplayRecordParseError fault + DisplayRecord" where
  "decode_frame_begin payload =
     (if length payload \<noteq> 16 then Inl (Err DrInvalidPayload)
      else rbind (u64_at payload 0) (\<lambda>frame_id.
           rbind (u32_at payload 8) (\<lambda>width.
           rbind (u32_at payload 12) (\<lambda>height.
           Inr (FrameBegin frame_id width height)))))"

definition decode_frame_end :: "bytes \<Rightarrow> DisplayRecordParseError fault + DisplayRecord" where
  "decode_frame_end payload =
     (if length payload \<noteq> 8 then Inl (Err DrInvalidPayload)
      else rbind (u64_at payload 0) (\<lambda>frame_id. Inr (FrameEnd frame_id)))"

definition decode_keyframe :: "bytes \<Rightarrow> DisplayRecordParseError fault + DisplayRecord" where
  "decode_keyframe payload =
     (if length payload < 20 then Inl (Err DrInvalidPayload)
      else rbind (u64_at payload 0) (\<lambda>frame_id.
           rbind (u32_at payload 8) (\<lambda>width.
           rbind (u32_at payload 12) (\<lambda>height.
           rbind (u32_at payload 16) (\<lambda>raw_len.
           rbind (ok_or Panic (get_range 20 (length payload) payload)) (\<lambda>body.
           Inr (Keyframe frame_id width height raw_len body)))))))"

definition decode_move_rect :: "bytes \<Rightarrow> DisplayRecordParseError fault + DisplayRecord" where
  "decode_move_rect payload =
     (if length payload \<noteq> 32 then Inl (Err DrInvalidPayload)
      else rbind (u64_at payload 0) (\<lambda>frame_id.
           rbind (u32_at payload 8) (\<lambda>src_x.
           rbind (u32_at payload 12) (\<lambda>src_y.
           rbind (u32_at payload 16) (\<lambda>to_x.
           rbind (u32_at payload 20) (\<lambda>to_y.
           rbind (u32_at payload 24) (\<lambda>width.
           rbind (u32_at payload 28) (\<lambda>height.
           Inr (MoveRect frame_id src_x src_y to_x to_y width height)))))))))"

definition decode_atlas_h264 :: "bytes \<Rightarrow> DisplayRecordParseError fault + DisplayRecord" where
  "decode_atlas_h264 payload =
     (if length payload < 24 then Inl (Err DrInvalidPayload)
      else rbind (u64_at payload 0) (\<lambda>frame_id.
           rbind (u32_at payload 8) (\<lambda>flags.
           rbind (u32_at payload 12) (\<lambda>atlas_width.
           rbind (u32_at payload 16) (\<lambda>atlas_height.
           rbind (u32_at payload 20) (\<lambda>rect_count_word.
             let rect_count = unat rect_count_word in
             if atlas_width = 0 \<or> atlas_height = 0 \<or> rect_count = 0 then Inl (Err DrInvalidPayload)
             else
               rbind (ok_or (Err DrInvalidPayload) (usize_checked_mul rect_count 24)) (\<lambda>rect_table_len.
               rbind (ok_or (Err DrInvalidPayload) (usize_checked_add 24 rect_table_len)) (\<lambda>payload_offset.
                 if length payload \<le> payload_offset then Inl (Err DrInvalidPayload)
                 else
                   rbind (decode_rects payload atlas_width atlas_height rect_count 24 []) (\<lambda>rects.
                   rbind (ok_or Panic (get_range payload_offset (length payload) payload)) (\<lambda>body.
                   Inr (AtlasH264 frame_id flags atlas_width atlas_height rects body)))))))))))"

definition decode_experimental_atlas_commands ::
    "bytes \<Rightarrow> DisplayRecordParseError fault + DisplayRecord" where
  "decode_experimental_atlas_commands payload =
     (if length payload < 24 then Inl (Err DrInvalidPayload)
      else rbind (u64_at payload 0) (\<lambda>frame_id.
           rbind (u32_at payload 8) (\<lambda>atlas_width.
           rbind (u32_at payload 12) (\<lambda>atlas_height.
           rbind (u32_at payload 16) (\<lambda>rect_count_word.
           rbind (u32_at payload 20) (\<lambda>tile_commands_len_word.
             let rect_count = unat rect_count_word; tile_commands_len = unat tile_commands_len_word in
             if atlas_width = 0 \<or> atlas_height = 0 then Inl (Err DrInvalidPayload)
             else
               rbind (ok_or (Err DrInvalidPayload) (usize_checked_mul rect_count 24)) (\<lambda>rect_table_len.
               rbind (ok_or (Err DrInvalidPayload) (usize_checked_add 24 rect_table_len)) (\<lambda>commands_offset.
               rbind (ok_or (Err DrInvalidPayload)
                        (usize_checked_add commands_offset tile_commands_len)) (\<lambda>expected_len.
                 if length payload \<noteq> expected_len then Inl (Err DrInvalidPayload)
                 else
                   rbind (decode_rects payload atlas_width atlas_height rect_count 24 []) (\<lambda>rects.
                   rbind (ok_or Panic (get_range commands_offset expected_len payload)) (\<lambda>cmds.
                   Inr (ExperimentalAtlasCommands frame_id atlas_width atlas_height rects cmds))))))))))))"

definition decode_experimental_atlas_commands_chunk ::
    "bytes \<Rightarrow> DisplayRecordParseError fault + DisplayRecord" where
  "decode_experimental_atlas_commands_chunk payload =
     (if length payload < 36 then Inl (Err DrInvalidPayload)
      else rbind (u64_at payload 0) (\<lambda>frame_id.
           rbind (u32_at payload 8) (\<lambda>flags.
           rbind (u32_at payload 12) (\<lambda>chunk_index.
           rbind (u32_at payload 16) (\<lambda>chunk_count.
           rbind (u32_at payload 20) (\<lambda>atlas_width.
           rbind (u32_at payload 24) (\<lambda>atlas_height.
           rbind (u32_at payload 28) (\<lambda>rect_count_word.
           rbind (u32_at payload 32) (\<lambda>tile_commands_len_word.
             let rect_count = unat rect_count_word; tile_commands_len = unat tile_commands_len_word in
             if atlas_width = 0 \<or> atlas_height = 0 \<or> chunk_count = 0 \<or> chunk_index \<ge> chunk_count
             then Inl (Err DrInvalidPayload)
             else
               rbind (ok_or (Err DrInvalidPayload) (usize_checked_mul rect_count 24)) (\<lambda>rect_table_len.
               rbind (ok_or (Err DrInvalidPayload) (usize_checked_add 36 rect_table_len)) (\<lambda>commands_offset.
               rbind (ok_or (Err DrInvalidPayload)
                        (usize_checked_add commands_offset tile_commands_len)) (\<lambda>expected_len.
                 if length payload \<noteq> expected_len then Inl (Err DrInvalidPayload)
                 else
                   rbind (decode_rects payload atlas_width atlas_height rect_count 36 []) (\<lambda>rects.
                   rbind (ok_or Panic (get_range commands_offset expected_len payload)) (\<lambda>cmds.
                   Inr (ExperimentalAtlasCommandsChunk frame_id flags chunk_index chunk_count
                          atlas_width atlas_height rects cmds)))))))))))))))"

definition decode_display_record :: "bytes \<Rightarrow> DisplayRecordParseError fault + DisplayRecord" where
  "decode_display_record frame =
     (case parse_display_record frame of
        Inl e \<Rightarrow> Inl (Err e)
      | Inr parsed \<Rightarrow>
          let t = pd_message_type parsed; payload = pd_payload parsed in
          if t = DISPLAY_RECORD_FRAME_BEGIN then decode_frame_begin payload
          else if t = DISPLAY_RECORD_FRAME_END then decode_frame_end payload
          else if t = DISPLAY_RECORD_KEYFRAME then decode_keyframe payload
          else if t = DISPLAY_RECORD_MOVE_RECT then decode_move_rect payload
          else if t = DISPLAY_RECORD_ATLAS_H264 then decode_atlas_h264 payload
          else if t = DISPLAY_RECORD_EXPERIMENTAL_ATLAS_COMMANDS
            then decode_experimental_atlas_commands payload
          else if t = DISPLAY_RECORD_EXPERIMENTAL_ATLAS_COMMANDS_CHUNK
            then decode_experimental_atlas_commands_chunk payload
          else Inl (Err DrInvalidPayload))"

section \<open>The format, as a specification\<close>

text \<open>\<open>encode\<close> picks the builder of a record; \<open>valid_record\<close> says which records the format carries:
  the decoder's conditions on the fields, and a payload that its 32-bit length field can hold.\<close>

fun encode :: "DisplayRecord \<Rightarrow> bytes" where
  "encode (FrameBegin fid w h) = build_display_frame_begin fid w h"
| "encode (FrameEnd fid) = build_display_frame_end fid"
| "encode (Keyframe fid w h raw body) = build_display_keyframe fid w h raw body"
| "encode (MoveRect fid sx sy dx dy w h) = build_display_move_rect fid sx sy dx dy w h"
| "encode (AtlasH264 fid fl aw ah rects body) = build_display_atlas_h264 fid fl aw ah rects body"
| "encode (ExperimentalAtlasCommands fid aw ah rects cmds) =
     build_display_experimental_atlas_commands fid aw ah rects cmds"
| "encode (ExperimentalAtlasCommandsChunk fid fl i n aw ah rects cmds) =
     build_display_experimental_atlas_commands_chunk fid fl i n aw ah rects cmds"

fun valid_record :: "DisplayRecord \<Rightarrow> bool" where
  "valid_record (FrameBegin fid w h) = True"
| "valid_record (FrameEnd fid) = True"
| "valid_record (Keyframe fid w h raw body) = (20 + length body < 2 ^ 32)"
| "valid_record (MoveRect fid sx sy dx dy w h) = True"
| "valid_record (AtlasH264 fid fl aw ah rects body) =
     (aw \<noteq> 0 \<and> ah \<noteq> 0 \<and> rects \<noteq> [] \<and> body \<noteq> [] \<and> list_all (rect_in_atlas aw ah) rects
      \<and> 24 + 24 * length rects + length body < 2 ^ 32)"
| "valid_record (ExperimentalAtlasCommands fid aw ah rects cmds) =
     (aw \<noteq> 0 \<and> ah \<noteq> 0 \<and> list_all (rect_in_atlas aw ah) rects
      \<and> 24 + 24 * length rects + length cmds < 2 ^ 32)"
| "valid_record (ExperimentalAtlasCommandsChunk fid fl i n aw ah rects cmds) =
     (aw \<noteq> 0 \<and> ah \<noteq> 0 \<and> n \<noteq> 0 \<and> i < n \<and> list_all (rect_in_atlas aw ah) rects
      \<and> 36 + 24 * length rects + length cmds < 2 ^ 32)"

text \<open>The rectangle table of a payload.\<close>

definition rect_of :: "bytes \<Rightarrow> DisplayAtlasRect" where
  "rect_of b = \<lparr>dst_x = u32_of_le (take 4 b), dst_y = u32_of_le (take 4 (drop 4 b)),
     rect_width = u32_of_le (take 4 (drop 8 b)), rect_height = u32_of_le (take 4 (drop 12 b)),
     atlas_x = u32_of_le (take 4 (drop 16 b)), atlas_y = u32_of_le (take 4 (drop 20 b))\<rparr>"

fun rects_of :: "nat \<Rightarrow> bytes \<Rightarrow> DisplayAtlasRect list" where
  "rects_of 0 b = []"
| "rects_of (Suc n) b = rect_of b # rects_of n (drop 24 b)"

lemma u32_at_eq: "u32_at p i = (if i + 4 \<le> length p then Inr (u32_of_le (take 4 (drop i p))) else Inl Panic)"
  by (simp add: u32_at_def get_range_def slice_def)

lemma u64_at_eq: "u64_at p i = (if i + 8 \<le> length p then Inr (u64_of_le (take 8 (drop i p))) else Inl Panic)"
  by (simp add: u64_at_def get_range_def slice_def)

lemma decode_rects_eq:
  "cursor + 24 * n \<le> length p \<Longrightarrow>
   decode_rects p aw ah n cursor acc =
     (if list_all (rect_in_atlas aw ah) (rects_of n (drop cursor p))
      then Inr (acc @ rects_of n (drop cursor p)) else Inl (Err DrInvalidPayload))"
proof (induction n arbitrary: cursor acc)
  case (Suc n)
  have "decode_rects p aw ah (Suc n) cursor acc =
      (if \<not> rect_in_atlas aw ah (rect_of (drop cursor p)) then Inl (Err DrInvalidPayload)
       else decode_rects p aw ah n (cursor + 24) (acc @ [rect_of (drop cursor p)]))"
    using Suc.prems by (simp add: u32_at_eq rect_of_def Let_def add.commute)
  also have "\<dots> = (if list_all (rect_in_atlas aw ah) (rects_of (Suc n) (drop cursor p))
      then Inr (acc @ rects_of (Suc n) (drop cursor p)) else Inl (Err DrInvalidPayload))"
    using Suc.IH [of "cursor + 24" "acc @ [rect_of (drop cursor p)]"] Suc.prems
    by (simp add: add.commute)
  finally show ?case .
qed simp

lemma length_rect_bytes [codec_simps]: "length (rect_bytes r) = 24"
  by (simp add: rect_bytes_def codec_simps)

lemma length_rects_bytes [codec_simps]: "length (rects_bytes rs) = 24 * length rs"
  by (induction rs) (auto simp: rects_bytes_def codec_simps)

lemma length_rects_of [simp]: "length (rects_of n b) = n"
  by (induction n arbitrary: b) auto

lemma rects_of_nonempty: "rects_of n b = [] \<longleftrightarrow> n = 0"
  by (cases n) auto

lemma rect_of_bytes: "rect_of (rect_bytes r @ b) = r"
  by (simp add: rect_of_def rect_bytes_def codec_simps)

lemma rects_of_bytes [codec_simps]: "rects_of (length rs) (rects_bytes rs @ b) = rs"
  by (induction rs) (auto simp: rects_bytes_def rect_of_bytes codec_simps)

lemma rect_bytes_of: "24 \<le> length b \<Longrightarrow> rect_bytes (rect_of b) = take 24 b"
proof -
  assume "24 \<le> length b"
  then have "rect_bytes (rect_of b) = take 4 b @ take 4 (drop 4 b) @ take 4 (drop 8 b)
      @ take 4 (drop 12 b) @ take 4 (drop 16 b) @ take 4 (drop 20 b)"
    by (simp add: rect_bytes_def rect_of_def u32_le_inverse)
  also have "\<dots> = take (4 + (4 + (4 + (4 + (4 + 4))))) b"
    by (simp only: take_add drop_drop) simp
  finally show ?thesis by simp
qed

lemma rects_bytes_of: "24 * n \<le> length b \<Longrightarrow> rects_bytes (rects_of n b) = take (24 * n) b"
proof (induction n arbitrary: b)
  case (Suc n)
  then have "rects_bytes (rects_of (Suc n) b) = take 24 b @ take (24 * n) (drop 24 b)"
    by (simp add: rects_bytes_def rect_bytes_of)
  also have "\<dots> = take (24 * Suc n) b" by (simp only: mult_Suc_right take_add)
  finally show ?case .
qed (simp add: rects_bytes_def)

lemma u32_le_bytes [codec_simps]: "[u32_le w ! 0, u32_le w ! Suc 0, u32_le w ! 2, u32_le w ! 3] = u32_le w"
  by (rule nth_equalityI) (auto simp: codec_simps less_Suc_eq numeral_eq_Suc)

lemma parse_built:
  "length p < 2 ^ 32 \<Longrightarrow>
   parse_display_record (build_display_record t p) = Inr \<lparr>pd_message_type = t, pd_payload = p\<rparr>"
  by (simp add: parse_display_record_def build_display_record_def Let_def nth_append codec_simps
      unat_of_nat_bound)

lemma parse_display_record_iff:
  "parse_display_record f = Inr \<lparr>pd_message_type = t, pd_payload = p\<rparr> \<longleftrightarrow>
   length p < 2 ^ 32 \<and> f = build_display_record t p" (is "?parsed \<longleftrightarrow> ?built")
proof
  assume parsed: ?parsed
  then have "5 \<le> length f" by (auto simp: parse_display_record_def split: if_splits)
  then obtain a b c d e q where f: "f = a # b # c # d # e # q"
    by (auto simp: numeral_eq_Suc Suc_le_length_iff)
  from parsed have t: "t = a" "p = q" and len: "length q = unat (u32_of_le [b, c, d, e])"
    by (auto simp: f parse_display_record_def Let_def split: if_splits)
  have "u32_le (of_nat (length q)) = [b, c, d, e]"
    using len by (simp add: u32_le_inverse)
  moreover have "length q < 2 ^ 32"
    using len unat_bound [of "u32_of_le [b, c, d, e]"] by simp
  ultimately show ?built by (simp add: t f build_display_record_def)
qed (auto simp: parse_built)

subsection \<open>The arms on built payloads\<close>

lemmas field_at = u32_at_eq u64_at_eq get_range_def slice_def Let_def codec_simps

lemma usize_table_ok:
  "n < 2 ^ 32 \<Longrightarrow> usize_checked_mul n 24 = Some (24 * n)"
  "n < 2 ^ 32 \<Longrightarrow> k \<le> 36 \<Longrightarrow> usize_checked_add k (24 * n) = Some (k + 24 * n)"
  "n < 2 ^ 32 \<Longrightarrow> m < 2 ^ 32 \<Longrightarrow> k \<le> 36 \<Longrightarrow>
     usize_checked_add (k + 24 * n) m = Some (k + 24 * n + m)"
  by (simp_all add: usize_checked_mul_def usize_checked_add_def usize_max_def)

lemma decode_atlas_h264_built:
  assumes "valid_record (AtlasH264 fid fl aw ah rects body)"
  shows "decode_atlas_h264 (u64_le fid @ u32_le fl @ u32_le aw @ u32_le ah
           @ u32_le (of_nat (length rects)) @ rects_bytes rects @ body)
         = Inr (AtlasH264 fid fl aw ah rects body)"
  using assms
  by (simp add: decode_atlas_h264_def field_at unat_of_nat_bound usize_table_ok decode_rects_eq)

lemma decode_experimental_atlas_commands_built:
  assumes "valid_record (ExperimentalAtlasCommands fid aw ah rects cmds)"
  shows "decode_experimental_atlas_commands (u64_le fid @ u32_le aw @ u32_le ah
           @ u32_le (of_nat (length rects)) @ u32_le (of_nat (length cmds)) @ rects_bytes rects @ cmds)
         = Inr (ExperimentalAtlasCommands fid aw ah rects cmds)"
  using assms
  by (simp add: decode_experimental_atlas_commands_def field_at unat_of_nat_bound usize_table_ok
      decode_rects_eq)

lemma decode_experimental_atlas_commands_chunk_built:
  assumes "valid_record (ExperimentalAtlasCommandsChunk fid fl i n aw ah rects cmds)"
  shows "decode_experimental_atlas_commands_chunk (u64_le fid @ u32_le fl @ u32_le i @ u32_le n
           @ u32_le aw @ u32_le ah
           @ u32_le (of_nat (length rects)) @ u32_le (of_nat (length cmds)) @ rects_bytes rects @ cmds)
         = Inr (ExperimentalAtlasCommandsChunk fid fl i n aw ah rects cmds)"
  using assms
  by (simp add: decode_experimental_atlas_commands_chunk_def field_at unat_of_nat_bound usize_table_ok
      decode_rects_eq not_le)

lemma decode_encode: "valid_record r \<Longrightarrow> decode_display_record (encode r) = Inr r"
  by (cases r)
    (simp_all add: decode_display_record_def parse_built display_record_types codec_simps
      build_display_frame_begin_def build_display_frame_end_def build_display_keyframe_def
      build_display_move_rect_def build_display_atlas_h264_def
      build_display_experimental_atlas_commands_def build_display_experimental_atlas_commands_chunk_def
      decode_atlas_h264_built decode_experimental_atlas_commands_built
      decode_experimental_atlas_commands_chunk_built
      decode_frame_begin_def decode_frame_end_def decode_keyframe_def decode_move_rect_def field_at)

subsection \<open>The arms on any payload\<close>

text \<open>A decoded payload is the built payload of the decoded record: each field is the encoding
  of the bytes it was read from, and the decoder reads every byte once.\<close>

lemmas field_inverse = u32_le_inverse u64_le_inverse take_drop_join rects_bytes_of

lemma decode_frame_begin_parsed:
  "decode_frame_begin p = Inr r \<Longrightarrow> length p < 2 ^ 32 \<Longrightarrow>
   valid_record r \<and> encode r = build_display_record DISPLAY_RECORD_FRAME_BEGIN p"
  by (auto simp: decode_frame_begin_def u32_at_eq u64_at_eq build_display_frame_begin_def
      field_inverse split: if_splits)

lemma decode_frame_end_parsed:
  "decode_frame_end p = Inr r \<Longrightarrow> length p < 2 ^ 32 \<Longrightarrow>
   valid_record r \<and> encode r = build_display_record DISPLAY_RECORD_FRAME_END p"
  by (auto simp: decode_frame_end_def u32_at_eq u64_at_eq build_display_frame_end_def
      field_inverse split: if_splits)

lemma decode_keyframe_parsed:
  "decode_keyframe p = Inr r \<Longrightarrow> length p < 2 ^ 32 \<Longrightarrow>
   valid_record r \<and> encode r = build_display_record DISPLAY_RECORD_KEYFRAME p"
  by (auto simp: decode_keyframe_def u32_at_eq u64_at_eq get_range_def slice_def
      build_display_keyframe_def field_inverse split: if_splits)

lemma decode_move_rect_parsed:
  "decode_move_rect p = Inr r \<Longrightarrow> length p < 2 ^ 32 \<Longrightarrow>
   valid_record r \<and> encode r = build_display_record DISPLAY_RECORD_MOVE_RECT p"
  by (auto simp: decode_move_rect_def u32_at_eq u64_at_eq build_display_move_rect_def
      field_inverse split: if_splits)

lemma unat_u32_lt: "unat (w :: u32) < 2 ^ 32"
  using unat_bound [of w] by simp

lemma decode_atlas_h264_parsed:
  assumes dec: "decode_atlas_h264 p = Inr r" and len: "length p < 2 ^ 32"
  shows "valid_record r \<and> encode r = build_display_record DISPLAY_RECORD_ATLAS_H264 p"
proof -
  define n where "n = unat (u32_of_le (take 4 (drop 20 p)))"
  have n: "n < 2 ^ 32" by (simp only: n_def unat_u32_lt)
  have p: "24 \<le> length p" using dec by (auto simp: decode_atlas_h264_def split: if_splits)
  then have count: "u32_le (of_nat n) = take 4 (drop 20 p)"
    by (simp add: n_def u32_le_inverse)
  have off: "24 + 24 * n < length p"
    using dec n by (auto simp: decode_atlas_h264_def u32_at_eq u64_at_eq Let_def usize_table_ok
        n_def [symmetric] not_le split: if_splits)
  show ?thesis
    using dec off len n p
    by (auto simp: decode_atlas_h264_def u32_at_eq u64_at_eq Let_def usize_table_ok get_range_def
        slice_def decode_rects_eq n_def [symmetric] build_display_atlas_h264_def field_inverse count
        rects_of_nonempty split: if_splits)
qed

lemma decode_experimental_atlas_commands_parsed:
  assumes dec: "decode_experimental_atlas_commands p = Inr r" and len: "length p < 2 ^ 32"
  shows "valid_record r \<and> encode r = build_display_record DISPLAY_RECORD_EXPERIMENTAL_ATLAS_COMMANDS p"
proof -
  define n where "n = unat (u32_of_le (take 4 (drop 16 p)))"
  define m where "m = unat (u32_of_le (take 4 (drop 20 p)))"
  have n: "n < 2 ^ 32" and m: "m < 2 ^ 32" by (simp_all only: n_def m_def unat_u32_lt)
  have p: "24 \<le> length p"
    using dec by (auto simp: decode_experimental_atlas_commands_def split: if_splits)
  then have count: "u32_le (of_nat n) = take 4 (drop 16 p)" "u32_le (of_nat m) = take 4 (drop 20 p)"
    by (simp_all add: n_def m_def u32_le_inverse)
  have off: "length p = 24 + 24 * n + m"
    using dec n m by (auto simp: decode_experimental_atlas_commands_def u32_at_eq u64_at_eq Let_def
        usize_table_ok n_def [symmetric] m_def [symmetric] split: if_splits)
  show ?thesis
    using dec len n m p
    by (auto simp: decode_experimental_atlas_commands_def u32_at_eq u64_at_eq Let_def usize_table_ok
        get_range_def slice_def decode_rects_eq n_def [symmetric] m_def [symmetric] off
        build_display_experimental_atlas_commands_def field_inverse count split: if_splits)
qed

lemma decode_experimental_atlas_commands_chunk_parsed:
  assumes dec: "decode_experimental_atlas_commands_chunk p = Inr r" and len: "length p < 2 ^ 32"
  shows "valid_record r \<and>
    encode r = build_display_record DISPLAY_RECORD_EXPERIMENTAL_ATLAS_COMMANDS_CHUNK p"
proof -
  define n where "n = unat (u32_of_le (take 4 (drop 28 p)))"
  define m where "m = unat (u32_of_le (take 4 (drop 32 p)))"
  have n: "n < 2 ^ 32" and m: "m < 2 ^ 32" by (simp_all only: n_def m_def unat_u32_lt)
  have p: "36 \<le> length p"
    using dec by (auto simp: decode_experimental_atlas_commands_chunk_def split: if_splits)
  then have count: "u32_le (of_nat n) = take 4 (drop 28 p)" "u32_le (of_nat m) = take 4 (drop 32 p)"
    by (simp_all add: n_def m_def u32_le_inverse)
  have off: "length p = 36 + 24 * n + m"
    using dec n m by (auto simp: decode_experimental_atlas_commands_chunk_def u32_at_eq u64_at_eq Let_def
        usize_table_ok n_def [symmetric] m_def [symmetric] split: if_splits)
  show ?thesis
    using dec len n m p
    by (auto simp: decode_experimental_atlas_commands_chunk_def u32_at_eq u64_at_eq Let_def usize_table_ok
        get_range_def slice_def decode_rects_eq n_def [symmetric] m_def [symmetric] off not_le
        build_display_experimental_atlas_commands_chunk_def field_inverse count split: if_splits)
qed

lemmas arm_parsed = decode_frame_begin_parsed decode_frame_end_parsed decode_keyframe_parsed
  decode_move_rect_parsed decode_atlas_h264_parsed decode_experimental_atlas_commands_parsed
  decode_experimental_atlas_commands_chunk_parsed

lemma encode_decode:
  assumes "decode_display_record f = Inr r"
  shows "valid_record r \<and> encode r = f"
proof -
  obtain t p where parsed: "parse_display_record f = Inr \<lparr>pd_message_type = t, pd_payload = p\<rparr>"
    using assms by (auto simp: decode_display_record_def split: sum.splits) (metis ParsedDisplayRecord.cases)
  then have "length p < 2 ^ 32" "f = build_display_record t p"
    by (simp_all add: parse_display_record_iff)
  with assms parsed show ?thesis
    by (auto simp: decode_display_record_def Let_def split: if_splits dest!: arm_parsed)
qed

section \<open>Properties\<close>

text \<open>C9. The display record format is exact: a frame decodes to a record if and only if the record
  is valid (its rectangles lie inside the atlas, the chunk index is below the chunk count, the
  payload fits the length field) and the frame is the one the builders write for it. Building
  and decoding are therefore inverse, two records never share a frame, and the decoder accepts
  no frame the builders cannot write.\<close>

theorem decode_display_record_exact:
  "decode_display_record f = Inr r \<longleftrightarrow> valid_record r \<and> encode r = f"
  using decode_encode encode_decode by blast

text \<open>No arm panics on its payload: every slice is inside the length the arm checked first.\<close>

lemma rbind_no_panic:
  "m \<noteq> Inl Panic \<Longrightarrow> (\<And>a. m = Inr a \<Longrightarrow> f a \<noteq> Inl Panic) \<Longrightarrow> rbind m f \<noteq> Inl Panic"
  by (cases m) auto

lemma ok_or_Err_no_panic: "ok_or (Err e) m \<noteq> Inl Panic"
  by (cases m) auto

lemma decode_rects_no_panic:
  "cursor + 24 * n \<le> length p \<Longrightarrow> decode_rects p aw ah n cursor acc \<noteq> Inl Panic"
  by (simp add: decode_rects_eq)

lemma u32_at_no_panic: "i + 4 \<le> length p \<Longrightarrow> u32_at p i \<noteq> Inl Panic"
  by (simp add: u32_at_eq)

lemma u64_at_no_panic: "i + 8 \<le> length p \<Longrightarrow> u64_at p i \<noteq> Inl Panic"
  by (simp add: u64_at_eq)

lemma get_range_no_panic: "a \<le> b \<Longrightarrow> b \<le> length p \<Longrightarrow> ok_or Panic (get_range a b p) \<noteq> Inl Panic"
  by (simp add: get_range_def)

lemma if_no_panic: "(\<not> c \<Longrightarrow> b \<noteq> Inl Panic) \<Longrightarrow> (if c then Inl (Err e) else b) \<noteq> Inl Panic"
  by simp

lemma usize_checked_Some:
  "ok_or e (usize_checked_mul a b) = Inr c \<Longrightarrow> c = a * b"
  "ok_or e (usize_checked_add a b) = Inr c \<Longrightarrow> c = a + b"
  by (auto simp: usize_checked_mul_def usize_checked_add_def split: if_splits)

lemmas no_panic_rules = rbind_no_panic ok_or_Err_no_panic u32_at_no_panic u64_at_no_panic
  decode_rects_no_panic get_range_no_panic if_no_panic

lemma decode_atlas_h264_no_panic: "decode_atlas_h264 p \<noteq> Inl Panic"
  unfolding decode_atlas_h264_def Let_def
  by (intro no_panic_rules) (auto dest!: usize_checked_Some)

lemma decode_experimental_atlas_commands_no_panic: "decode_experimental_atlas_commands p \<noteq> Inl Panic"
  unfolding decode_experimental_atlas_commands_def Let_def
  by (intro no_panic_rules) (auto dest!: usize_checked_Some)

lemma decode_experimental_atlas_commands_chunk_no_panic:
  "decode_experimental_atlas_commands_chunk p \<noteq> Inl Panic"
  unfolding decode_experimental_atlas_commands_chunk_def Let_def
  by (intro no_panic_rules) (auto dest!: usize_checked_Some)

lemma simple_arm_no_panic:
  "decode_frame_begin p \<noteq> Inl Panic" "decode_frame_end p \<noteq> Inl Panic"
  "decode_keyframe p \<noteq> Inl Panic" "decode_move_rect p \<noteq> Inl Panic"
  by (auto simp: decode_frame_begin_def decode_frame_end_def decode_keyframe_def decode_move_rect_def
      u32_at_eq u64_at_eq get_range_def)

lemma display_record_no_panic: "decode_display_record f \<noteq> Inl Panic"
  by (auto simp: decode_display_record_def Let_def decode_atlas_h264_no_panic
      decode_experimental_atlas_commands_no_panic decode_experimental_atlas_commands_chunk_no_panic simple_arm_no_panic
      split: sum.splits)

text \<open>Decoding never panics: whatever bytes a peer sends, \<open>decode_display_record\<close> returns a record
  or one of its three errors, and no slice index or \<open>unwrap\<close> in it fails.\<close>

theorem decode_display_record_no_panic: "decode_display_record f \<noteq> Inl Panic"
  by (rule display_record_no_panic)

end
