(* ===== verification/Tile_Commands.thy ===== *)
theory Tile_Commands
  imports Talos_Prelude "HOL-Library.Product_Lexorder"
begin

text \<open>
  The tile command streams of \<open>talos_worker_helper/src/tile_commands.rs\<close>: a 32-byte stream header
  followed by commands of a 24-byte header and a payload. This theory has the data, the writers,
  the three loops that walk a stream, the splitting of a stream into wire chunks and the merging
  of solid-colour commands. Pixels are in \<open>Tile_Decode\<close>.

  An \<open>anyhow\<close> error is a constructor of \<open>tile_error\<close>, one per message of the source; a slice out of
  range is \<open>Panic\<close>. Sizes computed in \<open>usize\<close> without a check wrap, which \<open>usz\<close> writes out. The
  Direct3D objects and the timings of the encoder are not modelled.
\<close>

unbundle bit_operations_syntax

section \<open>Data\<close>

datatype tile_error =
    StreamShorterThanHeader | StreamNotAligned | BadMagic | BadVersion | ByteLengthMismatch
  | TruncatedCommandHeader | PayloadOffsetOverflow | TruncatedPayload | UnknownKind u32
  | U32ReadOverflow | U32ReadExceeds | EmptyRect | RectExceedsBounds
  | RawLengthMismatch | PreviousRequired | XorRawLengthMismatch | SparseNotAligned | SparseIndexExceeds
  | QuantCountExceeds | QuantLengthOverflow | QuantLengthMismatch | QuantShiftInvalid | QuantMaskCountMismatch
  | LossyLengthOverflow | LossyLengthMismatch | LossyChromaMismatch | SharpLengthOverflow | SharpLengthMismatch
  | PreviousOffsetOverflow | StreamLengthOverflow | StreamTooLarge | CountOffsetOverflow | CountPastEnd
  | DescriptorRange | DescriptorEmpty | SolidZeroDimensions | SolidDimensionsExceed
  | CapacityOverflow | CapacityExceeds | StagingTooSmall | InvalidByteLength | ExactMapOverflow
  | BufferCreationFailed | GpuCallFailed | GpuReturnedNull | BufferUnavailable | TooManyDescriptors
  | TileMapLengthOverflow | ExactMapLengthOverflow | ReferenceUnavailable

type_synonym 'a tile_result = "tile_error fault + 'a"

definition ensure :: "bool \<Rightarrow> tile_error \<Rightarrow> unit tile_result" where
  "ensure c e = (if c then Inr () else Inl (Err e))"

definition usz :: "nat \<Rightarrow> nat" where
  "usz n = n mod 2 ^ 64"

definition TILE_COMMAND_STREAM_MAGIC :: u32 where "TILE_COMMAND_STREAM_MAGIC = 0x32585441"
definition TILE_COMMAND_STREAM_VERSION :: u32 where "TILE_COMMAND_STREAM_VERSION = 4"
definition TILE_COMMAND_STREAM_HEADER_BYTES :: u32 where "TILE_COMMAND_STREAM_HEADER_BYTES = 32"
definition TILE_COMMAND_HEADER_BYTES :: u32 where "TILE_COMMAND_HEADER_BYTES = 24"
definition TILE_SIZE :: u32 where "TILE_SIZE = 32"

definition TILE_COMMAND_RAW_BGRA :: u32 where "TILE_COMMAND_RAW_BGRA = 1"
definition TILE_COMMAND_SOLID_COLOR :: u32 where "TILE_COMMAND_SOLID_COLOR = 2"
definition TILE_COMMAND_XOR_RAW :: u32 where "TILE_COMMAND_XOR_RAW = 3"
definition TILE_COMMAND_XOR_SPARSE :: u32 where "TILE_COMMAND_XOR_SPARSE = 4"
definition TILE_COMMAND_MASKED_QUANT_DELTA :: u32 where "TILE_COMMAND_MASKED_QUANT_DELTA = 5"
definition TILE_COMMAND_LOSSY_UI_BLOCK :: u32 where "TILE_COMMAND_LOSSY_UI_BLOCK = 6"
definition TILE_COMMAND_SHARP_UI_BLOCK :: u32 where "TILE_COMMAND_SHARP_UI_BLOCK = 7"

lemmas tile_consts = TILE_COMMAND_STREAM_HEADER_BYTES_def TILE_COMMAND_HEADER_BYTES_def TILE_SIZE_def

lemmas tile_kinds = TILE_COMMAND_RAW_BGRA_def TILE_COMMAND_SOLID_COLOR_def TILE_COMMAND_XOR_RAW_def
  TILE_COMMAND_XOR_SPARSE_def TILE_COMMAND_MASKED_QUANT_DELTA_def TILE_COMMAND_LOSSY_UI_BLOCK_def
  TILE_COMMAND_SHARP_UI_BLOCK_def

text \<open>Two 16-bit fields in one word.\<close>

definition pack_xy :: "u32 \<Rightarrow> u32 \<Rightarrow> u32" where
  "pack_xy x y = (x AND 0xffff) OR (push_bit 16 (y AND 0xffff))"

definition lo16 :: "u32 \<Rightarrow> u32" where "lo16 v = v AND 0xffff"
definition hi16 :: "u32 \<Rightarrow> u32" where "hi16 v = drop_bit 16 v"

record TileCommandTile =
  tt_atlas_xy :: u32
  tt_desktop_xy :: u32
  tt_wh :: u32
  tt_flags :: u32

definition TileCommandTile_new ::
    "u32 \<Rightarrow> u32 \<Rightarrow> u32 \<Rightarrow> u32 \<Rightarrow> u32 \<Rightarrow> u32 \<Rightarrow> TileCommandTile tile_result" where
  "TileCommandTile_new atlas_x atlas_y desktop_x desktop_y width height =
     rbind (ensure (atlas_x \<le> 65535 \<and> atlas_y \<le> 65535 \<and> desktop_x \<le> 65535 \<and> desktop_y \<le> 65535
                    \<and> width \<le> 65535 \<and> height \<le> 65535) DescriptorRange) (\<lambda>_.
     rbind (ensure (width > 0 \<and> height > 0) DescriptorEmpty) (\<lambda>_.
     Inr \<lparr>tt_atlas_xy = pack_xy atlas_x atlas_y, tt_desktop_xy = pack_xy desktop_x desktop_y,
          tt_wh = pack_xy width height, tt_flags = 1\<rparr>))"

definition tt_width :: "TileCommandTile \<Rightarrow> u32" where "tt_width t = tt_wh t AND 0xffff"
definition tt_height :: "TileCommandTile \<Rightarrow> u32" where "tt_height t = drop_bit 16 (tt_wh t)"

record TileCommandCopyRect =
  cp_atlas_x :: u32
  cp_atlas_y :: u32
  cp_desktop_x :: u32
  cp_desktop_y :: u32
  cp_width :: u32
  cp_height :: u32

record TileCommandCounts =
  n_solid :: nat
  n_raw_key :: nat
  n_xor_raw :: nat
  n_xor_sparse :: nat
  n_masked_quant_delta :: nat
  n_lossy_ui_block :: nat
  n_sharp_ui_block :: nat
  n_skipped :: nat

definition counts_default :: TileCommandCounts where
  "counts_default = \<lparr>n_solid = 0, n_raw_key = 0, n_xor_raw = 0, n_xor_sparse = 0,
     n_masked_quant_delta = 0, n_lossy_ui_block = 0, n_sharp_ui_block = 0, n_skipped = 0\<rparr>"

record TileCommandStream =
  ts_atlas_width :: u32
  ts_atlas_height :: u32
  ts_descriptor_count :: u32
  ts_command_count :: u32
  ts_byte_len :: u32
  ts_raw_equivalent_bytes :: u32
  ts_delta_bytes_saved_estimate :: u32
  ts_copy_rects :: "TileCommandCopyRect list"
  ts_bytes :: bytes
  ts_command_counts :: TileCommandCounts

record TileCommandWireChunk =
  wc_bytes :: bytes
  wc_copy_rects :: "TileCommandCopyRect list"

record OwnedCommand =
  oc_kind :: u32
  oc_atlas_xy :: u32
  oc_desktop_xy :: u32
  oc_wh :: u32
  oc_changed_count :: u32
  oc_payload :: bytes

definition oc_atlas_x :: "OwnedCommand \<Rightarrow> u32" where "oc_atlas_x c = oc_atlas_xy c AND 0xffff"
definition oc_atlas_y :: "OwnedCommand \<Rightarrow> u32" where "oc_atlas_y c = drop_bit 16 (oc_atlas_xy c)"
definition oc_desktop_x :: "OwnedCommand \<Rightarrow> u32" where "oc_desktop_x c = oc_desktop_xy c AND 0xffff"
definition oc_desktop_y :: "OwnedCommand \<Rightarrow> u32" where "oc_desktop_y c = drop_bit 16 (oc_desktop_xy c)"
definition oc_width :: "OwnedCommand \<Rightarrow> u32" where "oc_width c = oc_wh c AND 0xffff"
definition oc_height :: "OwnedCommand \<Rightarrow> u32" where "oc_height c = drop_bit 16 (oc_wh c)"

definition encoded_len :: "OwnedCommand \<Rightarrow> nat" where
  "encoded_len c = unat TILE_COMMAND_HEADER_BYTES + length (oc_payload c)"

definition copy_rect :: "OwnedCommand \<Rightarrow> TileCommandCopyRect" where
  "copy_rect c = \<lparr>cp_atlas_x = oc_atlas_x c, cp_atlas_y = oc_atlas_y c,
     cp_desktop_x = oc_desktop_x c, cp_desktop_y = oc_desktop_y c,
     cp_width = oc_width c, cp_height = oc_height c\<rparr>"

record CommandRef =
  cr_kind :: u32
  cr_atlas_xy :: u32
  cr_desktop_xy :: u32
  cr_wh :: u32
  cr_payload_len :: nat
  cr_changed_count :: u32
  cr_command_offset :: nat
  cr_payload_offset :: nat

definition cr_atlas_x :: "CommandRef \<Rightarrow> u32" where "cr_atlas_x c = cr_atlas_xy c AND 0xffff"
definition cr_atlas_y :: "CommandRef \<Rightarrow> u32" where "cr_atlas_y c = drop_bit 16 (cr_atlas_xy c)"
definition cr_desktop_x :: "CommandRef \<Rightarrow> u32" where "cr_desktop_x c = cr_desktop_xy c AND 0xffff"
definition cr_desktop_y :: "CommandRef \<Rightarrow> u32" where "cr_desktop_y c = drop_bit 16 (cr_desktop_xy c)"
definition cr_width :: "CommandRef \<Rightarrow> u32" where "cr_width c = cr_wh c AND 0xffff"
definition cr_height :: "CommandRef \<Rightarrow> u32" where "cr_height c = drop_bit 16 (cr_wh c)"
definition cr_payload_end :: "CommandRef \<Rightarrow> nat" where
  "cr_payload_end c = cr_payload_offset c + cr_payload_len c"

section \<open>Reading and writing words\<close>

definition read_u32 :: "bytes \<Rightarrow> nat \<Rightarrow> u32 tile_result" where
  "read_u32 bytes offset =
     rbind (ok_or (Err U32ReadOverflow) (usize_checked_add offset 4)) (\<lambda>ending.
     rbind (ok_or (Err U32ReadExceeds) (get_range offset ending bytes)) (\<lambda>b. Inr (u32_of_le b)))"

definition write_u32 :: "bytes \<Rightarrow> nat \<Rightarrow> u32 \<Rightarrow> bytes tile_result" where
  "write_u32 bytes offset v = ok_or Panic (put_range offset (u32_le v) bytes)"

definition div_ceil_max1 :: "u32 \<Rightarrow> u32" where
  "div_ceil_max1 n = max (of_nat ((unat n + 31) div 32)) 1"

definition write_stream_header ::
    "bytes \<Rightarrow> u32 \<Rightarrow> u32 \<Rightarrow> u32 \<Rightarrow> u32 \<Rightarrow> u32 \<Rightarrow> u32 \<Rightarrow> u32 \<Rightarrow> bytes tile_result" where
  "write_stream_header bytes atlas_width atlas_height tiles_x command_count byte_len
      descriptor_count overflow =
     rbind (write_u32 bytes 0 TILE_COMMAND_STREAM_MAGIC) (\<lambda>bytes.
     rbind (write_u32 bytes 4 TILE_COMMAND_STREAM_VERSION) (\<lambda>bytes.
     rbind (write_u32 bytes 8 (pack_xy atlas_width atlas_height)) (\<lambda>bytes.
     rbind (write_u32 bytes 12 (pack_xy TILE_SIZE tiles_x)) (\<lambda>bytes.
     rbind (write_u32 bytes 16 command_count) (\<lambda>bytes.
     rbind (write_u32 bytes 20 byte_len) (\<lambda>bytes.
     rbind (write_u32 bytes 24 descriptor_count) (\<lambda>bytes.
     write_u32 bytes 28 overflow)))))))"

definition write_command_header ::
    "bytes \<Rightarrow> nat \<Rightarrow> u32 \<Rightarrow> u32 \<Rightarrow> u32 \<Rightarrow> u32 \<Rightarrow> u32 \<Rightarrow> u32 \<Rightarrow> bytes tile_result" where
  "write_command_header bytes offset kind atlas_xy desktop_xy wh payload_len changed_count =
     rbind (write_u32 bytes offset kind) (\<lambda>bytes.
     rbind (write_u32 bytes (offset + 4) atlas_xy) (\<lambda>bytes.
     rbind (write_u32 bytes (offset + 8) desktop_xy) (\<lambda>bytes.
     rbind (write_u32 bytes (offset + 12) wh) (\<lambda>bytes.
     rbind (write_u32 bytes (offset + 16) payload_len) (\<lambda>bytes.
     write_u32 bytes (offset + 20) changed_count)))))"

section \<open>Building streams\<close>

definition build_empty_stream :: "u32 \<Rightarrow> u32 \<Rightarrow> bytes tile_result" where
  "build_empty_stream atlas_width atlas_height =
     (let tiles_x = div_ceil_max1 atlas_width;
          bytes = replicate (unat TILE_COMMAND_STREAM_HEADER_BYTES) 0 in
      write_stream_header bytes atlas_width atlas_height tiles_x 0
        TILE_COMMAND_STREAM_HEADER_BYTES 0 0)"

definition TileCommandStream_empty :: "u32 \<Rightarrow> u32 \<Rightarrow> TileCommandStream tile_result" where
  "TileCommandStream_empty atlas_width atlas_height =
     rbind (build_empty_stream atlas_width atlas_height) (\<lambda>bytes.
       let byte_len = of_nat (length bytes) in
       Inr \<lparr>ts_atlas_width = atlas_width, ts_atlas_height = atlas_height, ts_descriptor_count = 0,
            ts_command_count = 0, ts_byte_len = byte_len, ts_raw_equivalent_bytes = byte_len,
            ts_delta_bytes_saved_estimate = 0, ts_copy_rects = [], ts_bytes = bytes,
            ts_command_counts = counts_default\<rparr>)"

definition saturating_mul :: "u32 \<Rightarrow> u32 \<Rightarrow> u32" where
  "saturating_mul a b = (if unat a * unat b < 2 ^ 32 then a * b else - 1)"

definition TileCommandStream_solid_color ::
    "u32 \<Rightarrow> u32 \<Rightarrow> bytes \<Rightarrow> TileCommandStream tile_result" where
  "TileCommandStream_solid_color atlas_width atlas_height bgra =
     rbind (ensure (atlas_width > 0 \<and> atlas_height > 0) SolidZeroDimensions) (\<lambda>_.
     rbind (ensure (atlas_width \<le> 65535 \<and> atlas_height \<le> 65535) SolidDimensionsExceed) (\<lambda>_.
       let tiles_x = div_ceil_max1 atlas_width;
           byte_len = TILE_COMMAND_STREAM_HEADER_BYTES + TILE_COMMAND_HEADER_BYTES + 4;
           bytes = replicate (unat byte_len) 0 in
       rbind (write_stream_header bytes atlas_width atlas_height tiles_x 1 byte_len 1 0) (\<lambda>bytes.
       let command_offset = unat TILE_COMMAND_STREAM_HEADER_BYTES in
       rbind (write_command_header bytes command_offset TILE_COMMAND_SOLID_COLOR (pack_xy 0 0)
                (pack_xy 0 0) (pack_xy atlas_width atlas_height) 4
                (saturating_mul atlas_width atlas_height)) (\<lambda>bytes.
       rbind (ok_or Panic (put_range (command_offset + unat TILE_COMMAND_HEADER_BYTES) bgra bytes)) (\<lambda>bytes.
       Inr \<lparr>ts_atlas_width = atlas_width, ts_atlas_height = atlas_height, ts_descriptor_count = 1,
            ts_command_count = 1, ts_byte_len = byte_len, ts_raw_equivalent_bytes = byte_len,
            ts_delta_bytes_saved_estimate = 0,
            ts_copy_rects = [\<lparr>cp_atlas_x = 0, cp_atlas_y = 0, cp_desktop_x = 0, cp_desktop_y = 0,
                              cp_width = atlas_width, cp_height = atlas_height\<rparr>],
            ts_bytes = bytes, ts_command_counts = counts_default\<lparr>n_solid := 1\<rparr>\<rparr>)))))"

text \<open>The loop of \<open>build_command_stream_from_commands\<close> that writes one command after another.\<close>

fun write_commands :: "bytes \<Rightarrow> nat \<Rightarrow> OwnedCommand list \<Rightarrow> bytes tile_result" where
  "write_commands bytes offset [] = Inr bytes"
| "write_commands bytes offset (command # commands) =
     rbind (write_command_header bytes offset (oc_kind command) (oc_atlas_xy command)
              (oc_desktop_xy command) (oc_wh command) (of_nat (length (oc_payload command)))
              (oc_changed_count command)) (\<lambda>bytes.
     let payload_offset = offset + unat TILE_COMMAND_HEADER_BYTES in
     rbind (ok_or Panic (put_range payload_offset (oc_payload command) bytes)) (\<lambda>bytes.
     write_commands bytes (payload_offset + length (oc_payload command)) commands))"

definition build_command_stream_from_commands ::
    "u32 \<Rightarrow> u32 \<Rightarrow> u32 \<Rightarrow> OwnedCommand list \<Rightarrow> bytes tile_result" where
  "build_command_stream_from_commands atlas_width atlas_height descriptor_count commands =
     rbind (try_fold (\<lambda>sum command.
              ok_or (Err StreamLengthOverflow) (usize_checked_add sum (encoded_len command)))
            (unat TILE_COMMAND_STREAM_HEADER_BYTES) commands) (\<lambda>byte_len.
     rbind (ensure (byte_len \<le> 2 ^ 32 - 1) StreamTooLarge) (\<lambda>_.
     rbind (write_stream_header (replicate byte_len 0) atlas_width atlas_height
              (div_ceil_max1 atlas_width) (of_nat (length commands)) (of_nat byte_len)
              descriptor_count 0) (\<lambda>bytes.
     write_commands bytes (unat TILE_COMMAND_STREAM_HEADER_BYTES) commands)))"

definition build_wire_chunk ::
    "u32 \<Rightarrow> u32 \<Rightarrow> OwnedCommand list \<Rightarrow> TileCommandWireChunk tile_result" where
  "build_wire_chunk atlas_width atlas_height commands =
     (let command_count = of_nat (length commands);
          copy_rects = map copy_rect commands in
      rbind (build_command_stream_from_commands atlas_width atlas_height command_count commands) (\<lambda>bytes.
      Inr \<lparr>wc_bytes = bytes, wc_copy_rects = copy_rects\<rparr>))"

section \<open>Walking streams\<close>

definition validate_basic_stream_bytes :: "bytes \<Rightarrow> unit tile_result" where
  "validate_basic_stream_bytes bytes =
     rbind (ensure (length bytes \<ge> unat TILE_COMMAND_STREAM_HEADER_BYTES) StreamShorterThanHeader) (\<lambda>_.
     rbind (ensure (length bytes mod 4 = 0) StreamNotAligned) (\<lambda>_.
     rbind (read_u32 bytes 0) (\<lambda>magic. rbind (ensure (magic = TILE_COMMAND_STREAM_MAGIC) BadMagic) (\<lambda>_.
     rbind (read_u32 bytes 4) (\<lambda>version. rbind (ensure (version = TILE_COMMAND_STREAM_VERSION) BadVersion) (\<lambda>_.
     rbind (read_u32 bytes 20) (\<lambda>byte_len.
       ensure (unat byte_len = length bytes) ByteLengthMismatch)))))))"

text \<open>The words of a command header, read in the order every loop reads them.\<close>

definition read_command_header ::
    "bytes \<Rightarrow> nat \<Rightarrow> (u32 \<times> u32 \<times> u32 \<times> u32 \<times> u32 \<times> u32) tile_result" where
  "read_command_header bytes offset =
     rbind (read_u32 bytes offset) (\<lambda>kind.
     rbind (read_u32 bytes (offset + 4)) (\<lambda>atlas_xy.
     rbind (read_u32 bytes (offset + 8)) (\<lambda>desktop_xy.
     rbind (read_u32 bytes (offset + 12)) (\<lambda>wh.
     rbind (read_u32 bytes (offset + 16)) (\<lambda>payload_len.
     rbind (read_u32 bytes (offset + 20)) (\<lambda>changed_count.
     Inr (kind, atlas_xy, desktop_xy, wh, payload_len, changed_count)))))))"

lemma usize_checked_add_Some_iff:
  "usize_checked_add a b = Some c \<longleftrightarrow> a + b \<le> usize_max \<and> c = a + b"
  by (auto simp: usize_checked_add_def)

function parse_owned_loop :: "bytes \<Rightarrow> nat \<Rightarrow> OwnedCommand list \<Rightarrow> OwnedCommand list tile_result" where
  "parse_owned_loop bytes offset commands =
     (if offset < length bytes then
        if \<not> offset + unat TILE_COMMAND_HEADER_BYTES \<le> length bytes then Inl (Err TruncatedCommandHeader)
        else case read_command_header bytes offset of
          Inl e \<Rightarrow> Inl e
        | Inr (kind, atlas_xy, desktop_xy, wh, payload_len_word, changed_count) \<Rightarrow>
            let payload_len = unat payload_len_word;
                payload_offset = offset + unat TILE_COMMAND_HEADER_BYTES in
            case usize_checked_add payload_offset payload_len of
              None \<Rightarrow> Inl (Err PayloadOffsetOverflow)
            | Some payload_end \<Rightarrow>
                if \<not> payload_end \<le> length bytes then Inl (Err TruncatedPayload)
                else case get_range payload_offset payload_end bytes of
                  None \<Rightarrow> Inl Panic
                | Some payload \<Rightarrow>
                    parse_owned_loop bytes payload_end
                      (commands @ [\<lparr>oc_kind = kind, oc_atlas_xy = atlas_xy, oc_desktop_xy = desktop_xy,
                                    oc_wh = wh, oc_changed_count = changed_count, oc_payload = payload\<rparr>])
      else Inr commands)"
  by pat_completeness auto
termination
  by (relation "measure (\<lambda>(bytes, offset, _). length bytes - offset)")
    (auto simp: usize_checked_add_Some_iff tile_consts)

definition parse_owned_commands :: "bytes \<Rightarrow> OwnedCommand list tile_result" where
  "parse_owned_commands bytes =
     rbind (validate_basic_stream_bytes bytes) (\<lambda>_.
       parse_owned_loop bytes (unat TILE_COMMAND_STREAM_HEADER_BYTES) [])"

function parse_refs_loop :: "bytes \<Rightarrow> nat \<Rightarrow> CommandRef list \<Rightarrow> CommandRef list tile_result" where
  "parse_refs_loop bytes offset commands =
     (if offset < length bytes then
        if \<not> offset + unat TILE_COMMAND_HEADER_BYTES \<le> length bytes then Inl (Err TruncatedCommandHeader)
        else case read_command_header bytes offset of
          Inl e \<Rightarrow> Inl e
        | Inr (kind, atlas_xy, desktop_xy, wh, payload_len_word, changed_count) \<Rightarrow>
            let payload_len = unat payload_len_word;
                payload_offset = offset + unat TILE_COMMAND_HEADER_BYTES in
            case usize_checked_add payload_offset payload_len of
              None \<Rightarrow> Inl (Err PayloadOffsetOverflow)
            | Some payload_end \<Rightarrow>
                if \<not> payload_end \<le> length bytes then Inl (Err TruncatedPayload)
                else parse_refs_loop bytes payload_end
                       (commands @ [\<lparr>cr_kind = kind, cr_atlas_xy = atlas_xy, cr_desktop_xy = desktop_xy,
                          cr_wh = wh, cr_payload_len = payload_len, cr_changed_count = changed_count,
                          cr_command_offset = offset, cr_payload_offset = payload_offset\<rparr>])
      else Inr commands)"
  by pat_completeness auto
termination
  by (relation "measure (\<lambda>(bytes, offset, _). length bytes - offset)")
    (auto simp: usize_checked_add_Some_iff tile_consts)

definition parse_command_refs :: "bytes \<Rightarrow> CommandRef list tile_result" where
  "parse_command_refs bytes =
     rbind (validate_basic_stream_bytes bytes) (\<lambda>_.
       parse_refs_loop bytes (unat TILE_COMMAND_STREAM_HEADER_BYTES) [])"

definition count_kind :: "u32 \<Rightarrow> TileCommandCounts \<Rightarrow> TileCommandCounts tile_result" where
  "count_kind kind counts =
     (if kind = TILE_COMMAND_SOLID_COLOR then Inr (counts\<lparr>n_solid := n_solid counts + 1\<rparr>)
      else if kind = TILE_COMMAND_RAW_BGRA then Inr (counts\<lparr>n_raw_key := n_raw_key counts + 1\<rparr>)
      else if kind = TILE_COMMAND_XOR_RAW then Inr (counts\<lparr>n_xor_raw := n_xor_raw counts + 1\<rparr>)
      else if kind = TILE_COMMAND_XOR_SPARSE then Inr (counts\<lparr>n_xor_sparse := n_xor_sparse counts + 1\<rparr>)
      else if kind = TILE_COMMAND_MASKED_QUANT_DELTA
        then Inr (counts\<lparr>n_masked_quant_delta := n_masked_quant_delta counts + 1\<rparr>)
      else if kind = TILE_COMMAND_LOSSY_UI_BLOCK
        then Inr (counts\<lparr>n_lossy_ui_block := n_lossy_ui_block counts + 1\<rparr>)
      else if kind = TILE_COMMAND_SHARP_UI_BLOCK
        then Inr (counts\<lparr>n_sharp_ui_block := n_sharp_ui_block counts + 1\<rparr>)
      else Inl (Err (UnknownKind kind)))"

text \<open>The counting loop reads the first five words of each header only, and compares the final
  offset with the length after the loop instead of checking each payload.\<close>

function parse_stream_loop :: "bytes \<Rightarrow> nat \<Rightarrow> TileCommandCounts \<Rightarrow> TileCommandCopyRect list
     \<Rightarrow> (TileCommandCounts \<times> TileCommandCopyRect list \<times> nat) tile_result" where
  "parse_stream_loop bytes offset counts copy_rects =
     (if offset < length bytes then
        if \<not> offset + unat TILE_COMMAND_HEADER_BYTES \<le> length bytes then Inl (Err TruncatedCommandHeader)
        else case rbind (read_u32 bytes offset) (\<lambda>kind.
                  rbind (read_u32 bytes (offset + 4)) (\<lambda>atlas_xy.
                  rbind (read_u32 bytes (offset + 8)) (\<lambda>desktop_xy.
                  rbind (read_u32 bytes (offset + 12)) (\<lambda>wh.
                  rbind (read_u32 bytes (offset + 16)) (\<lambda>payload_len.
                  rbind (count_kind kind counts) (\<lambda>counts.
                  Inr (atlas_xy, desktop_xy, wh, payload_len, counts))))))) of
          Inl e \<Rightarrow> Inl e
        | Inr (atlas_xy, desktop_xy, wh, payload_len, counts) \<Rightarrow>
            (case Option.bind (usize_checked_add offset (unat TILE_COMMAND_HEADER_BYTES))
                    (\<lambda>offset. usize_checked_add offset (unat payload_len)) of
              None \<Rightarrow> Inl (Err CountOffsetOverflow)
            | Some offset' \<Rightarrow>
                parse_stream_loop bytes offset' counts
                  (copy_rects @ [\<lparr>cp_atlas_x = atlas_xy AND 0xffff, cp_atlas_y = drop_bit 16 atlas_xy,
                     cp_desktop_x = desktop_xy AND 0xffff, cp_desktop_y = drop_bit 16 desktop_xy,
                     cp_width = wh AND 0xffff, cp_height = drop_bit 16 wh\<rparr>]))
      else Inr (counts, copy_rects, offset))"
  by pat_completeness auto
termination
  by (relation "measure (\<lambda>(bytes, offset, _). length bytes - offset)")
    (auto simp: usize_checked_add_Some_iff tile_consts bind_eq_Some_conv)

definition parse_stream_commands ::
    "bytes \<Rightarrow> (TileCommandCounts \<times> TileCommandCopyRect list) tile_result" where
  "parse_stream_commands bytes =
     rbind (parse_stream_loop bytes (unat TILE_COMMAND_STREAM_HEADER_BYTES) counts_default [])
       (\<lambda>(counts, copy_rects, offset).
     rbind (ensure (offset = length bytes) CountPastEnd) (\<lambda>_. Inr (counts, copy_rects)))"

section \<open>Wire chunks\<close>

fun wire_chunks_loop :: "u32 \<Rightarrow> u32 \<Rightarrow> nat \<Rightarrow> TileCommandWireChunk list \<Rightarrow> OwnedCommand list \<Rightarrow> nat
     \<Rightarrow> OwnedCommand list \<Rightarrow> TileCommandWireChunk list tile_result" where
  "wire_chunks_loop atlas_width atlas_height target_bytes chunks current current_bytes [] =
     (if current \<noteq> [] then
        rbind (build_wire_chunk atlas_width atlas_height current) (\<lambda>chunk. Inr (chunks @ [chunk]))
      else Inr chunks)"
| "wire_chunks_loop atlas_width atlas_height target_bytes chunks current current_bytes (command # commands) =
     (let command_len = encoded_len command in
      rbind (if current \<noteq> [] \<and> usize_saturating_add current_bytes command_len > target_bytes
             then rbind (build_wire_chunk atlas_width atlas_height current) (\<lambda>chunk.
                    Inr (chunks @ [chunk], [], unat TILE_COMMAND_STREAM_HEADER_BYTES))
             else Inr (chunks, current, current_bytes)) (\<lambda>(chunks, current, current_bytes).
      wire_chunks_loop atlas_width atlas_height target_bytes chunks (current @ [command])
        (usize_saturating_add current_bytes command_len) commands))"

definition wire_chunks :: "TileCommandStream \<Rightarrow> nat \<Rightarrow> TileCommandWireChunk list tile_result" where
  "wire_chunks stream target_bytes =
     rbind (parse_owned_commands (ts_bytes stream)) (\<lambda>commands.
       if commands = [] then Inr [\<lparr>wc_bytes = ts_bytes stream, wc_copy_rects = []\<rparr>]
       else let target_bytes = max target_bytes (unat TILE_COMMAND_STREAM_HEADER_BYTES + 1) in
         wire_chunks_loop (ts_atlas_width stream) (ts_atlas_height stream) target_bytes [] []
           (unat TILE_COMMAND_STREAM_HEADER_BYTES) commands)"

section \<open>Merging solid colours\<close>

text \<open>The \<open>expect\<close> of \<open>solid_color_key\<close> is a panic when the payload does not lie in the stream; the
  references it is called with are those of \<open>parse_command_refs\<close>, whose payloads do.\<close>

definition solid_color_key :: "bytes \<Rightarrow> CommandRef \<Rightarrow> u32" where
  "solid_color_key bytes command =
     (if cr_kind command = TILE_COMMAND_SOLID_COLOR \<and> cr_payload_len command = 4
      then u32_of_le (slice (cr_payload_offset command) (cr_payload_offset command + 4) bytes)
      else 0)"

definition is_solid :: "CommandRef \<Rightarrow> bool" where
  "is_solid command \<longleftrightarrow> cr_kind command = TILE_COMMAND_SOLID_COLOR \<and> cr_payload_len command = 4"

definition merge_sort_key :: "bytes \<Rightarrow> CommandRef \<Rightarrow> u32 \<times> u32 \<times> u32 \<times> u32 \<times> u32 \<times> u32 \<times> u32" where
  "merge_sort_key bytes command =
     (cr_atlas_y command, cr_desktop_y command, cr_height command, cr_kind command,
      solid_color_key bytes command, cr_atlas_x command, cr_desktop_x command)"

text \<open>The inner loop: \<open>absorb\<close> extends the band that starts at \<open>command\<close> as long as the next command
  continues it, and returns the width, the changed count and the commands left.\<close>

fun absorb :: "bytes \<Rightarrow> CommandRef \<Rightarrow> u32 \<Rightarrow> u32 \<Rightarrow> u32 \<Rightarrow> CommandRef list \<Rightarrow> u32 \<times> u32 \<times> CommandRef list" where
  "absorb bytes command color width changed_count [] = (width, changed_count, [])"
| "absorb bytes command color width changed_count (next # rest) =
     (if cr_kind next = TILE_COMMAND_SOLID_COLOR
         \<and> cr_payload_len next = 4
         \<and> solid_color_key bytes next = color
         \<and> cr_atlas_y next = cr_atlas_y command
         \<and> cr_desktop_y next = cr_desktop_y command
         \<and> cr_height next = cr_height command
         \<and> cr_atlas_x next = saturating_add (cr_atlas_x command) width
         \<and> cr_desktop_x next = saturating_add (cr_desktop_x command) width
         \<and> (case checked_add width (cr_width next) of None \<Rightarrow> False | Some merged_width \<Rightarrow> merged_width \<le> 65535)
      then absorb bytes command color (width + cr_width next)
             (saturating_add changed_count (cr_changed_count next)) rest
      else (width, changed_count, next # rest))"

lemma absorb_rest_length: "absorb bytes command color w n cs = (w', n', rest) \<Longrightarrow> length rest \<le> length cs"
  by (induction bytes command color w n cs rule: absorb.induct) (auto split: if_splits)

function merge_loop :: "bytes \<Rightarrow> bytes \<Rightarrow> u32 \<Rightarrow> CommandRef list \<Rightarrow> (bytes \<times> u32) tile_result" where
  "merge_loop bytes output command_count [] = Inr (output, command_count)"
| "merge_loop bytes output command_count (command # commands) =
     (if cr_kind command \<noteq> TILE_COMMAND_SOLID_COLOR \<or> cr_payload_len command \<noteq> 4 then
        case get_range (cr_command_offset command) (cr_payload_end command) bytes of
          None \<Rightarrow> Inl Panic
        | Some copied \<Rightarrow>
            merge_loop bytes (output @ copied) (saturating_add command_count 1) commands
      else
        let color = solid_color_key bytes command;
            (width, changed_count, rest) =
              absorb bytes command color (cr_width command) (cr_changed_count command) commands;
            command_offset = length output;
            output = output @ replicate (unat TILE_COMMAND_HEADER_BYTES + 4) 0 in
        case rbind (write_command_header output command_offset TILE_COMMAND_SOLID_COLOR
                      (cr_atlas_xy command) (cr_desktop_xy command)
                      (pack_xy width (cr_height command)) 4 changed_count) (\<lambda>output.
             write_u32 output (command_offset + unat TILE_COMMAND_HEADER_BYTES) color) of
          Inl e \<Rightarrow> Inl e
        | Inr output \<Rightarrow> merge_loop bytes output (saturating_add command_count 1) rest)"
  by pat_completeness auto
termination
  by (relation "measure (\<lambda>(_, _, _, cs). length cs)")
    (auto dest!: sym [of "(_, _)" "absorb _ _ _ _ _ _"] absorb_rest_length)

definition merge_solid_color_row_bands :: "bytes \<Rightarrow> u32 \<Rightarrow> u32 \<Rightarrow> u32 \<Rightarrow> bytes tile_result" where
  "merge_solid_color_row_bands bytes atlas_width atlas_height descriptor_count =
     rbind (parse_command_refs bytes) (\<lambda>commands.
       if length commands < 2 then Inr bytes
       else if length (filter is_solid commands) < 2 then Inr bytes
       else
         rbind (merge_loop bytes (replicate (unat TILE_COMMAND_STREAM_HEADER_BYTES) 0) 0
                  (sort_key (merge_sort_key bytes) commands)) (\<lambda>(output, command_count).
         rbind (ensure (length output \<le> 2 ^ 32 - 1) StreamTooLarge) (\<lambda>_.
         write_stream_header output atlas_width atlas_height (div_ceil_max1 atlas_width)
           command_count (of_nat (length output)) descriptor_count 0)))"

text \<open>The mapped staging buffer is its bytes; it has \<open>output_capacity\<close> of them.\<close>

definition read_mapped_stream ::
    "bytes \<Rightarrow> u32 \<Rightarrow> u32 \<Rightarrow> u32 \<Rightarrow> u32 \<Rightarrow> u32 \<Rightarrow> TileCommandStream tile_result" where
  "read_mapped_stream mapped output_capacity atlas_width atlas_height descriptor_count
      raw_equivalent_bytes =
     (let all_bytes = take (unat output_capacity) mapped in
      rbind (ensure (length all_bytes \<ge> unat TILE_COMMAND_STREAM_HEADER_BYTES) StagingTooSmall) (\<lambda>_.
      rbind (read_u32 all_bytes 20) (\<lambda>byte_len.
      rbind (ensure (byte_len \<ge> TILE_COMMAND_STREAM_HEADER_BYTES \<and> byte_len \<le> output_capacity)
               InvalidByteLength) (\<lambda>_.
      rbind (read_u32 all_bytes 16) (\<lambda>original_command_count.
      rbind (ok_or Panic (get_range 0 (unat byte_len) all_bytes)) (\<lambda>used.
      rbind (merge_solid_color_row_bands used atlas_width atlas_height descriptor_count) (\<lambda>bytes.
      rbind (ensure (length bytes \<le> 2 ^ 32 - 1) StreamTooLarge) (\<lambda>_.
      rbind (read_u32 bytes 16) (\<lambda>command_count.
      rbind (parse_stream_commands bytes) (\<lambda>(command_counts, copy_rects).
      let byte_len = of_nat (length bytes) in
      Inr \<lparr>ts_atlas_width = atlas_width, ts_atlas_height = atlas_height,
           ts_descriptor_count = descriptor_count, ts_command_count = command_count,
           ts_byte_len = byte_len, ts_raw_equivalent_bytes = raw_equivalent_bytes,
           ts_delta_bytes_saved_estimate = saturating_sub raw_equivalent_bytes byte_len,
           ts_copy_rects = copy_rects, ts_bytes = bytes,
           ts_command_counts = command_counts
             \<lparr>n_skipped := unat (saturating_sub descriptor_count original_command_count)\<rparr>\<rparr>))))))))))"

section \<open>Capacity\<close>

fun capacity_loop :: "nat \<Rightarrow> TileCommandTile list \<Rightarrow> nat tile_result" where
  "capacity_loop capacity [] = Inr capacity"
| "capacity_loop capacity (tile # tiles) =
     (let raw_payload = unat (tt_width tile) * unat (tt_height tile) * 4 in
      case Option.bind (usize_checked_add capacity (unat TILE_COMMAND_HEADER_BYTES))
             (\<lambda>v. usize_checked_add v raw_payload) of
        None \<Rightarrow> Inl (Err CapacityOverflow)
      | Some capacity \<Rightarrow> capacity_loop capacity tiles)"

definition raw_equivalent_stream_bytes :: "TileCommandTile list \<Rightarrow> u32 tile_result" where
  "raw_equivalent_stream_bytes tiles =
     rbind (capacity_loop (unat TILE_COMMAND_STREAM_HEADER_BYTES) tiles) (\<lambda>capacity.
       let aligned = usz (capacity + 3) div 4 * 4 in
       rbind (ensure (aligned \<le> 2 ^ 32 - 1) CapacityExceeds) (\<lambda>_. Inr (of_nat aligned)))"

definition command_stream_capacity :: "TileCommandTile list \<Rightarrow> u32 tile_result" where
  "command_stream_capacity tiles = raw_equivalent_stream_bytes tiles"

declare parse_owned_loop.simps [simp del] parse_refs_loop.simps [simp del]
  parse_stream_loop.simps [simp del]

text \<open>The halves of a packed word.\<close>

lemma and_mask16: "(v :: u32) AND 0xffff = take_bit 16 v"
  by (simp add: take_bit_eq_mask mask_eq_exp_minus_1)

lemma lo_bound: "(v :: u32) AND 0xffff \<le> 65535"
proof -
  have "unat (take_bit 16 v) < 2 ^ 16"
    unfolding unsigned_take_bit_eq by (rule take_bit_nat_less_exp)
  then show ?thesis by (simp add: and_mask16 word_le_nat_alt)
qed

lemma hi_bound: "drop_bit 16 (v :: u32) \<le> 65535"
proof -
  have "unat v < 2 ^ 32" using unat_bound [of v] by simp
  then have "unat v div 2 ^ 16 < 2 ^ 16" by (simp add: less_mult_imp_div_less)
  then show ?thesis unfolding word_le_nat_alt unat_drop_bit_eq by (simp add: drop_bit_eq_div)
qed

lemma pack_xy_lo: "x \<le> 65535 \<Longrightarrow> pack_xy x y AND 0xffff = x"
  and pack_xy_hi: "y \<le> 65535 \<Longrightarrow> drop_bit 16 (pack_xy x y) = y"
proof -
  have small: "take_bit 16 (v :: u32) = v" if "v \<le> 65535" for v
  proof -
    have "unat v < 2 ^ 16" using that by (simp add: word_le_nat_alt)
    then have "unat (take_bit 16 v) = unat v" unfolding unsigned_take_bit_eq by (simp add: take_bit_nat_eq_self)
    then show ?thesis by (simp add: word_unat_eq_iff)
  qed
  have "take_bit 16 (pack_xy x y) = take_bit 16 x"
    by (rule bit_word_eqI) (auto simp: pack_xy_def and_mask16 bit_simps)
  then show "x \<le> 65535 \<Longrightarrow> pack_xy x y AND 0xffff = x" by (simp add: and_mask16 small)
  have "drop_bit 16 (pack_xy x y) = take_bit 16 y"
    by (rule bit_word_eqI) (auto simp: pack_xy_def and_mask16 bit_simps)
  then show "y \<le> 65535 \<Longrightarrow> drop_bit 16 (pack_xy x y) = y" by (simp add: small)
qed

section \<open>The stream format, as a specification\<close>

definition wf_command :: "OwnedCommand \<Rightarrow> bool" where
  "wf_command c \<longleftrightarrow> length (oc_payload c) < 2 ^ 32"

definition header_bytes :: "u32 \<Rightarrow> u32 \<Rightarrow> u32 \<Rightarrow> u32 \<Rightarrow> u32 \<Rightarrow> u32 \<Rightarrow> bytes" where
  "header_bytes kind atlas_xy desktop_xy wh payload_len changed_count =
     u32_le kind @ u32_le atlas_xy @ u32_le desktop_xy @ u32_le wh @ u32_le payload_len
       @ u32_le changed_count"

definition command_bytes :: "OwnedCommand \<Rightarrow> bytes" where
  "command_bytes c = header_bytes (oc_kind c) (oc_atlas_xy c) (oc_desktop_xy c) (oc_wh c)
     (of_nat (length (oc_payload c))) (oc_changed_count c) @ oc_payload c"

definition stream_header :: "u32 \<Rightarrow> u32 \<Rightarrow> u32 \<Rightarrow> u32 \<Rightarrow> u32 \<Rightarrow> bytes" where
  "stream_header atlas_width atlas_height command_count byte_len descriptor_count =
     u32_le TILE_COMMAND_STREAM_MAGIC @ u32_le TILE_COMMAND_STREAM_VERSION
       @ u32_le (pack_xy atlas_width atlas_height)
       @ u32_le (pack_xy TILE_SIZE (div_ceil_max1 atlas_width))
       @ u32_le command_count @ u32_le byte_len @ u32_le descriptor_count @ u32_le 0"

lemma tile_header_sizes [simp]:
  "unat TILE_COMMAND_STREAM_HEADER_BYTES = 32" "unat TILE_COMMAND_HEADER_BYTES = 24"
  by (simp_all add: tile_consts)

lemma length_header_bytes [codec_simps]: "length (header_bytes k a d w p n) = 24"
  by (simp add: header_bytes_def codec_simps)

lemma length_stream_header [codec_simps]: "length (stream_header aw ah n b d) = 32"
  by (simp add: stream_header_def codec_simps)

lemma length_command_bytes: "length (command_bytes c) = encoded_len c"
  by (simp add: command_bytes_def encoded_len_def codec_simps)

lemma encoded_len_pos: "0 < encoded_len c"
  by (simp add: encoded_len_def)

lemma put_range_prefix:
  "put_range (length a + k) ys (a @ b) = map_option ((@) a) (put_range k ys b)"
  by (auto simp: put_range_def)

lemma put_range_0: "length ys \<le> length xs \<Longrightarrow> put_range 0 ys xs = Some (ys @ drop (length ys) xs)"
  by (simp add: put_range_def)

lemma write_stream_header_eq:
  "32 \<le> length bytes \<Longrightarrow>
   write_stream_header bytes aw ah (div_ceil_max1 aw) n b d 0 = Inr (stream_header aw ah n b d @ drop 32 bytes)"
  by (simp add: write_stream_header_def write_u32_def put_range_def codec_simps stream_header_def)

lemma write_command_header_0:
  "24 \<le> length b \<Longrightarrow>
   write_command_header b 0 k axy dxy wh pl n = Inr (header_bytes k axy dxy wh pl n @ drop 24 b)"
  by (simp add: write_command_header_def write_u32_def put_range_def codec_simps header_bytes_def)

lemma write_u32_prefix:
  "write_u32 (a @ b) (length a + k) v = rmap ((@) a) (write_u32 b k v)"
  unfolding write_u32_def put_range_prefix by (cases "put_range k (u32_le v) b") auto

lemma write_command_header_prefix:
  "write_command_header (a @ b) (length a) k axy dxy wh pl n =
     rmap ((@) a) (write_command_header b 0 k axy dxy wh pl n)"
  using write_u32_prefix [of a b 0 k]
  by (simp add: write_command_header_def write_u32_prefix rbind_rmap rmap_rbind)

lemma write_command_header_at:
  "24 \<le> length b \<Longrightarrow>
   write_command_header (a @ b) (length a) k axy dxy wh pl n =
     Inr (a @ header_bytes k axy dxy wh pl n @ drop 24 b)"
  by (simp add: write_command_header_prefix write_command_header_0)

lemma put_range_at:
  "length ys \<le> length b \<Longrightarrow> put_range (length a) ys (a @ b) = Some (a @ ys @ drop (length ys) b)"
  using put_range_prefix [of a 0 ys b] by (simp add: put_range_0)

lemma write_commands_eq:
  "length z = sum_list (map encoded_len cs) \<Longrightarrow>
   write_commands (a @ z) (length a) cs = Inr (a @ concat (map command_bytes cs))"
proof (induction cs arbitrary: a z)
  case (Cons c cs)
  let ?h = "header_bytes (oc_kind c) (oc_atlas_xy c) (oc_desktop_xy c) (oc_wh c)
     (of_nat (length (oc_payload c))) (oc_changed_count c)"
  have len: "24 + length (oc_payload c) + sum_list (map encoded_len cs) = length z"
    using Cons.prems by (simp add: encoded_len_def [of c])
  have put: "put_range (length a + 24) (oc_payload c) (a @ ?h @ drop 24 z)
      = Some ((a @ ?h) @ oc_payload c @ drop (length (oc_payload c)) (drop 24 z))"
    using put_range_at [of "oc_payload c" "drop 24 z" "a @ ?h"] len by (simp add: codec_simps)
  have "write_commands (a @ z) (length a) (c # cs)
      = write_commands ((a @ command_bytes c) @ drop (length (oc_payload c)) (drop 24 z))
          (length (a @ command_bytes c)) cs"
    using len put
    by (simp add: write_command_header_at length_command_bytes encoded_len_def command_bytes_def
        codec_simps Let_def add.assoc)
  also have "\<dots> = Inr ((a @ command_bytes c) @ concat (map command_bytes cs))"
    by (rule Cons.IH) (use len in simp)
  finally show ?case by simp
qed simp

lemma encoded_len_fold:
  "try_fold (\<lambda>sum command. ok_or e (usize_checked_add sum (encoded_len command))) n cs =
     (if n + sum_list (map encoded_len cs) \<le> usize_max \<or> cs = []
      then Inr (n + sum_list (map encoded_len cs)) else Inl e)"
proof (induction cs arbitrary: n)
  case (Cons c cs)
  then show ?case
    by (cases "n + encoded_len c \<le> usize_max")
      (auto simp: usize_checked_add_def add.assoc)
qed simp

lemma build_command_stream_eq:
  "build_command_stream_from_commands aw ah d cs =
     (let n = 32 + sum_list (map encoded_len cs) in
      if n > usize_max then Inl (Err StreamLengthOverflow)
      else if n > 2 ^ 32 - 1 then Inl (Err StreamTooLarge)
      else Inr (stream_header aw ah (of_nat (length cs)) (of_nat n) d @ concat (map command_bytes cs)))"
proof -
  have "write_commands (stream_header aw ah k b d @ replicate (sum_list (map encoded_len cs)) 0) 32 cs
     = Inr (stream_header aw ah k b d @ concat (map command_bytes cs))" for k b
    using write_commands_eq [of "replicate (sum_list (map encoded_len cs)) 0" cs "stream_header aw ah k b d"]
    by (simp add: codec_simps)
  then show ?thesis
    by (cases cs) (auto simp: build_command_stream_from_commands_def encoded_len_fold ensure_def
        write_stream_header_eq Let_def usize_max_def)
qed

end
