(* ===== verification/Tile_Stream.thy ===== *)
theory Tile_Stream
  imports Tile_Commands
begin

text \<open>
  The loops over tile command streams, related to lists of commands. The locale \<open>command_walk\<close> is
  the contract of a loop over a stream (it handles the command at the current offset and
  continues after it); each loop of \<open>Tile_Commands\<close> is an interpretation, and so equals a fold
  over the commands the stream encodes. On it rest the exactness of the parser, the splitting
  into wire chunks and the effect of merging.
\<close>

section \<open>Reading one command\<close>

lemma read_u32_eq:
  "offset + 4 \<le> usize_max \<Longrightarrow>
   read_u32 bytes offset =
     (if offset + 4 \<le> length bytes then Inr (u32_of_le (take 4 (drop offset bytes))) else Inl (Err U32ReadExceeds))"
  by (simp add: read_u32_def usize_checked_add_def get_range_def slice_def)

lemma read_command_header_eq:
  assumes "offset + 24 \<le> length bytes" and "length bytes < 2 ^ 32"
  shows "read_command_header bytes offset =
    Inr (u32_of_le (take 4 (drop offset bytes)), u32_of_le (take 4 (drop (offset + 4) bytes)),
         u32_of_le (take 4 (drop (offset + 8) bytes)), u32_of_le (take 4 (drop (offset + 12) bytes)),
         u32_of_le (take 4 (drop (offset + 16) bytes)), u32_of_le (take 4 (drop (offset + 20) bytes)))"
  using assms by (simp add: read_command_header_def read_u32_eq usize_max_def)

lemma drop_append_prefix: "drop offset bytes = a @ b \<Longrightarrow> drop (offset + n) bytes = drop n (a @ b)"
  by (metis add.commute drop_drop)

lemma command_fits:
  assumes "drop offset bytes = command_bytes c @ rest"
  shows "offset + encoded_len c \<le> length bytes"
proof -
  have "length bytes - offset = encoded_len c + length rest"
    using arg_cong [OF assms, of length] by (simp add: length_command_bytes)
  then show ?thesis using encoded_len_pos [of c] by simp
qed

lemma read_command_header_at:
  assumes at: "drop offset bytes = command_bytes c @ rest" and len: "length bytes < 2 ^ 32"
  shows "read_command_header bytes offset =
    Inr (oc_kind c, oc_atlas_xy c, oc_desktop_xy c, oc_wh c, of_nat (length (oc_payload c)), oc_changed_count c)"
proof -
  have "offset + 24 \<le> length bytes"
    using command_fits [OF at] by (simp add: encoded_len_def)
  then show ?thesis
    using len
    by (simp add: read_command_header_eq at drop_append_prefix [OF at] command_bytes_def
        header_bytes_def codec_simps)
qed

lemma payload_at:
  assumes at: "drop offset bytes = command_bytes c @ rest"
  shows "slice (offset + 24) (offset + (24 + length (oc_payload c))) bytes = oc_payload c"
  using drop_append_prefix [OF at, of 24]
  by (simp add: slice_def command_bytes_def codec_simps)

section \<open>The loop contract\<close>

fun walk_fold :: "(nat \<Rightarrow> OwnedCommand \<Rightarrow> 's \<Rightarrow> 's tile_result) \<Rightarrow> nat \<Rightarrow> OwnedCommand list \<Rightarrow> 's
     \<Rightarrow> 's tile_result" where
  "walk_fold step offset [] s = Inr s"
| "walk_fold step offset (c # cs) s =
     rbind (step offset c s) (\<lambda>s'. walk_fold step (offset + encoded_len c) cs s')"

locale command_walk =
  fixes run :: "bytes \<Rightarrow> nat \<Rightarrow> 's \<Rightarrow> 'r tile_result"
    and step :: "nat \<Rightarrow> OwnedCommand \<Rightarrow> 's \<Rightarrow> 's tile_result"
    and finish :: "bytes \<Rightarrow> 's \<Rightarrow> 'r"
    and ok :: "OwnedCommand \<Rightarrow> bool"
  assumes walk_end: "run bytes (length bytes) s = Inr (finish bytes s)"
    and walk_command: "drop offset bytes = command_bytes c @ rest \<Longrightarrow> wf_command c \<Longrightarrow> ok c \<Longrightarrow>
      length bytes < 2 ^ 32 \<Longrightarrow>
      run bytes offset s = rbind (step offset c s) (\<lambda>s'. run bytes (offset + encoded_len c) s')"
begin

lemma walk_commands:
  assumes "drop offset bytes = concat (map command_bytes cs)" and "offset \<le> length bytes"
    and "list_all wf_command cs" and "list_all ok cs" and "length bytes < 2 ^ 32"
  shows "run bytes offset s = rmap (finish bytes) (walk_fold step offset cs s)"
  using assms
proof (induction cs arbitrary: offset s)
  case Nil
  then have "offset = length bytes" by simp
  then show ?case by (simp add: walk_end)
next
  case (Cons c cs)
  from Cons.prems(1) have at: "drop offset bytes = command_bytes c @ concat (map command_bytes cs)"
    by simp
  have next_at: "drop (offset + encoded_len c) bytes = concat (map command_bytes cs)"
    using drop_append_prefix [OF at, of "encoded_len c"] by (simp add: length_command_bytes)
  have "run bytes offset s = rbind (step offset c s) (\<lambda>s'. run bytes (offset + encoded_len c) s')"
    using at Cons.prems by (intro walk_command) auto
  also have "\<dots> = rbind (step offset c s)
      (\<lambda>s'. rmap (finish bytes) (walk_fold step (offset + encoded_len c) cs s'))"
    using Cons.IH [OF next_at command_fits [OF at]] Cons.prems by simp
  finally show ?case by (simp add: rmap_rbind)
qed

end

text \<open>The reference a loop makes of the command at an offset.\<close>

definition ref_of :: "nat \<Rightarrow> OwnedCommand \<Rightarrow> CommandRef" where
  "ref_of offset c = \<lparr>cr_kind = oc_kind c, cr_atlas_xy = oc_atlas_xy c, cr_desktop_xy = oc_desktop_xy c,
     cr_wh = oc_wh c, cr_payload_len = length (oc_payload c), cr_changed_count = oc_changed_count c,
     cr_command_offset = offset, cr_payload_offset = offset + 24\<rparr>"

fun refs_of :: "nat \<Rightarrow> OwnedCommand list \<Rightarrow> CommandRef list" where
  "refs_of offset [] = []"
| "refs_of offset (c # cs) = ref_of offset c # refs_of (offset + encoded_len c) cs"

lemma owned_eta: "\<lparr>oc_kind = oc_kind c, oc_atlas_xy = oc_atlas_xy c, oc_desktop_xy = oc_desktop_xy c,
    oc_wh = oc_wh c, oc_changed_count = oc_changed_count c, oc_payload = oc_payload c\<rparr> = c"
  by simp

lemmas loop_step = owned_eta read_command_header_at payload_at command_fits
  usize_checked_add_def usize_max_def get_range_def wf_command_def unat_of_nat_bound

interpretation owned_walk: command_walk parse_owned_loop
    "\<lambda>offset c s. Inr (s @ [c])" "\<lambda>bytes s. s" "\<lambda>_. True"
proof (unfold_locales, goal_cases)
  case (1 bytes s)
  then show ?case by (simp add: parse_owned_loop.simps)
next
  case (2 offset bytes c rest s)
  then show ?case
    using command_fits [OF 2(1)]
    by (simp add: parse_owned_loop.simps [of bytes offset] loop_step encoded_len_def Let_def add.assoc)
qed

interpretation refs_walk: command_walk parse_refs_loop
    "\<lambda>offset c s. Inr (s @ [ref_of offset c])" "\<lambda>bytes s. s" "\<lambda>_. True"
proof (unfold_locales, goal_cases)
  case (1 bytes s)
  then show ?case by (simp add: parse_refs_loop.simps)
next
  case (2 offset bytes c rest s)
  then show ?case
    using command_fits [OF 2(1)]
    by (simp add: parse_refs_loop.simps [of bytes offset] loop_step encoded_len_def Let_def ref_of_def add.assoc)
qed

definition count_step :: "OwnedCommand \<Rightarrow> TileCommandCounts \<times> TileCommandCopyRect list
    \<Rightarrow> (TileCommandCounts \<times> TileCommandCopyRect list) tile_result" where
  "count_step c = (\<lambda>(counts, rects).
     rbind (count_kind (oc_kind c) counts) (\<lambda>counts. Inr (counts, rects @ [copy_rect c])))"

lemma read_words_of_header:
  "read_command_header bytes offset = Inr (k, a, d, w, p, n) \<Longrightarrow>
   read_u32 bytes offset = Inr k \<and> read_u32 bytes (offset + 4) = Inr a \<and> read_u32 bytes (offset + 8) = Inr d
   \<and> read_u32 bytes (offset + 12) = Inr w \<and> read_u32 bytes (offset + 16) = Inr p"
  by (auto simp: read_command_header_def res_simps)

interpretation count_walk: command_walk
    "\<lambda>bytes offset (counts, rects). parse_stream_loop bytes offset counts rects"
    "\<lambda>offset c s. count_step c s" "\<lambda>bytes (counts, rects). (counts, rects, length bytes)" "\<lambda>_. True"
proof (unfold_locales, goal_cases)
  case (1 bytes s)
  then show ?case by (simp add: parse_stream_loop.simps split: prod.splits)
next
  case (2 offset bytes c rest s)
  obtain counts rects where s: "s = (counts, rects)" by (cases s)
  note words = read_words_of_header [OF read_command_header_at [OF 2(1) 2(4)]]
  from 2 words show ?case
    using command_fits [OF 2(1)]
    by (cases "count_kind (oc_kind c) counts")
      (simp_all add: parse_stream_loop.simps [of bytes offset] loop_step encoded_len_def s count_step_def
        copy_rect_def oc_atlas_x_def oc_atlas_y_def oc_desktop_x_def oc_desktop_y_def oc_width_def
        oc_height_def add.assoc)
qed

lemma owned_fold: "walk_fold (\<lambda>offset c s. Inr (s @ [c])) offset cs acc = Inr (acc @ cs)"
  by (induction cs arbitrary: offset acc) auto

lemma refs_fold:
  "walk_fold (\<lambda>offset c s. Inr (s @ [ref_of offset c])) offset cs acc = Inr (acc @ refs_of offset cs)"
  by (induction cs arbitrary: offset acc) auto

lemma count_fold:
  "walk_fold (\<lambda>offset c s. count_step c s) offset cs (counts, rects) =
     rmap (\<lambda>counts. (counts, rects @ map copy_rect cs))
       (try_fold (\<lambda>counts c. count_kind (oc_kind c) counts) counts cs)"
proof (induction cs arbitrary: offset counts rects)
  case (Cons c cs)
  then show ?case by (cases "count_kind (oc_kind c) counts") (auto simp: count_step_def)
qed simp

section \<open>The parser accepts exactly the encoded streams\<close>

lemma validate_basic_iff:
  "validate_basic_stream_bytes bytes = Inr () \<longleftrightarrow>
     32 \<le> length bytes \<and> length bytes mod 4 = 0 \<and> length bytes < 2 ^ 32
     \<and> take 4 bytes = u32_le TILE_COMMAND_STREAM_MAGIC
     \<and> take 4 (drop 4 bytes) = u32_le TILE_COMMAND_STREAM_VERSION
     \<and> take 4 (drop 20 bytes) = u32_le (of_nat (length bytes))" (is "?v \<longleftrightarrow> ?f")
proof
  assume v: ?v
  then have len: "32 \<le> length bytes" by (simp add: validate_basic_stream_bytes_def ensure_def split: if_splits)
  have words: "u32_of_le (take 4 bytes) = TILE_COMMAND_STREAM_MAGIC"
    "u32_of_le (take 4 (drop 4 bytes)) = TILE_COMMAND_STREAM_VERSION"
    "unat (u32_of_le (take 4 (drop 20 bytes))) = length bytes" "length bytes mod 4 = 0"
    using v len by (simp_all add: validate_basic_stream_bytes_def ensure_def read_u32_eq usize_max_def
        split: if_splits)
  have "length bytes < 2 ^ 32"
    using unat_bound [of "u32_of_le (take 4 (drop 20 bytes))"] words(3) by simp
  moreover have "take 4 bytes = u32_le TILE_COMMAND_STREAM_MAGIC"
    using words(1) len u32_le_inverse [of "take 4 bytes"] by simp
  moreover have "take 4 (drop 4 bytes) = u32_le TILE_COMMAND_STREAM_VERSION"
    using words(2) len u32_le_inverse [of "take 4 (drop 4 bytes)"] by simp
  moreover have "take 4 (drop 20 bytes) = u32_le (of_nat (length bytes))"
  proof -
    have "u32_of_le (take 4 (drop 20 bytes)) = of_nat (length bytes)"
      using arg_cong [OF words(3), of "of_nat :: nat \<Rightarrow> u32"] by simp
    then show ?thesis using len u32_le_inverse [of "take 4 (drop 20 bytes)"] by simp
  qed
  ultimately show ?f using len words(4) by simp
next
  assume ?f
  then show ?v
    by (simp add: validate_basic_stream_bytes_def ensure_def read_u32_eq usize_max_def codec_simps
        unat_of_nat_bound)
qed

lemma command_at:
  assumes "offset + 24 + n \<le> length bytes"
    and "n = unat (u32_of_le (take 4 (drop (offset + 16) bytes)))"
    and c: "c = \<lparr>oc_kind = u32_of_le (take 4 (drop offset bytes)),
      oc_atlas_xy = u32_of_le (take 4 (drop (offset + 4) bytes)),
      oc_desktop_xy = u32_of_le (take 4 (drop (offset + 8) bytes)),
      oc_wh = u32_of_le (take 4 (drop (offset + 12) bytes)),
      oc_changed_count = u32_of_le (take 4 (drop (offset + 20) bytes)),
      oc_payload = slice (offset + 24) (offset + 24 + n) bytes\<rparr>"
  shows "drop offset bytes = command_bytes c @ drop (offset + 24 + n) bytes" and "wf_command c"
    and "encoded_len c = 24 + n"
proof -
  have len: "length (oc_payload c) = n" using assms by simp
  show "wf_command c" using unat_bound [of "u32_of_le (take 4 (drop (offset + 16) bytes))"]
    by (simp add: wf_command_def len assms(2))
  show "encoded_len c = 24 + n" by (simp add: encoded_len_def len)
  have "u32_le (of_nat (length (oc_payload c))) = take 4 (drop (offset + 16) bytes)"
    using assms(1) by (simp add: len assms(2) u32_le_inverse)
  then have "command_bytes c = take 4 (drop offset bytes) @ take 4 (drop (offset + 4) bytes)
      @ take 4 (drop (offset + 8) bytes) @ take 4 (drop (offset + 12) bytes)
      @ take 4 (drop (offset + 16) bytes) @ take 4 (drop (offset + 20) bytes)
      @ take n (drop (offset + 24) bytes)"
    using assms(1) by (simp add: command_bytes_def header_bytes_def c u32_le_inverse slice_def)
  then show "drop offset bytes = command_bytes c @ drop (offset + 24 + n) bytes"
    by (simp add: take_drop_join)
qed

text \<open>The command the parser reads at an offset.\<close>

definition parsed_at :: "bytes \<Rightarrow> nat \<Rightarrow> OwnedCommand" where
  "parsed_at bytes offset = \<lparr>oc_kind = u32_of_le (take 4 (drop offset bytes)),
      oc_atlas_xy = u32_of_le (take 4 (drop (offset + 4) bytes)),
      oc_desktop_xy = u32_of_le (take 4 (drop (offset + 8) bytes)),
      oc_wh = u32_of_le (take 4 (drop (offset + 12) bytes)),
      oc_changed_count = u32_of_le (take 4 (drop (offset + 20) bytes)),
      oc_payload = slice (offset + 24)
        (offset + 24 + unat (u32_of_le (take 4 (drop (offset + 16) bytes)))) bytes\<rparr>"

lemma parse_owned_loop_step:
  assumes parsed: "parse_owned_loop bytes offset acc = Inr r" and more: "offset < length bytes"
    and len: "length bytes < 2 ^ 32"
  shows "parse_owned_loop bytes (offset + encoded_len (parsed_at bytes offset)) (acc @ [parsed_at bytes offset]) = Inr r"
    and "drop offset bytes =
      command_bytes (parsed_at bytes offset) @ drop (offset + encoded_len (parsed_at bytes offset)) bytes"
    and "wf_command (parsed_at bytes offset)"
proof -
  define n where "n = unat (u32_of_le (take 4 (drop (offset + 16) bytes)))"
  have hdr: "offset + 24 \<le> length bytes"
    using parsed more by (simp add: parse_owned_loop.simps [of bytes offset] split: if_splits)
  have fits: "offset + 24 + n \<le> length bytes"
    using parsed more hdr len
    by (simp add: parse_owned_loop.simps [of bytes offset] read_command_header_eq Let_def
        usize_checked_add_def n_def [symmetric] split: if_splits)
  have fits_usize: "offset + 24 + n \<le> usize_max" using fits len by (simp add: usize_max_def)
  note c = parsed_at_def [of bytes offset, folded n_def]
  note at = command_at [OF fits n_def c]
  show "wf_command (parsed_at bytes offset)" by (rule at)
  show "drop offset bytes =
      command_bytes (parsed_at bytes offset) @ drop (offset + encoded_len (parsed_at bytes offset)) bytes"
    using at(1) by (simp add: at(3) add.assoc)
  have "parse_owned_loop bytes offset acc = parse_owned_loop bytes (offset + 24 + n) (acc @ [parsed_at bytes offset])"
    using more hdr fits fits_usize len
    by (simp add: parse_owned_loop.simps [of bytes offset] read_command_header_eq Let_def
        usize_checked_add_def get_range_def n_def [symmetric] c)
  with parsed
  show "parse_owned_loop bytes (offset + encoded_len (parsed_at bytes offset)) (acc @ [parsed_at bytes offset]) = Inr r"
    by (simp add: at(3) add.assoc)
qed

lemma parse_owned_loop_sound:
  assumes "parse_owned_loop bytes offset acc = Inr r" and "offset \<le> length bytes"
    and "length bytes < 2 ^ 32"
  shows "\<exists>cs. r = acc @ cs \<and> list_all wf_command cs \<and> drop offset bytes = concat (map command_bytes cs)"
  using assms
proof (induction "length bytes - offset" arbitrary: offset acc rule: less_induct)
  case less
  show ?case
  proof (cases "offset = length bytes")
    case True
    then show ?thesis using less.prems owned_walk.walk_end [of bytes acc]
      by (intro exI [of _ "[]"]) simp
  next
    case False
    then have more: "offset < length bytes" using less.prems(2) by simp
    note step = parse_owned_loop_step [OF less.prems(1) more less.prems(3)]
    let ?c = "parsed_at bytes offset"
    have "offset + encoded_len ?c \<le> length bytes" by (rule command_fits [OF step(2)])
    moreover from this have "length bytes - (offset + encoded_len ?c) < length bytes - offset"
      using encoded_len_pos [of ?c] by linarith
    ultimately obtain cs where "r = (acc @ [?c]) @ cs" "list_all wf_command cs"
        "drop (offset + encoded_len ?c) bytes = concat (map command_bytes cs)"
      using less.hyps [OF _ step(1)] less.prems(3) by blast
    with step show ?thesis by (intro exI [of _ "?c # cs"]) simp
  qed
qed

lemma parse_owned_commands_iff:
  "parse_owned_commands bytes = Inr cs \<longleftrightarrow>
     validate_basic_stream_bytes bytes = Inr () \<and> list_all wf_command cs
     \<and> drop 32 bytes = concat (map command_bytes cs)" (is "?p \<longleftrightarrow> ?v")
proof
  assume p: ?p
  then have v: "validate_basic_stream_bytes bytes = Inr ()"
    and l: "parse_owned_loop bytes 32 [] = Inr cs"
    by (auto simp: parse_owned_commands_def res_simps)
  from v have "32 \<le> length bytes" "length bytes < 2 ^ 32" by (simp_all add: validate_basic_iff)
  from parse_owned_loop_sound [OF l this] v show ?v by auto
next
  assume v: ?v
  then have "32 \<le> length bytes" "length bytes < 2 ^ 32" by (simp_all add: validate_basic_iff)
  with owned_walk.walk_commands [of 32 bytes cs "[]"] v
  show ?p by (simp add: parse_owned_commands_def owned_fold list_all_iff)
qed

text \<open>A stream's commands, seen by the other two loops.\<close>

lemma parse_command_refs_eq:
  assumes "parse_owned_commands bytes = Inr cs"
  shows "parse_command_refs bytes = Inr (refs_of 32 cs)"
proof -
  from assms have v: "validate_basic_stream_bytes bytes = Inr ()" "list_all wf_command cs"
      "drop 32 bytes = concat (map command_bytes cs)"
    by (simp_all add: parse_owned_commands_iff)
  then have "32 \<le> length bytes" "length bytes < 2 ^ 32" by (simp_all add: validate_basic_iff)
  with refs_walk.walk_commands [of 32 bytes cs "[]"] v
  show ?thesis by (simp add: parse_command_refs_def refs_fold list_all_iff)
qed

lemma parse_stream_commands_eq:
  assumes "parse_owned_commands bytes = Inr cs"
  shows "parse_stream_commands bytes =
    rmap (\<lambda>counts. (counts, map copy_rect cs))
      (try_fold (\<lambda>counts c. count_kind (oc_kind c) counts) counts_default cs)"
proof -
  from assms have v: "validate_basic_stream_bytes bytes = Inr ()" "list_all wf_command cs"
      "drop 32 bytes = concat (map command_bytes cs)"
    by (simp_all add: parse_owned_commands_iff)
  then have len: "32 \<le> length bytes" "length bytes < 2 ^ 32" by (simp_all add: validate_basic_iff)
  have "parse_stream_loop bytes 32 counts_default [] =
      rmap (\<lambda>(counts, rects). (counts, rects, length bytes))
        (rmap (\<lambda>counts. (counts, map copy_rect cs))
          (try_fold (\<lambda>counts c. count_kind (oc_kind c) counts) counts_default cs))"
    using count_walk.walk_commands [of 32 bytes cs "(counts_default, [])"] v len
    by (simp add: count_fold list_all_iff)
  then show ?thesis
    by (simp add: parse_stream_commands_def rbind_rmap ensure_def)
      (cases "try_fold (\<lambda>counts c. count_kind (oc_kind c) counts) counts_default cs"; simp)
qed

section \<open>Round trip\<close>

definition aligned_command :: "OwnedCommand \<Rightarrow> bool" where
  "aligned_command c \<longleftrightarrow> length (oc_payload c) mod 4 = 0"

abbreviation total_len :: "OwnedCommand list \<Rightarrow> nat" where
  "total_len cs \<equiv> sum_list (map encoded_len cs)"

lemma length_commands: "length (concat (map command_bytes cs)) = total_len cs"
  by (induction cs) (auto simp: length_command_bytes)

lemma total_len_aligned: "list_all aligned_command cs \<Longrightarrow> total_len cs mod 4 = 0"
proof (induction cs)
  case (Cons c cs)
  then have "length (oc_payload c) mod 4 = 0" "total_len cs mod 4 = 0"
    by (simp_all add: aligned_command_def)
  then show ?case by (simp add: encoded_len_def [of c]) presburger
qed simp

lemma total_len_wf: "total_len cs < 2 ^ 32 \<Longrightarrow> list_all wf_command cs"
  by (induction cs) (auto simp: wf_command_def encoded_len_def)

lemma parse_built_stream:
  assumes "32 + total_len cs < 2 ^ 32" and "total_len cs mod 4 = 0"
  shows "parse_owned_commands (stream_header aw ah k (of_nat (32 + total_len cs)) d
           @ concat (map command_bytes cs)) = Inr cs"
proof -
  let ?b = "stream_header aw ah k (of_nat (32 + total_len cs)) d @ concat (map command_bytes cs)"
  have len: "length ?b = 32 + total_len cs" by (simp add: length_commands codec_simps)
  have "validate_basic_stream_bytes ?b = Inr ()"
    unfolding validate_basic_iff len using assms
    by (simp add: stream_header_def codec_simps) presburger
  moreover have "list_all wf_command cs" using assms by (intro total_len_wf) simp
  ultimately show ?thesis by (simp add: parse_owned_commands_iff codec_simps)
qed

lemma build_parse_roundtrip:
  assumes "build_command_stream_from_commands aw ah d cs = Inr bytes" and "list_all aligned_command cs"
  shows "parse_owned_commands bytes = Inr cs"
proof -
  from assms(1) have len: "32 + total_len cs < 2 ^ 32"
    and b: "bytes = stream_header aw ah (of_nat (length cs)) (of_nat (32 + total_len cs)) d
      @ concat (map command_bytes cs)"
    by (auto simp: build_command_stream_eq Let_def split: if_splits)
  show ?thesis unfolding b by (rule parse_built_stream) (use len total_len_aligned assms(2) in auto)
qed

section \<open>Wire chunks\<close>

definition chunk_of :: "u32 \<Rightarrow> u32 \<Rightarrow> OwnedCommand list \<Rightarrow> TileCommandWireChunk" where
  "chunk_of aw ah g = \<lparr>wc_bytes = stream_header aw ah (of_nat (length g)) (of_nat (32 + total_len g))
       (of_nat (length g)) @ concat (map command_bytes g),
     wc_copy_rects = map copy_rect g\<rparr>"

lemma build_wire_chunk_eq:
  "32 + total_len g < 2 ^ 32 \<Longrightarrow> build_wire_chunk aw ah g = Inr (chunk_of aw ah g)"
  by (simp add: build_wire_chunk_def build_command_stream_eq chunk_of_def usize_max_def Let_def)

definition group_ok :: "nat \<Rightarrow> OwnedCommand list \<Rightarrow> bool" where
  "group_ok target g \<longleftrightarrow> g \<noteq> [] \<and> (length g = 1 \<or> 32 + total_len g \<le> target)"

lemma wire_chunks_loop_groups:
  assumes "32 + total_len (cur @ cs) < 2 ^ 32" and "cur = [] \<or> group_ok target cur"
  shows "\<exists>groups. wire_chunks_loop aw ah target chunks cur (32 + total_len cur) cs
           = Inr (chunks @ map (chunk_of aw ah) groups)
         \<and> concat groups = cur @ cs \<and> list_all (group_ok target) groups"
  using assms
proof (induction cs arbitrary: cur chunks)
  case Nil
  then show ?case
    by (cases "cur = []") (auto simp: build_wire_chunk_eq intro: exI [of _ "[]"] exI [of _ "[cur]"])
next
  case (Cons c cs)
  have sat: "usize_saturating_add (32 + total_len cur) (encoded_len c) = 32 + total_len (cur @ [c])"
    using Cons.prems(1) by (simp add: usize_saturating_add_def usize_max_def)
  have sat0: "usize_saturating_add 32 (encoded_len c) = 32 + total_len [c]"
    using Cons.prems(1) by (simp add: usize_saturating_add_def usize_max_def)
  have single: "group_ok target [c]" by (simp add: group_ok_def)
  show ?case
  proof (cases "cur \<noteq> [] \<and> 32 + total_len (cur @ [c]) > target")
    case True
    have len: "32 + total_len cur < 2 ^ 32" "32 + total_len ([c] @ cs) < 2 ^ 32"
      using Cons.prems(1) by simp_all
    from Cons.IH [OF len(2), of "chunks @ [chunk_of aw ah cur]"] single
    obtain groups where g: "wire_chunks_loop aw ah target (chunks @ [chunk_of aw ah cur]) [c]
        (32 + total_len [c]) cs = Inr ((chunks @ [chunk_of aw ah cur]) @ map (chunk_of aw ah) groups)"
      "concat groups = [c] @ cs" "list_all (group_ok target) groups" by blast
    show ?thesis
      using True g Cons.prems(2) len
      by (intro exI [of _ "cur # groups"]) (simp add: build_wire_chunk_eq sat sat0)
  next
    case False
    then have "group_ok target (cur @ [c])" by (cases "cur = []") (auto simp: group_ok_def)
    with Cons.IH [of "cur @ [c]" chunks] Cons.prems(1)
    obtain groups where g: "wire_chunks_loop aw ah target chunks (cur @ [c])
        (32 + total_len (cur @ [c])) cs = Inr (chunks @ map (chunk_of aw ah) groups)"
      "concat groups = (cur @ [c]) @ cs" "list_all (group_ok target) groups" by auto
    show ?thesis using False g by (intro exI [of _ groups]) (auto simp: sat sat0)
  qed
qed

lemma wire_chunks_groups:
  assumes "parse_owned_commands (ts_bytes stream) = Inr cs" and "cs \<noteq> []"
  shows "\<exists>groups. wire_chunks stream target
           = Inr (map (chunk_of (ts_atlas_width stream) (ts_atlas_height stream)) groups)
         \<and> concat groups = cs \<and> list_all (group_ok (max target 33)) groups"
proof -
  from assms(1) have "drop 32 (ts_bytes stream) = concat (map command_bytes cs)"
    and "32 \<le> length (ts_bytes stream)" "length (ts_bytes stream) < 2 ^ 32"
    by (simp_all add: parse_owned_commands_iff validate_basic_iff)
  then have "32 + total_len cs < 2 ^ 32"
    using length_commands [of cs] by (metis length_drop le_add_diff_inverse)
  with wire_chunks_loop_groups [of "[]" cs "max target 33" "ts_atlas_width stream"
      "ts_atlas_height stream" "[]"]
  show ?thesis using assms by (simp add: wire_chunks_def Let_def)
qed

lemma group_len: "g \<in> set groups \<Longrightarrow> total_len g \<le> total_len (concat groups)"
  by (induction groups) auto

lemma parse_chunk:
  assumes "32 + total_len g < 2 ^ 32" and "list_all aligned_command g"
  shows "parse_owned_commands (wc_bytes (chunk_of aw ah g)) = Inr g"
  using parse_built_stream [OF assms(1) total_len_aligned [OF assms(2)]] by (simp add: chunk_of_def)

lemma length_chunk: "length (wc_bytes (chunk_of aw ah g)) = 32 + total_len g"
  by (simp add: chunk_of_def length_commands codec_simps)

section \<open>Properties of streams\<close>

text \<open>C28. The command parser accepts exactly the encoded streams: \<open>parse_owned_commands\<close> returns \<open>cs\<close> if and
  only if the header is valid and the rest of the stream is the concatenation of the encodings of
  \<open>cs\<close>; so no byte is skipped, read twice or invented, and the command list is unique.\<close>

theorem parse_owned_commands_exact:
  "parse_owned_commands bytes = Inr cs \<longleftrightarrow>
     validate_basic_stream_bytes bytes = Inr () \<and> list_all wf_command cs
     \<and> drop 32 bytes = concat (map command_bytes cs)"
  by (rule parse_owned_commands_iff)

text \<open>Building a stream from commands and parsing it gives the commands back, and building
  fails exactly when the stream would not fit a 32-bit length. The payloads must be multiples of
  four bytes long, as every payload the encoder emits is: the parser refuses streams whose
  length is not.\<close>

theorem command_stream_roundtrip:
  assumes "list_all aligned_command cs"
  shows "(case build_command_stream_from_commands atlas_width atlas_height n cs of
            Inr bytes \<Rightarrow> parse_owned_commands bytes = Inr cs \<and> 32 + total_len cs < 2 ^ 32
          | Inl e \<Rightarrow> e \<in> {Err StreamTooLarge, Err StreamLengthOverflow} \<and> 2 ^ 32 \<le> 32 + total_len cs)"
proof (cases "build_command_stream_from_commands atlas_width atlas_height n cs")
  case (Inl e)
  then show ?thesis by (auto simp: build_command_stream_eq Let_def usize_max_def split: if_splits)
next
  case (Inr bytes)
  then show ?thesis using build_parse_roundtrip [OF Inr assms]
    by (auto simp: build_command_stream_eq Let_def split: if_splits)
qed

definition witness_command :: "u32 \<Rightarrow> OwnedCommand" where
  "witness_command x = \<lparr>oc_kind = TILE_COMMAND_SOLID_COLOR, oc_atlas_xy = pack_xy x 0, oc_desktop_xy = pack_xy x 0,
     oc_wh = pack_xy 2 2, oc_changed_count = 4, oc_payload = [1, 2, 3, 255]\<rparr>"

theorem command_stream_roundtrip_witness:
  "parse_owned_commands (stream_header 4 2 2 88 2 @ command_bytes (witness_command 0)
      @ command_bytes (witness_command 2)) = Inr [witness_command 0, witness_command 2]"
  using command_stream_roundtrip [of "[witness_command 0, witness_command 2]" 4 2 2]
  by (simp add: aligned_command_def witness_command_def build_command_stream_eq usize_max_def
      encoded_len_def)

text \<open>C32. Splitting a stream into wire chunks loses nothing and keeps the order. For a stream that parses and whose
  commands have payloads of a multiple of four bytes, \<open>wire_chunks\<close> succeeds, every chunk parses, the commands of the chunks one after the
  other are the commands of the stream, each chunk carries the copy rectangles of its commands,
  and a chunk is longer than the target (at least 33 bytes) only when it holds one command.\<close>

theorem wire_chunks_lossless:
  assumes "parse_owned_commands (ts_bytes stream) = Inr cs" and "list_all aligned_command cs"
  shows "\<exists>chunks groups. wire_chunks stream target = Inr chunks
    \<and> try_map (\<lambda>chunk. parse_owned_commands (wc_bytes chunk)) chunks = Inr groups
    \<and> concat groups = cs \<and> map wc_copy_rects chunks = map (map copy_rect) groups
    \<and> list_all2 (\<lambda>chunk g. length (wc_bytes chunk) \<le> max target 33 \<or> length g = 1) chunks groups"
proof (cases "cs = []")
  case True
  then have "length (ts_bytes stream) = 32"
    using assms(1) by (simp add: parse_owned_commands_iff validate_basic_iff)
  then show ?thesis using assms True
    by (intro exI [of _ "[\<lparr>wc_bytes = ts_bytes stream, wc_copy_rects = []\<rparr>]"] exI [of _ "[[]]"])
      (simp add: wire_chunks_def)
next
  case False
  let ?chunk = "chunk_of (ts_atlas_width stream) (ts_atlas_height stream)"
  obtain groups where w: "wire_chunks stream target = Inr (map ?chunk groups)"
    and cs: "concat groups = cs" and ok: "list_all (group_ok (max target 33)) groups"
    using wire_chunks_groups [OF assms(1) False] by blast
  from assms(1) have "drop 32 (ts_bytes stream) = concat (map command_bytes cs)"
    and "32 \<le> length (ts_bytes stream)" "length (ts_bytes stream) < 2 ^ 32"
    by (simp_all add: parse_owned_commands_iff validate_basic_iff)
  then have len: "32 + total_len cs < 2 ^ 32"
    using length_commands [of cs] by (metis length_drop le_add_diff_inverse)
  have parse: "parse_owned_commands (wc_bytes (?chunk g)) = Inr g" if "g \<in> set groups" for g
    using that group_len [OF that] len assms(2)
    by (intro parse_chunk) (auto simp: cs [symmetric] list_all_iff)
  have "try_map (\<lambda>chunk. parse_owned_commands (wc_bytes chunk)) (map ?chunk groups) = Inr groups"
    using parse by (induction groups) auto
  moreover have "list_all2 (\<lambda>chunk g. length (wc_bytes chunk) \<le> max target 33 \<or> length g = 1)
      (map ?chunk groups) groups"
    using ok by (auto simp: list_all2_conv_all_nth list_all_length length_chunk group_ok_def)
  ultimately show ?thesis using w cs
    by (intro exI [of _ "map ?chunk groups"] exI [of _ groups]) (simp add: chunk_of_def)
qed

definition witness_stream :: TileCommandStream where
  "witness_stream = \<lparr>ts_atlas_width = 4, ts_atlas_height = 2, ts_descriptor_count = 2,
     ts_command_count = 2, ts_byte_len = 88, ts_raw_equivalent_bytes = 88,
     ts_delta_bytes_saved_estimate = 0, ts_copy_rects = [],
     ts_bytes = stream_header 4 2 2 88 2 @ concat (map command_bytes [witness_command 0, witness_command 2]),
     ts_command_counts = counts_default\<rparr>"

lemma witness_stream_parses:
  "parse_owned_commands (ts_bytes witness_stream) = Inr [witness_command 0, witness_command 2]"
  using parse_built_stream [of "[witness_command 0, witness_command 2]" 4 2 2 2]
  by (simp add: witness_stream_def encoded_len_def witness_command_def)

theorem wire_chunks_lossless_witness:
  "\<exists>chunks groups. wire_chunks witness_stream 60 = Inr chunks
    \<and> try_map (\<lambda>chunk. parse_owned_commands (wc_bytes chunk)) chunks = Inr groups
    \<and> concat groups = [witness_command 0, witness_command 2]
    \<and> map wc_copy_rects chunks = map (map copy_rect) groups
    \<and> list_all2 (\<lambda>chunk g. length (wc_bytes chunk) \<le> max 60 33 \<or> length g = 1) chunks groups"
  by (rule wire_chunks_lossless [OF witness_stream_parses])
    (simp add: aligned_command_def witness_command_def)

end
