(* ===== verification/Tile_Decode.thy ===== *)
theory Tile_Decode
  imports Tile_Stream
begin

text \<open>
  The pixel side of \<open>talos_worker_helper/src/tile_commands.rs\<close>: the seven command decoders and
  \<open>reconstruct_atlas_from_stream\<close>, which paints a stream into an atlas. The atlas is its bytes,
  passed from write to write; a write out of range is \<open>Panic\<close>. Colours are computed on words and,
  where the source uses \<open>i32\<close>, on integers (all values stay within 32 bits).

  The specification is an image: a function from pixel coordinates to four bytes. Each decoder
  refines \<open>blit\<close>, which replaces the pixels of a rectangle (locale \<open>painter\<close>).
\<close>

unbundle bit_operations_syntax

section \<open>Pixel arithmetic\<close>

definition clamp_u8 :: "int \<Rightarrow> u8" where
  "clamp_u8 v = of_int (max 0 (min 255 v))"

definition sign_extend :: "u32 \<Rightarrow> nat \<Rightarrow> int" where
  "sign_extend v bits =
     (if v AND push_bit (bits - 1) 1 = 0 then uint v else uint v - 2 ^ bits)"

definition apply_masked_quant_delta :: "u32 \<Rightarrow> u32 \<Rightarrow> nat \<Rightarrow> u32" where
  "apply_masked_quant_delta previous_pixel packed_delta quant_shift =
     (let step = 2 ^ quant_shift;
          previous_b = uint (previous_pixel AND 0xff);
          previous_g = uint (drop_bit 8 previous_pixel AND 0xff);
          previous_r = uint (drop_bit 16 previous_pixel AND 0xff);
          alpha = previous_pixel AND 0xff000000;
          delta_b = sign_extend (packed_delta AND 0x1f) 5 * step;
          delta_g = sign_extend (drop_bit 5 packed_delta AND 0x3f) 6 * step;
          delta_r = sign_extend (drop_bit 11 packed_delta AND 0x1f) 5 * step;
          b = ucast (clamp_u8 (previous_b + delta_b)) :: u32;
          g = ucast (clamp_u8 (previous_g + delta_g)) :: u32;
          r = ucast (clamp_u8 (previous_r + delta_r)) :: u32 in
      b OR push_bit 8 g OR push_bit 16 r OR alpha)"

definition rgb565_to_bgra :: "u32 \<Rightarrow> u32" where
  "rgb565_to_bgra v =
     (let b5 = v AND 0x1f;
          g6 = drop_bit 5 v AND 0x3f;
          r5 = drop_bit 11 v AND 0x1f;
          b = push_bit 3 b5 OR drop_bit 2 b5;
          g = push_bit 2 g6 OR drop_bit 4 g6;
          r = push_bit 3 r5 OR drop_bit 2 r5 in
      b OR push_bit 8 g OR push_bit 16 r OR 0xff000000)"

definition ycocg_to_bgra :: "int \<Rightarrow> int \<Rightarrow> int \<Rightarrow> u32" where
  "ycocg_to_bgra y co cg =
     (let tmp = y - cg div 2;
          g = cg + tmp;
          b = tmp - co div 2;
          r = b + co in
      ucast (clamp_u8 b) OR push_bit 8 (ucast (clamp_u8 g)) OR push_bit 16 (ucast (clamp_u8 r))
        OR 0xff000000)"

definition align_usize_to_4 :: "nat \<Rightarrow> nat" where
  "align_usize_to_4 v = usz (v + 3) div 4 * 4"

section \<open>Access to the atlas and to the previous desktop\<close>

definition validate_rect :: "u32 \<Rightarrow> u32 \<Rightarrow> u32 \<Rightarrow> u32 \<Rightarrow> u32 \<Rightarrow> u32 \<Rightarrow> unit tile_result" where
  "validate_rect x y width height limit_width limit_height =
     rbind (ensure (width > 0 \<and> height > 0) EmptyRect) (\<lambda>_.
       ensure ((case checked_add x width of None \<Rightarrow> False | Some right \<Rightarrow> right \<le> limit_width)
               \<and> (case checked_add y height of None \<Rightarrow> False | Some bottom \<Rightarrow> bottom \<le> limit_height))
         RectExceedsBounds)"

definition read_previous_pixel :: "bytes \<Rightarrow> u32 \<Rightarrow> u32 \<Rightarrow> u32 \<Rightarrow> u32 \<Rightarrow> nat \<Rightarrow> u32 tile_result" where
  "read_previous_pixel previous desktop_width desktop_x desktop_y tile_width pixel =
     (let row = pixel div unat tile_width;
          col = pixel mod unat tile_width in
      rbind (ok_or (Err PreviousOffsetOverflow)
               (usize_checked_mul
                  (usz ((unat desktop_y + row) * unat desktop_width + unat desktop_x + col)) 4)) (\<lambda>offset.
      read_u32 previous offset))"

definition write_pixel :: "bytes \<Rightarrow> nat \<Rightarrow> u32 \<Rightarrow> u32 \<Rightarrow> u32 \<Rightarrow> nat \<Rightarrow> bytes \<Rightarrow> bytes tile_result" where
  "write_pixel atlas atlas_stride atlas_x atlas_y width pixel color =
     (let row = pixel div unat width;
          col = pixel mod unat width;
          dst = usz ((unat atlas_y + row) * atlas_stride + (unat atlas_x + col) * 4) in
      ok_or Panic (put_range dst color atlas))"

definition fill_rect ::
    "bytes \<Rightarrow> nat \<Rightarrow> u32 \<Rightarrow> u32 \<Rightarrow> u32 \<Rightarrow> u32 \<Rightarrow> bytes \<Rightarrow> bytes tile_result" where
  "fill_rect atlas atlas_stride atlas_x atlas_y width height color =
     try_fold (\<lambda>atlas row.
       let dst = usz ((unat atlas_y + row) * atlas_stride + unat atlas_x * 4) in
       try_fold (\<lambda>atlas pixel.
         let start = usz (dst + pixel * 4) in
         ok_or Panic (put_range start color atlas)) atlas [0..<unat width]) atlas [0..<unat height]"

section \<open>Decoders\<close>

definition decode_raw_payload ::
    "bytes \<Rightarrow> nat \<Rightarrow> u32 \<Rightarrow> u32 \<Rightarrow> u32 \<Rightarrow> u32 \<Rightarrow> bytes \<Rightarrow> bytes tile_result" where
  "decode_raw_payload atlas atlas_stride atlas_x atlas_y width height payload =
     (let row_bytes = unat width * 4;
          expected = usz (row_bytes * unat height) in
      rbind (ensure (length payload = expected) RawLengthMismatch) (\<lambda>_.
      try_fold (\<lambda>atlas row.
        let src = row * row_bytes;
            dst = usz ((unat atlas_y + row) * atlas_stride + unat atlas_x * 4) in
        rbind (ok_or Panic (get_range src (src + row_bytes) payload)) (\<lambda>pixels.
        ok_or Panic (put_range dst pixels atlas))) atlas [0..<unat height]))"

definition decode_xor_raw_payload ::
    "bytes \<Rightarrow> nat \<Rightarrow> u32 \<Rightarrow> u32 \<Rightarrow> u32 \<Rightarrow> u32 \<Rightarrow> u32 \<Rightarrow> u32 \<Rightarrow> bytes \<Rightarrow> bytes option \<Rightarrow> u32 \<Rightarrow> u32
       \<Rightarrow> bytes tile_result" where
  "decode_xor_raw_payload atlas atlas_stride atlas_x atlas_y desktop_x desktop_y width height payload
      previous_desktop desktop_width desktop_height =
     rbind (ok_or (Err PreviousRequired) previous_desktop) (\<lambda>previous.
     rbind (validate_rect desktop_x desktop_y width height desktop_width desktop_height) (\<lambda>_.
     let pixel_count = unat width * unat height in
     rbind (ensure (length payload = usz (pixel_count * 4)) XorRawLengthMismatch) (\<lambda>_.
     try_fold (\<lambda>atlas pixel.
       rbind (read_previous_pixel previous desktop_width desktop_x desktop_y width pixel) (\<lambda>previous_pixel.
       rbind (read_u32 payload (pixel * 4)) (\<lambda>xor_pixel.
       write_pixel atlas atlas_stride atlas_x atlas_y width pixel (u32_le (previous_pixel XOR xor_pixel)))))
       atlas [0..<pixel_count])))"

text \<open>\<open>step_by(8)\<close> over a payload whose length is a multiple of eight: the offsets of its entries.\<close>

definition step_by_8 :: "nat \<Rightarrow> nat list" where
  "step_by_8 n = map (\<lambda>k. 8 * k) [0..<(n + 7) div 8]"

definition decode_xor_sparse_payload ::
    "bytes \<Rightarrow> nat \<Rightarrow> u32 \<Rightarrow> u32 \<Rightarrow> u32 \<Rightarrow> u32 \<Rightarrow> u32 \<Rightarrow> u32 \<Rightarrow> bytes \<Rightarrow> bytes option \<Rightarrow> u32 \<Rightarrow> u32
       \<Rightarrow> bytes tile_result" where
  "decode_xor_sparse_payload atlas atlas_stride atlas_x atlas_y desktop_x desktop_y width height payload
      previous_desktop desktop_width desktop_height =
     rbind (ok_or (Err PreviousRequired) previous_desktop) (\<lambda>previous.
     rbind (validate_rect desktop_x desktop_y width height desktop_width desktop_height) (\<lambda>_.
     rbind (ensure (length payload mod 8 = 0) SparseNotAligned) (\<lambda>_.
     let pixel_count = unat width * unat height in
     rbind (try_fold (\<lambda>atlas pixel.
       rbind (read_previous_pixel previous desktop_width desktop_x desktop_y width pixel) (\<lambda>color.
       write_pixel atlas atlas_stride atlas_x atlas_y width pixel (u32_le color)))
       atlas [0..<pixel_count]) (\<lambda>atlas.
     try_fold (\<lambda>atlas entry_offset.
       rbind (read_u32 payload entry_offset) (\<lambda>pixel_word.
       let pixel = unat pixel_word in
       rbind (ensure (pixel < pixel_count) SparseIndexExceeds) (\<lambda>_.
       rbind (read_previous_pixel previous desktop_width desktop_x desktop_y width pixel) (\<lambda>previous_pixel.
       rbind (read_u32 payload (entry_offset + 4)) (\<lambda>xor_pixel.
       write_pixel atlas atlas_stride atlas_x atlas_y width pixel
         (u32_le (previous_pixel XOR xor_pixel)))))))
       atlas (step_by_8 (length payload))))))"

definition quant_expected_len :: "nat \<Rightarrow> nat tile_result" where
  "quant_expected_len pixel_count =
     rbind (ok_or (Err QuantLengthOverflow) (usize_checked_mul ((pixel_count + 31) div 32) 4)) (\<lambda>mask_bytes.
     rbind (ok_or (Err QuantLengthOverflow) (usize_checked_mul pixel_count 2)) (\<lambda>residual_bytes.
     rbind (ok_or (Err QuantLengthOverflow)
              (Option.bind (usize_checked_add 4 mask_bytes) (\<lambda>v. usize_checked_add v residual_bytes))) (\<lambda>n.
     Inr (align_usize_to_4 n))))"

text \<open>One round of the pixel loop: the atlas and the number of changed pixels seen so far.\<close>

definition quant_step :: "bytes \<Rightarrow> bytes \<Rightarrow> u32 \<Rightarrow> u32 \<Rightarrow> u32 \<Rightarrow> nat \<Rightarrow> u32 \<Rightarrow> u32 \<Rightarrow> u32 \<Rightarrow> nat \<Rightarrow> nat \<Rightarrow> nat
     \<Rightarrow> bytes \<times> nat \<Rightarrow> nat \<Rightarrow> (bytes \<times> nat) tile_result" where
  "quant_step payload previous desktop_width desktop_x desktop_y atlas_stride atlas_x atlas_y width
      quant_shift mask_offset residual_offset = (\<lambda>(atlas, seen_changed) pixel.
     rbind (read_previous_pixel previous desktop_width desktop_x desktop_y width pixel) (\<lambda>previous_pixel.
     rbind (read_u32 payload (mask_offset + pixel div 32 * 4)) (\<lambda>mask_word.
     rbind (if mask_word AND push_bit (pixel mod 32) 1 \<noteq> 0 then
              rbind (read_u32 payload (residual_offset + pixel div 2 * 4)) (\<lambda>residual_word.
              let packed = if pixel mod 2 = 0 then residual_word AND 0xffff else drop_bit 16 residual_word in
              Inr (apply_masked_quant_delta previous_pixel packed quant_shift,
                   usize_saturating_add seen_changed 1))
            else Inr (previous_pixel, seen_changed)) (\<lambda>(color, seen_changed).
     rbind (write_pixel atlas atlas_stride atlas_x atlas_y width pixel (u32_le color)) (\<lambda>atlas.
     Inr (atlas, seen_changed))))))"

definition decode_masked_quant_delta_payload ::
    "bytes \<Rightarrow> nat \<Rightarrow> u32 \<Rightarrow> u32 \<Rightarrow> u32 \<Rightarrow> u32 \<Rightarrow> u32 \<Rightarrow> u32 \<Rightarrow> bytes \<Rightarrow> nat \<Rightarrow> bytes option \<Rightarrow> u32 \<Rightarrow> u32
       \<Rightarrow> bytes tile_result" where
  "decode_masked_quant_delta_payload atlas atlas_stride atlas_x atlas_y desktop_x desktop_y width height
      payload changed_count previous_desktop desktop_width desktop_height =
     rbind (ok_or (Err PreviousRequired) previous_desktop) (\<lambda>previous.
     rbind (validate_rect desktop_x desktop_y width height desktop_width desktop_height) (\<lambda>_.
     let pixel_count = unat width * unat height in
     rbind (ensure (changed_count \<le> pixel_count) QuantCountExceeds) (\<lambda>_.
     let mask_bytes = (pixel_count + 31) div 32 * 4 in
     rbind (quant_expected_len pixel_count) (\<lambda>expected.
     rbind (ensure (length payload = expected) QuantLengthMismatch) (\<lambda>_.
     rbind (read_u32 payload 0) (\<lambda>shift_word.
     let quant_shift = unat (shift_word AND 0xff) in
     rbind (ensure (quant_shift \<le> 4) QuantShiftInvalid) (\<lambda>_.
     let mask_offset = 4; residual_offset = mask_offset + mask_bytes in
     rbind (try_fold (quant_step payload previous desktop_width desktop_x desktop_y atlas_stride atlas_x atlas_y
              width quant_shift mask_offset residual_offset)
       (atlas, 0) [0..<pixel_count]) (\<lambda>(atlas, seen_changed).
     rbind (ensure (seen_changed = changed_count) QuantMaskCountMismatch) (\<lambda>_. Inr atlas)))))))))"

definition decode_lossy_ui_block_payload ::
    "bytes \<Rightarrow> nat \<Rightarrow> u32 \<Rightarrow> u32 \<Rightarrow> u32 \<Rightarrow> u32 \<Rightarrow> bytes \<Rightarrow> bytes tile_result" where
  "decode_lossy_ui_block_payload atlas atlas_stride atlas_x atlas_y width height payload =
     (let pixel_count = unat width * unat height;
          chroma_width = (unat width + 3) div 4;
          chroma_height = (unat height + 3) div 4 in
      rbind (ok_or (Err LossyLengthOverflow) (usize_checked_mul chroma_width chroma_height)) (\<lambda>chroma_count.
      let y_bytes = align_usize_to_4 ((pixel_count + 1) div 2);
          chroma_bytes = align_usize_to_4 chroma_count in
      rbind (ok_or (Err LossyLengthOverflow)
               (Option.bind (usize_checked_add 4 y_bytes) (\<lambda>v. usize_checked_add v chroma_bytes))) (\<lambda>expected.
      rbind (ensure (length payload = expected) LossyLengthMismatch) (\<lambda>_.
      rbind (read_u32 payload 0) (\<lambda>header.
      rbind (ensure (unat (header AND 0xffff) = chroma_width \<and> unat (drop_bit 16 header) = chroma_height)
               LossyChromaMismatch) (\<lambda>_.
      let y_offset = 4; chroma_offset = y_offset + y_bytes in
      try_fold (\<lambda>atlas pixel.
        rbind (read_u32 payload (y_offset + pixel div 8 * 4)) (\<lambda>y_word.
        let y4 = drop_bit (pixel mod 8 * 4) y_word AND 0x0f;
            y = uint (push_bit 4 y4 OR y4);
            px = pixel mod unat width;
            py = pixel div unat width;
            chroma_index = py div 4 * chroma_width + px div 4 in
        rbind (read_u32 payload (chroma_offset + chroma_index div 4 * 4)) (\<lambda>chroma_word.
        let chroma_byte = drop_bit (chroma_index mod 4 * 8) chroma_word AND 0xff;
            co = sign_extend (chroma_byte AND 0x0f) 4 * 32;
            cg = sign_extend (drop_bit 4 chroma_byte AND 0x0f) 4 * 32 in
        write_pixel atlas atlas_stride atlas_x atlas_y width pixel (u32_le (ycocg_to_bgra y co cg)))))
        atlas [0..<pixel_count]))))))"

definition decode_sharp_ui_block_payload ::
    "bytes \<Rightarrow> nat \<Rightarrow> u32 \<Rightarrow> u32 \<Rightarrow> u32 \<Rightarrow> u32 \<Rightarrow> bytes \<Rightarrow> bytes tile_result" where
  "decode_sharp_ui_block_payload atlas atlas_stride atlas_x atlas_y width height payload =
     (let pixel_count = unat width * unat height in
      rbind (ok_or (Err SharpLengthOverflow) (usize_checked_mul pixel_count 2)) (\<lambda>n.
      rbind (ensure (length payload = align_usize_to_4 n) SharpLengthMismatch) (\<lambda>_.
      try_fold (\<lambda>atlas pixel.
        rbind (read_u32 payload (pixel div 2 * 4)) (\<lambda>word.
        let packed = if pixel mod 2 = 0 then word AND 0xffff else drop_bit 16 word in
        write_pixel atlas atlas_stride atlas_x atlas_y width pixel (u32_le (rgb565_to_bgra packed))))
        atlas [0..<pixel_count])))"

section \<open>Reconstruction\<close>

definition validate_stream_header :: "TileCommandStream \<Rightarrow> unit tile_result" where
  "validate_stream_header stream =
     rbind (ensure (length (ts_bytes stream) \<ge> unat TILE_COMMAND_STREAM_HEADER_BYTES) StreamShorterThanHeader) (\<lambda>_.
     rbind (read_u32 (ts_bytes stream) 0) (\<lambda>magic.
     rbind (ensure (magic = TILE_COMMAND_STREAM_MAGIC) BadMagic) (\<lambda>_.
     rbind (read_u32 (ts_bytes stream) 4) (\<lambda>version.
     rbind (ensure (version = TILE_COMMAND_STREAM_VERSION) BadVersion) (\<lambda>_.
     rbind (read_u32 (ts_bytes stream) 20) (\<lambda>byte_len.
     ensure (byte_len = ts_byte_len stream) ByteLengthMismatch))))))"

text \<open>The \<open>match kind\<close> of the loop. \<open>payload\<close> is the slice \<open>stream.bytes[payload_offset..payload_end]\<close> that
  every arm but the solid colour takes; the solid colour is read at \<open>payload_offset\<close>.\<close>

definition paint_command :: "bytes \<Rightarrow> bytes option \<Rightarrow> u32 \<Rightarrow> u32 \<Rightarrow> nat \<Rightarrow> bytes \<Rightarrow> u32 \<Rightarrow> u32 \<Rightarrow> u32 \<Rightarrow> u32
     \<Rightarrow> nat \<Rightarrow> nat \<Rightarrow> nat \<Rightarrow> bytes tile_result" where
  "paint_command bytes previous_desktop desktop_width desktop_height atlas_stride atlas kind atlas_xy desktop_xy
      wh payload_offset payload_end changed_count =
     (let atlas_x = atlas_xy AND 0xffff; atlas_y = drop_bit 16 atlas_xy;
          desktop_x = desktop_xy AND 0xffff; desktop_y = drop_bit 16 desktop_xy;
          width = wh AND 0xffff; height = drop_bit 16 wh;
          payload = ok_or Panic (get_range payload_offset payload_end bytes) in
      if kind = TILE_COMMAND_SOLID_COLOR then
        rbind (read_u32 bytes payload_offset) (\<lambda>word.
        fill_rect atlas atlas_stride atlas_x atlas_y width height (u32_le word))
      else if kind = TILE_COMMAND_RAW_BGRA then
        rbind payload (\<lambda>payload. decode_raw_payload atlas atlas_stride atlas_x atlas_y width height payload)
      else if kind = TILE_COMMAND_XOR_RAW then
        rbind payload (\<lambda>payload. decode_xor_raw_payload atlas atlas_stride atlas_x atlas_y
          desktop_x desktop_y width height payload previous_desktop desktop_width desktop_height)
      else if kind = TILE_COMMAND_XOR_SPARSE then
        rbind payload (\<lambda>payload. decode_xor_sparse_payload atlas atlas_stride atlas_x atlas_y
          desktop_x desktop_y width height payload previous_desktop desktop_width desktop_height)
      else if kind = TILE_COMMAND_MASKED_QUANT_DELTA then
        rbind payload (\<lambda>payload. decode_masked_quant_delta_payload atlas atlas_stride atlas_x atlas_y
          desktop_x desktop_y width height payload changed_count previous_desktop desktop_width desktop_height)
      else if kind = TILE_COMMAND_LOSSY_UI_BLOCK then
        rbind payload (\<lambda>payload. decode_lossy_ui_block_payload atlas atlas_stride atlas_x atlas_y width height payload)
      else if kind = TILE_COMMAND_SHARP_UI_BLOCK then
        rbind payload (\<lambda>payload. decode_sharp_ui_block_payload atlas atlas_stride atlas_x atlas_y width height payload)
      else Inl (Err (UnknownKind kind)))"

function reconstruct_loop :: "TileCommandStream \<Rightarrow> bytes option \<Rightarrow> u32 \<Rightarrow> u32 \<Rightarrow> nat \<Rightarrow> nat \<Rightarrow> bytes
     \<Rightarrow> bytes tile_result" where
  "reconstruct_loop stream previous_desktop desktop_width desktop_height ending offset reconstructed =
     (if offset < ending then
        if \<not> offset + unat TILE_COMMAND_HEADER_BYTES \<le> ending then Inl (Err TruncatedCommandHeader)
        else case read_command_header (ts_bytes stream) offset of
          Inl e \<Rightarrow> Inl e
        | Inr (kind, atlas_xy, desktop_xy, wh, payload_len, changed_count) \<Rightarrow>
            let payload_offset = offset + unat TILE_COMMAND_HEADER_BYTES in
            case usize_checked_add payload_offset (unat payload_len) of
              None \<Rightarrow> Inl (Err PayloadOffsetOverflow)
            | Some payload_end \<Rightarrow>
                if \<not> payload_end \<le> ending then Inl (Err TruncatedPayload)
                else case rbind (validate_rect (atlas_xy AND 0xffff) (drop_bit 16 atlas_xy)
                        (wh AND 0xffff) (drop_bit 16 wh) (ts_atlas_width stream) (ts_atlas_height stream)) (\<lambda>_.
                      paint_command (ts_bytes stream) previous_desktop desktop_width desktop_height
                        (unat (ts_atlas_width stream) * 4) reconstructed kind atlas_xy desktop_xy wh
                        payload_offset payload_end (unat changed_count)) of
                    Inl e \<Rightarrow> Inl e
                  | Inr reconstructed \<Rightarrow>
                      reconstruct_loop stream previous_desktop desktop_width desktop_height ending
                        payload_end reconstructed
      else Inr reconstructed)"
  by pat_completeness auto
termination
  by (relation "measure (\<lambda>(_, _, _, _, ending, offset, _). ending - offset)")
    (auto simp: usize_checked_add_Some_iff)

declare reconstruct_loop.simps [simp del]

definition isize_max :: nat where
  "isize_max = 2 ^ 63 - 1"

text \<open>\<open>vec![0u8; expected]\<close> panics when the size exceeds \<open>isize::MAX\<close>.\<close>

definition reconstruct_atlas_from_stream ::
    "TileCommandStream \<Rightarrow> bytes option \<Rightarrow> u32 \<Rightarrow> u32 \<Rightarrow> bytes tile_result" where
  "reconstruct_atlas_from_stream stream previous_desktop desktop_width desktop_height =
     rbind (validate_stream_header stream) (\<lambda>_.
     let expected = usz (unat (ts_atlas_width stream) * unat (ts_atlas_height stream) * 4) in
     if expected > isize_max then Inl Panic
     else reconstruct_loop stream previous_desktop desktop_width desktop_height
            (unat (ts_byte_len stream)) (unat TILE_COMMAND_STREAM_HEADER_BYTES) (replicate expected 0))"

section \<open>Images\<close>

text \<open>An atlas of width \<open>w\<close> as an image: the four bytes of the pixel in column \<open>px\<close> and row \<open>py\<close>.\<close>

type_synonym image = "nat \<Rightarrow> nat \<Rightarrow> bytes"

definition image_of :: "nat \<Rightarrow> bytes \<Rightarrow> image" where
  "image_of w atlas px py = slice (py * (w * 4) + px * 4) (py * (w * 4) + px * 4 + 4) atlas"

definition atlas_ok :: "nat \<Rightarrow> nat \<Rightarrow> bytes \<Rightarrow> bool" where
  "atlas_ok w h atlas \<longleftrightarrow> length atlas = w * h * 4 \<and> w * h * 4 < 2 ^ 64"

definition in_rect :: "nat \<Rightarrow> nat \<Rightarrow> nat \<Rightarrow> nat \<Rightarrow> nat \<Rightarrow> nat \<Rightarrow> bool" where
  "in_rect x y w h px py \<longleftrightarrow> x \<le> px \<and> px < x + w \<and> y \<le> py \<and> py < y + h"

text \<open>\<open>blit x y w h c\<close> replaces the pixels of the rectangle by the colours \<open>c\<close>, given by the index of
  the pixel in the rectangle in row order.\<close>

definition blit :: "nat \<Rightarrow> nat \<Rightarrow> nat \<Rightarrow> nat \<Rightarrow> (nat \<Rightarrow> bytes) \<Rightarrow> image \<Rightarrow> image" where
  "blit x y w h c img px py = (if in_rect x y w h px py then c ((py - y) * w + (px - x)) else img px py)"

lemma pixel_offset_inj:
  fixes W :: nat
  assumes "px < W" and "qx < W" and "py * (W * 4) + px * 4 = qy * (W * 4) + qx * 4"
  shows "px = qx \<and> py = qy"
proof -
  have "py * W + px = qy * W + qx" using assms(3) by (simp add: algebra_simps)
  then have "(py * W + px) div W = (qy * W + qx) div W" "(py * W + px) mod W = (qy * W + qx) mod W"
    by simp_all
  then show ?thesis using assms(1,2) by simp
qed

lemma pixel_fits:
  fixes W H :: nat
  assumes "px < W" and "py < H"
  shows "py * (W * 4) + px * 4 + 4 \<le> W * H * 4"
proof -
  have "(py + 1) * (W * 4) \<le> H * (W * 4)" using assms(2) by (intro mult_le_mono1) simp
  moreover have "px * 4 + 4 \<le> W * 4" using assms(1) by simp
  ultimately show ?thesis by (simp add: algebra_simps)
qed

lemma slice_put_same:
  "put_range d ys xs = Some zs \<Longrightarrow> slice d (d + length ys) zs = ys"
  by (auto simp: put_range_def slice_def split: if_splits)

lemma slice_put_other:
  assumes "put_range d ys xs = Some zs" and "e + n \<le> d \<or> d + length ys \<le> e"
  shows "slice e (e + n) zs = slice e (e + n) xs"
proof (rule nth_equalityI)
  show "length (slice e (e + n) zs) = length (slice e (e + n) xs)"
    using put_range_length [OF assms(1)] by simp
  fix i assume i: "i < length (slice e (e + n) zs)"
  then have "i < n" "e + i < length xs" using put_range_length [OF assms(1)] by auto
  then show "slice e (e + n) zs ! i = slice e (e + n) xs ! i"
    using put_range_nth [OF assms(1), of "e + i"] put_range_length [OF assms(1)] assms(2)
    by (auto simp: slice_nth)
qed

text \<open>Writing one pixel.\<close>

lemma put_pixel:
  assumes ok: "atlas_ok W H atlas" and px: "px < W" and py: "py < H" and col: "length color = 4"
  shows "\<exists>atlas'. put_range (usz (py * (W * 4) + px * 4)) color atlas = Some atlas'
    \<and> atlas_ok W H atlas'
    \<and> (\<forall>qx qy. qx < W \<longrightarrow> image_of W atlas' qx qy
          = (if qx = px \<and> qy = py then color else image_of W atlas qx qy))"
proof -
  let ?d = "py * (W * 4) + px * 4"
  have fits: "?d + 4 \<le> length atlas" using pixel_fits [OF px py] ok by (simp add: atlas_ok_def)
  then have "?d < 2 ^ 64" using ok unfolding atlas_ok_def by linarith
  then have "usz ?d = ?d" unfolding usz_def by (rule mod_less)
  moreover obtain atlas' where put: "put_range ?d color atlas = Some atlas'"
    using fits col by (simp add: put_range_def)
  moreover have "atlas_ok W H atlas'" using put_range_length [OF put] ok by (simp add: atlas_ok_def)
  moreover have "image_of W atlas' qx qy = (if qx = px \<and> qy = py then color else image_of W atlas qx qy)"
    if "qx < W" for qx qy
  proof (cases "qx = px \<and> qy = py")
    case True
    then show ?thesis using slice_put_same [OF put] col by (simp add: image_of_def)
  next
    case False
    let ?e = "qy * (W * 4) + qx * 4"
    have "?e \<noteq> ?d" using pixel_offset_inj [OF that px] False by blast
    then have "qy * W + qx \<noteq> py * W + px" by (simp add: algebra_simps)
    then have "qy * W + qx + 1 \<le> py * W + px \<or> py * W + px + 1 \<le> qy * W + qx" by linarith
    then have "?e + 4 \<le> ?d \<or> ?d + 4 \<le> ?e" by (auto simp: algebra_simps)
    then show ?thesis using slice_put_other [OF put, of ?e 4] False col
      by (auto simp: image_of_def)
  qed
  ultimately show ?thesis by auto
qed

lemma usz_pixel: "atlas_ok W H atlas \<Longrightarrow> px < W \<Longrightarrow> py < H \<Longrightarrow>
  usz (py * (W * 4) + px * 4) = py * (W * 4) + px * 4"
proof -
  assume ok: "atlas_ok W H atlas" and p: "px < W" "py < H"
  have "py * (W * 4) + px * 4 < 2 ^ 64"
    using pixel_fits [OF p] ok unfolding atlas_ok_def by linarith
  then show ?thesis unfolding usz_def by (rule mod_less)
qed

text \<open>A rectangle inside the atlas; \<open>write_pixel\<close> with an index inside it.\<close>

definition rect_inside :: "nat \<Rightarrow> nat \<Rightarrow> u32 \<Rightarrow> u32 \<Rightarrow> u32 \<Rightarrow> u32 \<Rightarrow> bool" where
  "rect_inside W H x y w h \<longleftrightarrow> unat x + unat w \<le> W \<and> unat y + unat h \<le> H"

lemma validate_rect_iff:
  "validate_rect x y w h lw lh = Inr () \<longleftrightarrow> 0 < w \<and> 0 < h \<and> rect_inside (unat lw) (unat lh) x y w h"
proof -
  have "(case checked_add a b of None \<Rightarrow> False | Some r \<Rightarrow> r \<le> l) \<longleftrightarrow> unat a + unat b \<le> unat l" for a b l :: u32
    using unat_bound [of l] by (auto simp: checked_add_def word_le_nat_alt unat_add_no_wrap)
  then show ?thesis by (auto simp: validate_rect_def ensure_def rect_inside_def)
qed

lemma write_pixel_paints:
  assumes ok: "atlas_ok W H atlas" and r: "rect_inside W H x y w h"
    and i: "i < unat w * unat h" and col: "length color = 4"
  shows "\<exists>atlas'. write_pixel atlas (W * 4) x y w i color = Inr atlas' \<and> atlas_ok W H atlas'
    \<and> (\<forall>qx qy. qx < W \<longrightarrow> image_of W atlas' qx qy
          = (if qx = unat x + i mod unat w \<and> qy = unat y + i div unat w then color
             else image_of W atlas qx qy))"
proof -
  have w: "0 < unat w" using i by (cases "unat w = 0") auto
  have px: "unat x + i mod unat w < W" using w r mod_less_divisor [OF w, of i] unfolding rect_inside_def by linarith
  have "i div unat w < unat h" using i by (simp add: less_mult_imp_div_less mult.commute)
  then have py: "unat y + i div unat w < H" using r unfolding rect_inside_def by linarith
  from put_pixel [OF ok px py col] show ?thesis
    by (auto simp: write_pixel_def Let_def)
qed

text \<open>Two atlases of one size with the same image are equal.\<close>

lemma image_ext:
  assumes a: "atlas_ok W H a" and b: "atlas_ok W H b"
    and eq: "\<And>px py. px < W \<Longrightarrow> py < H \<Longrightarrow> image_of W a px py = image_of W b px py"
  shows "a = b"
proof (rule nth_equalityI)
  show "length a = length b" using a b by (simp add: atlas_ok_def)
  fix i assume i: "i < length a"
  let ?p = "i div 4" let ?px = "?p mod W" let ?py = "?p div W"
  have len: "length a = W * H * 4" "length b = W * H * 4" using a b by (simp_all add: atlas_ok_def)
  then have p: "?p < W * H" using i by (simp add: less_mult_imp_div_less)
  then have W: "0 < W" by (cases "W = 0") auto
  then have px: "?px < W" by simp
  have py: "?py < H" using p by (simp add: less_mult_imp_div_less mult.commute)
  have off: "?py * (W * 4) + ?px * 4 + i mod 4 = i"
    by (metis add_mult_distrib div_mult_mod_eq mult.assoc)
  have fits: "?py * (W * 4) + ?px * 4 + 4 \<le> W * H * 4" by (rule pixel_fits [OF px py])
  have m: "i mod 4 < 4" by simp
  have "image_of W a ?px ?py ! (i mod 4) = a ! i" "image_of W b ?px ?py ! (i mod 4) = b ! i"
    unfolding image_of_def using fits m len off by (simp_all add: slice_nth)
  then show "a ! i = b ! i" using eq [OF px py] by simp
qed

section \<open>Painting loops\<close>

text \<open>A loop over the first \<open>n\<close> pixel indices of a rectangle, each painted once with its colour.\<close>

lemma index_unique:
  fixes w :: nat
  assumes "0 < w" and "x \<le> qx" "qx < x + w" "y \<le> qy"
  shows "qx = x + i mod w \<and> qy = y + i div w \<longleftrightarrow> i = (qy - y) * w + (qx - x)"
proof
  assume "qx = x + i mod w \<and> qy = y + i div w"
  then show "i = (qy - y) * w + (qx - x)" by simp
next
  assume i: "i = (qy - y) * w + (qx - x)"
  define k where "k = qx - x"
  have k: "k < w" using assms by (simp add: k_def)
  have "i mod w = k" "i div w = qy - y" using k i by (simp_all add: k_def [symmetric])
  then show "qx = x + i mod w \<and> qy = y + i div w" using assms by (simp add: k_def)
qed

lemma paint_loop:
  assumes ok: "atlas_ok W H atlas" and r: "rect_inside W H x y w h"
    and n: "n \<le> unat w * unat h"
    and step: "\<And>a i. i < n \<Longrightarrow> body a i = write_pixel a (W * 4) x y w i (c i)"
    and col: "\<And>i. length (c i) = 4"
  shows "\<exists>atlas'. try_fold body atlas [0..<n] = Inr atlas' \<and> atlas_ok W H atlas'
    \<and> (\<forall>qx qy. qx < W \<longrightarrow> image_of W atlas' qx qy
          = (if in_rect (unat x) (unat y) (unat w) (unat h) qx qy
                \<and> (qy - unat y) * unat w + (qx - unat x) < n
             then c ((qy - unat y) * unat w + (qx - unat x)) else image_of W atlas qx qy))"
  using n step
proof (induction n)
  case 0
  then show ?case using ok by simp
next
  case (Suc n)
  then obtain a where a: "try_fold body atlas [0..<n] = Inr a" "atlas_ok W H a"
    and img: "\<And>qx qy. qx < W \<Longrightarrow> image_of W a qx qy
          = (if in_rect (unat x) (unat y) (unat w) (unat h) qx qy
                \<and> (qy - unat y) * unat w + (qx - unat x) < n
             then c ((qy - unat y) * unat w + (qx - unat x)) else image_of W atlas qx qy)"
    by (metis Suc_leD less_SucI)
  have n: "n < unat w * unat h" using Suc.prems by simp
  then have w: "0 < unat w" by (cases "unat w = 0") auto
  obtain a' where a': "write_pixel a (W * 4) x y w n (c n) = Inr a'" "atlas_ok W H a'"
    and img': "\<And>qx qy. qx < W \<Longrightarrow> image_of W a' qx qy
          = (if qx = unat x + n mod unat w \<and> qy = unat y + n div unat w then c n
             else image_of W a qx qy)"
    using write_pixel_paints [OF a(2) r n col] by blast
  have row: "n div unat w < unat h" using n by (simp add: less_mult_imp_div_less mult.commute)
  have "image_of W a' qx qy = (if in_rect (unat x) (unat y) (unat w) (unat h) qx qy
                \<and> (qy - unat y) * unat w + (qx - unat x) < Suc n
             then c ((qy - unat y) * unat w + (qx - unat x)) else image_of W atlas qx qy)"
    if q: "qx < W" for qx qy
  proof (cases "in_rect (unat x) (unat y) (unat w) (unat h) qx qy")
    case True
    then have "qx = unat x + n mod unat w \<and> qy = unat y + n div unat w
        \<longleftrightarrow> n = (qy - unat y) * unat w + (qx - unat x)"
      by (intro index_unique) (use w in \<open>auto simp: in_rect_def\<close>)
    then show ?thesis using img' [OF q] img [OF q] True by (auto simp: less_Suc_eq)
  next
    case False
    then have "\<not> (qx = unat x + n mod unat w \<and> qy = unat y + n div unat w)"
      using row mod_less_divisor [OF w, of n] by (auto simp: in_rect_def)
    then show ?thesis using img' [OF q, of qy] img [OF q, of qy] False by auto
  qed
  moreover have "try_fold body atlas [0..<Suc n] = Inr a'"
    using a(1) a'(1) Suc.prems(2) [of n a] by (simp add: try_fold_append)
  ultimately show ?case using a'(2) by blast
qed

section \<open>The painter contract\<close>

definition paints :: "nat \<Rightarrow> nat \<Rightarrow> u32 \<Rightarrow> u32 \<Rightarrow> u32 \<Rightarrow> u32 \<Rightarrow> (nat \<Rightarrow> bytes) \<Rightarrow> bytes \<Rightarrow> bytes \<Rightarrow> bool" where
  "paints W H x y w h c atlas atlas' \<longleftrightarrow> atlas_ok W H atlas'
     \<and> (\<forall>qx qy. qx < W \<longrightarrow> image_of W atlas' qx qy
          = blit (unat x) (unat y) (unat w) (unat h) c (image_of W atlas) qx qy)"

text \<open>A decoder paints its rectangle with colours that do not depend on the atlas, or fails with an
  error that is not a panic; \<open>colours a w h\<close> is what the argument \<open>a\<close> means for a rectangle of that
  size, \<open>None\<close> for the arguments the decoder refuses.\<close>

locale painter =
  fixes decode :: "'a \<Rightarrow> nat \<Rightarrow> u32 \<Rightarrow> u32 \<Rightarrow> u32 \<Rightarrow> u32 \<Rightarrow> bytes \<Rightarrow> bytes tile_result"
    and colours :: "'a \<Rightarrow> u32 \<Rightarrow> u32 \<Rightarrow> (nat \<Rightarrow> bytes) option"
  assumes decode_paints: "atlas_ok W H atlas \<Longrightarrow> rect_inside W H x y w h \<Longrightarrow> 0 < w \<Longrightarrow> 0 < h \<Longrightarrow>
    w \<le> 65535 \<Longrightarrow> h \<le> 65535 \<Longrightarrow>
    (case colours a w h of
       None \<Rightarrow> \<exists>e. decode a (W * 4) x y w h atlas = Inl (Err e)
     | Some c \<Rightarrow> \<exists>atlas'. decode a (W * 4) x y w h atlas = Inr atlas' \<and> paints W H x y w h c atlas atlas')"
begin

lemma decode_no_panic:
  "atlas_ok W H atlas \<Longrightarrow> rect_inside W H x y w h \<Longrightarrow> 0 < w \<Longrightarrow> 0 < h \<Longrightarrow> w \<le> 65535 \<Longrightarrow> h \<le> 65535 \<Longrightarrow>
   decode a (W * 4) x y w h atlas \<noteq> Inl Panic"
  using decode_paints [of W H atlas x y w h a] by (auto split: option.splits)

lemma decode_Inr_iff:
  "atlas_ok W H atlas \<Longrightarrow> rect_inside W H x y w h \<Longrightarrow> 0 < w \<Longrightarrow> 0 < h \<Longrightarrow> w \<le> 65535 \<Longrightarrow> h \<le> 65535 \<Longrightarrow>
   (\<exists>atlas'. decode a (W * 4) x y w h atlas = Inr atlas') \<longleftrightarrow> (\<exists>c. colours a w h = Some c)"
  using decode_paints [of W H atlas x y w h a] by (auto split: option.splits)

text \<open>Outside its rectangle a decoder changes nothing.\<close>

lemma decode_frame:
  assumes "decode a (W * 4) x y w h atlas = Inr atlas'" and "atlas_ok W H atlas"
    and "rect_inside W H x y w h" and "0 < w" "0 < h" "w \<le> 65535" "h \<le> 65535"
    and "qx < W" and "\<not> in_rect (unat x) (unat y) (unat w) (unat h) qx qy"
  shows "image_of W atlas' qx qy = image_of W atlas qx qy"
  using decode_paints [of W H atlas x y w h a] assms
  by (auto simp: paints_def blit_def split: option.splits)

end

text \<open>Loops that compute the colour of a pixel and then write it.\<close>

definition colours_of :: "nat \<Rightarrow> (nat \<Rightarrow> bytes tile_result) \<Rightarrow> (nat \<Rightarrow> bytes) option" where
  "colours_of n f = (case try_map f [0..<n] of Inl e \<Rightarrow> None | Inr cs \<Rightarrow> Some (\<lambda>i. if i < n then cs ! i else [0, 0, 0, 0]))"

lemma try_map_upt_nth:
  "try_map f [0..<n] = Inr cs \<Longrightarrow> i < n \<Longrightarrow> f i = Inr (cs ! i)"
  using try_map_nth [of f "[0..<n]" cs i] by simp

lemma paints_of_loop:
  assumes "atlas_ok W H atlas" and r: "rect_inside W H x y w h"
    and step: "\<And>a i. i < unat w * unat h \<Longrightarrow> body a i = write_pixel a (W * 4) x y w i (c i)"
    and col: "\<And>i. length (c i) = 4"
  shows "\<exists>atlas'. try_fold body atlas [0..<unat w * unat h] = Inr atlas' \<and> paints W H x y w h c atlas atlas'"
proof -
  have inside: "(qy - unat y) * unat w + (qx - unat x) < unat w * unat h"
    if "in_rect (unat x) (unat y) (unat w) (unat h) qx qy" for qx qy
  proof -
    have "qy - unat y + 1 \<le> unat h" "qx - unat x < unat w" using that by (auto simp: in_rect_def)
    then have "(qy - unat y + 1) * unat w \<le> unat h * unat w" by (intro mult_le_mono1)
    with \<open>qx - unat x < unat w\<close> show ?thesis by (simp add: algebra_simps)
  qed
  from paint_loop [OF assms(1) r order_refl step col]
  obtain a where "try_fold body atlas [0..<unat w * unat h] = Inr a" "atlas_ok W H a"
    and img: "\<And>qx qy. qx < W \<Longrightarrow> image_of W a qx qy
          = (if in_rect (unat x) (unat y) (unat w) (unat h) qx qy
                \<and> (qy - unat y) * unat w + (qx - unat x) < unat w * unat h
             then c ((qy - unat y) * unat w + (qx - unat x)) else image_of W atlas qx qy)" by blast
  moreover have "image_of W a qx qy
      = blit (unat x) (unat y) (unat w) (unat h) c (image_of W atlas) qx qy" if "qx < W" for qx qy
    using img [OF that, of qy] inside [of qx qy] by (simp add: blit_def)
  ultimately show ?thesis by (auto simp: paints_def)
qed

lemma fallible_loop_error:
  assumes "atlas_ok W H atlas" and r: "rect_inside W H x y w h" and n: "n \<le> unat w * unat h"
    and step: "\<And>a i. body a i = rbind (f i) (\<lambda>col. write_pixel a (W * 4) x y w i col)"
    and col: "\<And>i col. f i = Inr col \<Longrightarrow> length col = 4"
  shows "case try_map f [0..<n] of
      Inl e \<Rightarrow> try_fold body atlas [0..<n] = Inl e
    | Inr cs \<Rightarrow> \<exists>a. try_fold body atlas [0..<n] = Inr a \<and> atlas_ok W H a"
  using n
proof (induction n)
  case 0
  then show ?case using assms(1) by simp
next
  case (Suc n)
  show ?case
  proof (cases "try_map f [0..<n]")
    case (Inl e)
    then show ?thesis using Suc by (simp add: try_map_append try_fold_append)
  next
    case (Inr cs)
    then obtain a where a: "try_fold body atlas [0..<n] = Inr a" "atlas_ok W H a"
      using Suc by auto
    show ?thesis
    proof (cases "f n")
      case (Inl e)
      then show ?thesis using Inr a by (simp add: try_map_append try_fold_append step)
    next
      case (Inr c)
      have "n < unat w * unat h" using Suc.prems by simp
      from write_pixel_paints [OF a(2) r this col [OF Inr]]
      show ?thesis using Inr a \<open>try_map f [0..<n] = Inr cs\<close>
        by (auto simp: try_map_append try_fold_append step)
    qed
  qed
qed

lemma fallible_loop_paints:
  assumes "atlas_ok W H atlas" and r: "rect_inside W H x y w h"
    and step: "\<And>a i. body a i = rbind (f i) (\<lambda>col. write_pixel a (W * 4) x y w i col)"
    and col: "\<And>i col. f i = Inr col \<Longrightarrow> length col = 4"
    and err: "\<And>i. f i \<noteq> Inl Panic"
  shows "case colours_of (unat w * unat h) f of
      None \<Rightarrow> \<exists>e. try_fold body atlas [0..<unat w * unat h] = Inl (Err e)
    | Some c \<Rightarrow> \<exists>a. try_fold body atlas [0..<unat w * unat h] = Inr a \<and> paints W H x y w h c atlas a"
proof (cases "try_map f [0..<unat w * unat h]")
  case (Inl e)
  have "try_map f xs = Inl e \<Longrightarrow> e \<noteq> Panic" for xs
    by (induction xs) (auto simp: rbind_Inl_iff err)
  with Inl have "e \<noteq> Panic" by blast
  then obtain e' where "e = Err e'" by (cases e) auto
  with Inl show ?thesis
    using fallible_loop_error [OF assms(1) r order_refl step col] by (simp add: colours_of_def)
next
  case (Inr cs)
  let ?c = "\<lambda>i. if i < unat w * unat h then cs ! i else [0, 0, 0, 0]"
  have f: "f i = Inr (cs ! i)" if "i < unat w * unat h" for i
    using try_map_upt_nth [OF Inr that] .
  have "\<exists>a. try_fold body atlas [0..<unat w * unat h] = Inr a \<and> paints W H x y w h ?c atlas a"
    by (rule paints_of_loop [OF assms(1) r]) (simp_all add: step f col [OF f])
  then show ?thesis using Inr by (simp add: colours_of_def)
qed

section \<open>The decoders are painters\<close>

lemma rbind_ensure: "rbind (ensure c e) k = (if c then k () else Inl (Err e))"
  by (simp add: ensure_def)

lemma read_u32_no_panic: "read_u32 b i \<noteq> Inl Panic"
  by (auto simp: read_u32_def rbind_Inl_iff ok_or_Inl_iff)

lemma read_previous_pixel_no_panic: "read_previous_pixel p dw dx dy w i \<noteq> Inl Panic"
  by (auto simp: read_previous_pixel_def Let_def rbind_Inl_iff ok_or_Inl_iff read_u32_no_panic)

lemma usz_small: "n < 2 ^ 64 \<Longrightarrow> usz n = n"
  by (simp add: usz_def)

lemma u16_area: "(w :: u32) \<le> 65535 \<Longrightarrow> (h :: u32) \<le> 65535 \<Longrightarrow> unat w * unat h \<le> 65535 * 65535"
  by (intro mult_le_mono) (simp_all add: word_le_nat_alt)

lemma upt_rows: "[0..<h * w] = concat (map (\<lambda>r. map (\<lambda>p. r * w + p) [0..<w]) [0..<h])"
proof (induction h)
  case (Suc h)
  have "[0..<Suc h * w] = [0..<h * w] @ [h * w..<h * w + w]"
    using upt_add_eq_append [of 0 "h * w" w] by (simp add: add.commute)
  moreover have "[h * w..<h * w + w] = map (\<lambda>p. h * w + p) [0..<w]"
    by (simp add: map_add_upt add.commute)
  ultimately show ?case using Suc by simp
qed simp

lemma usz_add: "usz (usz a + b) = usz (a + b)"
  by (simp add: usz_def mod_add_left_eq)

lemma fill_rect_flat:
  "fill_rect atlas stride x y w h color =
     try_fold (\<lambda>a i. write_pixel a stride x y w i color) atlas [0..<unat w * unat h]"
proof -
  have "write_pixel a stride x y w (r * unat w + p) color =
      ok_or Panic (put_range (usz (usz ((unat y + r) * stride + unat x * 4) + p * 4)) color a)"
    if "p < unat w" for a r p
    unfolding usz_add using that by (simp add: write_pixel_def Let_def algebra_simps)
  then have "try_fold (\<lambda>a i. write_pixel a stride x y w i color) atlas [0..<unat h * unat w] =
      fill_rect atlas stride x y w h color"
    unfolding upt_rows try_fold_concat try_fold_map fill_rect_def Let_def
    by (intro try_fold_cong) simp
  then show ?thesis by (simp add: mult.commute)
qed

interpretation solid_painter: painter
    "\<lambda>word stride x y w h atlas. fill_rect atlas stride x y w h (u32_le word)"
    "\<lambda>word w h. Some (\<lambda>_. u32_le word)"
proof (unfold_locales, goal_cases)
  case (1 W H atlas x y w h word)
  then show ?case
    unfolding fill_rect_flat option.case by (intro paints_of_loop) (simp_all add: codec_simps)
qed

text \<open>A row of pixels written at once.\<close>

lemma slice_put_inside:
  assumes "put_range d ys xs = Some zs" and "d \<le> e" "e + n \<le> d + length ys"
  shows "slice e (e + n) zs = slice (e - d) (e - d + n) ys"
proof (rule nth_equalityI)
  have fits: "d + length ys \<le> length xs" using assms(1) by (auto simp: put_range_def split: if_splits)
  then show "length (slice e (e + n) zs) = length (slice (e - d) (e - d + n) ys)"
    using put_range_length [OF assms(1)] assms by simp
  fix i assume "i < length (slice e (e + n) zs)"
  then have "i < n" by simp
  then show "slice e (e + n) zs ! i = slice (e - d) (e - d + n) ys ! i"
    using put_range_nth [OF assms(1), of "e + i"] put_range_length [OF assms(1)] assms fits
    by (simp add: slice_nth)
qed

lemma put_row:
  assumes ok: "atlas_ok W H atlas" and px: "px + k \<le> W" and k: "0 < k" and py: "py < H"
    and row: "length row = 4 * k"
  shows "\<exists>atlas'. put_range (usz (py * (W * 4) + px * 4)) row atlas = Some atlas'
    \<and> atlas_ok W H atlas'
    \<and> (\<forall>qx qy. qx < W \<longrightarrow> image_of W atlas' qx qy
          = (if px \<le> qx \<and> qx < px + k \<and> qy = py then slice (4 * (qx - px)) (4 * (qx - px) + 4) row
             else image_of W atlas qx qy))"
proof -
  let ?d = "py * (W * 4) + px * 4"
  have us: "usz ?d = ?d" using usz_pixel [OF ok _ py, of px] px k by simp
  have "py * (W * 4) + (px + k - 1) * 4 + 4 \<le> length atlas"
    using pixel_fits [of "px + k - 1" W py H] px k py ok by (simp add: atlas_ok_def)
  then have fits: "?d + length row \<le> length atlas" using k row by simp
  then obtain atlas' where put: "put_range ?d row atlas = Some atlas'" by (simp add: put_range_def)
  have "image_of W atlas' qx qy = (if px \<le> qx \<and> qx < px + k \<and> qy = py
      then slice (4 * (qx - px)) (4 * (qx - px) + 4) row else image_of W atlas qx qy)" if q: "qx < W" for qx qy
  proof (cases "px \<le> qx \<and> qx < px + k \<and> qy = py")
    case True
    then have "qy * (W * 4) + qx * 4 - ?d = 4 * (qx - px)" by simp
    then show ?thesis using True slice_put_inside [OF put, of "qy * (W * 4) + qx * 4" 4] row
      by (simp add: image_of_def)
  next
    case False
    let ?e = "qy * W + qx" let ?s = "py * W + px"
    have "?e < ?s \<or> ?s + k \<le> ?e"
    proof (cases "qy = py")
      case True
      then show ?thesis using False by auto
    next
      case neq: False
      then consider "qy + 1 \<le> py" | "py + 1 \<le> qy" by linarith
      then show ?thesis
      proof cases
        case 1
        then have "(qy + 1) * W \<le> py * W" by (rule mult_le_mono1)
        then show ?thesis using q by simp
      next
        case 2
        then have "(py + 1) * W \<le> qy * W" by (rule mult_le_mono1)
        then show ?thesis using px by simp
      qed
    qed
    then have "(qy * (W * 4) + qx * 4) + 4 \<le> ?d \<or> ?d + length row \<le> qy * (W * 4) + qx * 4"
      using row by (auto simp: algebra_simps)
    then show ?thesis using slice_put_other [OF put] False by (auto simp: image_of_def)
  qed
  then show ?thesis using put us put_range_length [OF put] ok by (auto simp: atlas_ok_def)
qed

end
