(* ===== verification/Tile_Paint.thy ===== *)
theory Tile_Paint
  imports Tile_Decode
begin

text \<open>
  Each command decoder of \<open>Tile_Decode\<close> is a painter: the colours of each command kind as a
  specification, and the interpretation of the locale \<open>painter\<close> for each decoder. Then the whole
  reconstruction of a stream is the sequence of the blits of its commands.
\<close>

unbundle bit_operations_syntax

lemma u16_area4: "(w :: u32) \<le> 65535 \<Longrightarrow> (h :: u32) \<le> 65535 \<Longrightarrow> unat w * unat h * 4 < 2 ^ 64"
proof -
  assume "w \<le> 65535" "h \<le> 65535"
  then have "unat w * unat h * 4 \<le> 65535 * 65535 * 4" using u16_area [of w h] by linarith
  also have "\<dots> < (2 :: nat) ^ 64" by simp
  finally show ?thesis .
qed

section \<open>Raw pixels\<close>

definition raw_colours :: "bytes \<Rightarrow> u32 \<Rightarrow> u32 \<Rightarrow> (nat \<Rightarrow> bytes) option" where
  "raw_colours payload w h =
     (if length payload = unat w * unat h * 4 then Some (\<lambda>i. slice (4 * i) (4 * i + 4) payload) else None)"

lemma raw_row:
  "r < h \<Longrightarrow> length payload = w * h * 4 \<Longrightarrow>
   get_range (r * (w * 4)) (r * (w * 4) + w * 4) payload
     = Some (slice (r * (w * 4)) (r * (w * 4) + w * 4) payload)"
proof -
  assume r: "r < h" and len: "length payload = w * h * 4"
  have "(r + 1) * (w * 4) \<le> h * (w * 4)" using r by (intro mult_le_mono1) simp
  then show ?thesis using len by (simp add: get_range_def algebra_simps)
qed

lemma slice_slice:
  "a + b \<le> length (slice c d xs) \<Longrightarrow> slice a (a + b) (slice c d xs) = slice (c + a) (c + a + b) xs"
proof -
  assume "a + b \<le> length (slice c d xs)"
  then have "a + b \<le> d - c" by simp
  then have "min b (d - (a + c)) = b" by linarith
  then show ?thesis by (simp add: slice_def drop_take add.commute [of c] ac_simps)
qed

lemma raw_loop:
  assumes ok: "atlas_ok W H atlas" and r: "rect_inside W H x y w h" and w: "0 < w"
    and len: "length payload = unat w * unat h * 4" and n: "n \<le> unat h"
    and body: "body = (\<lambda>atlas row. rbind (ok_or Panic (get_range (row * (unat w * 4))
          (row * (unat w * 4) + unat w * 4) payload)) (\<lambda>pixels.
        ok_or Panic (put_range (usz ((unat y + row) * (W * 4) + unat x * 4)) pixels atlas)))"
  shows "\<exists>a. try_fold body atlas [0..<n] = Inr a \<and> atlas_ok W H a
    \<and> (\<forall>qx qy. qx < W \<longrightarrow> image_of W a qx qy
        = (if in_rect (unat x) (unat y) (unat w) n qx qy
           then slice (4 * ((qy - unat y) * unat w + (qx - unat x)))
                  (4 * ((qy - unat y) * unat w + (qx - unat x)) + 4) payload
           else image_of W atlas qx qy))"
  using n
proof (induction n)
  case 0
  have "\<not> in_rect (unat x) (unat y) (unat w) 0 qx qy" for qx qy by (auto simp: in_rect_def)
  then show ?case using ok by simp
next
  case (Suc n)
  then obtain a where a: "try_fold body atlas [0..<n] = Inr a" "atlas_ok W H a"
    and img: "\<And>qx qy. qx < W \<Longrightarrow> image_of W a qx qy
        = (if in_rect (unat x) (unat y) (unat w) n qx qy
           then slice (4 * ((qy - unat y) * unat w + (qx - unat x)))
                  (4 * ((qy - unat y) * unat w + (qx - unat x)) + 4) payload
           else image_of W atlas qx qy)" by (metis Suc_leD)
  define row where "row = slice (n * (unat w * 4)) (n * (unat w * 4) + unat w * 4) payload"
  have n: "n < unat h" using Suc.prems by simp
  then have get: "get_range (n * (unat w * 4)) (n * (unat w * 4) + unat w * 4) payload = Some row"
    using raw_row [OF n len] by (simp add: row_def)
  have lrow: "length row = 4 * unat w"
    using get by (auto simp: get_range_def row_def split: if_splits)
  have w0: "0 < unat w" using w by (simp add: word_less_nat_alt)
  have "unat x + unat w \<le> W" "unat y + n < H" using r n unfolding rect_inside_def by linarith+
  from put_row [OF a(2) this(1) w0 this(2) lrow]
  obtain a' where put: "put_range (usz ((unat y + n) * (W * 4) + unat x * 4)) row a = Some a'"
    and ok': "atlas_ok W H a'"
    and img': "\<And>qx qy. qx < W \<Longrightarrow> image_of W a' qx qy
      = (if unat x \<le> qx \<and> qx < unat x + unat w \<and> qy = unat y + n
         then slice (4 * (qx - unat x)) (4 * (qx - unat x) + 4) row else image_of W a qx qy)" by blast
  have "image_of W a' qx qy = (if in_rect (unat x) (unat y) (unat w) (Suc n) qx qy
           then slice (4 * ((qy - unat y) * unat w + (qx - unat x)))
                  (4 * ((qy - unat y) * unat w + (qx - unat x)) + 4) payload
           else image_of W atlas qx qy)" if q: "qx < W" for qx qy
  proof (cases "unat x \<le> qx \<and> qx < unat x + unat w \<and> qy = unat y + n")
    case True
    then have "4 * (qx - unat x) + 4 \<le> length row" using lrow by auto
    then have "slice (4 * (qx - unat x)) (4 * (qx - unat x) + 4) row
        = slice (n * (unat w * 4) + 4 * (qx - unat x)) (n * (unat w * 4) + 4 * (qx - unat x) + 4) payload"
      unfolding row_def by (rule slice_slice)
    then show ?thesis using img' [OF q, of qy] True by (simp add: in_rect_def algebra_simps)
  next
    case False
    then have "in_rect (unat x) (unat y) (unat w) (Suc n) qx qy
        \<longleftrightarrow> in_rect (unat x) (unat y) (unat w) n qx qy"
      by (auto simp: in_rect_def)
    then show ?thesis using img' [OF q, of qy] img [OF q, of qy] False by auto
  qed
  moreover have "try_fold body atlas [0..<Suc n] = Inr a'"
    using a(1) get put by (simp add: try_fold_append body)
  ultimately show ?case using ok' by blast
qed

interpretation raw_painter: painter
    "\<lambda>payload stride x y w h atlas. decode_raw_payload atlas stride x y w h payload" raw_colours
proof (unfold_locales, goal_cases)
  case (1 W H atlas x y w h payload)
  have "unat w * 4 * unat h = unat w * unat h * 4" by simp
  moreover have "unat w * unat h * 4 < 2 ^ 64" by (rule u16_area4 [OF 1(5,6)])
  ultimately have us: "usz (unat w * 4 * unat h) = unat w * unat h * 4" by (simp only: usz_small)
  show ?case
  proof (cases "length payload = unat w * unat h * 4")
    case True
    from raw_loop [OF 1(1-3) True order_refl refl]
    show ?thesis using True
      by (auto simp: decode_raw_payload_def Let_def rbind_ensure us raw_colours_def paints_def blit_def)
  next
    case False
    then show ?thesis by (simp add: decode_raw_payload_def Let_def rbind_ensure us raw_colours_def)
  qed
qed

section \<open>Pixels XORed with the previous desktop\<close>

text \<open>What a delta command depends on besides its rectangle: the payload, its place on the desktop,
  the previous desktop and its size.\<close>

record delta_args =
  da_payload :: bytes
  da_x :: u32
  da_y :: u32
  da_previous :: "bytes option"
  da_width :: u32
  da_height :: u32

definition xor_raw_pixel :: "delta_args \<Rightarrow> bytes \<Rightarrow> u32 \<Rightarrow> nat \<Rightarrow> bytes tile_result" where
  "xor_raw_pixel d previous w i =
     rbind (read_previous_pixel previous (da_width d) (da_x d) (da_y d) w i) (\<lambda>p.
     rbind (read_u32 (da_payload d) (i * 4)) (\<lambda>v. Inr (u32_le (p XOR v))))"

definition xor_raw_colours :: "delta_args \<Rightarrow> u32 \<Rightarrow> u32 \<Rightarrow> (nat \<Rightarrow> bytes) option" where
  "xor_raw_colours d w h =
     (case da_previous d of None \<Rightarrow> None
      | Some previous \<Rightarrow>
          if validate_rect (da_x d) (da_y d) w h (da_width d) (da_height d) = Inr ()
             \<and> length (da_payload d) = unat w * unat h * 4
          then colours_of (unat w * unat h) (xor_raw_pixel d previous w) else None)"

lemma validate_rect_error: "validate_rect x y w h lw lh \<noteq> Inr () \<Longrightarrow> \<exists>e. validate_rect x y w h lw lh = Inl (Err e)"
  by (auto simp: validate_rect_def ensure_def split: if_splits)

lemma rbind_assoc: "rbind (rbind m f) g = rbind m (\<lambda>x. rbind (f x) g)"
  by (cases m) auto

interpretation xor_raw_painter: painter
    "\<lambda>d stride x y w h atlas. decode_xor_raw_payload atlas stride x y (da_x d) (da_y d) w h
       (da_payload d) (da_previous d) (da_width d) (da_height d)" xor_raw_colours
proof (unfold_locales, goal_cases)
  case (1 W H atlas x y w h d)
  have us: "usz (unat w * unat h * 4) = unat w * unat h * 4"
    by (rule usz_small [OF u16_area4 [OF 1(5,6)]])
  show ?case
  proof (cases "da_previous d")
    case None
    then show ?thesis by (simp add: decode_xor_raw_payload_def xor_raw_colours_def)
  next
    case (Some previous)
    show ?thesis
    proof (cases "validate_rect (da_x d) (da_y d) w h (da_width d) (da_height d) = Inr ()
             \<and> length (da_payload d) = unat w * unat h * 4")
      case False
      then show ?thesis
        using validate_rect_error [of "da_x d" "da_y d" w h "da_width d" "da_height d"]
        by (cases "validate_rect (da_x d) (da_y d) w h (da_width d) (da_height d) = Inr ()")
          (auto simp: decode_xor_raw_payload_def xor_raw_colours_def Some Let_def rbind_ensure us)
    next
      case True
      have dec: "decode_xor_raw_payload atlas (W * 4) x y (da_x d) (da_y d) w h (da_payload d)
          (da_previous d) (da_width d) (da_height d)
        = try_fold (\<lambda>a i. rbind (xor_raw_pixel d previous w i) (\<lambda>col. write_pixel a (W * 4) x y w i col))
            atlas [0..<unat w * unat h]"
        using True by (simp add: decode_xor_raw_payload_def Some Let_def rbind_ensure us
            xor_raw_pixel_def rbind_assoc)
      have col: "xor_raw_colours d w h = colours_of (unat w * unat h) (xor_raw_pixel d previous w)"
        using True by (simp add: xor_raw_colours_def Some)
      show ?thesis
        unfolding dec col by (rule fallible_loop_paints [OF 1(1,2) refl])
          (auto simp: xor_raw_pixel_def res_simps rbind_Inl_iff codec_simps read_u32_no_panic
            read_previous_pixel_no_panic)
    qed
  qed
qed

section \<open>Sparse changes\<close>

definition previous_colour :: "delta_args \<Rightarrow> bytes \<Rightarrow> u32 \<Rightarrow> nat \<Rightarrow> bytes tile_result" where
  "previous_colour d previous w i =
     rbind (read_previous_pixel previous (da_width d) (da_x d) (da_y d) w i) (\<lambda>p. Inr (u32_le p))"

definition sparse_entry :: "delta_args \<Rightarrow> bytes \<Rightarrow> u32 \<Rightarrow> u32 \<Rightarrow> nat \<Rightarrow> (nat \<times> bytes) tile_result" where
  "sparse_entry d previous w h offset =
     rbind (read_u32 (da_payload d) offset) (\<lambda>v.
     let pixel = unat v in
     rbind (ensure (pixel < unat w * unat h) SparseIndexExceeds) (\<lambda>_.
     rbind (read_previous_pixel previous (da_width d) (da_x d) (da_y d) w pixel) (\<lambda>p.
     rbind (read_u32 (da_payload d) (offset + 4)) (\<lambda>x. Inr (pixel, u32_le (p XOR x))))))"

definition sparse_colours :: "delta_args \<Rightarrow> u32 \<Rightarrow> u32 \<Rightarrow> (nat \<Rightarrow> bytes) option" where
  "sparse_colours d w h =
     (case da_previous d of None \<Rightarrow> None
      | Some previous \<Rightarrow>
          if validate_rect (da_x d) (da_y d) w h (da_width d) (da_height d) = Inr ()
             \<and> length (da_payload d) mod 8 = 0
          then case colours_of (unat w * unat h) (previous_colour d previous w) of None \<Rightarrow> None
               | Some c \<Rightarrow> (case try_map (sparse_entry d previous w h) (step_by_8 (length (da_payload d))) of
                     Inl e \<Rightarrow> None
                   | Inr es \<Rightarrow> Some (foldl (\<lambda>c (i, col). c(i := col)) c es))
          else None)"

text \<open>Overwriting single pixels of a painted rectangle.\<close>

lemma write_pixel_repaints:
  assumes p: "paints W H x y w h c atlas a" and r: "rect_inside W H x y w h"
    and i: "i < unat w * unat h" and col: "length color = 4"
  shows "\<exists>a'. write_pixel a (W * 4) x y w i color = Inr a' \<and> paints W H x y w h (c(i := color)) atlas a'"
proof -
  have w: "0 < unat w" using i by (cases "unat w = 0") auto
  have ok: "atlas_ok W H a" and img: "\<And>qx qy. qx < W \<Longrightarrow> image_of W a qx qy
      = blit (unat x) (unat y) (unat w) (unat h) c (image_of W atlas) qx qy"
    using p by (auto simp: paints_def)
  obtain a' where a': "write_pixel a (W * 4) x y w i color = Inr a'" "atlas_ok W H a'"
    and img': "\<And>qx qy. qx < W \<Longrightarrow> image_of W a' qx qy
      = (if qx = unat x + i mod unat w \<and> qy = unat y + i div unat w then color else image_of W a qx qy)"
    using write_pixel_paints [OF ok r i col] by blast
  have row: "i div unat w < unat h" using i by (simp add: less_mult_imp_div_less mult.commute)
  have "image_of W a' qx qy = blit (unat x) (unat y) (unat w) (unat h) (c(i := color)) (image_of W atlas) qx qy"
    if q: "qx < W" for qx qy
  proof (cases "in_rect (unat x) (unat y) (unat w) (unat h) qx qy")
    case True
    then have "qx = unat x + i mod unat w \<and> qy = unat y + i div unat w
        \<longleftrightarrow> i = (qy - unat y) * unat w + (qx - unat x)"
      by (intro index_unique) (use w in \<open>auto simp: in_rect_def\<close>)
    then show ?thesis using img' [OF q, of qy] img [OF q, of qy] True by (auto simp: blit_def)
  next
    case False
    then have "\<not> (qx = unat x + i mod unat w \<and> qy = unat y + i div unat w)"
      using row mod_less_divisor [OF w, of i] by (auto simp: in_rect_def)
    then show ?thesis using img' [OF q, of qy] img [OF q, of qy] False by (auto simp: blit_def)
  qed
  then show ?thesis using a' by (auto simp: paints_def)
qed

lemma entries_repaint:
  assumes "paints W H x y w h c atlas a" and r: "rect_inside W H x y w h"
    and f: "\<And>k i col. f k = Inr (i, col) \<Longrightarrow> i < unat w * unat h \<and> length col = 4"
    and err: "\<And>k. f k \<noteq> Inl Panic"
  shows "case try_map f ks of
      Inl e \<Rightarrow> \<exists>e'. e = Err e' \<and>
        try_fold (\<lambda>a k. rbind (f k) (\<lambda>(i, col). write_pixel a (W * 4) x y w i col)) a ks = Inl (Err e')
    | Inr es \<Rightarrow> \<exists>a'. try_fold (\<lambda>a k. rbind (f k) (\<lambda>(i, col). write_pixel a (W * 4) x y w i col)) a ks = Inr a'
        \<and> paints W H x y w h (foldl (\<lambda>c (i, col). c(i := col)) c es) atlas a'"
  using assms(1)
proof (induction ks arbitrary: a c)
  case (Cons k ks)
  show ?case
  proof (cases "f k")
    case (Inl e)
    then show ?thesis using err [of k] by (cases e) auto
  next
    case (Inr ic)
    obtain i col where ic: "ic = (i, col)" by (cases ic)
    obtain a' where a': "write_pixel a (W * 4) x y w i col = Inr a'" "paints W H x y w h (c(i := col)) atlas a'"
      using write_pixel_repaints [OF Cons.prems r] f [of k i col] Inr ic by blast
    from Cons.IH [OF a'(2)] show ?thesis
      using Inr ic a'(1) by (cases "try_map f ks") auto
  qed
qed simp

lemma sparse_entry_ok:
  "sparse_entry d previous w h k = Inr (i, col) \<Longrightarrow> i < unat w * unat h \<and> length col = 4"
  by (auto simp: sparse_entry_def Let_def res_simps rbind_ensure codec_simps split: if_splits)

lemma sparse_entry_no_panic: "sparse_entry d previous w h k \<noteq> Inl Panic"
  by (auto simp: sparse_entry_def Let_def rbind_Inl_iff ensure_def read_u32_no_panic
      read_previous_pixel_no_panic)

lemma previous_colour_ok: "previous_colour d previous w i = Inr col \<Longrightarrow> length col = 4"
  by (auto simp: previous_colour_def res_simps codec_simps)

lemma previous_colour_no_panic: "previous_colour d previous w i \<noteq> Inl Panic"
  by (auto simp: previous_colour_def rbind_Inl_iff read_previous_pixel_no_panic)

interpretation sparse_painter: painter
    "\<lambda>d stride x y w h atlas. decode_xor_sparse_payload atlas stride x y (da_x d) (da_y d) w h
       (da_payload d) (da_previous d) (da_width d) (da_height d)" sparse_colours
proof (unfold_locales, goal_cases)
  case (1 W H atlas x y w h d)
  show ?case
  proof (cases "da_previous d")
    case None
    then show ?thesis by (simp add: decode_xor_sparse_payload_def sparse_colours_def)
  next
    case (Some previous)
    show ?thesis
    proof (cases "validate_rect (da_x d) (da_y d) w h (da_width d) (da_height d) = Inr ()
             \<and> length (da_payload d) mod 8 = 0")
      case False
      then show ?thesis
        using validate_rect_error [of "da_x d" "da_y d" w h "da_width d" "da_height d"]
        by (cases "validate_rect (da_x d) (da_y d) w h (da_width d) (da_height d) = Inr ()")
          (auto simp: decode_xor_sparse_payload_def sparse_colours_def Some Let_def rbind_ensure)
    next
      case True
      let ?base = "try_fold (\<lambda>a i. rbind (previous_colour d previous w i)
        (\<lambda>col. write_pixel a (W * 4) x y w i col)) atlas [0..<unat w * unat h]"
      let ?over = "\<lambda>a. try_fold (\<lambda>a k. rbind (sparse_entry d previous w h k)
        (\<lambda>(i, col). write_pixel a (W * 4) x y w i col)) a (step_by_8 (length (da_payload d)))"
      have dec: "decode_xor_sparse_payload atlas (W * 4) x y (da_x d) (da_y d) w h (da_payload d)
          (da_previous d) (da_width d) (da_height d) = rbind ?base ?over"
        using True by (simp add: decode_xor_sparse_payload_def Some Let_def rbind_ensure
            previous_colour_def sparse_entry_def rbind_assoc if_distrib [of "\<lambda>m. rbind m _"] cong: if_cong)
      have base: "case colours_of (unat w * unat h) (previous_colour d previous w) of
          None \<Rightarrow> \<exists>e. ?base = Inl (Err e)
        | Some c \<Rightarrow> \<exists>a. ?base = Inr a \<and> paints W H x y w h c atlas a"
        by (rule fallible_loop_paints [OF 1(1,2) refl previous_colour_ok previous_colour_no_panic])
      show ?thesis
      proof (cases "colours_of (unat w * unat h) (previous_colour d previous w)")
        case None
        with base show ?thesis unfolding dec by (auto simp: sparse_colours_def Some True)
      next
        case (Some c)
        with base obtain a where a: "?base = Inr a" "paints W H x y w h c atlas a" by auto
        have "case try_map (sparse_entry d previous w h) (step_by_8 (length (da_payload d))) of
            Inl e \<Rightarrow> \<exists>e'. e = Err e' \<and> ?over a = Inl (Err e')
          | Inr es \<Rightarrow> \<exists>a'. ?over a = Inr a'
              \<and> paints W H x y w h (foldl (\<lambda>c (i, col). c(i := col)) c es) atlas a'"
          by (rule entries_repaint [OF a(2) 1(2) sparse_entry_ok sparse_entry_no_panic])
        then show ?thesis unfolding dec using a(1) \<open>da_previous d = Some previous\<close> True Some
          by (cases "try_map (sparse_entry d previous w h) (step_by_8 (length (da_payload d)))")
            (auto simp: sparse_colours_def)
      qed
    qed
  qed
qed

section \<open>Blocks without a reference\<close>

definition sharp_pixel :: "bytes \<Rightarrow> nat \<Rightarrow> bytes tile_result" where
  "sharp_pixel payload i =
     rbind (read_u32 payload (i div 2 * 4)) (\<lambda>v.
     Inr (u32_le (rgb565_to_bgra (if i mod 2 = 0 then v AND 0xffff else drop_bit 16 v))))"

definition sharp_colours :: "bytes \<Rightarrow> u32 \<Rightarrow> u32 \<Rightarrow> (nat \<Rightarrow> bytes) option" where
  "sharp_colours payload w h =
     (if length payload = align_usize_to_4 (unat w * unat h * 2)
      then colours_of (unat w * unat h) (sharp_pixel payload) else None)"

lemma u16_area_usize: "(w :: u32) \<le> 65535 \<Longrightarrow> (h :: u32) \<le> 65535 \<Longrightarrow> unat w * unat h * 2 \<le> usize_max"
proof -
  assume "w \<le> 65535" "h \<le> 65535"
  then have "unat w * unat h * 2 \<le> 65535 * 65535 * 2" using u16_area [of w h] by linarith
  also have "\<dots> \<le> usize_max" by (simp add: usize_max_def)
  finally show ?thesis .
qed

interpretation sharp_painter: painter
    "\<lambda>payload stride x y w h atlas. decode_sharp_ui_block_payload atlas stride x y w h payload" sharp_colours
proof (unfold_locales, goal_cases)
  case (1 W H atlas x y w h payload)
  have mul: "usize_checked_mul (unat w * unat h) 2 = Some (unat w * unat h * 2)"
    using u16_area_usize [OF 1(5,6)] by (simp add: usize_checked_mul_def)
  show ?case
  proof (cases "length payload = align_usize_to_4 (unat w * unat h * 2)")
    case False
    then show ?thesis by (simp add: decode_sharp_ui_block_payload_def sharp_colours_def mul rbind_ensure)
  next
    case True
    have dec: "decode_sharp_ui_block_payload atlas (W * 4) x y w h payload =
        try_fold (\<lambda>a i. rbind (sharp_pixel payload i) (\<lambda>col. write_pixel a (W * 4) x y w i col))
          atlas [0..<unat w * unat h]"
      using True by (simp add: decode_sharp_ui_block_payload_def mul rbind_ensure sharp_pixel_def rbind_assoc
          Let_def)
    have col: "sharp_colours payload w h = colours_of (unat w * unat h) (sharp_pixel payload)"
      using True by (simp add: sharp_colours_def)
    show ?thesis unfolding dec col
      by (rule fallible_loop_paints [OF 1(1,2) refl])
        (auto simp: sharp_pixel_def res_simps rbind_Inl_iff codec_simps read_u32_no_panic)
  qed
qed

definition chroma_len :: "u32 \<Rightarrow> nat" where
  "chroma_len n = (unat n + 3) div 4"

definition lossy_y_bytes :: "u32 \<Rightarrow> u32 \<Rightarrow> nat" where
  "lossy_y_bytes w h = align_usize_to_4 ((unat w * unat h + 1) div 2)"

definition lossy_pixel :: "bytes \<Rightarrow> u32 \<Rightarrow> u32 \<Rightarrow> nat \<Rightarrow> bytes tile_result" where
  "lossy_pixel payload w h i =
     rbind (read_u32 payload (4 + i div 8 * 4)) (\<lambda>y_word.
     let y4 = drop_bit (i mod 8 * 4) y_word AND 0x0f;
         k = i div unat w div 4 * chroma_len w + i mod unat w div 4 in
     rbind (read_u32 payload (4 + lossy_y_bytes w h + k div 4 * 4)) (\<lambda>chroma_word.
     let chroma_byte = drop_bit (k mod 4 * 8) chroma_word AND 0xff in
     Inr (u32_le (ycocg_to_bgra (uint (push_bit 4 y4 OR y4))
       (sign_extend (chroma_byte AND 0x0f) 4 * 32)
       (sign_extend (drop_bit 4 chroma_byte AND 0x0f) 4 * 32)))))"

definition lossy_colours :: "bytes \<Rightarrow> u32 \<Rightarrow> u32 \<Rightarrow> (nat \<Rightarrow> bytes) option" where
  "lossy_colours payload w h =
     (if length payload = 4 + lossy_y_bytes w h + align_usize_to_4 (chroma_len w * chroma_len h)
         \<and> (case read_u32 payload 0 of Inl e \<Rightarrow> False
            | Inr header \<Rightarrow> unat (header AND 0xffff) = chroma_len w \<and> unat (drop_bit 16 header) = chroma_len h)
      then colours_of (unat w * unat h) (lossy_pixel payload w h) else None)"

lemma align_bound: "align_usize_to_4 v \<le> v + 3"
proof -
  have "usz (v + 3) \<le> v + 3" by (simp add: usz_def)
  moreover have "usz (v + 3) div 4 * 4 \<le> usz (v + 3)" by simp
  ultimately show ?thesis unfolding align_usize_to_4_def by linarith
qed

lemma chroma_bound: "(w :: u32) \<le> 65535 \<Longrightarrow> chroma_len w \<le> 16384"
  by (simp add: chroma_len_def word_le_nat_alt)

lemma lossy_no_overflow:
  assumes "(w :: u32) \<le> 65535" and "(h :: u32) \<le> 65535"
  shows "usize_checked_mul (chroma_len w) (chroma_len h) = Some (chroma_len w * chroma_len h)"
    and "Option.bind (usize_checked_add 4 (lossy_y_bytes w h))
        (\<lambda>v. usize_checked_add v (align_usize_to_4 (chroma_len w * chroma_len h)))
      = Some (4 + lossy_y_bytes w h + align_usize_to_4 (chroma_len w * chroma_len h))"
proof -
  have c: "chroma_len w * chroma_len h \<le> 16384 * 16384"
    using chroma_bound assms by (intro mult_le_mono) auto
  then show "usize_checked_mul (chroma_len w) (chroma_len h) = Some (chroma_len w * chroma_len h)"
    by (simp add: usize_checked_mul_def usize_max_def)
  have "lossy_y_bytes w h \<le> (65535 * 65535 + 1) div 2 + 3"
    unfolding lossy_y_bytes_def using u16_area [OF assms] align_bound [of "(unat w * unat h + 1) div 2"]
    by linarith
  moreover have "align_usize_to_4 (chroma_len w * chroma_len h) \<le> 16384 * 16384 + 3"
    using c align_bound [of "chroma_len w * chroma_len h"] by linarith
  ultimately show "Option.bind (usize_checked_add 4 (lossy_y_bytes w h))
        (\<lambda>v. usize_checked_add v (align_usize_to_4 (chroma_len w * chroma_len h)))
      = Some (4 + lossy_y_bytes w h + align_usize_to_4 (chroma_len w * chroma_len h))"
    by (simp add: usize_checked_add_def usize_max_def)
qed

lemma read_u32_error: "read_u32 b i = Inl e \<Longrightarrow> \<exists>e'. e = Err e'"
  using read_u32_no_panic [of b i] by (cases e) auto

interpretation lossy_painter: painter
    "\<lambda>payload stride x y w h atlas. decode_lossy_ui_block_payload atlas stride x y w h payload" lossy_colours
proof (unfold_locales, goal_cases)
  case (1 W H atlas x y w h payload)
  let ?len = "4 + lossy_y_bytes w h + align_usize_to_4 (chroma_len w * chroma_len h)"
  have dec: "decode_lossy_ui_block_payload atlas (W * 4) x y w h payload =
      (if length payload \<noteq> ?len then Inl (Err LossyLengthMismatch)
       else rbind (read_u32 payload 0) (\<lambda>header.
         if unat (header AND 0xffff) = chroma_len w \<and> unat (drop_bit 16 header) = chroma_len h
         then try_fold (\<lambda>a i. rbind (lossy_pixel payload w h i) (\<lambda>col. write_pixel a (W * 4) x y w i col))
                atlas [0..<unat w * unat h]
         else Inl (Err LossyChromaMismatch)))"
    unfolding decode_lossy_ui_block_payload_def Let_def chroma_len_def [symmetric]
      lossy_y_bytes_def [symmetric]
    using lossy_no_overflow [OF 1(5,6)]
    by (simp add: rbind_ensure lossy_pixel_def rbind_assoc Let_def cong: if_cong)
  have loop: "case colours_of (unat w * unat h) (lossy_pixel payload w h) of
      None \<Rightarrow> \<exists>e. try_fold (\<lambda>a i. rbind (lossy_pixel payload w h i)
        (\<lambda>col. write_pixel a (W * 4) x y w i col)) atlas [0..<unat w * unat h] = Inl (Err e)
    | Some c \<Rightarrow> \<exists>a. try_fold (\<lambda>a i. rbind (lossy_pixel payload w h i)
        (\<lambda>col. write_pixel a (W * 4) x y w i col)) atlas [0..<unat w * unat h] = Inr a
        \<and> paints W H x y w h c atlas a"
    by (rule fallible_loop_paints [OF 1(1,2) refl])
      (auto simp: lossy_pixel_def Let_def res_simps rbind_Inl_iff codec_simps read_u32_no_panic)
  show ?case
  proof (cases "read_u32 payload 0")
    case (Inl e)
    then show ?thesis unfolding dec using read_u32_error [OF Inl] by (auto simp: lossy_colours_def)
  next
    case (Inr header)
    then show ?thesis unfolding dec using loop
      by (cases "length payload = ?len";
          cases "unat (header AND 0xffff) = chroma_len w \<and> unat (drop_bit 16 header) = chroma_len h")
        (auto simp: lossy_colours_def split: option.splits)
  qed
qed

section \<open>Quantised deltas\<close>

definition quant_mask_bytes :: "nat \<Rightarrow> nat" where
  "quant_mask_bytes n = (n + 31) div 32 * 4"

definition quant_pixel :: "delta_args \<Rightarrow> bytes \<Rightarrow> u32 \<Rightarrow> nat \<Rightarrow> nat \<Rightarrow> nat \<Rightarrow> (bytes \<times> bool) tile_result" where
  "quant_pixel d previous w n shift i =
     rbind (read_previous_pixel previous (da_width d) (da_x d) (da_y d) w i) (\<lambda>p.
     rbind (read_u32 (da_payload d) (4 + i div 32 * 4)) (\<lambda>mask_word.
     if mask_word AND push_bit (i mod 32) 1 \<noteq> 0 then
       rbind (read_u32 (da_payload d) (4 + quant_mask_bytes n + i div 2 * 4)) (\<lambda>r.
       Inr (u32_le (apply_masked_quant_delta p (if i mod 2 = 0 then r AND 0xffff else drop_bit 16 r) shift), True))
     else Inr (u32_le p, False)))"

definition quant_colours :: "delta_args \<times> nat \<Rightarrow> u32 \<Rightarrow> u32 \<Rightarrow> (nat \<Rightarrow> bytes) option" where
  "quant_colours dc w h =
     (let d = fst dc; changed = snd dc; n = unat w * unat h in
      case da_previous d of None \<Rightarrow> None
      | Some previous \<Rightarrow>
          if validate_rect (da_x d) (da_y d) w h (da_width d) (da_height d) = Inr () \<and> changed \<le> n
             \<and> length (da_payload d) = align_usize_to_4 (4 + quant_mask_bytes n + n * 2)
          then case read_u32 (da_payload d) 0 of Inl e \<Rightarrow> None
               | Inr word \<Rightarrow>
                   if unat (word AND 0xff) \<le> 4
                   then case try_map (quant_pixel d previous w n (unat (word AND 0xff))) [0..<n] of Inl e \<Rightarrow> None
                        | Inr cs \<Rightarrow> if length (filter snd cs) = changed
                            then Some (\<lambda>i. if i < n then map fst cs ! i else [0, 0, 0, 0]) else None
                   else None
          else None)"

lemma counted_loop:
  assumes "s \<le> usize_max"
  shows "try_fold (\<lambda>(a, s) i. rbind (f i) (\<lambda>(col, ch). rbind (wr a i col) (\<lambda>a.
      Inr (a, if ch then usize_saturating_add s 1 else s)))) (atlas, s) xs =
    rbind (try_fold (\<lambda>a i. rbind (rmap fst (f i)) (wr a i)) atlas xs) (\<lambda>a.
      rmap (\<lambda>cs. (a, min usize_max (s + length (filter snd cs)))) (try_map f xs))"
  using assms
proof (induction xs arbitrary: atlas s)
  case (Cons x xs)
  show ?case
  proof (cases "f x")
    case (Inr cc)
    obtain col ch where cc: "cc = (col, ch)" by (cases cc)
    define s' where "s' = (if ch then usize_saturating_add s 1 else s)"
    have s': "s' \<le> usize_max" using Cons.prems by (simp add: s'_def usize_saturating_add_def)
    have count: "min usize_max (s' + k) = min usize_max (s + (if ch then Suc k else k))" for k
      using Cons.prems by (auto simp: s'_def usize_saturating_add_def)
    show ?thesis
    proof (cases "wr atlas x col")
      case (Inr a)
      show ?thesis
        using Cons.IH [OF s', of a] \<open>f x = Inr cc\<close> Inr cc
        by (cases "try_map f xs"; cases "try_fold (\<lambda>a i. rbind (rmap fst (f i)) (wr a i)) a xs")
          (auto simp: s'_def [symmetric] count)
    qed (simp add: Inr cc)
  qed simp
qed simp

lemma try_map_rmap: "try_map (\<lambda>i. rmap g (f i)) xs = rmap (map g) (try_map f xs)"
proof (induction xs)
  case (Cons x xs)
  then show ?case by (cases "f x"; cases "try_map f xs") auto
qed simp

lemma quant_no_overflow:
  assumes "(w :: u32) \<le> 65535" and "(h :: u32) \<le> 65535"
  shows "quant_expected_len (unat w * unat h) =
    Inr (align_usize_to_4 (4 + quant_mask_bytes (unat w * unat h) + unat w * unat h * 2))"
proof -
  have n: "unat w * unat h \<le> 65535 * 65535" by (rule u16_area [OF assms])
  then have m: "quant_mask_bytes (unat w * unat h) \<le> 65535 * 65535"
    by (simp add: quant_mask_bytes_def)
  have "usize_checked_mul ((unat w * unat h + 31) div 32) 4 = Some (quant_mask_bytes (unat w * unat h))"
    using m by (simp add: usize_checked_mul_def quant_mask_bytes_def usize_max_def)
  moreover have "usize_checked_mul (unat w * unat h) 2 = Some (unat w * unat h * 2)"
    using u16_area_usize [OF assms] by (simp add: usize_checked_mul_def)
  ultimately show ?thesis
    using n m by (simp add: quant_expected_len_def usize_checked_add_def usize_max_def)
qed

lemma quant_pixel_ok: "rmap fst (quant_pixel d previous w n shift i) = Inr col \<Longrightarrow> length col = 4"
  by (auto simp: quant_pixel_def res_simps codec_simps split: if_splits)

lemma quant_pixel_no_panic: "rmap fst (quant_pixel d previous w n shift i) \<noteq> Inl Panic"
proof -
  have "quant_pixel d previous w n shift i \<noteq> Inl Panic"
    by (auto simp: quant_pixel_def rbind_Inl_iff read_u32_no_panic read_previous_pixel_no_panic
        split: if_splits)
  then show ?thesis by (cases "quant_pixel d previous w n shift i") auto
qed

interpretation quant_painter: painter
    "\<lambda>(d, changed) stride x y w h atlas. decode_masked_quant_delta_payload atlas stride x y (da_x d) (da_y d)
       w h (da_payload d) changed (da_previous d) (da_width d) (da_height d)" quant_colours
proof (unfold_locales, goal_cases)
  case (1 W H atlas x y w h dc)
  obtain d changed where dc: "dc = (d, changed)" by (cases dc)
  let ?n = "unat w * unat h"
  let ?dec = "decode_masked_quant_delta_payload atlas (W * 4) x y (da_x d) (da_y d)
       w h (da_payload d) changed (da_previous d) (da_width d) (da_height d)"
  show ?case
  proof (cases "da_previous d")
    case None
    then show ?thesis by (simp add: decode_masked_quant_delta_payload_def quant_colours_def dc)
  next
    case prev: (Some previous)
    let ?loop = "\<lambda>shift. try_fold (\<lambda>a i. rbind (rmap fst (quant_pixel d previous w ?n shift i))
        (write_pixel a (W * 4) x y w i)) atlas [0..<?n]"
    let ?cs = "\<lambda>shift. try_map (quant_pixel d previous w ?n shift) [0..<?n]"
    let ?step = "\<lambda>shift. quant_step (da_payload d) previous (da_width d) (da_x d) (da_y d) (W * 4) x y w shift
        4 (4 + quant_mask_bytes ?n)"
    have step: "?step shift = (\<lambda>(a, s) i. rbind (quant_pixel d previous w ?n shift i) (\<lambda>(col, ch).
        rbind (write_pixel a (W * 4) x y w i col) (\<lambda>a. Inr (a, if ch then usize_saturating_add s 1 else s))))"
      for shift
      by (intro ext) (auto simp: quant_step_def quant_pixel_def rbind_assoc Let_def
          if_distrib [of "\<lambda>m. rbind m _"] cong: if_cong split: prod.splits)
    have fold: "try_fold (?step shift) (atlas, 0) [0..<?n] =
      rbind (?loop shift) (\<lambda>a. rmap (\<lambda>cs. (a, min usize_max (length (filter snd cs)))) (?cs shift))" for shift
      using counted_loop [of 0 "quant_pixel d previous w ?n shift" "\<lambda>a i. write_pixel a (W * 4) x y w i" atlas "[0..<?n]"]
      unfolding step by simp
    have dec: "?dec = rbind (validate_rect (da_x d) (da_y d) w h (da_width d) (da_height d)) (\<lambda>_.
        if \<not> changed \<le> ?n then Inl (Err QuantCountExceeds)
        else if length (da_payload d) \<noteq> align_usize_to_4 (4 + quant_mask_bytes ?n + ?n * 2)
          then Inl (Err QuantLengthMismatch)
        else rbind (read_u32 (da_payload d) 0) (\<lambda>word.
          if unat (word AND 0xff) \<le> 4
          then rbind (?loop (unat (word AND 0xff))) (\<lambda>a. rbind (?cs (unat (word AND 0xff))) (\<lambda>cs.
            if min usize_max (length (filter snd cs)) = changed then Inr a
            else Inl (Err QuantMaskCountMismatch)))
          else Inl (Err QuantShiftInvalid)))"
      unfolding decode_masked_quant_delta_payload_def Let_def quant_mask_bytes_def [symmetric]
        prev quant_no_overflow [OF 1(5,6)]
      by (simp add: fold rbind_ensure rbind_assoc rbind_rmap cong: if_cong)
    have count: "min usize_max (length (filter snd cs)) = length (filter snd cs)" if "?cs k = Inr cs" for k cs
    proof -
      have "length (filter snd cs) \<le> ?n"
        using try_map_length [OF that] length_filter_le [of snd cs] by simp
      also have "\<dots> \<le> usize_max" using u16_area_usize [OF 1(5,6)] by simp
      finally show ?thesis by simp
    qed
    have loop: "case colours_of ?n (\<lambda>i. rmap fst (quant_pixel d previous w ?n k i)) of
        None \<Rightarrow> \<exists>e. ?loop k = Inl (Err e)
      | Some c \<Rightarrow> \<exists>a. ?loop k = Inr a \<and> paints W H x y w h c atlas a" for k
      by (rule fallible_loop_paints [OF 1(1,2) refl quant_pixel_ok quant_pixel_no_panic])
    have col: "colours_of ?n (\<lambda>i. rmap fst (quant_pixel d previous w ?n k i)) = (case ?cs k of Inl e \<Rightarrow> None
        | Inr cs \<Rightarrow> Some (\<lambda>i. if i < ?n then map fst cs ! i else [0, 0, 0, 0]))" for k
      by (cases "?cs k") (simp_all add: colours_of_def try_map_rmap)
    show ?thesis
    proof (cases "validate_rect (da_x d) (da_y d) w h (da_width d) (da_height d)")
      case (Inl e)
      then show ?thesis
        using validate_rect_error [of "da_x d" "da_y d" w h "da_width d" "da_height d"]
        by (auto simp: dc dec [unfolded prev] quant_colours_def prev Let_def)
    next
      case valid: (Inr u)
      show ?thesis
      proof (cases "read_u32 (da_payload d) 0")
        case (Inl e)
        then show ?thesis
          using read_u32_error [OF Inl] valid by (auto simp: dc dec [unfolded prev] quant_colours_def prev Let_def)
      next
        case (Inr word)
        then show ?thesis
          using valid loop [of "unat (word AND 0xff)"] count [of "unat (word AND 0xff)"]
          unfolding col
          by (cases "?cs (unat (word AND 0xff))")
            (auto simp: dc dec [unfolded prev] quant_colours_def prev Let_def)
      qed
    qed
  qed
qed

end
