(* ===== verification/Tile_Picture.thy ===== *)
theory Tile_Picture
  imports Tile_Paint
begin

text \<open>
  What a stream means: its picture is the blits of its commands, in order, over a black atlas.
  \<open>reconstruct_atlas_from_stream\<close> computes the picture of every stream whose commands are sound,
  and reports an error, without a panic, for every other.
\<close>

unbundle bit_operations_syntax

section \<open>The meaning of a command\<close>

definition delta_of :: "bytes option \<Rightarrow> u32 \<Rightarrow> u32 \<Rightarrow> OwnedCommand \<Rightarrow> delta_args" where
  "delta_of previous dw dh c = \<lparr>da_payload = oc_payload c, da_x = oc_desktop_x c, da_y = oc_desktop_y c,
     da_previous = previous, da_width = dw, da_height = dh\<rparr>"

definition solid_ok :: "OwnedCommand \<Rightarrow> bool" where
  "solid_ok c \<longleftrightarrow> (oc_kind c = TILE_COMMAND_SOLID_COLOR \<longrightarrow> 4 \<le> length (oc_payload c))"

definition command_colours :: "bytes option \<Rightarrow> u32 \<Rightarrow> u32 \<Rightarrow> OwnedCommand \<Rightarrow> (nat \<Rightarrow> bytes) option" where
  "command_colours previous dw dh c =
     (let w = oc_width c; h = oc_height c; d = delta_of previous dw dh c in
      if oc_kind c = TILE_COMMAND_SOLID_COLOR then Some (\<lambda>_. u32_le (u32_of_le (take 4 (oc_payload c))))
      else if oc_kind c = TILE_COMMAND_RAW_BGRA then raw_colours (oc_payload c) w h
      else if oc_kind c = TILE_COMMAND_XOR_RAW then xor_raw_colours d w h
      else if oc_kind c = TILE_COMMAND_XOR_SPARSE then sparse_colours d w h
      else if oc_kind c = TILE_COMMAND_MASKED_QUANT_DELTA
        then quant_colours (d, unat (oc_changed_count c)) w h
      else if oc_kind c = TILE_COMMAND_LOSSY_UI_BLOCK then lossy_colours (oc_payload c) w h
      else if oc_kind c = TILE_COMMAND_SHARP_UI_BLOCK then sharp_colours (oc_payload c) w h
      else None)"

definition command_rect_ok :: "u32 \<Rightarrow> u32 \<Rightarrow> OwnedCommand \<Rightarrow> bool" where
  "command_rect_ok aw ah c \<longleftrightarrow>
     validate_rect (oc_atlas_x c) (oc_atlas_y c) (oc_width c) (oc_height c) aw ah = Inr ()"

definition sound_command :: "bytes option \<Rightarrow> u32 \<Rightarrow> u32 \<Rightarrow> u32 \<Rightarrow> u32 \<Rightarrow> OwnedCommand \<Rightarrow> bool" where
  "sound_command previous dw dh aw ah c \<longleftrightarrow>
     command_rect_ok aw ah c \<and> command_colours previous dw dh c \<noteq> None"

definition blit_command :: "bytes option \<Rightarrow> u32 \<Rightarrow> u32 \<Rightarrow> image \<Rightarrow> OwnedCommand \<Rightarrow> image" where
  "blit_command previous dw dh img c =
     (case command_colours previous dw dh c of None \<Rightarrow> img
      | Some col \<Rightarrow> blit (unat (oc_atlas_x c)) (unat (oc_atlas_y c)) (unat (oc_width c)) (unat (oc_height c)) col img)"

definition picture :: "bytes option \<Rightarrow> u32 \<Rightarrow> u32 \<Rightarrow> OwnedCommand list \<Rightarrow> image" where
  "picture previous dw dh cs = foldl (blit_command previous dw dh) (\<lambda>_ _. [0, 0, 0, 0]) cs"

section \<open>One command of the loop\<close>

definition apply_command :: "bytes option \<Rightarrow> u32 \<Rightarrow> u32 \<Rightarrow> u32 \<Rightarrow> u32 \<Rightarrow> OwnedCommand \<Rightarrow> bytes \<Rightarrow> bytes tile_result" where
  "apply_command previous dw dh aw ah c atlas =
     rbind (validate_rect (oc_atlas_x c) (oc_atlas_y c) (oc_width c) (oc_height c) aw ah) (\<lambda>_.
       paint_command (oc_payload c) previous dw dh (unat aw * 4) atlas (oc_kind c) (oc_atlas_xy c)
         (oc_desktop_xy c) (oc_wh c) 0 (length (oc_payload c)) (unat (oc_changed_count c)))"

lemmas oc_parts = oc_atlas_x_def oc_atlas_y_def oc_desktop_x_def oc_desktop_y_def oc_width_def oc_height_def

lemma paint_command_at:
  assumes at: "drop offset bytes = command_bytes c @ rest" and len: "length bytes < 2 ^ 32" and ok: "solid_ok c"
  shows "paint_command bytes previous dw dh stride atlas (oc_kind c) axy dxy wh (offset + 24)
      (offset + 24 + length (oc_payload c)) n
    = paint_command (oc_payload c) previous dw dh stride atlas (oc_kind c) axy dxy wh 0
        (length (oc_payload c)) n"
proof -
  have fits: "offset + 24 + length (oc_payload c) \<le> length bytes"
    using command_fits [OF at] by (simp add: encoded_len_def)
  have get: "get_range (offset + 24) (offset + 24 + length (oc_payload c)) bytes = Some (oc_payload c)"
    using fits payload_at [OF at] by (simp add: get_range_def add.assoc)
  have get0: "get_range 0 (length (oc_payload c)) (oc_payload c) = Some (oc_payload c)"
    by (simp add: get_range_def slice_all)
  have "read_u32 bytes (offset + 24) = read_u32 (oc_payload c) 0"
    if "oc_kind c = TILE_COMMAND_SOLID_COLOR"
  proof -
    have p: "4 \<le> length (oc_payload c)" using that ok by (simp add: solid_ok_def)
    have "take 4 (drop (offset + 24) bytes) = take 4 (oc_payload c)"
      using drop_append_prefix [OF at, of 24] p by (simp add: command_bytes_def codec_simps)
    then show ?thesis using fits len p by (simp add: read_u32_eq usize_max_def)
  qed
  then show ?thesis by (simp add: paint_command_def get get0 cong: if_cong)
qed

interpretation reconstruct_walk: command_walk
    "\<lambda>bytes offset atlas. reconstruct_loop (stream\<lparr>ts_bytes := bytes\<rparr>) previous dw dh (length bytes) offset atlas"
    "\<lambda>offset c atlas. apply_command previous dw dh (ts_atlas_width stream) (ts_atlas_height stream) c atlas"
    "\<lambda>bytes atlas. atlas" solid_ok
  for stream :: TileCommandStream and previous dw dh
proof (unfold_locales, goal_cases)
  case (1 bytes s)
  then show ?case by (simp add: reconstruct_loop.simps)
next
  case (2 offset bytes c rest s)
  then show ?case
    using command_fits [OF 2(1)] paint_command_at [OF 2(1,4,3)]
    by (simp add: reconstruct_loop.simps [of _ _ _ _ _ offset] loop_step encoded_len_def Let_def
        apply_command_def oc_parts [symmetric] add.assoc split: sum.splits)
qed

section \<open>A command refines its blit\<close>

lemma oc_bounds: "oc_width c \<le> 65535" "oc_height c \<le> 65535"
  by (simp_all add: oc_width_def oc_height_def lo_bound hi_bound)

lemma solid_paint:
  assumes "solid_ok c" and "oc_kind c = TILE_COMMAND_SOLID_COLOR"
  shows "paint_command (oc_payload c) previous dw dh stride atlas (oc_kind c) (oc_atlas_xy c)
      (oc_desktop_xy c) (oc_wh c) 0 (length (oc_payload c)) n
    = fill_rect atlas stride (oc_atlas_x c) (oc_atlas_y c) (oc_width c) (oc_height c)
        (u32_le (u32_of_le (take 4 (oc_payload c))))"
  using assms
  by (simp add: paint_command_def Let_def solid_ok_def read_u32_eq usize_max_def oc_parts)

definition paint_outcome :: "nat \<Rightarrow> nat \<Rightarrow> u32 \<Rightarrow> u32 \<Rightarrow> u32 \<Rightarrow> u32 \<Rightarrow> bytes \<Rightarrow> (nat \<Rightarrow> bytes) option
     \<Rightarrow> bytes tile_result \<Rightarrow> bool" where
  "paint_outcome W H x y w h atlas colours m \<longleftrightarrow>
     (case colours of
        None \<Rightarrow> \<exists>e. m = Inl (Err e)
      | Some c \<Rightarrow> \<exists>atlas'. m = Inr atlas' \<and> paints W H x y w h c atlas atlas')"

lemma apply_command_paints:
  assumes ok: "atlas_ok (unat aw) (unat ah) atlas" and rect: "command_rect_ok aw ah c" and solid: "solid_ok c"
  shows "paint_outcome (unat aw) (unat ah) (oc_atlas_x c) (oc_atlas_y c) (oc_width c) (oc_height c) atlas
    (command_colours previous dw dh c) (apply_command previous dw dh aw ah c atlas)"
proof -
  let ?x = "oc_atlas_x c" let ?y = "oc_atlas_y c" let ?w = "oc_width c" let ?h = "oc_height c"
  let ?d = "delta_of previous dw dh c"
  have r: "rect_inside (unat aw) (unat ah) ?x ?y ?w ?h" "0 < ?w" "0 < ?h"
    using rect by (simp_all add: command_rect_ok_def validate_rect_iff)
  note args = ok r oc_bounds
  have get0: "get_range 0 (length (oc_payload c)) (oc_payload c) = Some (oc_payload c)"
    by (simp add: get_range_def slice_all)
  have valid: "apply_command previous dw dh aw ah c atlas =
      paint_command (oc_payload c) previous dw dh (unat aw * 4) atlas (oc_kind c) (oc_atlas_xy c)
        (oc_desktop_xy c) (oc_wh c) 0 (length (oc_payload c)) (unat (oc_changed_count c))"
    using rect by (simp add: apply_command_def command_rect_ok_def)
  note raw = raw_painter.decode_paints [OF args, of "oc_payload c",
    folded paint_outcome_def]
  note xor = xor_raw_painter.decode_paints [OF args, of ?d,
    folded paint_outcome_def]
  note sparse = sparse_painter.decode_paints [OF args, of ?d,
    folded paint_outcome_def]
  note quant = quant_painter.decode_paints [OF args, of "(?d, unat (oc_changed_count c))",
    folded paint_outcome_def]
  note lossy = lossy_painter.decode_paints [OF args, of "oc_payload c",
    folded paint_outcome_def]
  note sharp = sharp_painter.decode_paints [OF args, of "oc_payload c",
    folded paint_outcome_def]
  show ?thesis
  proof (cases "oc_kind c = TILE_COMMAND_SOLID_COLOR")
    case True
    then show ?thesis
      using solid_painter.decode_paints [OF args, of "u32_of_le (take 4 (oc_payload c))"]
      unfolding valid solid_paint [OF solid True] by (simp add: command_colours_def paint_outcome_def)
  next
    case False
    then show ?thesis
      using raw xor sparse quant lossy sharp
      by (simp add: valid paint_command_def command_colours_def Let_def get0 oc_parts [symmetric])
        (simp add: delta_of_def paint_outcome_def)
  qed
qed

lemma validate_rect_error_or_ok:
  "validate_rect x y w h lw lh = Inr () \<or> (\<exists>e. validate_rect x y w h lw lh = Inl (Err e))"
  using validate_rect_error by blast

lemma apply_command_sound:
  assumes "atlas_ok (unat aw) (unat ah) atlas" and "solid_ok c"
  shows "if sound_command previous dw dh aw ah c
    then \<exists>atlas'. apply_command previous dw dh aw ah c atlas = Inr atlas' \<and> atlas_ok (unat aw) (unat ah) atlas'
      \<and> (\<forall>px py. px < unat aw \<longrightarrow>
           image_of (unat aw) atlas' px py = blit_command previous dw dh (image_of (unat aw) atlas) c px py)
    else \<exists>e. apply_command previous dw dh aw ah c atlas = Inl (Err e)"
proof (cases "command_rect_ok aw ah c")
  case True
  with apply_command_paints [OF assms(1) True assms(2), of previous dw dh] show ?thesis
    by (auto simp: sound_command_def blit_command_def paints_def paint_outcome_def split: option.splits)
next
  case False
  then show ?thesis
    using validate_rect_error_or_ok [of "oc_atlas_x c" "oc_atlas_y c" "oc_width c" "oc_height c" aw ah]
    by (auto simp: sound_command_def command_rect_ok_def apply_command_def)
qed

section \<open>A stream refines its picture\<close>

lemma apply_commands_picture:
  assumes "atlas_ok (unat aw) (unat ah) atlas" and "list_all solid_ok cs"
  shows "if list_all (sound_command previous dw dh aw ah) cs
    then \<exists>atlas'. walk_fold (\<lambda>offset c. apply_command previous dw dh aw ah c) offset cs atlas = Inr atlas'
      \<and> atlas_ok (unat aw) (unat ah) atlas'
      \<and> (\<forall>px py. px < unat aw \<longrightarrow> image_of (unat aw) atlas' px py
            = foldl (blit_command previous dw dh) (image_of (unat aw) atlas) cs px py)
    else \<exists>e. walk_fold (\<lambda>offset c. apply_command previous dw dh aw ah c) offset cs atlas = Inl (Err e)"
  using assms
proof (induction cs arbitrary: atlas offset)
  case (Cons c cs)
  note step = apply_command_sound [OF Cons.prems(1), of c previous dw dh]
  show ?case
  proof (cases "sound_command previous dw dh aw ah c")
    case False
    then show ?thesis using step Cons.prems(2) by auto
  next
    case True
    then obtain a where a: "apply_command previous dw dh aw ah c atlas = Inr a" "atlas_ok (unat aw) (unat ah) a"
      and img: "\<And>px py. px < unat aw \<Longrightarrow>
         image_of (unat aw) a px py = blit_command previous dw dh (image_of (unat aw) atlas) c px py"
      using step Cons.prems(2) by auto
    have eq: "foldl (blit_command previous dw dh) f cs px py = foldl (blit_command previous dw dh) g cs px py"
      if "px < unat aw" and "\<And>px py. px < unat aw \<Longrightarrow> f px py = g px py" for f g px py
      using that
    proof (induction cs arbitrary: f g)
      case (Cons c cs)
      show ?case
        by (simp, rule Cons.IH [OF Cons.prems(1)])
          (auto simp: blit_command_def blit_def Cons.prems(2) split: option.splits)
    qed auto
    show ?thesis
      using Cons.IH [OF a(2), of "offset + encoded_len c"] Cons.prems(2) True a(1)
        eq [of _ "image_of (unat aw) a" "blit_command previous dw dh (image_of (unat aw) atlas) c"] img
      by (auto split: if_splits)
  qed
qed auto

lemma blank_image:
  assumes "atlas_ok W H (replicate n 0)" and "px < W" and "py < H"
  shows "image_of W (replicate n 0) px py = [0, 0, 0, 0]"
proof -
  have "py * (W * 4) + px * 4 + 4 \<le> n"
    using pixel_fits [OF assms(2,3)] assms(1) by (simp add: atlas_ok_def)
  then have "image_of W (replicate n 0) px py = replicate 4 0"
    by (simp add: image_of_def slice_def min_def)
  then show ?thesis by (simp add: numeral_eq_Suc)
qed

text \<open>A stream as the rest of the program builds it: its length field is its length and its atlas is
  small enough to be allocated.\<close>

definition stream_ok :: "TileCommandStream \<Rightarrow> bool" where
  "stream_ok stream \<longleftrightarrow> unat (ts_byte_len stream) = length (ts_bytes stream)
     \<and> unat (ts_atlas_width stream) * unat (ts_atlas_height stream) * 4 \<le> isize_max"

lemma validate_stream_header_ok:
  assumes "validate_basic_stream_bytes (ts_bytes stream) = Inr ()" and "stream_ok stream"
  shows "validate_stream_header stream = Inr ()"
proof -
  have "of_nat (length (ts_bytes stream)) = ts_byte_len stream"
  proof -
    have "unat (ts_byte_len stream) = length (ts_bytes stream)"
      using assms(2) by (simp add: stream_ok_def)
    from arg_cong [OF this, of "of_nat :: nat \<Rightarrow> u32"] show ?thesis by simp
  qed
  then show ?thesis
    using assms
    by (simp add: validate_stream_header_def validate_basic_iff read_u32_eq usize_max_def ensure_def codec_simps)
qed

lemma picture_irrelevant_rows:
  assumes "\<And>px py. px < W \<Longrightarrow> py < H \<Longrightarrow> f px py = g px py" and "px < W" "py < H"
  shows "foldl (blit_command previous dw dh) f cs px py = foldl (blit_command previous dw dh) g cs px py"
  using assms
proof (induction cs arbitrary: f g)
  case (Cons c cs)
  show ?case
    by (simp, rule Cons.IH) (use Cons.prems in \<open>auto simp: blit_command_def blit_def split: option.splits\<close>)
qed auto

lemma reconstruct_picture:
  assumes parsed: "parse_owned_commands (ts_bytes stream) = Inr cs" and ok: "stream_ok stream"
    and solid: "list_all solid_ok cs"
  shows "if list_all (sound_command previous dw dh (ts_atlas_width stream) (ts_atlas_height stream)) cs
    then \<exists>atlas. reconstruct_atlas_from_stream stream previous dw dh = Inr atlas
      \<and> atlas_ok (unat (ts_atlas_width stream)) (unat (ts_atlas_height stream)) atlas
      \<and> (\<forall>px py. px < unat (ts_atlas_width stream) \<longrightarrow> py < unat (ts_atlas_height stream) \<longrightarrow>
           image_of (unat (ts_atlas_width stream)) atlas px py = picture previous dw dh cs px py)
    else \<exists>e. reconstruct_atlas_from_stream stream previous dw dh = Inl (Err e)"
proof -
  let ?aw = "ts_atlas_width stream" let ?ah = "ts_atlas_height stream"
  let ?n = "unat ?aw * unat ?ah * 4"
  have v: "validate_basic_stream_bytes (ts_bytes stream) = Inr ()" "list_all wf_command cs"
      "drop 32 (ts_bytes stream) = concat (map command_bytes cs)"
    using parsed by (simp_all add: parse_owned_commands_iff)
  have len: "32 \<le> length (ts_bytes stream)" "length (ts_bytes stream) < 2 ^ 32"
    using v(1) by (simp_all add: validate_basic_iff)
  have n: "?n \<le> isize_max" using ok by (simp add: stream_ok_def)
  moreover have "isize_max < 2 ^ 64" by (simp add: isize_max_def)
  ultimately have small: "?n < 2 ^ 64" by (rule le_less_trans)
  then have us: "usz ?n = ?n" by (rule usz_small)
  have blank: "atlas_ok (unat ?aw) (unat ?ah) (replicate ?n 0)" using small by (simp add: atlas_ok_def)
  have "reconstruct_atlas_from_stream stream previous dw dh =
      walk_fold (\<lambda>offset c. apply_command previous dw dh ?aw ?ah c) 32 cs (replicate ?n 0)"
    using reconstruct_walk.walk_commands [OF v(3) len(1) v(2) solid len(2), of stream previous dw dh "replicate ?n 0"]
      validate_stream_header_ok [OF v(1) ok] ok n
    by (cases "walk_fold (\<lambda>offset c. apply_command previous dw dh ?aw ?ah c) 32 cs (replicate ?n 0)")
      (simp_all add: reconstruct_atlas_from_stream_def us stream_ok_def not_less)
  moreover note apply_commands_picture [OF blank solid, of previous dw dh 32]
  moreover have "foldl (blit_command previous dw dh) (image_of (unat ?aw) (replicate ?n 0)) cs px py
      = picture previous dw dh cs px py" if "px < unat ?aw" "py < unat ?ah" for px py
    unfolding picture_def
    by (rule picture_irrelevant_rows [OF _ that]) (rule blank_image [OF blank])
  ultimately show ?thesis by (auto split: if_splits)
qed

section \<open>Properties of the reconstruction\<close>

text \<open>C8. Reconstruction computes the picture. Take a stream that parses, whose length field is the number of its bytes,
  whose atlas of four bytes per pixel is not larger than a vector can be, and whose solid commands each carry their four colour
  bytes (which the loop does not check). Then \<open>reconstruct_atlas_from_stream\<close> succeeds exactly when every command is sound:
  its rectangle lies in the atlas and its payload has the form its kind requires. The atlas is then
  the blits of the commands, in order, over an atlas of zero bytes; the previous desktop is only what the delta
  commands are relative to, and no pixel of it is kept by itself. Otherwise the result is an error and no panic.\<close>

theorem reconstruct_computes_picture:
  assumes "parse_owned_commands (ts_bytes stream) = Inr cs" and "stream_ok stream"
    and "list_all solid_ok cs"
  shows "if list_all (sound_command previous dw dh (ts_atlas_width stream) (ts_atlas_height stream)) cs
    then \<exists>atlas. reconstruct_atlas_from_stream stream previous dw dh = Inr atlas
      \<and> length atlas = unat (ts_atlas_width stream) * unat (ts_atlas_height stream) * 4
      \<and> (\<forall>px py. px < unat (ts_atlas_width stream) \<longrightarrow> py < unat (ts_atlas_height stream) \<longrightarrow>
           image_of (unat (ts_atlas_width stream)) atlas px py = picture previous dw dh cs px py)
    else \<exists>e. reconstruct_atlas_from_stream stream previous dw dh = Inl (Err e)"
  using reconstruct_picture [OF assms, of previous dw dh] by (auto simp: atlas_ok_def split: if_splits)

lemma witness_stream_ok: "stream_ok witness_stream"
  by (simp add: stream_ok_def witness_stream_def isize_max_def length_command_bytes encoded_len_def
      witness_command_def codec_simps)

lemma witness_commands_sound:
  "list_all (sound_command None 0 0 (ts_atlas_width witness_stream) (ts_atlas_height witness_stream))
     [witness_command 0, witness_command 2]"
  by (simp add: sound_command_def command_rect_ok_def validate_rect_def ensure_def checked_add_def
      command_colours_def witness_command_def witness_stream_def oc_parts pack_xy_def push_bit_eq_mult
      drop_bit_eq_div)

theorem reconstruct_computes_picture_witness:
  "\<exists>atlas. reconstruct_atlas_from_stream witness_stream None 0 0 = Inr atlas \<and> length atlas = 32
     \<and> image_of 4 atlas 3 1 = picture None 0 0 [witness_command 0, witness_command 2] 3 1"
  using reconstruct_computes_picture [OF witness_stream_parses witness_stream_ok, of None 0 0]
    witness_commands_sound
  by (auto simp: solid_ok_def witness_command_def witness_stream_def)

end
