(* ===== verification/Tile_Merge.thy ===== *)
theory Tile_Merge
  imports Tile_Picture "HOL-Library.Multiset"
begin

text \<open>
  Merging solid-colour commands does not change the picture. \<open>merge_solid_color_row_bands\<close> sorts the
  commands of a stream and replaces runs of adjacent solid rectangles by one; here its output is
  described as a list of commands, and its picture compared with the picture of the input.
\<close>

unbundle bit_operations_syntax

section \<open>Merging as a function on commands\<close>

definition solid4 :: "OwnedCommand \<Rightarrow> bool" where
  "solid4 c \<longleftrightarrow> oc_kind c = TILE_COMMAND_SOLID_COLOR \<and> length (oc_payload c) = 4"

definition continues :: "OwnedCommand \<Rightarrow> u32 \<Rightarrow> OwnedCommand \<Rightarrow> bool" where
  "continues first width c \<longleftrightarrow> solid4 c \<and> oc_payload c = oc_payload first
     \<and> oc_atlas_y c = oc_atlas_y first \<and> oc_desktop_y c = oc_desktop_y first \<and> oc_height c = oc_height first
     \<and> oc_atlas_x c = saturating_add (oc_atlas_x first) width
     \<and> oc_desktop_x c = saturating_add (oc_desktop_x first) width
     \<and> (case checked_add width (oc_width c) of None \<Rightarrow> False | Some merged \<Rightarrow> merged \<le> 65535)"

fun band :: "OwnedCommand \<Rightarrow> u32 \<Rightarrow> u32 \<Rightarrow> OwnedCommand list \<Rightarrow> u32 \<times> u32 \<times> OwnedCommand list" where
  "band first width changed [] = (width, changed, [])"
| "band first width changed (c # cs) =
     (if continues first width c
      then band first (width + oc_width c) (saturating_add changed (oc_changed_count c)) cs
      else (width, changed, c # cs))"

lemma band_rest_length: "length (snd (snd (band first w n cs))) \<le> length cs"
  by (induction first w n cs rule: band.induct) auto

definition widened :: "OwnedCommand \<Rightarrow> u32 \<Rightarrow> u32 \<Rightarrow> OwnedCommand" where
  "widened c width changed = c\<lparr>oc_wh := pack_xy width (oc_height c), oc_changed_count := changed\<rparr>"

function merge_commands :: "OwnedCommand list \<Rightarrow> OwnedCommand list" where
  "merge_commands [] = []"
| "merge_commands (c # cs) =
     (if solid4 c
      then let b = band c (oc_width c) (oc_changed_count c) cs in
        widened c (fst b) (fst (snd b)) # merge_commands (snd (snd b))
      else c # merge_commands cs)"
  by pat_completeness auto
termination
  by (relation "measure length") (auto simp: less_Suc_eq_le band_rest_length)

section \<open>References and the commands they refer to\<close>

definition own :: "bytes \<Rightarrow> CommandRef \<Rightarrow> OwnedCommand" where
  "own bytes r = parsed_at bytes (cr_command_offset r)"

definition valid_ref :: "bytes \<Rightarrow> CommandRef \<Rightarrow> bool" where
  "valid_ref bytes r \<longleftrightarrow> r = ref_of (cr_command_offset r) (own bytes r) \<and> wf_command (own bytes r)
     \<and> drop (cr_command_offset r) bytes
         = command_bytes (own bytes r) @ drop (cr_command_offset r + encoded_len (own bytes r)) bytes"

lemma parsed_at_encoded:
  assumes at: "drop offset bytes = command_bytes c @ rest" and wf: "wf_command c"
  shows "parsed_at bytes offset = c"
proof -
  have words: "take 4 (drop (offset + k) bytes) = take 4 (drop k (command_bytes c @ rest))" for k
    using drop_append_prefix [OF at, of k] by simp
  have w: "u32_of_le (take 4 (drop offset bytes)) = oc_kind c"
    "u32_of_le (take 4 (drop (offset + 4) bytes)) = oc_atlas_xy c"
    "u32_of_le (take 4 (drop (offset + 8) bytes)) = oc_desktop_xy c"
    "u32_of_le (take 4 (drop (offset + 12) bytes)) = oc_wh c"
    "u32_of_le (take 4 (drop (offset + 16) bytes)) = of_nat (length (oc_payload c))"
    "u32_of_le (take 4 (drop (offset + 20) bytes)) = oc_changed_count c"
    unfolding words at by (simp_all add: command_bytes_def header_bytes_def codec_simps)
  have n: "unat (of_nat (length (oc_payload c)) :: u32) = length (oc_payload c)"
    using wf by (simp add: wf_command_def unat_of_nat_bound)
  have p: "slice (offset + 24) (offset + 24 + length (oc_payload c)) bytes = oc_payload c"
    using payload_at [OF at] by (simp add: add.assoc)
  show ?thesis unfolding parsed_at_def w n p by simp
qed

lemma refs_valid:
  assumes "drop offset bytes = concat (map command_bytes cs)" and "list_all wf_command cs"
  shows "list_all (valid_ref bytes) (refs_of offset cs) \<and> map (own bytes) (refs_of offset cs) = cs"
  using assms
proof (induction cs arbitrary: offset)
  case (Cons c cs)
  have at: "drop offset bytes = command_bytes c @ concat (map command_bytes cs)" using Cons.prems by simp
  have rest: "drop (offset + encoded_len c) bytes = concat (map command_bytes cs)"
    using drop_append_prefix [OF at, of "encoded_len c"] by (simp add: length_command_bytes)
  have own: "own bytes (ref_of offset c) = c"
    using parsed_at_encoded [OF at] Cons.prems by (simp add: own_def ref_of_def)
  have "valid_ref bytes (ref_of offset c)"
    unfolding valid_ref_def own using at rest Cons.prems by (simp add: ref_of_def)
  then show ?case using Cons.IH [OF rest] Cons.prems own by simp
qed simp

lemma valid_ref_fields:
  assumes "valid_ref bytes r"
  shows "cr_kind r = oc_kind (own bytes r)" "cr_payload_len r = length (oc_payload (own bytes r))"
    "cr_atlas_x r = oc_atlas_x (own bytes r)" "cr_atlas_y r = oc_atlas_y (own bytes r)"
    "cr_desktop_x r = oc_desktop_x (own bytes r)" "cr_desktop_y r = oc_desktop_y (own bytes r)"
    "cr_width r = oc_width (own bytes r)" "cr_height r = oc_height (own bytes r)"
    "cr_changed_count r = oc_changed_count (own bytes r)"
    "cr_atlas_xy r = oc_atlas_xy (own bytes r)" "cr_desktop_xy r = oc_desktop_xy (own bytes r)"
    "cr_payload_offset r = cr_command_offset r + 24"
proof -
  define c where "c = own bytes r"
  have r: "r = ref_of (cr_command_offset r) c" using assms by (simp add: valid_ref_def c_def)
  show "cr_kind r = oc_kind (own bytes r)" "cr_payload_len r = length (oc_payload (own bytes r))"
    "cr_atlas_x r = oc_atlas_x (own bytes r)" "cr_atlas_y r = oc_atlas_y (own bytes r)"
    "cr_desktop_x r = oc_desktop_x (own bytes r)" "cr_desktop_y r = oc_desktop_y (own bytes r)"
    "cr_width r = oc_width (own bytes r)" "cr_height r = oc_height (own bytes r)"
    "cr_changed_count r = oc_changed_count (own bytes r)"
    "cr_atlas_xy r = oc_atlas_xy (own bytes r)" "cr_desktop_xy r = oc_desktop_xy (own bytes r)"
    "cr_payload_offset r = cr_command_offset r + 24"
    unfolding c_def [symmetric]
    by (subst r, simp add: ref_of_def cr_atlas_x_def cr_atlas_y_def cr_desktop_x_def cr_desktop_y_def
        cr_width_def cr_height_def oc_parts)+
qed

lemma valid_ref_slice:
  assumes "valid_ref bytes r"
  shows "get_range (cr_command_offset r) (cr_payload_end r) bytes = Some (command_bytes (own bytes r))"
    and "slice (cr_payload_offset r) (cr_payload_offset r + length (oc_payload (own bytes r))) bytes
      = oc_payload (own bytes r)"
proof -
  have at: "drop (cr_command_offset r) bytes
      = command_bytes (own bytes r) @ drop (cr_command_offset r + encoded_len (own bytes r)) bytes"
    using assms by (simp add: valid_ref_def)
  have ending: "cr_payload_end r = cr_command_offset r + encoded_len (own bytes r)"
    using valid_ref_fields [OF assms] by (simp add: cr_payload_end_def encoded_len_def)
  show "get_range (cr_command_offset r) (cr_payload_end r) bytes = Some (command_bytes (own bytes r))"
    using command_fits [OF at] at by (simp add: get_range_def ending slice_def length_command_bytes)
  show "slice (cr_payload_offset r) (cr_payload_offset r + length (oc_payload (own bytes r))) bytes
      = oc_payload (own bytes r)"
    using payload_at [OF at] valid_ref_fields(12) [OF assms] by (simp add: add.assoc)
qed

lemma solid_key:
  assumes "valid_ref bytes r" and "solid4 (own bytes r)"
  shows "u32_le (solid_color_key bytes r) = oc_payload (own bytes r)"
  using valid_ref_slice(2) [OF assms(1)] valid_ref_fields(1,2) [OF assms(1)] assms(2)
  by (simp add: solid_color_key_def solid4_def u32_le_inverse)

section \<open>The merge loop computes \<open>merge_commands\<close>\<close>

lemma absorb_band:
  assumes "valid_ref bytes r" and "solid4 (own bytes r)" and "list_all (valid_ref bytes) rs"
  shows "case absorb bytes r (solid_color_key bytes r) w n rs of (w', n', rest) \<Rightarrow>
     band (own bytes r) w n (map (own bytes) rs) = (w', n', map (own bytes) rest)
     \<and> list_all (valid_ref bytes) rest"
  using assms(3)
proof (induction rs arbitrary: w n)
  case (Cons r' rs)
  have v: "valid_ref bytes r'" using Cons.prems by simp
  have key: "solid_color_key bytes r' = solid_color_key bytes r \<longleftrightarrow> oc_payload (own bytes r') = oc_payload (own bytes r)"
    if "solid4 (own bytes r')"
    using solid_key [OF v that] solid_key [OF assms(1,2)] by (metis u32_le_roundtrip)
  have "(cr_kind r' = TILE_COMMAND_SOLID_COLOR \<and> cr_payload_len r' = 4
         \<and> solid_color_key bytes r' = solid_color_key bytes r
         \<and> cr_atlas_y r' = cr_atlas_y r \<and> cr_desktop_y r' = cr_desktop_y r \<and> cr_height r' = cr_height r
         \<and> cr_atlas_x r' = saturating_add (cr_atlas_x r) w
         \<and> cr_desktop_x r' = saturating_add (cr_desktop_x r) w
         \<and> (case checked_add w (cr_width r') of None \<Rightarrow> False | Some merged_width \<Rightarrow> merged_width \<le> 65535))
      \<longleftrightarrow> continues (own bytes r) w (own bytes r')"
    unfolding valid_ref_fields [OF v] valid_ref_fields [OF assms(1)] continues_def
    using key by (auto simp: solid4_def)
  then show ?case
    using Cons valid_ref_fields [OF v] by auto
qed simp

lemma write_u32_at: "write_u32 (a @ [0, 0, 0, 0]) (length a) v = Inr (a @ u32_le v)"
  using put_range_at [of "u32_le v" "[0, 0, 0, 0]" a] by (simp add: write_u32_def codec_simps)

lemma merged_command_written:
  assumes "solid4 c"
  shows "rbind (write_command_header (output @ replicate 28 0) (length output) TILE_COMMAND_SOLID_COLOR
      (oc_atlas_xy c) (oc_desktop_xy c) (pack_xy w (oc_height c)) 4 n) (\<lambda>output'.
      write_u32 output' (length output + 24) (u32_of_le (oc_payload c)))
    = Inr (output @ command_bytes (widened c w n))"
proof -
  let ?h = "header_bytes TILE_COMMAND_SOLID_COLOR (oc_atlas_xy c) (oc_desktop_xy c) (pack_xy w (oc_height c)) 4 n"
  have "write_command_header (output @ replicate 28 0) (length output) TILE_COMMAND_SOLID_COLOR
      (oc_atlas_xy c) (oc_desktop_xy c) (pack_xy w (oc_height c)) 4 n = Inr (output @ ?h @ [0, 0, 0, 0])"
    by (simp add: write_command_header_at, simp add: numeral_eq_Suc)
  moreover have "write_u32 (output @ ?h @ [0, 0, 0, 0]) (length output + 24) v = Inr (output @ ?h @ u32_le v)" for v
    using write_u32_at [of "output @ ?h" v] by (simp add: codec_simps)
  ultimately show ?thesis
    using assms by (simp add: command_bytes_def widened_def solid4_def u32_le_inverse)
qed

lemma merge_loop_commands:
  assumes "list_all (valid_ref bytes) rs" and "unat n + length rs < 2 ^ 32"
  shows "\<exists>k. merge_loop bytes out0 n rs =
    Inr (out0 @ concat (map command_bytes (merge_commands (map (own bytes) rs))), k)
    \<and> unat k = unat n + length (merge_commands (map (own bytes) rs))"
  using assms
proof (induction "length rs" arbitrary: rs out0 n rule: less_induct)
  case less
  show ?case
  proof (cases rs)
    case Nil
    then show ?thesis by simp
  next
    case (Cons r rs')
    have v: "valid_ref bytes r" "list_all (valid_ref bytes) rs'" using less.prems Cons by auto
    have n1: "unat (saturating_add n 1) = unat n + 1"
      using less.prems(2) Cons by (simp add: unat_saturating_add)
    have n': "unat (saturating_add n 1) + length rs'' < 2 ^ 32" if "length rs'' \<le> length rs'" for rs'' :: "CommandRef list"
      using that less.prems(2) Cons by (simp add: n1)
    show ?thesis
    proof (cases "solid4 (own bytes r)")
      case False
      obtain k where "merge_loop bytes (out0 @ command_bytes (own bytes r)) (saturating_add n 1) rs' =
          Inr ((out0 @ command_bytes (own bytes r)) @ concat (map command_bytes (merge_commands (map (own bytes) rs'))), k)"
        "unat k = unat (saturating_add n 1) + length (merge_commands (map (own bytes) rs'))"
        using less.hyps [OF _ v(2) n', of "out0 @ command_bytes (own bytes r)"] Cons by auto
      then show ?thesis
        using False Cons valid_ref_fields(1,2) [OF v(1)] valid_ref_slice(1) [OF v(1)]
        by (intro exI [of _ k]) (auto simp: solid4_def n1)
    next
      case True
      obtain w m rest where abs: "absorb bytes r (solid_color_key bytes r) (cr_width r) (cr_changed_count r) rs' = (w, m, rest)"
        by (metis prod_cases3)
      then have band: "band (own bytes r) (oc_width (own bytes r)) (oc_changed_count (own bytes r)) (map (own bytes) rs')
          = (w, m, map (own bytes) rest)" and vr: "list_all (valid_ref bytes) rest"
        using absorb_band [OF v(1) True v(2), of "cr_width r" "cr_changed_count r"] valid_ref_fields [OF v(1)] by auto
      have len: "length rest \<le> length rs'" using abs by (rule absorb_rest_length)
      have key: "solid_color_key bytes r = u32_of_le (oc_payload (own bytes r))"
        using solid_key [OF v(1) True] by (metis u32_le_roundtrip)
      let ?out = "out0 @ command_bytes (widened (own bytes r) w m)"
      obtain k where "merge_loop bytes ?out (saturating_add n 1) rest =
          Inr (?out @ concat (map command_bytes (merge_commands (map (own bytes) rest))), k)"
        "unat k = unat (saturating_add n 1) + length (merge_commands (map (own bytes) rest))"
        using less.hyps [OF _ vr n' [OF len], of ?out] Cons len by auto
      then show ?thesis
        using True Cons abs band valid_ref_fields [OF v(1)] merged_command_written [OF True, of out0 w m]
        by (intro exI [of _ k]) (simp add: solid4_def key Let_def n1)
    qed
  qed
qed

section \<open>A band paints what its commands paint\<close>

definition band_blit :: "OwnedCommand \<Rightarrow> u32 \<Rightarrow> image \<Rightarrow> image" where
  "band_blit c w = blit (unat (oc_atlas_x c)) (unat (oc_atlas_y c)) (unat w) (unat (oc_height c))
     (\<lambda>_. oc_payload c)"

lemma blit_join:
  "blit (x + w) y w' h (\<lambda>_. col) (blit x y w h (\<lambda>_. col) img) = blit x y (w + w') h (\<lambda>_. col) img"
  by (intro ext) (auto simp: blit_def in_rect_def)

lemma solid_colours:
  "solid4 c \<Longrightarrow> command_colours previous dw dh c = Some (\<lambda>_. oc_payload c)"
  by (simp add: solid4_def command_colours_def u32_le_inverse)

lemma blit_command_solid:
  "solid4 c \<Longrightarrow> blit_command previous dw dh img c = band_blit c (oc_width c) img"
  by (simp add: blit_command_def solid_colours band_blit_def)

lemma command_rect_iff:
  "command_rect_ok aw ah c \<longleftrightarrow> 0 < oc_width c \<and> 0 < oc_height c
     \<and> unat (oc_atlas_x c) + unat (oc_width c) \<le> unat aw \<and> unat (oc_atlas_y c) + unat (oc_height c) \<le> unat ah"
  by (simp add: command_rect_ok_def validate_rect_iff rect_inside_def)

lemma continues_joins:
  assumes "continues first w c" and "w \<le> 65535"
  shows "unat (oc_atlas_x c) = unat (oc_atlas_x first) + unat w"
    and "unat (w + oc_width c) = unat w + unat (oc_width c)" and "w + oc_width c \<le> 65535"
proof -
  have "oc_atlas_x first \<le> 65535" by (simp add: oc_atlas_x_def lo_bound)
  then have "unat (oc_atlas_x first) + unat w < 2 ^ 32" using assms(2) by (simp add: word_le_nat_alt)
  then show "unat (oc_atlas_x c) = unat (oc_atlas_x first) + unat w"
    using assms(1) by (simp add: continues_def unat_saturating_add)
  have c: "checked_add w (oc_width c) = Some (w + oc_width c) \<and> w + oc_width c \<le> 65535"
    using assms(1) by (auto simp: continues_def checked_add_def split: option.splits if_splits)
  then show "w + oc_width c \<le> 65535" by simp
  show "unat (w + oc_width c) = unat w + unat (oc_width c)"
    using c by (simp add: checked_add_Some_iff unat_add_no_wrap)
qed

lemma band_paints:
  assumes "band first w n cs = (w', n', rest)" and "w \<le> 65535" "0 < w"
    and "unat (oc_atlas_x first) + unat w \<le> unat aw"
    and "list_all (command_rect_ok aw ah) cs"
  shows "foldl (blit_command previous dw dh) (band_blit first w img) cs
           = foldl (blit_command previous dw dh) (band_blit first w' img) rest
    \<and> w' \<le> 65535 \<and> 0 < w' \<and> unat (oc_atlas_x first) + unat w' \<le> unat aw
    \<and> (\<exists>taken. cs = taken @ rest)"
  using assms
proof (induction cs arbitrary: w n)
  case (Cons c cs)
  show ?case
  proof (cases "continues first w c")
    case False
    then show ?thesis using Cons.prems by simp
  next
    case True
    note j = continues_joins [OF True Cons.prems(2)]
    have rect: "unat (oc_atlas_x c) + unat (oc_width c) \<le> unat aw"
      using Cons.prems(5) by (simp add: command_rect_iff)
    have step: "blit_command previous dw dh (band_blit first w img) c = band_blit first (w + oc_width c) img"
    proof -
      have s: "solid4 c" "oc_payload c = oc_payload first" "oc_atlas_y c = oc_atlas_y first"
          "oc_height c = oc_height first"
        using True by (auto simp: continues_def)
      show ?thesis
        unfolding blit_command_solid [OF s(1)] band_blit_def s(2-4) j(1,2) by (rule blit_join)
    qed
    have pos: "0 < w + oc_width c" using Cons.prems(3) j(2) by (simp add: word_less_nat_alt)
    have "foldl (blit_command previous dw dh) (band_blit first (w + oc_width c) img) cs
           = foldl (blit_command previous dw dh) (band_blit first w' img) rest
      \<and> w' \<le> 65535 \<and> 0 < w' \<and> unat (oc_atlas_x first) + unat w' \<le> unat aw \<and> (\<exists>taken. cs = taken @ rest)"
      by (rule Cons.IH) (use Cons.prems True j rect pos in auto)
    then show ?thesis using step by (auto intro: exI [of _ "c # _"])
  qed
qed auto

lemma widened_facts:
  assumes "solid4 c" and "w \<le> 65535"
  shows "solid4 (widened c w n)" "oc_width (widened c w n) = w" "oc_height (widened c w n) = oc_height c"
    "oc_atlas_x (widened c w n) = oc_atlas_x c" "oc_atlas_y (widened c w n) = oc_atlas_y c"
    "oc_payload (widened c w n) = oc_payload c"
  using assms oc_bounds(2) [of c] pack_xy_lo [of w "oc_height c"] pack_xy_hi [of "oc_height c" w]
  by (simp_all add: widened_def solid4_def oc_parts)

lemma merge_commands_sound:
  assumes "list_all (sound_command previous dw dh aw ah) cs"
  shows "foldl (blit_command previous dw dh) img (merge_commands cs) = foldl (blit_command previous dw dh) img cs
    \<and> list_all (sound_command previous dw dh aw ah) (merge_commands cs)"
  using assms
proof (induction cs arbitrary: img rule: merge_commands.induct)
  case (2 c cs)
  have sound: "sound_command previous dw dh aw ah c" "list_all (sound_command previous dw dh aw ah) cs"
    using "2.prems" by auto
  show ?case
  proof (cases "solid4 c")
    case False
    then show ?thesis using 2 by simp
  next
    case True
    obtain w n rest where b: "band c (oc_width c) (oc_changed_count c) cs = (w, n, rest)"
      by (metis prod_cases3)
    have rects: "list_all (command_rect_ok aw ah) cs" "command_rect_ok aw ah c"
      using sound by (auto simp: list_all_iff sound_command_def)
    note bp = band_paints [OF b oc_bounds(1) _ _ rects(1), of previous dw dh img] 
    from bp rects(2) have p: "foldl (blit_command previous dw dh) (band_blit c (oc_width c) img) cs
           = foldl (blit_command previous dw dh) (band_blit c w img) rest"
      "w \<le> 65535" "0 < w" "unat (oc_atlas_x c) + unat w \<le> unat aw" "\<exists>taken. cs = taken @ rest"
      by (auto simp: command_rect_iff)
    note wf = widened_facts [OF True p(2), of n]
    have wide: "sound_command previous dw dh aw ah (widened c w n)"
      using rects(2) p(3,4) by (simp add: sound_command_def command_rect_iff wf solid_colours [OF wf(1)])
    have img: "blit_command previous dw dh img (widened c w n) = band_blit c w img"
      by (simp add: blit_command_solid [OF wf(1)] wf band_blit_def)
    have "list_all (sound_command previous dw dh aw ah) rest" using sound(2) p(5) by auto
    with "2.IH"(1) [OF True refl, of "band_blit c w img"] b
    have "foldl (blit_command previous dw dh) (band_blit c w img) (merge_commands rest)
        = foldl (blit_command previous dw dh) (band_blit c w img) rest
      \<and> list_all (sound_command previous dw dh aw ah) (merge_commands rest)" by simp
    then show ?thesis
      using True b wide img p(1) by (simp add: blit_command_solid [OF True])
  qed
qed simp

section \<open>Sorting commands with disjoint rectangles\<close>

definition covers :: "OwnedCommand \<Rightarrow> nat \<Rightarrow> nat \<Rightarrow> bool" where
  "covers c = in_rect (unat (oc_atlas_x c)) (unat (oc_atlas_y c)) (unat (oc_width c)) (unat (oc_height c))"

definition disjoint_rects :: "OwnedCommand \<Rightarrow> OwnedCommand \<Rightarrow> bool" where
  "disjoint_rects c d \<longleftrightarrow>
     unat (oc_atlas_x c) + unat (oc_width c) \<le> unat (oc_atlas_x d)
   \<or> unat (oc_atlas_x d) + unat (oc_width d) \<le> unat (oc_atlas_x c)
   \<or> unat (oc_atlas_y c) + unat (oc_height c) \<le> unat (oc_atlas_y d)
   \<or> unat (oc_atlas_y d) + unat (oc_height d) \<le> unat (oc_atlas_y c)"

lemma disjoint_covers: "disjoint_rects c d \<Longrightarrow> covers c px py \<Longrightarrow> \<not> covers d px py"
  by (auto simp: disjoint_rects_def covers_def in_rect_def)

lemma blit_command_outside: "\<not> covers c px py \<Longrightarrow> blit_command previous dw dh img c px py = img px py"
  by (simp add: blit_command_def blit_def covers_def split: option.splits)

lemma blit_command_inside:
  "covers c px py \<Longrightarrow> command_colours previous dw dh c \<noteq> None \<Longrightarrow>
   blit_command previous dw dh img c px py = blit_command previous dw dh img' c px py"
  by (auto simp: blit_command_def blit_def covers_def)

lemma foldl_outside:
  "(\<And>c. c \<in> set cs \<Longrightarrow> \<not> covers c px py) \<Longrightarrow> foldl (blit_command previous dw dh) img cs px py = img px py"
  by (induction cs arbitrary: img) (auto simp: blit_command_outside)

lemma foldl_inside:
  assumes "c \<in> set cs" and "covers c px py" and "command_colours previous dw dh c \<noteq> None"
    and "\<And>d. d \<in> set cs \<Longrightarrow> d \<noteq> c \<Longrightarrow> disjoint_rects c d"
  shows "foldl (blit_command previous dw dh) img cs px py = blit_command previous dw dh img' c px py"
  using assms(1,4)
proof (induction cs arbitrary: img)
  case (Cons d cs)
  show ?case
  proof (cases "c \<in> set cs")
    case True
    then show ?thesis using Cons by simp
  next
    case False
    then have "d = c" using Cons.prems(1) by simp
    moreover have "\<not> covers e px py" if "e \<in> set cs" for e
      using that False Cons.prems(2) [of e] disjoint_covers [OF _ assms(2)] by auto
    ultimately show ?thesis
      using foldl_outside [of cs px py] blit_command_inside [OF assms(2,3)] by simp
  qed
qed simp

lemma picture_permuted:
  assumes "set cs = set cs'" and "list_all (sound_command previous dw dh aw ah) cs"
    and "\<And>c d. c \<in> set cs \<Longrightarrow> d \<in> set cs \<Longrightarrow> c \<noteq> d \<Longrightarrow> disjoint_rects c d"
  shows "foldl (blit_command previous dw dh) img cs = foldl (blit_command previous dw dh) img cs'"
proof (intro ext)
  fix px py
  show "foldl (blit_command previous dw dh) img cs px py = foldl (blit_command previous dw dh) img cs' px py"
  proof (cases "\<exists>c\<in>set cs. covers c px py")
    case True
    then obtain c where c: "c \<in> set cs" "covers c px py" by blast
    have col: "command_colours previous dw dh c \<noteq> None"
      using assms(2) c(1) by (auto simp: list_all_iff sound_command_def)
    have "foldl (blit_command previous dw dh) img cs px py = blit_command previous dw dh img c px py"
      by (rule foldl_inside [OF c col]) (use assms(3) c in auto)
    moreover have "foldl (blit_command previous dw dh) img cs' px py = blit_command previous dw dh img c px py"
      by (rule foldl_inside [OF _ c(2) col]) (use assms c in auto)
    ultimately show ?thesis by simp
  next
    case False
    then show ?thesis using foldl_outside [of cs px py] foldl_outside [of cs' px py] assms(1) by auto
  qed
qed

section \<open>The merged stream\<close>

lemma encoded_len_widened: "encoded_len (widened c w n) = encoded_len c"
  by (simp add: encoded_len_def widened_def)

lemma band_suffix: "\<exists>taken. cs = taken @ snd (snd (band first w n cs))"
proof (induction first w n cs rule: band.induct)
  case (2 first w n c cs)
  then show ?case by (cases "continues first w c") (auto intro: exI [of _ "c # _"])
qed simp

lemma merge_commands_len: "total_len (merge_commands cs) \<le> total_len cs"
proof (induction cs rule: merge_commands.induct)
  case (2 c cs)
  obtain taken where "cs = taken @ snd (snd (band c (oc_width c) (oc_changed_count c) cs))"
    using band_suffix by blast
  then have "total_len (snd (snd (band c (oc_width c) (oc_changed_count c) cs))) \<le> total_len cs"
    by (metis le_add2 map_append sum_list_append)
  then show ?case using 2 by (cases "solid4 c") (fastforce simp: encoded_len_widened Let_def)+
qed simp

lemma merge_commands_all:
  assumes "list_all P cs" and "\<And>c w n. P c \<Longrightarrow> solid4 c \<Longrightarrow> P (widened c w n)"
  shows "list_all P (merge_commands cs)"
  using assms(1)
proof (induction cs rule: merge_commands.induct)
  case (2 c cs)
  obtain taken where "cs = taken @ snd (snd (band c (oc_width c) (oc_changed_count c) cs))"
    using band_suffix by blast
  then have "list_all P (snd (snd (band c (oc_width c) (oc_changed_count c) cs)))"
    using "2.prems" by (metis list.pred_inject(2) list_all_append)
  then show ?case using 2 assms(2) by (cases "solid4 c") (auto simp: Let_def)
qed simp

lemma total_len_mset: "mset cs = mset cs' \<Longrightarrow> total_len cs = total_len cs'"
  by (metis mset_map sum_mset_sum_list)

lemma merge_output:
  assumes parsed: "parse_owned_commands bytes = Inr cs" and aligned: "list_all aligned_command cs"
  shows "\<exists>out cs'. merge_solid_color_row_bands bytes aw ah d = Inr out \<and> parse_owned_commands out = Inr cs'
    \<and> length out \<le> length bytes
    \<and> (cs' = cs \<or> (\<exists>sorted. mset sorted = mset cs \<and> cs' = merge_commands sorted))"
proof -
  have refs: "parse_command_refs bytes = Inr (refs_of 32 cs)" by (rule parse_command_refs_eq [OF parsed])
  have v: "list_all wf_command cs" "drop 32 bytes = concat (map command_bytes cs)"
      "32 \<le> length bytes" "length bytes < 2 ^ 32"
    using parsed by (simp_all add: parse_owned_commands_iff validate_basic_iff)
  have len: "length bytes = 32 + total_len cs"
    using v(2,3) length_commands [of cs] by (metis length_drop le_add_diff_inverse)
  let ?rs = "sort_key (merge_sort_key bytes) (refs_of 32 cs)"
  define sorted where "sorted = map (own bytes) ?rs"
  have perm: "mset sorted = mset cs"
  proof -
    have "mset sorted = mset (map (own bytes) (refs_of 32 cs))" by (simp add: sorted_def)
    then show ?thesis using refs_valid [OF v(2,1)] by simp
  qed
  have vr: "list_all (valid_ref bytes) ?rs"
    using refs_valid [OF v(2,1)] by (simp add: list_all_iff)
  have "length cs \<le> total_len cs" by (induction cs) (auto simp: encoded_len_def)
  moreover have "length ?rs = length cs" using refs_valid [OF v(2,1)] by (metis length_map length_sort)
  ultimately have small: "unat (0 :: u32) + length ?rs < 2 ^ 32" using len v(4) by simp
  obtain k where loop: "merge_loop bytes (replicate 32 0) 0 ?rs =
      Inr (replicate 32 0 @ concat (map command_bytes (merge_commands sorted)), k)"
    using merge_loop_commands [OF vr small] by (auto simp: sorted_def)
  have total: "total_len (merge_commands sorted) \<le> total_len cs"
    using merge_commands_len [of sorted] total_len_mset [OF perm] by simp
  have al: "list_all aligned_command (merge_commands sorted)"
  proof (rule merge_commands_all)
    show "list_all aligned_command sorted"
      using aligned mset_eq_setD [OF perm] by (simp add: list_all_iff)
  qed (simp add: aligned_command_def widened_def)
  let ?n = "32 + total_len (merge_commands sorted)"
  have n: "?n < 2 ^ 32" using total len v(4) by simp
  let ?out = "stream_header aw ah k (of_nat ?n) d @ concat (map command_bytes (merge_commands sorted))"
  have out: "write_stream_header (replicate 32 0 @ concat (map command_bytes (merge_commands sorted))) aw ah
      (div_ceil_max1 aw) k (of_nat ?n) d 0 = Inr ?out"
    by (simp add: write_stream_header_eq)
  have merged: "merge_solid_color_row_bands bytes aw ah d
      = (if length cs < 2 \<or> length (filter is_solid (refs_of 32 cs)) < 2 then Inr bytes else Inr ?out)"
    using n out \<open>length ?rs = length cs\<close>
    by (simp add: merge_solid_color_row_bands_def refs loop rbind_ensure length_commands)
  have parse_out: "parse_owned_commands ?out = Inr (merge_commands sorted)"
    by (rule parse_built_stream [OF n total_len_aligned [OF al]])
  show ?thesis
  proof (cases "length cs < 2 \<or> length (filter is_solid (refs_of 32 cs)) < 2")
    case True
    then show ?thesis using merged parsed by auto
  next
    case False
    have "length ?out \<le> length bytes" using total len by (simp add: length_commands codec_simps)
    then show ?thesis using False merged parse_out perm by auto
  qed
qed

text \<open>C18. Merging solid colours keeps the picture. The stream has to parse, with its length field the number of its bytes
  and its atlas not larger than a vector can be; its commands have to be sound, with payloads of a multiple of four bytes, at
  least four for a solid one; and their atlas rectangles have to be pairwise disjoint, since merging reorders the commands. Then
  \<open>merge_solid_color_row_bands\<close> succeeds, its output is no longer than its input, and reconstructing the atlas from the
  merged stream gives exactly the atlas reconstructed from the original stream, byte for byte.\<close>

theorem merge_keeps_picture:
  assumes parsed: "parse_owned_commands (ts_bytes stream) = Inr cs" and ok: "stream_ok stream"
    and sound: "list_all (sound_command previous dw dh (ts_atlas_width stream) (ts_atlas_height stream)) cs"
    and well: "list_all aligned_command cs" "list_all solid_ok cs"
    and disjoint: "pairwise disjoint_rects (set cs)"
  shows "\<exists>out. merge_solid_color_row_bands (ts_bytes stream) (ts_atlas_width stream) (ts_atlas_height stream) d = Inr out
    \<and> length out \<le> length (ts_bytes stream)
    \<and> reconstruct_atlas_from_stream (stream\<lparr>ts_bytes := out, ts_byte_len := of_nat (length out)\<rparr>) previous dw dh
      = reconstruct_atlas_from_stream stream previous dw dh"
proof -
  let ?aw = "ts_atlas_width stream" let ?ah = "ts_atlas_height stream"
  obtain out cs' where out: "merge_solid_color_row_bands (ts_bytes stream) ?aw ?ah d = Inr out"
      "parse_owned_commands out = Inr cs'" "length out \<le> length (ts_bytes stream)"
    and cs': "cs' = cs \<or> (\<exists>sorted. mset sorted = mset cs \<and> cs' = merge_commands sorted)"
    using merge_output [OF parsed well(1)] by blast
  have same: "picture previous dw dh cs' = picture previous dw dh cs
      \<and> list_all (sound_command previous dw dh ?aw ?ah) cs' \<and> list_all solid_ok cs'"
    using cs'
  proof
    assume "\<exists>sorted. mset sorted = mset cs \<and> cs' = merge_commands sorted"
    then obtain sorted where perm: "mset sorted = mset cs" and m: "cs' = merge_commands sorted" by blast
    have set: "set sorted = set cs" by (rule mset_eq_setD [OF perm])
    have "list_all (sound_command previous dw dh ?aw ?ah) sorted" using sound set by (simp add: list_all_iff)
    moreover have "list_all solid_ok (merge_commands sorted)"
      by (rule merge_commands_all) (use well(2) set in \<open>auto simp: list_all_iff solid_ok_def widened_def\<close>)
    moreover have "foldl (blit_command previous dw dh) (\<lambda>_ _. [0, 0, 0, 0]) cs
        = foldl (blit_command previous dw dh) (\<lambda>_ _. [0, 0, 0, 0]) sorted"
      using disjoint by (intro picture_permuted [OF set [symmetric] sound]) (auto simp: pairwise_def)
    ultimately show ?thesis
      using merge_commands_sound [of previous dw dh ?aw ?ah sorted "\<lambda>_ _. [0, 0, 0, 0]"]
      by (simp add: m picture_def)
  qed (use sound well in simp)
  let ?st = "stream\<lparr>ts_bytes := out, ts_byte_len := of_nat (length out)\<rparr>"
  have "length out < 2 ^ 32" using out(2) by (simp add: parse_owned_commands_iff validate_basic_iff)
  then have ok': "stream_ok ?st" using ok by (simp add: stream_ok_def unat_of_nat_bound)
  have parsed': "parse_owned_commands (ts_bytes ?st) = Inr cs'" using out(2) by simp
  obtain a where a: "reconstruct_atlas_from_stream stream previous dw dh = Inr a" "atlas_ok (unat ?aw) (unat ?ah) a"
      "\<And>px py. px < unat ?aw \<Longrightarrow> py < unat ?ah \<Longrightarrow> image_of (unat ?aw) a px py = picture previous dw dh cs px py"
    using reconstruct_picture [OF parsed ok well(2), of previous dw dh] sound by auto
  obtain b where b: "reconstruct_atlas_from_stream ?st previous dw dh = Inr b" "atlas_ok (unat ?aw) (unat ?ah) b"
      "\<And>px py. px < unat ?aw \<Longrightarrow> py < unat ?ah \<Longrightarrow> image_of (unat ?aw) b px py = picture previous dw dh cs' px py"
    using reconstruct_picture [OF parsed' ok', of previous dw dh] same by auto
  have "b = a" by (rule image_ext [OF b(2) a(2)]) (use a(3) b(3) same in simp)
  then show ?thesis using out a b by auto
qed

theorem merge_keeps_picture_witness:
  "\<exists>out. merge_solid_color_row_bands (ts_bytes witness_stream) (ts_atlas_width witness_stream)
       (ts_atlas_height witness_stream) 2 = Inr out
    \<and> length out \<le> length (ts_bytes witness_stream)
    \<and> reconstruct_atlas_from_stream (witness_stream\<lparr>ts_bytes := out, ts_byte_len := of_nat (length out)\<rparr>) None 0 0
      = reconstruct_atlas_from_stream witness_stream None 0 0"
proof (rule merge_keeps_picture [OF witness_stream_parses witness_stream_ok witness_commands_sound])
  show "pairwise disjoint_rects (set [witness_command 0, witness_command 2])"
    by (simp add: pairwise_insert disjoint_rects_def witness_command_def oc_parts pack_xy_def
        push_bit_eq_mult drop_bit_eq_div)
qed (simp_all add: aligned_command_def solid_ok_def witness_command_def)

end
