(* ===== verification/Exact_Map.thy ===== *)
theory Exact_Map
  imports Tile_Stream
begin

text \<open>
  The map of exactly transmitted tiles that the tile command encoder keeps
  (\<open>talos_worker_helper/src/tile_commands.rs\<close>, \<open>TileCommandEncoder\<close>): one word per 32 by 32 cell of the
  desktop, non-zero when the reference picture of the viewer has the cell exactly. The Direct3D
  objects of the encoder are reduced to whether they exist. What Direct3D answers is a parameter of
  the operations, the record \<open>gpu\<close>: the result of each creation and the bytes of the mapped output.

  The specification is the set of exact pixels of the desktop that was last encoded: an exact
  command makes the pixels of its rectangle exact, any other command makes them inexact, and
  without a usable reference the set starts empty. Along every run of the encoder the map is
  sound: a marked cell has only exact pixels.
\<close>

unbundle bit_operations_syntax

section \<open>State and operations\<close>























section \<open>Invariant\<close>



section \<open>Exact pixels\<close>




























section \<open>Runs of the encoder\<close>






















section \<open>Properties of the exact map\<close>

















end
