(* ===== verification/Atlas.thy ===== *)
theory Atlas
  imports Tile_Commands "HOL-Library.Multiset" "HOL-Library.Product_Lexorder"
begin

text \<open>
  The geometry of the capture atlas (\<open>talos_worker_helper/src/atlas.rs\<close>): merging dirty rectangles,
  splitting them to the texture limit, packing them on shelves and cutting them into tiles. All
  coordinates are \<open>u32\<close>; a subtraction that the source leaves unchecked is the wrapping one.
  Areas are \<open>u64\<close> values, kept as numbers with the saturation written out.

  The specification of a rectangle is its set of pixels.
\<close>

section \<open>Data\<close>

record DirtyRect =
  dr_left :: u32
  dr_top :: u32
  dr_right :: u32
  dr_bottom :: u32

record RectU32 =
  ru_x :: u32
  ru_y :: u32
  ru_w :: u32
  ru_h :: u32

record PackedRect =
  pr_source :: DirtyRect
  pr_atlas :: RectU32

record PackedAtlas =
  pa_width :: u32
  pa_height :: u32
  pa_rects :: "PackedRect list"

datatype atlas_error = AtlasWidthOverflow | AtlasExceedsLimit | AtlasTile "tile_error fault"

section \<open>Merging\<close>

definition rects_touch_or_overlap :: "DirtyRect \<Rightarrow> DirtyRect \<Rightarrow> bool" where
  "rects_touch_or_overlap a b \<longleftrightarrow>
     dr_left a \<le> dr_right b \<and> dr_left b \<le> dr_right a \<and> dr_top a \<le> dr_bottom b \<and> dr_top b \<le> dr_bottom a"

definition union_dirty_rect :: "DirtyRect \<Rightarrow> DirtyRect \<Rightarrow> DirtyRect" where
  "union_dirty_rect a b = \<lparr>dr_left = min (dr_left a) (dr_left b), dr_top = min (dr_top a) (dr_top b),
     dr_right = max (dr_right a) (dr_right b), dr_bottom = max (dr_bottom a) (dr_bottom b)\<rparr>"

definition dirty_rect_area :: "DirtyRect \<Rightarrow> nat" where
  "dirty_rect_area r = unat (saturating_sub (dr_right r) (dr_left r)) * unat (saturating_sub (dr_bottom r) (dr_top r))"

definition should_merge_dirty_rects :: "DirtyRect \<Rightarrow> DirtyRect \<Rightarrow> bool" where
  "should_merge_dirty_rects a b =
     (if \<not> rects_touch_or_overlap a b then False
      else
        let combined_area = usize_saturating_add (dirty_rect_area a) (dirty_rect_area b);
            union = union_dirty_rect a b;
            union_area = dirty_rect_area union in
        usize_saturating_mul union_area 4 \<le> usize_saturating_mul combined_area 5)"

text \<open>\<open>iter().position\<close> and \<open>Vec::swap_remove\<close>.\<close>

fun position :: "('a \<Rightarrow> bool) \<Rightarrow> 'a list \<Rightarrow> nat option" where
  "position P [] = None"
| "position P (x # xs) = (if P x then Some 0 else map_option Suc (position P xs))"

definition swap_remove :: "nat \<Rightarrow> 'a list \<Rightarrow> 'a \<times> 'a list" where
  "swap_remove i xs = (xs ! i, butlast (xs[i := last xs]))"

lemma position_Some: "position P xs = Some i \<Longrightarrow> i < length xs \<and> P (xs ! i)"
  by (induction xs arbitrary: i) (auto split: if_splits)

lemma position_None: "position P xs = None \<longleftrightarrow> (\<forall>x\<in>set xs. \<not> P x)"
  by (induction xs) (auto split: if_splits)

lemma swap_remove_mset: "i < length xs \<Longrightarrow> add_mset (xs ! i) (mset (snd (swap_remove i xs))) = mset xs"
proof -
  assume i: "i < length xs"
  define ys where "ys = butlast xs"
  have xs: "xs = ys @ [last xs]" using i unfolding ys_def by (metis append_butlast_last_id length_0_conv not_less0)
  show ?thesis
  proof (cases "i = length ys")
    case True
    then have "xs[i := last xs] = xs" using xs by (metis list_update_id nth_append_length)
    then show ?thesis using True xs by (simp add: swap_remove_def ys_def [symmetric])
        (metis mset.simps(1,2) mset_append nth_append_length union_commute add_mset_add_single)
  next
    case False
    then have i': "i < length ys" using i xs by (metis length_append_singleton less_antisym)
    have upd: "xs[i := last xs] = ys[i := last xs] @ [last xs]"
      using i' xs by (metis list_update_append1)
    have nth: "xs ! i = ys ! i" using i' xs by (metis nth_append)
    have "add_mset (ys ! i) (mset (ys[i := last xs])) = add_mset (last xs) (mset ys)"
      using i' by (simp add: mset_update)
    moreover have "mset xs = add_mset (last xs) (mset ys)" by (subst xs) simp
    ultimately show ?thesis by (simp add: swap_remove_def upd nth)
  qed
qed

lemma swap_remove_length: "i < length xs \<Longrightarrow> Suc (length (snd (swap_remove i xs))) = length xs"
  by (simp add: swap_remove_def)

text \<open>The inner \<open>while let\<close>: \<open>pending\<close> absorbs rectangles of \<open>merged\<close> until none qualifies.\<close>

function absorb_pending :: "DirtyRect list \<Rightarrow> DirtyRect \<Rightarrow> DirtyRect list \<times> DirtyRect" where
  "absorb_pending merged pending =
     (case position (\<lambda>existing. should_merge_dirty_rects existing pending) merged of
        None \<Rightarrow> (merged, pending)
      | Some index \<Rightarrow>
          absorb_pending (snd (swap_remove index merged))
            (union_dirty_rect (fst (swap_remove index merged)) pending))"
  by pat_completeness auto
termination
  by (relation "measure (\<lambda>(merged, _). length merged)")
    (auto dest!: position_Some simp: Suc_le_eq [symmetric] swap_remove_length)

declare absorb_pending.simps [simp del]

definition rect_sort_key :: "DirtyRect \<Rightarrow> u32 \<times> u32 \<times> u32 \<times> u32" where
  "rect_sort_key r = (dr_top r, dr_left r, dr_bottom r, dr_right r)"

definition coalesce_step :: "DirtyRect list \<Rightarrow> DirtyRect \<Rightarrow> DirtyRect list" where
  "coalesce_step merged rect = (case absorb_pending merged rect of (merged, pending) \<Rightarrow> merged @ [pending])"

definition coalesce_dirty_rects :: "DirtyRect list \<Rightarrow> DirtyRect list" where
  "coalesce_dirty_rects rects =
     sort_key rect_sort_key (foldl coalesce_step [] (sort_key rect_sort_key rects))"

section \<open>Splitting\<close>

text \<open>The two \<open>while\<close> loops; the measures are the rows and the columns left.\<close>

lemma step_measure:
  "(a :: u32) < b \<Longrightarrow> 0 < n \<Longrightarrow> unat b - unat (min (saturating_add a n) b) < unat b - unat a"
proof -
  assume ab: "a < b" and n: "0 < n"
  have "unat (saturating_add a n) > unat a"
    using n ab unat_bound [of b] by (auto simp: unat_saturating_add word_less_nat_alt)
  then have "unat a < unat (min (saturating_add a n) b)" using ab by (auto simp: min_def word_less_nat_alt)
  then show ?thesis using ab by (simp add: word_less_nat_alt)
qed

function split_columns :: "u32 \<Rightarrow> u32 \<Rightarrow> u32 \<Rightarrow> u32 \<Rightarrow> u32 \<Rightarrow> DirtyRect list" where
  "split_columns limit row_top row_bottom left right_end =
     (if left < right_end \<and> 0 < limit then
        let right = min (saturating_add left limit) right_end in
        \<lparr>dr_left = left, dr_top = row_top, dr_right = right, dr_bottom = row_bottom\<rparr>
          # split_columns limit row_top row_bottom right right_end
      else [])"
  by pat_completeness auto
termination
  by (relation "measure (\<lambda>(_, _, _, left, right_end). unat right_end - unat left)")
    (auto intro: step_measure)

function split_rows :: "u32 \<Rightarrow> DirtyRect \<Rightarrow> u32 \<Rightarrow> DirtyRect list" where
  "split_rows limit rect row_top =
     (if row_top < dr_bottom rect \<and> 0 < limit then
        let row_bottom = min (saturating_add row_top limit) (dr_bottom rect) in
        split_columns limit row_top row_bottom (dr_left rect) (dr_right rect) @ split_rows limit rect row_bottom
      else [])"
  by pat_completeness auto
termination
  by (relation "measure (\<lambda>(_, rect, row_top). unat (dr_bottom rect) - unat row_top)")
    (auto intro: step_measure)

declare split_columns.simps [simp del] split_rows.simps [simp del]

text \<open>The limit is at least one, so the extra condition \<open>0 < limit\<close> above, which makes the
  definitions total, always holds.\<close>

definition split_rects_to_texture_limit :: "DirtyRect list \<Rightarrow> u32 \<Rightarrow> DirtyRect list" where
  "split_rects_to_texture_limit rects texture_size_limit =
     (let limit = max texture_size_limit 1 in concat (map (\<lambda>rect. split_rows limit rect (dr_top rect)) rects))"

section \<open>Packing\<close>

definition div_ceil_tile :: "u32 \<Rightarrow> u32" where
  "div_ceil_tile v = of_nat ((unat v + 31) div 32)"

definition align_to_tile :: "u32 \<Rightarrow> u32" where
  "align_to_tile v = saturating_mul (div_ceil_tile v) TILE_SIZE"

record shelf_state =
  sh_x :: u32
  sh_y :: u32
  sh_row_height :: u32
  sh_packed :: "PackedRect list"

definition shelf_step :: "u32 \<Rightarrow> shelf_state \<Rightarrow> DirtyRect \<Rightarrow> shelf_state" where
  "shelf_step atlas_width s rect =
     (let width = dr_right rect - dr_left rect;
          height = dr_bottom rect - dr_top rect;
          packed_width = align_to_tile width;
          packed_height = align_to_tile height;
          s = (if sh_x s > 0 \<and> saturating_add (sh_x s) packed_width > atlas_width
               then s\<lparr>sh_x := 0, sh_y := saturating_add (sh_y s) (sh_row_height s), sh_row_height := 0\<rparr>
               else s) in
      s\<lparr>sh_packed := sh_packed s @
           [\<lparr>pr_source = rect, pr_atlas = \<lparr>ru_x = sh_x s, ru_y = sh_y s, ru_w = width, ru_h = height\<rparr>\<rparr>],
        sh_x := saturating_add (sh_x s) packed_width,
        sh_row_height := max (sh_row_height s) packed_height\<rparr>)"

definition atlas_width_sum :: "DirtyRect list \<Rightarrow> atlas_error + u32" where
  "atlas_width_sum rects =
     try_fold (\<lambda>sum rect. ok_or AtlasWidthOverflow
       (checked_add sum (align_to_tile (saturating_sub (dr_right rect) (dr_left rect))))) 0 rects"

definition pack_shelf :: "DirtyRect list \<Rightarrow> u32 \<Rightarrow> atlas_error + PackedAtlas" where
  "pack_shelf rects texture_size_limit =
     rbind (atlas_width_sum rects) (\<lambda>sum.
       let atlas_width = max (min sum texture_size_limit) 1;
           s = foldl (shelf_step atlas_width) \<lparr>sh_x = 0, sh_y = 0, sh_row_height = 0, sh_packed = []\<rparr> rects in
       Inr \<lparr>pa_width = atlas_width, pa_height = max (saturating_add (sh_y s) (sh_row_height s)) 1,
            pa_rects = sh_packed s\<rparr>)"

section \<open>Tiles\<close>

definition tile_descriptor :: "PackedRect \<Rightarrow> u32 \<Rightarrow> u32 \<Rightarrow> nat \<Rightarrow> nat \<Rightarrow> TileCommandTile tile_result" where
  "tile_descriptor rect width height tile_y tile_x =
     (let y_offset = of_nat tile_y * TILE_SIZE;
          tile_height = min TILE_SIZE (height - y_offset);
          x_offset = of_nat tile_x * TILE_SIZE;
          tile_width = min TILE_SIZE (width - x_offset) in
      TileCommandTile_new (ru_x (pr_atlas rect) + x_offset) (ru_y (pr_atlas rect) + y_offset)
        (dr_left (pr_source rect) + x_offset) (dr_top (pr_source rect) + y_offset) tile_width tile_height)"

definition rect_descriptors :: "PackedRect \<Rightarrow> TileCommandTile list tile_result" where
  "rect_descriptors rect =
     (let width = dr_right (pr_source rect) - dr_left (pr_source rect);
          height = dr_bottom (pr_source rect) - dr_top (pr_source rect);
          tiles_x = unat (div_ceil_tile width);
          tiles_y = unat (div_ceil_tile height) in
      try_map (\<lambda>(tile_y, tile_x). tile_descriptor rect width height tile_y tile_x)
        (List.product [0..<tiles_y] [0..<tiles_x]))"

definition build_tile_command_descriptors :: "PackedRect list \<Rightarrow> TileCommandTile list tile_result" where
  "build_tile_command_descriptors rects = rbind (try_map rect_descriptors rects) (\<lambda>ds. Inr (concat ds))"

section \<open>Planning an atlas\<close>

text \<open>The texture limit of a device by its feature level; the five levels are constants of the
  Direct3D headers.\<close>

definition max_texture_size_for_device :: "int \<Rightarrow> int \<Rightarrow> int \<Rightarrow> int \<Rightarrow> int \<Rightarrow> int \<Rightarrow> u32" where
  "max_texture_size_for_device level_11_0 level_10_0 level_9_3 level_9_2 level_9_1 feature_level =
     (if feature_level \<ge> level_11_0 then 16384
      else if feature_level \<ge> level_10_0 then 8192
      else if feature_level \<ge> level_9_3 then 4096
      else if feature_level \<ge> level_9_2 then 2048
      else if feature_level \<ge> level_9_1 then 2048
      else 2048)"

definition rect_in_frame :: "u32 \<Rightarrow> u32 \<Rightarrow> DirtyRect \<Rightarrow> bool" where
  "rect_in_frame frame_width frame_height rect \<longleftrightarrow>
     dr_right rect > dr_left rect \<and> dr_bottom rect > dr_top rect
     \<and> dr_right rect \<le> frame_width \<and> dr_bottom rect \<le> frame_height"

definition full_frame :: "u32 \<Rightarrow> u32 \<Rightarrow> DirtyRect" where
  "full_frame w h = \<lparr>dr_left = 0, dr_top = 0, dr_right = w, dr_bottom = h\<rparr>"

text \<open>The part of \<open>copy_dirty_rects_to_compact_atlas\<close> that decides what is copied where: from the dirty
  rectangles to the packed atlas. \<open>Inr None\<close> is the early return with nothing to copy; the flag says
  that the atlas overflowed and the full frame was packed instead.\<close>

definition plan_atlas ::
    "u32 \<Rightarrow> u32 \<Rightarrow> DirtyRect list \<Rightarrow> bool \<Rightarrow> u32 \<Rightarrow> atlas_error + (PackedAtlas \<times> bool) option" where
  "plan_atlas frame_width frame_height dirty_rects force_full_frame texture_size_limit =
     (let source_rects = (if force_full_frame then [full_frame frame_width frame_height] else dirty_rects);
          source_rects = filter (rect_in_frame frame_width frame_height) source_rects;
          source_rects = (if \<not> force_full_frame then coalesce_dirty_rects source_rects else source_rects);
          source_rects = split_rects_to_texture_limit source_rects texture_size_limit in
      if source_rects = [] then Inr None
      else
        rbind (pack_shelf source_rects texture_size_limit) (\<lambda>packed.
        rbind (if pa_width packed > texture_size_limit \<or> pa_height packed > texture_size_limit then
                 rbind (pack_shelf (split_rects_to_texture_limit [full_frame frame_width frame_height]
                          texture_size_limit) texture_size_limit) (\<lambda>packed. Inr (packed, True))
               else Inr (packed, False)) (\<lambda>(packed, overflowed).
        if pa_width packed \<le> texture_size_limit \<and> pa_height packed \<le> texture_size_limit
        then Inr (Some (packed, overflowed)) else Inl AtlasExceedsLimit)))"

end
