(* ===== verification/Atlas_Geometry.thy ===== *)
theory Atlas_Geometry
  imports Atlas
begin

text \<open>
  What the atlas geometry guarantees, in terms of pixels: merging covers every dirty pixel and
  leaves nothing to merge, splitting cuts a rectangle into disjoint pieces within the texture limit,
  packing gives every rectangle a slot of its own inside the atlas, and the tiles of a rectangle
  cover it. The contract of the steps that rewrite the list of rectangles is the locale
  \<open>region_step\<close>.
\<close>

section \<open>Pixels\<close>

definition pixels :: "DirtyRect \<Rightarrow> (nat \<times> nat) set" where
  "pixels r = {unat (dr_left r)..<unat (dr_right r)} \<times> {unat (dr_top r)..<unat (dr_bottom r)}"

definition region :: "DirtyRect list \<Rightarrow> (nat \<times> nat) set" where
  "region rs = \<Union> (pixels ` set rs)"

lemma region_simps [simp]:
  "region [] = {}" "region (r # rs) = pixels r \<union> region rs" "region (rs @ rs') = region rs \<union> region rs'"
  by (auto simp: region_def)

lemma region_set: "set rs = set rs' \<Longrightarrow> region rs = region rs'"
  by (simp add: region_def)

lemma unat_min: "unat (min a b) = min (unat a) (unat (b :: 'a::len word))"
  and unat_max: "unat (max a b) = max (unat a) (unat b)"
  by (auto simp: min_def max_def word_le_nat_alt)

locale region_step =
  fixes f :: "DirtyRect list \<Rightarrow> DirtyRect list"
  assumes keeps_pixels: "region rs \<subseteq> region (f rs)"
    and keeps_frame: "list_all (rect_in_frame w h) rs \<Longrightarrow> list_all (rect_in_frame w h) (f rs)"
begin

text \<open>Every pixel of the input is in a rectangle of the output that lies in the frame.\<close>

lemma step_covers:
  assumes "list_all (rect_in_frame w h) rs" and "p \<in> region rs"
  shows "\<exists>r\<in>set (f rs). p \<in> pixels r \<and> rect_in_frame w h r"
  using keeps_pixels [of rs] keeps_frame [OF assms(1)] assms(2)
  by (auto simp: region_def list_all_iff)

end

section \<open>Merging\<close>

lemma union_pixels: "pixels a \<subseteq> pixels (union_dirty_rect a b)" "pixels b \<subseteq> pixels (union_dirty_rect a b)"
  by (auto simp: pixels_def union_dirty_rect_def unat_min unat_max)

lemma union_in_frame:
  "rect_in_frame w h a \<Longrightarrow> rect_in_frame w h b \<Longrightarrow> rect_in_frame w h (union_dirty_rect a b)"
  by (auto simp: rect_in_frame_def union_dirty_rect_def min_def max_def)

lemma should_merge_commute: "should_merge_dirty_rects a b = should_merge_dirty_rects b a"
proof -
  have "union_dirty_rect a b = union_dirty_rect b a"
    by (simp add: union_dirty_rect_def min.commute max.commute)
  then show ?thesis
    by (auto simp: should_merge_dirty_rects_def rects_touch_or_overlap_def usize_saturating_add_def
        Let_def add.commute)
qed

text \<open>No two rectangles of a collection qualify for merging.\<close>

definition separated :: "DirtyRect multiset \<Rightarrow> bool" where
  "separated M \<longleftrightarrow> (\<forall>a b. {#a, b#} \<subseteq># M \<longrightarrow> \<not> should_merge_dirty_rects a b)"

lemma separated_add:
  assumes "separated M" and "\<And>x. x \<in># M \<Longrightarrow> \<not> should_merge_dirty_rects x p"
  shows "separated (add_mset p M)"
  unfolding separated_def
proof (intro allI impI)
  fix a b assume ab: "{#a, b#} \<subseteq># add_mset p M"
  consider "a = p" | "b = p" | "a \<noteq> p" "b \<noteq> p" by blast
  then show "\<not> should_merge_dirty_rects a b"
  proof cases
    case 1
    then have "{#b#} \<subseteq># M" using ab by simp
    then have "b \<in># M" by simp
    then show ?thesis using assms(2) 1 by (auto simp: should_merge_commute)
  next
    case 2
    then have "{#b#} + {#a#} \<subseteq># {#p#} + M" using ab by (simp add: add_mset_commute)
    then have "{#a#} \<subseteq># M" using 2 by (simp only: subset_mset.add_le_cancel_left)
    then have "a \<in># M" by simp
    then show ?thesis using assms(2) 2 by auto
  next
    case 3
    have "count {#a, b#} x \<le> count M x" for x
      using mset_subset_eq_count [OF ab, of x] 3 by (cases "x = p") simp_all
    then have "{#a, b#} \<subseteq># M" by (rule mset_subset_eqI)
    then show ?thesis using assms(1) by (auto simp: separated_def)
  qed
qed

lemma separated_mono: "separated M \<Longrightarrow> N \<subseteq># M \<Longrightarrow> separated N"
  unfolding separated_def by (meson subset_mset.order_trans)

lemma absorb_pending_spec:
  "absorb_pending merged pending = (m, p) \<Longrightarrow>
     region merged \<union> pixels pending \<subseteq> region m \<union> pixels p
   \<and> mset m \<subseteq># mset merged \<and> (\<forall>x\<in>set m. \<not> should_merge_dirty_rects x p)
   \<and> (list_all (rect_in_frame w h) merged \<longrightarrow> rect_in_frame w h pending \<longrightarrow>
        list_all (rect_in_frame w h) m \<and> rect_in_frame w h p)"
proof (induction merged pending rule: absorb_pending.induct)
  case (1 merged pending)
  show ?case
  proof (cases "position (\<lambda>existing. should_merge_dirty_rects existing pending) merged")
    case None
    then have "m = merged" "p = pending" using "1.prems" by (simp_all add: absorb_pending.simps [of merged])
    moreover have "\<forall>x\<in>set merged. \<not> should_merge_dirty_rects x pending"
      using None by (simp only: position_None)
    ultimately show ?thesis by simp
  next
    case (Some i)
    let ?rest = "snd (swap_remove i merged)" let ?r = "merged ! i"
    have i: "i < length merged" using position_Some [OF Some] by blast
    have ms: "add_mset ?r (mset ?rest) = mset merged" by (rule swap_remove_mset [OF i])
    have sets: "set merged = insert ?r (set ?rest)" using arg_cong [OF ms, of set_mset] by simp
    then have reg: "region merged = pixels ?r \<union> region ?rest" by (simp add: region_def)
    have call: "absorb_pending ?rest (union_dirty_rect ?r pending) = (m, p)"
      using "1.prems" Some by (simp add: absorb_pending.simps [of merged] swap_remove_def)
    have fst: "fst (swap_remove i merged) = ?r" by (simp add: swap_remove_def)
    note ih = "1.IH" [OF Some, unfolded fst, OF call]
    have "mset ?rest \<subseteq># mset merged" unfolding ms [symmetric] by simp
    then have "mset m \<subseteq># mset merged" using ih subset_mset.order_trans by blast
    moreover have "region merged \<union> pixels pending \<subseteq> region m \<union> pixels p"
      using ih reg union_pixels [of ?r pending] union_pixels [of pending ?r] by blast
    moreover have "list_all (rect_in_frame w h) merged \<longrightarrow> rect_in_frame w h pending \<longrightarrow>
        list_all (rect_in_frame w h) ?rest \<and> rect_in_frame w h (union_dirty_rect ?r pending)"
      using sets union_in_frame by (auto simp: list_all_iff)
    ultimately show ?thesis using ih by blast
  qed
qed

lemma coalesce_step_spec:
  "region merged \<union> pixels rect \<subseteq> region (coalesce_step merged rect)
   \<and> (separated (mset merged) \<longrightarrow> separated (mset (coalesce_step merged rect)))
   \<and> (list_all (rect_in_frame w h) merged \<longrightarrow> rect_in_frame w h rect \<longrightarrow>
        list_all (rect_in_frame w h) (coalesce_step merged rect))"
proof -
  obtain m p where call: "absorb_pending merged rect = (m, p)" by fastforce
  then have step: "coalesce_step merged rect = m @ [p]" by (simp add: coalesce_step_def)
  show ?thesis
    using absorb_pending_spec [OF call, of w h] separated_add [of "mset m" p]
      separated_mono [of "mset merged" "mset m"]
    by (simp add: step)
qed

lemma coalesce_foldl_spec:
  "region merged \<union> region rects \<subseteq> region (foldl coalesce_step merged rects)
   \<and> (separated (mset merged) \<longrightarrow> separated (mset (foldl coalesce_step merged rects)))
   \<and> (list_all (rect_in_frame w h) merged \<longrightarrow> list_all (rect_in_frame w h) rects \<longrightarrow>
        list_all (rect_in_frame w h) (foldl coalesce_step merged rects))"
proof (induction rects arbitrary: merged)
  case Nil
  show ?case by simp
next
  case (Cons r rects)
  show ?case
    using Cons.IH [of "coalesce_step merged r"] coalesce_step_spec [of merged r w h] by auto
qed

lemma separated_empty [simp]: "separated {#}"
  by (simp add: separated_def)

interpretation coalescing: region_step coalesce_dirty_rects
proof (unfold_locales, goal_cases)
  case (1 rs)
  show ?case
    using coalesce_foldl_spec [of "[]" "sort_key rect_sort_key rs"]
    by (auto simp: coalesce_dirty_rects_def region_def)
next
  case (2 w h rs)
  then show ?case
    using coalesce_foldl_spec [of "[]" "sort_key rect_sort_key rs" w h]
    by (auto simp: coalesce_dirty_rects_def list_all_iff)
qed

lemma coalesce_separated: "separated (mset (coalesce_dirty_rects rects))"
  using coalesce_foldl_spec [of "[]" "sort_key rect_sort_key rects"]
  by (simp add: coalesce_dirty_rects_def)

text \<open>Merging dirty rectangles loses no dirty pixel: every pixel of an input rectangle is in a
  merged rectangle, and when the inputs are proper rectangles inside the frame so is that rectangle.
  The result is a fixed point: no two rectangles of it touch or overlap so much that they would be
  merged.\<close>

theorem coalesce_covers_and_settles:
  assumes "list_all (rect_in_frame w h) rects"
  shows "(\<forall>p\<in>region rects. \<exists>r\<in>set (coalesce_dirty_rects rects). p \<in> pixels r \<and> rect_in_frame w h r)
    \<and> (\<forall>a b. {#a, b#} \<subseteq># mset (coalesce_dirty_rects rects) \<longrightarrow> \<not> should_merge_dirty_rects a b)"
  using coalescing.step_covers [OF assms] coalesce_separated [of rects]
  by (auto simp: separated_def)

definition witness_rects :: "DirtyRect list" where
  "witness_rects = [\<lparr>dr_left = 0, dr_top = 0, dr_right = 40, dr_bottom = 10\<rparr>,
     \<lparr>dr_left = 40, dr_top = 0, dr_right = 80, dr_bottom = 10\<rparr>,
     \<lparr>dr_left = 90, dr_top = 50, dr_right = 100, dr_bottom = 60\<rparr>]"

theorem coalesce_covers_and_settles_witness:
  "list_all (rect_in_frame 100 60) witness_rects
   \<and> (\<exists>r\<in>set (coalesce_dirty_rects witness_rects). (50, 5) \<in> pixels r \<and> rect_in_frame 100 60 r)"
proof -
  have ok: "list_all (rect_in_frame 100 60) witness_rects"
    by (simp add: witness_rects_def rect_in_frame_def)
  have "(50, 5) \<in> region witness_rects" by (simp add: witness_rects_def pixels_def)
  then show ?thesis using ok coalesce_covers_and_settles [OF ok] by blast
qed

section \<open>Splitting\<close>

definition piece_ok :: "u32 \<Rightarrow> DirtyRect \<Rightarrow> bool" where
  "piece_ok limit r \<longleftrightarrow> dr_left r < dr_right r \<and> dr_top r < dr_bottom r
     \<and> unat (dr_right r) - unat (dr_left r) \<le> unat limit \<and> unat (dr_bottom r) - unat (dr_top r) \<le> unat limit"

text \<open>The end of a cut: strictly past its start, at most the limit away and not past the end.\<close>

lemma cut_bounds:
  assumes "(a :: u32) < b" and "0 < limit"
  defines "c \<equiv> min (saturating_add a limit) b"
  shows "unat a < unat c" "unat c \<le> unat b" "unat c - unat a \<le> unat limit"
  using assms unat_bound [of b] by (auto simp: c_def unat_min unat_saturating_add word_less_nat_alt)

lemma split_columns_spec:
  assumes "row_top < row_bottom" and "unat row_bottom - unat row_top \<le> unat limit" and "0 < limit"
  shows "region (split_columns limit row_top row_bottom left right_end)
      = {unat left..<unat right_end} \<times> {unat row_top..<unat row_bottom}
    \<and> list_all (piece_ok limit) (split_columns limit row_top row_bottom left right_end)
    \<and> sorted_wrt (\<lambda>a b. pixels a \<inter> pixels b = {}) (split_columns limit row_top row_bottom left right_end)"
  using assms
proof (induction limit row_top row_bottom left right_end rule: split_columns.induct)
  case (1 limit row_top row_bottom left right_end)
  show ?case
  proof (cases "left < right_end")
    case False
    then show ?thesis
      by (subst (1 2 3) split_columns.simps) (auto simp: word_less_nat_alt)
  next
    case True
    define right where "right = min (saturating_add left limit) right_end"
    note cut = cut_bounds [OF True \<open>0 < limit\<close>, folded right_def]
    let ?p = "\<lparr>dr_left = left, dr_top = row_top, dr_right = right, dr_bottom = row_bottom\<rparr>"
    let ?rest = "split_columns limit row_top row_bottom right right_end"
    have step: "split_columns limit row_top row_bottom left right_end = ?p # ?rest"
      using True "1.prems" by (subst split_columns.simps) (simp add: right_def Let_def)
    note ih = "1.IH" [of right, OF _ right_def "1.prems"]
    have ih: "region ?rest = {unat right..<unat right_end} \<times> {unat row_top..<unat row_bottom}"
      "list_all (piece_ok limit) ?rest" "sorted_wrt (\<lambda>a b. pixels a \<inter> pixels b = {}) ?rest"
      using ih True "1.prems" by auto
    have "{unat left..<unat right_end} = {unat left..<unat right} \<union> {unat right..<unat right_end}"
      using cut by auto
    then have "region (?p # ?rest) = {unat left..<unat right_end} \<times> {unat row_top..<unat row_bottom}"
      using ih(1) by (auto simp: pixels_def)
    moreover have "piece_ok limit ?p"
      using cut "1.prems" by (simp add: piece_ok_def word_less_nat_alt)
    moreover have "pixels ?p \<inter> region ?rest = {}" using ih(1) by (auto simp: pixels_def)
    then have "\<forall>q\<in>set ?rest. pixels ?p \<inter> pixels q = {}" by (auto simp: region_def)
    ultimately show ?thesis using ih by (simp add: step)
  qed
qed

lemma split_rows_spec:
  assumes "0 < limit"
  shows "region (split_rows limit rect row_top)
      = {unat (dr_left rect)..<unat (dr_right rect)} \<times> {unat row_top..<unat (dr_bottom rect)}
    \<and> list_all (piece_ok limit) (split_rows limit rect row_top)
    \<and> sorted_wrt (\<lambda>a b. pixels a \<inter> pixels b = {}) (split_rows limit rect row_top)"
  using assms
proof (induction limit rect row_top rule: split_rows.induct)
  case (1 limit rect row_top)
  show ?case
  proof (cases "row_top < dr_bottom rect")
    case False
    then show ?thesis by (subst (1 2 3) split_rows.simps) (auto simp: word_less_nat_alt)
  next
    case True
    define row_bottom where "row_bottom = min (saturating_add row_top limit) (dr_bottom rect)"
    note cut = cut_bounds [OF True \<open>0 < limit\<close>, folded row_bottom_def]
    let ?cs = "split_columns limit row_top row_bottom (dr_left rect) (dr_right rect)"
    let ?rest = "split_rows limit rect row_bottom"
    have step: "split_rows limit rect row_top = ?cs @ ?rest"
      using True "1.prems" by (subst split_rows.simps) (simp add: row_bottom_def Let_def)
    have cs: "region ?cs = {unat (dr_left rect)..<unat (dr_right rect)} \<times> {unat row_top..<unat row_bottom}"
        "list_all (piece_ok limit) ?cs" "sorted_wrt (\<lambda>a b. pixels a \<inter> pixels b = {}) ?cs"
      using split_columns_spec [of row_top row_bottom limit "dr_left rect" "dr_right rect"] cut "1.prems"
      by (simp_all add: word_less_nat_alt)
    have ih: "region ?rest = {unat (dr_left rect)..<unat (dr_right rect)} \<times> {unat row_bottom..<unat (dr_bottom rect)}"
        "list_all (piece_ok limit) ?rest" "sorted_wrt (\<lambda>a b. pixels a \<inter> pixels b = {}) ?rest"
      using "1.IH" [of row_bottom] True "1.prems" by (auto simp: row_bottom_def)
    have "{unat row_top..<unat (dr_bottom rect)} = {unat row_top..<unat row_bottom} \<union> {unat row_bottom..<unat (dr_bottom rect)}"
      using cut by auto
    then have "region (?cs @ ?rest) = {unat (dr_left rect)..<unat (dr_right rect)} \<times> {unat row_top..<unat (dr_bottom rect)}"
      using cs(1) ih(1) by auto
    moreover have "region ?cs \<inter> region ?rest = {}" using cs(1) ih(1) by auto
    then have "\<forall>a\<in>set ?cs. \<forall>b\<in>set ?rest. pixels a \<inter> pixels b = {}" by (auto simp: region_def)
    ultimately show ?thesis using cs ih by (simp add: step sorted_wrt_append)
  qed
qed

lemma one_limit: "0 < max limit (1 :: u32)"
  by (auto simp: max_def word_less_nat_alt word_le_nat_alt)

lemma split_region: "region (split_rects_to_texture_limit rects limit) = region rects"
proof (induction rects)
  case (Cons r rects)
  have "region (split_rows (max limit 1) r (dr_top r)) = pixels r"
    using split_rows_spec [OF one_limit, of limit r "dr_top r"] by (simp add: pixels_def)
  then show ?case using Cons by (simp add: split_rects_to_texture_limit_def Let_def)
qed (simp add: split_rects_to_texture_limit_def)

lemma split_pieces: "list_all (piece_ok (max limit 1)) (split_rects_to_texture_limit rects limit)"
  using split_rows_spec [OF one_limit, of limit]
  by (auto simp: split_rects_to_texture_limit_def Let_def list_all_iff)

text \<open>A rectangle with a pixel in it is in the frame when its pixels are.\<close>

lemma in_frame_pixels:
  assumes "dr_left r < dr_right r" "dr_top r < dr_bottom r"
  shows "rect_in_frame w h r \<longleftrightarrow> pixels r \<subseteq> {0..<unat w} \<times> {0..<unat h}"
proof -
  have "unat (dr_left r) < unat (dr_right r)" "unat (dr_top r) < unat (dr_bottom r)"
    using assms by (simp_all add: word_less_nat_alt)
  then have "pixels r \<subseteq> {0..<unat w} \<times> {0..<unat h} \<longleftrightarrow> unat (dr_right r) \<le> unat w \<and> unat (dr_bottom r) \<le> unat h"
    by (auto simp: pixels_def Sigma_mono times_subset_iff)
  then show ?thesis using assms by (simp add: rect_in_frame_def word_le_nat_alt)
qed

interpretation splitting: region_step "\<lambda>rects. split_rects_to_texture_limit rects limit" for limit
proof (unfold_locales, goal_cases)
  case (1 rs)
  show ?case by (simp add: split_region)
next
  case (2 w h rs)
  have "\<forall>r\<in>set rs. pixels r \<subseteq> {0..<unat w} \<times> {0..<unat h}"
    using 2 in_frame_pixels by (metis list_all_iff rect_in_frame_def)
  then have "region rs \<subseteq> {0..<unat w} \<times> {0..<unat h}" by (auto simp: region_def)
  then have "\<forall>r\<in>set (split_rects_to_texture_limit rs limit). pixels r \<subseteq> {0..<unat w} \<times> {0..<unat h}"
    unfolding split_region [of rs limit, symmetric] by (auto simp: region_def)
  then show ?case
    using split_pieces [of limit rs] in_frame_pixels by (auto simp: list_all_iff piece_ok_def)
qed

text \<open>Splitting keeps exactly the pixels of its input, and cuts them into rectangles that are not
  empty and at most the texture limit wide and high; the pieces of one rectangle are pairwise
  disjoint.\<close>

theorem split_exact:
  assumes "0 < limit"
  shows "region (split_rects_to_texture_limit rects limit) = region rects
    \<and> list_all (piece_ok limit) (split_rects_to_texture_limit rects limit)
    \<and> sorted_wrt (\<lambda>a b. pixels a \<inter> pixels b = {}) (split_rects_to_texture_limit [rect] limit)"
proof -
  have limit: "max limit 1 = limit"
    using assms by (intro max.absorb1) (simp add: word_less_nat_alt word_le_nat_alt)
  then show ?thesis
    using split_region [of rects limit] split_pieces [of limit rects, unfolded limit] split_rows_spec [OF assms, of rect]
    by (simp add: split_rects_to_texture_limit_def)
qed

theorem split_exact_witness:
  "region (split_rects_to_texture_limit [full_frame 5 3] 2) = pixels (full_frame 5 3)
   \<and> list_all (piece_ok 2) (split_rects_to_texture_limit [full_frame 5 3] 2)
   \<and> sorted_wrt (\<lambda>a b. pixels a \<inter> pixels b = {}) (split_rects_to_texture_limit [full_frame 5 3] 2)"
  using split_exact [of 2 "[full_frame 5 3]" "full_frame 5 3"] by simp

section \<open>Packing\<close>

text \<open>The tile-aligned slot of a packed rectangle.\<close>

definition align32 :: "nat \<Rightarrow> nat" where
  "align32 n = 32 * ((n + 31) div 32)"

definition slot_right :: "PackedRect \<Rightarrow> nat" where
  "slot_right p = unat (ru_x (pr_atlas p)) + align32 (unat (ru_w (pr_atlas p)))"

definition slot_bottom :: "PackedRect \<Rightarrow> nat" where
  "slot_bottom p = unat (ru_y (pr_atlas p)) + align32 (unat (ru_h (pr_atlas p)))"

definition slot :: "PackedRect \<Rightarrow> (nat \<times> nat) set" where
  "slot p = {unat (ru_x (pr_atlas p))..<slot_right p} \<times> {unat (ru_y (pr_atlas p))..<slot_bottom p}"

lemma align32_ge: "n \<le> align32 n"
  by (simp add: align32_def)

lemma align32_pos: "0 < n \<Longrightarrow> 0 < align32 n"
  using align32_ge [of n] by linarith

lemma align32_le: "n \<le> 32 * k \<Longrightarrow> align32 n \<le> 32 * k"
  by (simp add: align32_def)

lemma unat_align_to_tile: "align32 (unat v) < 2 ^ 32 \<Longrightarrow> unat (align_to_tile v) = align32 (unat v)"
proof -
  assume fits: "align32 (unat v) < 2 ^ 32"
  then have "(unat v + 31) div 32 < 2 ^ 32" by (simp add: align32_def)
  then have "unat (div_ceil_tile v) = (unat v + 31) div 32"
    by (simp add: div_ceil_tile_def unat_of_nat)
  then show ?thesis
    using fits by (simp add: align_to_tile_def saturating_mul_def TILE_SIZE_def align32_def mult.commute
        unat_word_ariths unat_of_nat)
qed

text \<open>A rectangle that packs at a texture limit: what the splitting gives, when the limit is a
  multiple of the tile size.\<close>

lemma piece_sizes:
  assumes "piece_ok limit r" and "32 dvd unat limit"
  shows "unat (dr_right r - dr_left r) = unat (dr_right r) - unat (dr_left r)"
    "unat (dr_bottom r - dr_top r) = unat (dr_bottom r) - unat (dr_top r)"
    "unat (align_to_tile (dr_right r - dr_left r)) = align32 (unat (dr_right r - dr_left r))"
    "unat (align_to_tile (dr_bottom r - dr_top r)) = align32 (unat (dr_bottom r - dr_top r))"
    "align32 (unat (dr_right r - dr_left r)) \<le> unat limit"
    "0 < unat (dr_right r - dr_left r)"
proof -
  show w: "unat (dr_right r - dr_left r) = unat (dr_right r) - unat (dr_left r)"
    and h: "unat (dr_bottom r - dr_top r) = unat (dr_bottom r) - unat (dr_top r)"
    using assms(1) by (simp_all add: piece_ok_def unat_sub order_less_imp_le)
  obtain k where k: "unat limit = 32 * k" using assms(2) by blast
  have "align32 (unat (dr_right r - dr_left r)) \<le> unat limit" "align32 (unat (dr_bottom r - dr_top r)) \<le> unat limit"
    using assms(1) align32_le [of _ k] unfolding w h piece_ok_def k by auto
  then show "unat (align_to_tile (dr_right r - dr_left r)) = align32 (unat (dr_right r - dr_left r))"
    "unat (align_to_tile (dr_bottom r - dr_top r)) = align32 (unat (dr_bottom r - dr_top r))"
    "align32 (unat (dr_right r - dr_left r)) \<le> unat limit"
    using unat_bound [of limit] by (auto intro!: unat_align_to_tile)
  show "0 < unat (dr_right r - dr_left r)" using assms(1) by (simp add: w piece_ok_def word_less_nat_alt)
qed

text \<open>The invariant of the packing loop: the slots are disjoint and within the rows used so far, and a
  slot that reaches into the current row ends left of the next free column.\<close>

definition shelf_inv :: "u32 \<Rightarrow> shelf_state \<Rightarrow> bool" where
  "shelf_inv atlas_width s \<longleftrightarrow>
     unat (sh_x s) \<le> unat atlas_width
     \<and> list_all (\<lambda>p. slot_right p \<le> unat atlas_width \<and> slot_bottom p \<le> unat (sh_y s) + unat (sh_row_height s)
          \<and> (slot_bottom p \<le> unat (sh_y s) \<or> slot_right p \<le> unat (sh_x s))) (sh_packed s)
     \<and> sorted_wrt (\<lambda>p q. slot p \<inter> slot q = {}) (sh_packed s)"

text \<open>The rows have run past the range of \<open>u32\<close>, where the additions saturate. Then the atlas is far
  above any texture limit and stays so.\<close>

definition shelf_full :: "shelf_state \<Rightarrow> bool" where
  "shelf_full s \<longleftrightarrow> 2 ^ 32 - 1 \<le> unat (sh_y s) + unat (sh_row_height s)"

definition next_row :: "shelf_state \<Rightarrow> shelf_state" where
  "next_row s = s\<lparr>sh_x := 0, sh_y := saturating_add (sh_y s) (sh_row_height s), sh_row_height := 0\<rparr>"

definition place :: "DirtyRect \<Rightarrow> shelf_state \<Rightarrow> shelf_state" where
  "place rect s = s\<lparr>sh_packed := sh_packed s @
       [\<lparr>pr_source = rect, pr_atlas = \<lparr>ru_x = sh_x s, ru_y = sh_y s,
          ru_w = dr_right rect - dr_left rect, ru_h = dr_bottom rect - dr_top rect\<rparr>\<rparr>],
     sh_x := saturating_add (sh_x s) (align_to_tile (dr_right rect - dr_left rect)),
     sh_row_height := max (sh_row_height s) (align_to_tile (dr_bottom rect - dr_top rect))\<rparr>"

definition needs_row :: "u32 \<Rightarrow> shelf_state \<Rightarrow> DirtyRect \<Rightarrow> bool" where
  "needs_row atlas_width s rect \<longleftrightarrow>
     sh_x s > 0 \<and> saturating_add (sh_x s) (align_to_tile (dr_right rect - dr_left rect)) > atlas_width"

lemma shelf_step_split:
  "shelf_step atlas_width s rect = place rect (if needs_row atlas_width s rect then next_row s else s)"
  by (simp add: shelf_step_def place_def next_row_def needs_row_def Let_def)

lemma shelf_full_mono: "shelf_full s \<Longrightarrow> shelf_full (shelf_step atlas_width s rect)"
  by (auto simp: shelf_step_split place_def next_row_def shelf_full_def unat_max unat_saturating_add)

lemma shelf_full_foldl: "shelf_full s \<Longrightarrow> shelf_full (foldl (shelf_step atlas_width) s rects)"
  by (induction rects arbitrary: s) (auto intro: shelf_full_mono)

lemma next_row_inv: "shelf_inv aw s \<Longrightarrow> \<not> shelf_full s \<Longrightarrow> shelf_inv aw (next_row s) \<and> \<not> shelf_full (next_row s)"
  by (auto simp: shelf_inv_def shelf_full_def next_row_def unat_saturating_add list_all_iff min_def)

lemma place_inv:
  assumes inv: "shelf_inv aw s" and r: "piece_ok limit r" "32 dvd unat limit"
    and fits: "unat (sh_x s) + align32 (unat (dr_right r - dr_left r)) \<le> unat aw"
  shows "shelf_inv aw (place r s)"
proof -
  note sz = piece_sizes [OF r]
  have x: "unat (saturating_add (sh_x s) (align_to_tile (dr_right r - dr_left r)))
      = unat (sh_x s) + align32 (unat (dr_right r - dr_left r))"
    using fits unat_bound [of aw] by (simp add: unat_saturating_add sz)
  let ?p = "\<lparr>pr_source = r, pr_atlas = \<lparr>ru_x = sh_x s, ru_y = sh_y s,
          ru_w = dr_right r - dr_left r, ru_h = dr_bottom r - dr_top r\<rparr>\<rparr>"
  have "\<forall>q\<in>set (sh_packed s). slot q \<inter> slot ?p = {}"
    using inv by (fastforce simp: shelf_inv_def list_all_iff slot_def)
  then have "sorted_wrt (\<lambda>p q. slot p \<inter> slot q = {}) (sh_packed (place r s))"
    using inv by (simp add: shelf_inv_def place_def sorted_wrt_append)
  moreover have "slot_right ?p = unat (sh_x (place r s))"
      "slot_bottom ?p \<le> unat (sh_y (place r s)) + unat (sh_row_height (place r s))"
    using x sz(4) by (simp_all add: slot_right_def slot_bottom_def place_def unat_max)
  moreover have "unat (sh_x s) \<le> unat (sh_x (place r s))" "sh_y (place r s) = sh_y s"
      "unat (sh_row_height s) \<le> unat (sh_row_height (place r s))"
      "unat (sh_x (place r s)) \<le> unat aw"
    using x fits by (simp_all add: place_def unat_max)
  moreover have "sh_packed (place r s) = sh_packed s @ [?p]" by (simp add: place_def)
  ultimately show ?thesis using inv by (fastforce simp: shelf_inv_def list_all_iff)
qed

lemma shelf_step_inv:
  assumes inv: "shelf_inv aw s" "\<not> shelf_full s" and r: "piece_ok limit r" "32 dvd unat limit"
    and w: "align32 (unat (dr_right r - dr_left r)) \<le> unat aw" and aw: "unat aw < 2 ^ 32 - 1"
  shows "shelf_inv aw (shelf_step aw s r)"
proof (cases "needs_row aw s r")
  case True
  then show ?thesis
    using next_row_inv [OF inv] w place_inv [OF _ r, of aw "next_row s"]
    by (simp add: shelf_step_split next_row_def)
next
  case False
  have "unat (sh_x s) + align32 (unat (dr_right r - dr_left r)) \<le> unat aw"
  proof (cases "sh_x s = 0")
    case True
    then show ?thesis using w by simp
  next
    case x: False
    then have "saturating_add (sh_x s) (align_to_tile (dr_right r - dr_left r)) \<le> aw"
      using False by (simp add: needs_row_def word_gt_0)
    then show ?thesis
      using aw piece_sizes(3) [OF r] by (auto simp: word_le_nat_alt unat_saturating_add)
  qed
  then show ?thesis using False place_inv [OF inv(1) r] by (simp add: shelf_step_split)
qed

lemma shelf_foldl_inv:
  assumes "shelf_inv aw s \<or> shelf_full s" and "list_all (piece_ok limit) rects" and "32 dvd unat limit"
    and "\<forall>r\<in>set rects. align32 (unat (dr_right r - dr_left r)) \<le> unat aw" and "unat aw < 2 ^ 32 - 1"
  shows "shelf_inv aw (foldl (shelf_step aw) s rects) \<or> shelf_full (foldl (shelf_step aw) s rects)"
  using assms
proof (induction rects arbitrary: s)
  case (Cons r rects)
  have "shelf_inv aw (shelf_step aw s r) \<or> shelf_full (shelf_step aw s r)"
    using shelf_step_inv [of aw s limit r] shelf_full_mono [of s aw r] Cons.prems by auto
  then show ?case using Cons by simp
qed simp

lemma shelf_step_packed:
  "map (\<lambda>p. (pr_source p, ru_w (pr_atlas p), ru_h (pr_atlas p))) (sh_packed (shelf_step aw s r))
   = map (\<lambda>p. (pr_source p, ru_w (pr_atlas p), ru_h (pr_atlas p))) (sh_packed s)
     @ [(r, dr_right r - dr_left r, dr_bottom r - dr_top r)]"
  by (simp add: shelf_step_split place_def next_row_def)

lemma shelf_foldl_packed:
  "map (\<lambda>p. (pr_source p, ru_w (pr_atlas p), ru_h (pr_atlas p))) (sh_packed (foldl (shelf_step aw) s rects))
   = map (\<lambda>p. (pr_source p, ru_w (pr_atlas p), ru_h (pr_atlas p))) (sh_packed s)
     @ map (\<lambda>r. (r, dr_right r - dr_left r, dr_bottom r - dr_top r)) rects"
  by (induction rects arbitrary: s) (simp_all add: shelf_step_packed)

lemma atlas_width_sum_fold:
  assumes "list_all (piece_ok limit) rects" and "32 dvd unat limit"
    and "try_fold (\<lambda>sum rect. ok_or AtlasWidthOverflow
       (checked_add sum (align_to_tile (saturating_sub (dr_right rect) (dr_left rect))))) acc rects = Inr width_sum"
  shows "unat acc \<le> unat width_sum \<and> (\<forall>r\<in>set rects. align32 (unat (dr_right r - dr_left r)) \<le> unat width_sum)"
  using assms
proof (induction rects arbitrary: acc)
  case (Cons r rects)
  have r: "piece_ok limit r" using Cons.prems by simp
  then have sub: "saturating_sub (dr_right r) (dr_left r) = dr_right r - dr_left r"
    by (simp add: saturating_sub_def piece_ok_def order_less_imp_le)
  obtain next_acc where add: "checked_add acc (align_to_tile (dr_right r - dr_left r)) = Some next_acc"
    using Cons.prems(3) by (auto simp: sub res_simps)
  then have "unat next_acc = unat acc + align32 (unat (dr_right r - dr_left r))"
    using piece_sizes(3) [OF r Cons.prems(2)]
      unat_add_no_wrap [of acc "align_to_tile (dr_right r - dr_left r)"]
    by (auto simp: checked_add_Some_iff)
  then show ?case using Cons.IH [of next_acc] Cons.prems add by (simp add: sub)
qed simp

definition packs :: "PackedAtlas \<Rightarrow> DirtyRect list \<Rightarrow> bool" where
  "packs atlas rects \<longleftrightarrow>
     map pr_source (pa_rects atlas) = rects
     \<and> list_all (\<lambda>p. ru_w (pr_atlas p) = dr_right (pr_source p) - dr_left (pr_source p)
          \<and> ru_h (pr_atlas p) = dr_bottom (pr_source p) - dr_top (pr_source p)
          \<and> slot_right p \<le> unat (pa_width atlas) \<and> slot_bottom p \<le> unat (pa_height atlas)) (pa_rects atlas)
     \<and> sorted_wrt (\<lambda>p q. slot p \<inter> slot q = {}) (pa_rects atlas)"

lemma pack_shelf_packs:
  assumes "list_all (piece_ok limit) rects" and "32 dvd unat limit"
    and "pack_shelf rects limit = Inr atlas" and "pa_height atlas \<le> limit" and "0 < limit"
  shows "packs atlas rects \<and> pa_width atlas \<le> limit"
proof -
  have limit: "unat limit < 2 ^ 32 - 1" "1 \<le> limit"
    using assms(2,5) unat_bound [of limit] by (auto simp: word_less_nat_alt word_le_nat_alt elim!: dvdE)
  obtain width_sum where width_sum: "atlas_width_sum rects = Inr width_sum"
    using assms(3) by (auto simp: pack_shelf_def rbind_Inr_iff)
  define aw where "aw = max (min width_sum limit) 1"
  define s0 where "s0 = \<lparr>sh_x = 0, sh_y = 0, sh_row_height = 0, sh_packed = []\<rparr>"
  define s where "s = foldl (shelf_step aw) s0 rects"
  have atlas: "atlas = \<lparr>pa_width = aw, pa_height = max (saturating_add (sh_y s) (sh_row_height s)) 1,
      pa_rects = sh_packed s\<rparr>"
    using assms(3) by (simp add: pack_shelf_def width_sum aw_def s_def s0_def Let_def)
  have aw: "aw \<le> limit" "unat aw < 2 ^ 32 - 1"
    using limit by (auto simp: aw_def word_le_nat_alt unat_min unat_max)
  have widths: "\<forall>r\<in>set rects. align32 (unat (dr_right r - dr_left r)) \<le> unat aw"
    using atlas_width_sum_fold [OF assms(1,2), of 0 width_sum] width_sum assms(1) piece_sizes(5) [OF _ assms(2)]
    by (fastforce simp: atlas_width_sum_def aw_def unat_min unat_max list_all_iff)
  have full: "\<not> shelf_full s"
    using assms(4) limit(1)
    by (auto simp: atlas word_le_nat_alt unat_max unat_saturating_add shelf_full_def)
  have "shelf_inv aw s0" by (simp add: shelf_inv_def s0_def)
  then have inv: "shelf_inv aw s"
    using shelf_foldl_inv [OF _ assms(1,2) widths aw(2), of s0] full by (auto simp: s_def)
  have height: "unat (sh_y s) + unat (sh_row_height s) \<le> unat (pa_height atlas)"
    using full by (simp add: atlas unat_max unat_saturating_add shelf_full_def)
  have packed: "map (\<lambda>p. (pr_source p, ru_w (pr_atlas p), ru_h (pr_atlas p))) (sh_packed s)
      = map (\<lambda>r. (r, dr_right r - dr_left r, dr_bottom r - dr_top r)) rects"
    using shelf_foldl_packed [of aw s0 rects] by (simp add: s_def s0_def)
  have sources: "map pr_source (sh_packed s) = rects"
    using arg_cong [OF packed, of "map fst"] by (simp add: comp_def)
  have sizes: "ru_w (pr_atlas p) = dr_right (pr_source p) - dr_left (pr_source p)
      \<and> ru_h (pr_atlas p) = dr_bottom (pr_source p) - dr_top (pr_source p)" if "p \<in> set (sh_packed s)" for p
    using arg_cong [OF packed, of set] that by (fastforce simp: set_eq_iff)
  show ?thesis
    using sources sizes inv height aw(1) by (fastforce simp: packs_def atlas shelf_inv_def list_all_iff)
qed

text \<open>Packing on shelves is sound: when the rectangles are at most the texture limit wide and high,
  the limit is a multiple of the tile size and the packed height is within it, the atlas holds every
  rectangle in order and at its size, each in a tile-aligned slot inside the atlas, no two slots
  share a pixel, and the width is within the limit too.\<close>

theorem pack_shelf_sound:
  assumes "list_all (piece_ok limit) rects" and "32 dvd unat limit" and "0 < limit"
    and "pack_shelf rects limit = Inr atlas" and "pa_height atlas \<le> limit"
  shows "packs atlas rects \<and> pa_width atlas \<le> limit"
  using pack_shelf_packs [OF assms(1,2,4,5,3)] .

definition witness_pack :: PackedAtlas where
  "witness_pack = \<lparr>pa_width = 128, pa_height = 64, pa_rects =
     [\<lparr>pr_source = \<lparr>dr_left = 0, dr_top = 0, dr_right = 40, dr_bottom = 10\<rparr>, pr_atlas = \<lparr>ru_x = 0, ru_y = 0, ru_w = 40, ru_h = 10\<rparr>\<rparr>,
      \<lparr>pr_source = \<lparr>dr_left = 40, dr_top = 0, dr_right = 80, dr_bottom = 10\<rparr>, pr_atlas = \<lparr>ru_x = 64, ru_y = 0, ru_w = 40, ru_h = 10\<rparr>\<rparr>,
      \<lparr>pr_source = \<lparr>dr_left = 90, dr_top = 50, dr_right = 100, dr_bottom = 60\<rparr>, pr_atlas = \<lparr>ru_x = 0, ru_y = 32, ru_w = 10, ru_h = 10\<rparr>\<rparr>]\<rparr>"

theorem pack_shelf_sound_witness:
  "pack_shelf witness_rects 128 = Inr witness_pack \<and> packs witness_pack witness_rects
   \<and> pa_width witness_pack \<le> 128"
proof -
  have run: "pack_shelf witness_rects 128 = Inr witness_pack"
    by (simp add: pack_shelf_def atlas_width_sum_def witness_rects_def witness_pack_def shelf_step_def
        align_to_tile_def div_ceil_tile_def saturating_mul_def saturating_add_def saturating_sub_def
        checked_add_def TILE_SIZE_def Let_def min_def max_def word_le_nat_alt)
  have "list_all (piece_ok 128) witness_rects"
    by (simp add: witness_rects_def piece_ok_def)
  moreover have "32 dvd unat (128 :: u32)" by simp
  ultimately have "packs witness_pack witness_rects \<and> pa_width witness_pack \<le> 128"
    using pack_shelf_sound [of 128 witness_rects witness_pack] run by (simp add: witness_pack_def)
  then show ?thesis using run by blast
qed

end
