(* ===== verification/Atlas_Plan.thy ===== *)
theory Atlas_Plan
  imports Atlas_Geometry
begin

text \<open>
  The atlas end to end: the tiles of a packed rectangle show exactly its pixels, and the plan that
  \<open>copy_dirty_rects_to_compact_atlas\<close> makes for a frame covers every dirty pixel of it.
\<close>

section \<open>Tiles\<close>

text \<open>A tile descriptor shows the desktop pixel \<open>p\<close> at the atlas pixel \<open>q\<close>.\<close>

definition tile_shows :: "TileCommandTile \<Rightarrow> nat \<times> nat \<Rightarrow> nat \<times> nat \<Rightarrow> bool" where
  "tile_shows t p q \<longleftrightarrow> (\<exists>i < unat (tt_width t). \<exists>j < unat (tt_height t).
     p = (unat (lo16 (tt_desktop_xy t)) + i, unat (hi16 (tt_desktop_xy t)) + j)
     \<and> q = (unat (lo16 (tt_atlas_xy t)) + i, unat (hi16 (tt_atlas_xy t)) + j))"

definition fits_atlas :: "PackedRect \<Rightarrow> bool" where
  "fits_atlas r \<longleftrightarrow> dr_left (pr_source r) < dr_right (pr_source r) \<and> dr_top (pr_source r) < dr_bottom (pr_source r)
     \<and> dr_right (pr_source r) \<le> 65536 \<and> dr_bottom (pr_source r) \<le> 65536
     \<and> ru_w (pr_atlas r) = dr_right (pr_source r) - dr_left (pr_source r)
     \<and> ru_h (pr_atlas r) = dr_bottom (pr_source r) - dr_top (pr_source r)
     \<and> unat (ru_x (pr_atlas r)) + unat (ru_w (pr_atlas r)) \<le> 65536
     \<and> unat (ru_y (pr_atlas r)) + unat (ru_h (pr_atlas r)) \<le> 65536"

text \<open>One axis of a tile: its offset and its size do not wrap and stay in the range of the descriptor.\<close>

lemma tile_axis:
  fixes lo hi base size :: u32
  assumes "lo < hi" "hi \<le> 65536" "unat base + unat (hi - lo) \<le> 65536" "k < unat (div_ceil_tile (hi - lo))"
  defines "offset \<equiv> of_nat k * TILE_SIZE"
  shows "unat (base + offset) = unat base + 32 * k" "base + offset \<le> 65535"
    "unat (lo + offset) = unat lo + 32 * k" "lo + offset \<le> 65535"
    "unat (min TILE_SIZE (hi - lo - offset)) = min 32 (unat hi - unat lo - 32 * k)"
    "32 * k < unat hi - unat lo" "min TILE_SIZE (hi - lo - offset) \<le> 65535"
    "min TILE_SIZE (hi - lo - offset) > 0"
proof -
  have size: "unat (hi - lo) = unat hi - unat lo" using assms(1) by (simp add: unat_sub order_less_imp_le)
  have bounds: "unat lo < unat hi" "unat hi \<le> 65536"
    using assms(1,2) by (simp_all add: word_less_nat_alt word_le_nat_alt)
  have "(unat (hi - lo) + 31) div 32 < 2 ^ 32" using bounds size by simp
  then have "k < (unat hi - unat lo + 31) div 32"
    using assms(4) size by (simp add: div_ceil_tile_def unat_of_nat)
  then show k: "32 * k < unat hi - unat lo" by linarith
  have offset: "unat offset = 32 * k"
    using k bounds by (simp add: offset_def TILE_SIZE_def unat_word_ariths unat_of_nat)
  show base: "unat (base + offset) = unat base + 32 * k" and lo: "unat (lo + offset) = unat lo + 32 * k"
    using k bounds assms(3) size offset by (simp_all add: unat_add_no_wrap)
  show "base + offset \<le> 65535" "lo + offset \<le> 65535"
    using k bounds assms(3) size by (simp_all add: word_le_nat_alt base lo)
  have "unat (hi - lo - offset) = unat hi - unat lo - 32 * k"
    using k size offset by (subst unat_sub) (simp_all add: word_le_nat_alt)
  then show tile: "unat (min TILE_SIZE (hi - lo - offset)) = min 32 (unat hi - unat lo - 32 * k)"
    by (simp add: unat_min TILE_SIZE_def)
  show "min TILE_SIZE (hi - lo - offset) \<le> 65535" "min TILE_SIZE (hi - lo - offset) > 0"
    using tile k unfolding word_le_nat_alt word_less_nat_alt by simp_all
qed

lemma tile_axis_iff:
  "(\<exists>i' < min 32 (n - 32 * k). P (32 * k + i')) \<longleftrightarrow> (\<exists>i. i div 32 = k \<and> i < (n :: nat) \<and> P i)"
proof
  assume "\<exists>i' < min 32 (n - 32 * k). P (32 * k + i')"
  then obtain i' where "i' < 32" "32 * k + i' < n" "P (32 * k + i')" by auto
  then show "\<exists>i. i div 32 = k \<and> i < n \<and> P i" by (intro exI [of _ "32 * k + i'"]) simp
next
  assume "\<exists>i. i div 32 = k \<and> i < n \<and> P i"
  then obtain i where i: "i div 32 = k" "i < n" "P i" by blast
  have e: "i = 32 * k + i mod 32" using i(1) mult_div_mod_eq [of 32 i] by simp
  have "i mod 32 < 32" by simp
  then have "i mod 32 < min 32 (n - 32 * k)" using e i(2) by linarith
  then show "\<exists>i' < min 32 (n - 32 * k). P (32 * k + i')" using e i(3) by metis
qed

lemma tile_descriptor_shows:
  assumes fits: "fits_atlas r"
    and ty: "ty < unat (div_ceil_tile (dr_bottom (pr_source r) - dr_top (pr_source r)))"
    and tx: "tx < unat (div_ceil_tile (dr_right (pr_source r) - dr_left (pr_source r)))"
  shows "\<exists>t. tile_descriptor r (dr_right (pr_source r) - dr_left (pr_source r))
        (dr_bottom (pr_source r) - dr_top (pr_source r)) ty tx = Inr t
      \<and> (\<forall>p q. tile_shows t p q \<longleftrightarrow>
           (\<exists>i j. i div 32 = tx \<and> j div 32 = ty
             \<and> i < unat (dr_right (pr_source r)) - unat (dr_left (pr_source r))
             \<and> j < unat (dr_bottom (pr_source r)) - unat (dr_top (pr_source r))
             \<and> p = (unat (dr_left (pr_source r)) + i, unat (dr_top (pr_source r)) + j)
             \<and> q = (unat (ru_x (pr_atlas r)) + i, unat (ru_y (pr_atlas r)) + j)))"
proof -
  let ?s = "pr_source r" let ?a = "pr_atlas r"
  note X = tile_axis [of "dr_left ?s" "dr_right ?s" "ru_x ?a" tx]
  note Y = tile_axis [of "dr_top ?s" "dr_bottom ?s" "ru_y ?a" ty]
  have x: "dr_left ?s < dr_right ?s" "dr_right ?s \<le> 65536" "unat (ru_x ?a) + unat (dr_right ?s - dr_left ?s) \<le> 65536"
    and y: "dr_top ?s < dr_bottom ?s" "dr_bottom ?s \<le> 65536" "unat (ru_y ?a) + unat (dr_bottom ?s - dr_top ?s) \<le> 65536"
    using fits by (auto simp: fits_atlas_def)
  note X = X [OF x tx] and Y = Y [OF y ty]
  define t where "t = \<lparr>tt_atlas_xy = pack_xy (ru_x ?a + of_nat tx * TILE_SIZE) (ru_y ?a + of_nat ty * TILE_SIZE),
    tt_desktop_xy = pack_xy (dr_left ?s + of_nat tx * TILE_SIZE) (dr_top ?s + of_nat ty * TILE_SIZE),
    tt_wh = pack_xy (min TILE_SIZE (dr_right ?s - dr_left ?s - of_nat tx * TILE_SIZE))
      (min TILE_SIZE (dr_bottom ?s - dr_top ?s - of_nat ty * TILE_SIZE)), tt_flags = 1\<rparr>"
  have desc: "tile_descriptor r (dr_right ?s - dr_left ?s) (dr_bottom ?s - dr_top ?s) ty tx = Inr t"
    using X Y by (simp add: tile_descriptor_def TileCommandTile_new_def ensure_def t_def Let_def)
  have fields: "unat (lo16 (tt_desktop_xy t)) = unat (dr_left ?s) + 32 * tx"
      "unat (hi16 (tt_desktop_xy t)) = unat (dr_top ?s) + 32 * ty"
      "unat (lo16 (tt_atlas_xy t)) = unat (ru_x ?a) + 32 * tx"
      "unat (hi16 (tt_atlas_xy t)) = unat (ru_y ?a) + 32 * ty"
      "unat (tt_width t) = min 32 (unat (dr_right ?s) - unat (dr_left ?s) - 32 * tx)"
      "unat (tt_height t) = min 32 (unat (dr_bottom ?s) - unat (dr_top ?s) - 32 * ty)"
    using X Y by (simp_all add: t_def lo16_def hi16_def tt_width_def tt_height_def pack_xy_lo pack_xy_hi)
  have shown: "tile_shows t p q \<longleftrightarrow>
      (\<exists>i. i div 32 = tx \<and> i < unat (dr_right ?s) - unat (dr_left ?s) \<and>
       (\<exists>j. j div 32 = ty \<and> j < unat (dr_bottom ?s) - unat (dr_top ?s)
             \<and> p = (unat (dr_left ?s) + i, unat (dr_top ?s) + j)
             \<and> q = (unat (ru_x ?a) + i, unat (ru_y ?a) + j)))" for p q
    unfolding tile_shows_def fields tile_axis_iff [symmetric] by (simp only: add.assoc)
  show ?thesis using desc shown by blast
qed

text \<open>The packed rectangle \<open>r\<close> has the desktop pixel \<open>p\<close> at the atlas pixel \<open>q\<close>, \<open>(i, j)\<close> from its
  corner.\<close>

definition rect_at :: "PackedRect \<Rightarrow> nat \<Rightarrow> nat \<Rightarrow> nat \<times> nat \<Rightarrow> nat \<times> nat \<Rightarrow> bool" where
  "rect_at r i j p q \<longleftrightarrow>
     i < unat (dr_right (pr_source r)) - unat (dr_left (pr_source r))
     \<and> j < unat (dr_bottom (pr_source r)) - unat (dr_top (pr_source r))
     \<and> p = (unat (dr_left (pr_source r)) + i, unat (dr_top (pr_source r)) + j)
     \<and> q = (unat (ru_x (pr_atlas r)) + i, unat (ru_y (pr_atlas r)) + j)"

lemma div_ceil_tile_bound: "i < unat w \<Longrightarrow> i div 32 < unat (div_ceil_tile w)"
proof -
  assume i: "i < unat w"
  have "(unat w + 31) div 32 < 2 ^ 32" using unat_bound [of w] by simp
  then have "unat (div_ceil_tile w) = (unat w + 31) div 32" by (simp add: div_ceil_tile_def unat_of_nat)
  then show ?thesis using i by linarith
qed

lemma rect_at_tile:
  assumes "fits_atlas r" and "rect_at r i j p q"
  shows "i div 32 < unat (div_ceil_tile (dr_right (pr_source r) - dr_left (pr_source r)))"
    "j div 32 < unat (div_ceil_tile (dr_bottom (pr_source r) - dr_top (pr_source r)))"
  using assms by (auto intro!: div_ceil_tile_bound simp: rect_at_def fits_atlas_def unat_sub order_less_imp_le)

lemma tile_descriptor_at:
  assumes "fits_atlas r"
    and "ty < unat (div_ceil_tile (dr_bottom (pr_source r) - dr_top (pr_source r)))"
    and "tx < unat (div_ceil_tile (dr_right (pr_source r) - dr_left (pr_source r)))"
  shows "\<exists>t. tile_descriptor r (dr_right (pr_source r) - dr_left (pr_source r))
        (dr_bottom (pr_source r) - dr_top (pr_source r)) ty tx = Inr t
      \<and> (\<forall>p q. tile_shows t p q \<longleftrightarrow> (\<exists>i j. i div 32 = tx \<and> j div 32 = ty \<and> rect_at r i j p q))"
  unfolding rect_at_def by (rule tile_descriptor_shows [OF assms])

lemma rect_descriptors_show:
  assumes fits: "fits_atlas r"
  shows "\<exists>ds. rect_descriptors r = Inr ds
    \<and> (\<forall>p q. (\<exists>t\<in>set ds. tile_shows t p q) \<longleftrightarrow> (\<exists>i j. rect_at r i j p q))"
proof -
  let ?w = "dr_right (pr_source r) - dr_left (pr_source r)" let ?h = "dr_bottom (pr_source r) - dr_top (pr_source r)"
  define nx ny where "nx = unat (div_ceil_tile ?w)" and "ny = unat (div_ceil_tile ?h)"
  have "\<forall>ty tx. \<exists>t. ty < ny \<longrightarrow> tx < nx \<longrightarrow> tile_descriptor r ?w ?h ty tx = Inr t
      \<and> (\<forall>p q. tile_shows t p q \<longleftrightarrow> (\<exists>i j. i div 32 = tx \<and> j div 32 = ty \<and> rect_at r i j p q))"
    using tile_descriptor_at [OF fits] unfolding nx_def ny_def by blast
  then obtain g where g: "\<And>ty tx. ty < ny \<Longrightarrow> tx < nx \<Longrightarrow> tile_descriptor r ?w ?h ty tx = Inr (g ty tx)
      \<and> (\<forall>p q. tile_shows (g ty tx) p q \<longleftrightarrow> (\<exists>i j. i div 32 = tx \<and> j div 32 = ty \<and> rect_at r i j p q))"
    by metis
  let ?ds = "map (\<lambda>(ty, tx). g ty tx) (List.product [0..<ny] [0..<nx])"
  have run: "rect_descriptors r = Inr ?ds"
    unfolding rect_descriptors_def Let_def nx_def [symmetric] ny_def [symmetric]
    by (rule try_map_ok) (auto simp: g)
  have set: "set ?ds = {g ty tx | ty tx. ty < ny \<and> tx < nx}" by auto blast
  have "(\<exists>t\<in>set ?ds. tile_shows t p q) \<longleftrightarrow> (\<exists>i j. rect_at r i j p q)" for p q
  proof
    assume "\<exists>t\<in>set ?ds. tile_shows t p q"
    then show "\<exists>i j. rect_at r i j p q" unfolding set using g by blast
  next
    assume "\<exists>i j. rect_at r i j p q"
    then obtain i j where at: "rect_at r i j p q" by blast
    then have "i div 32 < nx" "j div 32 < ny" unfolding nx_def ny_def using rect_at_tile [OF fits] by blast+
    then show "\<exists>t\<in>set ?ds. tile_shows t p q" unfolding set using g at by blast
  qed
  then show ?thesis using run by blast
qed

text \<open>Cutting an atlas into tiles is exact: for packed rectangles within the 16-bit coordinate range
  the descriptors can be built, and together they show a desktop pixel at an atlas pixel precisely
  when one of the rectangles has it there. So every pixel of every rectangle is in a tile, at the
  right place, and no tile reaches outside its rectangle.\<close>

theorem tile_descriptors_exact:
  assumes "list_all fits_atlas rects"
  shows "\<exists>ds. build_tile_command_descriptors rects = Inr ds
    \<and> (\<forall>p q. (\<exists>t\<in>set ds. tile_shows t p q) \<longleftrightarrow> (\<exists>r\<in>set rects. \<exists>i j. rect_at r i j p q))"
proof -
  have "\<forall>r. \<exists>ds. fits_atlas r \<longrightarrow> rect_descriptors r = Inr ds
      \<and> (\<forall>p q. (\<exists>t\<in>set ds. tile_shows t p q) \<longleftrightarrow> (\<exists>i j. rect_at r i j p q))"
    using rect_descriptors_show by blast
  then obtain g where g: "\<And>r. fits_atlas r \<Longrightarrow> rect_descriptors r = Inr (g r)
      \<and> (\<forall>p q. (\<exists>t\<in>set (g r). tile_shows t p q) \<longleftrightarrow> (\<exists>i j. rect_at r i j p q))"
    by metis
  have "try_map rect_descriptors rects = Inr (map g rects)"
    using assms g by (intro try_map_ok) (auto simp: list_all_iff)
  then have "build_tile_command_descriptors rects = Inr (concat (map g rects))"
    by (simp add: build_tile_command_descriptors_def)
  moreover have "(\<exists>t\<in>set (concat (map g rects)). tile_shows t p q) \<longleftrightarrow> (\<exists>r\<in>set rects. \<exists>i j. rect_at r i j p q)" for p q
  proof -
    have "\<forall>r\<in>set rects. (\<exists>t\<in>set (g r). tile_shows t p q) \<longleftrightarrow> (\<exists>i j. rect_at r i j p q)"
      using assms g by (metis list_all_iff)
    then show ?thesis by (simp add: bex_UN)
  qed
  ultimately show ?thesis by blast
qed

definition witness_packed :: PackedRect where
  "witness_packed = \<lparr>pr_source = \<lparr>dr_left = 100, dr_top = 7, dr_right = 140, dr_bottom = 17\<rparr>,
     pr_atlas = \<lparr>ru_x = 64, ru_y = 0, ru_w = 40, ru_h = 10\<rparr>\<rparr>"

theorem tile_descriptors_exact_witness:
  "fits_atlas witness_packed \<and> (\<exists>ds. build_tile_command_descriptors [witness_packed] = Inr ds
     \<and> (\<exists>t\<in>set ds. tile_shows t (135, 9) (99, 2)))"
proof -
  have fits: "fits_atlas witness_packed" by (simp add: fits_atlas_def witness_packed_def)
  moreover have "rect_at witness_packed 35 2 (135, 9) (99, 2)" by (simp add: rect_at_def witness_packed_def)
  moreover obtain ds where ds: "build_tile_command_descriptors [witness_packed] = Inr ds"
      "\<And>p q. (\<exists>t\<in>set ds. tile_shows t p q) \<longleftrightarrow> (\<exists>r\<in>set [witness_packed]. \<exists>i j. rect_at r i j p q)"
    using tile_descriptors_exact [of "[witness_packed]"] fits by auto
  ultimately have "\<exists>t\<in>set ds. tile_shows t (135, 9) (99, 2)" unfolding ds(2) by auto
  then show ?thesis using ds(1) fits by blast
qed

section \<open>The plan\<close>

lemma plan_texture_limit:
  "32 dvd unat (max_texture_size_for_device l0 l1 l2 l3 l4 level)"
  "0 < max_texture_size_for_device l0 l1 l2 l3 l4 level"
  by (simp_all add: max_texture_size_for_device_def)

text \<open>The rectangles a plan is for: the dirty ones that are in the frame, or the whole frame.\<close>

definition plan_rects :: "u32 \<Rightarrow> u32 \<Rightarrow> DirtyRect list \<Rightarrow> bool \<Rightarrow> DirtyRect list" where
  "plan_rects w h dirty force_full = filter (rect_in_frame w h) (if force_full then [full_frame w h] else dirty)"

definition plan_sources :: "u32 \<Rightarrow> u32 \<Rightarrow> DirtyRect list \<Rightarrow> bool \<Rightarrow> u32 \<Rightarrow> DirtyRect list" where
  "plan_sources w h dirty force_full limit = split_rects_to_texture_limit
     (if \<not> force_full then coalesce_dirty_rects (plan_rects w h dirty force_full)
      else plan_rects w h dirty force_full) limit"

definition atlas_for :: "u32 \<Rightarrow> u32 \<Rightarrow> u32 \<Rightarrow> (nat \<times> nat) set \<Rightarrow> PackedAtlas \<Rightarrow> bool" where
  "atlas_for w h limit wanted atlas \<longleftrightarrow>
     packs atlas (map pr_source (pa_rects atlas))
     \<and> list_all (rect_in_frame w h) (map pr_source (pa_rects atlas))
     \<and> wanted \<subseteq> region (map pr_source (pa_rects atlas))
     \<and> pa_width atlas \<le> limit \<and> pa_height atlas \<le> limit"

lemma plan_atlas_eq:
  "plan_atlas w h dirty force_full limit =
     (if plan_sources w h dirty force_full limit = [] then Inr None
      else
        rbind (pack_shelf (plan_sources w h dirty force_full limit) limit) (\<lambda>packed.
        rbind (if pa_width packed > limit \<or> pa_height packed > limit then
                 rbind (pack_shelf (split_rects_to_texture_limit [full_frame w h] limit) limit) (\<lambda>packed. Inr (packed, True))
               else Inr (packed, False)) (\<lambda>(packed, overflowed).
        if pa_width packed \<le> limit \<and> pa_height packed \<le> limit
        then Inr (Some (packed, overflowed)) else Inl AtlasExceedsLimit)))"
  by (simp add: plan_atlas_def plan_sources_def plan_rects_def Let_def)

lemma plan_sources_frame: "list_all (rect_in_frame w h) (plan_sources w h dirty force_full limit)"
  and plan_sources_region: "region (plan_rects w h dirty force_full) \<subseteq> region (plan_sources w h dirty force_full limit)"
proof -
  have frame: "list_all (rect_in_frame w h) (plan_rects w h dirty force_full)"
    by (simp add: plan_rects_def list_all_iff)
  show "list_all (rect_in_frame w h) (plan_sources w h dirty force_full limit)"
    unfolding plan_sources_def
    using splitting.keeps_frame coalescing.keeps_frame [OF frame] frame by auto
  show "region (plan_rects w h dirty force_full) \<subseteq> region (plan_sources w h dirty force_full limit)"
    unfolding plan_sources_def split_region using coalescing.keeps_pixels by auto
qed

lemma pack_atlas_for:
  assumes "32 dvd unat limit" "0 < limit" "pack_shelf (split_rects_to_texture_limit rects limit) limit = Inr atlas"
    "pa_height atlas \<le> limit" "list_all (rect_in_frame w h) (split_rects_to_texture_limit rects limit)"
    "wanted \<subseteq> region rects"
  shows "atlas_for w h limit wanted atlas"
proof -
  have "max limit 1 = limit" using assms(2) by (intro max.absorb1) (simp add: word_less_nat_alt word_le_nat_alt)
  then have "packs atlas (split_rects_to_texture_limit rects limit) \<and> pa_width atlas \<le> limit"
    using pack_shelf_packs [OF _ assms(1,3,4,2)] split_pieces [of limit rects] by simp
  moreover from this have "map pr_source (pa_rects atlas) = split_rects_to_texture_limit rects limit"
    by (simp add: packs_def)
  ultimately show ?thesis using assms(4-6) by (simp add: atlas_for_def split_region)
qed

text \<open>A frame within the limit is one piece, and it packs.\<close>

lemma split_full_frame:
  assumes "0 < w" "0 < h" "w \<le> limit" "h \<le> limit"
  shows "split_rects_to_texture_limit [full_frame w h] limit = [full_frame w h]"
proof -
  have limit: "0 < limit" using assms by (simp add: word_less_nat_alt word_le_nat_alt)
  have one: "max limit 1 = limit" using limit by (intro max.absorb1) (simp add: word_less_nat_alt word_le_nat_alt)
  have cut: "min (saturating_add 0 limit) w = w" "min (saturating_add 0 limit) h = h"
    using assms unat_bound [of limit] by (simp_all add: saturating_add_def min.absorb2)
  have columns: "split_columns limit 0 h 0 w = [full_frame w h]"
    using assms limit cut by (subst split_columns.simps, subst split_columns.simps) (simp add: full_frame_def Let_def)
  show ?thesis
    unfolding split_rects_to_texture_limit_def one Let_def
    using assms limit cut columns
    by (subst (1) split_rows.simps, simp, subst split_rows.simps) (simp add: full_frame_def Let_def)
qed

lemma pack_full_frame:
  assumes "0 < w" "0 < h" "w \<le> limit" "h \<le> limit" "32 dvd unat limit"
  shows "\<exists>atlas. pack_shelf [full_frame w h] limit = Inr atlas \<and> pa_height atlas \<le> limit"
proof -
  have limit: "1 \<le> limit" using assms by (simp add: word_less_nat_alt word_le_nat_alt)
  have piece: "piece_ok limit (full_frame w h)"
    using assms by (simp add: piece_ok_def full_frame_def word_le_nat_alt)
  obtain k where k: "unat limit = 32 * k" using assms(5) by blast
  have "align32 (unat h) \<le> unat limit" using assms(4) align32_le [of "unat h" k] by (simp add: k word_le_nat_alt)
  moreover have "unat (align_to_tile h) = align32 (unat h)"
    using piece_sizes(4) [OF piece assms(5)] by (simp add: full_frame_def)
  ultimately have "align_to_tile h \<le> limit" by (simp add: word_le_nat_alt)
  then have "max (saturating_add 0 (max 0 (align_to_tile h))) 1 \<le> limit"
    using limit unat_bound [of "align_to_tile h"] by (simp add: saturating_add_def max_def)
  moreover have "checked_add 0 (align_to_tile w) = Some (align_to_tile w)"
    using unat_bound [of "align_to_tile w"] by (simp add: checked_add_def)
  ultimately show ?thesis
    by (simp add: pack_shelf_def atlas_width_sum_def full_frame_def saturating_sub_def shelf_step_def Let_def)
qed

lemma plan_fallback:
  assumes "32 dvd unat limit" "0 < limit" "0 < w" "0 < h"
    "pack_shelf (split_rects_to_texture_limit [full_frame w h] limit) limit = Inr atlas"
    "pa_width atlas \<le> limit \<and> pa_height atlas \<le> limit" "wanted \<subseteq> {0..<unat w} \<times> {0..<unat h}"
  shows "atlas_for w h limit wanted atlas"
proof -
  have "list_all (rect_in_frame w h) [full_frame w h]"
    using assms(3,4) by (simp add: rect_in_frame_def full_frame_def)
  moreover have "wanted \<subseteq> region [full_frame w h]" using assms(7) by (simp add: pixels_def full_frame_def)
  ultimately show ?thesis
    using pack_atlas_for [OF assms(1,2,5)] splitting.keeps_frame assms(6) by blast
qed

lemma pack_error: "pack_shelf rs limit = Inl e \<Longrightarrow> e = AtlasWidthOverflow"
proof -
  have "try_fold (\<lambda>sum rect. ok_or AtlasWidthOverflow (checked_add sum (f rect))) acc rs = Inl e
      \<Longrightarrow> e = AtlasWidthOverflow" for f :: "DirtyRect \<Rightarrow> u32" and acc
  proof (induction rs arbitrary: acc)
    case (Cons r rs)
    then show ?case by (cases "checked_add acc (f r)") auto
  qed simp
  then show "pack_shelf rs limit = Inl e \<Longrightarrow> e = AtlasWidthOverflow"
    by (auto simp: pack_shelf_def atlas_width_sum_def Let_def rbind_Inl_iff)
qed

lemma frame_nonempty: "rs \<noteq> [] \<Longrightarrow> list_all (rect_in_frame w h) rs \<Longrightarrow> 0 < w \<and> 0 < h"
  by (cases rs) (auto simp: rect_in_frame_def word_less_nat_alt word_le_nat_alt)

lemma plan_wanted_in_frame: "region (plan_rects w h dirty force_full) \<subseteq> {0..<unat w} \<times> {0..<unat h}"
proof -
  have "pixels r \<subseteq> {0..<unat w} \<times> {0..<unat h}" if "rect_in_frame w h r" for r
    using that in_frame_pixels by (auto simp: rect_in_frame_def)
  then show ?thesis by (auto simp: region_def plan_rects_def)
qed

lemma plan_atlas_region:
  "let limit = max_texture_size_for_device l0 l1 l2 l3 l4 level in
   case plan_atlas w h dirty force_full limit of
     Inr None \<Rightarrow> region (plan_rects w h dirty force_full) = {}
   | Inr (Some (atlas, overflowed)) \<Rightarrow> atlas_for w h limit (region (plan_rects w h dirty force_full)) atlas
   | Inl e \<Rightarrow> e = AtlasWidthOverflow \<or> limit < w \<or> limit < h"
proof -
  define limit where "limit = max_texture_size_for_device l0 l1 l2 l3 l4 level"
  note l = plan_texture_limit [of l0 l1 l2 l3 l4 level, folded limit_def]
  let ?wanted = "region (plan_rects w h dirty force_full)"
  let ?sources = "plan_sources w h dirty force_full limit"
  note frame = plan_sources_frame [of w h dirty force_full limit]
  note reg = plan_sources_region [of w h dirty force_full limit]
  have fallback_ok: "pa_width atlas \<le> limit \<and> pa_height atlas \<le> limit"
    if "0 < w \<and> 0 < h" "w \<le> limit" "h \<le> limit"
      "pack_shelf (split_rects_to_texture_limit [full_frame w h] limit) limit = Inr atlas" for atlas
    using that pack_full_frame [of w h limit] split_full_frame [of w h limit] l
      pack_atlas_for [OF l that(4), of w h "{}"] splitting.keeps_frame [of w h "[full_frame w h]" limit]
    by (auto simp: atlas_for_def rect_in_frame_def full_frame_def)
  have "case plan_atlas w h dirty force_full limit of
     Inr None \<Rightarrow> ?wanted = {}
   | Inr (Some (atlas, overflowed)) \<Rightarrow> atlas_for w h limit ?wanted atlas
   | Inl e \<Rightarrow> e = AtlasWidthOverflow \<or> limit < w \<or> limit < h"
  proof (cases "?sources = []")
    case True
    then show ?thesis using reg by (simp add: plan_atlas_eq)
  next
    case False
    have wh: "0 < w \<and> 0 < h" by (rule frame_nonempty [OF False frame])
    show ?thesis
    proof (cases "pack_shelf ?sources limit")
      case (Inl e)
      then show ?thesis using False pack_error by (auto simp: plan_atlas_eq)
    next
      case first: (Inr packed)
      show ?thesis
      proof (cases "pa_width packed > limit \<or> pa_height packed > limit")
        case False
        then have "atlas_for w h limit ?wanted packed"
          using pack_atlas_for [OF l, of _ packed] first frame reg
          unfolding plan_sources_def split_region by auto
        then show ?thesis using False first \<open>?sources \<noteq> []\<close> by (auto simp: plan_atlas_eq not_less)
      next
        case True
        have "limit < w \<or> limit < h \<or> pa_width atlas \<le> limit \<and> pa_height atlas \<le> limit"
          if "pack_shelf (split_rects_to_texture_limit [full_frame w h] limit) limit = Inr atlas" for atlas
          using fallback_ok [OF wh _ _ that] by (meson not_less)
        then show ?thesis
          using True first \<open>?sources \<noteq> []\<close> wh plan_wanted_in_frame
            plan_fallback [OF l, of w h _ ?wanted]
          by (cases "pack_shelf (split_rects_to_texture_limit [full_frame w h] limit) limit")
            (auto simp: plan_atlas_eq not_less dest: pack_error)
      qed
    qed
  qed
  then show ?thesis unfolding Let_def limit_def .
qed

text \<open>The pixels a capture has to send: all of the frame, or those of the dirty rectangles that lie in it completely.\<close>

definition frame_pixels :: "u32 \<Rightarrow> u32 \<Rightarrow> (nat \<times> nat) set" where
  "frame_pixels w h = {0..<unat w} \<times> {0..<unat h}"

definition wanted_pixels :: "u32 \<Rightarrow> u32 \<Rightarrow> DirtyRect list \<Rightarrow> bool \<Rightarrow> (nat \<times> nat) set" where
  "wanted_pixels w h dirty force_full =
     (if force_full then frame_pixels w h else \<Union> {pixels r |r. r \<in> set dirty \<and> pixels r \<subseteq> frame_pixels w h})"

lemma pixels_empty_iff: "pixels r = {} \<longleftrightarrow> \<not> (dr_left r < dr_right r \<and> dr_top r < dr_bottom r)"
  by (auto simp: pixels_def word_less_nat_alt)

lemma in_frame_iff: "rect_in_frame w h r \<longleftrightarrow> pixels r \<noteq> {} \<and> pixels r \<subseteq> frame_pixels w h"
  using in_frame_pixels [of r w h] by (auto simp: pixels_empty_iff frame_pixels_def rect_in_frame_def)

lemma wanted_plan_rects: "wanted_pixels w h dirty force_full = region (plan_rects w h dirty force_full)"
proof (cases force_full)
  case True
  moreover have "pixels (full_frame w h) = frame_pixels w h" by (simp add: pixels_def full_frame_def frame_pixels_def)
  ultimately show ?thesis by (auto simp: wanted_pixels_def plan_rects_def in_frame_iff)
next
  case False
  then show ?thesis by (auto simp: wanted_pixels_def plan_rects_def in_frame_iff region_def)
qed

text \<open>C20. The plan of a capture, for the texture limit of the device. What has to be sent is the whole frame, if that is
  asked for, and otherwise every pixel of the dirty rectangles that lie completely in the frame; a rectangle that
  reaches over its edge is left out. When the plan is an atlas, the atlas is within the limit, its slots are
  disjoint, its rectangles are not empty and lie in the frame, and every pixel that has to be sent is in
  one of them, also when the dirty rectangles did not fit and the full frame was packed instead. When the plan
  is nothing there was no pixel to send. The error that the atlas exceeds the limit is possible only for a
  frame larger than the limit; the other error is the overflow of the sum of the widths.\<close>

theorem plan_atlas_covers:
  "let limit = max_texture_size_for_device l0 l1 l2 l3 l4 level; wanted = wanted_pixels w h dirty force_full in
   case plan_atlas w h dirty force_full limit of
     Inr None \<Rightarrow> wanted = {}
   | Inr (Some (atlas, overflowed)) \<Rightarrow>
       let sources = map pr_source (pa_rects atlas) in
       packs atlas sources \<and> list_all (\<lambda>r. pixels r \<noteq> {} \<and> pixels r \<subseteq> frame_pixels w h) sources
       \<and> wanted \<subseteq> region sources \<and> pa_width atlas \<le> limit \<and> pa_height atlas \<le> limit
   | Inl e \<Rightarrow> e = AtlasWidthOverflow \<or> limit < w \<or> limit < h"
  using plan_atlas_region [of l0 l1 l2 l3 l4 level w h dirty force_full]
  unfolding wanted_plan_rects atlas_for_def Let_def
  by (auto simp: in_frame_iff list_all_iff split: sum.splits option.splits prod.splits)

end
