(* ===== verification/Rust_Strings.thy ===== *)
theory Rust_Strings
  imports Talos_Prelude
begin

text \<open>
  What the sources use of Rust's strings. A \<open>str\<close> is the list of its Unicode scalar values;
  \<open>ascii\<close> turns a literal into one. Modelled are the lossy decoding of UTF-8, the white-space
  functions \<open>trim\<close> and \<open>split_whitespace\<close>, \<open>split_once\<close>, \<open>strip_prefix\<close>, \<open>trim_end_matches\<close>, the ASCII case
  functions and the decimal and hexadecimal digits.
\<close>

type_synonym uchar = nat
type_synonym ustr = "uchar list"

definition ascii :: "string \<Rightarrow> ustr" where
  "ascii s = map of_char s"

lemma ascii_simps [simp]: "ascii [] = []" "ascii (c # s) = of_char c # ascii s" "ascii (s @ t) = ascii s @ ascii t"
  by (simp_all add: ascii_def)

definition bytes_of :: "string \<Rightarrow> bytes" where
  "bytes_of s = map of_char s"

section \<open>White space\<close>

text \<open>\<open>char::is_whitespace\<close>: the characters with the Unicode property \<open>White_Space\<close>.\<close>

definition is_whitespace :: "uchar \<Rightarrow> bool" where
  "is_whitespace c \<longleftrightarrow> 9 \<le> c \<and> c \<le> 13 \<or> c = 32 \<or> c = 0x85 \<or> c = 0xA0 \<or> c = 0x1680
     \<or> 0x2000 \<le> c \<and> c \<le> 0x200A \<or> c = 0x2028 \<or> c = 0x2029 \<or> c = 0x202F \<or> c = 0x205F \<or> c = 0x3000"

definition trim :: "ustr \<Rightarrow> ustr" where
  "trim s = rev (dropWhile is_whitespace (rev (dropWhile is_whitespace s)))"

fun split_words :: "ustr \<Rightarrow> ustr \<Rightarrow> ustr list" where
  "split_words word [] = (if word = [] then [] else [rev word])"
| "split_words word (c # s) =
     (if is_whitespace c then (if word = [] then split_words [] s else rev word # split_words [] s)
      else split_words (c # word) s)"

definition split_whitespace :: "ustr \<Rightarrow> ustr list" where
  "split_whitespace s = split_words [] s"

lemma split_words_word:
  "list_all (\<lambda>c. \<not> is_whitespace c) w \<Longrightarrow> split_words acc (w @ s) = split_words (rev w @ acc) s"
  by (induction w arbitrary: acc) auto

lemma split_whitespace_word:
  assumes "w \<noteq> []" and "list_all (\<lambda>c. \<not> is_whitespace c) w" and "is_whitespace c"
  shows "split_whitespace (w @ c # s) = w # split_whitespace s"
  using assms by (simp add: split_whitespace_def split_words_word)

lemma split_whitespace_last:
  "w \<noteq> [] \<Longrightarrow> list_all (\<lambda>c. \<not> is_whitespace c) w \<Longrightarrow> split_whitespace w = [w]"
  using split_words_word [of w "[]" "[]"] by (simp add: split_whitespace_def)

text \<open>A word of the result is not empty and has no white space.\<close>

lemma split_words_sound:
  "list_all (\<lambda>c. \<not> is_whitespace c) acc \<Longrightarrow>
   list_all (\<lambda>w. w \<noteq> [] \<and> list_all (\<lambda>c. \<not> is_whitespace c) w) (split_words acc s)"
  by (induction s arbitrary: acc) (auto simp: list_all_rev)

lemma split_whitespace_sound:
  "list_all (\<lambda>w. w \<noteq> [] \<and> list_all (\<lambda>c. \<not> is_whitespace c) w) (split_whitespace s)"
  by (simp add: split_whitespace_def split_words_sound)

lemma split_words_trim_start: "split_words [] (dropWhile is_whitespace s) = split_words [] s"
  by (induction s) auto

lemma split_words_trim_end:
  "list_all is_whitespace t \<Longrightarrow> split_words acc (s @ t) = split_words acc s"
proof (induction s arbitrary: acc)
  case Nil
  then have "split_words [] t = []" by (induction t) auto
  with Nil show ?case by (induction t) auto
qed auto

lemma trim_decompose:
  "\<exists>t. list_all is_whitespace t \<and> dropWhile is_whitespace s = trim s @ t"
proof -
  let ?d = "dropWhile is_whitespace s"
  have "rev ?d = takeWhile is_whitespace (rev ?d) @ dropWhile is_whitespace (rev ?d)" by simp
  then have "?d = rev (dropWhile is_whitespace (rev ?d)) @ rev (takeWhile is_whitespace (rev ?d))"
    by (metis rev_append rev_rev_ident)
  then show ?thesis
    unfolding trim_def by (intro exI [of _ "rev (takeWhile is_whitespace (rev ?d))"])
      (auto simp: list_all_iff dest: set_takeWhileD)
qed

lemma split_whitespace_trim: "split_whitespace (trim s) = split_whitespace s"
proof -
  obtain t where t: "list_all is_whitespace t" "dropWhile is_whitespace s = trim s @ t"
    using trim_decompose by blast
  show ?thesis
    unfolding split_whitespace_def
    using split_words_trim_start [of s] split_words_trim_end [OF t(1), of "[]" "trim s"] t(2) by simp
qed

lemma trim_id: "s = [] \<or> \<not> is_whitespace (hd s) \<and> \<not> is_whitespace (last s) \<Longrightarrow> trim s = s"
proof -
  assume s: "s = [] \<or> \<not> is_whitespace (hd s) \<and> \<not> is_whitespace (last s)"
  then have "dropWhile is_whitespace s = s" by (cases s) auto
  moreover have "dropWhile is_whitespace (rev s) = rev s" using s by (cases s rule: rev_cases) auto
  ultimately show ?thesis by (simp add: trim_def)
qed

section \<open>Prefixes and splitting\<close>

fun strip_prefix :: "'a list \<Rightarrow> 'a list \<Rightarrow> 'a list option" where
  "strip_prefix [] s = Some s"
| "strip_prefix (p # ps) [] = None"
| "strip_prefix (p # ps) (c # s) = (if p = c then strip_prefix ps s else None)"

definition starts_with :: "'a list \<Rightarrow> 'a list \<Rightarrow> bool" where
  "starts_with s p \<longleftrightarrow> strip_prefix p s \<noteq> None"

fun contains_str :: "'a list \<Rightarrow> 'a list \<Rightarrow> bool" where
  "contains_str [] pat = (pat = [])"
| "contains_str (c # s) pat = (starts_with (c # s) pat \<or> contains_str s pat)"

fun split_once :: "uchar \<Rightarrow> ustr \<Rightarrow> (ustr \<times> ustr) option" where
  "split_once d [] = None"
| "split_once d (c # s) = (if c = d then Some ([], s) else map_option (\<lambda>(a, b). (c # a, b)) (split_once d s))"

definition trim_end_matches :: "uchar \<Rightarrow> ustr \<Rightarrow> ustr" where
  "trim_end_matches d s = rev (dropWhile (\<lambda>c. c = d) (rev s))"

lemma strip_prefix_iff: "strip_prefix p s = Some t \<longleftrightarrow> s = p @ t"
  by (induction p s rule: strip_prefix.induct) auto

lemma starts_with_iff: "starts_with s p \<longleftrightarrow> (\<exists>t. s = p @ t)"
  using strip_prefix_iff [of p s] by (auto simp: starts_with_def)

lemma split_once_iff: "split_once d s = Some (a, b) \<longleftrightarrow> s = a @ d # b \<and> d \<notin> set a"
  by (induction s arbitrary: a b) (auto simp: Cons_eq_append_conv split: if_splits)

lemma split_once_None: "split_once d s = None \<longleftrightarrow> d \<notin> set s"
  by (induction s) auto

section \<open>ASCII case and digits\<close>

definition to_ascii_lowercase_char :: "uchar \<Rightarrow> uchar" where
  "to_ascii_lowercase_char c = (if 65 \<le> c \<and> c \<le> 90 then c + 32 else c)"

definition to_ascii_lowercase :: "ustr \<Rightarrow> ustr" where
  "to_ascii_lowercase s = map to_ascii_lowercase_char s"

definition is_ascii_hexdigit :: "uchar \<Rightarrow> bool" where
  "is_ascii_hexdigit c \<longleftrightarrow> 48 \<le> c \<and> c \<le> 57 \<or> 65 \<le> c \<and> c \<le> 70 \<or> 97 \<le> c \<and> c \<le> 102"

definition is_ascii_alphanumeric :: "uchar \<Rightarrow> bool" where
  "is_ascii_alphanumeric c \<longleftrightarrow> 48 \<le> c \<and> c \<le> 57 \<or> 65 \<le> c \<and> c \<le> 90 \<or> 97 \<le> c \<and> c \<le> 122"

definition eq_ignore_ascii_case :: "ustr \<Rightarrow> ustr \<Rightarrow> bool" where
  "eq_ignore_ascii_case a b \<longleftrightarrow> to_ascii_lowercase a = to_ascii_lowercase b"

text \<open>\<open>str::parse\<close> for an unsigned type with the given maximum: an optional plus sign and digits, no
  empty number and no overflow.\<close>

fun parse_digits :: "nat \<Rightarrow> nat \<Rightarrow> ustr \<Rightarrow> nat option" where
  "parse_digits max_value acc [] = Some acc"
| "parse_digits max_value acc (c # s) =
     (if 48 \<le> c \<and> c \<le> 57 \<and> acc * 10 + (c - 48) \<le> max_value
      then parse_digits max_value (acc * 10 + (c - 48)) s else None)"

definition parse_unsigned :: "nat \<Rightarrow> ustr \<Rightarrow> nat option" where
  "parse_unsigned max_value s =
     (let digits = (case strip_prefix (ascii ''+'') s of Some t \<Rightarrow> t | None \<Rightarrow> s) in
      if digits = [] then None else parse_digits max_value 0 digits)"

lemma parse_digits_bound: "acc \<le> m \<Longrightarrow> parse_digits m acc s = Some n \<Longrightarrow> n \<le> m"
  by (induction s arbitrary: acc) (auto split: if_splits)

lemma parse_unsigned_bound: "parse_unsigned m s = Some n \<Longrightarrow> n \<le> m"
  by (auto simp: parse_unsigned_def Let_def split: if_splits dest: parse_digits_bound [rotated])

definition trim_matches :: "uchar \<Rightarrow> ustr \<Rightarrow> ustr" where
  "trim_matches d s = trim_end_matches d (dropWhile (\<lambda>c. c = d) s)"

text \<open>\<open>str::lines\<close>: the parts up to each line feed, without it and without a carriage return before it,
  and what follows the last line feed unless it is empty.\<close>

definition strip_cr :: "ustr \<Rightarrow> ustr" where
  "strip_cr line = (if line \<noteq> [] \<and> last line = 13 then butlast line else line)"

fun split_lines :: "ustr \<Rightarrow> ustr \<Rightarrow> ustr list" where
  "split_lines line [] = (if line = [] then [] else [rev line])"
| "split_lines line (c # s) = (if c = 10 then strip_cr (rev line) # split_lines [] s else split_lines (c # line) s)"

section \<open>UTF-8 and UTF-16\<close>

definition cont :: "u8 \<Rightarrow> bool" where
  "cont b \<longleftrightarrow> 0x80 \<le> b \<and> b \<le> 0xBF"

definition low6 :: "u8 \<Rightarrow> nat" where
  "low6 b = unat b mod 64"

definition second_of_three :: "u8 \<Rightarrow> u8 \<Rightarrow> bool" where
  "second_of_three a b \<longleftrightarrow>
     (if a = 0xE0 then 0xA0 \<le> b \<and> b \<le> 0xBF else if a = 0xED then 0x80 \<le> b \<and> b \<le> 0x9F else cont b)"

definition second_of_four :: "u8 \<Rightarrow> u8 \<Rightarrow> bool" where
  "second_of_four a b \<longleftrightarrow>
     (if a = 0xF0 then 0x90 \<le> b \<and> b \<le> 0xBF else if a = 0xF4 then 0x80 \<le> b \<and> b \<le> 0x8F else cont b)"

text \<open>The next character, \<open>None\<close> for an ill-formed part, and the number of bytes it takes.\<close>

definition next_utf8 :: "u8 \<Rightarrow> bytes \<Rightarrow> uchar option \<times> nat" where
  "next_utf8 a rest =
     (if a < 0x80 then (Some (unat a), 1)
      else if 0xC2 \<le> a \<and> a \<le> 0xDF then
        (case rest of [] \<Rightarrow> (None, 1)
         | b # _ \<Rightarrow> if cont b then (Some (unat a mod 32 * 64 + low6 b), 2) else (None, 1))
      else if 0xE0 \<le> a \<and> a \<le> 0xEF then
        (case rest of [] \<Rightarrow> (None, 1)
         | b # rest \<Rightarrow> if \<not> second_of_three a b then (None, 1)
             else (case rest of [] \<Rightarrow> (None, 2)
                   | c # _ \<Rightarrow> if \<not> cont c then (None, 2)
                       else (Some (unat a mod 16 * 4096 + low6 b * 64 + low6 c), 3)))
      else if 0xF0 \<le> a \<and> a \<le> 0xF4 then
        (case rest of [] \<Rightarrow> (None, 1)
         | b # rest \<Rightarrow> if \<not> second_of_four a b then (None, 1)
             else (case rest of [] \<Rightarrow> (None, 2)
                   | c # rest \<Rightarrow> if \<not> cont c then (None, 2)
                       else (case rest of [] \<Rightarrow> (None, 3)
                             | d # _ \<Rightarrow> if \<not> cont d then (None, 3)
                                 else (Some (unat a mod 8 * 262144 + low6 b * 4096 + low6 c * 64 + low6 d), 4))))
      else (None, 1))"

function utf8_chars :: "bytes \<Rightarrow> uchar option list" where
  "utf8_chars [] = []"
| "utf8_chars (a # rest) = (case next_utf8 a rest of (c, n) \<Rightarrow> c # utf8_chars (drop (n - 1) rest))"
  by pat_completeness auto
termination
  by (relation "measure length") auto

definition from_utf8_lossy :: "bytes \<Rightarrow> ustr" where
  "from_utf8_lossy bs = map (\<lambda>c. case c of Some c \<Rightarrow> c | None \<Rightarrow> 0xFFFD) (utf8_chars bs)"

definition from_utf8 :: "bytes \<Rightarrow> ustr option" where
  "from_utf8 bs = (if None \<in> set (utf8_chars bs) then None else Some (map the (utf8_chars bs)))"

definition utf8_char :: "uchar \<Rightarrow> bytes" where
  "utf8_char c =
     (if c < 0x80 then [of_nat c]
      else if c < 0x800 then [of_nat (0xC0 + c div 64), of_nat (0x80 + c mod 64)]
      else if c < 0x10000 then [of_nat (0xE0 + c div 4096), of_nat (0x80 + c div 64 mod 64), of_nat (0x80 + c mod 64)]
      else [of_nat (0xF0 + c div 262144), of_nat (0x80 + c div 4096 mod 64), of_nat (0x80 + c div 64 mod 64),
            of_nat (0x80 + c mod 64)])"

definition to_utf8 :: "ustr \<Rightarrow> bytes" where
  "to_utf8 s = concat (map utf8_char s)"

text \<open>\<open>String::from_utf16\<close>: surrogates must come in pairs.\<close>

fun from_utf16 :: "nat list \<Rightarrow> ustr option" where
  "from_utf16 [] = Some []"
| "from_utf16 (u # us) =
     (if u < 0xD800 \<or> 0xDFFF < u then map_option (\<lambda>s. u # s) (from_utf16 us)
      else if 0xDC00 \<le> u then None
      else case us of [] \<Rightarrow> None
        | v # us \<Rightarrow> if 0xDC00 \<le> v \<and> v \<le> 0xDFFF
            then map_option (\<lambda>s. (0x10000 + (u - 0xD800) * 0x400 + (v - 0xDC00)) # s) (from_utf16 us)
            else None)"

lemma utf8_chars_ascii:
  "list_all (\<lambda>b. b < 0x80) bs \<Longrightarrow> utf8_chars (bs @ cs) = map (\<lambda>b. Some (unat b)) bs @ utf8_chars cs"
  by (induction bs) (simp_all add: next_utf8_def)

lemma from_utf8_lossy_ascii:
  "list_all (\<lambda>b. b < 0x80) bs \<Longrightarrow> from_utf8_lossy (bs @ cs) = map unat bs @ from_utf8_lossy cs"
  by (simp add: from_utf8_lossy_def utf8_chars_ascii comp_def)

end
