(* ===== verification/Relay_Transport.thy ===== *)
theory Relay_Transport
  imports Wire_Frames Rust_Strings
begin

text \<open>
  The client side of the relay (\<open>talos_protocol/src/relay_transport.rs\<close>): the target of a relay URL, the
  skipping of the HTTP response head, and the encrypted frames. The URL parser and the cipher are
  parameters; what is used of the cipher is that decryption inverts encryption under the same nonce
  and that a ciphertext is sixteen bytes longer than its plaintext.

  \<open>head_reader\<close> is the contract of a reader that consumes an HTTP head and nothing after it. The
  relay's own reader of request headers meets it too.
\<close>

section \<open>The target of a relay URL\<close>

record RelayTarget =
  rt_host :: ustr
  rt_port :: u16

datatype relay_target_error = RelayUrlInvalid | RelayUrlMissingHost

definition parse_relay_target ::
    "(ustr \<Rightarrow> 'url option) \<Rightarrow> ('url \<Rightarrow> ustr option) \<Rightarrow> ('url \<Rightarrow> u16 option) \<Rightarrow> ustr \<Rightarrow> relay_target_error + RelayTarget" where
  "parse_relay_target url_parse host_str port_or_known_default relay_url =
     rbind (ok_or RelayUrlInvalid
              (if contains_str relay_url (ascii ''://'') then url_parse relay_url
               else url_parse (ascii ''https://'' @ relay_url))) (\<lambda>url.
     rbind (ok_or RelayUrlMissingHost (host_str url)) (\<lambda>host.
     let port = (case port_or_known_default url of Some port \<Rightarrow> port | None \<Rightarrow> 443) in
     Inr \<lparr>rt_host = host, rt_port = port\<rparr>))"

section \<open>Skipping an HTTP head\<close>

text \<open>The four-byte window both readers slide over the stream.\<close>

record head_window =
  hw_window :: bytes
  hw_filled :: nat

definition new_window :: head_window where
  "new_window = \<lparr>hw_window = [0, 0, 0, 0], hw_filled = 0\<rparr>"

definition push_byte :: "head_window \<Rightarrow> u8 \<Rightarrow> head_window" where
  "push_byte w byte =
     (if hw_filled w < 4 then \<lparr>hw_window = (hw_window w)[hw_filled w := byte], hw_filled = hw_filled w + 1\<rparr>
      else w\<lparr>hw_window := (rotate1 (hw_window w))[3 := byte]\<rparr>)"

definition CRLF2 :: bytes where
  "CRLF2 = [13, 10, 13, 10]"

definition window_done :: "head_window \<Rightarrow> bool" where
  "window_done w \<longleftrightarrow> hw_filled w = 4 \<and> hw_window w = CRLF2"

datatype head_error = HeadClosed | HeadTooLarge

definition MAX_HEADER_BYTES :: nat where
  "MAX_HEADER_BYTES = 64 * 1024"

fun read_http_loop :: "nat \<Rightarrow> head_window \<Rightarrow> bytes \<Rightarrow> head_error + bytes" where
  "read_http_loop read_total w [] = Inl HeadClosed"
| "read_http_loop read_total w (byte # stream) =
     (let read_total = usize_saturating_add read_total 1 in
      if read_total > MAX_HEADER_BYTES then Inl HeadTooLarge
      else let w = push_byte w byte in
        if window_done w then Inr stream else read_http_loop read_total w stream)"

definition read_http_response :: "bytes \<Rightarrow> head_error + bytes" where
  "read_http_response stream = read_http_loop 0 new_window stream"

text \<open>\<open>read_headers\<close> of the relay: the same window and no limit.\<close>

fun read_headers_loop :: "head_window \<Rightarrow> bytes \<Rightarrow> head_error + bytes" where
  "read_headers_loop w [] = Inl HeadClosed"
| "read_headers_loop w (byte # stream) =
     (let w = push_byte w byte in if window_done w then Inr stream else read_headers_loop w stream)"

definition read_headers :: "bytes \<Rightarrow> head_error + bytes" where
  "read_headers stream = read_headers_loop new_window stream"

section \<open>Encrypted frames\<close>

datatype e2e_error = E2eKeyLength | E2eEncrypt | E2eLengthEof | E2eInvalidLength | E2eTooLarge | E2eFrameEof | E2eDecrypt

definition build_e2e_cipher :: "(bytes \<Rightarrow> 'cipher) \<Rightarrow> bytes \<Rightarrow> e2e_error + 'cipher" where
  "build_e2e_cipher new_cipher key_bytes =
     (if length key_bytes \<noteq> 32 then Inl E2eKeyLength else Inr (new_cipher key_bytes))"

definition nonce_from_counter :: "u64 \<Rightarrow> bytes" where
  "nonce_from_counter counter = replicate 4 0 @ u64_be counter"

text \<open>The bytes written to the stream and the counter afterwards; the counter moves also when the
  encryption fails.\<close>

definition write_e2e_frame :: "(bytes \<Rightarrow> bytes \<Rightarrow> bytes option) \<Rightarrow> u64 \<Rightarrow> bytes \<Rightarrow> u64 \<times> (e2e_error + bytes)" where
  "write_e2e_frame encrypt counter plaintext =
     (let nonce_bytes = nonce_from_counter counter;
          counter = saturating_add counter 1 in
      (counter,
       rbind (ok_or E2eEncrypt (encrypt nonce_bytes plaintext)) (\<lambda>ciphertext.
         let frame_len = (of_nat (length nonce_bytes + length ciphertext) :: u32) in
         Inr (u32_be frame_len @ nonce_bytes @ ciphertext))))"

definition MAX_FRAME_BYTES :: nat where
  "MAX_FRAME_BYTES = 128 * 1024 * 1024"

definition read_e2e_frame_from :: "(bytes \<Rightarrow> bytes \<Rightarrow> bytes option) \<Rightarrow> bytes \<Rightarrow> e2e_error + bytes \<times> bytes" where
  "read_e2e_frame_from decrypt reader =
     rbind (ok_or E2eLengthEof (read_exact 4 reader)) (\<lambda>(len_bytes, reader).
       let frame_len = unat (u32_of_be len_bytes) in
       if frame_len < 12 then Inl E2eInvalidLength
       else if frame_len > MAX_FRAME_BYTES then Inl E2eTooLarge
       else
         rbind (ok_or E2eFrameEof (read_exact frame_len reader)) (\<lambda>(frame, reader).
           let nonce_bytes = take 12 frame; ciphertext = drop 12 frame in
           rbind (ok_or E2eDecrypt (decrypt nonce_bytes ciphertext)) (\<lambda>plaintext. Inr (plaintext, reader))))"

text \<open>A sender that writes one plaintext after the other, and a receiver that reads as many frames.\<close>

fun write_e2e_frames :: "(bytes \<Rightarrow> bytes \<Rightarrow> bytes option) \<Rightarrow> u64 \<Rightarrow> bytes list \<Rightarrow> e2e_error + bytes list" where
  "write_e2e_frames encrypt counter [] = Inr []"
| "write_e2e_frames encrypt counter (p # ps) =
     (case write_e2e_frame encrypt counter p of
        (counter, r) \<Rightarrow> rbind r (\<lambda>frame. rbind (write_e2e_frames encrypt counter ps) (\<lambda>frames. Inr (frame # frames))))"

fun read_e2e_frames :: "(bytes \<Rightarrow> bytes \<Rightarrow> bytes option) \<Rightarrow> nat \<Rightarrow> bytes \<Rightarrow> e2e_error + bytes list \<times> bytes" where
  "read_e2e_frames decrypt 0 reader = Inr ([], reader)"
| "read_e2e_frames decrypt (Suc n) reader =
     rbind (read_e2e_frame_from decrypt reader) (\<lambda>(p, reader).
     rbind (read_e2e_frames decrypt n reader) (\<lambda>(ps, reader). Inr (p # ps, reader)))"

section \<open>The contract of head readers\<close>

text \<open>\<open>first_head pre\<close>: \<open>pre\<close> ends with the first empty line.\<close>

definition ends_head :: "bytes \<Rightarrow> bool" where
  "ends_head pre \<longleftrightarrow> 4 \<le> length pre \<and> drop (length pre - 4) pre = CRLF2"

definition first_head :: "bytes \<Rightarrow> bool" where
  "first_head pre \<longleftrightarrow> ends_head pre \<and> (\<forall>n < length pre. \<not> ends_head (take n pre))"

locale head_reader =
  fixes read :: "bytes \<Rightarrow> head_error + bytes"
    and cap :: "nat \<Rightarrow> bool"
  assumes read_head: "read s = Inr rest \<longleftrightarrow> (\<exists>pre. s = pre @ rest \<and> first_head pre \<and> cap (length pre))"
begin

lemma after_head: "first_head pre \<Longrightarrow> cap (length pre) \<Longrightarrow> read (pre @ rest) = Inr rest"
  by (auto simp: read_head)

lemma more_input: "read s = Inr rest \<Longrightarrow> read (s @ further) = Inr (rest @ further)"
  by (force simp: read_head)

lemma consumed:
  assumes "read s = Inr rest"
  obtains pre where "s = pre @ rest" "first_head pre" "cap (length pre)"
  using assms by (auto simp: read_head)

end

text \<open>The window after \<open>pre\<close> has gone through it.\<close>

definition window_of :: "bytes \<Rightarrow> head_window" where
  "window_of pre = \<lparr>hw_window = (if length pre < 4 then pre @ replicate (4 - length pre) 0 else drop (length pre - 4) pre),
     hw_filled = min 4 (length pre)\<rparr>"

lemma window_of_Nil: "window_of [] = new_window"
  by (simp add: window_of_def new_window_def numeral_eq_Suc)

lemma rotate1_last4:
  assumes "length xs = 4" shows "(rotate1 xs)[3 := b] = tl xs @ [b]"
proof -
  obtain x y z w where "xs = [x, y, z, w]"
    using assms by (auto simp: length_Suc_conv numeral_eq_Suc)
  then show ?thesis by simp
qed

lemma push_byte_window: "push_byte (window_of pre) b = window_of (pre @ [b])"
proof (cases "length pre < 4")
  case True
  then obtain k where k: "4 - length pre = Suc k" "4 - length (pre @ [b]) = k"
    by (metis Suc_diff_Suc length_append_singleton)
  then have "(pre @ replicate (4 - length pre) 0)[length pre := b] = (pre @ [b]) @ replicate k 0"
    by (simp add: list_update_append)
  then show ?thesis using True k by (auto simp: push_byte_def window_of_def)
next
  case False
  then have four: "length (drop (length pre - 4) pre) = 4" by simp
  have three: "Suc (length pre - 4) = length pre - 3" using False by linarith
  have "tl (drop (length pre - 4) pre) @ [b] = drop (length (pre @ [b]) - 4) (pre @ [b])"
    using False three by (simp add: tl_drop drop_Suc [symmetric])
  then show ?thesis using False rotate1_last4 [OF four, of b] by (simp add: push_byte_def window_of_def)
qed

lemma window_done_iff: "window_done (window_of pre) \<longleftrightarrow> ends_head pre"
  by (auto simp: window_done_def window_of_def ends_head_def)

lemma first_Cons:
  "(\<forall>n. 0 < n \<longrightarrow> n < length (b # m) \<longrightarrow> \<not> E (pre @ take n (b # m))) \<longleftrightarrow>
     (m = [] \<or> \<not> E (pre @ [b])) \<and> (\<forall>n. 0 < n \<longrightarrow> n < length m \<longrightarrow> \<not> E ((pre @ [b]) @ take n m))"
proof -
  have "(\<forall>n. 0 < n \<longrightarrow> n < length (b # m) \<longrightarrow> \<not> E (pre @ take n (b # m))) \<longleftrightarrow>
      (\<forall>k < length m. \<not> E ((pre @ [b]) @ take k m))"
    by (auto simp: gr0_conv_Suc)
  also have "\<dots> \<longleftrightarrow> (m = [] \<or> \<not> E (pre @ [b])) \<and> (\<forall>n. 0 < n \<longrightarrow> n < length m \<longrightarrow> \<not> E ((pre @ [b]) @ take n m))"
    by (metis append_Nil2 gr0I length_greater_0_conv take_0)
  finally show ?thesis .
qed

lemma read_headers_loop_iff:
  "read_headers_loop (window_of pre) s = Inr rest \<longleftrightarrow>
     (\<exists>mid. s = mid @ rest \<and> mid \<noteq> [] \<and> ends_head (pre @ mid)
        \<and> (\<forall>n. 0 < n \<longrightarrow> n < length mid \<longrightarrow> \<not> ends_head (pre @ take n mid)))"
proof (induction s arbitrary: pre)
  case (Cons b s)
  let ?first = "\<lambda>pre mid. \<forall>n. 0 < n \<longrightarrow> n < length mid \<longrightarrow> \<not> ends_head (pre @ take n mid)"
  have split: "(\<exists>mid. b # s = mid @ rest \<and> mid \<noteq> [] \<and> ends_head (pre @ mid) \<and> ?first pre mid) \<longleftrightarrow>
      (\<exists>m. s = m @ rest \<and> ends_head (pre @ b # m) \<and> ?first pre (b # m))"
    by (auto simp: Cons_eq_append_conv)
  show ?case
  proof (cases "ends_head (pre @ [b])")
    case True
    have "(\<exists>m. s = m @ rest \<and> ends_head (pre @ b # m) \<and> ?first pre (b # m)) \<longleftrightarrow> s = rest"
    proof
      assume "\<exists>m. s = m @ rest \<and> ends_head (pre @ b # m) \<and> ?first pre (b # m)"
      then obtain m where m: "s = m @ rest" "?first pre (b # m)" by blast
      have "m = []" using m(2) [rule_format, of 1] True by (cases m) auto
      then show "s = rest" using m(1) by simp
    qed (use True in \<open>auto intro!: exI [of _ "[]"]\<close>)
    then show ?thesis
      unfolding split using True by (simp add: push_byte_window window_done_iff)
  next
    case False
    have "?first pre (b # m) \<longleftrightarrow> ?first (pre @ [b]) m \<and> (m = [] \<or> \<not> ends_head (pre @ [b]))" for m
      using first_Cons [of b m ends_head pre] by blast
    then have "(\<exists>m. s = m @ rest \<and> ends_head (pre @ b # m) \<and> ?first pre (b # m)) \<longleftrightarrow>
        (\<exists>m. s = m @ rest \<and> m \<noteq> [] \<and> ends_head ((pre @ [b]) @ m) \<and> ?first (pre @ [b]) m)"
      using False by auto
    then show ?thesis
      unfolding split using False Cons.IH [of "pre @ [b]"] by (simp add: push_byte_window window_done_iff)
  qed
qed simp

interpretation relay_head: head_reader read_headers "\<lambda>_. True"
proof (unfold_locales, goal_cases)
  case (1 s rest)
  have "first_head pre \<longleftrightarrow> pre \<noteq> [] \<and> ends_head pre \<and> (\<forall>n. 0 < n \<longrightarrow> n < length pre \<longrightarrow> \<not> ends_head (take n pre))" for pre
    by (auto simp: first_head_def ends_head_def)
  then show ?case
    using read_headers_loop_iff [of "[]" s rest] by (auto simp: read_headers_def window_of_Nil)
qed

lemma read_headers_loop_shorter: "read_headers_loop w s = Inr rest \<Longrightarrow> length rest < length s"
  by (induction s arbitrary: w) (auto simp: Let_def less_Suc_eq split: if_splits)

lemma read_http_loop_iff:
  "t \<le> MAX_HEADER_BYTES \<Longrightarrow> read_http_loop t w s = Inr rest \<longleftrightarrow>
     read_headers_loop w s = Inr rest \<and> t + (length s - length rest) \<le> MAX_HEADER_BYTES"
proof (induction s arbitrary: t w)
  case (Cons b s)
  have t: "usize_saturating_add t 1 = t + 1"
    using Cons.prems by (simp add: usize_saturating_add_def usize_max_def MAX_HEADER_BYTES_def)
  show ?case
  proof (cases "window_done (push_byte w b)")
    case True
    then show ?thesis using t by (auto simp: Let_def)
  next
    case False
    have "t + 1 \<le> MAX_HEADER_BYTES \<Longrightarrow> read_http_loop (t + 1) (push_byte w b) s = Inr rest \<longleftrightarrow>
        read_headers_loop (push_byte w b) s = Inr rest \<and> t + 1 + (length s - length rest) \<le> MAX_HEADER_BYTES"
      by (rule Cons.IH)
    then show ?thesis
      using False t read_headers_loop_shorter [of "push_byte w b" s rest]
      by (auto simp: Let_def Suc_diff_le)
  qed
qed simp

interpretation http_head: head_reader read_http_response "\<lambda>n. n \<le> MAX_HEADER_BYTES"
proof (unfold_locales, goal_cases)
  case (1 s rest)
  have "read_http_response s = Inr rest \<longleftrightarrow>
      read_headers s = Inr rest \<and> length s - length rest \<le> MAX_HEADER_BYTES"
    using read_http_loop_iff [of 0 new_window s rest] by (simp add: read_http_response_def read_headers_def)
  then show ?case unfolding relay_head.read_head by auto
qed

text \<open>The client skips the HTTP response head exactly: the reader succeeds if and only if an empty line
  occurs within the first 65536 bytes, and it leaves every byte after the first empty line on
  the stream for the encrypted frames.\<close>

theorem read_http_response_exact:
  "read_http_response s = Inr rest \<longleftrightarrow>
     (\<exists>pre. s = pre @ rest \<and> first_head pre \<and> length pre \<le> MAX_HEADER_BYTES)"
  by (rule http_head.read_head)

section \<open>Delivery of encrypted frames\<close>

definition frame_nonce :: "bytes \<Rightarrow> bytes" where
  "frame_nonce frame = take 12 (drop 4 frame)"

lemma length_nonce [simp]: "length (nonce_from_counter c) = 12"
  by (simp add: nonce_from_counter_def codec_simps)

lemma read_written_frame:
  assumes "decrypt nonce ciphertext = Some plaintext" and "length nonce = 12"
    and "12 + length ciphertext \<le> MAX_FRAME_BYTES"
  shows "read_e2e_frame_from decrypt (u32_be (of_nat (12 + length ciphertext)) @ nonce @ ciphertext @ rest)
    = Inr (plaintext, rest)"
proof -
  have "unat (of_nat (12 + length ciphertext) :: u32) = 12 + length ciphertext"
    using assms(3) by (intro unat_of_nat_bound) (simp add: MAX_FRAME_BYTES_def)
  then show ?thesis
    using assms by (simp add: read_e2e_frame_from_def read_exact_def codec_simps Let_def del: of_nat_add)
qed

text \<open>C21. Encrypted frames are delivered: whatever plaintexts a sender writes, one frame each, the receiver
  reads the same plaintexts in order and leaves the rest of the stream untouched. The cipher is
  any for which decryption inverts encryption and a ciphertext is sixteen bytes longer than its
  plaintext; the plaintexts must be small enough for the reader's limit of 128 MiB per frame,
  which the writer does not check.\<close>

theorem e2e_stream_delivered:
  assumes aead: "\<And>nonce p c. encrypt nonce p = Some c \<Longrightarrow> decrypt nonce c = Some p"
    and tag: "\<And>nonce p c. encrypt nonce p = Some c \<Longrightarrow> length c = length p + 16"
    and sizes: "list_all (\<lambda>p. length p + 28 \<le> MAX_FRAME_BYTES) ps"
    and written: "write_e2e_frames encrypt counter ps = Inr frames"
  shows "read_e2e_frames decrypt (length ps) (concat frames @ rest) = Inr (ps, rest)"
  using sizes written
proof (induction ps arbitrary: counter frames)
  case (Cons p ps)
  obtain c fs where c: "encrypt (nonce_from_counter counter) p = Some c"
      and fs: "write_e2e_frames encrypt (saturating_add counter 1) ps = Inr fs"
      and frames: "frames = (u32_be (of_nat (12 + length c)) @ nonce_from_counter counter @ c) # fs"
    using Cons.prems(2) by (auto simp: write_e2e_frame_def Let_def res_simps)
  have "read_e2e_frame_from decrypt (concat frames @ rest) = Inr (p, concat fs @ rest)"
    using read_written_frame [of decrypt "nonce_from_counter counter" c p "concat fs @ rest"] aead [OF c] tag [OF c] Cons.prems(1)
    by (simp add: frames)
  then show ?case using Cons.IH [OF _ fs] Cons.prems(1) by simp
qed simp

text \<open>A stand-in with the two properties of the cipher: the nonce, padded, after the plaintext.\<close>

definition witness_encrypt :: "bytes \<Rightarrow> bytes \<Rightarrow> bytes option" where
  "witness_encrypt nonce p = Some (p @ take 16 (nonce @ replicate 16 0))"

definition witness_decrypt :: "bytes \<Rightarrow> bytes \<Rightarrow> bytes option" where
  "witness_decrypt nonce c =
     (if drop (length c - 16) c = take 16 (nonce @ replicate 16 0) then Some (take (length c - 16) c) else None)"

definition witness_frames :: "bytes list" where
  "witness_frames = [u32_be 30 @ nonce_from_counter 0 @ [1, 2] @ take 16 (nonce_from_counter 0 @ replicate 16 0),
     u32_be 29 @ nonce_from_counter 1 @ [7] @ take 16 (nonce_from_counter 1 @ replicate 16 0)]"

lemma witness_cipher:
  "witness_encrypt nonce p = Some c \<Longrightarrow> witness_decrypt nonce c = Some p"
  "witness_encrypt nonce p = Some c \<Longrightarrow> length c = length p + 16"
  by (auto simp: witness_encrypt_def witness_decrypt_def)

lemma witness_frames_written: "write_e2e_frames witness_encrypt 0 [[1, 2], [7]] = Inr witness_frames"
  by (simp add: write_e2e_frame_def witness_encrypt_def witness_frames_def saturating_add_def Let_def)

theorem e2e_stream_delivered_witness:
  "read_e2e_frames witness_decrypt 2 (concat witness_frames @ [9]) = Inr ([[1, 2], [7]], [9])"
proof -
  have "list_all (\<lambda>p. length p + 28 \<le> MAX_FRAME_BYTES) [[1 :: u8, 2], [7]]"
    by (simp add: MAX_FRAME_BYTES_def)
  then have "read_e2e_frames witness_decrypt (length [[1 :: u8, 2], [7]]) (concat witness_frames @ [9])
      = Inr ([[1, 2], [7]], [9])"
    using e2e_stream_delivered [of witness_encrypt witness_decrypt "[[1, 2], [7]]" 0 witness_frames "[9]"]
      witness_cipher witness_frames_written by blast
  then show ?thesis by (simp add: numeral_2_eq_2)
qed

lemma e2e_frame_nonces:
  assumes "write_e2e_frames encrypt counter ps = Inr frames" and "unat counter + length ps \<le> 2 ^ 64"
  shows "map frame_nonce frames
    = map (\<lambda>i. nonce_from_counter (of_nat (unat counter + i))) [0..<length ps]"
  using assms
proof (induction ps arbitrary: counter frames)
  case (Cons p ps)
  obtain c fs where fs: "write_e2e_frames encrypt (saturating_add counter 1) ps = Inr fs"
      and frames: "frames = (u32_be (of_nat (12 + length c)) @ nonce_from_counter counter @ c) # fs"
    using Cons.prems(1) by (auto simp: write_e2e_frame_def Let_def res_simps)
  have nonce: "frame_nonce (hd frames) = nonce_from_counter counter"
    by (simp add: frames frame_nonce_def codec_simps)
  show ?case
  proof (cases "ps = []")
    case True
    then show ?thesis using nonce fs by (simp add: frames)
  next
    case False
    then have "unat counter + 1 < 2 ^ 64" using Cons.prems(2) by (cases ps) auto
    then have "unat (saturating_add counter 1) = unat counter + 1" by (simp add: unat_saturating_add)
    then have "map frame_nonce fs = map (\<lambda>i. nonce_from_counter (of_nat (unat counter + 1 + i))) [0..<length ps]"
      using Cons.IH [OF fs] Cons.prems(2) by simp
    then show ?thesis
      using nonce by (simp add: frames upt_conv_Cons map_Suc_upt [symmetric] comp_def del: upt_Suc of_nat_add)
  qed
qed simp

text \<open>A sender never uses a nonce twice: in the frames it writes, starting at counter zero, all nonces
  are different as long as there are at most \<open>2 ^ 64\<close> of them.\<close>

theorem e2e_nonces_distinct:
  assumes "write_e2e_frames encrypt 0 ps = Inr frames" and "length ps \<le> 2 ^ 64"
  shows "distinct (map frame_nonce frames)"
proof -
  have "inj_on (\<lambda>i. nonce_from_counter (of_nat i)) {0..<length ps}"
  proof (rule inj_onI)
    fix i j assume ij: "i \<in> {0..<length ps}" "j \<in> {0..<length ps}"
      and eq: "nonce_from_counter (of_nat i) = nonce_from_counter (of_nat j)"
    have "(of_nat i :: u64) = of_nat j" using eq by (simp add: nonce_from_counter_def u64_be_inject)
    then have "unat (of_nat i :: u64) = unat (of_nat j :: u64)" by simp
    then show "i = j" using ij assms(2) by (simp add: unat_of_nat)
  qed
  then show ?thesis using e2e_frame_nonces [OF assms(1)] assms(2) by (simp add: distinct_map)
qed

theorem e2e_nonces_distinct_witness: "distinct (map frame_nonce witness_frames)"
  by (rule e2e_nonces_distinct [OF witness_frames_written]) simp

end
