(* ===== verification/Relay_Server.thy ===== *)
theory Relay_Server
  imports Relay_Transport
begin

text \<open>
  The relay (\<open>talos_relay/src/main.rs\<close>): the handshake of a connection, the map of connections that wait
  for their peer, the clean-up of that map, the frame probe that watches the forwarded bytes, the
  bidirectional copy, and the configuration. A connection is the bytes its client sends before it
  closes; TLS is a parameter that turns the raw bytes into these. Instants are natural numbers.
  Fields that only feed log lines (roles, labels, the start time of a frame) are left out.
\<close>

section \<open>The handshake\<close>

datatype relay_error =
  TlsAccept | RequestLineClosed | RequestLineTooLong | UnsupportedMethod | InvalidRelayPath | MissingSessionId
  | HeadersClosed

text \<open>\<open>line\<close> is the vector read so far, latest byte first.\<close>

fun read_request_loop :: "bytes \<Rightarrow> bytes \<Rightarrow> relay_error + bytes \<times> bytes" where
  "read_request_loop line [] = Inl RequestLineClosed"
| "read_request_loop line (byte # stream) =
     (let line = byte # line in
      if byte = 10 then Inr (rev line, stream)
      else if length line > 4096 then Inl RequestLineTooLong
      else read_request_loop line stream)"

definition read_request_line :: "bytes \<Rightarrow> relay_error + ustr \<times> bytes" where
  "read_request_line stream =
     rbind (read_request_loop [] stream) (\<lambda>(line, stream). Inr (trim (from_utf8_lossy line), stream))"

definition parse_session_id :: "ustr \<Rightarrow> relay_error + ustr" where
  "parse_session_id request_line =
     (let parts = split_whitespace request_line;
          method = (case parts of p # _ \<Rightarrow> p | [] \<Rightarrow> []);
          path = (case parts of _ # p # _ \<Rightarrow> p | _ \<Rightarrow> []) in
      if method \<noteq> ascii ''GET'' then Inl UnsupportedMethod
      else
        let prefix = ascii ''/relay/'' in
        if \<not> starts_with path prefix then Inl InvalidRelayPath
        else
          let session_id = drop (length prefix) path in
          if session_id = [] then Inl MissingSessionId else Inr session_id)"

section \<open>Pending connections\<close>

record 'addr PendingConnection =
  pc_stream :: bytes
  pc_received_at :: nat
  pc_remote_addr :: 'addr
  pc_connection_id :: u64

record 'addr RelayState =
  rs_pending :: "ustr \<rightharpoonup> 'addr PendingConnection"
  rs_pending_ttl :: nat

text \<open>What a handler does with its connection: it fails, or it sends the response and either leaves the
  connection in the map or starts the copy with the connection that was waiting. A failure to
  write the response is a failure of the connection like any other and is not modelled.\<close>

datatype 'addr handled =
  Rejected relay_error
| Waiting bytes
| Paired bytes "'addr PendingConnection" bytes

definition RELAY_RESPONSE :: bytes where
  "RELAY_RESPONSE = bytes_of ''HTTP/1.1 200 OK'' @ [13, 10, 13, 10]"

definition handshake :: "bytes \<Rightarrow> relay_error + ustr \<times> bytes" where
  "handshake stream =
     rbind (read_request_line stream) (\<lambda>(request_line, stream).
     rbind (parse_session_id request_line) (\<lambda>session_id.
     case read_headers stream of Inl _ \<Rightarrow> Inl HeadersClosed | Inr stream \<Rightarrow> Inr (session_id, stream)))"

definition accept_stream :: "(bytes \<Rightarrow> bytes option) option \<Rightarrow> bytes \<Rightarrow> relay_error + bytes" where
  "accept_stream acceptor tcp_stream =
     (case acceptor of Some accept \<Rightarrow> ok_or TlsAccept (accept tcp_stream) | None \<Rightarrow> Inr tcp_stream)"

definition handle_connection ::
    "(bytes \<Rightarrow> bytes option) option \<Rightarrow> nat \<Rightarrow> bytes \<Rightarrow> 'addr \<Rightarrow> u64 \<Rightarrow> 'addr RelayState \<Rightarrow> 'addr RelayState \<times> 'addr handled" where
  "handle_connection acceptor now tcp_stream remote_addr connection_id state =
     (case rbind (accept_stream acceptor tcp_stream) handshake of
        Inl e \<Rightarrow> (state, Rejected e)
      | Inr (session_id, stream) \<Rightarrow>
          (case rs_pending state session_id of
             Some existing \<Rightarrow> (state\<lparr>rs_pending := (rs_pending state)(session_id := None)\<rparr>, Paired RELAY_RESPONSE existing stream)
           | None \<Rightarrow>
               (state\<lparr>rs_pending := (rs_pending state)(session_id \<mapsto>
                  \<lparr>pc_stream = stream, pc_received_at = now, pc_remote_addr = remote_addr,
                   pc_connection_id = connection_id\<rparr>)\<rparr>, Waiting RELAY_RESPONSE)))"

text \<open>One pass of the clean-up task; \<open>duration_since\<close> is zero for a later instant.\<close>

definition cleanup_pass :: "nat \<Rightarrow> 'addr RelayState \<Rightarrow> 'addr RelayState" where
  "cleanup_pass now state = state\<lparr>rs_pending := (\<lambda>session_id.
     case rs_pending state session_id of
       Some entry \<Rightarrow> if now - pc_received_at entry \<le> rs_pending_ttl state then Some entry else None
     | None \<Rightarrow> None)\<rparr>"

section \<open>The frame probe\<close>

definition RELAY_E2E_NONCE_BYTES :: nat where "RELAY_E2E_NONCE_BYTES = 12"
definition RELAY_E2E_MAX_FRAME_BYTES :: nat where "RELAY_E2E_MAX_FRAME_BYTES = 128 * 1024 * 1024"

record RelayFrameProbe =
  fp_next_frame_index :: u64
  fp_current_frame_index :: u64
  fp_completed_frames :: u64
  fp_header :: bytes
  fp_header_len :: nat
  fp_expected_frame_len :: "nat option"
  fp_current_frame_seen :: nat

definition RelayFrameProbe_new :: RelayFrameProbe where
  "RelayFrameProbe_new = \<lparr>fp_next_frame_index = 0, fp_current_frame_index = 0, fp_completed_frames = 0,
     fp_header = [0, 0, 0, 0], fp_header_len = 0, fp_expected_frame_len = None, fp_current_frame_seen = 0\<rparr>"

definition complete_current_frame :: "RelayFrameProbe \<Rightarrow> RelayFrameProbe" where
  "complete_current_frame p = p\<lparr>fp_expected_frame_len := None,
     fp_completed_frames := saturating_add (fp_completed_frames p) 1,
     fp_current_frame_seen := 0, fp_current_frame_index := 0\<rparr>"

text \<open>The part of an iteration after the fourth header byte is in.\<close>

definition start_frame :: "RelayFrameProbe \<Rightarrow> RelayFrameProbe" where
  "start_frame p =
     (let frame_len = unat (u32_of_be (fp_header p));
          index = saturating_add (fp_next_frame_index p) 1;
          p = p\<lparr>fp_header_len := 0, fp_next_frame_index := index, fp_current_frame_index := index,
                fp_expected_frame_len := Some frame_len, fp_current_frame_seen := 0\<rparr> in
      if frame_len = 0 then complete_current_frame p else p)"

text \<open>One iteration of the loop of \<open>observe\<close> on the probe and the bytes left. The copy into the header is
  the one of an in-range slice: \<open>header_len\<close> stays below four, see \<open>probe_inv\<close>.\<close>

definition observe_step :: "RelayFrameProbe \<Rightarrow> bytes \<Rightarrow> RelayFrameProbe \<times> bytes" where
  "observe_step p bytes =
     (case fp_expected_frame_len p of
        None \<Rightarrow>
          let needed = 4 - fp_header_len p;
              n = min needed (length bytes);
              p = p\<lparr>fp_header := take (fp_header_len p) (fp_header p) @ take n bytes
                                  @ drop (fp_header_len p + n) (fp_header p),
                    fp_header_len := fp_header_len p + n\<rparr>;
              bytes = drop n bytes in
          if fp_header_len p < 4 then (p, bytes) else (start_frame p, bytes)
      | Some expected \<Rightarrow>
          let remaining = expected - fp_current_frame_seen p;
              n = min remaining (length bytes);
              p = p\<lparr>fp_current_frame_seen := usize_saturating_add (fp_current_frame_seen p) n\<rparr>;
              bytes = drop n bytes in
          if fp_current_frame_seen p \<ge> expected then (complete_current_frame p, bytes) else (p, bytes))"

text \<open>Every iteration takes bytes, or takes none and moves the probe closer to where it does.\<close>

definition probe_rank :: "RelayFrameProbe \<Rightarrow> nat" where
  "probe_rank p = (case fp_expected_frame_len p of
     Some e \<Rightarrow> if e \<le> fp_current_frame_seen p then 3 else 0 | None \<Rightarrow> if 4 \<le> fp_header_len p then 2 else 0)"

function observe :: "RelayFrameProbe \<Rightarrow> bytes \<Rightarrow> RelayFrameProbe" where
  "observe p bytes =
     (if bytes = [] then p else case observe_step p bytes of (p', bytes') \<Rightarrow> observe p' bytes')"
  by pat_completeness auto
termination
proof (relation "measures [\<lambda>(_, bytes). length bytes, \<lambda>(p, _). probe_rank p]", goal_cases)
  case (2 p bytes p' bytes')
  have "0 < length bytes" using 2(1) by simp
  then show ?case
    using 2(2)
    by (auto simp: observe_step_def probe_rank_def start_frame_def complete_current_frame_def Let_def min_def
        split: option.splits if_splits)
qed simp

declare observe.simps [simp del]

section \<open>The bidirectional copy\<close>

definition RELAY_COPY_BUFFER_BYTES :: nat where "RELAY_COPY_BUFFER_BYTES = 64 * 1024"

record DirectionCopyStats =
  st_bytes :: u64
  st_chunks :: u64
  st_frames_started :: u64
  st_frames_completed :: u64

record DirectionState =
  ds_stats :: DirectionCopyStats
  ds_eof :: bool
  ds_probe :: RelayFrameProbe

definition DirectionState_new :: DirectionState where
  "DirectionState_new = \<lparr>ds_stats = \<lparr>st_bytes = 0, st_chunks = 0, st_frames_started = 0, st_frames_completed = 0\<rparr>,
     ds_eof = False, ds_probe = RelayFrameProbe_new\<rparr>"

definition frame_stats :: "RelayFrameProbe \<Rightarrow> DirectionCopyStats \<Rightarrow> DirectionCopyStats" where
  "frame_stats p st = st\<lparr>st_frames_started := fp_next_frame_index p, st_frames_completed := fp_completed_frames p\<rparr>"

definition observe_read :: "DirectionState \<Rightarrow> bytes \<Rightarrow> DirectionState" where
  "observe_read d bytes =
     (let st = (ds_stats d)\<lparr>st_bytes := saturating_add (st_bytes (ds_stats d)) (of_nat (length bytes)),
                            st_chunks := saturating_add (st_chunks (ds_stats d)) 1\<rparr>;
          probe = observe (ds_probe d) bytes in
      d\<lparr>ds_stats := frame_stats probe st, ds_probe := probe\<rparr>)"

definition observe_eof :: "DirectionState \<Rightarrow> DirectionState" where
  "observe_eof d = d\<lparr>ds_eof := True, ds_stats := frame_stats (ds_probe d) (ds_stats d)\<rparr>"

text \<open>The two streams of a copy, by side: \<open>PendingSide\<close> is \<open>stream_a\<close> and \<open>CurrentSide\<close> is \<open>stream_b\<close>. An
  end point has the bytes that will still arrive from it before it closes, the bytes written to
  it, and whether the relay has shut down its sending side. \<open>cp_dir s\<close> is the direction that
  reads from \<open>s\<close>.\<close>

datatype side = PendingSide | CurrentSide

fun other :: "side \<Rightarrow> side" where
  "other PendingSide = CurrentSide"
| "other CurrentSide = PendingSide"

record endpoint =
  ep_in :: bytes
  ep_out :: bytes
  ep_shutdown :: bool

record copy_state =
  cp_end :: "side \<Rightarrow> endpoint"
  cp_dir :: "side \<Rightarrow> DirectionState"
  cp_failed :: bool

definition copy_start :: "(side \<Rightarrow> bytes) \<Rightarrow> copy_state" where
  "copy_start input = \<lparr>cp_end = (\<lambda>s. \<lparr>ep_in = input s, ep_out = [], ep_shutdown = False\<rparr>),
     cp_dir = (\<lambda>_. DirectionState_new), cp_failed = False\<rparr>"

text \<open>\<open>take_chunk s n c\<close>: \<open>n\<close> bytes are read from \<open>s\<close> into the buffer and observed. \<open>forward s ys c\<close>: \<open>ys\<close> is
  written to the other side.\<close>

definition take_chunk :: "side \<Rightarrow> nat \<Rightarrow> copy_state \<Rightarrow> copy_state" where
  "take_chunk s n c = c\<lparr>cp_dir := (cp_dir c)(s := observe_read (cp_dir c s) (take n (ep_in (cp_end c s)))),
     cp_end := (cp_end c)(s := (cp_end c s)\<lparr>ep_in := drop n (ep_in (cp_end c s))\<rparr>)\<rparr>"

definition forward :: "side \<Rightarrow> bytes \<Rightarrow> copy_state \<Rightarrow> copy_state" where
  "forward s ys c = c\<lparr>cp_end := (cp_end c)(other s := (cp_end c (other s))\<lparr>ep_out := ep_out (cp_end c (other s)) @ ys\<rparr>)\<rparr>"

definition close_direction :: "side \<Rightarrow> copy_state \<Rightarrow> copy_state" where
  "close_direction s c = c\<lparr>cp_dir := (cp_dir c)(s := observe_eof (cp_dir c s)),
     cp_end := (cp_end c)(other s := (cp_end c (other s))\<lparr>ep_shutdown := True\<rparr>)\<rparr>"

text \<open>One iteration of the loop: \<open>select!\<close> takes any branch whose direction is not at its end and whose
  read is ready. A read gives between one byte and a full buffer of what is there, or nothing at
  the end of the input; it can fail, and so can the write, after part of the chunk went out. A
  failure to shut down is only logged.\<close>

inductive copy_step :: "copy_state \<Rightarrow> copy_state \<Rightarrow> bool" where
  copy_read: "\<lbrakk>\<not> cp_failed c; \<not> ds_eof (cp_dir c s); 0 < n; n \<le> RELAY_COPY_BUFFER_BYTES; n \<le> length (ep_in (cp_end c s))\<rbrakk>
    \<Longrightarrow> copy_step c (forward s (take n (ep_in (cp_end c s))) (take_chunk s n c))"
| copy_eof: "\<lbrakk>\<not> cp_failed c; \<not> ds_eof (cp_dir c s); ep_in (cp_end c s) = []\<rbrakk> \<Longrightarrow> copy_step c (close_direction s c)"
| copy_read_error: "\<lbrakk>\<not> cp_failed c; \<not> ds_eof (cp_dir c s)\<rbrakk> \<Longrightarrow> copy_step c (c\<lparr>cp_failed := True\<rparr>)"
| copy_write_error: "\<lbrakk>\<not> cp_failed c; \<not> ds_eof (cp_dir c s); 0 < n; n \<le> RELAY_COPY_BUFFER_BYTES;
      n \<le> length (ep_in (cp_end c s)); k \<le> n\<rbrakk>
    \<Longrightarrow> copy_step c ((forward s (take k (ep_in (cp_end c s))) (take_chunk s n c))\<lparr>cp_failed := True\<rparr>)"

definition copy_done :: "copy_state \<Rightarrow> bool" where
  "copy_done c \<longleftrightarrow> ds_eof (cp_dir c PendingSide) \<and> ds_eof (cp_dir c CurrentSide)"

inductive_cases copy_stepE: "copy_step c c'"

section \<open>Configuration\<close>

record 'addr Config =
  cfg_bind_addr :: 'addr
  cfg_tls_cert_path :: "ustr option"
  cfg_tls_key_path :: "ustr option"
  cfg_tls_terminated :: bool
  cfg_pending_ttl_secs :: u64
  cfg_cleanup_interval_secs :: u64

datatype config_error = BadBindAddr | CertPathMissing | KeyPathMissing

type_synonym env = "ustr \<rightharpoonup> ustr"

definition DEFAULT_RELAY_BIND_ADDR :: ustr where
  "DEFAULT_RELAY_BIND_ADDR = ascii ''127.0.0.1:443''"

definition flag_on :: "ustr \<Rightarrow> bool" where
  "flag_on value \<longleftrightarrow> to_ascii_lowercase (trim value) \<in> {ascii ''1'', ascii ''true'', ascii ''yes'', ascii ''on''}"

definition env_u64 :: "env \<Rightarrow> ustr \<Rightarrow> u64 \<Rightarrow> u64" where
  "env_u64 env key fallback =
     (case Option.bind (env key) (parse_unsigned (2 ^ 64 - 1)) of Some n \<Rightarrow> of_nat n | None \<Rightarrow> fallback)"

definition load_config :: "(ustr \<Rightarrow> 'addr option) \<Rightarrow> env \<Rightarrow> config_error + 'addr Config" where
  "load_config parse_addr env =
     (let bind_addr = (case env (ascii ''RMM_RELAY_BIND_ADDR'') of Some a \<Rightarrow> a | None \<Rightarrow> DEFAULT_RELAY_BIND_ADDR) in
      rbind (ok_or BadBindAddr (parse_addr bind_addr)) (\<lambda>bind_addr.
      let tls_terminated = (case env (ascii ''RMM_RELAY_TLS_TERMINATED'') of Some v \<Rightarrow> flag_on v | None \<Rightarrow> False);
          tls_cert_path = env (ascii ''RMM_RELAY_TLS_CERT_PATH'');
          tls_key_path = env (ascii ''RMM_RELAY_TLS_KEY_PATH'') in
      rbind (if \<not> tls_terminated then
               rbind (ok_or CertPathMissing tls_cert_path) (\<lambda>_. rbind (ok_or KeyPathMissing tls_key_path) (\<lambda>_. Inr ()))
             else Inr ()) (\<lambda>_.
      Inr \<lparr>cfg_bind_addr = bind_addr, cfg_tls_cert_path = tls_cert_path, cfg_tls_key_path = tls_key_path,
           cfg_tls_terminated = tls_terminated,
           cfg_pending_ttl_secs = env_u64 env (ascii ''RMM_RELAY_PENDING_TTL_SECS'') 600,
           cfg_cleanup_interval_secs = env_u64 env (ascii ''RMM_RELAY_CLEANUP_INTERVAL_SECS'') 30\<rparr>)))"

text \<open>The fallback loader of the environment file. \<open>Inl\<close> of the read is a file that cannot be read.\<close>

fun pair_units :: "(u8 \<Rightarrow> u8 \<Rightarrow> nat) \<Rightarrow> bytes \<Rightarrow> nat list" where
  "pair_units f (a # b # rest) = f a b # pair_units f rest"
| "pair_units f _ = []"

definition env_contents :: "bytes \<Rightarrow> ustr option" where
  "env_contents bytes =
     (if take 2 bytes = [0xFF, 0xFE] then from_utf16 (pair_units (\<lambda>a b. unat a + 256 * unat b) (drop 2 bytes))
      else if take 2 bytes = [0xFE, 0xFF] then from_utf16 (pair_units (\<lambda>a b. 256 * unat a + unat b) (drop 2 bytes))
      else from_utf8 bytes)"

definition fallback_keys :: "ustr list" where
  "fallback_keys = [ascii ''RMM_RELAY_TLS_CERT_PATH'', ascii ''RMM_RELAY_TLS_KEY_PATH'', ascii ''RMM_RELAY_TLS_TERMINATED'']"

definition env_line :: "env \<Rightarrow> ustr \<Rightarrow> env" where
  "env_line env line =
     (let trimmed = trim line in
      if trimmed = [] \<or> starts_with trimmed (ascii ''#'') then env
      else case split_once (of_char (CHR ''='')) trimmed of
          None \<Rightarrow> env
        | Some (key, value) \<Rightarrow>
            let key = trim key in
            if key \<notin> set fallback_keys then env
            else if env key = None then env(key \<mapsto> trim_matches 34 (trim value)) else env)"

definition load_env_fallback :: "bytes option \<Rightarrow> env \<Rightarrow> env" where
  "load_env_fallback file env =
     (if env (ascii ''RMM_RELAY_TLS_TERMINATED'') \<noteq> None \<and> env (ascii ''RMM_RELAY_TLS_CERT_PATH'') \<noteq> None
         \<and> env (ascii ''RMM_RELAY_TLS_KEY_PATH'') \<noteq> None then env
      else case file of None \<Rightarrow> env
        | Some bytes \<Rightarrow>
            (case env_contents bytes of None \<Rightarrow> env | Some contents \<Rightarrow> foldl env_line env (split_lines [] contents)))"

lemma env_line_extends: "env \<subseteq>\<^sub>m env_line env line" "dom (env_line env line) \<subseteq> dom env \<union> set fallback_keys"
  by (auto simp: env_line_def Let_def map_le_def split: option.splits prod.splits if_splits)

lemma env_lines_extend:
  "env \<subseteq>\<^sub>m foldl env_line env ls \<and> dom (foldl env_line env ls) \<subseteq> dom env \<union> set fallback_keys"
proof (induction ls arbitrary: env)
  case (Cons l ls)
  note tail = Cons [of "env_line env l"] and head = env_line_extends [of env l]
  have "env \<subseteq>\<^sub>m foldl env_line env (l # ls)" using head(1) tail by (auto intro: map_le_trans)
  moreover have "dom (foldl env_line env (l # ls)) \<subseteq> dom env \<union> set fallback_keys"
    unfolding foldl_Cons using head(2) tail by blast
  ultimately show ?case by blast
qed simp

text \<open>The environment file can only fill gaps: whatever it holds, the fallback loader keeps the value of
  every variable that is set, and sets no variable but the three of the TLS configuration. And a
  configuration is accepted only if the relay has both TLS paths or runs behind a proxy that
  terminates TLS.\<close>

theorem relay_config_safe:
  "env \<subseteq>\<^sub>m load_env_fallback file env \<and> dom (load_env_fallback file env) \<subseteq> dom env \<union> set fallback_keys
   \<and> (case load_config parse_addr env of
        Inr cfg \<Rightarrow> cfg_tls_terminated cfg \<or> (cfg_tls_cert_path cfg \<noteq> None \<and> cfg_tls_key_path cfg \<noteq> None)
      | Inl _ \<Rightarrow> True)"
proof -
  have "env \<subseteq>\<^sub>m load_env_fallback file env \<and> dom (load_env_fallback file env) \<subseteq> dom env \<union> set fallback_keys"
    using env_lines_extend [of env] by (auto simp: load_env_fallback_def split: option.splits)
  moreover have "cfg_tls_terminated cfg \<or> (cfg_tls_cert_path cfg \<noteq> None \<and> cfg_tls_key_path cfg \<noteq> None)"
    if "load_config parse_addr env = Inr cfg" for cfg
    using that by (auto simp: load_config_def Let_def res_simps split: if_splits)
  ultimately show ?thesis by (auto split: sum.splits)
qed

end
