(* ===== verification/Relay_Copy.thy ===== *)
theory Relay_Copy
  imports Relay_Server
begin

text \<open>
  The forwarding of the relay. The frame probe does not depend on how the bytes are cut into chunks
  and counts the frames of the stream; the copy loop forwards each direction unchanged, ends, and
  never gets stuck.
\<close>

section \<open>The probe, byte by byte\<close>

definition probe_inv :: "RelayFrameProbe \<Rightarrow> bool" where
  "probe_inv p \<longleftrightarrow> length (fp_header p) = 4 \<and> fp_header_len p < 4
     \<and> (case fp_expected_frame_len p of
          Some e \<Rightarrow> fp_current_frame_seen p < e \<and> e < 2 ^ 32 \<and> fp_header_len p = 0
        | None \<Rightarrow> fp_current_frame_seen p = 0)"

definition byte_step :: "RelayFrameProbe \<Rightarrow> u8 \<Rightarrow> RelayFrameProbe" where
  "byte_step p b =
     (case fp_expected_frame_len p of
        None \<Rightarrow>
          let q = p\<lparr>fp_header := (fp_header p)[fp_header_len p := b], fp_header_len := Suc (fp_header_len p)\<rparr> in
          if Suc (fp_header_len p) < 4 then q else start_frame q
      | Some e \<Rightarrow>
          let q = p\<lparr>fp_current_frame_seen := Suc (fp_current_frame_seen p)\<rparr> in
          if e \<le> Suc (fp_current_frame_seen p) then complete_current_frame q else q)"

lemma probe_inv_new: "probe_inv RelayFrameProbe_new"
  by (simp add: probe_inv_def RelayFrameProbe_new_def)

lemma probe_inv_start: "length (fp_header p) = 4 \<Longrightarrow> probe_inv (start_frame p)"
  using unat_bound [of "u32_of_be (fp_header p)"]
  by (simp add: probe_inv_def start_frame_def complete_current_frame_def Let_def)

lemma probe_inv_byte: "probe_inv p \<Longrightarrow> probe_inv (byte_step p b)"
proof (cases "fp_expected_frame_len p")
  case None
  assume "probe_inv p"
  then show ?thesis
    using None by (auto simp: byte_step_def Let_def intro!: probe_inv_start) (auto simp: probe_inv_def)
next
  case (Some e)
  assume "probe_inv p"
  then show ?thesis
    using Some by (auto simp: byte_step_def Let_def probe_inv_def complete_current_frame_def)
qed

lemma probe_inv_fold: "probe_inv p \<Longrightarrow> probe_inv (foldl byte_step p bs)"
  by (induction bs arbitrary: p) (auto intro: probe_inv_byte)

text \<open>Several bytes at once, inside a header and inside a frame.\<close>

lemma fold_header:
  assumes "probe_inv p" "fp_expected_frame_len p = None" "fp_header_len p + length xs < 4"
  shows "foldl byte_step p xs = p\<lparr>fp_header := take (fp_header_len p) (fp_header p) @ xs
      @ drop (fp_header_len p + length xs) (fp_header p), fp_header_len := fp_header_len p + length xs\<rparr>"
  using assms
proof (induction xs arbitrary: p)
  case (Cons b xs)
  let ?h = "fp_header p" let ?n = "fp_header_len p"
  let ?q = "p\<lparr>fp_header := ?h[?n := b], fp_header_len := Suc ?n\<rparr>"
  have q: "byte_step p b = ?q" using Cons.prems by (simp add: byte_step_def Let_def)
  have n: "?n < length ?h" using Cons.prems by (simp add: probe_inv_def)
  have "foldl byte_step ?q xs = ?q\<lparr>fp_header := take (Suc ?n) (?h[?n := b]) @ xs
      @ drop (Suc ?n + length xs) (?h[?n := b]), fp_header_len := Suc ?n + length xs\<rparr>"
    using Cons.IH [of ?q] probe_inv_byte [OF Cons.prems(1), of b] Cons.prems q by simp
  then show ?case
    using q n by (simp add: take_Suc_conv_app_nth)
qed simp

lemma fold_payload:
  assumes "fp_expected_frame_len p = Some e" "fp_current_frame_seen p + length xs < e"
  shows "foldl byte_step p xs = p\<lparr>fp_current_frame_seen := fp_current_frame_seen p + length xs\<rparr>"
  using assms
proof (induction xs arbitrary: p)
  case (Cons b xs)
  have "byte_step p b = p\<lparr>fp_current_frame_seen := Suc (fp_current_frame_seen p)\<rparr>"
    using Cons.prems by (simp add: byte_step_def Let_def)
  then show ?case using Cons.IH [of "byte_step p b"] Cons.prems by simp
qed simp

lemma fold_header_end:
  assumes "probe_inv p" "fp_expected_frame_len p = None" "fp_header_len p + length xs = 4"
  shows "foldl byte_step p xs = start_frame (p\<lparr>fp_header := take (fp_header_len p) (fp_header p) @ xs, fp_header_len := 4\<rparr>)"
proof -
  have "xs \<noteq> []" using assms by (auto simp: probe_inv_def)
  then obtain ys b where xs: "xs = ys @ [b]" by (cases xs rule: rev_cases) auto
  have n: "fp_header_len p + length ys = 3" using assms(3) xs by simp
  have len: "length (fp_header p) = 4" using assms(1) by (simp add: probe_inv_def)
  have fold: "foldl byte_step p ys = p\<lparr>fp_header := take (fp_header_len p) (fp_header p) @ ys
      @ drop 3 (fp_header p), fp_header_len := 3\<rparr>"
    using fold_header [OF assms(1,2), of ys] n by simp
  have "(take (fp_header_len p) (fp_header p) @ ys @ drop 3 (fp_header p))[3 := b]
      = take (fp_header_len p) (fp_header p) @ ys @ [b]"
  proof -
    obtain d where "drop 3 (fp_header p) = [d]"
      using len by (metis Cons_nth_drop_Suc Suc_1 drop_all eval_nat_numeral(3) lessI numeral_3_eq_3 numeral_eq_Suc
          order_refl Suc_numeral semiring_norm(2,8))
    moreover have "length (take (fp_header_len p) (fp_header p) @ ys) = 3" using n len by simp
    ultimately show ?thesis by (metis append.assoc list_update_length)
  qed
  then show ?thesis using assms(2) fold by (simp add: xs byte_step_def Let_def)
qed

lemma fold_payload_end:
  assumes "fp_expected_frame_len p = Some e" "fp_current_frame_seen p + length xs = e" "xs \<noteq> []"
  shows "foldl byte_step p xs = complete_current_frame (p\<lparr>fp_current_frame_seen := e\<rparr>)"
proof -
  obtain ys b where xs: "xs = ys @ [b]" using assms(3) by (cases xs rule: rev_cases) auto
  then have "foldl byte_step p ys = p\<lparr>fp_current_frame_seen := fp_current_frame_seen p + length ys\<rparr>"
    using fold_payload [OF assms(1), of ys] assms(2) by simp
  then show ?thesis using assms(1,2) xs by (auto simp: byte_step_def Let_def)
qed

text \<open>One iteration of the loop is the same as the bytes it takes, one after the other.\<close>

lemma observe_step_fold:
  assumes "probe_inv p" and "bytes \<noteq> []" and "observe_step p bytes = (p', rest)"
  shows "\<exists>pre. bytes = pre @ rest \<and> p' = foldl byte_step p pre"
proof (cases "fp_expected_frame_len p")
  case None
  let ?n = "min (4 - fp_header_len p) (length bytes)"
  have h: "fp_header_len p < 4" "length (fp_header p) = 4" using assms(1) by (simp_all add: probe_inv_def)
  have rest: "rest = drop ?n bytes" using assms(3) None by (auto simp: observe_step_def Let_def split: if_splits)
  have "p' = foldl byte_step p (take ?n bytes)"
  proof (cases "fp_header_len p + ?n < 4")
    case True
    then show ?thesis
      using assms(3) None fold_header [OF assms(1) None, of "take ?n bytes"] h
      by (auto simp: observe_step_def Let_def split: if_splits)
  next
    case False
    then have "fp_header_len p + ?n = 4" using h by linarith
    then show ?thesis
      using assms(3) None fold_header_end [OF assms(1) None, of "take ?n bytes"] h
      by (auto simp: observe_step_def Let_def split: if_splits)
  qed
  then show ?thesis using rest by (metis append_take_drop_id)
next
  case (Some e)
  let ?n = "min (e - fp_current_frame_seen p) (length bytes)"
  have h: "fp_current_frame_seen p < e" "e < 2 ^ 32" using assms(1) Some by (simp_all add: probe_inv_def)
  have rest: "rest = drop ?n bytes" using assms(3) Some by (auto simp: observe_step_def Let_def split: if_splits)
  have sat: "usize_saturating_add (fp_current_frame_seen p) ?n = fp_current_frame_seen p + ?n"
    using h by (simp add: usize_saturating_add_def usize_max_def)
  have "p' = foldl byte_step p (take ?n bytes)"
  proof (cases "fp_current_frame_seen p + ?n < e")
    case True
    then show ?thesis
      using assms(3) Some fold_payload [OF Some, of "take ?n bytes"] sat
      by (auto simp: observe_step_def Let_def split: if_splits)
  next
    case False
    then have "fp_current_frame_seen p + ?n = e" using h by linarith
    then show ?thesis
      using assms(2,3) Some fold_payload_end [OF Some, of "take ?n bytes"] sat h
      by (auto simp: observe_step_def Let_def split: if_splits)
  qed
  then show ?thesis using rest by (metis append_take_drop_id)
qed

lemma observe_fold: "probe_inv p \<Longrightarrow> observe p bytes = foldl byte_step p bytes"
proof (induction p bytes rule: observe.induct)
  case (1 p bytes)
  show ?case
  proof (cases "bytes = []")
    case True
    then show ?thesis by (subst observe.simps) simp
  next
    case False
    obtain p' rest where step: "observe_step p bytes = (p', rest)" by fastforce
    obtain pre where pre: "bytes = pre @ rest" "p' = foldl byte_step p pre"
      using observe_step_fold [OF "1.prems" False step] by blast
    have "observe p' rest = foldl byte_step p' rest"
      using "1.IH" [OF False step [symmetric]] probe_inv_fold [OF "1.prems"] pre(2) by simp
    moreover have "observe p bytes = observe p' rest" using False step by (subst observe.simps) simp
    ultimately show ?thesis using pre by simp
  qed
qed

lemma observe_append: "probe_inv p \<Longrightarrow> observe p (xs @ ys) = observe (observe p xs) ys"
  by (simp add: observe_fold probe_inv_fold)

lemma observe_inv: "probe_inv p \<Longrightarrow> probe_inv (observe p xs)"
  by (simp add: observe_fold probe_inv_fold)

section \<open>The frames of a stream\<close>

text \<open>The reference: how many frames of a stream have begun and how many are complete, for the whole
  stream at once.\<close>

function count_frames :: "bytes \<Rightarrow> nat \<times> nat" where
  "count_frames bytes =
     (if length bytes < 4 then (0, 0)
      else let frame_len = unat (u32_of_be (take 4 bytes)) in
        if length bytes < 4 + frame_len then (1, 0)
        else case count_frames (drop (4 + frame_len) bytes) of (started, completed) \<Rightarrow> (started + 1, completed + 1))"
  by pat_completeness auto
termination
  by (relation "measure length") auto

declare count_frames.simps [simp del]

definition at_boundary :: "RelayFrameProbe \<Rightarrow> bool" where
  "at_boundary p \<longleftrightarrow> probe_inv p \<and> fp_header_len p = 0 \<and> fp_expected_frame_len p = None"

lemma fold_full_header:
  assumes "at_boundary p" "length hdr = 4"
  shows "foldl byte_step p hdr = start_frame (p\<lparr>fp_header := hdr, fp_header_len := 4\<rparr>)"
  using assms fold_header_end [of p hdr] by (simp add: at_boundary_def)

text \<open>A probe at a frame boundary, after one complete frame and after the beginning of one.\<close>

lemma fold_frame:
  assumes p: "at_boundary p" and hdr: "length hdr = 4" and body: "length body = unat (u32_of_be hdr)"
  shows "at_boundary (foldl byte_step p (hdr @ body))"
    "fp_next_frame_index (foldl byte_step p (hdr @ body)) = saturating_add (fp_next_frame_index p) 1"
    "fp_completed_frames (foldl byte_step p (hdr @ body)) = saturating_add (fp_completed_frames p) 1"
proof -
  let ?q = "foldl byte_step p hdr" let ?r = "foldl byte_step p (hdr @ body)"
  have q: "?q = start_frame (p\<lparr>fp_header := hdr, fp_header_len := 4\<rparr>)" by (rule fold_full_header [OF p hdr])
  have inv: "probe_inv ?r" using p probe_inv_fold by (simp add: at_boundary_def)
  have "fp_header_len ?r = 0 \<and> fp_expected_frame_len ?r = None
      \<and> fp_next_frame_index ?r = saturating_add (fp_next_frame_index p) 1
      \<and> fp_completed_frames ?r = saturating_add (fp_completed_frames p) 1"
  proof (cases "body = []")
    case True
    then show ?thesis using q body by (simp add: start_frame_def complete_current_frame_def Let_def)
  next
    case False
    then have len: "unat (u32_of_be hdr) \<noteq> 0" unfolding body [symmetric] by simp
    then have "foldl byte_step ?q body = complete_current_frame (?q\<lparr>fp_current_frame_seen := length body\<rparr>)"
      using q body False by (intro fold_payload_end) (simp_all add: start_frame_def Let_def)
    then show ?thesis using len q body by (simp add: start_frame_def complete_current_frame_def Let_def)
  qed
  then show "at_boundary ?r" "fp_next_frame_index ?r = saturating_add (fp_next_frame_index p) 1"
    "fp_completed_frames ?r = saturating_add (fp_completed_frames p) 1"
    using inv by (simp_all add: at_boundary_def)
qed

lemma fold_partial:
  assumes p: "at_boundary p" and hdr: "length hdr = 4" and body: "length body < unat (u32_of_be hdr)"
  shows "fp_next_frame_index (foldl byte_step p (hdr @ body)) = saturating_add (fp_next_frame_index p) 1"
    "fp_completed_frames (foldl byte_step p (hdr @ body)) = fp_completed_frames p"
proof -
  let ?q = "foldl byte_step p hdr"
  have q: "?q = start_frame (p\<lparr>fp_header := hdr, fp_header_len := 4\<rparr>)" by (rule fold_full_header [OF p hdr])
  then have "foldl byte_step ?q body = ?q\<lparr>fp_current_frame_seen := 0 + length body\<rparr>"
    using fold_payload [of ?q "unat (u32_of_be hdr)" body] body by (simp add: start_frame_def Let_def)
  then show "fp_next_frame_index (foldl byte_step p (hdr @ body)) = saturating_add (fp_next_frame_index p) 1"
    "fp_completed_frames (foldl byte_step p (hdr @ body)) = fp_completed_frames p"
    using q body by (simp_all add: start_frame_def Let_def)
qed

lemma unat_saturating_Suc:
  "unat (saturating_add (a :: u64) 1) = min (2 ^ 64 - 1) (unat a + 1)"
  by (simp add: unat_saturating_add)

lemma fold_counts:
  assumes "at_boundary p"
  shows "unat (fp_next_frame_index (foldl byte_step p bytes))
      = min (2 ^ 64 - 1) (unat (fp_next_frame_index p) + fst (count_frames bytes))
    \<and> unat (fp_completed_frames (foldl byte_step p bytes))
      = min (2 ^ 64 - 1) (unat (fp_completed_frames p) + snd (count_frames bytes))"
  using assms
proof (induction bytes arbitrary: p rule: count_frames.induct)
  case (1 bytes)
  have bounds: "unat (fp_next_frame_index p) \<le> 2 ^ 64 - 1" "unat (fp_completed_frames p) \<le> 2 ^ 64 - 1"
    using unat_bound [of "fp_next_frame_index p"] unat_bound [of "fp_completed_frames p"] by simp_all
  let ?hdr = "take 4 bytes" let ?len = "unat (u32_of_be (take 4 bytes))"
  consider (short) "length bytes < 4" | (partial) "4 \<le> length bytes" "length bytes < 4 + ?len"
    | (frame) "4 \<le> length bytes" "4 + ?len \<le> length bytes" by linarith
  then show ?case
  proof cases
    case short
    then show ?thesis
      using fold_header [of p bytes] "1.prems" bounds
      by (simp add: at_boundary_def count_frames.simps [of bytes])
  next
    case partial
    then have "length (drop 4 bytes) < ?len" by simp
    then show ?thesis
      using fold_partial [OF "1.prems", of ?hdr "drop 4 bytes"] partial bounds
      by (simp add: count_frames.simps [of bytes] Let_def unat_saturating_Suc)
  next
    case frame
    let ?body = "take ?len (drop 4 bytes)" let ?rest = "drop (4 + ?len) bytes"
    have body: "length ?body = ?len" "length ?hdr = 4" using frame by simp_all
    have split: "bytes = (?hdr @ ?body) @ ?rest"
      by (metis append.assoc append_take_drop_id drop_drop add.commute)
    have fold: "foldl byte_step p bytes = foldl byte_step (foldl byte_step p (?hdr @ ?body)) ?rest"
      by (subst split) (simp only: foldl_append)
    have counts: "count_frames bytes = (fst (count_frames ?rest) + 1, snd (count_frames ?rest) + 1)"
      using frame by (subst count_frames.simps) (simp add: Let_def split: prod.splits)
    note ff = fold_frame [OF "1.prems" body(2) body(1)]
    show ?thesis
      using "1.IH" [OF _ refl _ ff(1)] frame
      unfolding fold counts ff(2,3) unat_saturating_Suc by auto
  qed
qed

lemma boundary_new: "at_boundary RelayFrameProbe_new"
  by (simp add: at_boundary_def probe_inv_new) (simp add: RelayFrameProbe_new_def)

lemma observe_chunks: "probe_inv p \<Longrightarrow> foldl observe p chunks = observe p (concat chunks)"
proof (induction chunks arbitrary: p)
  case (Cons c chunks)
  then show ?case using observe_inv [OF Cons.prems, of c] observe_append [OF Cons.prems] by simp
qed (subst observe.simps, simp)

lemma observe_new_counts:
  "unat (fp_next_frame_index (observe RelayFrameProbe_new bytes)) = min (2 ^ 64 - 1) (fst (count_frames bytes))"
  "unat (fp_completed_frames (observe RelayFrameProbe_new bytes)) = min (2 ^ 64 - 1) (snd (count_frames bytes))"
  using fold_counts [OF boundary_new, of bytes] observe_fold [OF probe_inv_new, of bytes]
  by (simp_all add: RelayFrameProbe_new_def)

text \<open>C31. The frame probe of the relay counts frames correctly however the bytes arrive: after any sequence
  of chunks, the numbers of frames begun and completed are those of the whole stream, up to the
  saturation of the 64-bit counters. Cutting in the middle of a length prefix or of a frame
  makes no difference.\<close>

theorem probe_counts_stream:
  "unat (fp_next_frame_index (foldl observe RelayFrameProbe_new chunks))
     = min (2 ^ 64 - 1) (fst (count_frames (concat chunks)))
   \<and> unat (fp_completed_frames (foldl observe RelayFrameProbe_new chunks))
     = min (2 ^ 64 - 1) (snd (count_frames (concat chunks)))"
  using observe_new_counts [of "concat chunks"] observe_chunks [OF probe_inv_new, of chunks] by simp

text \<open>The frames of a sender of encrypted frames, as the probe sees them.\<close>

lemma count_frames_frame:
  assumes "length body < 2 ^ 32"
  shows "count_frames (u32_be (of_nat (length body)) @ body @ rest)
    = (fst (count_frames rest) + 1, snd (count_frames rest) + 1)"
proof -
  have "unat (of_nat (length body) :: u32) = length body" using assms by (intro unat_of_nat_bound) simp
  then show ?thesis
    by (subst count_frames.simps) (simp add: codec_simps Let_def split: prod.splits)
qed

lemma count_written_frames:
  assumes "write_e2e_frames encrypt counter ps = Inr frames"
    and "\<And>nonce p c. encrypt nonce p = Some c \<Longrightarrow> length c = length p + 16"
    and "list_all (\<lambda>p. length p + 28 \<le> MAX_FRAME_BYTES) ps"
  shows "count_frames (concat frames) = (length ps, length ps)"
  using assms(1,3)
proof (induction ps arbitrary: counter frames)
  case Nil
  then show ?case by (subst count_frames.simps) simp
next
  case (Cons p ps)
  obtain c fs where c: "encrypt (nonce_from_counter counter) p = Some c"
      and fs: "write_e2e_frames encrypt (saturating_add counter 1) ps = Inr fs"
      and frames: "frames = (u32_be (of_nat (12 + length c)) @ nonce_from_counter counter @ c) # fs"
    using Cons.prems(1) by (auto simp: write_e2e_frame_def Let_def res_simps)
  have "length (nonce_from_counter counter @ c) < 2 ^ 32"
    using assms(2) [OF c] Cons.prems(2) by (simp add: MAX_FRAME_BYTES_def)
  from count_frames_frame [OF this, of "concat fs"] show ?case
    using Cons.IH [OF fs] Cons.prems(2) by (simp add: frames)
qed

text \<open>What the relay sees of a session matches what its ends do: when a client writes encrypted frames,
  the relay's probe has counted, after all bytes went through in any chunks, exactly as many
  frames begun and completed as were written.\<close>

theorem relay_counts_e2e_frames:
  assumes "write_e2e_frames encrypt counter ps = Inr frames"
    and "\<And>nonce p c. encrypt nonce p = Some c \<Longrightarrow> length c = length p + 16"
    and "list_all (\<lambda>p. length p + 28 \<le> MAX_FRAME_BYTES) ps" and "length ps < 2 ^ 64"
    and "concat chunks = concat frames"
  shows "unat (fp_next_frame_index (foldl observe RelayFrameProbe_new chunks)) = length ps
    \<and> unat (fp_completed_frames (foldl observe RelayFrameProbe_new chunks)) = length ps"
proof -
  have "foldl observe RelayFrameProbe_new chunks = observe RelayFrameProbe_new (concat frames)"
    using observe_chunks [OF probe_inv_new, of chunks] assms(5) by simp
  then show ?thesis
    using observe_new_counts [of "concat frames"] count_written_frames [OF assms(1-3)] assms(4) by simp
qed

theorem relay_counts_e2e_frames_witness:
  "unat (fp_completed_frames (foldl observe RelayFrameProbe_new [take 3 (concat witness_frames), drop 3 (concat witness_frames)])) = 2"
proof -
  have "list_all (\<lambda>p. length p + 28 \<le> MAX_FRAME_BYTES) [[1 :: u8, 2], [7]]" by (simp add: MAX_FRAME_BYTES_def)
  then show ?thesis
    using relay_counts_e2e_frames [OF witness_frames_written witness_cipher(2), where chunks =
        "[take 3 (concat witness_frames), drop 3 (concat witness_frames)]"]
    by simp
qed

section \<open>The copy loop\<close>

text \<open>What holds of one direction, reading from side \<open>s\<close>: \<open>consumed\<close> has been read.\<close>

definition direction_ok :: "bytes \<Rightarrow> copy_state \<Rightarrow> side \<Rightarrow> bytes \<Rightarrow> bool" where
  "direction_ok input c s consumed \<longleftrightarrow>
     input = consumed @ ep_in (cp_end c s)
     \<and> (\<exists>lost. consumed = ep_out (cp_end c (other s)) @ lost \<and> (cp_failed c \<or> lost = []))
     \<and> ds_probe (cp_dir c s) = observe RelayFrameProbe_new consumed
     \<and> unat (st_bytes (ds_stats (cp_dir c s))) = min (2 ^ 64 - 1) (length consumed)
     \<and> st_frames_started (ds_stats (cp_dir c s)) = fp_next_frame_index (ds_probe (cp_dir c s))
     \<and> st_frames_completed (ds_stats (cp_dir c s)) = fp_completed_frames (ds_probe (cp_dir c s))
     \<and> (ds_eof (cp_dir c s) \<longrightarrow> ep_in (cp_end c s) = [] \<and> ep_shutdown (cp_end c (other s)))"

definition copy_inv :: "(side \<Rightarrow> bytes) \<Rightarrow> copy_state \<Rightarrow> bool" where
  "copy_inv input c \<longleftrightarrow> (\<forall>s. \<exists>consumed. direction_ok (input s) c s consumed)"

lemma other_neq [simp]: "other s \<noteq> s" "s \<noteq> other s" "other (other s) = s"
  by (cases s; simp)+

lemma other_cases: "t = s \<or> t = other s"
  by (cases s; cases t; simp)

lemma observe_nil: "observe p [] = p"
  by (subst observe.simps) simp

lemma copy_inv_start: "copy_inv input (copy_start input)"
  by (auto simp: copy_inv_def direction_ok_def copy_start_def DirectionState_new_def RelayFrameProbe_new_def observe_nil)

lemma direction_read:
  assumes ok: "direction_ok input c s consumed" and live: "\<not> cp_failed c" "\<not> ds_eof (cp_dir c s)"
    and n: "n \<le> length (ep_in (cp_end c s))" "k \<le> n" "n \<le> RELAY_COPY_BUFFER_BYTES"
    and failed: "failed \<or> k = n"
  shows "direction_ok input ((forward s (take k (ep_in (cp_end c s))) (take_chunk s n c))\<lparr>cp_failed := failed\<rparr>) s
      (consumed @ take n (ep_in (cp_end c s)))"
proof -
  let ?in = "ep_in (cp_end c s)"
  let ?c = "(forward s (take k ?in) (take_chunk s n c))\<lparr>cp_failed := failed\<rparr>"
  have dir: "cp_dir ?c s = observe_read (cp_dir c s) (take n ?in)"
    and in': "ep_in (cp_end ?c s) = drop n ?in"
    and out: "ep_out (cp_end ?c (other s)) = ep_out (cp_end c (other s)) @ take k ?in"
    by (simp_all add: forward_def take_chunk_def)
  have probe: "ds_probe (observe_read (cp_dir c s) (take n ?in)) = observe RelayFrameProbe_new (consumed @ take n ?in)"
    using ok observe_append [OF probe_inv_new] by (simp add: observe_read_def direction_ok_def Let_def)
  have "unat (of_nat (length (take n ?in)) :: u64) = length (take n ?in)"
    using n by (intro unat_of_nat_bound) (simp add: RELAY_COPY_BUFFER_BYTES_def)
  then have bytes: "unat (st_bytes (ds_stats (observe_read (cp_dir c s) (take n ?in))))
      = min (2 ^ 64 - 1) (length (consumed @ take n ?in))"
    using ok by (simp add: observe_read_def direction_ok_def Let_def frame_stats_def unat_saturating_add)
  have out_eq: "consumed = ep_out (cp_end c (other s))" using ok live by (auto simp: direction_ok_def)
  have "take k ?in @ drop k (take n ?in) = take n ?in"
    using append_take_drop_id [of k "take n ?in"] n(2) by (simp only: take_take min.absorb1)
  then have lost: "consumed @ take n ?in = ep_out (cp_end ?c (other s)) @ drop k (take n ?in)"
    unfolding out append_assoc out_eq [symmetric] by simp
  have whole: "input = (consumed @ take n ?in) @ drop n ?in" using ok by (simp add: direction_ok_def)
  have "\<exists>lost. consumed @ take n ?in = ep_out (cp_end ?c (other s)) @ lost \<and> (cp_failed ?c \<or> lost = [])"
    using lost failed by (intro exI [of _ "drop k (take n ?in)"]) auto
  then show ?thesis
    unfolding direction_ok_def dir in'
    using whole probe bytes live(2) by (auto simp: observe_read_def frame_stats_def Let_def)
qed

lemma direction_frame:
  assumes "direction_ok input c t consumed" and "cp_failed c \<longrightarrow> cp_failed c'"
    and "cp_dir c' t = cp_dir c t" "ep_in (cp_end c' t) = ep_in (cp_end c t)"
    and "ep_out (cp_end c' (other t)) = ep_out (cp_end c (other t))"
    and "ep_shutdown (cp_end c (other t)) \<longrightarrow> ep_shutdown (cp_end c' (other t))"
  shows "direction_ok input c' t consumed"
  using assms by (auto simp: direction_ok_def)

lemma copy_step_chunk_inv:
  assumes inv: "copy_inv input c" and live: "\<not> cp_failed c" "\<not> ds_eof (cp_dir c s)"
    and n: "n \<le> length (ep_in (cp_end c s))" "k \<le> n" "n \<le> RELAY_COPY_BUFFER_BYTES" and failed: "failed \<or> k = n"
  shows "copy_inv input ((forward s (take k (ep_in (cp_end c s))) (take_chunk s n c))\<lparr>cp_failed := failed\<rparr>)"
    (is "copy_inv input ?c")
  unfolding copy_inv_def
proof
  fix t
  obtain consumed where ok: "direction_ok (input t) c t consumed" using inv by (auto simp: copy_inv_def)
  show "\<exists>consumed. direction_ok (input t) ?c t consumed"
  proof (cases "t = s")
    case True
    then show ?thesis using direction_read [OF _ live n failed] ok by blast
  next
    case False
    then have t: "t = other s" using other_cases by blast
    have "direction_ok (input t) ?c t consumed"
      using live(1) by (intro direction_frame [OF ok]) (simp_all add: t forward_def take_chunk_def)
    then show ?thesis by blast
  qed
qed

lemma copy_step_inv: "copy_step c c' \<Longrightarrow> copy_inv input c \<Longrightarrow> copy_inv input c'"
proof (induction rule: copy_step.induct)
  case (copy_read c s n)
  have "(forward s (take n (ep_in (cp_end c s))) (take_chunk s n c))\<lparr>cp_failed := False\<rparr>
      = forward s (take n (ep_in (cp_end c s))) (take_chunk s n c)"
    using copy_read by (simp add: forward_def take_chunk_def)
  then show ?case using copy_step_chunk_inv [of input c s n n False] copy_read by simp
next
  case (copy_eof c s)
  show ?case
    unfolding copy_inv_def
  proof
    fix t
    obtain consumed where ok: "direction_ok (input t) c t consumed" using copy_eof.prems by (auto simp: copy_inv_def)
    have "direction_ok (input t) (close_direction s c) t consumed"
      using ok copy_eof.hyps other_cases [of t s]
      by (auto simp: direction_ok_def close_direction_def observe_eof_def frame_stats_def)
    then show "\<exists>consumed. direction_ok (input t) (close_direction s c) t consumed" by blast
  qed
next
  case (copy_read_error c s)
  have "direction_ok (input t) (c\<lparr>cp_failed := True\<rparr>) t consumed" if "direction_ok (input t) c t consumed" for t consumed
    using that by (rule direction_frame) simp_all
  then show ?case using copy_read_error.prems unfolding copy_inv_def by blast
next
  case (copy_write_error c s n k)
  then show ?case using copy_step_chunk_inv [of input c s n k True] by simp
qed

lemma copy_reachable_inv: "copy_step\<^sup>*\<^sup>* (copy_start input) c \<Longrightarrow> copy_inv input c"
  by (induction rule: rtranclp_induct) (auto intro: copy_inv_start copy_step_inv)

text \<open>C17. The copy is faithful. At every moment, and also when a read or write fails half-way, what has been
  written to one side is a prefix of what the other side sent. When the copy ends without an
  error, each side has received everything the other sent and has been shut down for sending,
  and the statistics give the number of bytes and of encrypted frames of each direction.\<close>

theorem relay_copy_faithful:
  assumes "copy_step\<^sup>*\<^sup>* (copy_start input) c"
  shows "(\<exists>rest. input s = ep_out (cp_end c (other s)) @ rest)
    \<and> (copy_done c \<and> \<not> cp_failed c \<longrightarrow>
         ep_out (cp_end c (other s)) = input s \<and> ep_shutdown (cp_end c s)
         \<and> unat (st_bytes (ds_stats (cp_dir c s))) = min (2 ^ 64 - 1) (length (input s))
         \<and> unat (st_frames_completed (ds_stats (cp_dir c s))) = min (2 ^ 64 - 1) (snd (count_frames (input s))))"
proof -
  have inv: "\<exists>consumed. direction_ok (input t) c t consumed" for t
    using copy_reachable_inv [OF assms] by (simp add: copy_inv_def)
  obtain consumed where ok: "direction_ok (input s) c s consumed" using inv by blast
  obtain other_consumed where ok': "direction_ok (input (other s)) c (other s) other_consumed" using inv by blast
  have done': "ds_eof (cp_dir c s) \<and> ds_eof (cp_dir c (other s))" if "copy_done c"
    using that by (cases s) (simp_all add: copy_done_def)
  show ?thesis
    using ok ok' done' observe_new_counts(2) [of consumed] by (auto simp: direction_ok_def)
qed

text \<open>A run for the witnesses: each side sends one byte.\<close>

definition witness_input :: "side \<Rightarrow> bytes" where
  "witness_input s = (case s of PendingSide \<Rightarrow> [1] | CurrentSide \<Rightarrow> [2])"

lemma witness_copy_read:
  "copy_step (copy_start witness_input) (forward PendingSide [1] (take_chunk PendingSide 1 (copy_start witness_input)))"
  using copy_step.copy_read [of "copy_start witness_input" PendingSide 1]
  by (simp add: copy_start_def DirectionState_new_def witness_input_def RELAY_COPY_BUFFER_BYTES_def)

theorem relay_copy_faithful_witness:
  "\<exists>rest. witness_input PendingSide =
     ep_out (cp_end (forward PendingSide [1] (take_chunk PendingSide 1 (copy_start witness_input))) CurrentSide) @ rest"
  using relay_copy_faithful [OF r_into_rtranclp [of copy_step, OF witness_copy_read], of PendingSide] by simp

text \<open>The measure of the loop: bytes still to come, directions still open, and whether it runs.\<close>

definition copy_measure :: "copy_state \<Rightarrow> nat" where
  "copy_measure c =
     length (ep_in (cp_end c PendingSide)) + length (ep_in (cp_end c CurrentSide))
     + (if ds_eof (cp_dir c PendingSide) then 0 else 1) + (if ds_eof (cp_dir c CurrentSide) then 0 else 1)
     + (if cp_failed c then 0 else 1)"

lemma copy_step_decreases: "copy_step c c' \<Longrightarrow> copy_measure c' < copy_measure c"
proof (induction rule: copy_step.induct)
  case (copy_read c s n)
  then show ?case
    by (cases s) (auto simp: copy_measure_def forward_def take_chunk_def observe_read_def Let_def)
next
  case (copy_eof c s)
  then show ?case by (cases s) (auto simp: copy_measure_def close_direction_def observe_eof_def)
next
  case (copy_read_error c s)
  then show ?case by (simp add: copy_measure_def)
next
  case (copy_write_error c s n k)
  then show ?case
    by (cases s) (auto simp: copy_measure_def forward_def take_chunk_def observe_read_def Let_def)
qed

lemma copy_step_live:
  assumes "\<not> cp_failed c" "\<not> copy_done c"
  shows "\<exists>c'. copy_step c c' \<and> \<not> cp_failed c'"
proof -
  obtain s where s: "\<not> ds_eof (cp_dir c s)" using assms(2) by (auto simp: copy_done_def)
  show ?thesis
  proof (cases "ep_in (cp_end c s) = []")
    case True
    then show ?thesis
      using copy_step.copy_eof [OF assms(1) s] assms(1) by (auto simp: close_direction_def)
  next
    case False
    then have step: "copy_step c (forward s (take 1 (ep_in (cp_end c s))) (take_chunk s 1 c))"
      by (intro copy_step.copy_read [OF assms(1) s]) (auto simp: RELAY_COPY_BUFFER_BYTES_def Suc_le_eq)
    show ?thesis by (intro exI conjI, rule step) (simp add: assms(1) forward_def take_chunk_def)
  qed
qed

text \<open>C29. The copy ends. Every iteration makes progress, so no run is infinite; and as long as a direction
  is open and nothing failed an iteration is possible, so from every such state the copy can
  reach its regular end.\<close>

theorem relay_copy_terminates:
  "wfP (\<lambda>c' c. copy_step c c') \<and> (\<exists>c'. copy_step\<^sup>*\<^sup>* (copy_start input) c' \<and> copy_done c' \<and> \<not> cp_failed c')"
proof
  show "wfP (\<lambda>c' c. copy_step c c')"
    by (rule wfp_if_convertible_to_nat [of _ copy_measure]) (rule copy_step_decreases)
  have "\<not> cp_failed c \<Longrightarrow> \<exists>c'. copy_step\<^sup>*\<^sup>* c c' \<and> copy_done c' \<and> \<not> cp_failed c'" for c
  proof (induction "copy_measure c" arbitrary: c rule: less_induct)
    case less
    show ?case
    proof (cases "copy_done c")
      case True
      then show ?thesis using less.prems by blast
    next
      case False
      then obtain c1 where c1: "copy_step c c1" "\<not> cp_failed c1" using copy_step_live less.prems by blast
      then show ?thesis
        using less.hyps [OF copy_step_decreases [OF c1(1)] c1(2)] by (meson converse_rtranclp_into_rtranclp)
    qed
  qed
  then show "\<exists>c'. copy_step\<^sup>*\<^sup>* (copy_start input) c' \<and> copy_done c' \<and> \<not> cp_failed c'"
    by (simp add: copy_start_def)
qed

end
