(* ===== verification/Relay_Pairing.thy ===== *)
theory Relay_Pairing
  imports Relay_Server
begin

text \<open>
  The relay as a rendezvous. The handshake accepts the request the clients send and takes no byte
  that follows it. The map of pending connections pairs two connections of the same session, each
  connection at most once, whatever the order in which the handlers get to the map.
\<close>

section \<open>The handshake\<close>

lemma read_request_loop_line:
  "10 \<notin> set line \<Longrightarrow> length acc + length line \<le> 4096 \<Longrightarrow>
   read_request_loop acc (line @ 10 # rest) = Inr (rev acc @ line @ [10], rest)"
proof (induction line arbitrary: acc)
  case (Cons b line)
  then show ?case using Cons.IH [of "b # acc"] by (auto simp: Let_def)
qed (simp add: Let_def)

lemma parse_session_id_iff:
  "parse_session_id line = Inr sid \<longleftrightarrow>
     sid \<noteq> [] \<and> (\<exists>further. split_whitespace line = ascii ''GET'' # (ascii ''/relay/'' @ sid) # further)"
  by (auto simp: parse_session_id_def Let_def starts_with_iff split: list.splits if_splits)

lemma parse_session_id_trim: "parse_session_id (trim line) = parse_session_id line"
  by (simp add: parse_session_id_def split_whitespace_trim)

lemma first_head_no_cr: "13 \<notin> set h \<Longrightarrow> first_head (h @ CRLF2)"
proof -
  assume cr: "13 \<notin> set h"
  have "\<not> ends_head (take n (h @ CRLF2))" if n: "n < length (h @ CRLF2)" for n
  proof
    assume ends: "ends_head (take n (h @ CRLF2))"
    have len: "length (take n (h @ CRLF2)) = n" using n by (simp del: take_append)
    have "4 \<le> n" and eq: "drop (n - 4) (take n (h @ CRLF2)) = CRLF2"
      using ends unfolding ends_head_def len by blast+
    then have lt: "n - 4 < length h" using n by (simp add: CRLF2_def)
    have "hd (drop (n - 4) (take n (h @ CRLF2))) = h ! (n - 4)"
      using lt \<open>4 \<le> n\<close> n by (subst hd_drop_conv_nth) (auto simp: nth_append)
    then have "h ! (n - 4) = 13" unfolding eq by (simp add: CRLF2_def)
    then show False using cr lt nth_mem by metis
  qed
  then show ?thesis by (simp add: first_head_def ends_head_def CRLF2_def)
qed

text \<open>The request of the clients; \<open>sid\<close> and \<open>host\<close> are the bytes of the session id and of the host name.\<close>

definition relay_request :: "bytes \<Rightarrow> bytes \<Rightarrow> bytes" where
  "relay_request sid host = bytes_of ''GET /relay/'' @ sid @ bytes_of '' HTTP/1.1'' @ [13, 10]
     @ bytes_of ''Host: '' @ host @ [13, 10, 13, 10]"

definition graphic :: "u8 \<Rightarrow> bool" where
  "graphic b \<longleftrightarrow> 33 \<le> b \<and> b \<le> 126"

lemma graphic_unat: "graphic b \<Longrightarrow> 33 \<le> unat b \<and> unat b \<le> 126 \<and> b < 0x80 \<and> b \<noteq> 10"
  by (auto simp: graphic_def word_le_nat_alt word_less_nat_alt)

lemma graphic_not_space: "graphic b \<Longrightarrow> \<not> is_whitespace (unat b)"
  by (drule graphic_unat) (auto simp: is_whitespace_def)

lemma split_request:
  assumes "sid \<noteq> []" "list_all graphic sid"
  shows "split_whitespace (from_utf8_lossy (bytes_of ''GET /relay/'' @ sid @ bytes_of '' HTTP/1.1'' @ [13, 10]))
    = [ascii ''GET'', ascii ''/relay/'' @ map unat sid, ascii ''HTTP/1.1'']"
proof -
  let ?sid = "map unat sid"
  have "list_all (\<lambda>b. b < 0x80) (bytes_of ''GET /relay/'' @ sid @ bytes_of '' HTTP/1.1'' @ [13, 10])"
    using assms(2) graphic_unat by (auto simp: bytes_of_def list_all_iff)
  then have decoded: "from_utf8_lossy (bytes_of ''GET /relay/'' @ sid @ bytes_of '' HTTP/1.1'' @ [13, 10])
      = ascii ''GET'' @ 32 # (ascii ''/relay/'' @ ?sid) @ 32 # ascii ''HTTP/1.1'' @ 13 # [10]"
    using from_utf8_lossy_ascii [of _ "[]"]
    by (auto simp: bytes_of_def from_utf8_lossy_def [of "[]"])
  have ws: "list_all (\<lambda>c. \<not> is_whitespace c) (ascii ''/relay/'' @ ?sid)"
    using assms(2) graphic_not_space by (auto simp: list_all_iff is_whitespace_def)
  have words: "list_all (\<lambda>c. \<not> is_whitespace c) (ascii ''GET'')" "list_all (\<lambda>c. \<not> is_whitespace c) (ascii ''HTTP/1.1'')"
    "is_whitespace 32" "is_whitespace 13" "is_whitespace 10"
    by (simp_all add: is_whitespace_def)
  have tail: "split_whitespace [10] = []" using words by (simp add: split_whitespace_def)
  show ?thesis
    unfolding decoded
    by (subst split_whitespace_word [OF _ words(1,3)], simp, subst split_whitespace_word [OF _ ws words(3)], simp,
        subst split_whitespace_word [OF _ words(2,4)], simp, simp only: tail)
qed

lemma request_line_chars:
  assumes "list_all graphic sid"
  shows "10 \<notin> set (bytes_of ''GET /relay/'' @ sid @ bytes_of '' HTTP/1.1'' @ [13])"
  using assms graphic_unat by (auto simp: bytes_of_def list_all_iff)

lemma handshake_request:
  assumes "sid \<noteq> []" "list_all graphic sid" "length sid \<le> 4000" "13 \<notin> set host"
  shows "handshake (relay_request sid host @ rest) = Inr (map unat sid, rest)"
proof -
  let ?line = "bytes_of ''GET /relay/'' @ sid @ bytes_of '' HTTP/1.1'' @ [13]"
  have split: "relay_request sid host @ rest = ?line @ 10 # (bytes_of ''Host: '' @ host @ CRLF2) @ rest"
    by (simp add: relay_request_def CRLF2_def)
  have "length ?line \<le> 4096" using assms(3) by (simp add: bytes_of_def)
  then have loop: "read_request_loop [] (relay_request sid host @ rest)
      = Inr (?line @ [10], (bytes_of ''Host: '' @ host @ CRLF2) @ rest)"
    unfolding split using read_request_loop_line [OF request_line_chars [OF assms(2)], of "[]"] by simp
  have "parse_session_id (from_utf8_lossy (?line @ [10])) = Inr (map unat sid)"
    unfolding parse_session_id_iff using split_request [OF assms(1,2)] assms(1) by simp
  moreover have "first_head (bytes_of ''Host: '' @ host @ CRLF2)"
    using first_head_no_cr [of "bytes_of ''Host: '' @ host"] assms(4) by (auto simp: bytes_of_def)
  then have "read_headers ((bytes_of ''Host: '' @ host @ CRLF2) @ rest) = Inr rest"
    by (rule relay_head.after_head) simp
  ultimately show ?thesis
    by (simp add: handshake_def read_request_line_def loop parse_session_id_trim del: append_assoc)
qed

lemma relay_response_read: "read_http_response (RELAY_RESPONSE @ rest) = Inr rest"
proof -
  have "RELAY_RESPONSE = bytes_of ''HTTP/1.1 200 OK'' @ CRLF2" by (simp add: RELAY_RESPONSE_def CRLF2_def)
  moreover have "first_head (bytes_of ''HTTP/1.1 200 OK'' @ CRLF2)"
    by (rule first_head_no_cr) (simp add: bytes_of_def)
  ultimately have "first_head RELAY_RESPONSE" by simp
  then show ?thesis
    by (rule http_head.after_head) (simp add: RELAY_RESPONSE_def bytes_of_def MAX_HEADER_BYTES_def)
qed

text \<open>The relay and its clients understand each other: the request that viewer and worker send for a
  session id of printable characters is accepted, yields that session id, and every byte sent
  after the request stays on the stream for the peer. The client in turn reads the relay's
  response and nothing after it.\<close>

theorem handshake_accepts_request:
  assumes "sid \<noteq> []" "list_all graphic sid" "length sid \<le> 4000" "13 \<notin> set host"
  shows "handshake (relay_request sid host @ rest) = Inr (map unat sid, rest)
    \<and> read_http_response (RELAY_RESPONSE @ frames) = Inr frames"
  using handshake_request [OF assms] relay_response_read by blast

theorem handshake_accepts_request_witness:
  "handshake (relay_request (bytes_of ''ab1'') (bytes_of ''relay'') @ [0, 0, 0, 13]) = Inr (ascii ''ab1'', [0, 0, 0, 13])"
  using handshake_accepts_request [of "bytes_of ''ab1''" "bytes_of ''relay''" "[0, 0, 0, 13]" "[]"]
  by (simp add: bytes_of_def graphic_def)

section \<open>Pairing\<close>

text \<open>The events that touch the map, in the order in which their tasks hold its lock: a connection whose
  handler arrives at time \<open>now\<close>, and a pass of the clean-up. Any order of arrival is a list of
  events.\<close>

datatype 'addr relay_event =
  Connect nat bytes 'addr u64
| Cleanup nat

fun handle_event :: "(bytes \<Rightarrow> bytes option) option \<Rightarrow> 'addr RelayState \<Rightarrow> 'addr relay_event \<Rightarrow>
    'addr RelayState \<times> (u64 \<times> 'addr PendingConnection) list" where
  "handle_event acceptor state (Connect now stream addr cid) =
     (case handle_connection acceptor now stream addr cid state of
        (state', Paired _ existing _) \<Rightarrow> (state', [(cid, existing)])
      | (state', _) \<Rightarrow> (state', []))"
| "handle_event acceptor state (Cleanup now) = (cleanup_pass now state, [])"

text \<open>A run collects the pairings: the connection that arrived second and the one that waited.\<close>

fun relay_run :: "(bytes \<Rightarrow> bytes option) option \<Rightarrow> 'addr RelayState \<Rightarrow> 'addr relay_event list \<Rightarrow>
    'addr RelayState \<times> (u64 \<times> 'addr PendingConnection) list" where
  "relay_run acceptor state [] = (state, [])"
| "relay_run acceptor state (e # es) =
     (case handle_event acceptor state e of (state', ps) \<Rightarrow>
      case relay_run acceptor state' es of (state'', qs) \<Rightarrow> (state'', ps @ qs))"

definition relay_start :: "nat \<Rightarrow> 'addr RelayState" where
  "relay_start ttl = \<lparr>rs_pending = Map.empty, rs_pending_ttl = ttl\<rparr>"

fun connect_id :: "'addr relay_event \<Rightarrow> u64 list" where
  "connect_id (Connect now stream addr cid) = [cid]"
| "connect_id (Cleanup now) = []"

definition session_of :: "(bytes \<Rightarrow> bytes option) option \<Rightarrow> bytes \<Rightarrow> ustr \<Rightarrow> bytes \<Rightarrow> bool" where
  "session_of acceptor raw sid stream \<longleftrightarrow> rbind (accept_stream acceptor raw) handshake = Inr (sid, stream)"

text \<open>\<open>pending_ok seen state\<close>: every waiting connection is one of the connections \<open>seen\<close>, under the session
  it asked for, with its stream. \<open>pair_ok seen\<close> says the same of a pairing.\<close>

definition pending_ok ::
    "(bytes \<Rightarrow> bytes option) option \<Rightarrow> 'addr relay_event set \<Rightarrow> ustr \<Rightarrow> 'addr PendingConnection \<Rightarrow> bool" where
  "pending_ok acceptor seen sid pc \<longleftrightarrow> (\<exists>raw. Connect (pc_received_at pc) raw (pc_remote_addr pc) (pc_connection_id pc) \<in> seen
     \<and> session_of acceptor raw sid (pc_stream pc))"

definition pair_ok ::
    "(bytes \<Rightarrow> bytes option) option \<Rightarrow> 'addr relay_event set \<Rightarrow> u64 \<times> 'addr PendingConnection \<Rightarrow> bool" where
  "pair_ok acceptor seen p \<longleftrightarrow> (\<exists>sid now raw addr stream. Connect now raw addr (fst p) \<in> seen
     \<and> session_of acceptor raw sid stream \<and> pending_ok acceptor seen sid (snd p))"

definition pair_ids :: "u64 \<times> 'addr PendingConnection \<Rightarrow> u64 list" where
  "pair_ids p = [fst p, pc_connection_id (snd p)]"

text \<open>The invariant of a run: \<open>used\<close> are the connections that cannot be paired any more.\<close>

definition pairing_inv ::
    "(bytes \<Rightarrow> bytes option) option \<Rightarrow> 'addr relay_event set \<Rightarrow> u64 set \<Rightarrow> 'addr RelayState \<Rightarrow> bool" where
  "pairing_inv acceptor seen used state \<longleftrightarrow>
     (\<forall>sid pc. rs_pending state sid = Some pc \<longrightarrow> pending_ok acceptor seen sid pc \<and> pc_connection_id pc \<notin> used)
     \<and> (\<forall>sid pc sid' pc'. rs_pending state sid = Some pc \<longrightarrow> rs_pending state sid' = Some pc' \<longrightarrow>
          pc_connection_id pc = pc_connection_id pc' \<longrightarrow> sid = sid')"

definition ids_of :: "'addr relay_event set \<Rightarrow> u64 set" where
  "ids_of seen = {cid. \<exists>now raw addr. Connect now raw addr cid \<in> seen}"

lemma pending_ok_id: "pending_ok acceptor seen sid pc \<Longrightarrow> pc_connection_id pc \<in> ids_of seen"
  by (auto simp: pending_ok_def ids_of_def)

lemma pending_ok_mono: "pending_ok acceptor seen sid pc \<Longrightarrow> seen \<subseteq> seen' \<Longrightarrow> pending_ok acceptor seen' sid pc"
  by (auto simp: pending_ok_def)

lemma ids_of_insert: "ids_of (insert e seen) = set (connect_id e) \<union> ids_of seen"
  by (cases e) (auto simp: ids_of_def)

lemma pairing_inv_mono: "pairing_inv acceptor seen used state \<Longrightarrow> seen \<subseteq> seen' \<Longrightarrow> pairing_inv acceptor seen' used state"
  unfolding pairing_inv_def using pending_ok_mono by blast

lemma cleanup_pending: "rs_pending (cleanup_pass now state) sid = Some pc \<Longrightarrow> rs_pending state sid = Some pc"
  by (auto simp: cleanup_pass_def split: option.splits if_splits)

lemma pairing_connect:
  assumes inv: "pairing_inv acceptor seen used state" and used: "used \<subseteq> ids_of seen" and cid: "cid \<notin> ids_of seen"
    and step: "handle_event acceptor state (Connect now raw addr cid) = (state', ps)"
  defines "seen' \<equiv> insert (Connect now raw addr cid) seen"
  shows "pairing_inv acceptor seen' (used \<union> set (concat (map pair_ids ps))) state' \<and> list_all (pair_ok acceptor seen') ps
    \<and> distinct (concat (map pair_ids ps)) \<and> set (concat (map pair_ids ps)) \<inter> used = {}"
proof (cases "rbind (accept_stream acceptor raw) handshake")
  case (Inl e)
  then have "state' = state" "ps = []" using step by (auto simp: handle_connection_def)
  then show ?thesis using pairing_inv_mono [OF inv, of seen'] by (auto simp: seen'_def)
next
  case (Inr r)
  obtain sid stream where r: "r = (sid, stream)" by (cases r)
  have session: "session_of acceptor raw sid stream" using Inr r by (simp add: session_of_def)
  have inv': "pairing_inv acceptor seen' used state" using pairing_inv_mono [OF inv, of seen'] by (auto simp: seen'_def)
  show ?thesis
  proof (cases "rs_pending state sid")
    case None
    let ?pc = "\<lparr>pc_stream = stream, pc_received_at = now, pc_remote_addr = addr, pc_connection_id = cid\<rparr>"
    have st: "state' = state\<lparr>rs_pending := (rs_pending state)(sid \<mapsto> ?pc)\<rparr>" "ps = []"
      using step Inr r None by (auto simp: handle_connection_def)
    have new: "pending_ok acceptor seen' sid ?pc" using session by (auto simp: pending_ok_def seen'_def)
    have fresh: "pc_connection_id pc \<noteq> cid" if "rs_pending state t = Some pc" for t pc
      using inv that pending_ok_id cid unfolding pairing_inv_def by metis
    have "pairing_inv acceptor seen' used state'"
      using inv' new fresh used cid unfolding pairing_inv_def st by (auto split: if_splits)
    then show ?thesis by (simp add: st)
  next
    case (Some pc)
    have st: "state' = state\<lparr>rs_pending := (rs_pending state)(sid := None)\<rparr>" "ps = [(cid, pc)]"
      using step Inr r Some by (auto simp: handle_connection_def)
    have pc: "pending_ok acceptor seen sid pc" "pc_connection_id pc \<notin> used" using inv Some by (auto simp: pairing_inv_def)
    then have neq: "cid \<noteq> pc_connection_id pc" "cid \<notin> used" using pending_ok_id cid used by blast+
    have "pair_ok acceptor seen' (cid, pc)"
      using session pending_ok_mono [OF pc(1), of seen'] unfolding pair_ok_def seen'_def by auto
    moreover have "rs_pending state t = Some pc' \<Longrightarrow> t \<noteq> sid \<Longrightarrow> pc_connection_id pc' \<noteq> cid \<and> pc_connection_id pc' \<noteq> pc_connection_id pc" for t pc'
      using inv Some pending_ok_id cid unfolding pairing_inv_def by metis
    then have "pairing_inv acceptor seen' (used \<union> {cid, pc_connection_id pc}) state'"
      using inv' unfolding pairing_inv_def st by (auto split: if_splits)
    ultimately show ?thesis using neq pc(2) by (simp add: st pair_ids_def insert_commute)
  qed
qed

lemma pairing_event:
  assumes inv: "pairing_inv acceptor seen used state" and used: "used \<subseteq> ids_of seen"
    and cid: "set (connect_id e) \<inter> ids_of seen = {}" and step: "handle_event acceptor state e = (state', ps)"
  shows "pairing_inv acceptor (insert e seen) (used \<union> set (concat (map pair_ids ps))) state'
    \<and> list_all (pair_ok acceptor (insert e seen)) ps
    \<and> distinct (concat (map pair_ids ps)) \<and> set (concat (map pair_ids ps)) \<inter> used = {}"
proof (cases e)
  case (Connect now raw addr cid)
  then show ?thesis using pairing_connect [OF inv used, of cid now raw addr state' ps] cid step by simp
next
  case (Cleanup now)
  then have st: "state' = cleanup_pass now state" "ps = []" using step by auto
  have "pairing_inv acceptor seen used state'"
    using inv cleanup_pending unfolding st pairing_inv_def by blast
  then show ?thesis using pairing_inv_mono [of acceptor seen used state' "insert e seen"] by (auto simp: st)
qed

lemma pair_ok_ids: "pair_ok acceptor seen p \<Longrightarrow> set (pair_ids p) \<subseteq> ids_of seen"
  using pending_ok_id by (fastforce simp: pair_ok_def pair_ids_def ids_of_def)

lemma pair_ok_mono: "pair_ok acceptor seen p \<Longrightarrow> seen \<subseteq> seen' \<Longrightarrow> pair_ok acceptor seen' p"
  unfolding pair_ok_def using pending_ok_mono by blast

lemma pairing_run:
  assumes "pairing_inv acceptor seen used state" and "used \<subseteq> ids_of seen"
    and "distinct (concat (map connect_id es))" and "set (concat (map connect_id es)) \<inter> ids_of seen = {}"
    and "relay_run acceptor state es = (state', ps)"
  shows "list_all (pair_ok acceptor (seen \<union> set es)) ps
    \<and> distinct (concat (map pair_ids ps)) \<and> set (concat (map pair_ids ps)) \<inter> used = {}"
  using assms
proof (induction es arbitrary: seen used state ps)
  case (Cons e es)
  obtain st qs rs where ev: "handle_event acceptor state e = (st, qs)" and rest: "relay_run acceptor st es = (state', rs)"
      and ps: "ps = qs @ rs"
    using Cons.prems(5) by (auto split: prod.splits)
  let ?seen = "insert e seen" let ?used = "used \<union> set (concat (map pair_ids qs))"
  note step = pairing_event [OF Cons.prems(1,2) _ ev]
  have e: "set (connect_id e) \<inter> ids_of seen = {}" using Cons.prems(4) by auto
  have qs: "\<forall>q\<in>set qs. pair_ok acceptor ?seen q" using step [OF e] by (simp add: list_all_iff)
  have "set (pair_ids q) \<subseteq> ids_of ?seen" if "q \<in> set qs" for q using qs that pair_ok_ids by blast
  then have "set (concat (map pair_ids qs)) \<subseteq> ids_of ?seen" by (simp add: UN_subset_iff)
  moreover have "used \<subseteq> ids_of ?seen" using Cons.prems(2) unfolding ids_of_insert by blast
  ultimately have "?used \<subseteq> ids_of ?seen" by blast
  moreover have "set (concat (map connect_id es)) \<inter> ids_of ?seen = {}"
    using Cons.prems(3,4) unfolding ids_of_insert by auto
  ultimately have "list_all (pair_ok acceptor (?seen \<union> set es)) rs
      \<and> distinct (concat (map pair_ids rs)) \<and> set (concat (map pair_ids rs)) \<inter> ?used = {}"
    using Cons.IH [of ?seen ?used st rs] step [OF e] Cons.prems(3) rest by simp
  moreover have "list_all (pair_ok acceptor (?seen \<union> set es)) qs"
    using qs pair_ok_mono [of acceptor ?seen _ "?seen \<union> set es"] by (auto simp: list_all_iff)
  ultimately show ?case using step [OF e] by (auto simp: ps)
qed simp

text \<open>C16. The relay never mixes sessions: in any run from the empty map, with connection ids that are all
  different, every pairing joins two connections whose handshakes named the same session id,
  with the stream of the one that waited intact, and no connection is paired twice or with
  itself. The order of the events, and when the clean-up runs, are arbitrary.\<close>

theorem relay_pairing_sound:
  assumes "distinct (concat (map connect_id es))" and "relay_run acceptor (relay_start ttl) es = (state, ps)"
  shows "list_all (pair_ok acceptor (set es)) ps \<and> distinct (concat (map pair_ids ps))"
  using pairing_run [of acceptor "{}" "{}" "relay_start ttl" es state ps] assms
  by (simp add: pairing_inv_def relay_start_def ids_of_def)

lemma handle_pairs:
  assumes "session_of acceptor raw sid stream" and "rs_pending state sid = Some pc"
  shows "handle_event acceptor state (Connect now raw addr cid)
    = (state\<lparr>rs_pending := (rs_pending state)(sid := None)\<rparr>, [(cid, pc)])"
  using assms by (simp add: handle_connection_def session_of_def)

lemma handle_waits:
  assumes "session_of acceptor raw sid stream" and "rs_pending state sid = None"
  shows "handle_event acceptor state (Connect now raw addr cid)
    = (state\<lparr>rs_pending := (rs_pending state)(sid \<mapsto> \<lparr>pc_stream = stream, pc_received_at = now,
         pc_remote_addr = addr, pc_connection_id = cid\<rparr>)\<rparr>, [])"
  using assms by (simp add: handle_connection_def session_of_def)

definition witness_request :: bytes where
  "witness_request = relay_request (bytes_of ''ab1'') (bytes_of ''relay'')"

lemma witness_session: "session_of None (witness_request @ rest) (ascii ''ab1'') rest"
  using handshake_request [of "bytes_of ''ab1''" "bytes_of ''relay''" rest]
  by (simp add: session_of_def accept_stream_def witness_request_def bytes_of_def graphic_def)

definition witness_events :: "unit relay_event list" where
  "witness_events = [Connect 0 (witness_request @ [5]) () 1, Cleanup 600, Connect 7 (witness_request @ [6]) () 2]"

definition witness_waiting :: "unit PendingConnection" where
  "witness_waiting = \<lparr>pc_stream = [5], pc_received_at = 0, pc_remote_addr = (), pc_connection_id = 1\<rparr>"

lemma witness_run: "\<exists>state. relay_run None (relay_start 600) witness_events = (state, [(2, witness_waiting)])"
proof -
  have first: "handle_event None (relay_start 600) (Connect 0 (witness_request @ [5]) () 1)
      = (\<lparr>rs_pending = [ascii ''ab1'' \<mapsto> witness_waiting], rs_pending_ttl = 600\<rparr>, [])"
    by (subst handle_waits [OF witness_session]) (simp_all add: relay_start_def witness_waiting_def)
  have clean: "handle_event None \<lparr>rs_pending = [ascii ''ab1'' \<mapsto> witness_waiting], rs_pending_ttl = 600\<rparr> (Cleanup 600)
      = (\<lparr>rs_pending = [ascii ''ab1'' \<mapsto> witness_waiting], rs_pending_ttl = 600\<rparr>, [])"
    by (auto simp: cleanup_pass_def witness_waiting_def fun_eq_iff split: option.splits)
  have second: "handle_event None \<lparr>rs_pending = [ascii ''ab1'' \<mapsto> witness_waiting], rs_pending_ttl = 600\<rparr>
      (Connect 7 (witness_request @ [6]) () 2) = (\<lparr>rs_pending = Map.empty, rs_pending_ttl = 600\<rparr>, [(2, witness_waiting)])"
    by (subst handle_pairs [OF witness_session]) (auto simp: fun_eq_iff)
  show ?thesis
    unfolding witness_events_def relay_run.simps first prod.case clean second by simp
qed

theorem relay_pairing_sound_witness:
  "\<exists>state. relay_run None (relay_start 600) witness_events = (state, [(2, witness_waiting)])
     \<and> pair_ok None (set witness_events) (2, witness_waiting)"
proof -
  obtain state where run: "relay_run None (relay_start 600) witness_events = (state, [(2, witness_waiting)])"
    using witness_run by blast
  have "distinct (concat (map connect_id witness_events))" by (simp add: witness_events_def)
  from relay_pairing_sound [OF this run] run show ?thesis by auto
qed

text \<open>An event that is not for session \<open>sid\<close> and, if a clean-up, not after the entry has expired.\<close>

fun leaves_alone :: "(bytes \<Rightarrow> bytes option) option \<Rightarrow> ustr \<Rightarrow> nat \<Rightarrow> 'addr relay_event \<Rightarrow> bool" where
  "leaves_alone acceptor sid expires (Connect now raw addr cid) = (\<forall>stream. \<not> session_of acceptor raw sid stream)"
| "leaves_alone acceptor sid expires (Cleanup now) = (now \<le> expires)"

lemma waiting_persists:
  assumes "rs_pending state sid = Some pc" and "leaves_alone acceptor sid (pc_received_at pc + rs_pending_ttl state) e"
    and "handle_event acceptor state e = (state', ps)"
  shows "rs_pending state' sid = Some pc \<and> rs_pending_ttl state' = rs_pending_ttl state"
  using assms
  by (cases e) (auto simp: handle_connection_def session_of_def cleanup_pass_def
      split: sum.splits option.splits handled.splits prod.splits if_splits)

lemma waiting_persists_run:
  assumes "rs_pending state sid = Some pc" and "list_all (leaves_alone acceptor sid (pc_received_at pc + rs_pending_ttl state)) es"
    and "relay_run acceptor state es = (state', ps)"
  shows "rs_pending state' sid = Some pc"
  using assms
proof (induction es arbitrary: state ps)
  case (Cons e es)
  obtain st qs rs where ev: "handle_event acceptor state e = (st, qs)" "relay_run acceptor st es = (state', rs)"
    using Cons.prems(3) by (auto split: prod.splits)
  then show ?case using waiting_persists [OF Cons.prems(1) _ ev(1)] Cons.prems(2) Cons.IH [of st rs] by auto
qed simp

lemma relay_run_append:
  "relay_run acceptor state (es @ fs) = (case relay_run acceptor state es of (st, ps) \<Rightarrow>
     case relay_run acceptor st fs of (st', qs) \<Rightarrow> (st', ps @ qs))"
  by (induction es arbitrary: state) (simp_all split: prod.splits)

text \<open>C30. Two peers find each other: when a connection for a session arrives and none is waiting for it,
  then whatever other sessions do in between, and as long as the clean-up does not run after the
  time to live of the entry, the next connection for that session is paired with it, and the
  pairing hands over the bytes its client had already sent.\<close>

theorem relay_pairs_peers:
  assumes "rs_pending state sid = None" and "session_of acceptor raw1 sid stream1" "session_of acceptor raw2 sid stream2"
    and "list_all (leaves_alone acceptor sid (t1 + rs_pending_ttl state)) es"
    and "relay_run acceptor state (Connect t1 raw1 a1 c1 # es @ [Connect t2 raw2 a2 c2]) = (state', ps)"
  shows "ps \<noteq> [] \<and> last ps = (c2, \<lparr>pc_stream = stream1, pc_received_at = t1, pc_remote_addr = a1, pc_connection_id = c1\<rparr>)"
proof -
  let ?pc = "\<lparr>pc_stream = stream1, pc_received_at = t1, pc_remote_addr = a1, pc_connection_id = c1\<rparr>"
  define st1 where "st1 = state\<lparr>rs_pending := (rs_pending state)(sid \<mapsto> ?pc)\<rparr>"
  have first: "handle_event acceptor state (Connect t1 raw1 a1 c1) = (st1, [])"
    unfolding st1_def by (rule handle_waits [OF assms(2,1)])
  obtain st2 qs where mid: "relay_run acceptor st1 es = (st2, qs)" by fastforce
  have "rs_pending st2 sid = Some ?pc"
    by (rule waiting_persists_run [OF _ _ mid]) (use assms(4) in \<open>simp_all add: st1_def\<close>)
  from handle_pairs [OF assms(3) this, of t2 a2 c2] have "ps = qs @ [(c2, ?pc)]"
    using assms(5) by (simp only: append_Cons relay_run.simps first prod.case relay_run_append mid) simp
  then show ?thesis by simp
qed

theorem relay_pairs_peers_witness:
  "\<exists>state. relay_run None (relay_start 600) witness_events = (state, [(2, witness_waiting)])
     \<and> last [(2, witness_waiting)] = (2, \<lparr>pc_stream = [5], pc_received_at = 0, pc_remote_addr = (), pc_connection_id = 1\<rparr>)"
proof -
  obtain state where run: "relay_run None (relay_start 600) witness_events = (state, [(2, witness_waiting)])"
    using witness_run by blast
  have empty: "rs_pending (relay_start 600 :: unit RelayState) (ascii ''ab1'') = None" by (simp add: relay_start_def)
  have alone: "list_all (leaves_alone None (ascii ''ab1'') (0 + rs_pending_ttl (relay_start 600 :: unit RelayState))) [Cleanup 600]"
    by (simp add: relay_start_def)
  have "relay_run None (relay_start 600) (Connect 0 (witness_request @ [5]) () 1 # [Cleanup 600] @ [Connect 7 (witness_request @ [6]) () 2])
      = (state, [(2, witness_waiting)])"
    using run by (simp add: witness_events_def)
  from relay_pairs_peers [OF empty witness_session witness_session alone this] run show ?thesis by auto
qed

end
