(* ===== verification/Compositor.thy ===== *)
theory Compositor
  imports Display_Records Tile_Decode Rust_Strings
begin

text \<open>
  The compositor of the viewer (\<open>talos_viewer/src-tauri/src/display_delta.rs\<close>): it applies display records
  to a BGRA desktop, and queues the frames of tile commands until the GPU viewport takes them. The
  H.264 decoder and the presentation (Media Foundation, Direct3D and the window) are parameters, the
  fields of \<open>display_env\<close>. An operation returns the state after it together with its result, because
  many errors are returned after part of the state has changed. Errors are the strings of the source;
  \<open>Panic\<close> is a slice out of range. Unchecked \<open>u32\<close> additions wrap, as they do in a release build.
  Durations and log lines are left out.
\<close>

section \<open>Data\<close>

record FrameDamageRect =
  fd_x :: u32
  fd_y :: u32
  fd_width :: u32
  fd_height :: u32

record ExperimentalMoveRect =
  em_src_x :: u32
  em_src_y :: u32
  em_dst_x :: u32
  em_dst_y :: u32
  em_width :: u32
  em_height :: u32

record CachedFrame =
  ca_width :: u32
  ca_height :: u32
  ca_argb :: "u32 list"

record PendingExperimentalAtlas =
  pe_atlas_width :: u32
  pe_atlas_height :: u32
  pe_rects :: "DisplayAtlasRect list"
  pe_tile_commands :: bytes
  pe_record_bytes :: nat

record DeferredExperimentalFrame =
  df_frame_id :: u64
  df_desktop_width :: u32
  df_desktop_height :: u32
  df_atlas :: PendingExperimentalAtlas
  df_moves :: "ExperimentalMoveRect list"
  df_present_after_composite :: bool

record ExperimentalViewerSummary =
  su_frames :: u64
  su_deferred_frames :: u64
  su_dropped_deferred_frames :: u64
  su_max_deferred_frames :: nat
  su_max_deferred_bytes :: nat
  su_tile_bytes :: u64
  su_record_bytes :: u64
  su_tile_cmds :: u64
  su_dirty_rects :: u64
  su_move_rects :: u64

text \<open>Both rectangle types are six \<open>u32\<close> fields, so 24 bytes each.\<close>

definition queued_bytes :: "DeferredExperimentalFrame \<Rightarrow> nat" where
  "queued_bytes frame =
     usize_saturating_add (usize_saturating_add (usize_saturating_add
       (length (pe_tile_commands (df_atlas frame))) (pe_record_bytes (df_atlas frame)))
       (usize_saturating_mul (length (pe_rects (df_atlas frame))) 24))
       (usize_saturating_mul (length (df_moves frame)) 24)"

definition summary_default :: ExperimentalViewerSummary where
  "summary_default = \<lparr>su_frames = 0, su_deferred_frames = 0, su_dropped_deferred_frames = 0,
     su_max_deferred_frames = 0, su_max_deferred_bytes = 0, su_tile_bytes = 0, su_record_bytes = 0,
     su_tile_cmds = 0, su_dirty_rects = 0, su_move_rects = 0\<rparr>"

definition summary_add :: "nat \<Rightarrow> nat \<Rightarrow> u32 \<Rightarrow> nat \<Rightarrow> nat \<Rightarrow> ExperimentalViewerSummary \<Rightarrow> ExperimentalViewerSummary" where
  "summary_add tile_bytes record_bytes tile_cmds dirty_rects move_rects s =
     s\<lparr>su_frames := saturating_add (su_frames s) 1,
       su_tile_bytes := saturating_add (su_tile_bytes s) (of_nat tile_bytes),
       su_record_bytes := saturating_add (su_record_bytes s) (of_nat record_bytes),
       su_tile_cmds := saturating_add (su_tile_cmds s) (of_nat (unat tile_cmds)),
       su_dirty_rects := saturating_add (su_dirty_rects s) (of_nat dirty_rects),
       su_move_rects := saturating_add (su_move_rects s) (of_nat move_rects)\<rparr>"

definition add_deferred :: "nat \<Rightarrow> nat \<Rightarrow> ExperimentalViewerSummary \<Rightarrow> ExperimentalViewerSummary" where
  "add_deferred deferred_frames deferred_bytes s =
     s\<lparr>su_deferred_frames := saturating_add (su_deferred_frames s) 1,
       su_max_deferred_frames := max (su_max_deferred_frames s) deferred_frames,
       su_max_deferred_bytes := max (su_max_deferred_bytes s) deferred_bytes\<rparr>"

definition add_dropped_deferred :: "ExperimentalViewerSummary \<Rightarrow> ExperimentalViewerSummary" where
  "add_dropped_deferred s = s\<lparr>su_dropped_deferred_frames := saturating_add (su_dropped_deferred_frames s) 1\<rparr>"

record 'dec compositor =
  co_width :: u32
  co_height :: u32
  co_bgra :: bytes
  co_decoder :: "'dec option"
  co_decoder_size :: "(u32 \<times> u32) option"
  co_current_frame_id :: "u64 option"
  co_damage :: "FrameDamageRect list"
  co_experimental_frame :: bool
  co_experimental_chunked_frame :: bool
  co_experimental_atlas :: "PendingExperimentalAtlas option"
  co_experimental_moves :: "ExperimentalMoveRect list"
  co_deferred_experimental_frames :: "DeferredExperimentalFrame list"
  co_deferred_experimental_bytes :: nat
  co_experimental_summary :: ExperimentalViewerSummary
  co_experimental_summary_context :: "(string \<times> string) option"
  co_experimental_summary_logged :: bool

definition compositor_new :: "'dec compositor" where
  "compositor_new = \<lparr>co_width = 0, co_height = 0, co_bgra = [], co_decoder = None, co_decoder_size = None,
     co_current_frame_id = None, co_damage = [], co_experimental_frame = False,
     co_experimental_chunked_frame = False, co_experimental_atlas = None, co_experimental_moves = [],
     co_deferred_experimental_frames = [], co_deferred_experimental_bytes = 0,
     co_experimental_summary = summary_default, co_experimental_summary_context = None,
     co_experimental_summary_logged = False\<rparr>"

text \<open>The summary lines written are the session, the transport, the reason and the counters; the second
  operation is \<open>drop\<close>.\<close>

definition set_experimental_summary_context :: "string \<Rightarrow> string \<Rightarrow> 'dec compositor \<Rightarrow> 'dec compositor" where
  "set_experimental_summary_context session_id transport c =
     c\<lparr>co_experimental_summary_context := Some (session_id, transport)\<rparr>"

type_synonym summary_line = "string \<times> string \<times> string \<times> ExperimentalViewerSummary"

definition log_experimental_summary ::
    "string \<Rightarrow> string \<Rightarrow> string \<Rightarrow> 'dec compositor \<Rightarrow> 'dec compositor \<times> summary_line list" where
  "log_experimental_summary session_id transport close_reason c =
     (if co_experimental_summary_logged c then (c, [])
      else (c\<lparr>co_experimental_summary_logged := True\<rparr>,
            [(session_id, transport, close_reason, co_experimental_summary c)]))"

definition compositor_drop :: "'dec compositor \<Rightarrow> 'dec compositor \<times> summary_line list" where
  "compositor_drop c =
     (if co_experimental_summary_logged c then (c, [])
      else case co_experimental_summary_context c of
          None \<Rightarrow> (c, [])
        | Some (session_id, transport) \<Rightarrow>
            (c\<lparr>co_experimental_summary_context := None, co_experimental_summary_logged := True\<rparr>,
             [(session_id, transport, ''forced_drop'', co_experimental_summary c)]))"

definition co_dimensions :: "'dec compositor \<Rightarrow> (u32 \<times> u32) option" where
  "co_dimensions c = (if co_width c = 0 \<or> co_height c = 0 then None else Some (co_width c, co_height c))"

text \<open>The viewport, and what the compositor calls: \<open>H264Decoder::new\<close> and \<open>decode\<close>, the lock of the viewport,
  \<open>present_cached_frame_with_damage\<close> and \<open>present_experimental_atlas_commands_gpu\<close>.\<close>

record 'vp viewport =
  vp_cached_frame :: "CachedFrame option"
  vp_inner :: 'vp

datatype ExperimentalPresentResult = Presented u32 | Deferred string

record ('dec, 'vp) display_env =
  h264_new :: "u32 \<Rightarrow> u32 \<Rightarrow> string + 'dec"
  h264_decode :: "'dec \<Rightarrow> bytes \<Rightarrow> 'dec \<times> (string + bytes option)"
  viewport_lock :: "'vp viewport \<Rightarrow> string + unit"
  present_cached :: "'vp viewport \<Rightarrow> FrameDamageRect list \<Rightarrow> bool \<Rightarrow> 'vp viewport \<times> (string + unit)"
  present_gpu :: "'vp viewport \<Rightarrow> DeferredExperimentalFrame \<Rightarrow> 'vp viewport \<times> (string + ExperimentalPresentResult)"

type_synonym ('s, 'a) outcome = "('s, string fault, 'a) sresult"

definition fails :: "'s \<Rightarrow> string \<Rightarrow> ('s, 'a) outcome" where
  "fails s msg = (s, Inl (Err msg))"

fun lift_err :: "string + 'a \<Rightarrow> string fault + 'a" where
  "lift_err (Inl msg) = Inl (Err msg)"
| "lift_err (Inr a) = Inr a"

section \<open>Frames and rectangles\<close>

definition begin_frame :: "u64 \<Rightarrow> u32 \<Rightarrow> u32 \<Rightarrow> 'dec compositor \<Rightarrow> ('dec compositor, unit) outcome" where
  "begin_frame frame_id width height c =
     (if width = 0 \<or> height = 0 then fails c ''display frame has zero dimensions''
      else case Option.bind (checked_mul width height) (\<lambda>pixels. checked_mul pixels 4) of
          None \<Rightarrow> fails c ''display frame dimensions overflow''
        | Some len_word \<Rightarrow>
            let len = unat len_word;
                c = (if co_width c \<noteq> width \<or> co_height c \<noteq> height \<or> length (co_bgra c) \<noteq> len
                     then c\<lparr>co_width := width, co_height := height, co_bgra := replicate len 0\<rparr> else c) in
            (c\<lparr>co_current_frame_id := Some frame_id, co_damage := [], co_experimental_frame := False,
               co_experimental_chunked_frame := False, co_experimental_atlas := None,
               co_experimental_moves := []\<rparr>, Inr ()))"

definition ensure_frame :: "u64 \<Rightarrow> 'dec compositor \<Rightarrow> ('dec compositor, unit) outcome" where
  "ensure_frame frame_id c =
     (if co_current_frame_id c \<noteq> Some frame_id then fails c ''display record frame id does not match active frame''
      else (c, Inr ()))"

definition validate_display_rect :: "u32 \<Rightarrow> u32 \<Rightarrow> u32 \<Rightarrow> u32 \<Rightarrow> 'dec compositor \<Rightarrow> string fault + unit" where
  "validate_display_rect x y width height c =
     (if width = 0 \<or> height = 0 \<or> x + width > co_width c \<or> y + height > co_height c
      then Inl (Err ''display record rect exceeds desktop bounds'') else Inr ())"

definition pixel_offset :: "u32 \<Rightarrow> u32 \<Rightarrow> u32 \<Rightarrow> nat" where
  "pixel_offset desktop_width x y = usz ((unat y * unat desktop_width + unat x) * 4)"

text \<open>\<open>read_row\<close> and \<open>write_row\<close> are the two slices of a row copy; \<open>row_len\<close> is in bytes.\<close>

definition read_row :: "bytes \<Rightarrow> nat \<Rightarrow> nat \<Rightarrow> string fault + bytes" where
  "read_row buffer src row_len = ok_or Panic (get_range src (usz (src + row_len)) buffer)"

definition write_row :: "bytes \<Rightarrow> nat \<Rightarrow> bytes \<Rightarrow> string fault + bytes" where
  "write_row buffer dst row =
     rbind (ok_or Panic (get_range dst (usz (dst + length row)) buffer)) (\<lambda>_. ok_or Panic (put_range dst row buffer))"

text \<open>The temporary buffer of a move is the list of its rows.\<close>

definition move_pixels :: "u32 \<Rightarrow> u32 \<Rightarrow> u32 \<Rightarrow> u32 \<Rightarrow> u32 \<Rightarrow> u32 \<Rightarrow> u32 \<Rightarrow> bytes \<Rightarrow> string fault + bytes" where
  "move_pixels desktop_width from_x from_y to_x to_y width height bgra =
     (let row_len = unat width * 4 in
      rbind (try_map (\<lambda>row. read_row bgra (pixel_offset desktop_width from_x (from_y + of_nat row)) row_len)
               [0..<unat height]) (\<lambda>temp.
      try_fold (\<lambda>bgra row. write_row bgra (pixel_offset desktop_width to_x (to_y + of_nat row)) (temp ! row))
        bgra [0..<unat height]))"

definition apply_move_rect ::
    "u32 \<Rightarrow> u32 \<Rightarrow> u32 \<Rightarrow> u32 \<Rightarrow> u32 \<Rightarrow> u32 \<Rightarrow> 'dec compositor \<Rightarrow> ('dec compositor, unit) outcome" where
  "apply_move_rect from_x from_y to_x to_y width height c =
     sbind (c, validate_display_rect from_x from_y width height c) (\<lambda>c _.
     sbind (c, validate_display_rect to_x to_y width height c) (\<lambda>c _.
     sbind (c, move_pixels (co_width c) from_x from_y to_x to_y width height (co_bgra c)) (\<lambda>c bgra.
     (c\<lparr>co_bgra := bgra,
        co_damage := co_damage c @ [\<lparr>fd_x = to_x, fd_y = to_y, fd_width = width, fd_height = height\<rparr>]\<rparr>, Inr ()))))"

text \<open>One rectangle of a decoded atlas, and the loop over them: rectangles before a bad one stay applied.\<close>

definition copy_atlas_rect :: "u32 \<Rightarrow> u32 \<Rightarrow> bytes \<Rightarrow> DisplayAtlasRect \<Rightarrow> bytes \<Rightarrow> string fault + bytes" where
  "copy_atlas_rect desktop_width atlas_width atlas_bgra rect bgra =
     (let atlas_stride = unat atlas_width * 4; row_len = unat (rect_width rect) * 4 in
      try_fold (\<lambda>bgra row.
        let src = usz (usz (unat (atlas_y rect + of_nat row) * atlas_stride) + unat (atlas_x rect) * 4);
            dst = pixel_offset desktop_width (dst_x rect) (dst_y rect + of_nat row) in
        rbind (read_row atlas_bgra src row_len) (\<lambda>pixels. write_row bgra dst pixels))
        bgra [0..<unat (rect_height rect)])"

fun apply_atlas_rects ::
    "u32 \<Rightarrow> u32 \<Rightarrow> bytes \<Rightarrow> DisplayAtlasRect list \<Rightarrow> 'dec compositor \<Rightarrow> ('dec compositor, unit) outcome" where
  "apply_atlas_rects atlas_width atlas_height atlas_bgra [] c = (c, Inr ())"
| "apply_atlas_rects atlas_width atlas_height atlas_bgra (rect # rects) c =
     sbind (c, validate_display_rect (dst_x rect) (dst_y rect) (rect_width rect) (rect_height rect) c) (\<lambda>c _.
     if atlas_x rect + rect_width rect > atlas_width \<or> atlas_y rect + rect_height rect > atlas_height
     then fails c ''display atlas rect exceeds atlas bounds''
     else
       sbind (c, copy_atlas_rect (co_width c) atlas_width atlas_bgra rect (co_bgra c)) (\<lambda>c bgra.
       apply_atlas_rects atlas_width atlas_height atlas_bgra rects
         (c\<lparr>co_bgra := bgra, co_damage := co_damage c @
              [\<lparr>fd_x = dst_x rect, fd_y = dst_y rect, fd_width = rect_width rect, fd_height = rect_height rect\<rparr>]\<rparr>)))"

definition ensure_decoder ::
    "('dec, 'vp) display_env \<Rightarrow> u32 \<Rightarrow> u32 \<Rightarrow> 'dec compositor \<Rightarrow> ('dec compositor, unit) outcome" where
  "ensure_decoder env atlas_width atlas_height c =
     (if co_decoder_size c \<noteq> Some (atlas_width, atlas_height) then
        sbind (c, lift_err (h264_new env atlas_width atlas_height)) (\<lambda>c decoder.
          (c\<lparr>co_decoder := Some decoder, co_decoder_size := Some (atlas_width, atlas_height)\<rparr>, Inr ()))
      else (c, Inr ()))"

definition apply_h264_atlas ::
    "('dec, 'vp) display_env \<Rightarrow> u32 \<Rightarrow> u32 \<Rightarrow> DisplayAtlasRect list \<Rightarrow> bytes \<Rightarrow> 'dec compositor
     \<Rightarrow> ('dec compositor, unit) outcome" where
  "apply_h264_atlas env atlas_width atlas_height rects payload c =
     sbind (ensure_decoder env atlas_width atlas_height c) (\<lambda>c _.
     case co_decoder c of
       None \<Rightarrow> fails c ''h264 decoder unavailable''
     | Some decoder \<Rightarrow>
         (case h264_decode env decoder payload of (decoder, result) \<Rightarrow>
            sbind (c\<lparr>co_decoder := Some decoder\<rparr>, lift_err result) (\<lambda>c decoded.
            case decoded of
              None \<Rightarrow> (c, Inr ())
            | Some atlas_bgra \<Rightarrow> apply_atlas_rects atlas_width atlas_height atlas_bgra rects c)))"

section \<open>Frames of tile commands\<close>

definition MAX_DEFERRED_EXPERIMENTAL_FRAMES :: nat where "MAX_DEFERRED_EXPERIMENTAL_FRAMES = 64"
definition MAX_DEFERRED_EXPERIMENTAL_BYTES :: nat where "MAX_DEFERRED_EXPERIMENTAL_BYTES = 192 * 1024 * 1024"
definition LARGE_EXPERIMENTAL_FRAME_BYTES :: nat where "LARGE_EXPERIMENTAL_FRAME_BYTES = 1024 * 1024"

definition atlas_rect_exceeds :: "u32 \<Rightarrow> u32 \<Rightarrow> DisplayAtlasRect \<Rightarrow> bool" where
  "atlas_rect_exceeds atlas_width atlas_height rect \<longleftrightarrow>
     checked_add (atlas_x rect) (rect_width rect) = None
     \<or> checked_add (atlas_y rect) (rect_height rect) = None
     \<or> atlas_x rect + rect_width rect > atlas_width
     \<or> atlas_y rect + rect_height rect > atlas_height"

definition validate_experimental_atlas ::
    "u32 \<Rightarrow> u32 \<Rightarrow> DisplayAtlasRect list \<Rightarrow> 'dec compositor \<Rightarrow> string fault + unit" where
  "validate_experimental_atlas atlas_width atlas_height rects c =
     (if atlas_width = 0 \<or> atlas_height = 0 then Inl (Err ''experimental atlas has zero dimensions'')
      else try_fold (\<lambda>_ rect.
        rbind (validate_display_rect (dst_x rect) (dst_y rect) (rect_width rect) (rect_height rect) c) (\<lambda>_.
        if atlas_rect_exceeds atlas_width atlas_height rect
        then Inl (Err ''experimental atlas rect exceeds atlas bounds'') else Inr ())) () rects)"

definition pop_front :: "'dec compositor \<Rightarrow> 'dec compositor" where
  "pop_front c = c\<lparr>co_deferred_experimental_frames := tl (co_deferred_experimental_frames c),
     co_deferred_experimental_bytes :=
       co_deferred_experimental_bytes c - queued_bytes (hd (co_deferred_experimental_frames c))\<rparr>"

definition drop_front :: "'dec compositor \<Rightarrow> 'dec compositor" where
  "drop_front c = (pop_front c)\<lparr>co_experimental_summary := add_dropped_deferred (co_experimental_summary c)\<rparr>"

text \<open>The two \<open>while\<close> loops of \<open>queue_deferred_experimental_frame\<close>.\<close>

function drop_older :: "u64 \<Rightarrow> 'dec compositor \<Rightarrow> 'dec compositor" where
  "drop_older frame_id c =
     (case co_deferred_experimental_frames c of
        pending # _ \<Rightarrow> if df_frame_id pending < frame_id then drop_older frame_id (drop_front c) else c
      | [] \<Rightarrow> c)"
  by pat_completeness auto
termination
  by (relation "measure (\<lambda>(_, c). length (co_deferred_experimental_frames c))")
    (auto simp: drop_front_def pop_front_def)

function drop_excess :: "'dec compositor \<Rightarrow> 'dec compositor" where
  "drop_excess c =
     (if length (co_deferred_experimental_frames c) > MAX_DEFERRED_EXPERIMENTAL_FRAMES
         \<or> co_deferred_experimental_bytes c > MAX_DEFERRED_EXPERIMENTAL_BYTES then
        (case co_deferred_experimental_frames c of
           [] \<Rightarrow> c\<lparr>co_deferred_experimental_bytes := 0\<rparr>
         | _ # _ \<Rightarrow> drop_excess (drop_front c))
      else c)"
  by pat_completeness auto
termination
  by (relation "measure (\<lambda>c. length (co_deferred_experimental_frames c))")
    (auto simp: drop_front_def pop_front_def)

declare drop_older.simps [simp del] drop_excess.simps [simp del]

definition queue_deferred_experimental_frame :: "DeferredExperimentalFrame \<Rightarrow> 'dec compositor \<Rightarrow> 'dec compositor" where
  "queue_deferred_experimental_frame frame c =
     (let frame_bytes = queued_bytes frame;
          c = (if frame_bytes \<ge> LARGE_EXPERIMENTAL_FRAME_BYTES then drop_older (df_frame_id frame) c else c);
          c = c\<lparr>co_deferred_experimental_bytes := usize_saturating_add (co_deferred_experimental_bytes c) frame_bytes,
                co_deferred_experimental_frames := co_deferred_experimental_frames c @ [frame]\<rparr> in
      drop_excess c)"

definition is_missing_experimental_previous_error :: "string \<Rightarrow> bool" where
  "is_missing_experimental_previous_error err \<longleftrightarrow>
     contains_str err ''before previous desktop frame''
     \<or> contains_str err ''before initial desktop frame''
     \<or> contains_str err ''previous desktop texture unavailable''"

type_synonym ('dec, 'vp) viewer = "'dec compositor \<times> 'vp viewport"

definition present_deferred_experimental_frame ::
    "('dec, 'vp) display_env \<Rightarrow> DeferredExperimentalFrame \<Rightarrow> ('dec, 'vp) viewer
     \<Rightarrow> (('dec, 'vp) viewer, string option) outcome" where
  "present_deferred_experimental_frame env frame v =
     (case v of (c, vp) \<Rightarrow>
        sbind (v, lift_err (viewport_lock env vp)) (\<lambda>_ _.
        case present_gpu env vp frame of
          (vp, Inr (Presented command_count)) \<Rightarrow>
            ((c\<lparr>co_experimental_summary := summary_add (length (pe_tile_commands (df_atlas frame)))
                  (pe_record_bytes (df_atlas frame)) command_count (length (pe_rects (df_atlas frame)))
                  (length (df_moves frame)) (co_experimental_summary c)\<rparr>, vp), Inr None)
        | (vp, Inr (Deferred reason)) \<Rightarrow> ((c, vp), Inr (Some reason))
        | (vp, Inl err) \<Rightarrow>
            if is_missing_experimental_previous_error err
            then ((c\<lparr>co_experimental_summary := add_dropped_deferred (co_experimental_summary c)\<rparr>, vp), Inr None)
            else ((c, vp), Inl (Err err))))"

text \<open>The loop takes a frame off the queue, and puts it back when the viewport is not ready. \<open>n\<close> bounds the
  rounds by the length of the queue, which every round that goes on makes shorter.\<close>

fun flush_loop :: "('dec, 'vp) display_env \<Rightarrow> nat \<Rightarrow> ('dec, 'vp) viewer \<Rightarrow> (('dec, 'vp) viewer, unit) outcome" where
  "flush_loop env 0 v = (v, Inr ())"
| "flush_loop env (Suc n) (c, vp) =
     (case co_deferred_experimental_frames c of
        [] \<Rightarrow> ((c, vp), Inr ())
      | frame # _ \<Rightarrow>
          sbind (present_deferred_experimental_frame env frame (pop_front c, vp)) (\<lambda>(c, vp) deferred.
          case deferred of
            Some reason \<Rightarrow>
              (let c = c\<lparr>co_deferred_experimental_bytes :=
                           usize_saturating_add (co_deferred_experimental_bytes c) (queued_bytes frame),
                         co_deferred_experimental_frames := frame # co_deferred_experimental_frames c\<rparr>;
                   c = c\<lparr>co_experimental_summary := add_deferred (length (co_deferred_experimental_frames c))
                           (co_deferred_experimental_bytes c) (co_experimental_summary c)\<rparr> in
               ((c, vp), Inr ()))
          | None \<Rightarrow> flush_loop env n (c, vp)))"

definition flush_deferred_experimental_frames ::
    "('dec, 'vp) display_env \<Rightarrow> ('dec, 'vp) viewer \<Rightarrow> (('dec, 'vp) viewer, unit) outcome" where
  "flush_deferred_experimental_frames env v =
     flush_loop env (length (co_deferred_experimental_frames (fst v)) + 1) v"

definition end_experimental_frame ::
    "('dec, 'vp) display_env \<Rightarrow> u64 \<Rightarrow> ('dec, 'vp) viewer \<Rightarrow> (('dec, 'vp) viewer, unit) outcome" where
  "end_experimental_frame env frame_id v =
     (case v of (c, vp) \<Rightarrow>
        if co_experimental_chunked_frame c \<and> co_experimental_atlas c = None then
          (if co_experimental_moves c \<noteq> []
           then fails v ''experimental chunked frame cannot carry trailing move rects''
           else flush_deferred_experimental_frames env v)
        else case co_experimental_atlas c of
            None \<Rightarrow> fails v ''experimental frame ended without atlas command record''
          | Some atlas \<Rightarrow>
              (let frame = \<lparr>df_frame_id = frame_id, df_desktop_width = co_width c, df_desktop_height = co_height c,
                     df_atlas = atlas, df_moves = co_experimental_moves c, df_present_after_composite = True\<rparr>;
                   c = c\<lparr>co_experimental_atlas := None, co_experimental_moves := []\<rparr> in
               flush_deferred_experimental_frames env (queue_deferred_experimental_frame frame c, vp)))"

fun bgra_to_words :: "bytes \<Rightarrow> u32 list" where
  "bgra_to_words (b # g # r # a # rest) = u32_of_le [b, g, r, a] # bgra_to_words rest"
| "bgra_to_words _ = []"

definition clear_frame :: "'dec compositor \<Rightarrow> 'dec compositor" where
  "clear_frame c = c\<lparr>co_current_frame_id := None, co_damage := [], co_experimental_frame := False,
     co_experimental_chunked_frame := False, co_experimental_atlas := None, co_experimental_moves := []\<rparr>"

definition end_frame ::
    "('dec, 'vp) display_env \<Rightarrow> u64 \<Rightarrow> ('dec, 'vp) viewer \<Rightarrow> (('dec, 'vp) viewer, unit) outcome" where
  "end_frame env frame_id v =
     (case v of (c, vp) \<Rightarrow>
        sbind (v, snd (ensure_frame frame_id c)) (\<lambda>_ _.
        if co_experimental_frame c then
          sbind (end_experimental_frame env frame_id v) (\<lambda>(c, vp) _. ((clear_frame c, vp), Inr ()))
        else
          let argb = bgra_to_words (co_bgra c) in
          sbind (v, lift_err (viewport_lock env vp)) (\<lambda>_ _.
          let vp = vp\<lparr>vp_cached_frame := Some \<lparr>ca_width = co_width c, ca_height = co_height c, ca_argb = argb\<rparr>\<rparr> in
          case present_cached env vp (co_damage c) (co_damage c = []) of (vp, result) \<Rightarrow>
            sbind ((c, vp), lift_err result) (\<lambda>(c, vp) _.
            ((c\<lparr>co_current_frame_id := None, co_damage := []\<rparr>, vp), Inr ())))))"

section \<open>Records\<close>

definition DISPLAY_EXPERIMENTAL_ATLAS_CHUNK_FLAG_FINAL :: u32 where
  "DISPLAY_EXPERIMENTAL_ATLAS_CHUNK_FLAG_FINAL = 2"

fun parse_error_text :: "DisplayRecordParseError \<Rightarrow> string" where
  "parse_error_text DrTooShort = ''display record too short''"
| "parse_error_text DrLengthMismatch = ''display record length mismatch''"
| "parse_error_text DrInvalidPayload = ''display record payload invalid''"

definition on_compositor :: "'vp viewport \<Rightarrow> ('dec compositor, 'a) outcome \<Rightarrow> (('dec, 'vp) viewer, 'a) outcome" where
  "on_compositor vp r = (case r of (c, a) \<Rightarrow> ((c, vp), a))"

definition handle_move_rect ::
    "u64 \<Rightarrow> u32 \<Rightarrow> u32 \<Rightarrow> u32 \<Rightarrow> u32 \<Rightarrow> u32 \<Rightarrow> u32 \<Rightarrow> 'dec compositor \<Rightarrow> ('dec compositor, unit) outcome" where
  "handle_move_rect frame_id from_x from_y to_x to_y width height c =
     sbind (ensure_frame frame_id c) (\<lambda>c _.
     if co_experimental_frame c then
       sbind (c, validate_display_rect from_x from_y width height c) (\<lambda>c _.
       sbind (c, validate_display_rect to_x to_y width height c) (\<lambda>c _.
       (c\<lparr>co_experimental_moves := co_experimental_moves c @ [\<lparr>em_src_x = from_x, em_src_y = from_y,
            em_dst_x = to_x, em_dst_y = to_y, em_width = width, em_height = height\<rparr>]\<rparr>, Inr ())))
     else apply_move_rect from_x from_y to_x to_y width height c)"

definition handle_atlas_commands ::
    "u64 \<Rightarrow> u32 \<Rightarrow> u32 \<Rightarrow> DisplayAtlasRect list \<Rightarrow> bytes \<Rightarrow> nat \<Rightarrow> 'dec compositor \<Rightarrow> ('dec compositor, unit) outcome" where
  "handle_atlas_commands frame_id atlas_width atlas_height rects tile_commands record_len c =
     sbind (ensure_frame frame_id c) (\<lambda>c _.
     let c = c\<lparr>co_experimental_frame := True\<rparr> in
     sbind (c, validate_experimental_atlas atlas_width atlas_height rects c) (\<lambda>c _.
     (c\<lparr>co_experimental_atlas := Some \<lparr>pe_atlas_width = atlas_width, pe_atlas_height = atlas_height,
          pe_rects = rects, pe_tile_commands = tile_commands, pe_record_bytes = record_len\<rparr>\<rparr>, Inr ())))"

definition handle_atlas_chunk ::
    "('dec, 'vp) display_env \<Rightarrow> u64 \<Rightarrow> u32 \<Rightarrow> u32 \<Rightarrow> u32 \<Rightarrow> DisplayAtlasRect list \<Rightarrow> bytes \<Rightarrow> nat \<Rightarrow> ('dec, 'vp) viewer
     \<Rightarrow> (('dec, 'vp) viewer, unit) outcome" where
  "handle_atlas_chunk env frame_id flags atlas_width atlas_height rects tile_commands record_len v =
     (case v of (c, vp) \<Rightarrow>
        sbind (on_compositor vp (ensure_frame frame_id c)) (\<lambda>(c, vp) _.
        let c = c\<lparr>co_experimental_frame := True, co_experimental_chunked_frame := True\<rparr> in
        sbind ((c, vp), validate_experimental_atlas atlas_width atlas_height rects c) (\<lambda>(c, vp) _.
        let frame = \<lparr>df_frame_id = frame_id, df_desktop_width = co_width c, df_desktop_height = co_height c,
              df_atlas = \<lparr>pe_atlas_width = atlas_width, pe_atlas_height = atlas_height, pe_rects = rects,
                 pe_tile_commands = tile_commands, pe_record_bytes = record_len\<rparr>,
              df_moves = co_experimental_moves c,
              df_present_after_composite = (flags AND DISPLAY_EXPERIMENTAL_ATLAS_CHUNK_FLAG_FINAL \<noteq> 0)\<rparr>;
            c = c\<lparr>co_experimental_moves := []\<rparr> in
        flush_deferred_experimental_frames env (queue_deferred_experimental_frame frame c, vp))))"

definition handle_keyframe :: "u64 \<Rightarrow> u32 \<Rightarrow> u32 \<Rightarrow> bytes \<Rightarrow> 'dec compositor \<Rightarrow> ('dec compositor, unit) outcome" where
  "handle_keyframe frame_id width height payload c =
     sbind (begin_frame frame_id width height c) (\<lambda>c _.
     if length payload \<noteq> length (co_bgra c) then fails c ''display keyframe payload length mismatch''
     else (c\<lparr>co_bgra := payload, co_damage := co_damage c @
               [\<lparr>fd_x = 0, fd_y = 0, fd_width = width, fd_height = height\<rparr>]\<rparr>, Inr ()))"

fun apply_record ::
    "('dec, 'vp) display_env \<Rightarrow> DisplayRecord \<Rightarrow> nat \<Rightarrow> ('dec, 'vp) viewer \<Rightarrow> (('dec, 'vp) viewer, unit) outcome" where
  "apply_record env (FrameBegin frame_id width height) len (c, vp) = on_compositor vp (begin_frame frame_id width height c)"
| "apply_record env (FrameEnd frame_id) len v = end_frame env frame_id v"
| "apply_record env (MoveRect frame_id from_x from_y to_x to_y width height) len (c, vp) =
     on_compositor vp (handle_move_rect frame_id from_x from_y to_x to_y width height c)"
| "apply_record env (AtlasH264 frame_id flags atlas_width atlas_height rects payload) len (c, vp) =
     on_compositor vp (sbind (ensure_frame frame_id c) (\<lambda>c _. apply_h264_atlas env atlas_width atlas_height rects payload c))"
| "apply_record env (ExperimentalAtlasCommands frame_id atlas_width atlas_height rects tile_commands) len (c, vp) =
     on_compositor vp (handle_atlas_commands frame_id atlas_width atlas_height rects tile_commands len c)"
| "apply_record env (ExperimentalAtlasCommandsChunk frame_id flags chunk_index chunk_count atlas_width atlas_height rects
       tile_commands) len v =
     handle_atlas_chunk env frame_id flags atlas_width atlas_height rects tile_commands len v"
| "apply_record env (Keyframe frame_id width height raw_len payload) len (c, vp) =
     on_compositor vp (handle_keyframe frame_id width height payload c)"

definition handle_record ::
    "('dec, 'vp) display_env \<Rightarrow> bytes \<Rightarrow> ('dec, 'vp) viewer \<Rightarrow> (('dec, 'vp) viewer, unit) outcome" where
  "handle_record env record_bytes v =
     (case decode_display_record record_bytes of
        Inl (Err e) \<Rightarrow> (v, Inl (Err (parse_error_text e)))
      | Inl Panic \<Rightarrow> (v, Inl Panic)
      | Inr decoded \<Rightarrow> apply_record env decoded (length record_bytes) v)"

end
