(* ===== verification/Compositor_Pixels.thy ===== *)
theory Compositor_Pixels
  imports Compositor
begin

text \<open>
  The compositor's pixel operations on the image of the desktop: moving a rectangle is a simultaneous
  copy, also when source and destination overlap, and applying an atlas paints its rectangles. The
  operations on rectangles that do not wrap never panic.
\<close>

definition no_wrap :: "u32 \<Rightarrow> u32 \<Rightarrow> u32 \<Rightarrow> u32 \<Rightarrow> bool" where
  "no_wrap x y width height \<longleftrightarrow> unat x + unat width < 2 ^ 32 \<and> unat y + unat height < 2 ^ 32"

definition desktop_ok :: "'dec compositor \<Rightarrow> bool" where
  "desktop_ok c \<longleftrightarrow> atlas_ok (unat (co_width c)) (unat (co_height c)) (co_bgra c)"

lemma validate_display_rect_iff:
  assumes "no_wrap x y width height"
  shows "validate_display_rect x y width height c = Inr () \<longleftrightarrow>
    0 < width \<and> 0 < height \<and> rect_inside (unat (co_width c)) (unat (co_height c)) x y width height"
  using assms by (auto simp: validate_display_rect_def no_wrap_def rect_inside_def word_less_nat_alt
      not_less unat_add_no_wrap unat_gt_0)

lemma validate_display_rect_cases:
  "validate_display_rect x y width height c = Inr () \<or>
   validate_display_rect x y width height c = Inl (Err ''display record rect exceeds desktop bounds'')"
  by (simp add: validate_display_rect_def)

lemma pixel_offset_eq: "pixel_offset dw x y = usz (unat y * (unat dw * 4) + unat x * 4)"
  by (simp add: pixel_offset_def algebra_simps)

text \<open>A row inside a buffer.\<close>

lemma row_fits:
  assumes "atlas_ok W H b" "px + k \<le> W" "0 < k" "py < H"
  shows "usz (py * (W * 4) + px * 4) = py * (W * 4) + px * 4"
    "usz (py * (W * 4) + px * 4 + 4 * k) = py * (W * 4) + px * 4 + 4 * k"
    "py * (W * 4) + px * 4 + 4 * k \<le> length b"
proof -
  have "py * (W * 4) + (px + k - 1) * 4 + 4 \<le> W * H * 4"
    using pixel_fits [of "px + k - 1" W py H] assms by simp
  then show fits: "py * (W * 4) + px * 4 + 4 * k \<le> length b" using assms by (simp add: atlas_ok_def)
  moreover have "length b < 2 ^ 64" using assms(1) by (simp add: atlas_ok_def)
  ultimately have "py * (W * 4) + px * 4 + 4 * k < 2 ^ 64" by linarith
  then show "usz (py * (W * 4) + px * 4 + 4 * k) = py * (W * 4) + px * 4 + 4 * k"
    "usz (py * (W * 4) + px * 4) = py * (W * 4) + px * 4"
    by (simp_all add: usz_small)
qed

lemma read_row_inside:
  assumes "atlas_ok W H b" "px + k \<le> W" "0 < k" "py < H"
  shows "read_row b (usz (py * (W * 4) + px * 4)) (k * 4)
    = Inr (slice (py * (W * 4) + px * 4) (py * (W * 4) + px * 4 + 4 * k) b)"
  using row_fits [OF assms] by (simp add: read_row_def get_range_def mult.commute [of k])

lemma row_pixel:
  assumes "py * (W * 4) + px * 4 + 4 * k \<le> length b" "i < k"
  shows "slice (4 * i) (4 * i + 4) (slice (py * (W * 4) + px * 4) (py * (W * 4) + px * 4 + 4 * k) b)
    = image_of W b (px + i) py"
proof (rule nth_equalityI)
  have "4 * i + 4 \<le> 4 * k" using assms(2) by simp
  then show "length (slice (4 * i) (4 * i + 4) (slice (py * (W * 4) + px * 4) (py * (W * 4) + px * 4 + 4 * k) b))
      = length (image_of W b (px + i) py)"
    using assms by (simp add: image_of_def)
  fix j assume "j < length (slice (4 * i) (4 * i + 4) (slice (py * (W * 4) + px * 4) (py * (W * 4) + px * 4 + 4 * k) b))"
  then have "j < 4" by simp
  then show "slice (4 * i) (4 * i + 4) (slice (py * (W * 4) + px * 4) (py * (W * 4) + px * 4 + 4 * k) b) ! j
      = image_of W b (px + i) py ! j"
    using assms \<open>4 * i + 4 \<le> 4 * k\<close> by (simp add: image_of_def slice_nth algebra_simps)
qed

text \<open>Writing the rows of a rectangle one after the other.\<close>

lemma write_rows:
  fixes W H :: nat and rows :: "nat \<Rightarrow> bytes"
  assumes dw: "unat dw = W" and ok: "atlas_ok W H b" and rect: "rect_inside W H x y width height"
    and nw: "no_wrap x y width height" and w: "0 < width"
    and rows: "\<And>i. i < unat height \<Longrightarrow> length (rows i) = 4 * unat width" and n: "n \<le> unat height"
  shows "\<exists>b'. try_fold (\<lambda>b row. write_row b (pixel_offset dw x (y + of_nat row)) (rows row)) b [0..<n] = Inr b'
    \<and> atlas_ok W H b'
    \<and> (\<forall>qx qy. qx < W \<longrightarrow> image_of W b' qx qy =
         (if in_rect (unat x) (unat y) (unat width) n qx qy
          then slice (4 * (qx - unat x)) (4 * (qx - unat x) + 4) (rows (qy - unat y)) else image_of W b qx qy))"
  using n
proof (induction n)
  case 0
  then show ?case using ok by (auto simp: in_rect_def)
next
  case (Suc n)
  then obtain b1 where b1: "try_fold (\<lambda>b row. write_row b (pixel_offset dw x (y + of_nat row)) (rows row)) b [0..<n] = Inr b1"
      "atlas_ok W H b1"
    and img: "\<And>qx qy. qx < W \<Longrightarrow> image_of W b1 qx qy =
         (if in_rect (unat x) (unat y) (unat width) n qx qy
          then slice (4 * (qx - unat x)) (4 * (qx - unat x) + 4) (rows (qy - unat y)) else image_of W b qx qy)"
    by auto
  have "unat (of_nat n :: u32) = n" using Suc.prems unat_bound [of height] by (intro unat_of_nat_bound) simp
  moreover have "unat y + n < 2 ^ 32" using Suc.prems nw by (simp add: no_wrap_def)
  ultimately have yn: "unat (y + of_nat n) = unat y + n" by (simp add: unat_add_no_wrap)
  have inside: "unat x + unat width \<le> W" "0 < unat width" "unat y + n < H"
    using rect w Suc.prems by (simp_all add: rect_inside_def word_less_nat_alt)
  have len: "length (rows n) = 4 * unat width" using rows Suc.prems by simp
  obtain b2 where put: "put_range (usz ((unat y + n) * (W * 4) + unat x * 4)) (rows n) b1 = Some b2" "atlas_ok W H b2"
    and img2: "\<And>qx qy. qx < W \<Longrightarrow> image_of W b2 qx qy =
        (if unat x \<le> qx \<and> qx < unat x + unat width \<and> qy = unat y + n
         then slice (4 * (qx - unat x)) (4 * (qx - unat x) + 4) (rows n) else image_of W b1 qx qy)"
    using put_row [OF b1(2) inside len] by blast
  have "write_row b1 (pixel_offset dw x (y + of_nat n)) (rows n) = Inr b2"
    using row_fits [OF b1(2) inside] put(1) len
    by (simp add: write_row_def pixel_offset_eq yn dw get_range_def)
  then have "try_fold (\<lambda>b row. write_row b (pixel_offset dw x (y + of_nat row)) (rows row)) b [0..<Suc n] = Inr b2"
    using b1(1) by (simp add: try_fold_append)
  moreover have "image_of W b2 qx qy =
      (if in_rect (unat x) (unat y) (unat width) (Suc n) qx qy
       then slice (4 * (qx - unat x)) (4 * (qx - unat x) + 4) (rows (qy - unat y)) else image_of W b qx qy)"
    if "qx < W" for qx qy
    using img2 [OF that, of qy] img [OF that, of qy] by (auto simp: in_rect_def less_Suc_eq)
  ultimately show ?case using put(2) by blast
qed

section \<open>Moves\<close>

lemma move_rows:
  assumes ok: "atlas_ok W H b" and dw: "unat dw = W" and rect: "rect_inside W H x y width height"
    and nw: "no_wrap x y width height" and w: "0 < width" and i: "i < unat height"
  shows "read_row b (pixel_offset dw x (y + of_nat i)) (unat width * 4)
      = Inr (slice ((unat y + i) * (W * 4) + unat x * 4) ((unat y + i) * (W * 4) + unat x * 4 + 4 * unat width) b)"
    "(unat y + i) * (W * 4) + unat x * 4 + 4 * unat width \<le> length b"
proof -
  have "unat (of_nat i :: u32) = i" using i unat_bound [of height] by (intro unat_of_nat_bound) simp
  moreover have "unat y + i < 2 ^ 32" using i nw by (simp add: no_wrap_def)
  ultimately have yi: "unat (y + of_nat i) = unat y + i" by (simp add: unat_add_no_wrap)
  have inside: "unat x + unat width \<le> W" "0 < unat width" "unat y + i < H"
    using rect w i by (simp_all add: rect_inside_def word_less_nat_alt)
  show "read_row b (pixel_offset dw x (y + of_nat i)) (unat width * 4)
      = Inr (slice ((unat y + i) * (W * 4) + unat x * 4) ((unat y + i) * (W * 4) + unat x * 4 + 4 * unat width) b)"
    using read_row_inside [OF ok inside] by (simp add: pixel_offset_eq yi dw)
  show "(unat y + i) * (W * 4) + unat x * 4 + 4 * unat width \<le> length b" by (rule row_fits(3) [OF ok inside])
qed

text \<open>The image in which a rectangle shows a part of another image. A move pastes the image into itself:
  the destination shows what the source showed before.\<close>

definition pasted :: "image \<Rightarrow> nat \<Rightarrow> nat \<Rightarrow> nat \<Rightarrow> nat \<Rightarrow> nat \<Rightarrow> nat \<Rightarrow> image \<Rightarrow> image" where
  "pasted from sx sy dx dy w h img px py =
     (if in_rect dx dy w h px py then from (sx + (px - dx)) (sy + (py - dy)) else img px py)"

definition moved :: "nat \<Rightarrow> nat \<Rightarrow> nat \<Rightarrow> nat \<Rightarrow> nat \<Rightarrow> nat \<Rightarrow> image \<Rightarrow> image" where
  "moved sx sy dx dy w h img = pasted img sx sy dx dy w h img"

lemma move_pixels_image:
  assumes ok: "atlas_ok W H b" and dw: "unat dw = W" and w: "0 < width"
    and src: "rect_inside W H sx sy width height" "no_wrap sx sy width height"
    and dst: "rect_inside W H dx dy width height" "no_wrap dx dy width height"
  shows "\<exists>b'. move_pixels dw sx sy dx dy width height b = Inr b' \<and> atlas_ok W H b'
    \<and> (\<forall>qx qy. qx < W \<longrightarrow> image_of W b' qx qy =
         moved (unat sx) (unat sy) (unat dx) (unat dy) (unat width) (unat height) (image_of W b) qx qy)"
proof -
  define rows where "rows i = slice ((unat sy + i) * (W * 4) + unat sx * 4)
      ((unat sy + i) * (W * 4) + unat sx * 4 + 4 * unat width) b" for i
  note src_row = move_rows [OF ok dw src w]
  have temp: "try_map (\<lambda>row. read_row b (pixel_offset dw sx (sy + of_nat row)) (unat width * 4)) [0..<unat height]
      = Inr (map rows [0..<unat height])"
    using src_row(1) by (intro try_map_ok) (simp add: rows_def)
  have len: "length (rows i) = 4 * unat width" if "i < unat height" for i
    using src_row(2) [OF that] by (simp add: rows_def)
  obtain b' where b': "try_fold (\<lambda>b row. write_row b (pixel_offset dw dx (dy + of_nat row)) (rows row)) b [0..<unat height] = Inr b'"
      "atlas_ok W H b'"
    and img: "\<And>qx qy. qx < W \<Longrightarrow> image_of W b' qx qy =
         (if in_rect (unat dx) (unat dy) (unat width) (unat height) qx qy
          then slice (4 * (qx - unat dx)) (4 * (qx - unat dx) + 4) (rows (qy - unat dy)) else image_of W b qx qy)"
    using write_rows [OF dw ok dst w, of rows "unat height"] len by blast
  have "move_pixels dw sx sy dx dy width height b = Inr b'"
    unfolding move_pixels_def Let_def temp rbind.simps b'(1) [symmetric]
    by (rule try_fold_cong) simp
  moreover have "image_of W b' qx qy =
      moved (unat sx) (unat sy) (unat dx) (unat dy) (unat width) (unat height) (image_of W b) qx qy" if "qx < W" for qx qy
  proof (cases "in_rect (unat dx) (unat dy) (unat width) (unat height) qx qy")
    case True
    then have r: "qy - unat dy < unat height" "qx - unat dx < unat width" by (auto simp: in_rect_def)
    have "slice (4 * (qx - unat dx)) (4 * (qx - unat dx) + 4) (rows (qy - unat dy))
        = image_of W b (unat sx + (qx - unat dx)) (unat sy + (qy - unat dy))"
      unfolding rows_def by (rule row_pixel [OF src_row(2) [OF r(1)] r(2)])
    then show ?thesis using True img [OF that, of qy] by (simp add: moved_def pasted_def)
  next
    case False
    then show ?thesis using img [OF that, of qy] by (simp add: moved_def pasted_def)
  qed
  ultimately show ?thesis using b'(2) by blast
qed

lemma apply_move_rect_ok:
  assumes ok: "desktop_ok c" and nw: "no_wrap sx sy width height" "no_wrap dx dy width height"
  shows "if 0 < width \<and> 0 < height \<and> rect_inside (unat (co_width c)) (unat (co_height c)) sx sy width height
        \<and> rect_inside (unat (co_width c)) (unat (co_height c)) dx dy width height
    then \<exists>b. apply_move_rect sx sy dx dy width height c = (c\<lparr>co_bgra := b, co_damage := co_damage c @
          [\<lparr>fd_x = dx, fd_y = dy, fd_width = width, fd_height = height\<rparr>]\<rparr>, Inr ())
      \<and> atlas_ok (unat (co_width c)) (unat (co_height c)) b
      \<and> (\<forall>qx qy. qx < unat (co_width c) \<longrightarrow> image_of (unat (co_width c)) b qx qy =
           moved (unat sx) (unat sy) (unat dx) (unat dy) (unat width) (unat height)
             (image_of (unat (co_width c)) (co_bgra c)) qx qy)
    else apply_move_rect sx sy dx dy width height c = (c, Inl (Err ''display record rect exceeds desktop bounds''))"
proof (cases "validate_display_rect sx sy width height c = Inr () \<and> validate_display_rect dx dy width height c = Inr ()")
  case True
  then have pos: "0 < width" "0 < height"
    and inside: "rect_inside (unat (co_width c)) (unat (co_height c)) sx sy width height"
      "rect_inside (unat (co_width c)) (unat (co_height c)) dx dy width height"
    using validate_display_rect_iff [OF nw(1)] validate_display_rect_iff [OF nw(2)] by blast+
  then obtain b' where "move_pixels (co_width c) sx sy dx dy width height (co_bgra c) = Inr b'"
      "atlas_ok (unat (co_width c)) (unat (co_height c)) b'"
      "\<forall>qx qy. qx < unat (co_width c) \<longrightarrow> image_of (unat (co_width c)) b' qx qy =
         moved (unat sx) (unat sy) (unat dx) (unat dy) (unat width) (unat height)
           (image_of (unat (co_width c)) (co_bgra c)) qx qy"
    using move_pixels_image [OF ok [unfolded desktop_ok_def] refl _ inside(1) nw(1) inside(2) nw(2)] by blast
  moreover from this(1) have "apply_move_rect sx sy dx dy width height c = (c\<lparr>co_bgra := b', co_damage := co_damage c @
      [\<lparr>fd_x = dx, fd_y = dy, fd_width = width, fd_height = height\<rparr>]\<rparr>, Inr ())"
    using True by (simp add: apply_move_rect_def)
  ultimately show ?thesis using pos inside by (simp only: if_True simp_thms) blast
next
  case False
  then have "\<not> (0 < width \<and> 0 < height \<and> rect_inside (unat (co_width c)) (unat (co_height c)) sx sy width height
        \<and> rect_inside (unat (co_width c)) (unat (co_height c)) dx dy width height)"
    using validate_display_rect_iff [OF nw(1)] validate_display_rect_iff [OF nw(2)] by blast
  moreover have "apply_move_rect sx sy dx dy width height c = (c, Inl (Err ''display record rect exceeds desktop bounds''))"
    using False validate_display_rect_cases [of sx sy width height c] validate_display_rect_cases [of dx dy width height c]
    by (auto simp: apply_move_rect_def)
  ultimately show ?thesis by (simp only: if_False)
qed

text \<open>C24. A move rectangle inside the desktop is a simultaneous copy: afterwards every pixel of the destination
  shows what the corresponding pixel of the source showed before, also when the two overlap, every other pixel is
  unchanged, and the destination is recorded as damage. Any other rectangle whose sides do not wrap around is
  refused and leaves the compositor unchanged.\<close>

theorem move_rect_simultaneous:
  assumes "desktop_ok c" and "no_wrap sx sy width height" and "no_wrap dx dy width height"
  shows "if 0 < width \<and> 0 < height \<and> rect_inside (unat (co_width c)) (unat (co_height c)) sx sy width height
        \<and> rect_inside (unat (co_width c)) (unat (co_height c)) dx dy width height
    then \<exists>b. apply_move_rect sx sy dx dy width height c = (c\<lparr>co_bgra := b, co_damage := co_damage c @
          [\<lparr>fd_x = dx, fd_y = dy, fd_width = width, fd_height = height\<rparr>]\<rparr>, Inr ())
      \<and> atlas_ok (unat (co_width c)) (unat (co_height c)) b
      \<and> (\<forall>qx qy. qx < unat (co_width c) \<longrightarrow> image_of (unat (co_width c)) b qx qy =
           moved (unat sx) (unat sy) (unat dx) (unat dy) (unat width) (unat height)
             (image_of (unat (co_width c)) (co_bgra c)) qx qy)
    else apply_move_rect sx sy dx dy width height c = (c, Inl (Err ''display record rect exceeds desktop bounds''))"
  by (rule apply_move_rect_ok [OF assms])

definition witness_desktop :: "unit compositor" where
  "witness_desktop = compositor_new\<lparr>co_width := 3, co_height := 1, co_current_frame_id := Some 7,
     co_bgra := [1, 1, 1, 255, 2, 2, 2, 255, 3, 3, 3, 255]\<rparr>"

lemma witness_desktop_ok: "desktop_ok witness_desktop"
  by (simp add: desktop_ok_def atlas_ok_def witness_desktop_def)

lemma witness_desktop_pixel: "image_of 3 (co_bgra witness_desktop) 1 0 = [2, 2, 2, 255]"
  by (simp add: image_of_def slice_def witness_desktop_def)

lemma move_rect_simultaneous_witness:
  "\<exists>b. apply_move_rect 0 0 1 0 2 1 witness_desktop = (witness_desktop\<lparr>co_bgra := b, co_damage := co_damage witness_desktop @
        [\<lparr>fd_x = 1, fd_y = 0, fd_width = 2, fd_height = 1\<rparr>]\<rparr>, Inr ())
     \<and> image_of 3 b 2 0 = [2, 2, 2, 255]"
proof -
  have dims: "unat (co_width witness_desktop) = 3" "unat (co_height witness_desktop) = 1"
    by (simp_all add: witness_desktop_def)
  obtain b where "apply_move_rect 0 0 1 0 2 1 witness_desktop = (witness_desktop\<lparr>co_bgra := b,
        co_damage := co_damage witness_desktop @ [\<lparr>fd_x = 1, fd_y = 0, fd_width = 2, fd_height = 1\<rparr>]\<rparr>, Inr ())"
      and "\<forall>qx qy. qx < 3 \<longrightarrow> image_of 3 b qx qy = moved 0 0 1 0 2 1 (image_of 3 (co_bgra witness_desktop)) qx qy"
    using move_rect_simultaneous [OF witness_desktop_ok, of 0 0 2 1 1 0]
    by (auto simp: no_wrap_def rect_inside_def dims)
  then show ?thesis using witness_desktop_pixel by (auto simp: moved_def pasted_def in_rect_def)
qed

section \<open>Atlases\<close>

definition paste_rect :: "u32 \<Rightarrow> bytes \<Rightarrow> DisplayAtlasRect \<Rightarrow> image \<Rightarrow> image" where
  "paste_rect atlas_width atlas_bgra rect =
     pasted (image_of (unat atlas_width) atlas_bgra) (unat (atlas_x rect)) (unat (atlas_y rect))
       (unat (dst_x rect)) (unat (dst_y rect)) (unat (rect_width rect)) (unat (rect_height rect))"

definition rect_dst_ok :: "DisplayAtlasRect \<Rightarrow> bool" where
  "rect_dst_ok rect \<longleftrightarrow> no_wrap (dst_x rect) (dst_y rect) (rect_width rect) (rect_height rect)"

lemma rect_in_atlas_inside:
  "rect_in_atlas aw ah rect \<Longrightarrow> 0 < rect_width rect \<and> 0 < rect_height rect
     \<and> no_wrap (atlas_x rect) (atlas_y rect) (rect_width rect) (rect_height rect)
     \<and> rect_inside (unat aw) (unat ah) (atlas_x rect) (atlas_y rect) (rect_width rect) (rect_height rect)"
  by (auto simp: rect_in_atlas_def checked_add_def no_wrap_def rect_inside_def word_le_nat_alt not_less
      unat_add_no_wrap word_gt_0 split: if_splits)

lemma copy_atlas_rect_image:
  assumes ok: "atlas_ok W H b" and dw: "unat dw = W" and atlas: "atlas_ok (unat aw) (unat ah) atlas_bgra"
    and rect: "rect_in_atlas aw ah rect" and nw: "rect_dst_ok rect"
    and dst: "rect_inside W H (dst_x rect) (dst_y rect) (rect_width rect) (rect_height rect)"
  shows "\<exists>b'. copy_atlas_rect dw aw atlas_bgra rect b = Inr b' \<and> atlas_ok W H b'
    \<and> (\<forall>qx qy. qx < W \<longrightarrow> image_of W b' qx qy = paste_rect aw atlas_bgra rect (image_of W b) qx qy)"
proof -
  let ?w = "rect_width rect" let ?h = "rect_height rect" let ?aw = "unat aw"
  define rows where "rows i = slice ((unat (atlas_y rect) + i) * (?aw * 4) + unat (atlas_x rect) * 4)
      ((unat (atlas_y rect) + i) * (?aw * 4) + unat (atlas_x rect) * 4 + 4 * unat ?w) atlas_bgra" for i
  note in_atlas = rect_in_atlas_inside [OF rect]
  have w: "0 < ?w" and anw: "no_wrap (atlas_x rect) (atlas_y rect) ?w ?h"
    and ain: "rect_inside (unat aw) (unat ah) (atlas_x rect) (atlas_y rect) ?w ?h" using in_atlas by blast+
  note src_row = move_rows [OF atlas refl ain anw w]
  have fits: "unat (atlas_y rect + of_nat i) * (?aw * 4) < 2 ^ 64" if "i < unat ?h" for i
  proof -
    have "unat (of_nat i :: u32) = i" using that unat_bound [of ?h] by (intro unat_of_nat_bound) simp
    then have "unat (atlas_y rect + of_nat i) = unat (atlas_y rect) + i"
      using that anw by (simp add: unat_add_no_wrap no_wrap_def)
    moreover have "(unat (atlas_y rect) + i) * (?aw * 4) \<le> length atlas_bgra" using src_row(2) [OF that] by simp
    moreover have "length atlas_bgra < 2 ^ 64" using atlas by (simp add: atlas_ok_def ac_simps)
    ultimately show ?thesis by (metis le_less_trans)
  qed
  have read: "read_row atlas_bgra (usz (usz (unat (atlas_y rect + of_nat i) * (?aw * 4)) + unat (atlas_x rect) * 4))
      (unat ?w * 4) = Inr (rows i)" if "i < unat ?h" for i
    using src_row(1) [OF that] usz_small [OF fits [OF that]] by (simp add: rows_def pixel_offset_eq)
  have len: "length (rows i) = 4 * unat ?w" if "i < unat ?h" for i using src_row(2) [OF that] by (simp add: rows_def)
  obtain b' where b': "try_fold (\<lambda>b row. write_row b (pixel_offset dw (dst_x rect) (dst_y rect + of_nat row)) (rows row)) b [0..<unat ?h] = Inr b'"
      "atlas_ok W H b'"
    and img: "\<And>qx qy. qx < W \<Longrightarrow> image_of W b' qx qy =
         (if in_rect (unat (dst_x rect)) (unat (dst_y rect)) (unat ?w) (unat ?h) qx qy
          then slice (4 * (qx - unat (dst_x rect))) (4 * (qx - unat (dst_x rect)) + 4) (rows (qy - unat (dst_y rect)))
          else image_of W b qx qy)"
    using write_rows [OF dw ok dst nw [unfolded rect_dst_ok_def] w, of rows "unat ?h"] len by blast
  have "copy_atlas_rect dw aw atlas_bgra rect b = Inr b'"
    unfolding copy_atlas_rect_def Let_def b'(1) [symmetric] by (rule try_fold_cong) (simp add: read)
  moreover have "image_of W b' qx qy = paste_rect aw atlas_bgra rect (image_of W b) qx qy" if "qx < W" for qx qy
  proof (cases "in_rect (unat (dst_x rect)) (unat (dst_y rect)) (unat ?w) (unat ?h) qx qy")
    case True
    then have r: "qy - unat (dst_y rect) < unat ?h" "qx - unat (dst_x rect) < unat ?w" by (auto simp: in_rect_def)
    show ?thesis
      using True img [OF that, of qy] row_pixel [OF src_row(2) [OF r(1)] r(2)]
      by (simp add: paste_rect_def pasted_def rows_def)
  next
    case False
    then show ?thesis using img [OF that, of qy] by (simp add: paste_rect_def pasted_def)
  qed
  ultimately show ?thesis using b'(2) by blast
qed

text \<open>The loop over the rectangles: it never panics, changes only the pixels and the damage, and has pasted
  the first \<open>k\<close> rectangles, all of them when it succeeds.\<close>

lemma apply_atlas_rects_ok:
  assumes "desktop_ok c" and "atlas_ok (unat aw) (unat ah) atlas_bgra"
    and "list_all (\<lambda>r. rect_in_atlas aw ah r \<and> rect_dst_ok r) rects"
  shows "\<exists>b d result k. apply_atlas_rects aw ah atlas_bgra rects c = (c\<lparr>co_bgra := b, co_damage := d\<rparr>, result)
    \<and> result \<noteq> Inl Panic \<and> atlas_ok (unat (co_width c)) (unat (co_height c)) b
    \<and> (result = Inr () \<longrightarrow> k = length rects)
    \<and> (\<forall>qx qy. qx < unat (co_width c) \<longrightarrow> image_of (unat (co_width c)) b qx qy
          = foldl (\<lambda>img r. paste_rect aw atlas_bgra r img) (image_of (unat (co_width c)) (co_bgra c)) (take k rects) qx qy)"
  using assms
proof (induction rects arbitrary: c)
  case Nil
  show ?case
    by (rule exI [of _ "co_bgra c"], rule exI [of _ "co_damage c"], rule exI [of _ "Inr ()"], rule exI [of _ 0])
      (use Nil.prems(1) in \<open>simp add: desktop_ok_def\<close>)
next
  case (Cons r rects)
  let ?W = "unat (co_width c)" let ?H = "unat (co_height c)"
  have r: "rect_in_atlas aw ah r" "rect_dst_ok r" using Cons.prems(3) by simp_all
  have ok: "atlas_ok ?W ?H (co_bgra c)" using Cons.prems(1) by (simp add: desktop_ok_def)
  have bounds: "\<not> (atlas_x r + rect_width r > aw \<or> atlas_y r + rect_height r > ah)"
    using r(1) by (simp add: rect_in_atlas_def)
  show ?case
  proof (cases "validate_display_rect (dst_x r) (dst_y r) (rect_width r) (rect_height r) c = Inr ()")
    case False
    then have "apply_atlas_rects aw ah atlas_bgra (r # rects) c
        = (c\<lparr>co_bgra := co_bgra c, co_damage := co_damage c\<rparr>, Inl (Err ''display record rect exceeds desktop bounds''))"
      using validate_display_rect_cases [of "dst_x r" "dst_y r" "rect_width r" "rect_height r" c] by auto
    then show ?thesis
      using ok by (intro exI [of _ "co_bgra c"] exI [of _ "co_damage c"] exI [of _ "Inl (Err _)"] exI [of _ 0]) auto
  next
    case True
    then have "rect_inside ?W ?H (dst_x r) (dst_y r) (rect_width r) (rect_height r)"
      using validate_display_rect_iff [of "dst_x r" "dst_y r" "rect_width r" "rect_height r" c] r(2)
      by (simp add: rect_dst_ok_def)
    then obtain b1 where b1: "copy_atlas_rect (co_width c) aw atlas_bgra r (co_bgra c) = Inr b1" "atlas_ok ?W ?H b1"
        "\<forall>qx qy. qx < ?W \<longrightarrow> image_of ?W b1 qx qy = paste_rect aw atlas_bgra r (image_of ?W (co_bgra c)) qx qy"
      using copy_atlas_rect_image [OF ok refl Cons.prems(2) r] by blast
    define c1 where "c1 = c\<lparr>co_bgra := b1, co_damage := co_damage c @
        [\<lparr>fd_x = dst_x r, fd_y = dst_y r, fd_width = rect_width r, fd_height = rect_height r\<rparr>]\<rparr>"
    have step: "apply_atlas_rects aw ah atlas_bgra (r # rects) c = apply_atlas_rects aw ah atlas_bgra rects c1"
      using True bounds b1(1) by (simp add: c1_def)
    have ok1: "desktop_ok c1" using b1(2) by (simp add: desktop_ok_def c1_def)
    obtain b d result k where ih: "apply_atlas_rects aw ah atlas_bgra rects c1 = (c1\<lparr>co_bgra := b, co_damage := d\<rparr>, result)"
        "result \<noteq> Inl Panic" "atlas_ok ?W ?H b" "result = Inr () \<longrightarrow> k = length rects"
        "\<forall>qx qy. qx < ?W \<longrightarrow> image_of ?W b qx qy = foldl (\<lambda>img r. paste_rect aw atlas_bgra r img) (image_of ?W b1) (take k rects) qx qy"
      using Cons.IH [OF ok1 Cons.prems(2)] Cons.prems(3) by (auto simp: c1_def)
    have fold: "foldl (\<lambda>img r. paste_rect aw atlas_bgra r img) f rs qx qy = foldl (\<lambda>img r. paste_rect aw atlas_bgra r img) g rs qx qy"
      if "\<forall>qx qy. qx < ?W \<longrightarrow> f qx qy = g qx qy" "qx < ?W" for f g :: image and rs qx qy
      using that(1)
    proof (induction rs arbitrary: f g)
      case Nil
      then show ?case using that(2) by simp
    next
      case (Cons r rs)
      have "\<forall>qx qy. qx < ?W \<longrightarrow> paste_rect aw atlas_bgra r f qx qy = paste_rect aw atlas_bgra r g qx qy"
        using Cons.prems by (simp add: paste_rect_def pasted_def)
      then show ?case using Cons.IH by simp
    qed
    have "apply_atlas_rects aw ah atlas_bgra (r # rects) c = (c\<lparr>co_bgra := b, co_damage := d\<rparr>, result)"
      using step ih(1) by (simp add: c1_def)
    moreover have "\<forall>qx qy. qx < ?W \<longrightarrow> image_of ?W b qx qy
        = foldl (\<lambda>img r. paste_rect aw atlas_bgra r img) (image_of ?W (co_bgra c)) (take (Suc k) (r # rects)) qx qy"
      using ih(5) fold [OF b1(3)] by simp
    ultimately show ?thesis using ih(2-4) by (intro exI [of _ b] exI [of _ d] exI [of _ result] exI [of _ "Suc k"]) simp
  qed
qed

end
