(* ===== verification/Compositor_Queue.thy ===== *)
theory Compositor_Queue
  imports Compositor
begin

text \<open>
  The queue of deferred frames of the compositor: what \<open>queue_deferred_experimental_frame\<close> keeps, that the byte
  counter is exact and the queue stays inside its two limits, and in which order
  \<open>flush_deferred_experimental_frames\<close> hands the frames to the viewport.
\<close>

section \<open>The contract of the queue\<close>

definition total_queued :: "DeferredExperimentalFrame list \<Rightarrow> nat" where
  "total_queued frames = sum_list (map queued_bytes frames)"

definition queue_fits :: "DeferredExperimentalFrame list \<Rightarrow> bool" where
  "queue_fits frames \<longleftrightarrow> length frames \<le> MAX_DEFERRED_EXPERIMENTAL_FRAMES
     \<and> total_queued frames \<le> MAX_DEFERRED_EXPERIMENTAL_BYTES"

fun newest_fitting :: "DeferredExperimentalFrame list \<Rightarrow> DeferredExperimentalFrame list" where
  "newest_fitting [] = []"
| "newest_fitting (f # fs) = (if queue_fits (f # fs) then f # fs else newest_fitting fs)"

definition queue_ok :: "'dec compositor \<Rightarrow> bool" where
  "queue_ok c \<longleftrightarrow> co_deferred_experimental_bytes c = total_queued (co_deferred_experimental_frames c)
     \<and> queue_fits (co_deferred_experimental_frames c)"

text \<open>What the queue operations leave alone.\<close>

definition same_desktop :: "'dec compositor \<Rightarrow> 'dec compositor \<Rightarrow> bool" where
  "same_desktop c c' \<longleftrightarrow> co_width c' = co_width c \<and> co_height c' = co_height c \<and> co_bgra c' = co_bgra c
     \<and> co_decoder c' = co_decoder c \<and> co_decoder_size c' = co_decoder_size c"

lemma same_desktop_refl [simp]: "same_desktop c c"
  by (simp add: same_desktop_def)

lemma same_desktop_trans [trans]: "same_desktop a b \<Longrightarrow> same_desktop b c \<Longrightarrow> same_desktop a c"
  by (simp add: same_desktop_def)

lemma total_queued_simps [simp]:
  "total_queued [] = 0" "total_queued (f # fs) = queued_bytes f + total_queued fs"
  "total_queued (fs @ gs) = total_queued fs + total_queued gs"
  by (simp_all add: total_queued_def)

lemma queued_bytes_max: "queued_bytes f \<le> usize_max"
  by (simp add: queued_bytes_def usize_saturating_add_def)

lemma queue_fits_Nil [simp]: "queue_fits []"
  by (simp add: queue_fits_def)

lemma queue_fits_tl: "queue_fits (f # fs) \<Longrightarrow> queue_fits fs"
  by (simp add: queue_fits_def)

lemma newest_fitting_fits: "queue_fits (newest_fitting fs)"
  by (induction fs) simp_all

lemma newest_fitting_suffix: "\<exists>dropped. fs = dropped @ newest_fitting fs"
proof (induction fs)
  case (Cons f fs)
  then obtain dropped where "fs = dropped @ newest_fitting fs" ..
  then have "f # fs = (f # dropped) @ newest_fitting fs" by simp
  then show ?case by (metis append_Nil newest_fitting.simps(2))
qed simp

lemma newest_fitting_longest:
  "queue_fits keep \<Longrightarrow> fs = dropped @ keep \<Longrightarrow> length keep \<le> length (newest_fitting fs)"
proof (induction fs arbitrary: dropped)
  case (Cons f fs)
  show ?case
  proof (cases "queue_fits (f # fs)")
    case True
    then show ?thesis using Cons.prems(2) by (metis length_append le_add2 newest_fitting.simps(2))
  next
    case False
    then obtain dropped' where "fs = dropped' @ keep"
      using Cons.prems by (cases dropped) auto
    then show ?thesis using Cons.IH Cons.prems(1) False by simp
  qed
qed simp

lemma newest_fitting_keeps_last:
  assumes "queued_bytes f \<le> MAX_DEFERRED_EXPERIMENTAL_BYTES"
  shows "\<exists>kept. newest_fitting (fs @ [f]) = kept @ [f]"
proof -
  have "queue_fits [f]" using assms by (simp add: queue_fits_def MAX_DEFERRED_EXPERIMENTAL_FRAMES_def)
  then have "1 \<le> length (newest_fitting (fs @ [f]))" using newest_fitting_longest [of "[f]" "fs @ [f]" fs] by simp
  moreover obtain dropped where d: "fs @ [f] = dropped @ newest_fitting (fs @ [f])" using newest_fitting_suffix by blast
  ultimately show ?thesis
    by (metis append_butlast_last_id last_appendR last_snoc list.size(3) not_one_le_zero)
qed

section \<open>Queueing\<close>

lemma drop_front_fields [simp]:
  "co_deferred_experimental_frames (drop_front c) = tl (co_deferred_experimental_frames c)"
  "co_deferred_experimental_bytes (drop_front c)
     = co_deferred_experimental_bytes c - queued_bytes (hd (co_deferred_experimental_frames c))"
  "same_desktop c (drop_front c)"
  "same_desktop (drop_front c) d \<longleftrightarrow> same_desktop c d"
  by (simp_all add: drop_front_def pop_front_def same_desktop_def)

lemma drop_older_ok:
  "queue_ok c \<Longrightarrow> queue_ok (drop_older frame_id c) \<and> same_desktop c (drop_older frame_id c)
     \<and> co_deferred_experimental_frames (drop_older frame_id c)
         = dropWhile (\<lambda>f. df_frame_id f < frame_id) (co_deferred_experimental_frames c)"
proof (induction frame_id c rule: drop_older.induct)
  case (1 frame_id c)
  show ?case
  proof (cases "co_deferred_experimental_frames c")
    case Nil
    then show ?thesis using 1 by (subst (1 2 3) drop_older.simps) simp
  next
    case (Cons f fs)
    then have ok: "queue_ok (drop_front c)"
      using 1(2) queue_fits_tl by (auto simp: queue_ok_def)
    show ?thesis
    proof (cases "df_frame_id f < frame_id")
      case True
      then have step: "drop_older frame_id c = drop_older frame_id (drop_front c)"
        using Cons by (subst drop_older.simps) simp
      show ?thesis
        using 1(1) [OF Cons True ok] Cons True by (simp add: step)
    next
      case False
      then have "drop_older frame_id c = c" using Cons by (subst drop_older.simps) simp
      then show ?thesis using 1(2) Cons False by simp
    qed
  qed
qed

text \<open>The counter may have saturated when the newest frame was added. It is then \<open>slack\<close> too small, the newest
  frame alone is beyond the limit, and the loop empties the queue.\<close>

definition counted :: "nat \<Rightarrow> 'dec compositor \<Rightarrow> bool" where
  "counted slack c \<longleftrightarrow>
     co_deferred_experimental_bytes c = total_queued (co_deferred_experimental_frames c) - slack
     \<and> (slack = 0 \<or> co_deferred_experimental_frames c = [] \<or>
        slack + MAX_DEFERRED_EXPERIMENTAL_BYTES < queued_bytes (last (co_deferred_experimental_frames c)))"

lemma last_le_total: "fs \<noteq> [] \<Longrightarrow> queued_bytes (last fs) \<le> total_queued fs"
  by (induction fs) auto

lemma counted_over:
  assumes "counted slack c" "co_deferred_experimental_frames c \<noteq> []"
  shows "co_deferred_experimental_bytes c > MAX_DEFERRED_EXPERIMENTAL_BYTES
    \<longleftrightarrow> total_queued (co_deferred_experimental_frames c) > MAX_DEFERRED_EXPERIMENTAL_BYTES"
  using assms last_le_total [OF assms(2)] by (auto simp: counted_def)

lemma counted_drop_front:
  assumes "counted slack c" "co_deferred_experimental_frames c = f # fs"
  shows "counted slack (drop_front c)"
  using assms last_le_total [of fs] by (cases "fs = []") (auto simp: counted_def)

lemma drop_excess_ok:
  "counted slack c \<Longrightarrow> co_deferred_experimental_frames c \<noteq> [] \<or> slack = 0 \<Longrightarrow>
     queue_ok (drop_excess c) \<and> same_desktop c (drop_excess c)
     \<and> co_deferred_experimental_frames (drop_excess c) = newest_fitting (co_deferred_experimental_frames c)"
proof (induction c rule: drop_excess.induct)
  case (1 c)
  show ?case
  proof (cases "co_deferred_experimental_frames c")
    case Nil
    then have "drop_excess c = c" using 1(2) by (subst drop_excess.simps) (simp add: counted_def)
    then show ?thesis using 1(2) Nil by (simp add: counted_def queue_ok_def)
  next
    case (Cons f fs)
    note over = counted_over [OF 1(2)]
    show ?thesis
    proof (cases "queue_fits (f # fs)")
      case True
      then have "drop_excess c = c" using over Cons by (subst drop_excess.simps) (simp add: queue_fits_def not_less)
      moreover have "slack = 0"
        using 1(2) True Cons last_le_total [of "f # fs"] by (auto simp: counted_def queue_fits_def)
      ultimately show ?thesis using 1(2) Cons True by (simp add: counted_def queue_ok_def)
    next
      case False
      then have big: "length (co_deferred_experimental_frames c) > MAX_DEFERRED_EXPERIMENTAL_FRAMES
          \<or> co_deferred_experimental_bytes c > MAX_DEFERRED_EXPERIMENTAL_BYTES"
        using over Cons by (auto simp: queue_fits_def)
      then have step: "drop_excess c = drop_excess (drop_front c)"
        using Cons by (subst drop_excess.simps) simp
      have counted: "counted slack (drop_front c)" using counted_drop_front [OF 1(2) Cons] .
      show ?thesis
      proof (cases "fs = []")
        case True
        then have empty: "co_deferred_experimental_frames (drop_front c) = []"
            "co_deferred_experimental_bytes (drop_front c) = 0"
          using Cons counted by (simp_all add: counted_def)
        then have "drop_excess (drop_front c) = drop_front c" by (subst drop_excess.simps) simp
        then show ?thesis
          using empty step False True Cons drop_front_fields(3) [of c] by (simp add: queue_ok_def)
      next
        case False
        then show ?thesis
          using 1(1) [OF big Cons counted] Cons step
            \<open>\<not> queue_fits (f # fs)\<close> by simp
      qed
    qed
  qed
qed

text \<open>The frames a new frame is queued behind: a large frame first drops the older ones at the front.\<close>

definition kept_before :: "DeferredExperimentalFrame \<Rightarrow> DeferredExperimentalFrame list \<Rightarrow> DeferredExperimentalFrame list" where
  "kept_before frame frames =
     (if queued_bytes frame \<ge> LARGE_EXPERIMENTAL_FRAME_BYTES
      then dropWhile (\<lambda>f. df_frame_id f < df_frame_id frame) frames else frames)"

lemma kept_before_split:
  "\<exists>older. frames = older @ kept_before frame frames
     \<and> (if queued_bytes frame < 1024 * 1024 then older = []
        else (\<forall>f\<in>set older. df_frame_id f < df_frame_id frame)
          \<and> (\<forall>f fs. kept_before frame frames = f # fs \<longrightarrow> df_frame_id frame \<le> df_frame_id f))"
proof (cases "queued_bytes frame < 1024 * 1024")
  case True
  then show ?thesis by (simp add: kept_before_def LARGE_EXPERIMENTAL_FRAME_BYTES_def)
next
  case False
  let ?old = "\<lambda>f. df_frame_id f < df_frame_id frame"
  have "kept_before frame frames = dropWhile ?old frames"
    using False by (simp add: kept_before_def LARGE_EXPERIMENTAL_FRAME_BYTES_def)
  moreover have "df_frame_id frame \<le> df_frame_id f" if "dropWhile ?old frames = f # fs" for f fs
    using hd_dropWhile [of ?old frames] that by simp
  ultimately show ?thesis
    using False by (intro exI [of _ "takeWhile ?old frames"]) (auto dest: set_takeWhileD)
qed

lemma queue_deferred_ok:
  assumes "queue_ok c"
  shows "queue_ok (queue_deferred_experimental_frame frame c)
    \<and> same_desktop c (queue_deferred_experimental_frame frame c)
    \<and> co_deferred_experimental_frames (queue_deferred_experimental_frame frame c)
        = newest_fitting (kept_before frame (co_deferred_experimental_frames c) @ [frame])"
proof -
  define c1 where "c1 = (if queued_bytes frame \<ge> LARGE_EXPERIMENTAL_FRAME_BYTES then drop_older (df_frame_id frame) c else c)"
  have c1: "queue_ok c1" "same_desktop c c1"
      "co_deferred_experimental_frames c1 = kept_before frame (co_deferred_experimental_frames c)"
    using assms drop_older_ok [OF assms] by (auto simp: c1_def kept_before_def)
  define c2 where "c2 = c1\<lparr>co_deferred_experimental_bytes :=
      usize_saturating_add (co_deferred_experimental_bytes c1) (queued_bytes frame),
      co_deferred_experimental_frames := co_deferred_experimental_frames c1 @ [frame]\<rparr>"
  define slack where "slack = total_queued (co_deferred_experimental_frames c1) + queued_bytes frame - usize_max"
  have limit: "2 * MAX_DEFERRED_EXPERIMENTAL_BYTES < usize_max - MAX_DEFERRED_EXPERIMENTAL_BYTES"
    by (simp add: MAX_DEFERRED_EXPERIMENTAL_BYTES_def usize_max_def)
  have "counted slack c2"
    using c1(1) queued_bytes_max [of frame] limit
    by (auto simp: counted_def c2_def slack_def queue_ok_def queue_fits_def usize_saturating_add_def)
  then have "queue_ok (drop_excess c2) \<and> same_desktop c2 (drop_excess c2)
      \<and> co_deferred_experimental_frames (drop_excess c2) = newest_fitting (co_deferred_experimental_frames c2)"
    by (rule drop_excess_ok) (simp add: c2_def)
  moreover have "queue_deferred_experimental_frame frame c = drop_excess c2"
    by (simp add: queue_deferred_experimental_frame_def c1_def c2_def Let_def)
  moreover have "same_desktop c1 c2" by (simp add: c2_def same_desktop_def)
  moreover have "co_deferred_experimental_frames c2 = kept_before frame (co_deferred_experimental_frames c) @ [frame]"
    by (simp add: c2_def c1)
  ultimately show ?thesis using same_desktop_trans [OF c1(2)] same_desktop_trans by metis
qed

text \<open>C23. Queueing a frame. A frame of less than 1 MiB is put behind all the waiting frames. A frame of 1 MiB or more
  first drops the run of frames at the front that are older than it, whether or not they would fit, and is put
  behind the rest. Of the frames and the new one exactly the longest run of newest ones that the two limits allow
  (64 frames, 192 MiB) is kept, in arrival order. The new frame itself is kept unless it alone is over the
  byte limit, the byte counter stays the exact sum, and the desktop is untouched.\<close>

theorem queue_keeps_newest:
  assumes "queue_ok c"
  shows "let c' = queue_deferred_experimental_frame frame c; kept = co_deferred_experimental_frames c' in
    queue_ok c' \<and> same_desktop c c'
    \<and> (\<exists>older waiting. co_deferred_experimental_frames c = older @ waiting
        \<and> (if queued_bytes frame < 1024 * 1024 then older = []
           else (\<forall>f\<in>set older. df_frame_id f < df_frame_id frame)
             \<and> (\<forall>f fs. waiting = f # fs \<longrightarrow> df_frame_id frame \<le> df_frame_id f))
        \<and> (\<exists>dropped. waiting @ [frame] = dropped @ kept)
        \<and> (\<forall>dropped run. waiting @ [frame] = dropped @ run \<and> queue_fits run \<longrightarrow> length run \<le> length kept))
    \<and> (queued_bytes frame \<le> MAX_DEFERRED_EXPERIMENTAL_BYTES \<longrightarrow> (\<exists>before. kept = before @ [frame]))"
proof -
  let ?frames = "co_deferred_experimental_frames c"
  obtain older where older: "?frames = older @ kept_before frame ?frames"
      "if queued_bytes frame < 1024 * 1024 then older = []
       else (\<forall>f\<in>set older. df_frame_id f < df_frame_id frame)
         \<and> (\<forall>f fs. kept_before frame ?frames = f # fs \<longrightarrow> df_frame_id frame \<le> df_frame_id f)"
    using kept_before_split [of ?frames frame] by blast
  have kept: "co_deferred_experimental_frames (queue_deferred_experimental_frame frame c)
      = newest_fitting (kept_before frame ?frames @ [frame])"
    using queue_deferred_ok [OF assms, of frame] by blast
  have run: "\<exists>dropped. kept_before frame ?frames @ [frame] = dropped @ newest_fitting (kept_before frame ?frames @ [frame])"
      "\<forall>dropped run. kept_before frame ?frames @ [frame] = dropped @ run \<and> queue_fits run
        \<longrightarrow> length run \<le> length (newest_fitting (kept_before frame ?frames @ [frame]))"
    using newest_fitting_suffix newest_fitting_longest by blast+
  show ?thesis
    unfolding Let_def kept
    using queue_deferred_ok [OF assms, of frame] newest_fitting_keeps_last [of frame]
    by (intro conjI exI [of _ older, OF exI [of _ "kept_before frame ?frames"]] older run impI) blast+
qed

definition witness_frame :: "u64 \<Rightarrow> DeferredExperimentalFrame" where
  "witness_frame n = \<lparr>df_frame_id = n, df_desktop_width = 1, df_desktop_height = 1,
     df_atlas = \<lparr>pe_atlas_width = 1, pe_atlas_height = 1, pe_rects = [], pe_tile_commands = [0, 0], pe_record_bytes = 44\<rparr>,
     df_moves = [], df_present_after_composite = True\<rparr>"

lemma witness_frame_bytes [simp]: "queued_bytes (witness_frame n) = 46"
  by (simp add: queued_bytes_def witness_frame_def usize_saturating_add_def usize_saturating_mul_def usize_max_def)

lemma witness_queue_ok: "queue_ok (compositor_new :: unit compositor)"
  by (simp add: queue_ok_def compositor_new_def)

lemma queue_keeps_newest_witness:
  "\<exists>older. co_deferred_experimental_frames
     (queue_deferred_experimental_frame (witness_frame 3) (compositor_new :: unit compositor)) = older @ [witness_frame 3]"
  using queue_keeps_newest [OF witness_queue_ok, of "witness_frame 3"]
  by (simp add: Let_def MAX_DEFERRED_EXPERIMENTAL_BYTES_def)

section \<open>Flushing\<close>

text \<open>What the viewport answers to a frame: it takes it (or has to skip it, because the picture it is a delta to is
  missing), is not ready for it, or fails.\<close>

definition shown :: "('dec, 'vp) display_env \<Rightarrow> 'vp viewport \<Rightarrow> DeferredExperimentalFrame \<Rightarrow> 'vp viewport" where
  "shown env vp frame = fst (present_gpu env vp frame)"

definition takes :: "('dec, 'vp) display_env \<Rightarrow> 'vp viewport \<Rightarrow> DeferredExperimentalFrame \<Rightarrow> bool" where
  "takes env vp frame \<longleftrightarrow> viewport_lock env vp = Inr ()
     \<and> ((\<exists>n. snd (present_gpu env vp frame) = Inr (Presented n))
        \<or> (\<exists>e. snd (present_gpu env vp frame) = Inl e \<and> is_missing_experimental_previous_error e))"

definition not_ready :: "('dec, 'vp) display_env \<Rightarrow> 'vp viewport \<Rightarrow> DeferredExperimentalFrame \<Rightarrow> bool" where
  "not_ready env vp frame \<longleftrightarrow> viewport_lock env vp = Inr () \<and> (\<exists>reason. snd (present_gpu env vp frame) = Inr (Deferred reason))"

definition breaks :: "('dec, 'vp) display_env \<Rightarrow> 'vp viewport \<Rightarrow> DeferredExperimentalFrame \<Rightarrow> string \<Rightarrow> bool" where
  "breaks env vp frame e \<longleftrightarrow> viewport_lock env vp = Inr () \<and> snd (present_gpu env vp frame) = Inl e
     \<and> \<not> is_missing_experimental_previous_error e"

fun takes_all :: "('dec, 'vp) display_env \<Rightarrow> 'vp viewport \<Rightarrow> DeferredExperimentalFrame list \<Rightarrow> bool" where
  "takes_all env vp [] \<longleftrightarrow> True"
| "takes_all env vp (f # fs) \<longleftrightarrow> takes env vp f \<and> takes_all env (shown env vp f) fs"

lemma present_deferred_cases:
  obtains (locked) e where "viewport_lock env vp = Inl e"
      "present_deferred_experimental_frame env frame (c, vp) = ((c, vp), Inl (Err e))"
  | (presented) c' where "takes env vp frame"
      "present_deferred_experimental_frame env frame (c, vp) = ((c', shown env vp frame), Inr None)"
      "\<exists>s. c' = c\<lparr>co_experimental_summary := s\<rparr>"
  | (deferred) reason where "not_ready env vp frame"
      "present_deferred_experimental_frame env frame (c, vp) = ((c, shown env vp frame), Inr (Some reason))"
  | (failed) e where "breaks env vp frame e"
      "present_deferred_experimental_frame env frame (c, vp) = ((c, shown env vp frame), Inl (Err e))"
proof (cases "viewport_lock env vp")
  case (Inl e)
  then show ?thesis using locked by (simp add: present_deferred_experimental_frame_def)
next
  case (Inr u)
  obtain vp' r where gpu: "present_gpu env vp frame = (vp', r)" by (cases "present_gpu env vp frame")
  then have vp': "vp' = shown env vp frame" by (simp add: shown_def)
  note open_gpu = present_deferred_experimental_frame_def Inr gpu vp' [symmetric]
  show ?thesis
  proof (cases r)
    case (Inl e)
    show ?thesis
    proof (cases "is_missing_experimental_previous_error e")
      case True
      then show ?thesis by (intro presented) (simp_all add: takes_def open_gpu Inl, blast)
    next
      case False
      then show ?thesis by (intro failed [of e]) (simp_all add: breaks_def open_gpu Inl)
    qed
  next
    case result: (Inr p)
    show ?thesis
    proof (cases p)
      case (Presented n)
      then show ?thesis by (intro presented) (simp_all add: takes_def open_gpu result, blast)
    next
      case (Deferred reason)
      then show ?thesis by (intro deferred [of reason]) (simp_all add: not_ready_def open_gpu result)
    qed
  qed
qed

lemma pop_front_fields [simp]:
  "co_deferred_experimental_frames (pop_front c) = tl (co_deferred_experimental_frames c)"
  "co_deferred_experimental_bytes (pop_front c)
     = co_deferred_experimental_bytes c - queued_bytes (hd (co_deferred_experimental_frames c))"
  "same_desktop c (pop_front c)" "same_desktop (pop_front c) d \<longleftrightarrow> same_desktop c d"
  by (simp_all add: pop_front_def same_desktop_def)

lemma pop_front_queue_ok: "queue_ok c \<Longrightarrow> queue_ok (pop_front c)"
  by (cases "co_deferred_experimental_frames c") (auto simp: queue_ok_def queue_fits_def)

text \<open>The outcome of a flush. The viewport took the frames \<open>done\<close> from the front, each in the state the ones before left.
  Then the queue was empty; or the viewport was not ready for the next frame, which stays at the front; or the viewport could
  not be locked or failed for the next frame, which is lost, with the frames behind it kept.\<close>

fun flush_result ::
    "('dec, 'vp) display_env \<Rightarrow> 'vp viewport \<Rightarrow> DeferredExperimentalFrame list \<Rightarrow> DeferredExperimentalFrame list
      \<Rightarrow> 'vp viewport \<Rightarrow> string fault + unit \<Rightarrow> bool" where
  "flush_result env vp [] queue' vp' r \<longleftrightarrow> queue' = [] \<and> vp' = vp \<and> r = Inr ()"
| "flush_result env vp (f # fs) queue' vp' r \<longleftrightarrow>
     not_ready env vp f \<and> queue' = f # fs \<and> vp' = shown env vp f \<and> r = Inr ()
     \<or> queue' = fs \<and> vp' = vp \<and> (\<exists>e. viewport_lock env vp = Inl e \<and> r = Inl (Err e))
     \<or> queue' = fs \<and> vp' = shown env vp f \<and> (\<exists>e. breaks env vp f e \<and> r = Inl (Err e))"

definition flushed ::
    "('dec, 'vp) display_env \<Rightarrow> ('dec, 'vp) viewer \<Rightarrow> (('dec, 'vp) viewer, unit) outcome \<Rightarrow> bool" where
  "flushed env v out \<longleftrightarrow>
     queue_ok (fst (fst out)) \<and> same_desktop (fst v) (fst (fst out))
     \<and> (\<exists>done rest. co_deferred_experimental_frames (fst v) = done @ rest \<and> takes_all env (snd v) done
         \<and> flush_result env (foldl (shown env) (snd v) done) rest
             (co_deferred_experimental_frames (fst (fst out))) (snd (fst out)) (snd out))"

lemma flush_result_no_panic: "flush_result env vp fs queue' vp' r \<Longrightarrow> r \<noteq> Inl Panic"
  by (cases fs) auto

lemma flushedI:
  assumes "queue_ok c'" "same_desktop c c'"
    and "flush_result env vp (co_deferred_experimental_frames c) (co_deferred_experimental_frames c') vp' r"
  shows "flushed env (c, vp) ((c', vp'), r)"
  using assms unfolding flushed_def fst_conv snd_conv by (intro conjI exI [of _ "[]"] exI [of _ "co_deferred_experimental_frames c"]) simp_all

lemma flushed_step:
  assumes queue: "co_deferred_experimental_frames c = f # fs"
    and next_queue: "co_deferred_experimental_frames c1 = fs" and same: "same_desktop c c1"
    and takes: "takes env vp f" and ih: "flushed env (c1, shown env vp f) out"
  shows "flushed env (c, vp) out"
proof -
  obtain ds rest where "fs = ds @ rest" "takes_all env (shown env vp f) ds"
      "flush_result env (foldl (shown env) (shown env vp f) ds) rest
         (co_deferred_experimental_frames (fst (fst out))) (snd (fst out)) (snd out)"
    using ih next_queue unfolding flushed_def by auto
  moreover have "queue_ok (fst (fst out))" "same_desktop c (fst (fst out))"
    using ih same_desktop_trans [OF same] by (auto simp: flushed_def)
  ultimately show ?thesis
    using takes unfolding flushed_def fst_conv snd_conv queue by (intro conjI exI [of _ "f # ds"] exI [of _ rest]) simp_all
qed

lemma queue_ok_put_back:
  assumes "queue_ok c" "co_deferred_experimental_frames c = f # fs"
  shows "usize_saturating_add (co_deferred_experimental_bytes (pop_front c)) (queued_bytes f) = total_queued (f # fs)"
  using assms
  by (auto simp: queue_ok_def queue_fits_def usize_saturating_add_def usize_max_def MAX_DEFERRED_EXPERIMENTAL_BYTES_def)

lemma flush_loop_flushed:
  "queue_ok c \<Longrightarrow> length (co_deferred_experimental_frames c) < n \<Longrightarrow> flushed env (c, vp) (flush_loop env n (c, vp))"
proof (induction n arbitrary: c vp)
  case (Suc n)
  show ?case
  proof (cases "co_deferred_experimental_frames c")
    case Nil
    then show ?thesis using Suc.prems(1) by (auto intro!: flushedI)
  next
    case (Cons f fs)
    have popped: "queue_ok (pop_front c)" "co_deferred_experimental_frames (pop_front c) = fs"
      using pop_front_queue_ok [OF Suc.prems(1)] Cons by simp_all
    show ?thesis
    proof (cases rule: present_deferred_cases [of env vp f "pop_front c"])
      case (locked e)
      have "flushed env (c, vp) ((pop_front c, vp), Inl (Err e))"
        by (rule flushedI) (simp_all add: Cons popped locked(1))
      then show ?thesis using locked Cons by simp
    next
      case (failed e)
      have "flushed env (c, vp) ((pop_front c, shown env vp f), Inl (Err e))"
        by (rule flushedI) (simp_all add: Cons popped failed(1))
      then show ?thesis using failed Cons by simp
    next
      case (deferred reason)
      let ?c = "(pop_front c)\<lparr>co_deferred_experimental_bytes := total_queued (f # fs),
          co_deferred_experimental_frames := f # fs\<rparr>"
      let ?c' = "?c\<lparr>co_experimental_summary := add_deferred (Suc (length fs)) (total_queued (f # fs)) (co_experimental_summary ?c)\<rparr>"
      have "queue_ok ?c'" using Suc.prems(1) Cons by (simp add: queue_ok_def)
      then have "flushed env (c, vp) ((?c', shown env vp f), Inr ())"
        by (rule flushedI) (simp_all add: Cons same_desktop_def pop_front_def deferred(1))
      then show ?thesis using deferred Cons queue_ok_put_back [OF Suc.prems(1) Cons] by (simp add: Let_def)
    next
      case (presented c')
      then have c': "queue_ok c'" "co_deferred_experimental_frames c' = fs" "same_desktop c c'"
        using popped by (auto simp: queue_ok_def same_desktop_def pop_front_def)
      then have "flushed env (c', shown env vp f) (flush_loop env n (c', shown env vp f))"
        using Suc.IH Suc.prems(2) Cons by simp
      then show ?thesis
        using flushed_step [OF Cons c'(2,3) presented(1)] presented(2) Cons by simp
    qed
  qed
qed simp

lemma flush_loop_enough:
  "length (co_deferred_experimental_frames c) < n \<Longrightarrow> length (co_deferred_experimental_frames c) < m \<Longrightarrow>
     flush_loop env n (c, vp) = flush_loop env m (c, vp)"
proof (induction n arbitrary: m c vp)
  case (Suc n)
  then obtain m' where m: "m = Suc m'" by (cases m) auto
  show ?case
  proof (cases "co_deferred_experimental_frames c")
    case Nil
    then show ?thesis by (simp add: m)
  next
    case (Cons f fs)
    show ?thesis
    proof (cases rule: present_deferred_cases [of env vp f "pop_front c"])
      case (presented c')
      then have "co_deferred_experimental_frames c' = fs" using Cons by (auto simp: pop_front_def)
      then show ?thesis using Suc.IH [of c' m'] Suc.prems presented Cons by (simp add: m)
    qed (simp_all add: m Cons)
  qed
qed simp

text \<open>C26. Flushing always finishes: the number of rounds the model allows is never the reason to stop. The viewport
  takes frames from the front of the queue in order, none left out; a frame counts as taken when the viewport
  presented it or reported that the picture it is a delta to is missing. On success either every frame was taken and the
  queue is empty, or the viewport answered that it is not ready for the next frame, and this frame is again at the front with all frames
  behind it. An error is the one of the viewport's lock or of presenting the next frame; only this frame is lost.
  The byte counter stays exact and the desktop is untouched.\<close>

theorem flush_in_order:
  assumes "queue_ok c"
  shows "flushed env (c, vp) (flush_deferred_experimental_frames env (c, vp))
    \<and> (\<forall>n > length (co_deferred_experimental_frames c).
         flush_loop env n (c, vp) = flush_deferred_experimental_frames env (c, vp))"
  using flush_loop_flushed [OF assms] flush_loop_enough by (metis (no_types, lifting) flush_deferred_experimental_frames_def
      fst_conv less_add_one)

definition witness_env :: "(unit, DeferredExperimentalFrame list) display_env" where
  "witness_env = \<lparr>h264_new = \<lambda>_ _. Inr (), h264_decode = \<lambda>d _. (d, Inr None), viewport_lock = \<lambda>_. Inr (),
     present_cached = \<lambda>vp _ _. (vp, Inr ()),
     present_gpu = \<lambda>vp frame. (vp\<lparr>vp_inner := vp_inner vp @ [frame]\<rparr>,
       if length (vp_inner vp) < 2 then Inr (Presented 1) else Inr (Deferred ''busy''))\<rparr>"

definition witness_viewport :: "DeferredExperimentalFrame list viewport" where
  "witness_viewport = \<lparr>vp_cached_frame = None, vp_inner = []\<rparr>"

definition witness_queue :: "unit compositor" where
  "witness_queue = compositor_new\<lparr>co_deferred_experimental_frames := [witness_frame 1, witness_frame 2, witness_frame 3],
     co_deferred_experimental_bytes := 138\<rparr>"

lemma flush_in_order_witness:
  "flushed witness_env (witness_queue, witness_viewport)
     (flush_deferred_experimental_frames witness_env (witness_queue, witness_viewport))
   \<and> flush_loop witness_env 9 (witness_queue, witness_viewport)
     = flush_deferred_experimental_frames witness_env (witness_queue, witness_viewport)"
proof -
  have "queue_ok witness_queue"
    by (simp add: queue_ok_def queue_fits_def witness_queue_def MAX_DEFERRED_EXPERIMENTAL_FRAMES_def
        MAX_DEFERRED_EXPERIMENTAL_BYTES_def)
  from flush_in_order [OF this, of witness_env witness_viewport] show ?thesis by (simp add: witness_queue_def)
qed

end
