(* ===== verification/Compositor_Records.thy ===== *)
theory Compositor_Records
  imports Compositor_Pixels Compositor_Queue
begin

text \<open>
  The compositor on whole records. \<open>compositor_ok\<close> is its invariant: the pixel buffer has the size of the desktop,
  and the queue of deferred frames is counted and within its limits. Every record keeps it and none
  panics, provided that the decoder returns full pictures and that no rectangle wraps around; a move
  rectangle that does wrap is shown to panic.
\<close>

definition compositor_ok :: "'dec compositor \<Rightarrow> bool" where
  "compositor_ok c \<longleftrightarrow> desktop_ok c \<and> queue_ok c"

text \<open>The rectangles of a record that the compositor adds without a check.\<close>

fun record_no_wrap :: "DisplayRecord \<Rightarrow> bool" where
  "record_no_wrap (MoveRect frame_id from_x from_y to_x to_y width height) \<longleftrightarrow>
     no_wrap from_x from_y width height \<and> no_wrap to_x to_y width height"
| "record_no_wrap (AtlasH264 frame_id flags atlas_width atlas_height rects payload) \<longleftrightarrow> list_all rect_dst_ok rects"
| "record_no_wrap _ \<longleftrightarrow> True"

text \<open>A decoder made for a size returns pictures of that size, from every state it reaches.\<close>

definition decoder_full :: "('dec, 'vp) display_env \<Rightarrow> ('dec \<Rightarrow> u32 \<times> u32) \<Rightarrow> bool" where
  "decoder_full env size_of \<longleftrightarrow>
     (\<forall>width height d. h264_new env width height = Inr d \<longrightarrow> size_of d = (width, height))
     \<and> (\<forall>d payload d' r. h264_decode env d payload = (d', r) \<longrightarrow> size_of d' = size_of d
          \<and> (\<forall>picture. r = Inr (Some picture) \<longrightarrow>
               atlas_ok (unat (fst (size_of d))) (unat (snd (size_of d))) picture))"

definition decoder_ok :: "('dec \<Rightarrow> u32 \<times> u32) \<Rightarrow> 'dec compositor \<Rightarrow> bool" where
  "decoder_ok size_of c \<longleftrightarrow>
     (\<forall>size d. co_decoder_size c = Some size \<longrightarrow> co_decoder c = Some d \<longrightarrow> size_of d = size)"

definition kept :: "('dec \<Rightarrow> u32 \<times> u32) \<Rightarrow> ('dec compositor, 'a) outcome \<Rightarrow> bool" where
  "kept size_of out \<longleftrightarrow> compositor_ok (fst out) \<and> decoder_ok size_of (fst out) \<and> snd out \<noteq> Inl Panic"

lemma kept_iff: "kept size_of (c, r) \<longleftrightarrow> compositor_ok c \<and> decoder_ok size_of c \<and> r \<noteq> Inl Panic"
  by (simp add: kept_def)

lemma kept_fails: "compositor_ok c \<Longrightarrow> decoder_ok size_of c \<Longrightarrow> kept size_of (fails c msg)"
  by (simp add: kept_iff fails_def)

lemma kept_sbind:
  assumes "kept size_of m" and "\<And>c a. m = (c, Inr a) \<Longrightarrow> kept size_of (f c a)"
  shows "kept size_of (sbind m f)"
proof (cases m)
  case (Pair c r)
  then show ?thesis using assms by (cases r) (auto simp: kept_iff)
qed

lemma compositor_ok_cong:
  "same_desktop c c' \<Longrightarrow> queue_ok c' \<Longrightarrow> compositor_ok c \<Longrightarrow> compositor_ok c'"
  by (simp add: compositor_ok_def desktop_ok_def same_desktop_def)

lemma decoder_ok_cong: "same_desktop c c' \<Longrightarrow> decoder_ok size_of c \<Longrightarrow> decoder_ok size_of c'"
  by (simp add: decoder_ok_def same_desktop_def)

text \<open>Updates of the fields that the invariant does not read.\<close>

lemma kept_updates [simp]:
  "compositor_ok (c\<lparr>co_current_frame_id := i\<rparr>) \<longleftrightarrow> compositor_ok c"
  "compositor_ok (c\<lparr>co_damage := d\<rparr>) \<longleftrightarrow> compositor_ok c"
  "compositor_ok (c\<lparr>co_experimental_frame := e\<rparr>) \<longleftrightarrow> compositor_ok c"
  "compositor_ok (c\<lparr>co_experimental_chunked_frame := e\<rparr>) \<longleftrightarrow> compositor_ok c"
  "compositor_ok (c\<lparr>co_experimental_atlas := a\<rparr>) \<longleftrightarrow> compositor_ok c"
  "compositor_ok (c\<lparr>co_experimental_moves := m\<rparr>) \<longleftrightarrow> compositor_ok c"
  "compositor_ok (c\<lparr>co_decoder := k\<rparr>) \<longleftrightarrow> compositor_ok c"
  "compositor_ok (c\<lparr>co_decoder_size := s\<rparr>) \<longleftrightarrow> compositor_ok c"
  "decoder_ok size_of (c\<lparr>co_width := w\<rparr>) \<longleftrightarrow> decoder_ok size_of c"
  "decoder_ok size_of (c\<lparr>co_height := h\<rparr>) \<longleftrightarrow> decoder_ok size_of c"
  "decoder_ok size_of (c\<lparr>co_bgra := b\<rparr>) \<longleftrightarrow> decoder_ok size_of c"
  "decoder_ok size_of (c\<lparr>co_current_frame_id := i\<rparr>) \<longleftrightarrow> decoder_ok size_of c"
  "decoder_ok size_of (c\<lparr>co_damage := d\<rparr>) \<longleftrightarrow> decoder_ok size_of c"
  "decoder_ok size_of (c\<lparr>co_experimental_frame := e\<rparr>) \<longleftrightarrow> decoder_ok size_of c"
  "decoder_ok size_of (c\<lparr>co_experimental_chunked_frame := e\<rparr>) \<longleftrightarrow> decoder_ok size_of c"
  "decoder_ok size_of (c\<lparr>co_experimental_atlas := a\<rparr>) \<longleftrightarrow> decoder_ok size_of c"
  "decoder_ok size_of (c\<lparr>co_experimental_moves := m\<rparr>) \<longleftrightarrow> decoder_ok size_of c"
  by (simp_all add: compositor_ok_def desktop_ok_def queue_ok_def decoder_ok_def)

lemma compositor_ok_bgra:
  "compositor_ok c \<Longrightarrow> atlas_ok (unat (co_width c)) (unat (co_height c)) b \<Longrightarrow> compositor_ok (c\<lparr>co_bgra := b\<rparr>)"
  by (simp add: compositor_ok_def desktop_ok_def queue_ok_def)

lemma compositor_ok_desktop: "compositor_ok c \<Longrightarrow> desktop_ok c"
  by (simp add: compositor_ok_def)

lemma ensure_frame_kept:
  "compositor_ok c \<Longrightarrow> decoder_ok size_of c \<Longrightarrow> kept size_of (ensure_frame frame_id c)"
  by (simp add: ensure_frame_def kept_fails kept_iff)

lemma ensure_frame_Inr: "ensure_frame frame_id c = (c', Inr u) \<Longrightarrow> c' = c"
  by (simp add: ensure_frame_def fails_def split: if_splits)

lemma ensure_frame_bind:
  assumes "compositor_ok c" "decoder_ok size_of c" and "kept size_of (f c ())"
  shows "kept size_of (sbind (ensure_frame frame_id c) f)"
  using kept_sbind [OF ensure_frame_kept [OF assms(1,2)]] assms(3) ensure_frame_Inr by (metis old.unit.exhaust)

lemma frame_length:
  assumes "Option.bind (checked_mul width height) (\<lambda>pixels. checked_mul pixels (4 :: u32)) = Some len"
  shows "unat len = unat width * unat height * 4 \<and> unat len < 2 ^ 32"
proof -
  have wh: "unat width * unat height < 2 ^ 32" "unat (width * height) * unat (4 :: u32) < 2 ^ 32" and len: "len = width * height * 4"
    using assms by (auto simp: bind_eq_Some_conv checked_mul_def split: if_splits)
  have "unat (width * height) = unat width * unat height" using wh(1) by (simp add: unat_mult_no_wrap)
  moreover have "unat len = unat (width * height) * unat (4 :: u32)"
    unfolding len by (rule unat_mult_no_wrap) (use wh(2) in simp)
  ultimately show ?thesis using wh(2) by simp
qed

lemma begin_frame_kept:
  assumes "compositor_ok c" "decoder_ok size_of c"
  shows "kept size_of (begin_frame frame_id width height c)"
proof (cases "width = 0 \<or> height = 0 \<or> Option.bind (checked_mul width height) (\<lambda>pixels. checked_mul pixels 4) = None")
  case True
  then show ?thesis using kept_fails [OF assms] by (auto simp: begin_frame_def)
next
  case False
  then obtain len where len: "Option.bind (checked_mul width height) (\<lambda>pixels. checked_mul pixels 4) = Some len" by blast
  define c1 where "c1 = (if co_width c \<noteq> width \<or> co_height c \<noteq> height \<or> length (co_bgra c) \<noteq> unat len
    then c\<lparr>co_width := width, co_height := height, co_bgra := replicate (unat len) 0\<rparr> else c)"
  have "compositor_ok c1" "decoder_ok size_of c1"
    using assms frame_length [OF len] by (auto simp: c1_def compositor_ok_def desktop_ok_def atlas_ok_def queue_ok_def)
  moreover have "begin_frame frame_id width height c = (c1\<lparr>co_current_frame_id := Some frame_id, co_damage := [],
      co_experimental_frame := False, co_experimental_chunked_frame := False, co_experimental_atlas := None,
      co_experimental_moves := []\<rparr>, Inr ())"
    using False len by (simp add: begin_frame_def c1_def)
  ultimately show ?thesis by (simp add: kept_iff)
qed

lemma handle_keyframe_kept:
  assumes "compositor_ok c" "decoder_ok size_of c"
  shows "kept size_of (handle_keyframe frame_id width height payload c)"
  unfolding handle_keyframe_def
proof (rule kept_sbind [OF begin_frame_kept [OF assms]])
  fix c' u assume "begin_frame frame_id width height c = (c', Inr u)"
  then have ok: "compositor_ok c'" "decoder_ok size_of c'"
    using begin_frame_kept [OF assms, of frame_id width height] by (auto simp: kept_iff)
  show "kept size_of (if length payload \<noteq> length (co_bgra c') then fails c' ''display keyframe payload length mismatch''
     else (c'\<lparr>co_bgra := payload, co_damage := co_damage c' @
               [\<lparr>fd_x = 0, fd_y = 0, fd_width = width, fd_height = height\<rparr>]\<rparr>, Inr ()))"
    using ok compositor_ok_bgra [OF ok(1), of payload] kept_fails [OF ok]
    by (auto simp: kept_iff compositor_ok_def desktop_ok_def atlas_ok_def queue_ok_def)
qed

lemma validate_display_rect_no_panic [simp]: "validate_display_rect x y width height c \<noteq> Inl Panic"
  by (simp add: validate_display_rect_def)

lemma validate_experimental_atlas_no_panic [simp]: "validate_experimental_atlas aw ah rects c \<noteq> Inl Panic"
proof -
  have "try_fold (\<lambda>_ rect.
        rbind (validate_display_rect (dst_x rect) (dst_y rect) (rect_width rect) (rect_height rect) c) (\<lambda>_.
        if atlas_rect_exceeds aw ah rect
        then Inl (Err ''experimental atlas rect exceeds atlas bounds'') else Inr ())) () rects \<noteq> Inl Panic"
    by (induction rects) (auto simp: validate_display_rect_def)
  then show ?thesis by (simp add: validate_experimental_atlas_def)
qed

lemma handle_move_rect_kept:
  assumes "compositor_ok c" "decoder_ok size_of c" and "no_wrap sx sy width height" "no_wrap dx dy width height"
  shows "kept size_of (handle_move_rect frame_id sx sy dx dy width height c)"
  unfolding handle_move_rect_def
proof (rule ensure_frame_bind [OF assms(1,2)], goal_cases)
  case 1
  have "kept size_of (apply_move_rect sx sy dx dy width height c)"
    using apply_move_rect_ok [OF compositor_ok_desktop [OF assms(1)] assms(3,4)] assms(1,2)
    by (auto simp: kept_iff compositor_ok_bgra split: if_splits)
  moreover have "kept size_of
     (sbind (c, validate_display_rect sx sy width height c) (\<lambda>c _.
      sbind (c, validate_display_rect dx dy width height c) (\<lambda>c _.
      (c\<lparr>co_experimental_moves := co_experimental_moves c @ [\<lparr>em_src_x = sx, em_src_y = sy,
            em_dst_x = dx, em_dst_y = dy, em_width = width, em_height = height\<rparr>]\<rparr>, Inr ()))))"
    using assms(1,2) by (intro kept_sbind) (auto simp: kept_iff)
  ultimately show ?case by simp
qed

lemma ensure_decoder_kept:
  assumes "compositor_ok c" "decoder_ok size_of c" "decoder_full env size_of"
  shows "kept size_of (ensure_decoder env aw ah c)"
    and "ensure_decoder env aw ah c = (c', Inr u) \<Longrightarrow> co_decoder_size c' = Some (aw, ah)"
proof -
  have "kept size_of (ensure_decoder env aw ah c) \<and>
      (ensure_decoder env aw ah c = (c', Inr u) \<longrightarrow> co_decoder_size c' = Some (aw, ah))"
  proof (cases "co_decoder_size c = Some (aw, ah)")
    case True
    then show ?thesis using assms(1,2) by (auto simp: ensure_decoder_def kept_iff)
  next
    case False
    then show ?thesis
      using assms by (cases "h264_new env aw ah")
        (auto simp: ensure_decoder_def kept_iff decoder_ok_def decoder_full_def)
  qed
  then show "kept size_of (ensure_decoder env aw ah c)"
    and "ensure_decoder env aw ah c = (c', Inr u) \<Longrightarrow> co_decoder_size c' = Some (aw, ah)" by blast+
qed

lemma lift_err_no_panic [simp]: "lift_err r \<noteq> Inl Panic"
  by (cases r) simp_all

lemma lift_err_Inr [simp]: "lift_err r = Inr a \<longleftrightarrow> r = Inr a"
  by (cases r) simp_all

lemma apply_h264_atlas_kept:
  assumes "compositor_ok c" "decoder_ok size_of c" "decoder_full env size_of"
    and rects: "list_all (rect_in_atlas aw ah) rects" "list_all rect_dst_ok rects"
  shows "kept size_of (apply_h264_atlas env aw ah rects payload c)"
  unfolding apply_h264_atlas_def
proof (rule kept_sbind [OF ensure_decoder_kept(1) [OF assms(1-3)]], goal_cases)
  case (1 c1 u)
  have ok: "compositor_ok c1" "decoder_ok size_of c1" and size: "co_decoder_size c1 = Some (aw, ah)"
    using ensure_decoder_kept [OF assms(1-3), where aw = aw and ah = ah] 1 by (auto simp: kept_iff)
  show ?case
  proof (cases "co_decoder c1")
    case None
    then show ?thesis using kept_fails [OF ok] by simp
  next
    case (Some d)
    obtain d' r where dec: "h264_decode env d payload = (d', r)" by (cases "h264_decode env d payload")
    have d: "size_of d = (aw, ah)" using ok(2) size Some by (simp add: decoder_ok_def)
    then have d': "size_of d' = (aw, ah)" using assms(3) dec unfolding decoder_full_def by metis
    let ?c = "c1\<lparr>co_decoder := Some d'\<rparr>"
    have ok': "compositor_ok ?c" "decoder_ok size_of ?c" using ok size d' by (simp_all add: decoder_ok_def)
    have "kept size_of (sbind (?c, lift_err r) (\<lambda>c decoded. case decoded of
              None \<Rightarrow> (c, Inr ())
            | Some atlas_bgra \<Rightarrow> apply_atlas_rects aw ah atlas_bgra rects c))"
    proof (rule kept_sbind, goal_cases)
      case 1
      show ?case using ok' by (simp add: kept_iff)
    next
      case (2 c2 decoded)
      then have c2: "c2 = ?c" and r: "r = Inr decoded" by simp_all
      show ?case
      proof (cases decoded)
        case None
        then show ?thesis using ok' c2 by (simp add: kept_iff)
      next
        case (Some picture)
        have "atlas_ok (unat aw) (unat ah) picture"
          using assms(3) dec d r Some unfolding decoder_full_def by fastforce
        then obtain b dm result where "apply_atlas_rects aw ah picture rects c2 = (c2\<lparr>co_bgra := b, co_damage := dm\<rparr>, result)"
            "result \<noteq> Inl Panic" "atlas_ok (unat (co_width c2)) (unat (co_height c2)) b"
          using apply_atlas_rects_ok [of c2 aw ah picture rects] compositor_ok_desktop [OF ok'(1)] rects c2
          by (auto simp: list_all_iff)
        then show ?thesis using Some ok' c2 compositor_ok_bgra [OF ok'(1), of b] by (simp add: kept_iff)
      qed
    qed
    then show ?thesis using Some dec by simp
  qed
qed

lemma handle_atlas_commands_kept:
  assumes "compositor_ok c" "decoder_ok size_of c"
  shows "kept size_of (handle_atlas_commands frame_id aw ah rects tile_commands len c)"
  unfolding handle_atlas_commands_def Let_def
  by (rule ensure_frame_bind [OF assms], rule kept_sbind) (use assms in \<open>auto simp: kept_iff\<close>)

text \<open>The same for the operations that also move the viewport.\<close>

definition kept_view :: "('dec \<Rightarrow> u32 \<times> u32) \<Rightarrow> (('dec, 'vp) viewer, 'a) outcome \<Rightarrow> bool" where
  "kept_view size_of out \<longleftrightarrow> kept size_of (fst (fst out), snd out)"

lemma kept_view_iff: "kept_view size_of ((c, vp), r) \<longleftrightarrow> compositor_ok c \<and> decoder_ok size_of c \<and> r \<noteq> Inl Panic"
  by (simp add: kept_view_def kept_iff)

lemma kept_view_fails: "compositor_ok c \<Longrightarrow> decoder_ok size_of c \<Longrightarrow> kept_view size_of (fails (c, vp) msg)"
  by (simp add: kept_view_iff fails_def)

lemma kept_view_sbind:
  assumes "kept_view size_of m"
    and "\<And>c vp a. m = ((c, vp), Inr a) \<Longrightarrow> compositor_ok c \<Longrightarrow> decoder_ok size_of c \<Longrightarrow> kept_view size_of (f (c, vp) a)"
  shows "kept_view size_of (sbind m f)"
proof -
  obtain c vp r where "m = ((c, vp), r)" by (metis prod.exhaust)
  then show ?thesis using assms by (cases r) (auto simp: kept_view_iff)
qed

lemma on_compositor_kept: "kept size_of r \<Longrightarrow> kept_view size_of (on_compositor vp r)"
  by (cases r) (simp add: on_compositor_def kept_view_def)

lemma flush_kept:
  assumes "compositor_ok c" "decoder_ok size_of c"
  shows "kept_view size_of (flush_deferred_experimental_frames env (c, vp))"
proof -
  have "queue_ok c" using assms(1) by (simp add: compositor_ok_def)
  then have "flushed env (c, vp) (flush_deferred_experimental_frames env (c, vp))"
    unfolding flush_deferred_experimental_frames_def fst_conv by (rule flush_loop_flushed) simp
  then have "queue_ok (fst (fst (flush_deferred_experimental_frames env (c, vp))))"
      "same_desktop c (fst (fst (flush_deferred_experimental_frames env (c, vp))))"
      "snd (flush_deferred_experimental_frames env (c, vp)) \<noteq> Inl Panic"
    by (auto simp: flushed_def dest: flush_result_no_panic)
  then show ?thesis
    using compositor_ok_cong decoder_ok_cong assms unfolding kept_view_def kept_iff by blast
qed

lemma queue_flush_kept:
  assumes "compositor_ok c" "decoder_ok size_of c"
  shows "kept_view size_of (flush_deferred_experimental_frames env (queue_deferred_experimental_frame frame c, vp))"
proof (rule flush_kept)
  have "queue_ok c" using assms(1) by (simp add: compositor_ok_def)
  then show "compositor_ok (queue_deferred_experimental_frame frame c)"
      "decoder_ok size_of (queue_deferred_experimental_frame frame c)"
    using queue_deferred_ok compositor_ok_cong decoder_ok_cong assms by blast+
qed

lemma handle_atlas_chunk_kept:
  assumes "compositor_ok c" "decoder_ok size_of c"
  shows "kept_view size_of (handle_atlas_chunk env frame_id flags aw ah rects tile_commands len (c, vp))"
  unfolding handle_atlas_chunk_def prod.case
  by (rule kept_view_sbind [OF on_compositor_kept [OF ensure_frame_kept [OF assms]]], unfold prod.case Let_def,
      rule kept_view_sbind, simp add: kept_view_iff, unfold prod.case, rule queue_flush_kept) auto

lemma end_experimental_frame_kept:
  assumes "compositor_ok c" "decoder_ok size_of c"
  shows "kept_view size_of (end_experimental_frame env frame_id (c, vp))"
  using assms kept_view_fails [OF assms] flush_kept [OF assms]
  by (auto simp: end_experimental_frame_def Let_def split: option.splits intro!: queue_flush_kept)

lemma end_frame_kept:
  assumes "compositor_ok c" "decoder_ok size_of c"
  shows "kept_view size_of (end_frame env frame_id (c, vp))"
proof -
  have "kept_view size_of (sbind (end_experimental_frame env frame_id (c, vp)) (\<lambda>(c, vp) _. ((clear_frame c, vp), Inr ())))"
    by (rule kept_view_sbind [OF end_experimental_frame_kept [OF assms]]) (simp add: kept_view_iff clear_frame_def)
  moreover have "kept_view size_of ((c, vp), snd (ensure_frame frame_id c))"
    using ensure_frame_kept [OF assms, of frame_id] assms by (auto simp: kept_view_iff kept_def)
  ultimately show ?thesis
    unfolding end_frame_def prod.case Let_def
    by (intro kept_view_sbind) (use assms in \<open>auto simp: kept_view_iff split: prod.splits intro!: kept_view_sbind\<close>)
qed

lemma apply_record_kept:
  assumes "compositor_ok c" "decoder_ok size_of c" "decoder_full env size_of" "valid_record r" "record_no_wrap r"
  shows "kept_view size_of (apply_record env r len (c, vp))"
proof (cases r)
  case (AtlasH264 fid fl aw ah rects payload)
  then have "kept size_of (sbind (ensure_frame fid c) (\<lambda>c _. apply_h264_atlas env aw ah rects payload c))"
    using assms by (intro ensure_frame_bind apply_h264_atlas_kept) simp_all
  then show ?thesis using AtlasH264 on_compositor_kept by simp
qed (use assms in \<open>simp_all add: on_compositor_kept begin_frame_kept end_frame_kept handle_keyframe_kept
      handle_move_rect_kept handle_atlas_commands_kept handle_atlas_chunk_kept\<close>)

text \<open>C7. Every record, well formed or not, keeps the compositor's invariant and never panics: the pixel buffer has
  exactly the size of the desktop, at most 64 frames and 192 MiB wait in the queue and its byte counter is exact. This
  holds for any decoder that returns pictures of the size it was made for, and any record whose unchecked
  rectangles do not wrap around.\<close>

theorem handle_record_keeps:
  assumes "compositor_ok c" and "decoder_ok size_of c" and "decoder_full env size_of"
    and "\<And>r. decode_display_record bytes = Inr r \<Longrightarrow> record_no_wrap r"
  shows "case handle_record env bytes (c, vp) of ((c', vp'), result) \<Rightarrow>
    compositor_ok c' \<and> decoder_ok size_of c' \<and> result \<noteq> Inl Panic"
proof -
  have "kept_view size_of (handle_record env bytes (c, vp))"
  proof (cases "decode_display_record bytes")
    case (Inl f)
    then show ?thesis
      using display_record_no_panic [of bytes] assms(1,2) by (cases f) (simp_all add: handle_record_def kept_view_iff)
  next
    case (Inr r)
    then show ?thesis
      using apply_record_kept [OF assms(1-3)] encode_decode [OF Inr] assms(4) by (simp add: handle_record_def)
  qed
  then show ?thesis by (auto simp: kept_view_iff split: prod.splits)
qed

definition witness_decoder_env :: "(u32 \<times> u32, unit) display_env" where
  "witness_decoder_env = \<lparr>h264_new = \<lambda>width height. Inr (width, height),
     h264_decode = \<lambda>d _. (d, Inr (if unat (fst d) * unat (snd d) * 4 < 2 ^ 32
        then Some (replicate (unat (fst d) * unat (snd d) * 4) 0) else None)),
     viewport_lock = \<lambda>_. Inr (), present_cached = \<lambda>vp _ _. (vp, Inr ()),
     present_gpu = \<lambda>vp _. (vp, Inr (Presented 1))\<rparr>"

definition witness_record :: DisplayRecord where
  "witness_record = AtlasH264 7 0 1 1
     [\<lparr>dst_x = 2, dst_y = 0, rect_width = 1, rect_height = 1, atlas_x = 0, atlas_y = 0\<rparr>] [0]"

lemma witness_decoder_full: "decoder_full witness_decoder_env id"
  by (auto simp: decoder_full_def witness_decoder_env_def atlas_ok_def split: if_splits)

lemma witness_record_decoded: "decode_display_record (encode witness_record) = Inr witness_record"
  by (rule decode_encode)
    (simp add: witness_record_def rect_in_atlas_def checked_add_def)

definition witness_screen :: "(u32 \<times> u32) compositor" where
  "witness_screen = compositor_new\<lparr>co_width := 3, co_height := 1, co_current_frame_id := Some 7,
     co_bgra := replicate 12 1\<rparr>"

lemma witness_screen_ok: "compositor_ok witness_screen" "decoder_ok id witness_screen"
  by (simp_all add: compositor_ok_def desktop_ok_def atlas_ok_def queue_ok_def decoder_ok_def witness_screen_def
      compositor_new_def)

lemma handle_record_keeps_witness:
  "case handle_record witness_decoder_env (encode witness_record)
      (witness_screen, \<lparr>vp_cached_frame = None, vp_inner = ()\<rparr>) of
    ((c', vp'), result) \<Rightarrow> compositor_ok c' \<and> decoder_ok id c' \<and> result \<noteq> Inl Panic"
proof (rule handle_record_keeps)
  fix r assume "decode_display_record (encode witness_record) = Inr r"
  then have "r = witness_record" by (simp add: witness_record_decoded)
  then show "record_no_wrap r" by (simp add: witness_record_def rect_dst_ok_def no_wrap_def)
qed (simp_all add: witness_screen_ok witness_decoder_full)

section \<open>Rectangles that wrap around\<close>

lemma wrapped_rect_accepted:
  assumes "0 < co_height c"
  shows "validate_display_rect 4294967295 0 1 1 c = Inr ()"
  using assms by (simp add: validate_display_rect_def word_gt_0 word_less_nat_alt not_less)

text \<open>C33. A move rectangle whose left edge is the largest 32-bit value and whose width is 1 passes the bounds check,
  because the unchecked addition wraps to 0; the row copy then slices far outside the pixel buffer. So one
  well-formed record panics a viewer that shows any desktop of less than 4 GiB.\<close>

theorem move_rect_wrap_panics:
  assumes "co_current_frame_id c = Some frame_id" and "\<not> co_experimental_frame c"
    and "0 < co_height c" and "length (co_bgra c) < 2 ^ 32"
  shows "handle_record env (encode (MoveRect frame_id 4294967295 0 4294967295 0 1 1)) (c, vp) = ((c, vp), Inl Panic)"
proof -
  have "pixel_offset (co_width c) 4294967295 0 = 17179869180"
    by (simp add: pixel_offset_def usz_def)
  then have "read_row (co_bgra c) (pixel_offset (co_width c) 4294967295 0) 4 = Inl Panic"
    using assms(4) by (simp add: read_row_def get_range_def)
  then have "move_pixels (co_width c) 4294967295 0 4294967295 0 1 1 (co_bgra c) = Inl Panic"
    by (simp add: move_pixels_def Let_def)
  then have "handle_move_rect frame_id 4294967295 0 4294967295 0 1 1 c = (c, Inl Panic)"
    using assms(1,2) wrapped_rect_accepted [OF assms(3)]
    by (simp add: handle_move_rect_def ensure_frame_def apply_move_rect_def)
  moreover have "decode_display_record (encode (MoveRect frame_id 4294967295 0 4294967295 0 1 1))
      = Inr (MoveRect frame_id 4294967295 0 4294967295 0 1 1)" by (rule decode_encode) simp
  ultimately show ?thesis by (simp add: handle_record_def on_compositor_def del: encode.simps)
qed

lemma move_rect_wrap_panics_witness:
  "handle_record witness_decoder_env (encode (MoveRect 7 4294967295 0 4294967295 0 1 1))
     (witness_screen, \<lparr>vp_cached_frame = None, vp_inner = ()\<rparr>)
   = ((witness_screen, \<lparr>vp_cached_frame = None, vp_inner = ()\<rparr>), Inl Panic)"
  by (rule move_rect_wrap_panics) (simp_all add: witness_screen_def compositor_new_def)

end
