(* ===== verification/Update_Common.thy ===== *)
theory Update_Common
  imports Rust_Strings
begin

text \<open>
  The update library (\<open>talos_update_common/src/lib.rs\<close>): the manifest an update is expected to have, the checks
  on a manifest and on a package, fetching a manifest and downloading a package. Version numbers, Base64, RSA, SHA-256,
  JSON and URL parsing are third-party code and fields of \<open>update_env\<close>. The network is a list of answers and
  the disk a map from paths to contents; every disk operation first takes the next entry of a list of
  faults, so that each error path of the code is a value of the model.
\<close>

section \<open>Disk and network\<close>

type_synonym fpath = ustr

datatype io_fault = Fine | Fails | Partial nat

record http_response =
  hr_status :: nat
  hr_content_length :: "u64 option"
  hr_signature :: "ustr option"
  hr_key_id :: "ustr option"
  hr_etag :: "ustr option"
  hr_body :: "bytes option list"

text \<open>A header that is not a visible string counts as absent. The body is a list of chunks; \<open>None\<close> is a chunk that
  cannot be read. \<open>w_requests\<close> are the URLs asked for so far, the newest last,
  \<open>w_running\<close> the services that exist and whether they run, and \<open>w_launched\<close> the packages and versions that
  detached helpers were started for.\<close>

record world =
  w_files :: "fpath \<Rightarrow> bytes option"
  w_faults :: "io_fault list"
  w_answers :: "http_response option list"
  w_requests :: "ustr list"
  w_running :: "ustr \<Rightarrow> bool option"
  w_launched :: "(fpath \<times> ustr) list"

datatype update_error =
    UnsupportedArch ustr | UnsupportedProduct ustr | UnsupportedCombination ustr ustr
  | ContextMismatch ustr | ZeroPackageSize | BadManifestSha256 | BadComputedSha256
  | Sha256Mismatch ustr ustr | SizeMismatch u64 u64 | ParseVersion ustr
  | KeyNotEmbedded | BadBase64 | BadSignature
  | RequestFailed | StatusFailed nat | ManifestTooLarge | BodyFailed | MissingSignature | ParseManifest
  | SizeOverflow | PackageTooLarge u64 | IoFailed | ServiceFailed | BadArchive | NoWorkerExe
  | InvalidStagingName

type_synonym 'a io = "(world, update_error, 'a) sresult"

definition next_fault :: "world \<Rightarrow> io_fault \<times> world" where
  "next_fault w = (case w_faults w of [] \<Rightarrow> (Fine, w) | f # fs \<Rightarrow> (f, w\<lparr>w_faults := fs\<rparr>))"

text \<open>The operations of \<open>std::fs\<close> that the code uses. Directories are not part of the model: creating one only
  succeeds or fails. A failing write or copy may have written a part.\<close>

definition io_step :: "world \<Rightarrow> (world \<Rightarrow> 'a io) \<Rightarrow> 'a io" where
  "io_step w f = (case next_fault w of (Fine, w) \<Rightarrow> f w | (_, w) \<Rightarrow> (w, Inl IoFailed))"

definition fs_exists :: "fpath \<Rightarrow> world \<Rightarrow> bool" where
  "fs_exists p w \<longleftrightarrow> w_files w p \<noteq> None"

definition fs_touch :: "world \<Rightarrow> unit io" where
  "fs_touch w = io_step w (\<lambda>w. (w, Inr ()))"

definition fs_remove_file :: "fpath \<Rightarrow> world \<Rightarrow> unit io" where
  "fs_remove_file p w = io_step w (\<lambda>w.
     if fs_exists p w then (w\<lparr>w_files := (w_files w)(p := None)\<rparr>, Inr ()) else (w, Inl IoFailed))"

definition fs_create :: "fpath \<Rightarrow> world \<Rightarrow> unit io" where
  "fs_create p w = io_step w (\<lambda>w. (w\<lparr>w_files := (w_files w)(p := Some [])\<rparr>, Inr ()))"

definition fs_append :: "fpath \<Rightarrow> bytes \<Rightarrow> world \<Rightarrow> world" where
  "fs_append p bs w = w\<lparr>w_files := (w_files w)(p := map_option (\<lambda>old. old @ bs) (w_files w p))\<rparr>"

definition fs_write_all :: "fpath \<Rightarrow> bytes \<Rightarrow> world \<Rightarrow> unit io" where
  "fs_write_all p chunk w =
     (case next_fault w of
        (Fine, w) \<Rightarrow> (fs_append p chunk w, Inr ())
      | (Fails, w) \<Rightarrow> (w, Inl IoFailed)
      | (Partial k, w) \<Rightarrow> (fs_append p (take k chunk) w, Inl IoFailed))"

definition fs_read :: "fpath \<Rightarrow> world \<Rightarrow> bytes io" where
  "fs_read p w = io_step w (\<lambda>w. (w, case w_files w p of None \<Rightarrow> Inl IoFailed | Some content \<Rightarrow> Inr content))"

definition fs_rename :: "fpath \<Rightarrow> fpath \<Rightarrow> world \<Rightarrow> unit io" where
  "fs_rename a b w = io_step w (\<lambda>w. case w_files w a of
       None \<Rightarrow> (w, Inl IoFailed)
     | Some content \<Rightarrow> (w\<lparr>w_files := (w_files w)(a := None, b := Some content)\<rparr>, Inr ()))"

definition fs_copy :: "fpath \<Rightarrow> fpath \<Rightarrow> world \<Rightarrow> unit io" where
  "fs_copy a b w =
     (case next_fault w of (fault, w) \<Rightarrow>
        case w_files w a of
          None \<Rightarrow> (w, Inl IoFailed)
        | Some content \<Rightarrow>
            (case fault of
               Fine \<Rightarrow> (w\<lparr>w_files := (w_files w)(b := Some content)\<rparr>, Inr ())
             | Fails \<Rightarrow> (w, Inl IoFailed)
             | Partial k \<Rightarrow> (w\<lparr>w_files := (w_files w)(b := Some (take k content))\<rparr>, Inl IoFailed)))"

definition http_get :: "ustr \<Rightarrow> world \<Rightarrow> http_response io" where
  "http_get url w =
     (let w = w\<lparr>w_requests := w_requests w @ [url]\<rparr> in
      case w_answers w of
        Some r # rest \<Rightarrow> (w\<lparr>w_answers := rest\<rparr>, Inr r)
      | None # rest \<Rightarrow> (w\<lparr>w_answers := rest\<rparr>, Inl RequestFailed)
      | [] \<Rightarrow> (w, Inl RequestFailed))"

definition error_for_status :: "http_response \<Rightarrow> update_error + http_response" where
  "error_for_status r =
     (if 400 \<le> hr_status r \<and> hr_status r \<le> 599 then Inl (StatusFailed (hr_status r)) else Inr r)"

section \<open>Manifests\<close>

record UpdatePackageArtifact =
  ua_file_name :: ustr
  ua_size_bytes :: u64
  ua_sha256 :: ustr

record UpdateManifest =
  um_product :: ustr
  um_platform :: ustr
  um_arch :: ustr
  um_channel :: ustr
  um_ring :: "ustr option"
  um_version :: ustr
  um_minimum_supported_version :: "ustr option"
  um_severity :: ustr
  um_published_at_utc :: ustr
  um_rollout_percentage :: "u8 option"
  um_package :: UpdatePackageArtifact
  um_contents :: "ustr list"
  um_requires_restart :: bool
  um_install_mode :: ustr

record SignedManifest =
  sm_manifest :: UpdateManifest
  sm_manifest_bytes :: bytes
  sm_signature_b64 :: ustr
  sm_key_id :: "ustr option"
  sm_etag :: "ustr option"

datatype ManifestFetchResult = NotModified | NoUpdate | Signed SignedManifest

record UpdateManifestExpectation =
  ux_product :: ustr
  ux_platform :: ustr
  ux_arch :: ustr
  ux_channel :: ustr
  ux_ring :: "ustr option"
  ux_install_mode :: ustr
  ux_package_file_name :: ustr

record url_parts =
  url_scheme :: ustr
  url_host :: "ustr option"
  url_username :: ustr
  url_password :: "ustr option"
  url_query :: "ustr option"
  url_fragment :: "ustr option"

record ('v, 'h) update_env =
  ue_parse_version :: "ustr \<Rightarrow> 'v option"
  ue_version_less :: "'v \<Rightarrow> 'v \<Rightarrow> bool"
  ue_base64_decode :: "ustr \<Rightarrow> bytes option"
  ue_rsa_verify :: "bytes \<Rightarrow> bytes \<Rightarrow> bytes \<Rightarrow> bool"
  ue_hash_new :: 'h
  ue_hash_update :: "'h \<Rightarrow> bytes \<Rightarrow> 'h"
  ue_hash_finalize :: "'h \<Rightarrow> bytes"
  ue_parse_manifest :: "bytes \<Rightarrow> UpdateManifest option"
  ue_parse_url :: "ustr \<Rightarrow> url_parts option"

definition platform_of_arch :: "ustr \<Rightarrow> update_error + ustr" where
  "platform_of_arch arch =
     (if arch \<in> set (map ascii [''x86'', ''x64'', ''x64-v1'', ''x64-v2'', ''x64-v3'', ''x64-v4''])
      then Inr (ascii ''windows'')
      else if starts_with arch (ascii ''linux-'') then Inr (ascii ''linux'')
      else if starts_with arch (ascii ''macos-'') then Inr (ascii ''macos'')
      else Inl (UnsupportedArch arch))"

definition product_label :: "ustr \<Rightarrow> update_error + ustr" where
  "product_label product =
     (if product = ascii ''agent'' then Inr (ascii ''Agent'')
      else if product = ascii ''viewer'' then Inr (ascii ''Viewer'')
      else if product = ascii ''worker'' then Inr (ascii ''Worker'')
      else if product = ascii ''supervisor'' then Inr (ascii ''Supervisor'')
      else Inl (UnsupportedProduct product))"

definition install_mode_of :: "ustr \<Rightarrow> ustr \<Rightarrow> update_error + ustr" where
  "install_mode_of product platform =
     (if product = ascii ''viewer'' \<and> platform = ascii ''windows'' then Inr (ascii ''restart'')
      else if product = ascii ''viewer'' \<and> platform = ascii ''macos'' then Inr (ascii ''pkg'')
      else if (product = ascii ''worker'' \<or> product = ascii ''supervisor'') \<and> platform = ascii ''macos'' then Inr (ascii ''zip'')
      else if (product = ascii ''agent'' \<or> product = ascii ''worker'' \<or> product = ascii ''supervisor'')
              \<and> (platform = ascii ''windows'' \<or> platform = ascii ''linux'') then Inr (ascii ''silent'')
      else Inl (UnsupportedCombination product platform))"

definition for_artifact ::
    "ustr \<Rightarrow> ustr \<Rightarrow> ustr \<Rightarrow> ustr option \<Rightarrow> update_error + UpdateManifestExpectation" where
  "for_artifact product arch channel ring =
     rbind (platform_of_arch arch) (\<lambda>platform.
     rbind (product_label product) (\<lambda>label.
     rbind (install_mode_of product platform) (\<lambda>install_mode.
     let package_file_name =
           (if product = ascii ''viewer'' \<and> platform = ascii ''macos'' then ascii ''Talos.Viewer.macos.pkg''
            else ascii ''Talos.'' @ label @ ascii ''.'' @ arch @ ascii ''.Update.zip'') in
     Inr \<lparr>ux_product = product, ux_platform = platform, ux_arch = arch, ux_channel = channel, ux_ring = ring,
          ux_install_mode = install_mode, ux_package_file_name = package_file_name\<rparr>)))"

definition validate_package_size :: "u64 \<Rightarrow> update_error + unit" where
  "validate_package_size size_bytes = (if size_bytes = 0 then Inl ZeroPackageSize else Inr ())"

text \<open>A string whose bytes are all hexadecimal digits is ASCII, so its length in bytes is its number of
  characters.\<close>

definition is_sha256_hex :: "ustr \<Rightarrow> bool" where
  "is_sha256_hex value \<longleftrightarrow> length value = 64 \<and> list_all is_ascii_hexdigit value"

definition validate_sha256 :: "ustr \<Rightarrow> update_error + unit" where
  "validate_sha256 value = (if \<not> is_sha256_hex value then Inl BadManifestSha256 else Inr ())"

definition context_fields :: "UpdateManifest \<Rightarrow> UpdateManifestExpectation \<Rightarrow> (ustr \<times> ustr \<times> ustr) list" where
  "context_fields manifest expected =
     [(ascii ''product'', um_product manifest, ux_product expected),
      (ascii ''platform'', um_platform manifest, ux_platform expected),
      (ascii ''architecture'', um_arch manifest, ux_arch expected),
      (ascii ''channel'', um_channel manifest, ux_channel expected),
      (ascii ''install mode'', um_install_mode manifest, ux_install_mode expected),
      (ascii ''package file name'', ua_file_name (um_package manifest), ux_package_file_name expected)]"

definition validate_manifest_context :: "UpdateManifest \<Rightarrow> UpdateManifestExpectation \<Rightarrow> update_error + unit" where
  "validate_manifest_context manifest expected =
     rbind (try_fold (\<lambda>_ (label, actual, wanted). if actual \<noteq> wanted then Inl (ContextMismatch label) else Inr ()) ()
              (context_fields manifest expected)) (\<lambda>_.
     if um_ring manifest \<noteq> ux_ring expected then Inl (ContextMismatch (ascii ''ring''))
     else rbind (validate_package_size (ua_size_bytes (um_package manifest))) (\<lambda>_.
          validate_sha256 (ua_sha256 (um_package manifest))))"

definition normalize_semver :: "('v, 'h) update_env \<Rightarrow> ustr \<Rightarrow> update_error + 'v" where
  "normalize_semver env value =
     (let trimmed = trim value;
          normalized = (case strip_prefix (ascii ''v'') trimmed of Some rest \<Rightarrow> rest | None \<Rightarrow> trimmed) in
      ok_or (ParseVersion value) (ue_parse_version env normalized))"

definition is_update_newer :: "('v, 'h) update_env \<Rightarrow> ustr \<Rightarrow> ustr \<Rightarrow> update_error + bool" where
  "is_update_newer env current_version next_version =
     rbind (normalize_semver env current_version) (\<lambda>current.
     rbind (normalize_semver env next_version) (\<lambda>next.
     Inr (ue_version_less env current next)))"

definition ends_with :: "ustr \<Rightarrow> ustr \<Rightarrow> bool" where
  "ends_with s suffix \<longleftrightarrow> starts_with (rev s) (rev suffix)"

definition normalize_update_base_url :: "('v, 'h) update_env \<Rightarrow> ustr \<Rightarrow> ustr option" where
  "normalize_update_base_url env value =
     (let trimmed = trim_end_matches 47 (trim value) in
      if trimmed = [] then None
      else case ue_parse_url env trimmed of
          None \<Rightarrow> None
        | Some parsed \<Rightarrow>
            if \<not> (url_scheme parsed = ascii ''http'' \<or> url_scheme parsed = ascii ''https'')
               \<or> url_host parsed = None \<or> url_username parsed \<noteq> [] \<or> url_password parsed \<noteq> None
               \<or> url_query parsed \<noteq> None \<or> url_fragment parsed \<noteq> None
            then None
            else if ends_with trimmed (ascii ''/rmm/updates'') then Some trimmed
            else Some (trimmed @ ascii ''/rmm/updates''))"

definition verify_manifest_signature :: "('v, 'h) update_env \<Rightarrow> bytes \<Rightarrow> bytes \<Rightarrow> ustr \<Rightarrow> update_error + unit" where
  "verify_manifest_signature env public_key_der manifest_bytes signature_b64 =
     (if public_key_der = [] then Inl KeyNotEmbedded
      else rbind (ok_or BadBase64 (ue_base64_decode env signature_b64)) (\<lambda>signature.
           if ue_rsa_verify env public_key_der manifest_bytes signature then Inr () else Inl BadSignature))"

section \<open>Packages\<close>

definition hex_digit :: "nat \<Rightarrow> uchar" where
  "hex_digit d = (if d < 10 then 48 + d else 87 + d)"

fun hex_lower :: "bytes \<Rightarrow> ustr" where
  "hex_lower [] = []"
| "hex_lower (b # bs) = hex_digit (unat b div 16) # hex_digit (unat b mod 16) # hex_lower bs"

definition sha256_hex_bytes :: "('v, 'h) update_env \<Rightarrow> bytes \<Rightarrow> ustr" where
  "sha256_hex_bytes env bs = hex_lower (ue_hash_finalize env (ue_hash_update env (ue_hash_new env) bs))"

text \<open>The file is hashed in reads of at most 64 KiB.\<close>

function hash_blocks :: "('v, 'h) update_env \<Rightarrow> 'h \<Rightarrow> bytes \<Rightarrow> 'h" where
  "hash_blocks env h content =
     (if content = [] then h else hash_blocks env (ue_hash_update env h (take 65536 content)) (drop 65536 content))"
  by pat_completeness auto
termination by (relation "measure (\<lambda>(_, _, content). length content)") auto

declare hash_blocks.simps [simp del]

definition sha256_hex_file :: "('v, 'h) update_env \<Rightarrow> fpath \<Rightarrow> world \<Rightarrow> ustr io" where
  "sha256_hex_file env p w =
     sbind (fs_read p w) (\<lambda>w content. (w, Inr (hex_lower (ue_hash_finalize env (hash_blocks env (ue_hash_new env) content)))))"

definition verify_package_sha256 :: "ustr \<Rightarrow> ustr \<Rightarrow> update_error + unit" where
  "verify_package_sha256 expected_sha256 actual_sha256 =
     rbind (validate_sha256 expected_sha256) (\<lambda>_.
     if \<not> is_sha256_hex actual_sha256 then Inl BadComputedSha256
     else if \<not> eq_ignore_ascii_case expected_sha256 actual_sha256 then Inl (Sha256Mismatch expected_sha256 actual_sha256)
     else Inr ())"

definition verify_package_size :: "u64 \<Rightarrow> u64 \<Rightarrow> update_error + unit" where
  "verify_package_size expected_size_bytes actual_size_bytes =
     rbind (validate_package_size expected_size_bytes) (\<lambda>_.
     if actual_size_bytes \<noteq> expected_size_bytes then Inl (SizeMismatch expected_size_bytes actual_size_bytes)
     else Inr ())"

section \<open>Fetching and downloading\<close>

definition MAX_MANIFEST_BYTES :: nat where "MAX_MANIFEST_BYTES = 1024 * 1024"

fun read_manifest_body :: "bytes \<Rightarrow> bytes option list \<Rightarrow> update_error + bytes" where
  "read_manifest_body manifest_bytes [] = Inr manifest_bytes"
| "read_manifest_body manifest_bytes (None # rest) = Inl BodyFailed"
| "read_manifest_body manifest_bytes (Some chunk # rest) =
     (if usize_saturating_add (length manifest_bytes) (length chunk) > MAX_MANIFEST_BYTES then Inl ManifestTooLarge
      else read_manifest_body (manifest_bytes @ chunk) rest)"

definition nonempty_trimmed :: "ustr option \<Rightarrow> ustr option" where
  "nonempty_trimmed value =
     (case value of None \<Rightarrow> None | Some v \<Rightarrow> if trim v = [] then None else Some (trim v))"

definition fetch_manifest :: "('v, 'h) update_env \<Rightarrow> ustr \<Rightarrow> world \<Rightarrow> ManifestFetchResult io" where
  "fetch_manifest env manifest_url w =
     sbind (http_get manifest_url w) (\<lambda>w response.
     if hr_status response = 304 then (w, Inr NotModified)
     else if hr_status response = 204 then (w, Inr NoUpdate)
     else (w,
       rbind (error_for_status response) (\<lambda>response.
       if (case hr_content_length response of None \<Rightarrow> False | Some len \<Rightarrow> len > of_nat MAX_MANIFEST_BYTES)
       then Inl ManifestTooLarge
       else rbind (read_manifest_body [] (hr_body response)) (\<lambda>manifest_bytes.
            rbind (ok_or MissingSignature (nonempty_trimmed (hr_signature response))) (\<lambda>signature_b64.
            rbind (ok_or ParseManifest (ue_parse_manifest env manifest_bytes)) (\<lambda>manifest.
            Inr (Signed \<lparr>sm_manifest = manifest, sm_manifest_bytes = manifest_bytes, sm_signature_b64 = signature_b64,
               sm_key_id = nonempty_trimmed (hr_key_id response), sm_etag = hr_etag response\<rparr>)))))))"

text \<open>The loop that writes the chunks of the body; its result is the number of bytes written.\<close>

fun write_chunks :: "fpath \<Rightarrow> u64 \<Rightarrow> u64 \<Rightarrow> bytes option list \<Rightarrow> world \<Rightarrow> u64 io" where
  "write_chunks destination expected actual [] w = (w, Inr actual)"
| "write_chunks destination expected actual (None # rest) w = (w, Inl BodyFailed)"
| "write_chunks destination expected actual (Some chunk # rest) w =
     (case checked_add actual (of_nat (length chunk)) of
        None \<Rightarrow> (w, Inl SizeOverflow)
      | Some actual \<Rightarrow>
          if actual > expected then (w, Inl (PackageTooLarge expected))
          else sbind (fs_write_all destination chunk w) (\<lambda>w _. write_chunks destination expected actual rest w))"

definition write_package :: "fpath \<Rightarrow> u64 \<Rightarrow> bytes option list \<Rightarrow> world \<Rightarrow> unit io" where
  "write_package destination expected body w =
     sbind (fs_create destination w) (\<lambda>w _.
     sbind (write_chunks destination expected 0 body w) (\<lambda>w actual.
     sbind (fs_touch w) (\<lambda>w _. (w, verify_package_size expected actual))))"

text \<open>The two \<open>fs_touch\<close> are the creation of the parent directory here and the flush above.\<close>

definition download_file :: "ustr \<Rightarrow> fpath \<Rightarrow> u64 \<Rightarrow> world \<Rightarrow> unit io" where
  "download_file url destination expected_size_bytes w =
     sbind (w, validate_package_size expected_size_bytes) (\<lambda>w _.
     let w = fst (fs_remove_file destination w) in
     sbind (http_get url w) (\<lambda>w response.
     sbind (w, error_for_status response) (\<lambda>w response.
     sbind (w, case hr_content_length response of
                 None \<Rightarrow> Inr ()
               | Some content_length \<Rightarrow> verify_package_size expected_size_bytes content_length) (\<lambda>w _.
     sbind (fs_touch w) (\<lambda>w _.
     case write_package destination expected_size_bytes (hr_body response) w of
       (w, Inl e) \<Rightarrow> (fst (fs_remove_file destination w), Inl e)
     | (w, Inr u) \<Rightarrow> (w, Inr ()))))))"

end
