(* ===== verification/Supervisor.thy ===== *)
theory Supervisor
  imports Update_Common
begin

text \<open>
  The supervisor (\<open>talos_supervisor/src/supervisor.rs\<close> and \<open>main.rs\<close>): it looks for updates of itself and of the
  worker, downloads and checks them, and replaces the installed files. The model is the Windows and the Linux build;
  \<open>bd_windows\<close> says which. The ZIP reader, the walk over a directory, the process table, Authenticode and
  the platform's service manager are fields of \<open>sup_env\<close> or part of the \<open>world\<close>. Log lines and the
  waiting between attempts are left out, and directories are implicit.
\<close>

section \<open>Environment and configuration\<close>

text \<open>An item of the walk over the staging directory: the walk fails there, a file whose name is not valid text, or a file by its path
  relative to the directory. The walk is taken once, before the first file is replaced.\<close>

datatype walk_item = WalkFailed | InvalidName | StagedFile ustr

record ('v, 'h) sup_env =
  se_update :: "('v, 'h) update_env"
  bd_windows :: bool
  se_public_key :: bytes
  se_update_root :: fpath
  se_rollout_seed :: ustr
  se_package_version :: ustr
  se_supervisor_arch :: ustr
  se_current_exe :: fpath
  se_process_id :: ustr
  se_worker_version_env :: "ustr option"
  se_running_from :: "fpath \<Rightarrow> bool"
  se_authenticode :: "bytes \<Rightarrow> bool"
  se_read_zip :: "bytes \<Rightarrow> (ustr \<times> bool \<times> bytes option) list option"
  se_walk :: "fpath \<Rightarrow> (fpath \<Rightarrow> bytes option) \<Rightarrow> walk_item list"
  se_service_changed :: "fpath \<Rightarrow> bool"

record SupervisorConfig =
  sc_update_base_url :: "ustr option"
  sc_channel :: ustr
  sc_ring :: "ustr option"
  sc_worker_arch :: ustr
  sc_worker_install_dir :: fpath
  sc_worker_version_path :: fpath
  sc_worker_service_name :: ustr
  sc_supervisor_service_name :: ustr
  sc_supervisor_install_dir :: fpath

definition separator :: "('v, 'h) sup_env \<Rightarrow> ustr" where
  "separator env = (if bd_windows env then [92] else [47])"

definition path_join :: "('v, 'h) sup_env \<Rightarrow> fpath \<Rightarrow> ustr \<Rightarrow> fpath" where
  "path_join env dir name = dir @ separator env @ name"

definition exe_name :: "('v, 'h) sup_env \<Rightarrow> string \<Rightarrow> ustr" where
  "exe_name env name = ascii name @ (if bd_windows env then ascii ''.exe'' else [])"

definition SUPERVISOR_FILE_NAME :: "('v, 'h) sup_env \<Rightarrow> ustr" where
  "SUPERVISOR_FILE_NAME env = exe_name env ''talos_supervisor''"
definition LEGACY_SUPERVISOR_FILE_NAME :: "('v, 'h) sup_env \<Rightarrow> ustr" where
  "LEGACY_SUPERVISOR_FILE_NAME env = exe_name env ''updater''"
definition PENDING_SUPERVISOR_FILE_NAME :: "('v, 'h) sup_env \<Rightarrow> ustr" where
  "PENDING_SUPERVISOR_FILE_NAME env = exe_name env ''talos_supervisor.next''"
definition LEGACY_PENDING_SUPERVISOR_FILE_NAME :: "('v, 'h) sup_env \<Rightarrow> ustr" where
  "LEGACY_PENDING_SUPERVISOR_FILE_NAME env = exe_name env ''updater.next''"
definition SUPERVISOR_PREVIOUS_FILE_NAME :: "('v, 'h) sup_env \<Rightarrow> ustr" where
  "SUPERVISOR_PREVIOUS_FILE_NAME env = exe_name env ''talos_supervisor.previous''"
definition LEGACY_SUPERVISOR_PREVIOUS_FILE_NAME :: "('v, 'h) sup_env \<Rightarrow> ustr" where
  "LEGACY_SUPERVISOR_PREVIOUS_FILE_NAME env = exe_name env ''updater.previous''"
definition WORKER_EXE_NAME :: "('v, 'h) sup_env \<Rightarrow> ustr" where
  "WORKER_EXE_NAME env = exe_name env ''talos_worker''"
definition LEGACY_WORKER_EXE_NAME :: "('v, 'h) sup_env \<Rightarrow> ustr" where
  "LEGACY_WORKER_EXE_NAME env = (if bd_windows env then ascii ''talos_worker.exe'' else ascii ''talos-rmm-agent'')"

definition WORKER_PRODUCT :: ustr where "WORKER_PRODUCT = ascii ''worker''"
definition SUPERVISOR_PRODUCT :: ustr where "SUPERVISOR_PRODUCT = ascii ''supervisor''"
definition UPDATE_REQUEST_ATTEMPTS :: nat where "UPDATE_REQUEST_ATTEMPTS = 4"

text \<open>The first configured endpoint that is not blank decides, also when it is then found invalid.\<close>

fun find_nonblank :: "ustr option list \<Rightarrow> ustr option" where
  "find_nonblank [] = None"
| "find_nonblank (None # rest) = find_nonblank rest"
| "find_nonblank (Some value # rest) = (if trim value \<noteq> [] then Some value else find_nonblank rest)"

definition resolve_update_base_url_from_values :: "('v, 'h) sup_env \<Rightarrow> ustr option list \<Rightarrow> ustr option" where
  "resolve_update_base_url_from_values env values =
     Option.bind (find_nonblank values) (normalize_update_base_url (se_update env))"

definition worker_arch_candidates :: "('v, 'h) sup_env \<Rightarrow> ustr \<Rightarrow> ustr list" where
  "worker_arch_candidates env detected =
     (if bd_windows env then
        (let order = map ascii [''x64-v4'', ''x64-v3'', ''x64-v2'', ''x64-v1'', ''x64'', ''x86''] in
         if detected = ascii ''x86'' then [ascii ''x86'']
         else let before = takeWhile (\<lambda>arch. arch \<noteq> detected) order;
                  start = (if length before < length order then length before else 3) in
              drop start (butlast order))
      else [detected])"

section \<open>Fetching an update\<close>

definition normalize_base_url :: "ustr \<Rightarrow> ustr" where
  "normalize_base_url base_url = trim_end_matches 47 base_url"

definition push_ring :: "ustr option \<Rightarrow> ustr \<Rightarrow> ustr" where
  "push_ring ring url = (case ring of None \<Rightarrow> url | Some ring \<Rightarrow> url @ ascii ''&ring='' @ ring)"

definition build_manifest_url :: "('v, 'h) sup_env \<Rightarrow> SupervisorConfig \<Rightarrow> ustr \<Rightarrow> ustr \<Rightarrow> ustr \<Rightarrow> ustr \<Rightarrow> ustr" where
  "build_manifest_url env config update_base_url product arch current_version =
     push_ring (sc_ring config)
       (normalize_base_url update_base_url @ ascii ''/'' @ product @ ascii ''/manifest?arch='' @ arch
        @ ascii ''&channel='' @ sc_channel config @ ascii ''&currentVersion='' @ current_version
        @ ascii ''&rolloutSeed='' @ se_rollout_seed env)"

definition build_package_url :: "ustr \<Rightarrow> ustr \<Rightarrow> ustr \<Rightarrow> ustr \<Rightarrow> ustr option \<Rightarrow> ustr" where
  "build_package_url update_base_url product arch channel ring =
     push_ring ring
       (normalize_base_url update_base_url @ ascii ''/'' @ product @ ascii ''/package?arch='' @ arch
        @ ascii ''&channel='' @ channel)"

definition update_download_path :: "('v, 'h) sup_env \<Rightarrow> ustr \<Rightarrow> ustr \<Rightarrow> ustr \<Rightarrow> fpath" where
  "update_download_path env product arch version =
     path_join env (path_join env (se_update_root env) product)
       (product @ ascii ''-'' @ arch @ ascii ''-'' @ version @ ascii ''.zip'')"

record DownloadedUpdate =
  du_version :: ustr
  du_package_path :: fpath

text \<open>The loop over the attempts: \<open>attempts\<close> are left, the current one included.\<close>

fun with_retry :: "nat \<Rightarrow> (world \<Rightarrow> 'a io) \<Rightarrow> world \<Rightarrow> 'a io" where
  "with_retry attempts request w =
     (case request w of
        (w, Inr result) \<Rightarrow> (w, Inr result)
      | (w, Inl e) \<Rightarrow> if 1 < attempts then with_retry (attempts - 1) request w else (w, Inl e))"

declare with_retry.simps [simp del]

definition fetch_manifest_with_retry :: "('v, 'h) sup_env \<Rightarrow> ustr \<Rightarrow> world \<Rightarrow> ManifestFetchResult io" where
  "fetch_manifest_with_retry env manifest_url =
     with_retry UPDATE_REQUEST_ATTEMPTS (fetch_manifest (se_update env) manifest_url)"

definition download_file_with_retry :: "ustr \<Rightarrow> fpath \<Rightarrow> u64 \<Rightarrow> world \<Rightarrow> unit io" where
  "download_file_with_retry package_url package_path expected_size_bytes =
     with_retry UPDATE_REQUEST_ATTEMPTS (download_file package_url package_path expected_size_bytes)"

text \<open>What \<open>fetch_update\<close> does with a signed manifest that is newer.\<close>

definition download_package ::
    "('v, 'h) sup_env \<Rightarrow> SupervisorConfig \<Rightarrow> ustr \<Rightarrow> ustr \<Rightarrow> ustr \<Rightarrow> UpdateManifest \<Rightarrow> world \<Rightarrow> DownloadedUpdate io" where
  "download_package env config update_base_url product arch manifest w =
     (let package_url = build_package_url update_base_url product arch (sc_channel config) (sc_ring config);
          package_path = update_download_path env product arch (um_version manifest) in
      sbind (download_file_with_retry package_url package_path (ua_size_bytes (um_package manifest)) w) (\<lambda>w _.
      sbind (fs_read package_path w) (\<lambda>w content.
      sbind (w, verify_package_size (ua_size_bytes (um_package manifest)) (of_nat (length content))) (\<lambda>w _.
      sbind (sha256_hex_file (se_update env) package_path w) (\<lambda>w actual_hash.
      sbind (w, verify_package_sha256 (ua_sha256 (um_package manifest)) actual_hash) (\<lambda>w _.
      (w, Inr \<lparr>du_version = um_version manifest, du_package_path = package_path\<rparr>)))))))"

definition fetch_update ::
    "('v, 'h) sup_env \<Rightarrow> SupervisorConfig \<Rightarrow> ustr \<Rightarrow> ustr \<Rightarrow> ustr \<Rightarrow> ustr \<Rightarrow> world \<Rightarrow> DownloadedUpdate option io" where
  "fetch_update env config update_base_url product arch current_version w =
     sbind (fetch_manifest_with_retry env (build_manifest_url env config update_base_url product arch current_version) w)
       (\<lambda>w fetch_result.
     case fetch_result of
       NoUpdate \<Rightarrow> (w, Inr None)
     | NotModified \<Rightarrow> (w, Inr None)
     | Signed sm \<Rightarrow>
         sbind (w, verify_manifest_signature (se_update env) (se_public_key env) (sm_manifest_bytes sm)
                     (sm_signature_b64 sm)) (\<lambda>w _.
         sbind (w, for_artifact product arch (sc_channel config) (sc_ring config)) (\<lambda>w expected_manifest.
         sbind (w, validate_manifest_context (sm_manifest sm) expected_manifest) (\<lambda>w _.
         sbind (w, is_update_newer (se_update env) current_version (um_version (sm_manifest sm))) (\<lambda>w newer.
         if \<not> newer then (w, Inr None)
         else sbind (download_package env config update_base_url product arch (sm_manifest sm) w) (\<lambda>w update.
              (w, Inr (Some update))))))))"

section \<open>Replacing files\<close>

definition is_supervisor_self_file :: "('v, 'h) sup_env \<Rightarrow> ustr \<Rightarrow> bool" where
  "is_supervisor_self_file env file_name \<longleftrightarrow>
     eq_ignore_ascii_case file_name (SUPERVISOR_FILE_NAME env)
     \<or> eq_ignore_ascii_case file_name (LEGACY_SUPERVISOR_FILE_NAME env)"

definition pending_supervisor_path :: "('v, 'h) sup_env \<Rightarrow> fpath \<Rightarrow> ustr \<Rightarrow> fpath" where
  "pending_supervisor_path env install_dir file_name =
     path_join env install_dir
       (if eq_ignore_ascii_case file_name (LEGACY_SUPERVISOR_FILE_NAME env)
        then LEGACY_PENDING_SUPERVISOR_FILE_NAME env else PENDING_SUPERVISOR_FILE_NAME env)"

definition supervisor_backup_path :: "('v, 'h) sup_env \<Rightarrow> fpath \<Rightarrow> ustr \<Rightarrow> fpath" where
  "supervisor_backup_path env install_dir file_name =
     path_join env install_dir
       (if eq_ignore_ascii_case file_name (LEGACY_SUPERVISOR_FILE_NAME env)
        then LEGACY_SUPERVISOR_PREVIOUS_FILE_NAME env else SUPERVISOR_PREVIOUS_FILE_NAME env)"

definition replace_file_with_backup :: "fpath \<Rightarrow> fpath \<Rightarrow> fpath \<Rightarrow> world \<Rightarrow> unit io" where
  "replace_file_with_backup source destination backup w =
     (let w = fst (fs_remove_file backup w) in
      sbind (if fs_exists destination w then sbind (fs_rename destination backup w) (\<lambda>w _. (w, Inr True)) else (w, Inr False))
        (\<lambda>w moved_existing.
      case fs_copy source destination w of
        (w, Inl e) \<Rightarrow>
          (if moved_existing \<and> \<not> fs_exists destination w \<and> fs_exists backup w
           then fst (fs_rename backup destination w) else w, Inl e)
      | (w, Inr _) \<Rightarrow> (fst (fs_remove_file backup w), Inr ())))"

definition promote_pending_supervisor_file :: "fpath \<Rightarrow> fpath \<Rightarrow> fpath \<Rightarrow> world \<Rightarrow> unit io" where
  "promote_pending_supervisor_file pending current backup w =
     (if \<not> fs_exists pending w then (w, Inr ())
      else
        sbind (if fs_exists current w then fs_rename current backup (fst (fs_remove_file backup w)) else (w, Inr ())) (\<lambda>w _.
        sbind (fs_rename pending current w) (\<lambda>w _.
        (fst (fs_remove_file backup w), Inr ()))))"

definition promote_pending_supervisor :: "('v, 'h) sup_env \<Rightarrow> fpath \<Rightarrow> world \<Rightarrow> unit io" where
  "promote_pending_supervisor env install_dir w =
     sbind (promote_pending_supervisor_file (path_join env install_dir (PENDING_SUPERVISOR_FILE_NAME env))
              (path_join env install_dir (SUPERVISOR_FILE_NAME env))
              (path_join env install_dir (SUPERVISOR_PREVIOUS_FILE_NAME env)) w) (\<lambda>w _.
     promote_pending_supervisor_file (path_join env install_dir (LEGACY_PENDING_SUPERVISOR_FILE_NAME env))
       (path_join env install_dir (LEGACY_SUPERVISOR_FILE_NAME env))
       (path_join env install_dir (LEGACY_SUPERVISOR_PREVIOUS_FILE_NAME env)) w)"

text \<open>The last component of a path, the part of a file name before its last dot, and the extension after it. A name
  whose only dot is its first character has no extension.\<close>

definition file_name_of :: "('v, 'h) sup_env \<Rightarrow> fpath \<Rightarrow> ustr" where
  "file_name_of env p = rev (takeWhile (\<lambda>c. [c] \<noteq> separator env) (rev p))"

definition split_extension :: "ustr \<Rightarrow> ustr \<times> ustr option" where
  "split_extension name =
     (case split_once 46 (rev name) of
        None \<Rightarrow> (name, None)
      | Some (ext, stem) \<Rightarrow> if stem = [] then (name, None) else (rev stem, Some (rev ext)))"

definition with_extension :: "('v, 'h) sup_env \<Rightarrow> fpath \<Rightarrow> ustr \<Rightarrow> fpath" where
  "with_extension env p ext =
     (let name = file_name_of env p in
      take (length p - length name) p @ fst (split_extension name) @ ascii ''.'' @ ext)"

definition apply_platform_file_permissions :: "('v, 'h) sup_env \<Rightarrow> fpath \<Rightarrow> world \<Rightarrow> unit io" where
  "apply_platform_file_permissions env p w =
     (if \<not> bd_windows env \<and> file_name_of env p \<in> set (map ascii [''talos_supervisor'', ''updater'', ''talos_worker'',
          ''talos-rmm-agent'', ''talos_worker_helper'', ''talos_worker_chat'', ''talos_permissions_helper''])
      then sbind (fs_touch w) (\<lambda>w _. fs_touch w) else (w, Inr ()))"

definition verify_authenticode :: "('v, 'h) sup_env \<Rightarrow> fpath \<Rightarrow> world \<Rightarrow> unit io" where
  "verify_authenticode env p w =
     (if bd_windows env \<and> \<not> (case w_files w p of None \<Rightarrow> False | Some content \<Rightarrow> se_authenticode env content)
      then (w, Inl BadSignature) else (w, Inr ()))"

text \<open>One staged file: the executable of the supervisor, then any other file.\<close>

definition replace_supervisor_file :: "('v, 'h) sup_env \<Rightarrow> fpath \<Rightarrow> fpath \<Rightarrow> fpath \<Rightarrow> ustr \<Rightarrow> world \<Rightarrow> unit io" where
  "replace_supervisor_file env source destination install_dir file_name w =
     sbind (verify_authenticode env source w) (\<lambda>w _.
     if se_running_from env destination then
       let pending = pending_supervisor_path env install_dir file_name in
       sbind (fs_copy source pending w) (\<lambda>w _. apply_platform_file_permissions env pending w)
     else
       sbind (replace_file_with_backup source destination (supervisor_backup_path env install_dir file_name) w)
         (\<lambda>w _. apply_platform_file_permissions env destination w))"

definition replace_installed_file :: "('v, 'h) sup_env \<Rightarrow> fpath \<Rightarrow> fpath \<Rightarrow> world \<Rightarrow> unit io" where
  "replace_installed_file env source destination w =
     sbind (if (case snd (split_extension (file_name_of env destination)) of
                  None \<Rightarrow> False | Some ext \<Rightarrow> eq_ignore_ascii_case ext (ascii ''exe''))
            then verify_authenticode env source w else (w, Inr ())) (\<lambda>w _.
     sbind (fs_touch w) (\<lambda>w _.
     let backup_path = with_extension env destination (ascii ''previous'') in
     sbind (if fs_exists destination w then fs_rename destination backup_path (fst (fs_remove_file backup_path w))
            else (w, Inr ())) (\<lambda>w _.
     sbind (fs_copy source destination w) (\<lambda>w _.
     sbind (apply_platform_file_permissions env destination w) (\<lambda>w _.
     (fst (fs_remove_file backup_path w), Inr ()))))))"

definition replace_entry :: "('v, 'h) sup_env \<Rightarrow> fpath \<Rightarrow> fpath \<Rightarrow> ustr \<Rightarrow> world \<Rightarrow> unit io" where
  "replace_entry env staging_dir install_dir relative w =
     (let source = path_join env staging_dir relative; destination = path_join env install_dir relative;
          file_name = file_name_of env relative in
      if is_supervisor_self_file env file_name
      then replace_supervisor_file env source destination install_dir file_name w
      else replace_installed_file env source destination w)"

fun replace_entries :: "('v, 'h) sup_env \<Rightarrow> fpath \<Rightarrow> fpath \<Rightarrow> walk_item list \<Rightarrow> world \<Rightarrow> unit io" where
  "replace_entries env staging_dir install_dir [] w = (w, Inr ())"
| "replace_entries env staging_dir install_dir (WalkFailed # rest) w = (w, Inl IoFailed)"
| "replace_entries env staging_dir install_dir (InvalidName # rest) w = (w, Inl InvalidStagingName)"
| "replace_entries env staging_dir install_dir (StagedFile relative # rest) w =
     sbind (replace_entry env staging_dir install_dir relative w) (\<lambda>w _.
     replace_entries env staging_dir install_dir rest w)"

definition replace_directory_contents :: "('v, 'h) sup_env \<Rightarrow> fpath \<Rightarrow> fpath \<Rightarrow> world \<Rightarrow> unit io" where
  "replace_directory_contents env staging_dir install_dir w =
     replace_entries env staging_dir install_dir (se_walk env staging_dir (w_files w)) w"

text \<open>An entry is its sanitised name, whether it is a directory, and its content, if it can be read.\<close>

fun extract_entries :: "('v, 'h) sup_env \<Rightarrow> fpath \<Rightarrow> (ustr \<times> bool \<times> bytes option) list \<Rightarrow> world \<Rightarrow> unit io" where
  "extract_entries env destination [] w = (w, Inr ())"
| "extract_entries env destination ((mangled_name, is_dir, content) # rest) w =
     sbind (fs_touch w) (\<lambda>w _.
     if is_dir then extract_entries env destination rest w
     else
       let out_path = path_join env destination mangled_name in
       sbind (fs_create out_path w) (\<lambda>w _.
       case content of
         None \<Rightarrow> (w, Inl BadArchive)
       | Some content \<Rightarrow>
           sbind (fs_write_all out_path content w) (\<lambda>w _. extract_entries env destination rest w)))"

definition extract_zip :: "('v, 'h) sup_env \<Rightarrow> fpath \<Rightarrow> fpath \<Rightarrow> world \<Rightarrow> unit io" where
  "extract_zip env zip_path destination w =
     sbind (fs_read zip_path w) (\<lambda>w content.
     case se_read_zip env content of
       None \<Rightarrow> (w, Inl BadArchive)
     | Some entries \<Rightarrow> extract_entries env destination entries w)"

section \<open>Applying an update\<close>

text \<open>The service manager. A service that exists is running or stopped.\<close>

definition service_exists :: "ustr \<Rightarrow> world \<Rightarrow> bool \<times> world" where
  "service_exists name w =
     (case next_fault w of (Fine, w) \<Rightarrow> (w_running w name \<noteq> None, w) | (_, w) \<Rightarrow> (False, w))"

definition set_service :: "bool \<Rightarrow> ustr \<Rightarrow> world \<Rightarrow> unit io" where
  "set_service running name w =
     (case next_fault w of
        (Fine, w) \<Rightarrow> (w\<lparr>w_running := (w_running w)(name \<mapsto> running)\<rparr>, Inr ())
      | (_, w) \<Rightarrow> (w, Inl ServiceFailed))"

definition stop_service :: "ustr \<Rightarrow> world \<Rightarrow> unit io" where "stop_service = set_service False"
definition start_service :: "ustr \<Rightarrow> world \<Rightarrow> unit io" where "start_service = set_service True"

text \<open>Removing the staging directory removes the files below it; its result is ignored by the code.\<close>

definition remove_dir_all :: "('v, 'h) sup_env \<Rightarrow> fpath \<Rightarrow> world \<Rightarrow> world" where
  "remove_dir_all env dir w =
     (case next_fault w of
        (Fine, w) \<Rightarrow> w\<lparr>w_files := (\<lambda>p. if starts_with p (dir @ separator env) then None else w_files w p)\<rparr>
      | (_, w) \<Rightarrow> w)"

record ApplyArgs =
  aa_package_path :: fpath
  aa_install_dir :: fpath
  aa_service_name :: ustr
  aa_target_version :: "ustr option"

definition apply_update_package :: "('v, 'h) sup_env \<Rightarrow> ApplyArgs \<Rightarrow> world \<Rightarrow> unit io" where
  "apply_update_package env args w =
     (let staging_dir = path_join env (aa_install_dir args) (ascii ''_update_staging'');
          w = remove_dir_all env staging_dir w in
      sbind (fs_touch w) (\<lambda>w _.
      sbind (extract_zip env (aa_package_path args) staging_dir w) (\<lambda>w _.
      case service_exists (aa_service_name args) w of (restart_service, w) \<Rightarrow>
      sbind (if restart_service then stop_service (aa_service_name args) w else (w, Inr ())) (\<lambda>w _.
      sbind (replace_directory_contents env staging_dir (aa_install_dir args) w) (\<lambda>w _.
      sbind (if restart_service then start_service (aa_service_name args) w else (w, Inr ())) (\<lambda>w _.
      (remove_dir_all env staging_dir w, Inr ())))))))"

text \<open>The options of \<open>--apply\<close>. An option at the end of the line has no value.\<close>

definition parse_step :: "ustr \<Rightarrow> ustr option \<Rightarrow> (ustr option \<times> ustr option \<times> ustr option \<times> ustr option)
    \<Rightarrow> (ustr option \<times> ustr option \<times> ustr option \<times> ustr option) option" where
  "parse_step arg value = (\<lambda>(package_path, install_dir, service_name, target_version).
     if arg = ascii ''--package'' then Some (value, install_dir, service_name, target_version)
     else if arg = ascii ''--install-dir'' then Some (package_path, value, service_name, target_version)
     else if arg = ascii ''--service-name'' then Some (package_path, install_dir, value, target_version)
     else if arg = ascii ''--target-version'' then Some (package_path, install_dir, service_name, value)
     else None)"

function parse_args :: "ustr list \<Rightarrow> (ustr option \<times> ustr option \<times> ustr option \<times> ustr option)
    \<Rightarrow> (ustr option \<times> ustr option \<times> ustr option \<times> ustr option) option" where
  "parse_args [] st = Some st"
| "parse_args (arg # args) st =
     (if arg = ascii ''--apply'' then parse_args args st
      else case parse_step arg (case args of [] \<Rightarrow> None | value # _ \<Rightarrow> Some value) st of
          None \<Rightarrow> None
        | Some st \<Rightarrow> parse_args (tl args) st)"
  by pat_completeness auto
termination by (relation "measure (\<lambda>(args, _). length args)") (auto simp: less_Suc_eq_le)

definition DEFAULT_APPLY_SERVICE_NAME :: "('v, 'h) sup_env \<Rightarrow> ustr" where
  "DEFAULT_APPLY_SERVICE_NAME env = (if bd_windows env then ascii ''RmmAgent'' else ascii ''talos-worker'')"

definition is_apply_invocation :: "ustr list \<Rightarrow> bool" where
  "is_apply_invocation raw_args \<longleftrightarrow> ascii ''--apply'' \<in> set raw_args \<or> ascii ''--package'' \<in> set raw_args"

definition apply_args_parse :: "('v, 'h) sup_env \<Rightarrow> ustr list \<Rightarrow> ApplyArgs option" where
  "apply_args_parse env raw_args =
     (case parse_args raw_args (None, None, Some (DEFAULT_APPLY_SERVICE_NAME env), None) of
        Some (Some package_path, Some install_dir, service_name, target_version) \<Rightarrow>
          Some \<lparr>aa_package_path = package_path, aa_install_dir = install_dir,
                aa_service_name = (case service_name of None \<Rightarrow> DEFAULT_APPLY_SERVICE_NAME env | Some name \<Rightarrow> name),
                aa_target_version = nonempty_trimmed target_version\<rparr>
      | _ \<Rightarrow> None)"

section \<open>The update cycle\<close>

fun first_existing :: "fpath list \<Rightarrow> world \<Rightarrow> fpath option" where
  "first_existing [] w = None"
| "first_existing (p # ps) w = (if fs_exists p w then Some p else first_existing ps w)"

definition resolve_worker_exe :: "('v, 'h) sup_env \<Rightarrow> fpath \<Rightarrow> world \<Rightarrow> fpath option" where
  "resolve_worker_exe env worker_install_dir w =
     first_existing (map (path_join env worker_install_dir) [WORKER_EXE_NAME env, LEGACY_WORKER_EXE_NAME env]) w"

text \<open>The version file is read as text; the version in it is trimmed.\<close>

definition current_worker_version :: "('v, 'h) sup_env \<Rightarrow> SupervisorConfig \<Rightarrow> world \<Rightarrow> ustr option" where
  "current_worker_version env config w =
     (case se_worker_version_env env of
        Some version \<Rightarrow> Some version
      | None \<Rightarrow> nonempty_trimmed (Option.bind (w_files w (sc_worker_version_path config)) from_utf8))"

definition write_worker_version :: "SupervisorConfig \<Rightarrow> bytes \<Rightarrow> world \<Rightarrow> unit io" where
  "write_worker_version config version w =
     sbind (fs_touch w) (\<lambda>w _.
     sbind (fs_create (sc_worker_version_path config) w) (\<lambda>w _.
     fs_write_all (sc_worker_version_path config) version w))"

definition ensure_worker_service :: "('v, 'h) sup_env \<Rightarrow> SupervisorConfig \<Rightarrow> fpath \<Rightarrow> world \<Rightarrow> bool io" where
  "ensure_worker_service env config worker_exe w =
     (case next_fault w of
        (Fine, w) \<Rightarrow>
          (case w_running w (sc_worker_service_name config) of
             None \<Rightarrow> (w\<lparr>w_running := (w_running w)(sc_worker_service_name config \<mapsto> False)\<rparr>, Inr True)
           | Some _ \<Rightarrow> (w, Inr (se_service_changed env worker_exe)))
      | (_, w) \<Rightarrow> (w, Inl ServiceFailed))"

definition ensure_worker_service_healthy :: "('v, 'h) sup_env \<Rightarrow> SupervisorConfig \<Rightarrow> world \<Rightarrow> unit io" where
  "ensure_worker_service_healthy env config w =
     (case resolve_worker_exe env (sc_worker_install_dir config) w of
        None \<Rightarrow> (w, Inl NoWorkerExe)
      | Some worker_exe \<Rightarrow>
          sbind (case next_fault w of
                   (Fine, w) \<Rightarrow> (w, Inr (w_running w (sc_worker_service_name config)))
                 | (_, w) \<Rightarrow> (w, Inl ServiceFailed)) (\<lambda>w state.
          sbind (ensure_worker_service env config worker_exe w) (\<lambda>w service_changed.
          case state of
            Some True \<Rightarrow>
              if service_changed
              then sbind (stop_service (sc_worker_service_name config) w) (\<lambda>w _.
                   start_service (sc_worker_service_name config) w)
              else (w, Inr ())
          | _ \<Rightarrow> start_service (sc_worker_service_name config) w)))"

text \<open>The architectures in order: the first one whose manifest can be had decides, even when it has no update.\<close>

fun select_update ::
    "('v, 'h) sup_env \<Rightarrow> SupervisorConfig \<Rightarrow> ustr \<Rightarrow> ustr \<Rightarrow> update_error option \<Rightarrow> ustr list \<Rightarrow> world
     \<Rightarrow> DownloadedUpdate option io" where
  "select_update env config update_base_url current_version last_error [] w =
     (w, case last_error of None \<Rightarrow> Inr None | Some e \<Rightarrow> Inl e)"
| "select_update env config update_base_url current_version last_error (arch # rest) w =
     (case fetch_update env config update_base_url WORKER_PRODUCT arch current_version w of
        (w, Inr (Some update)) \<Rightarrow> (w, Inr (Some update))
      | (w, Inr None) \<Rightarrow> (w, case last_error of None \<Rightarrow> Inr None | Some e \<Rightarrow> Inl e)
      | (w, Inl e) \<Rightarrow> select_update env config update_base_url current_version (Some e) rest w)"

definition current_version_for_manifest :: "('v, 'h) sup_env \<Rightarrow> SupervisorConfig \<Rightarrow> world \<Rightarrow> ustr" where
  "current_version_for_manifest env config w =
     (if resolve_worker_exe env (sc_worker_install_dir config) w = None then ascii ''0.0.0''
      else case current_worker_version env config w of None \<Rightarrow> ascii ''0.0.0'' | Some version \<Rightarrow> version)"

definition install_worker_update :: "('v, 'h) sup_env \<Rightarrow> SupervisorConfig \<Rightarrow> DownloadedUpdate \<Rightarrow> world \<Rightarrow> unit io" where
  "install_worker_update env config update w =
     sbind (apply_update_package env \<lparr>aa_package_path = du_package_path update,
              aa_install_dir = sc_worker_install_dir config, aa_service_name = sc_worker_service_name config,
              aa_target_version = Some (du_version update)\<rparr> w) (\<lambda>w _.
     sbind (write_worker_version config (to_utf8 (du_version update)) w) (\<lambda>w _.
     ensure_worker_service_healthy env config w))"

definition check_worker_update :: "('v, 'h) sup_env \<Rightarrow> SupervisorConfig \<Rightarrow> ustr \<Rightarrow> world \<Rightarrow> unit io" where
  "check_worker_update env config update_base_url w =
     sbind (select_update env config update_base_url (current_version_for_manifest env config w) None
              (worker_arch_candidates env (sc_worker_arch config)) w) (\<lambda>w selected_update.
     case selected_update of
       None \<Rightarrow> (w, Inr ())
     | Some update \<Rightarrow> install_worker_update env config update w)"

definition supervisor_apply_helper_name :: "('v, 'h) sup_env \<Rightarrow> ustr" where
  "supervisor_apply_helper_name env =
     ascii ''talos_supervisor.apply.'' @ se_process_id env @ (if bd_windows env then ascii ''.exe'' else [])"

definition prepare_supervisor_apply_helper :: "('v, 'h) sup_env \<Rightarrow> fpath \<Rightarrow> world \<Rightarrow> fpath io" where
  "prepare_supervisor_apply_helper env supervisor_path w =
     (let helper_path = path_join env (path_join env (se_update_root env) (ascii ''supervisor''))
            (supervisor_apply_helper_name env) in
      sbind (fs_touch w) (\<lambda>w _.
      let w = fst (fs_remove_file helper_path w) in
      sbind (fs_copy supervisor_path helper_path w) (\<lambda>w _.
      sbind (if bd_windows env then (w, Inr ()) else sbind (fs_touch w) (\<lambda>w _. fs_touch w)) (\<lambda>w _.
      (w, Inr helper_path)))))"

definition launch_supervisor_apply_helper :: "DownloadedUpdate \<Rightarrow> world \<Rightarrow> unit io" where
  "launch_supervisor_apply_helper update w =
     io_step w (\<lambda>w. (w\<lparr>w_launched := w_launched w @ [(du_package_path update, du_version update)]\<rparr>, Inr ()))"

definition check_supervisor_update ::
    "('v, 'h) sup_env \<Rightarrow> SupervisorConfig \<Rightarrow> ustr \<Rightarrow> world \<Rightarrow> bool io" where
  "check_supervisor_update env config update_base_url w =
     sbind (fetch_update env config update_base_url SUPERVISOR_PRODUCT (se_supervisor_arch env)
              (se_package_version env) w) (\<lambda>w update.
     case update of
       None \<Rightarrow> (w, Inr False)
     | Some update \<Rightarrow>
         sbind (prepare_supervisor_apply_helper env (se_current_exe env) w) (\<lambda>w _.
         sbind (launch_supervisor_apply_helper update w) (\<lambda>w _. (w, Inr True))))"

text \<open>A cycle: a launched update of the supervisor defers the worker's. Errors are only logged.\<close>

definition run_update_cycle :: "('v, 'h) sup_env \<Rightarrow> SupervisorConfig \<Rightarrow> world \<Rightarrow> world" where
  "run_update_cycle env config w =
     (case sc_update_base_url config of
        None \<Rightarrow> w
      | Some update_base_url \<Rightarrow>
          (case check_supervisor_update env config update_base_url w of
             (w, Inr True) \<Rightarrow> w
           | (w, _) \<Rightarrow> fst (check_worker_update env config update_base_url w)))"

end
