(* ===== verification/Update_Download.thy ===== *)
theory Update_Download
  imports Update_Common
begin

text \<open>
  What the update library guarantees. A download never puts more bytes on disk than the signed size, and succeeds only
  with exactly the bytes of the answer; a failed one leaves nothing behind unless the removal fails as well. The
  digest check accepts exactly the hexadecimal digest, and the manifest check exactly the expected artifact.
\<close>

section \<open>Frame conditions\<close>

definition services :: "world \<Rightarrow> (ustr \<Rightarrow> bool option) \<times> (fpath \<times> ustr) list" where
  "services w = (w_running w, w_launched w)"

lemma services_update [simp]:
  "services (w\<lparr>w_files := fs\<rparr>) = services w" "services (w\<lparr>w_faults := ios\<rparr>) = services w"
  "services (w\<lparr>w_answers := rs\<rparr>) = services w" "services (w\<lparr>w_requests := us\<rparr>) = services w"
  by (simp_all add: services_def)

definition only_file :: "fpath \<Rightarrow> world \<Rightarrow> world \<Rightarrow> bool" where
  "only_file p w w' \<longleftrightarrow> (\<forall>q. q \<noteq> p \<longrightarrow> w_files w' q = w_files w q) \<and> services w' = services w"

lemma only_file_refl [simp]: "only_file p w w"
  by (simp add: only_file_def)

lemma only_file_trans [trans]: "only_file p w w' \<Longrightarrow> only_file p w' w'' \<Longrightarrow> only_file p w w''"
  by (simp add: only_file_def)

lemma next_fault_frame [simp]:
  "w_files (snd (next_fault w)) = w_files w" "services (snd (next_fault w)) = services w"
  by (simp_all add: next_fault_def split: list.splits)

lemma next_faultE:
  obtains f w1 where "next_fault w = (f, w1)" "w_files w1 = w_files w" "services w1 = services w"
  using next_fault_frame [of w] by (metis prod.collapse)

lemma fs_remove_file_cases:
  obtains w1 where "fs_remove_file p w = (w1, Inl IoFailed)" "w_files w1 = w_files w" "services w1 = services w"
  | w1 where "fs_remove_file p w = (w1, Inr ())" "w_files w1 = (w_files w)(p := None)" "services w1 = services w"
proof (cases rule: next_faultE [of w])
  case (1 f w1)
  then show ?thesis using that by (cases f; cases "fs_exists p w1") (auto simp: fs_remove_file_def io_step_def)
qed

lemma fs_remove_file_only: "only_file p w (fst (fs_remove_file p w))"
  by (cases rule: fs_remove_file_cases [of p w]) (simp_all add: only_file_def)

lemma fs_touch_frame:
  "fs_touch w = (w', r) \<Longrightarrow> w_files w' = w_files w \<and> services w' = services w"
  by (cases rule: next_faultE [of w]) (auto simp: fs_touch_def io_step_def split: io_fault.splits)

lemma fs_create_cases:
  obtains w1 where "fs_create p w = (w1, Inl IoFailed)" "w_files w1 = w_files w" "services w1 = services w"
  | w1 where "fs_create p w = (w1, Inr ())" "w_files w1 = (w_files w)(p := Some [])" "services w1 = services w"
proof (cases rule: next_faultE [of w])
  case (1 f w1)
  then show ?thesis using that by (cases f) (auto simp: fs_create_def io_step_def)
qed

lemma fs_write_all_cases:
  assumes "w_files w p = Some old"
  obtains w1 where "fs_write_all p chunk w = (w1, Inr ())"
      "w_files w1 = (w_files w)(p := Some (old @ chunk))" "services w1 = services w"
  | w1 k where "fs_write_all p chunk w = (w1, Inl IoFailed)"
      "w_files w1 = (w_files w)(p := Some (old @ take k chunk))" "services w1 = services w"
proof (cases rule: next_faultE [of w])
  case (1 f w1)
  show ?thesis
  proof (cases f)
    case Fine
    then show ?thesis using 1 assms by (intro that(1) [of "fs_append p chunk w1"]) (simp_all add: fs_write_all_def fs_append_def)
  next
    case Fails
    then show ?thesis using 1 assms by (intro that(2) [of w1 0]) (simp_all add: fs_write_all_def fun_upd_idem)
  next
    case (Partial k)
    then show ?thesis using 1 assms by (intro that(2) [of "fs_append p (take k chunk) w1" k]) (simp_all add: fs_write_all_def fs_append_def)
  qed
qed

lemma fs_remove_file_answers [simp]: "w_answers (fst (fs_remove_file p w)) = w_answers w"
  by (simp add: fs_remove_file_def io_step_def next_fault_def split: list.splits io_fault.splits)

lemma http_get_Inr: "http_get url w = (w', Inr response) \<Longrightarrow> Some response \<in> set (w_answers w)"
  by (auto simp: http_get_def Let_def split: list.splits option.splits)

lemma http_get_frame: "http_get url w = (w', r) \<Longrightarrow> w_files w' = w_files w \<and> services w' = services w"
  by (auto simp: http_get_def Let_def split: list.splits option.splits)

section \<open>Downloads\<close>

fun body_bytes :: "bytes option list \<Rightarrow> bytes" where
  "body_bytes (Some chunk # rest) = chunk @ body_bytes rest"
| "body_bytes _ = []"

text \<open>A chunk is a slice, so its length is a \<open>usize\<close>.\<close>

definition body_ok :: "bytes option list \<Rightarrow> bool" where
  "body_ok body \<longleftrightarrow> list_all (\<lambda>c. case c of None \<Rightarrow> True | Some chunk \<Rightarrow> length chunk < 2 ^ 64) body"

lemma write_chunks_ok:
  assumes "write_chunks dst expected actual body w = (w', r)" "w_files w dst = Some old"
    and "unat actual = length old" "actual \<le> expected" "body_ok body"
  shows "only_file dst w w' \<and> (\<exists>written rest. w_files w' dst = Some (old @ written) \<and> body_bytes body = written @ rest
    \<and> length (old @ written) \<le> unat expected
    \<and> (\<forall>n. r = Inr n \<longrightarrow> rest = [] \<and> None \<notin> set body \<and> unat n = length (old @ written)))"
  using assms
proof (induction dst expected actual body w arbitrary: old rule: write_chunks.induct)
  case (1 dst expected actual w)
  then show ?case by (auto simp: word_le_nat_alt)
next
  case (2 dst expected actual rest w)
  then show ?case by (auto simp: word_le_nat_alt)
next
  case (3 dst expected actual chunk rest w)
  have len: "unat (of_nat (length chunk) :: u64) = length chunk"
    using "3.prems"(5) by (simp add: body_ok_def unat_of_nat_bound)
  show ?case
  proof (cases "checked_add actual (of_nat (length chunk))")
    case None
    then show ?thesis using "3.prems" by (auto simp: word_le_nat_alt)
  next
    case (Some next_size)
    then have next_size: "unat next_size = length (old @ chunk)"
      using "3.prems"(3) len by (auto simp: checked_add_Some_iff unat_add_no_wrap)
    show ?thesis
    proof (cases "next_size > expected")
      case True
      then show ?thesis using "3.prems" Some by (auto simp: word_le_nat_alt)
    next
      case False
      then have fits: "length (old @ chunk) \<le> unat expected" using next_size by (simp add: not_less word_le_nat_alt)
      show ?thesis
      proof (cases rule: fs_write_all_cases [OF "3.prems"(2), of chunk])
        case (1 w1)
        then have step: "write_chunks dst expected next_size rest w1 = (w', r)" using "3.prems"(1) Some False by simp
        have ih: "only_file dst w1 w' \<and> (\<exists>written rest'. w_files w' dst = Some ((old @ chunk) @ written)
            \<and> body_bytes rest = written @ rest' \<and> length ((old @ chunk) @ written) \<le> unat expected
            \<and> (\<forall>n. r = Inr n \<longrightarrow> rest' = [] \<and> None \<notin> set rest \<and> unat n = length ((old @ chunk) @ written)))"
          using "3.IH" [OF Some False step _ next_size] 1(2) False "3.prems"(5)
          by (simp add: body_ok_def not_less)
        have "only_file dst w w1" using 1(2,3) by (simp add: only_file_def)
        then show ?thesis using ih only_file_trans by fastforce
      next
        case (2 w1 k)
        then have out: "w' = w1" "r = Inl IoFailed" using "3.prems"(1) Some False by simp_all
        have "only_file dst w w1" using 2(2,3) by (simp add: only_file_def)
        moreover have "w_files w' dst = Some (old @ take k chunk)" using 2(2) out by simp
        moreover have "body_bytes (Some chunk # rest) = take k chunk @ (drop k chunk @ body_bytes rest)" by simp
        moreover have "length (old @ take k chunk) \<le> unat expected" using fits by simp
        ultimately show ?thesis unfolding out by blast
      qed
    qed
  qed
qed

lemma write_package_ok:
  assumes "write_package dst expected body w = (w', r)" "body_ok body"
  shows "only_file dst w w' \<and>
    (w_files w' dst = w_files w dst \<and> r \<noteq> Inr () \<or>
     (\<exists>written rest. w_files w' dst = Some written \<and> body_bytes body = written @ rest \<and> length written \<le> unat expected
        \<and> (r = Inr () \<longrightarrow> rest = [] \<and> None \<notin> set body \<and> length written = unat expected \<and> expected \<noteq> 0)))"
proof (cases rule: fs_create_cases [of dst w])
  case (1 w1)
  then show ?thesis using assms(1) by (auto simp: write_package_def only_file_def)
next
  case (2 w1)
  obtain w2 r2 where chunks: "write_chunks dst expected 0 body w1 = (w2, r2)" by (cases "write_chunks dst expected 0 body w1")
  have frame: "only_file dst w w1" using 2(2,3) by (simp add: only_file_def)
  obtain written rest where ok: "only_file dst w1 w2" "w_files w2 dst = Some written" "body_bytes body = written @ rest"
      "length written \<le> unat expected"
      "\<forall>n. r2 = Inr n \<longrightarrow> rest = [] \<and> None \<notin> set body \<and> unat n = length written"
    using write_chunks_ok [OF chunks, of "[]"] 2(2) assms(2) by auto
  obtain w3 r3 where touch: "fs_touch w2 = (w3, r3)" by (cases "fs_touch w2")
  have w3: "w_files w3 = w_files w2" "only_file dst w2 w3" using fs_touch_frame [OF touch] by (simp_all add: only_file_def)
  have out: "(w', r) = sbind (w2, r2) (\<lambda>w actual. sbind (fs_touch w) (\<lambda>w _. (w, verify_package_size expected actual)))"
    using assms(1) 2(1) chunks by (simp add: write_package_def)
  have only: "only_file dst w w'" and content: "w_files w' dst = Some written"
    using out ok(1,2) touch w3 only_file_trans [OF frame ok(1)] only_file_trans [OF only_file_trans [OF frame ok(1)] w3(2)]
    by (cases r2; cases r3; simp)+
  have "rest = [] \<and> None \<notin> set body \<and> length written = unat expected \<and> expected \<noteq> 0" if success: "r = Inr ()"
  proof -
    obtain n where n: "r2 = Inr n" using out success by (cases r2) auto
    have "verify_package_size expected n = Inr ()" using out success n touch by (cases r3) auto
    then have "n = expected" "expected \<noteq> 0"
      by (auto simp: verify_package_size_def validate_package_size_def split: if_splits)
    then show ?thesis using ok(5) n by auto
  qed
  then show ?thesis using only content ok(3,4) by blast
qed

lemma download_file_ok:
  assumes "download_file url dst expected w = (w', r)"
    and bodies: "\<And>response. Some response \<in> set (w_answers w) \<Longrightarrow> body_ok (hr_body response)"
  shows "only_file dst w w'
    \<and> (case r of
        Inr _ \<Rightarrow> \<exists>response content. Some response \<in> set (w_answers w) \<and> None \<notin> set (hr_body response)
          \<and> content = body_bytes (hr_body response) \<and> w_files w' dst = Some content
          \<and> length content = unat expected \<and> 0 < length content
      | Inl e \<Rightarrow> w_files w' dst = None \<or> w_files w' dst = w_files w dst
          \<or> (\<exists>content. w_files w' dst = Some content \<and> length content \<le> unat expected))"
proof (cases "validate_package_size expected")
  case (Inl e)
  then have "w' = w" "r = Inl e" using assms(1) by (simp_all add: download_file_def)
  then show ?thesis by simp
next
  case (Inr u)
  define w1 where "w1 = fst (fs_remove_file dst w)"
  have w1: "only_file dst w w1" "w_files w1 dst = None \<or> w_files w1 dst = w_files w dst"
    unfolding w1_def using fs_remove_file_only by (auto intro: fs_remove_file_cases [of dst w])
  obtain w2 r2 where get: "http_get url w1 = (w2, r2)" by (cases "http_get url w1")
  have w2: "only_file dst w w2" "w_files w2 dst = None \<or> w_files w2 dst = w_files w dst"
    using http_get_frame [OF get] w1 by (simp_all add: only_file_def)
  have down: "(w', r) = sbind (w2, r2) (\<lambda>w response.
      sbind (w, error_for_status response) (\<lambda>w response.
      sbind (w, case hr_content_length response of
                 None \<Rightarrow> Inr () | Some content_length \<Rightarrow> verify_package_size expected content_length) (\<lambda>w _.
      sbind (fs_touch w) (\<lambda>w _.
      case write_package dst expected (hr_body response) w of
        (w, Inl e) \<Rightarrow> (fst (fs_remove_file dst w), Inl e)
      | (w, Inr u) \<Rightarrow> (w, Inr ())))))"
    using assms(1) Inr get by (simp add: download_file_def w1_def)
  define checked where "checked response = rbind (error_for_status response) (\<lambda>response.
      case hr_content_length response of None \<Rightarrow> Inr () | Some len \<Rightarrow> verify_package_size expected len)" for response
  show ?thesis
  proof (cases "\<exists>response w3. r2 = Inr response \<and> checked response = Inr () \<and> fs_touch w2 = (w3, Inr ())")
    case False
    have "w_files w' = w_files w2 \<and> services w' = services w2 \<and> (\<exists>e. r = Inl e)"
    proof (cases r2)
      case (Inl e)
      then show ?thesis using down by simp
    next
      case r2: (Inr response)
      show ?thesis
      proof (cases "checked response")
        case (Inl e)
        then show ?thesis using down r2 by (auto simp: checked_def error_for_status_def split: if_splits)
      next
        case (Inr u)
        obtain w3 r3 where touch: "fs_touch w2 = (w3, r3)" by (cases "fs_touch w2")
        then obtain e where "r3 = Inl e" using False r2 Inr by (cases r3) auto
        then show ?thesis
          using down r2 Inr touch fs_touch_frame [OF touch] by (auto simp: checked_def error_for_status_def split: if_splits)
      qed
    qed
    then show ?thesis using w2 by (auto simp: only_file_def)
  next
    case True
    then obtain response w3 where response: "r2 = Inr response" "checked response = Inr ()" "fs_touch w2 = (w3, Inr ())"
      by blast
    have asked: "Some response \<in> set (w_answers w)" using http_get_Inr get response(1) by (metis fs_remove_file_answers w1_def)
    have w3: "only_file dst w w3" "w_files w3 dst = None \<or> w_files w3 dst = w_files w dst"
      using fs_touch_frame [OF response(3)] w2 by (simp_all add: only_file_def)
    obtain w4 r4 where put: "write_package dst expected (hr_body response) w3 = (w4, r4)"
      by (cases "write_package dst expected (hr_body response) w3")
    note written = write_package_ok [OF put bodies [OF asked]]
    have out: "(w', r) = (case r4 of Inl e \<Rightarrow> (fst (fs_remove_file dst w4), Inl e) | Inr _ \<Rightarrow> (w4, Inr ()))"
      using down response put by (auto simp: checked_def error_for_status_def split: if_splits sum.splits)
    have w4: "only_file dst w w4" using written only_file_trans w3(1) by blast
    show ?thesis
    proof (cases r4)
      case (Inl e)
      then have out': "w' = fst (fs_remove_file dst w4)" "r = Inl e" using out by simp_all
      then have "w_files w' dst = None \<or> w_files w' dst = w_files w4 dst"
        by (auto intro: fs_remove_file_cases [of dst w4])
      then show ?thesis
        using written w3(2) only_file_trans [OF w4 fs_remove_file_only] out' by auto
    next
      case (Inr u)
      then have success: "w' = w4" "r = Inr ()" using out by simp_all
      then have "None \<notin> set (hr_body response)" "w_files w' dst = Some (body_bytes (hr_body response))"
          "length (body_bytes (hr_body response)) = unat expected" "unat expected \<noteq> 0"
        using written Inr by (auto simp: unsigned_eq_0_iff)
      then show ?thesis using success w4 asked by (auto intro!: exI [of _ response])
    qed
  qed
qed

text \<open>C22. A download is exact and bounded. It succeeds only when an answer was read to its end and the file
  then holds exactly the bytes of that answer, which are as many as the signed size. When it fails, the
  file is gone, or unchanged, or (when its removal failed too) holds at most as many bytes as the
  signed size. No other file changes.\<close>

theorem download_exact:
  assumes "download_file url dst expected w = (w', r)"
    and "\<And>response. Some response \<in> set (w_answers w) \<Longrightarrow> body_ok (hr_body response)"
  shows "only_file dst w w'
    \<and> (case r of
        Inr _ \<Rightarrow> \<exists>response content. Some response \<in> set (w_answers w) \<and> None \<notin> set (hr_body response)
          \<and> content = body_bytes (hr_body response) \<and> w_files w' dst = Some content
          \<and> length content = unat expected \<and> 0 < length content
      | Inl e \<Rightarrow> w_files w' dst = None \<or> w_files w' dst = w_files w dst
          \<or> (\<exists>content. w_files w' dst = Some content \<and> length content \<le> unat expected))"
  using assms by (rule download_file_ok)

definition witness_answer :: http_response where
  "witness_answer = \<lparr>hr_status = 200, hr_content_length = Some 3, hr_signature = None, hr_key_id = None, hr_etag = None,
     hr_body = [Some [7, 8], Some [9]]\<rparr>"

definition witness_world :: world where
  "witness_world = \<lparr>w_files = (\<lambda>_. None), w_faults = [], w_answers = [Some witness_answer], w_requests = [],
     w_running = (\<lambda>_. None), w_launched = []\<rparr>"

lemma witness_download:
  "download_file (ascii ''u'') (ascii ''p'') 3 witness_world
   = (\<lparr>w_files = [ascii ''p'' \<mapsto> [7, 8, 9]], w_faults = [], w_answers = [], w_requests = [ascii ''u''],
       w_running = (\<lambda>_. None), w_launched = []\<rparr>, Inr ())"
  by (simp add: download_file_def validate_package_size_def fs_remove_file_def io_step_def next_fault_def fs_exists_def
      http_get_def error_for_status_def verify_package_size_def fs_touch_def write_package_def fs_create_def
      fs_write_all_def fs_append_def witness_world_def witness_answer_def Let_def checked_add_def)

lemma download_exact_witness:
  "\<exists>content. w_files (fst (download_file (ascii ''u'') (ascii ''p'') 3 witness_world)) (ascii ''p'') = Some content
     \<and> length content = 3"
proof -
  have "body_ok (hr_body response)" if "Some response \<in> set (w_answers witness_world)" for response
    using that by (simp add: witness_world_def witness_answer_def body_ok_def)
  from download_exact [OF witness_download this] show ?thesis unfolding witness_download by auto
qed

section \<open>Digests\<close>

text \<open>A hash that may be fed in pieces.\<close>

definition streaming_hash :: "('v, 'h) update_env \<Rightarrow> bool" where
  "streaming_hash env \<longleftrightarrow> (\<forall>h. ue_hash_update env h [] = h)
     \<and> (\<forall>h a b. ue_hash_update env (ue_hash_update env h a) b = ue_hash_update env h (a @ b))"

lemma hash_blocks_stream: "streaming_hash env \<Longrightarrow> hash_blocks env h content = ue_hash_update env h content"
proof (induction env h content rule: hash_blocks.induct)
  case (1 env h content)
  show ?case
  proof (cases "content = []")
    case True
    then show ?thesis using 1(2) by (subst hash_blocks.simps) (simp add: streaming_hash_def)
  next
    case False
    have "hash_blocks env h content = hash_blocks env (ue_hash_update env h (take 65536 content)) (drop 65536 content)"
      using False by (subst hash_blocks.simps) simp
    also have "\<dots> = ue_hash_update env (ue_hash_update env h (take 65536 content)) (drop 65536 content)"
      using 1(1) [OF False 1(2)] .
    also have "\<dots> = ue_hash_update env h content"
      using 1(2) by (metis append_take_drop_id streaming_hash_def)
    finally show ?thesis .
  qed
qed

lemma hex_digit_lower: "d < 16 \<Longrightarrow> to_ascii_lowercase_char (hex_digit d) = hex_digit d"
  by (simp add: hex_digit_def to_ascii_lowercase_char_def)

lemma hex_lower_lower: "to_ascii_lowercase (hex_lower bs) = hex_lower bs"
proof (induction bs)
  case (Cons b bs)
  have "unat b div 16 < 16" using unat_bound [of b] by (simp add: less_mult_imp_div_less)
  then show ?case using Cons by (simp add: to_ascii_lowercase_def hex_digit_lower)
qed (simp add: to_ascii_lowercase_def)

lemma verify_package_sha256_ok:
  "verify_package_sha256 expected (hex_lower digest) = Inr () \<Longrightarrow> to_ascii_lowercase expected = hex_lower digest"
  by (auto simp: verify_package_sha256_def validate_sha256_def eq_ignore_ascii_case_def hex_lower_lower split: if_splits)

lemma hex_digit_inject: "a < 16 \<Longrightarrow> b < 16 \<Longrightarrow> hex_digit a = hex_digit b \<longleftrightarrow> a = b"
  by (auto simp: hex_digit_def)

lemma hex_lower_inject: "hex_lower a = hex_lower b \<longleftrightarrow> a = b"
proof (induction a arbitrary: b)
  case Nil
  then show ?case by (cases b) simp_all
next
  case (Cons x a)
  show ?case
  proof (cases b)
    case (Cons y b')
    have lt: "unat x div 16 < 16" "unat y div 16 < 16"
      using unat_bound [of x] unat_bound [of y] by (simp_all add: less_mult_imp_div_less)
    have "unat x div 16 = unat y div 16 \<and> unat x mod 16 = unat y mod 16 \<longleftrightarrow> x = y"
      by (metis div_mult_mod_eq word_unat_eq_iff)
    then show ?thesis using Cons.IH lt Cons by (auto simp: hex_digit_inject)
  qed simp
qed

section \<open>Manifests\<close>

lemma validate_manifest_context_iff:
  "validate_manifest_context manifest expected = Inr () \<longleftrightarrow>
     um_product manifest = ux_product expected \<and> um_platform manifest = ux_platform expected
     \<and> um_arch manifest = ux_arch expected \<and> um_channel manifest = ux_channel expected
     \<and> um_install_mode manifest = ux_install_mode expected
     \<and> ua_file_name (um_package manifest) = ux_package_file_name expected
     \<and> um_ring manifest = ux_ring expected \<and> ua_size_bytes (um_package manifest) \<noteq> 0
     \<and> is_sha256_hex (ua_sha256 (um_package manifest))"
  by (auto simp: validate_manifest_context_def context_fields_def validate_package_size_def validate_sha256_def
      split: if_splits)

lemma for_artifact_fields:
  "for_artifact product arch channel ring = Inr expected \<Longrightarrow>
     ux_product expected = product \<and> ux_arch expected = arch \<and> ux_channel expected = channel \<and> ux_ring expected = ring
     \<and> platform_of_arch arch = Inr (ux_platform expected)"
  by (auto simp: for_artifact_def Let_def res_simps)

end
