(* ===== verification/Supervisor_Update.thy ===== *)
theory Supervisor_Update
  imports Supervisor Update_Download
begin

text \<open>
  What the supervisor guarantees: a worker is touched only by a package that a signed, matching and newer manifest
  describes byte for byte, a cycle launches a new supervisor only for such a package, and replacing a file never
  loses the old version without having the new one.
\<close>

section \<open>Frame conditions\<close>

lemma only_file_sbind:
  assumes "only_file p w (fst m)" and "\<And>w1 a. m = (w1, Inr a) \<Longrightarrow> only_file p w1 (fst (f w1 a))"
  shows "only_file p w (fst (sbind m f))"
proof (cases m)
  case (Pair w1 r)
  show ?thesis
  proof (cases r)
    case (Inl e)
    then show ?thesis using Pair assms(1) by simp
  next
    case (Inr a)
    then have "only_file p w w1" "only_file p w1 (fst (f w1 a))" using Pair assms by simp_all
    then show ?thesis using Pair Inr only_file_trans by simp
  qed
qed

lemma only_file_touch: "only_file p w (fst (fs_touch w))"
  by (cases "fs_touch w") (simp add: only_file_def fs_touch_frame)

lemma only_file_create: "only_file p w (fst (fs_create p w))"
  by (cases rule: fs_create_cases [of p w]) (simp_all add: only_file_def)

lemma only_file_write_all: "only_file p w (fst (fs_write_all p chunk w))"
  by (cases rule: next_faultE [of w])
    (auto simp: fs_write_all_def fs_append_def only_file_def split: io_fault.splits)

lemma only_file_write_chunks: "only_file p w (fst (write_chunks p expected actual body w))"
proof (induction p expected actual body w rule: write_chunks.induct)
  case (3 p expected actual chunk rest w)
  show ?case
  proof (cases "checked_add actual (of_nat (length chunk))")
    case (Some n)
    have "only_file p w (fst (sbind (fs_write_all p chunk w) (\<lambda>w _. write_chunks p expected n rest w)))" if "\<not> expected < n"
      using "3.IH" [OF Some that] by (rule only_file_sbind [OF only_file_write_all])
    then show ?thesis using Some by (cases "expected < n") simp_all
  qed simp
qed simp_all

lemma only_file_write_package: "only_file p w (fst (write_package p expected body w))"
  unfolding write_package_def
  by (rule only_file_sbind [OF only_file_create], rule only_file_sbind [OF only_file_write_chunks],
      rule only_file_sbind [OF only_file_touch]) simp

lemma only_file_http_get: "only_file p w (fst (http_get url w))"
  by (cases "http_get url w") (simp add: only_file_def http_get_frame)

lemma only_file_download: "only_file p w (fst (download_file url p expected w))"
proof -
  have put: "only_file p w (fst (case write_package p expected body w of
        (w, Inl e) \<Rightarrow> (fst (fs_remove_file p w), Inl e) | (w, Inr u) \<Rightarrow> (w, Inr ())))" for w body
    using only_file_write_package [of p w expected body] only_file_trans [OF _ fs_remove_file_only]
    by (auto split: prod.splits sum.splits)
  have get: "only_file p w (fst (sbind (http_get url w) (\<lambda>w response.
      sbind (w, error_for_status response) (\<lambda>w response.
      sbind (w, case hr_content_length response of
                 None \<Rightarrow> Inr () | Some content_length \<Rightarrow> verify_package_size expected content_length) (\<lambda>w _.
      sbind (fs_touch w) (\<lambda>w _.
      case write_package p expected (hr_body response) w of
        (w, Inl e) \<Rightarrow> (fst (fs_remove_file p w), Inl e)
      | (w, Inr u) \<Rightarrow> (w, Inr ()))))))) " for w
    by (rule only_file_sbind [OF only_file_http_get], rule only_file_sbind, simp, rule only_file_sbind, simp,
        rule only_file_sbind [OF only_file_touch], rule put)
  show ?thesis
    unfolding download_file_def Let_def
    by (rule only_file_sbind) (simp, rule only_file_trans [OF fs_remove_file_only get])
qed

text \<open>A request tried several times: its result is that of the last try.\<close>

lemma with_retry_last:
  assumes step: "\<And>w. R w (fst (request w))" and refl: "\<And>w. R w w" and trans: "\<And>a b c. R a b \<Longrightarrow> R b c \<Longrightarrow> R a c"
  shows "\<exists>w0. R w w0 \<and> with_retry n request w = request w0"
proof (induction n arbitrary: w)
  case 0
  have "with_retry 0 request w = request w"
    by (subst with_retry.simps) (auto split: prod.splits sum.splits)
  then show ?case using refl by metis
next
  case (Suc n)
  obtain w1 r where w1: "request w = (w1, r)" by (cases "request w")
  show ?case
  proof (cases "\<exists>e. r = Inl e \<and> 1 < Suc n")
    case True
    then have "with_retry (Suc n) request w = with_retry n request w1"
      using w1 by (subst with_retry.simps) auto
    then show ?thesis using Suc [of w1] trans step [of w] w1 by (metis fst_conv)
  next
    case False
    then have "with_retry (Suc n) request w = request w"
      using w1 by (subst with_retry.simps) (auto split: sum.splits)
    then show ?thesis using refl by blast
  qed
qed

section \<open>Verified packages\<close>

definition verified_package ::
    "('v, 'h) sup_env \<Rightarrow> SupervisorConfig \<Rightarrow> ustr \<Rightarrow> ustr \<Rightarrow> ustr \<Rightarrow> ustr \<Rightarrow> bytes \<Rightarrow> bool" where
  "verified_package env config product arch current_version version content \<longleftrightarrow>
     (\<exists>manifest_bytes manifest signature.
        se_public_key env \<noteq> [] \<and> ue_rsa_verify (se_update env) (se_public_key env) manifest_bytes signature
        \<and> ue_parse_manifest (se_update env) manifest_bytes = Some manifest
        \<and> um_product manifest = product \<and> um_arch manifest = arch
        \<and> platform_of_arch arch = Inr (um_platform manifest)
        \<and> um_channel manifest = sc_channel config \<and> um_ring manifest = sc_ring config
        \<and> um_version manifest = version
        \<and> is_update_newer (se_update env) current_version version = Inr True
        \<and> ua_size_bytes (um_package manifest) = of_nat (length content) \<and> ua_size_bytes (um_package manifest) \<noteq> 0
        \<and> to_ascii_lowercase (ua_sha256 (um_package manifest)) = sha256_hex_bytes (se_update env) content)"

text \<open>What a fetch may change on disk: the download files of its product and architecture.\<close>

definition only_downloads :: "('v, 'h) sup_env \<Rightarrow> ustr \<Rightarrow> ustr \<Rightarrow> world \<Rightarrow> world \<Rightarrow> bool" where
  "only_downloads env product arch w w' \<longleftrightarrow>
     (\<forall>p. (\<forall>version. p \<noteq> update_download_path env product arch version) \<longrightarrow> w_files w' p = w_files w p)
     \<and> services w' = services w"

lemma only_downloads_refl: "only_downloads env product arch w w"
  by (simp add: only_downloads_def)

lemma only_downloads_trans:
  "only_downloads env product arch a b \<Longrightarrow> only_downloads env product arch b c \<Longrightarrow> only_downloads env product arch a c"
  by (simp add: only_downloads_def)

lemma only_file_downloads:
  "only_file (update_download_path env product arch version) w w' \<Longrightarrow> only_downloads env product arch w w'"
  by (simp add: only_file_def only_downloads_def)

lemma fs_read_frame: "fs_read p w = (w', r) \<Longrightarrow> w_files w' = w_files w \<and> services w' = services w"
  by (cases rule: next_faultE [of w]) (auto simp: fs_read_def io_step_def split: io_fault.splits)

lemma fs_read_Inr: "fs_read p w = (w', Inr content) \<Longrightarrow> w_files w p = Some content"
  by (cases rule: next_faultE [of w]) (auto simp: fs_read_def io_step_def split: io_fault.splits option.splits)

lemma sha256_hex_file_ok:
  assumes "sha256_hex_file env p w = (w', Inr h)" "streaming_hash env" "w_files w p = Some content"
  shows "h = sha256_hex_bytes env content \<and> w_files w' = w_files w \<and> services w' = services w"
proof -
  obtain content' where read: "fs_read p w = (w', Inr content')"
      and h: "h = hex_lower (ue_hash_finalize env (hash_blocks env (ue_hash_new env) content'))"
    using assms(1) by (auto simp: sha256_hex_file_def res_simps)
  then show ?thesis
    using fs_read_Inr [OF read] fs_read_frame [OF read] assms(2,3)
    by (simp add: sha256_hex_bytes_def hash_blocks_stream)
qed

lemma sha256_hex_file_frame: "sha256_hex_file env p w = (w', r) \<Longrightarrow> w_files w' = w_files w \<and> services w' = services w"
proof -
  assume hash: "sha256_hex_file env p w = (w', r)"
  obtain w1 r1 where read: "fs_read p w = (w1, r1)" by (cases "fs_read p w")
  then have "w1 = w'" using hash by (cases r1) (simp_all add: sha256_hex_file_def)
  then show ?thesis using fs_read_frame [OF read] by simp
qed

lemma download_package_frame:
  "only_downloads env product arch w (fst (download_package env config base product arch manifest w))"
proof -
  let ?p = "update_download_path env product arch (um_version manifest)"
  have read: "only_file ?p w (fst (fs_read ?p w))" for w
    by (cases "fs_read ?p w") (simp add: only_file_def fs_read_frame)
  have hash: "only_file ?p w (fst (sha256_hex_file (se_update env) ?p w))" for w
    by (cases "sha256_hex_file (se_update env) ?p w") (simp add: only_file_def sha256_hex_file_frame)
  have "\<exists>w0. only_file ?p w w0 \<and> download_file_with_retry url ?p n w = download_file url ?p n w0" for url n w
    unfolding download_file_with_retry_def
    by (rule with_retry_last [where R = "only_file ?p"]) (blast intro: only_file_download only_file_refl only_file_trans)+
  then have down: "only_file ?p w (fst (download_file_with_retry url ?p n w))" for url n w
    using only_file_download only_file_trans by metis
  have "only_file ?p w (fst (download_package env config base product arch manifest w))"
    unfolding download_package_def Let_def
    by (rule only_file_sbind [OF down], rule only_file_sbind [OF read], rule only_file_sbind, simp,
        rule only_file_sbind [OF hash], rule only_file_sbind) simp_all
  then show ?thesis by (rule only_file_downloads)
qed

lemma download_package_ok:
  assumes "download_package env config base product arch manifest w = (w', Inr update)" "streaming_hash (se_update env)"
  shows "du_version update = um_version manifest \<and> (\<exists>content. w_files w' (du_package_path update) = Some content
    \<and> ua_size_bytes (um_package manifest) = of_nat (length content)
    \<and> to_ascii_lowercase (ua_sha256 (um_package manifest)) = sha256_hex_bytes (se_update env) content)"
proof -
  let ?p = "update_download_path env product arch (um_version manifest)"
  obtain w1 w2 w3 content h where read: "fs_read ?p w1 = (w2, Inr content)"
      and size: "verify_package_size (ua_size_bytes (um_package manifest)) (of_nat (length content)) = Inr ()"
      and hash: "sha256_hex_file (se_update env) ?p w2 = (w3, Inr h)"
      and sha: "verify_package_sha256 (ua_sha256 (um_package manifest)) h = Inr ()"
      and out: "w' = w3" "update = \<lparr>du_version = um_version manifest, du_package_path = ?p\<rparr>"
    using assms(1) by (auto simp: download_package_def Let_def res_simps)
  have content: "w_files w2 ?p = Some content" using fs_read_Inr [OF read] fs_read_frame [OF read] by simp
  note h = sha256_hex_file_ok [OF hash assms(2) content]
  have "to_ascii_lowercase (ua_sha256 (um_package manifest)) = sha256_hex_bytes (se_update env) content"
    using sha h verify_package_sha256_ok by (simp add: sha256_hex_bytes_def)
  moreover have "ua_size_bytes (um_package manifest) = of_nat (length content)"
    using size by (auto simp: verify_package_size_def res_simps split: if_splits)
  ultimately show ?thesis using out h content by simp
qed

lemma fetch_manifest_frame:
  "w_files (fst (fetch_manifest env url w)) = w_files w \<and> services (fst (fetch_manifest env url w)) = services w"
proof -
  obtain w1 r where get: "http_get url w = (w1, r)" by (cases "http_get url w")
  then have "fst (fetch_manifest env url w) = w1" by (cases r) (simp_all add: fetch_manifest_def)
  then show ?thesis using http_get_frame [OF get] by simp
qed

lemma fetch_manifest_Signed:
  "fetch_manifest env url w = (w', Inr (Signed sm)) \<Longrightarrow> ue_parse_manifest env (sm_manifest_bytes sm) = Some (sm_manifest sm)"
  by (auto simp: fetch_manifest_def res_simps split: if_splits sum.splits option.splits)

lemma fetch_manifest_with_retry_ok:
  assumes "fetch_manifest_with_retry env url w = (w', r)"
  shows "w_files w' = w_files w \<and> services w' = services w
    \<and> (\<forall>sm. r = Inr (Signed sm) \<longrightarrow> ue_parse_manifest (se_update env) (sm_manifest_bytes sm) = Some (sm_manifest sm))"
proof -
  let ?R = "\<lambda>a b. w_files b = w_files a \<and> services b = services a"
  have "\<exists>w0. ?R w w0 \<and> fetch_manifest_with_retry env url w = fetch_manifest (se_update env) url w0"
    unfolding fetch_manifest_with_retry_def
    by (rule with_retry_last [where R = ?R]) (use fetch_manifest_frame in auto)
  then obtain w0 where "?R w w0" "fetch_manifest (se_update env) url w0 = (w', r)" using assms by metis
  then show ?thesis using fetch_manifest_frame [of "se_update env" url w0] fetch_manifest_Signed by auto
qed

lemma sbind_pure: "sbind (w, x) f = (case x of Inl e \<Rightarrow> (w, Inl e) | Inr a \<Rightarrow> f w a)"
  by (cases x) simp_all

lemma fst_sbind_ret: "fst (sbind m (\<lambda>w a. (w, Inr (g a)))) = fst m"
  by (cases m; cases "snd m") auto

lemma fetch_update_frame: "only_downloads env product arch w (fst (fetch_update env config base product arch current w))"
proof -
  obtain w1 r where fetch: "fetch_manifest_with_retry env (build_manifest_url env config base product arch current) w = (w1, r)"
    by (cases "fetch_manifest_with_retry env (build_manifest_url env config base product arch current) w")
  have w1: "only_downloads env product arch w w1"
    using fetch_manifest_with_retry_ok [OF fetch] by (simp add: only_downloads_def)
  have "fst (fetch_update env config base product arch current w) = w1 \<or>
      (\<exists>manifest. fst (fetch_update env config base product arch current w)
        = fst (download_package env config base product arch manifest w1))"
    unfolding fetch_update_def fetch sbind_pure
    by (auto simp: fst_sbind_ret split: sum.splits ManifestFetchResult.splits)
  then show ?thesis using w1 download_package_frame only_downloads_trans by metis
qed

lemma fetch_update_ok:
  assumes "fetch_update env config base product arch current w = (w', Inr (Some update))" "streaming_hash (se_update env)"
  shows "\<exists>content. w_files w' (du_package_path update) = Some content
    \<and> verified_package env config product arch current (du_version update) content"
proof -
  obtain w1 r where fetch0: "fetch_manifest_with_retry env (build_manifest_url env config base product arch current) w = (w1, r)"
    by (cases "fetch_manifest_with_retry env (build_manifest_url env config base product arch current) w")
  obtain fetched where r: "r = Inr fetched" using assms(1) fetch0 by (cases r) (simp_all add: fetch_update_def)
  obtain sm where sm: "fetched = Signed sm" using assms(1) fetch0 r by (cases fetched) (simp_all add: fetch_update_def)
  note fetch = fetch0 [unfolded r sm]
  obtain expected
    where signature: "verify_manifest_signature (se_update env) (se_public_key env) (sm_manifest_bytes sm)
        (sm_signature_b64 sm) = Inr ()"
      and expected: "for_artifact product arch (sc_channel config) (sc_ring config) = Inr expected"
      and ctxt: "validate_manifest_context (sm_manifest sm) expected = Inr ()"
      and newer: "is_update_newer (se_update env) current (um_version (sm_manifest sm)) = Inr True"
      and package: "download_package env config base product arch (sm_manifest sm) w1 = (w', Inr update)"
    using assms(1) fetch by (auto simp: fetch_update_def res_simps split: if_splits)
  have "se_public_key env \<noteq> []" "\<exists>sig. ue_rsa_verify (se_update env) (se_public_key env) (sm_manifest_bytes sm) sig"
    using signature by (auto simp: verify_manifest_signature_def res_simps split: if_splits)
  moreover have "ue_parse_manifest (se_update env) (sm_manifest_bytes sm) = Some (sm_manifest sm)"
    using fetch_manifest_with_retry_ok [OF fetch] by blast
  ultimately show ?thesis
    using for_artifact_fields [OF expected] ctxt [unfolded validate_manifest_context_iff] newer
      download_package_ok [OF package assms(2)]
    unfolding verified_package_def by fastforce
qed

section \<open>The worker's update\<close>

definition only_worker_downloads :: "('v, 'h) sup_env \<Rightarrow> world \<Rightarrow> world \<Rightarrow> bool" where
  "only_worker_downloads env w w' \<longleftrightarrow>
     (\<forall>p. (\<forall>arch version. p \<noteq> update_download_path env WORKER_PRODUCT arch version) \<longrightarrow> w_files w' p = w_files w p)
     \<and> services w' = services w"

lemma only_worker_downloads_step:
  "only_downloads env WORKER_PRODUCT arch w w1 \<Longrightarrow> only_worker_downloads env w1 w' \<Longrightarrow> only_worker_downloads env w w'"
  by (simp add: only_downloads_def only_worker_downloads_def)

lemma select_update_ok:
  assumes "select_update env config base current last_error archs w = (w', r)" "streaming_hash (se_update env)"
  shows "only_worker_downloads env w w' \<and> (\<forall>update. r = Inr (Some update) \<longrightarrow>
    (\<exists>arch content. arch \<in> set archs \<and> w_files w' (du_package_path update) = Some content
      \<and> verified_package env config WORKER_PRODUCT arch current (du_version update) content))"
  using assms(1)
proof (induction archs arbitrary: last_error w)
  case Nil
  then show ?case by (auto simp: only_worker_downloads_def split: option.splits)
next
  case (Cons arch archs)
  obtain w1 r1 where fetch: "fetch_update env config base WORKER_PRODUCT arch current w = (w1, r1)"
    by (cases "fetch_update env config base WORKER_PRODUCT arch current w")
  have frame: "only_downloads env WORKER_PRODUCT arch w w1" using fetch_update_frame fetch by (metis fst_conv)
  have self: "only_worker_downloads env w1 w1" by (simp add: only_worker_downloads_def)
  show ?case
  proof (cases r1)
    case (Inl e)
    then have "select_update env config base current (Some e) archs w1 = (w', r)" using Cons.prems fetch by simp
    from Cons.IH [OF this] show ?thesis using only_worker_downloads_step [OF frame] by auto blast
  next
    case (Inr selected)
    show ?thesis
    proof (cases selected)
      case None
      then have "w' = w1" "r \<noteq> Inr (Some update)" for update
        using Cons.prems fetch Inr by (auto split: option.splits)
      then show ?thesis using only_worker_downloads_step [OF frame self] by auto
    next
      case (Some update)
      then have out: "w' = w1" "r = Inr (Some update)" using Cons.prems fetch Inr by auto
      then show ?thesis
        using only_worker_downloads_step [OF frame self] fetch_update_ok [OF fetch [unfolded Inr Some] assms(2)] by auto
    qed
  qed
qed

text \<open>C1. Looking for an update of the worker touches nothing but its download files, unless it installs a package.
  It installs a package only when the file holds exactly the bytes that a manifest describes which the embedded key
  signed, which is meant for this product, architecture, platform, channel and ring, and whose version is newer
  than the installed one; for every answer of the server and every failure of the disk.\<close>

theorem worker_installs_only_verified:
  assumes "streaming_hash (se_update env)" and "check_worker_update env config base w = (w', r)"
  shows "only_worker_downloads env w w' \<or>
    (\<exists>arch update w1 content. arch \<in> set (worker_arch_candidates env (sc_worker_arch config))
       \<and> only_worker_downloads env w w1 \<and> w_files w1 (du_package_path update) = Some content
       \<and> verified_package env config WORKER_PRODUCT arch (current_version_for_manifest env config w)
           (du_version update) content
       \<and> install_worker_update env config update w1 = (w', r))"
proof -
  obtain w1 r1 where select: "select_update env config base (current_version_for_manifest env config w) None
      (worker_arch_candidates env (sc_worker_arch config)) w = (w1, r1)"
    by (cases "select_update env config base (current_version_for_manifest env config w) None
      (worker_arch_candidates env (sc_worker_arch config)) w")
  note ok = select_update_ok [OF select assms(1)]
  show ?thesis
  proof (cases "\<exists>update. r1 = Inr (Some update)")
    case True
    then obtain update where update: "r1 = Inr (Some update)" ..
    then have "install_worker_update env config update w1 = (w', r)"
      using assms(2) select by (simp add: check_worker_update_def)
    then show ?thesis using ok update by blast
  next
    case False
    then have "w' = w1" using assms(2) select
      by (cases r1) (auto simp: check_worker_update_def split: option.splits)
    then show ?thesis using ok by blast
  qed
qed

definition witness_manifest :: UpdateManifest where
  "witness_manifest = \<lparr>um_product = ascii ''worker'', um_platform = ascii ''linux'', um_arch = ascii ''linux-x64'',
     um_channel = ascii ''stable'', um_ring = None, um_version = ascii ''2'', um_minimum_supported_version = None,
     um_severity = ascii ''normal'', um_published_at_utc = [], um_rollout_percentage = None,
     um_package = \<lparr>ua_file_name = ascii ''Talos.Worker.linux-x64.Update.zip'', ua_size_bytes = 3,
       ua_sha256 = hex_lower (replicate 32 7)\<rparr>,
     um_contents = [], um_requires_restart = True, um_install_mode = ascii ''silent''\<rparr>"

definition witness_update_env :: "(nat, bytes) update_env" where
  "witness_update_env = \<lparr>ue_parse_version = (\<lambda>s. Some (length s)), ue_version_less = (\<lambda>a b. b < a),
     ue_base64_decode = (\<lambda>s. Some []), ue_rsa_verify = (\<lambda>key msg sig. True), ue_hash_new = [],
     ue_hash_update = (@), ue_hash_finalize = (\<lambda>h. replicate 32 7),
     ue_parse_manifest = (\<lambda>_. Some witness_manifest), ue_parse_url = (\<lambda>_. None)\<rparr>"

definition witness_sup_env :: "(nat, bytes) sup_env" where
  "witness_sup_env = \<lparr>se_update = witness_update_env, bd_windows = False, se_public_key = [1],
     se_update_root = ascii ''/u'', se_rollout_seed = [], se_package_version = ascii ''1'',
     se_supervisor_arch = ascii ''linux-x64'', se_current_exe = ascii ''/s'', se_process_id = ascii ''1'',
     se_worker_version_env = None, se_running_from = (\<lambda>_. False), se_authenticode = (\<lambda>_. True),
     se_read_zip = (\<lambda>_. Some []), se_walk = (\<lambda>_ _. []), se_service_changed = (\<lambda>_. False)\<rparr>"

definition witness_config :: SupervisorConfig where
  "witness_config = \<lparr>sc_update_base_url = None, sc_channel = ascii ''stable'', sc_ring = None,
     sc_worker_arch = ascii ''linux-x64'', sc_worker_install_dir = ascii ''/w'', sc_worker_version_path = ascii ''/v'',
     sc_worker_service_name = ascii ''talos-worker'', sc_supervisor_service_name = ascii ''talos-supervisor'',
     sc_supervisor_install_dir = ascii ''/i''\<rparr>"

definition witness_signed_answer :: http_response where
  "witness_signed_answer = \<lparr>hr_status = 200, hr_content_length = None, hr_signature = Some (ascii ''c2ln''),
     hr_key_id = None, hr_etag = None, hr_body = [Some [123, 125]]\<rparr>"

definition witness_update_world :: world where
  "witness_update_world = witness_world\<lparr>w_answers := [Some witness_signed_answer, Some witness_answer]\<rparr>"

lemma witness_streaming: "streaming_hash (se_update witness_sup_env)"
  by (simp add: streaming_hash_def witness_sup_env_def witness_update_env_def)

lemma witness_verified:
  "verified_package witness_sup_env witness_config WORKER_PRODUCT (ascii ''linux-x64'') (ascii ''0.0.0'') (ascii ''2'') [7, 8, 9]"
  unfolding verified_package_def
  by (rule exI [of _ "[]"], rule exI [of _ witness_manifest], rule exI [of _ "[]"])
    (simp add: witness_sup_env_def witness_update_env_def witness_config_def witness_manifest_def WORKER_PRODUCT_def
      platform_of_arch_def starts_with_def is_update_newer_def normalize_semver_def trim_def is_whitespace_def
      sha256_hex_bytes_def hex_lower_lower)

lemma worker_installs_only_verified_witness:
  "verified_package witness_sup_env witness_config WORKER_PRODUCT (ascii ''linux-x64'') (ascii ''0.0.0'') (ascii ''2'') [7, 8, 9]
   \<and> (\<exists>w' r. check_worker_update witness_sup_env witness_config (ascii ''http://h'') witness_update_world = (w', r)
     \<and> (only_worker_downloads witness_sup_env witness_update_world w' \<or>
        (\<exists>arch update w1 content. arch \<in> set (worker_arch_candidates witness_sup_env (sc_worker_arch witness_config))
          \<and> only_worker_downloads witness_sup_env witness_update_world w1
          \<and> w_files w1 (du_package_path update) = Some content
          \<and> verified_package witness_sup_env witness_config WORKER_PRODUCT arch
              (current_version_for_manifest witness_sup_env witness_config witness_update_world) (du_version update) content
          \<and> install_worker_update witness_sup_env witness_config update w1 = (w', r))))"
  using worker_installs_only_verified [OF witness_streaming] witness_verified by (metis prod.collapse)

section \<open>Replacing a file\<close>

lemma fs_rename_cases:
  assumes "w_files w a = Some content"
  obtains w1 where "fs_rename a b w = (w1, Inl IoFailed)" "w_files w1 = w_files w"
  | w1 where "fs_rename a b w = (w1, Inr ())" "w_files w1 = (w_files w)(a := None, b := Some content)"
proof (cases rule: next_faultE [of w])
  case (1 f w1)
  then show ?thesis using that assms by (cases f) (auto simp: fs_rename_def io_step_def)
qed

lemma fs_copy_cases:
  assumes "w_files w a = Some content"
  obtains w1 where "fs_copy a b w = (w1, Inr ())" "w_files w1 = (w_files w)(b := Some content)"
  | w1 where "fs_copy a b w = (w1, Inl IoFailed)" "w_files w1 = w_files w"
  | w1 k where "fs_copy a b w = (w1, Inl IoFailed)" "w_files w1 = (w_files w)(b := Some (take k content))"
proof (cases rule: next_faultE [of w])
  case (1 f w1)
  then show ?thesis using that assms by (cases f) (auto simp: fs_copy_def)
qed

lemma fs_remove_files:
  "w_files (fst (fs_remove_file p w)) = w_files w \<or> w_files (fst (fs_remove_file p w)) = (w_files w)(p := None)"
  by (cases rule: fs_remove_file_cases [of p w]) simp_all

lemma replace_after_rename:
  assumes "source \<noteq> destination" "destination \<noteq> backup" "w_files w source = Some new"
    and "w_files w destination = None" "w_files w backup = Some old"
    and "(case fs_copy source destination w of
        (w, Inl e) \<Rightarrow>
          (if \<not> fs_exists destination w \<and> fs_exists backup w
           then fst (fs_rename backup destination w) else w, Inl e)
      | (w, Inr _) \<Rightarrow> (fst (fs_remove_file backup w), Inr ())) = (w', r)"
  shows "(\<forall>p. p \<noteq> destination \<and> p \<noteq> backup \<longrightarrow> w_files w' p = w_files w p)
    \<and> (case r of Inr _ \<Rightarrow> w_files w' destination = Some new
        | Inl _ \<Rightarrow> w_files w' destination = Some old \<or> w_files w' backup = Some old)"
proof (cases rule: fs_copy_cases [OF assms(3), of destination])
  case (1 w1)
  then show ?thesis using assms fs_remove_files [of backup w1] by auto
next
  case (2 w1)
  then have out: "w' = fst (fs_rename backup destination w1)" "r = Inl IoFailed"
    using assms(4-6) by (auto simp: fs_exists_def)
  have "w_files w1 backup = Some old" using 2 assms(5) by simp
  then show ?thesis
    by (cases rule: fs_rename_cases [of w1 backup old destination]) (use out 2 assms in auto)
next
  case (3 w1 k)
  then show ?thesis using assms by (auto simp: fs_exists_def)
qed

text \<open>C25. Replacing the supervisor's executable never loses it: whatever disk operation fails, afterwards either the
  operation succeeded and the new file is in place, or the old file is still there complete, under its
  own name or as the backup. No other file changes.\<close>

theorem replace_file_never_loses:
  assumes "distinct [source, destination, backup]" and "w_files w source = Some new" and "w_files w destination = Some old"
    and "replace_file_with_backup source destination backup w = (w', r)"
  shows "(\<forall>p. p \<noteq> destination \<and> p \<noteq> backup \<longrightarrow> w_files w' p = w_files w p)
    \<and> (case r of Inr _ \<Rightarrow> w_files w' destination = Some new
        | Inl _ \<Rightarrow> w_files w' destination = Some old \<or> w_files w' backup = Some old)"
proof -
  define w1 where "w1 = fst (fs_remove_file backup w)"
  have w1: "\<forall>p. p \<noteq> backup \<longrightarrow> w_files w1 p = w_files w p"
    using fs_remove_files [of backup w] by (auto simp: w1_def)
  then have old: "w_files w1 destination = Some old" using assms(1,3) by simp
  then have there: "fs_exists destination w1" by (simp add: fs_exists_def)
  show ?thesis
  proof (cases rule: fs_rename_cases [OF old, of backup])
    case (1 w2)
    then have "w' = w2" "r = Inl IoFailed"
      using assms(4) old by (simp_all add: replace_file_with_backup_def w1_def [symmetric] fs_exists_def)
    then show ?thesis using 1 w1 old by auto
  next
    case (2 w2)
    then have rest: "(case fs_copy source destination w2 of
        (w, Inl e) \<Rightarrow>
          (if \<not> fs_exists destination w \<and> fs_exists backup w
           then fst (fs_rename backup destination w) else w, Inl e)
      | (w, Inr _) \<Rightarrow> (fst (fs_remove_file backup w), Inr ())) = (w', r)"
      using assms(4) there by (simp add: replace_file_with_backup_def w1_def [symmetric])
    have "w_files w2 source = Some new" "w_files w2 destination = None" "w_files w2 backup = Some old"
      using 2(2) w1 assms(1,2) by auto
    from replace_after_rename [OF _ _ this rest] show ?thesis using 2(2) w1 assms(1) by auto
  qed
qed

definition witness_disk :: world where
  "witness_disk = witness_world\<lparr>w_files := [ascii ''s'' \<mapsto> [1, 2, 3], ascii ''d'' \<mapsto> [9]], w_faults := [Fine, Fine, Partial 1]\<rparr>"

lemma witness_disk_files:
  "w_files witness_disk (ascii ''s'') = Some [1, 2, 3]" "w_files witness_disk (ascii ''d'') = Some [9]"
  by (simp_all add: witness_disk_def)

lemma replace_file_never_loses_witness:
  "\<exists>w' r. replace_file_with_backup (ascii ''s'') (ascii ''d'') (ascii ''b'') witness_disk = (w', r)
    \<and> (case r of Inr _ \<Rightarrow> w_files w' (ascii ''d'') = Some [1, 2, 3]
        | Inl _ \<Rightarrow> w_files w' (ascii ''d'') = Some [9] \<or> w_files w' (ascii ''b'') = Some [9])"
proof -
  obtain w' r where run: "replace_file_with_backup (ascii ''s'') (ascii ''d'') (ascii ''b'') witness_disk = (w', r)"
    by (cases "replace_file_with_backup (ascii ''s'') (ascii ''d'') (ascii ''b'') witness_disk")
  have "distinct [ascii ''s'', ascii ''d'', ascii ''b'']" by simp
  from replace_file_never_loses [OF this witness_disk_files run] show ?thesis using run by blast
qed

text \<open>C34. The roll-back after a failed copy does not happen when the copy had already created the destination: with the
  disk full after \<open>k\<close> bytes, the installed executable is left as the first \<open>k\<close> bytes of the new one, and
  the complete old one only under the name of the backup.\<close>

theorem partial_copy_not_rolled_back:
  assumes "distinct [source, destination, backup]" and "w_files w source = Some new" and "w_files w destination = Some old"
    and "w_faults w = Fine # Fine # Partial k # rest"
  shows "\<exists>w'. replace_file_with_backup source destination backup w = (w', Inl IoFailed)
    \<and> w_files w' destination = Some (take k new) \<and> w_files w' backup = Some old"
  using assms
  by (auto simp: replace_file_with_backup_def fs_remove_file_def io_step_def next_fault_def fs_exists_def fs_rename_def
      fs_copy_def Let_def)

lemma partial_copy_not_rolled_back_witness:
  "\<exists>w'. replace_file_with_backup (ascii ''s'') (ascii ''d'') (ascii ''b'') witness_disk = (w', Inl IoFailed)
    \<and> w_files w' (ascii ''d'') = Some (take 1 [1, 2, 3]) \<and> w_files w' (ascii ''b'') = Some [9]"
proof -
  have "w_faults witness_disk = Fine # Fine # Partial 1 # []" by (simp add: witness_disk_def)
  from partial_copy_not_rolled_back [OF _ witness_disk_files this] show ?thesis by simp
qed

end
