(* ===== verification/Appliance.thy ===== *)
theory Appliance
  imports Rust_Strings
begin

text \<open>
  The installer of the self-hosted server (\<open>talos_appliance/src\<close>): the durable deployment journal
  (\<open>state.rs\<close>), the configuration and its secrets (\<open>config.rs\<close>), backups (\<open>backup.rs\<close>) and the commands that
  install, start, stop, update, back up, restore and uninstall (\<open>orchestrator.rs\<close>). The machine is the protected files, the
  journal in memory and the list of Docker commands run so far, each with the journal that was durable at
  that moment. Every operation on disk or on Docker first takes the next entry of a list of faults: it can
  fail, and the process can die before or after it. Docker, the clock, the random source and
  URL parsing are parameters; console output is left out.
\<close>

section \<open>Configuration\<close>

datatype EdgeMode = PublicAcme | CustomCertificate | Local

record ExternalDatabaseIdentity =
  xi_scheme :: ustr
  xi_host :: ustr
  xi_port :: u16
  xi_database :: ustr

datatype DatabaseConfig = Bundled ustr ustr | External ExternalDatabaseIdentity

record ReleaseImages =
  ri_api_backend :: ustr
  ri_frontend :: ustr
  ri_relay :: ustr
  ri_control_server :: ustr

record EdgeConfig =
  eg_mode :: EdgeMode
  eg_frontend_domain :: ustr
  eg_api_domain :: ustr
  eg_control_domain :: ustr
  eg_relay_domain :: ustr
  eg_acme_email :: "ustr option"
  eg_acme_ca_server :: "ustr option"
  eg_certificate_path :: "ustr option"
  eg_private_key_path :: "ustr option"
  eg_http_port :: u16
  eg_https_port :: u16
  eg_subnet :: ustr
  eg_proxy_ipv4 :: ustr

record InstallationConfig =
  ic_schema_version :: u32
  ic_release_version :: ustr
  ic_update_channel :: ustr
  ic_installation_root :: ustr
  ic_backup_directory :: ustr
  ic_images :: ReleaseImages
  ic_database :: DatabaseConfig
  ic_edge :: EdgeConfig

record SecretConfig =
  sx_schema_version :: u32
  sx_jwt_secret :: ustr
  sx_app_encryption_key :: ustr
  sx_rmm_server_api_key :: ustr
  sx_postgres_password :: "ustr option"
  sx_external_database_url :: "ustr option"

definition CONFIG_SCHEMA_VERSION :: u32 where "CONFIG_SCHEMA_VERSION = 1"

definition is_bundled :: "InstallationConfig \<Rightarrow> bool" where
  "is_bundled config = (case ic_database config of Bundled _ _ \<Rightarrow> True | External _ \<Rightarrow> False)"

text \<open>The last occurrence of a pattern.\<close>

definition rsplit_once :: "ustr \<Rightarrow> ustr \<Rightarrow> (ustr \<times> ustr) option" where
  "rsplit_once pat s =
     (case filter (\<lambda>i. starts_with (drop i s) pat) (rev [0..<Suc (length s)]) of
        [] \<Rightarrow> None
      | i # _ \<Rightarrow> Some (take i s, drop (i + length pat) s))"

definition split_once_str :: "ustr \<Rightarrow> ustr \<Rightarrow> (ustr \<times> ustr) option" where
  "split_once_str pat s =
     (case filter (\<lambda>i. starts_with (drop i s) pat) [0..<Suc (length s)] of
        [] \<Rightarrow> None
      | i # _ \<Rightarrow> Some (take i s, drop (i + length pat) s))"

definition validate_digest_image :: "ustr \<Rightarrow> bool" where
  "validate_digest_image img \<longleftrightarrow>
     \<not> (length (to_utf8 img) > 512 \<or> (\<exists>c \<in> set img. is_whitespace c) \<or> 39 \<in> set img \<or> 34 \<in> set img)
     \<and> (case rsplit_once (ascii ''@sha256:'') img of
          None \<Rightarrow> False
        | Some (repository, digest) \<Rightarrow>
            \<not> (repository = [] \<or> starts_with repository (ascii ''-'')
               \<or> \<not> list_all (\<lambda>c. is_ascii_alphanumeric c \<or> c \<in> set (ascii ''./_-:'')) repository)
            \<and> length digest = 64 \<and> list_all is_ascii_hexdigit digest)"

definition images_validate :: "ReleaseImages \<Rightarrow> bool" where
  "images_validate images \<longleftrightarrow>
     list_all validate_digest_image [ri_api_backend images, ri_frontend images, ri_relay images, ri_control_server images]"

record ResolvedImage =
  rx_digest :: ustr
  rx_version :: ustr
  rx_resolved_at_unix :: u64

text \<open>The Docker commands that the installer runs, each with the configuration of its project.\<close>

datatype app_event =
    PullImages ReleaseImages | EnsureImages ReleaseImages ustr | PullTraefik | ValidateProject InstallationConfig
  | UpDatabase InstallationConfig | StopDatabase | DatabasePreflight InstallationConfig
  | DatabaseMigrate InstallationConfig | UpAll InstallationConfig | StopApplication | StopAll | RemoveWithVolumes
  | PostgresDump | VerifyDump | RestoreDump ustr | StopTraefik | RestartTraefik | CopyFromAcmeVolume | CopyToAcmeVolume

text \<open>What the commands take from outside: the clock (one reading for a command), random secrets, the parser of
  database URLs, and what Docker reports after the commands that it has run.\<close>

record service_status =
  ss_service :: ustr
  ss_state :: ustr
  ss_health :: "ustr option"

record app_env =
  ae_root :: ustr
  ae_now :: u64
  ae_random :: "nat \<Rightarrow> ustr"
  ae_identity_from_url :: "ustr \<Rightarrow> ExternalDatabaseIdentity option"
  ae_statuses :: "app_event list \<Rightarrow> service_status list"
  ae_repo_digests :: "app_event list \<Rightarrow> ustr list"
  ae_version_label :: "app_event list \<Rightarrow> ustr option"

definition malformed_secret :: "nat \<Rightarrow> ustr \<Rightarrow> bool" where
  "malformed_secret min_len value \<longleftrightarrow> length (to_utf8 value) < min_len \<or> \<not> list_all is_ascii_hexdigit value"

definition secrets_generate :: "app_env \<Rightarrow> InstallationConfig \<Rightarrow> ustr option \<Rightarrow> SecretConfig" where
  "secrets_generate env config external_database_url =
     \<lparr>sx_schema_version = CONFIG_SCHEMA_VERSION, sx_jwt_secret = ae_random env 0, sx_app_encryption_key = ae_random env 1,
      sx_rmm_server_api_key = ae_random env 2,
      sx_postgres_password = (if is_bundled config then Some (ae_random env 3) else None),
      sx_external_database_url = external_database_url\<rparr>"

definition update_database_secret :: "app_env \<Rightarrow> InstallationConfig \<Rightarrow> ustr option \<Rightarrow> SecretConfig \<Rightarrow> SecretConfig" where
  "update_database_secret env config external_database_url s =
     (case ic_database config of
        Bundled _ _ \<Rightarrow>
          s\<lparr>sx_postgres_password := (case sx_postgres_password s of None \<Rightarrow> Some (ae_random env 3) | Some p \<Rightarrow> Some p),
            sx_external_database_url := None\<rparr>
      | External _ \<Rightarrow>
          s\<lparr>sx_postgres_password := None,
            sx_external_database_url :=
              (if external_database_url \<noteq> None then external_database_url else sx_external_database_url s)\<rparr>)"

definition validate_for :: "app_env \<Rightarrow> InstallationConfig \<Rightarrow> SecretConfig \<Rightarrow> bool" where
  "validate_for env config s \<longleftrightarrow>
     sx_schema_version s = CONFIG_SCHEMA_VERSION
     \<and> list_all (\<lambda>value. \<not> malformed_secret 64 value) [sx_jwt_secret s, sx_app_encryption_key s, sx_rmm_server_api_key s]
     \<and> (case ic_database config of
          Bundled _ _ \<Rightarrow>
            (case sx_postgres_password s of None \<Rightarrow> False | Some password \<Rightarrow> \<not> malformed_secret 32 password)
        | External identity \<Rightarrow>
            (case sx_external_database_url s of
               None \<Rightarrow> False
             | Some url \<Rightarrow> ae_identity_from_url env url = Some identity))"

section \<open>The deployment journal\<close>

datatype Lifecycle = Installing | Running | Stopped | FailedRecoverable | RestoreRequired | UninstalledDataPreserved

datatype OperationKind = Install | Update | Restore

datatype Checkpoint =
    ConfigurationStored | AssetsMaterialized | PrerequisitesReady | ImagesResolved | DatabaseReady | PreflightPassed
  | BackupVerified | MigrationStarted | MigrationCompleted | ServicesStarted | EdgeReady | Healthy

fun checkpoint_rank :: "Checkpoint \<Rightarrow> nat" where
  "checkpoint_rank ConfigurationStored = 0"
| "checkpoint_rank AssetsMaterialized = 1"
| "checkpoint_rank PrerequisitesReady = 2"
| "checkpoint_rank ImagesResolved = 3"
| "checkpoint_rank DatabaseReady = 4"
| "checkpoint_rank PreflightPassed = 5"
| "checkpoint_rank BackupVerified = 6"
| "checkpoint_rank MigrationStarted = 7"
| "checkpoint_rank MigrationCompleted = 8"
| "checkpoint_rank ServicesStarted = 9"
| "checkpoint_rank EdgeReady = 10"
| "checkpoint_rank Healthy = 11"

lemma checkpoint_rank_inject: "checkpoint_rank a = checkpoint_rank b \<longleftrightarrow> a = b"
  by (cases a; cases b) simp_all

instantiation Checkpoint :: linorder
begin

definition less_eq_Checkpoint :: "Checkpoint \<Rightarrow> Checkpoint \<Rightarrow> bool" where
  "less_eq_Checkpoint a b \<longleftrightarrow> checkpoint_rank a \<le> checkpoint_rank b"

definition less_Checkpoint :: "Checkpoint \<Rightarrow> Checkpoint \<Rightarrow> bool" where
  "less_Checkpoint a b \<longleftrightarrow> checkpoint_rank a < checkpoint_rank b"

instance
  by standard (auto simp: less_eq_Checkpoint_def less_Checkpoint_def checkpoint_rank_inject)

end

record OperationJournal =
  oj_kind :: OperationKind
  oj_checkpoint :: Checkpoint
  oj_started_at_unix :: u64
  oj_backup_name :: "ustr option"
  oj_application_images_changed :: bool

record DeploymentVersion =
  dv_config :: InstallationConfig
  dv_traefik :: ResolvedImage

record DeploymentState =
  ds_schema_version :: u32
  ds_installation_id :: ustr
  ds_lifecycle :: Lifecycle
  ds_current :: "DeploymentVersion option"
  ds_previous_good :: "DeploymentVersion option"
  ds_operation :: "OperationJournal option"
  ds_last_verified_backup :: "ustr option"
  ds_last_transition_unix :: u64

datatype RollbackDecision =
  RestorePreviousConfigurationAndRestart | RollBackTraefikOnly | StopAndRestoreVerifiedBackup

definition STATE_SCHEMA_VERSION :: u32 where "STATE_SCHEMA_VERSION = 1"

definition with_pending_config :: "InstallationConfig \<Rightarrow> DeploymentState \<Rightarrow> DeploymentState" where
  "with_pending_config config s = s\<lparr>ds_current :=
     Some \<lparr>dv_config = config, dv_traefik = \<lparr>rx_digest = [], rx_version = [], rx_resolved_at_unix = 0\<rparr>\<rparr>\<rparr>"

definition new_install :: "app_env \<Rightarrow> InstallationConfig \<Rightarrow> DeploymentState" where
  "new_install env config = with_pending_config config
     \<lparr>ds_schema_version = STATE_SCHEMA_VERSION, ds_installation_id = ae_random env 4, ds_lifecycle = Installing,
      ds_current = None, ds_previous_good = None,
      ds_operation = Some \<lparr>oj_kind = Install, oj_checkpoint = ConfigurationStored, oj_started_at_unix = ae_now env,
        oj_backup_name = None, oj_application_images_changed = True\<rparr>,
      ds_last_verified_backup = None, ds_last_transition_unix = ae_now env\<rparr>"

definition state_validate :: "app_env \<Rightarrow> DeploymentState \<Rightarrow> bool" where
  "state_validate env s \<longleftrightarrow>
     ds_schema_version s = STATE_SCHEMA_VERSION
     \<and> length (ds_installation_id s) = 32 \<and> list_all is_ascii_hexdigit (ds_installation_id s)
     \<and> (case ds_current s of
          None \<Rightarrow> True
        | Some current \<Rightarrow>
            ic_installation_root (dv_config current) = ae_root env \<and> images_validate (ic_images (dv_config current))
            \<and> (rx_digest (dv_traefik current) = [] \<or> validate_digest_image (rx_digest (dv_traefik current))))
     \<and> (case ds_previous_good s of
          None \<Rightarrow> True
        | Some previous \<Rightarrow>
            images_validate (ic_images (dv_config previous)) \<and> validate_digest_image (rx_digest (dv_traefik previous)))"

text \<open>Errors are \<open>Failed\<close>; \<open>Crashed\<close> is the death of the process, which no handler of the code sees.\<close>

datatype app_stop = Failed string | Crashed

definition state_checkpoint :: "Checkpoint \<Rightarrow> DeploymentState \<Rightarrow> app_stop + DeploymentState" where
  "state_checkpoint next s =
     (case ds_operation s of
        None \<Rightarrow> Inl (Failed ''cannot checkpoint without an active operation'')
      | Some operation \<Rightarrow>
          if next < oj_checkpoint operation then Inl (Failed ''operation checkpoint cannot move backwards'')
          else Inr (s\<lparr>ds_operation := Some (operation\<lparr>oj_checkpoint := next\<rparr>)\<rparr>))"

definition begin_update :: "app_env \<Rightarrow> DeploymentVersion \<Rightarrow> ustr \<Rightarrow> bool \<Rightarrow> DeploymentState \<Rightarrow> app_stop + DeploymentState" where
  "begin_update env candidate backup_name application_change s =
     (if ds_operation s \<noteq> None then Inl (Failed ''cannot begin update while another operation is incomplete'')
      else case ds_current s of
          None \<Rightarrow> Inl (Failed ''cannot update an installation without a current version'')
        | Some previous \<Rightarrow>
            Inr (s\<lparr>ds_current := Some candidate, ds_previous_good := Some previous,
                   ds_operation := Some \<lparr>oj_kind = Update, oj_checkpoint = BackupVerified,
                     oj_started_at_unix = ae_now env, oj_backup_name = Some backup_name,
                     oj_application_images_changed = application_change\<rparr>,
                   ds_lifecycle := Installing\<rparr>))"

definition begin_restore :: "app_env \<Rightarrow> ustr \<Rightarrow> DeploymentState \<Rightarrow> app_stop + DeploymentState" where
  "begin_restore env backup_name s =
     (if ds_operation s \<noteq> None then Inl (Failed ''cannot begin restore while another operation is incomplete'')
      else Inr (s\<lparr>ds_operation := Some \<lparr>oj_kind = Restore, oj_checkpoint = BackupVerified,
                    oj_started_at_unix = ae_now env, oj_backup_name = Some backup_name,
                    oj_application_images_changed = True\<rparr>,
                  ds_lifecycle := Installing\<rparr>))"

definition promote_healthy :: "DeploymentState \<Rightarrow> app_stop + DeploymentState" where
  "promote_healthy s =
     rbind (state_checkpoint Healthy s) (\<lambda>s. Inr (s\<lparr>ds_lifecycle := Running, ds_operation := None\<rparr>))"

definition mark_stopped :: "DeploymentState \<Rightarrow> DeploymentState" where
  "mark_stopped s = s\<lparr>ds_lifecycle := Stopped, ds_operation := None\<rparr>"

definition mark_recoverable_failure :: "DeploymentState \<Rightarrow> DeploymentState" where
  "mark_recoverable_failure s = s\<lparr>ds_lifecycle := FailedRecoverable, ds_operation := None\<rparr>"

definition mark_restore_required :: "DeploymentState \<Rightarrow> DeploymentState" where
  "mark_restore_required s = s\<lparr>ds_lifecycle := RestoreRequired\<rparr>"

definition decide_rollback :: "Checkpoint \<Rightarrow> bool \<Rightarrow> RollbackDecision" where
  "decide_rollback checkpoint application_images_changed =
     (if \<not> application_images_changed then RollBackTraefikOnly
      else if checkpoint < MigrationStarted then RestorePreviousConfigurationAndRestart
      else StopAndRestoreVerifiedBackup)"

definition rollback_decision :: "DeploymentState \<Rightarrow> app_stop + RollbackDecision" where
  "rollback_decision s =
     (case ds_operation s of
        None \<Rightarrow> Inl (Failed ''no active operation requires rollback'')
      | Some operation \<Rightarrow> Inr (decide_rollback (oj_checkpoint operation) (oj_application_images_changed operation)))"

definition restore_previous_version :: "DeploymentState \<Rightarrow> app_stop + DeploymentState" where
  "restore_previous_version s =
     (case ds_previous_good s of
        None \<Rightarrow> Inl (Failed ''no previous known-good deployment is recorded'')
      | Some previous \<Rightarrow>
          Inr (s\<lparr>ds_previous_good := None, ds_current := Some previous, ds_operation := None,
                 ds_lifecycle := FailedRecoverable\<rparr>))"

end
