(* ===== verification/Orchestrator.thy ===== *)
theory Orchestrator
  imports Appliance
begin

text \<open>
  The commands of the installer (\<open>talos_appliance/src/orchestrator.rs\<close>, \<open>backup.rs\<close>) on the machine: the protected
  files, the backup directories, the journal in memory, the Docker commands run so far, and the faults to
  come. Each Docker command is recorded with the journal and the backups that were on disk at that moment. \<open>quiet\<close> stands
  for an operation whose effect the model does not show (a directory, a lock, a rendered template, the comparison of
  a file with its digest): it succeeds, fails, or the process dies. Paths are those of the Linux host.
\<close>

section \<open>The machine\<close>

datatype BackupDatabase = BundledPostgres u16 | ExternalOperatorSupplied

record BackupManifest =
  bm_schema_version :: u32
  bm_name :: ustr
  bm_created_at_unix :: u64
  bm_installation_id :: ustr
  bm_config_schema_version :: u32
  bm_state_schema_version :: u32
  bm_release_version :: ustr
  bm_database :: BackupDatabase
  bm_edge_state_included :: bool
  bm_files :: "ustr list"

text \<open>A backup directory: the files copied so far, and the manifest once it is written.\<close>

record backup_dir =
  bd_config :: "InstallationConfig option"
  bd_secrets :: "SecretConfig option"
  bd_state :: "DeploymentState option"
  bd_files :: "ustr list"
  bd_manifest :: "BackupManifest option"

type_synonym backups = "ustr \<times> ustr \<Rightarrow> backup_dir option"

text \<open>An atomic write renames and then flushes the directory, so it can report an error after it took effect.\<close>

datatype app_fault = NoFault | ErrorBefore | ErrorAfter | CrashBefore | CrashAfter

record moment =
  mo_event :: app_event
  mo_state :: "DeploymentState option"
  mo_backups :: backups

record machine =
  mc_config :: "InstallationConfig option"
  mc_secrets :: "SecretConfig option"
  mc_state :: "DeploymentState option"
  mc_rollback_config :: "InstallationConfig option"
  mc_rollback_secrets :: "SecretConfig option"
  mc_backups :: backups
  mc_memory :: DeploymentState
  mc_trace :: "moment list"
  mc_faults :: "app_fault list"

type_synonym 'a app = "(machine, app_stop, 'a) sresult"

definition take_fault :: "machine \<Rightarrow> app_fault \<times> machine" where
  "take_fault m = (case mc_faults m of [] \<Rightarrow> (NoFault, m) | f # fs \<Rightarrow> (f, m\<lparr>mc_faults := fs\<rparr>))"

definition app_step :: "(machine \<Rightarrow> machine) \<Rightarrow> machine \<Rightarrow> unit app" where
  "app_step effect m =
     (case take_fault m of
        (NoFault, m) \<Rightarrow> (effect m, Inr ())
      | (ErrorBefore, m) \<Rightarrow> (m, Inl (Failed ''operation failed''))
      | (ErrorAfter, m) \<Rightarrow> (effect m, Inl (Failed ''operation failed''))
      | (CrashBefore, m) \<Rightarrow> (m, Inl Crashed)
      | (CrashAfter, m) \<Rightarrow> (effect m, Inl Crashed))"

definition quiet :: "machine \<Rightarrow> unit app" where
  "quiet = app_step id"

primrec quiets :: "nat \<Rightarrow> machine \<Rightarrow> unit app" where
  "quiets 0 m = (m, Inr ())"
| "quiets (Suc n) m = sbind (quiet m) (\<lambda>m _. quiets n m)"

text \<open>A Docker command that fails may have done its work, or not have run.\<close>

definition record_event :: "app_event \<Rightarrow> machine \<Rightarrow> machine" where
  "record_event ev m =
     m\<lparr>mc_trace := mc_trace m @ [\<lparr>mo_event = ev, mo_state = mc_state m, mo_backups = mc_backups m\<rparr>]\<rparr>"

definition docker :: "app_event \<Rightarrow> machine \<Rightarrow> unit app" where
  "docker ev = app_step (record_event ev)"

definition events :: "machine \<Rightarrow> app_event list" where
  "events m = map mo_event (mc_trace m)"

definition app_fail :: "string \<Rightarrow> machine \<Rightarrow> 'a app" where
  "app_fail msg m = (m, Inl (Failed msg))"

definition app_require :: "bool \<Rightarrow> string \<Rightarrow> machine \<Rightarrow> unit app" where
  "app_require b msg m = (if b then (m, Inr ()) else app_fail msg m)"

definition read_json :: "(machine \<Rightarrow> 'a option) \<Rightarrow> machine \<Rightarrow> 'a app" where
  "read_json field m = sbind (quiet m) (\<lambda>m _. (m, ok_or (Failed ''could not read protected file'') (field m)))"

text \<open>\<open>save\<close> stamps the journal in memory and writes it; \<open>on_memory\<close> applies a fallible change to the journal in
  memory.\<close>

definition save :: "app_env \<Rightarrow> machine \<Rightarrow> unit app" where
  "save env m =
     (let s = (mc_memory m)\<lparr>ds_last_transition_unix := ae_now env\<rparr> in
      app_step (\<lambda>m. m\<lparr>mc_state := Some s\<rparr>) (m\<lparr>mc_memory := s\<rparr>))"

definition on_memory :: "(DeploymentState \<Rightarrow> app_stop + DeploymentState) \<Rightarrow> machine \<Rightarrow> unit app" where
  "on_memory f m = (case f (mc_memory m) of Inl e \<Rightarrow> (m, Inl e) | Inr s \<Rightarrow> (m\<lparr>mc_memory := s\<rparr>, Inr ()))"

definition set_memory :: "(DeploymentState \<Rightarrow> DeploymentState) \<Rightarrow> machine \<Rightarrow> machine" where
  "set_memory f m = m\<lparr>mc_memory := f (mc_memory m)\<rparr>"

text \<open>\<open>if let Err(error) = ...\<close>: the handler sees errors, not the death of the process.\<close>

definition on_failure :: "'a app \<Rightarrow> (machine \<Rightarrow> string \<Rightarrow> 'a app) \<Rightarrow> 'a app" where
  "on_failure out handler = (case out of (m, Inl (Failed e)) \<Rightarrow> handler m e | _ \<Rightarrow> out)"

section \<open>Shared steps\<close>

definition advance_checkpoint :: "app_env \<Rightarrow> Checkpoint \<Rightarrow> machine \<Rightarrow> unit app" where
  "advance_checkpoint env checkpoint m =
     (case ds_operation (mc_memory m) of
        None \<Rightarrow> app_fail ''operation journal is missing'' m
      | Some operation \<Rightarrow>
          if checkpoint > oj_checkpoint operation
          then sbind (on_memory (state_checkpoint checkpoint) m) (\<lambda>m _. save env m)
          else (m, Inr ()))"

definition pending_version :: "machine \<Rightarrow> DeploymentVersion app" where
  "pending_version m = (m, ok_or (Failed ''deployment state has no configured version'') (ds_current (mc_memory m)))"

definition state_load :: "app_env \<Rightarrow> machine \<Rightarrow> unit app" where
  "state_load env m =
     sbind (read_json mc_state m) (\<lambda>m s.
     sbind (app_require (state_validate env s) ''invalid deployment state'' m) (\<lambda>m _.
     (m\<lparr>mc_memory := s\<rparr>, Inr ())))"

definition load_installation :: "app_env \<Rightarrow> machine \<Rightarrow> (InstallationConfig \<times> SecretConfig) app" where
  "load_installation env m =
     sbind (quiet m) (\<lambda>m _.
     sbind (state_load env m) (\<lambda>m _.
     sbind (read_json mc_config m) (\<lambda>m config.
     sbind (read_json mc_secrets m) (\<lambda>m secrets.
     sbind (app_require (validate_for env config secrets) ''invalid secrets'' m) (\<lambda>m _.
     sbind (pending_version m) (\<lambda>m version.
     sbind (app_require (config = dv_config version)
              ''active configuration does not match the durable deployment journal'' m) (\<lambda>m _.
     (m, Inr (config, secrets)))))))))"

definition persist_active_configuration :: "InstallationConfig \<Rightarrow> SecretConfig \<Rightarrow> machine \<Rightarrow> unit app" where
  "persist_active_configuration config secrets m =
     sbind (app_step (\<lambda>m. m\<lparr>mc_config := Some config\<rparr>) m) (\<lambda>m _.
     app_step (\<lambda>m. m\<lparr>mc_secrets := Some secrets\<rparr>) m)"

definition persist_rollback_snapshot :: "InstallationConfig \<Rightarrow> SecretConfig \<Rightarrow> machine \<Rightarrow> unit app" where
  "persist_rollback_snapshot config secrets m =
     sbind (quiet m) (\<lambda>m _.
     sbind (app_step (\<lambda>m. m\<lparr>mc_rollback_config := Some config\<rparr>) m) (\<lambda>m _.
     app_step (\<lambda>m. m\<lparr>mc_rollback_secrets := Some secrets\<rparr>) m))"

text \<open>A configuration's images, the newest edge proxy, and the images that a version recorded.\<close>

definition pull_release_images :: "ReleaseImages \<Rightarrow> machine \<Rightarrow> unit app" where
  "pull_release_images images m =
     sbind (app_require (images_validate images) ''image reference is malformed'' m) (\<lambda>m _. docker (PullImages images) m)"

definition parse_traefik_repo_digests :: "ustr list \<Rightarrow> ustr option" where
  "parse_traefik_repo_digests digests =
     Option.bind
       (find (\<lambda>candidate. case split_once_str (ascii ''@sha256:'') candidate of
                None \<Rightarrow> False
              | Some (repository, _) \<Rightarrow>
                  repository = ascii ''traefik'' \<or> repository = ascii ''docker.io/library/traefik''
                  \<or> repository = ascii ''index.docker.io/library/traefik'') digests)
       (\<lambda>digest. if validate_digest_image digest then Some digest else None)"

definition parse_optional_label :: "ustr option \<Rightarrow> ustr option" where
  "parse_optional_label label =
     Option.bind label (\<lambda>value. let value = trim value in
       if value \<noteq> [] \<and> length (to_utf8 value) \<le> 128 then Some value else None)"

definition resolve_traefik_latest :: "app_env \<Rightarrow> machine \<Rightarrow> ResolvedImage app" where
  "resolve_traefik_latest env m =
     sbind (docker PullTraefik m) (\<lambda>m _.
     sbind (quiet m) (\<lambda>m _.
     sbind (m, ok_or (Failed ''no official repository digest'') (parse_traefik_repo_digests (ae_repo_digests env (events m)))) (\<lambda>m digest.
     sbind (quiet m) (\<lambda>m _.
     (m, Inr \<lparr>rx_digest = digest,
              rx_version = (case parse_optional_label (ae_version_label env (events m)) of
                              None \<Rightarrow> ascii ''unknown'' | Some version \<Rightarrow> version),
              rx_resolved_at_unix = ae_now env\<rparr>)))))"

definition ensure_recorded_images :: "ReleaseImages \<Rightarrow> ResolvedImage \<Rightarrow> machine \<Rightarrow> unit app" where
  "ensure_recorded_images images traefik m =
     sbind (app_require (images_validate images \<and> validate_digest_image (rx_digest traefik)) ''image reference is malformed'' m)
       (\<lambda>m _. docker (EnsureImages images (rx_digest traefik)) m)"

definition required_services :: "InstallationConfig \<Rightarrow> ustr list" where
  "required_services config =
     map ascii [''api_backend'', ''frontend'', ''talos_relay'', ''talos_server'', ''traefik'']
     @ (if is_bundled config then [ascii ''postgres''] else [])"

definition service_ready :: "service_status list \<Rightarrow> ustr \<Rightarrow> bool" where
  "service_ready statuses service =
     (case find (\<lambda>status. ss_service status = service) statuses of
        None \<Rightarrow> False
      | Some status \<Rightarrow>
          ss_state status = ascii ''running''
          \<and> (case ss_health status of None \<Rightarrow> True | Some health \<Rightarrow> health = ascii ''healthy''))"

definition start_and_verify :: "app_env \<Rightarrow> InstallationConfig \<Rightarrow> machine \<Rightarrow> unit app" where
  "start_and_verify env config m =
     sbind (docker (UpAll config) m) (\<lambda>m _.
     sbind (quiet m) (\<lambda>m _.
     app_require (list_all (service_ready (ae_statuses env (events m))) (required_services config))
       ''required service is not ready'' m))"

definition require_no_incomplete_operation :: "machine \<Rightarrow> unit app" where
  "require_no_incomplete_operation m =
     app_require (ds_operation (mc_memory m) = None) ''an incomplete operation is recorded'' m"

definition ensure_database_identity_unchanged :: "DatabaseConfig \<Rightarrow> DatabaseConfig \<Rightarrow> machine \<Rightarrow> unit app" where
  "ensure_database_identity_unchanged current candidate m =
     app_require (current = candidate) ''update cannot change database mode or identity'' m"

definition validate_custom_certificate_files :: "InstallationConfig \<Rightarrow> machine \<Rightarrow> unit app" where
  "validate_custom_certificate_files config m =
     (if eg_mode (ic_edge config) \<noteq> CustomCertificate then (m, Inr ())
      else
        sbind (app_require (eg_certificate_path (ic_edge config) \<noteq> None) ''custom certificate path is missing'' m) (\<lambda>m _.
        sbind (app_require (eg_private_key_path (ic_edge config) \<noteq> None) ''custom private-key path is missing'' m) (\<lambda>m _.
        quiets 3 m)))"

text \<open>\<open>cleanup\<close> runs after the operation succeeded or failed, and the first error is the result.\<close>

definition run_with_guaranteed_cleanup :: "'a app \<Rightarrow> (machine \<Rightarrow> unit app) \<Rightarrow> 'a app" where
  "run_with_guaranteed_cleanup out cleanup =
     (case out of
        (m, Inl Crashed) \<Rightarrow> (m, Inl Crashed)
      | (m, operation_result) \<Rightarrow>
          (case cleanup m of
             (m, Inl Crashed) \<Rightarrow> (m, Inl Crashed)
           | (m, Inr _) \<Rightarrow> (m, operation_result)
           | (m, Inl e) \<Rightarrow> (case operation_result of Inr _ \<Rightarrow> (m, Inl e) | Inl e' \<Rightarrow> (m, Inl e'))))"

section \<open>Backups\<close>

definition BACKUP_SCHEMA_VERSION :: u32 where "BACKUP_SCHEMA_VERSION = 1"

fun nat_digits :: "nat \<Rightarrow> ustr" where
  "nat_digits n = (if n < 10 then [48 + n] else nat_digits (n div 10) @ [48 + n mod 10])"

declare nat_digits.simps [simp del]

definition validate_backup_name :: "ustr \<Rightarrow> bool" where
  "validate_backup_name name \<longleftrightarrow>
     \<not> (name = [] \<or> length (to_utf8 name) > 96 \<or> name = ascii ''.'' \<or> name = ascii ''..''
        \<or> \<not> list_all (\<lambda>c. is_ascii_alphanumeric c \<or> c \<in> set (ascii ''._-'')) name)"

definition is_absolute :: "ustr \<Rightarrow> bool" where
  "is_absolute path = starts_with path (ascii ''/'')"

definition empty_backup :: backup_dir where
  "empty_backup = \<lparr>bd_config = None, bd_secrets = None, bd_state = None, bd_files = [], bd_manifest = None\<rparr>"

definition change_backup :: "ustr \<times> ustr \<Rightarrow> (backup_dir \<Rightarrow> backup_dir) \<Rightarrow> machine \<Rightarrow> machine" where
  "change_backup key f m = m\<lparr>mc_backups := (mc_backups m)(key := map_option f (mc_backups m key))\<rparr>"

definition add_file :: "ustr \<times> ustr \<Rightarrow> string \<Rightarrow> (backup_dir \<Rightarrow> backup_dir) \<Rightarrow> machine \<Rightarrow> unit app" where
  "add_file key name f = app_step (change_backup key (\<lambda>b. f (b\<lparr>bd_files := bd_files b @ [ascii name]\<rparr>)))"

definition create_new_secure_directory :: "ustr \<times> ustr \<Rightarrow> machine \<Rightarrow> unit app" where
  "create_new_secure_directory key m =
     sbind (quiet m) (\<lambda>m _.
     sbind (app_require (mc_backups m key = None) ''protected output already exists'' m) (\<lambda>m _.
     app_step (\<lambda>m. m\<lparr>mc_backups := (mc_backups m)(key \<mapsto> empty_backup)\<rparr>) m))"

definition backup_database :: "ustr \<times> ustr \<Rightarrow> ustr option \<Rightarrow> InstallationConfig \<Rightarrow> machine \<Rightarrow> BackupDatabase app" where
  "backup_database key external_database_backup config m =
     (case ic_database config of
        Bundled _ _ \<Rightarrow>
          sbind (docker PostgresDump m) (\<lambda>m _.
          sbind (add_file key ''database.dump'' id m) (\<lambda>m _.
          sbind (quiets 2 m) (\<lambda>m _.
          sbind (docker VerifyDump m) (\<lambda>m _. (m, Inr (BundledPostgres 16))))))
      | External _ \<Rightarrow>
          (case external_database_backup of
             None \<Rightarrow> app_fail ''external PostgreSQL mode requires --external-database-backup'' m
           | Some source \<Rightarrow>
               sbind (app_require (is_absolute source) ''external database backup path must be absolute'' m) (\<lambda>m _.
               sbind (add_file key ''database.dump'' id m) (\<lambda>m _.
               sbind (quiet m) (\<lambda>m _. (m, Inr ExternalOperatorSupplied))))))"

definition backup_edge :: "ustr \<times> ustr \<Rightarrow> bool \<Rightarrow> InstallationConfig \<Rightarrow> machine \<Rightarrow> unit app" where
  "backup_edge key include_edge_state config m =
     (case eg_mode (ic_edge config) of
        PublicAcme \<Rightarrow>
          if include_edge_state then
            let was_running = (ds_lifecycle (mc_memory m) = Running) in
            sbind (if was_running then docker StopTraefik m else (m, Inr ())) (\<lambda>m _.
            sbind (run_with_guaranteed_cleanup
                     (sbind (docker CopyFromAcmeVolume m) (\<lambda>m _. add_file key ''acme.json'' id m))
                     (\<lambda>m. if was_running then docker RestartTraefik m else (m, Inr ()))) (\<lambda>m _.
            quiet m))
          else (m, Inr ())
      | Local \<Rightarrow>
          sbind (add_file key ''local-certificate.pem'' id m) (\<lambda>m _.
          sbind (add_file key ''local-private-key.pem'' id m) (\<lambda>m _.
          add_file key ''local-certificate-metadata.json'' id m))
      | CustomCertificate \<Rightarrow> (m, Inr ()))"

definition backup_file_names :: "ustr list" where
  "backup_file_names = map ascii [''config.json'', ''secrets.json'', ''state.json'', ''database.dump'', ''acme.json'',
     ''local-certificate.pem'', ''local-private-key.pem'', ''local-certificate-metadata.json'']"

definition backup_contents ::
    "app_env \<Rightarrow> ustr \<times> ustr \<Rightarrow> ustr option \<Rightarrow> bool \<Rightarrow> InstallationConfig \<Rightarrow> machine \<Rightarrow> BackupManifest app" where
  "backup_contents env key external_database_backup include_edge_state config m =
     sbind (read_json mc_config m) (\<lambda>m saved_config.
     sbind (add_file key ''config.json'' (\<lambda>b. b\<lparr>bd_config := Some saved_config\<rparr>) m) (\<lambda>m _.
     sbind (read_json mc_secrets m) (\<lambda>m saved_secrets.
     sbind (add_file key ''secrets.json'' (\<lambda>b. b\<lparr>bd_secrets := Some saved_secrets\<rparr>) m) (\<lambda>m _.
     sbind (read_json mc_state m) (\<lambda>m saved_state.
     sbind (add_file key ''state.json'' (\<lambda>b. b\<lparr>bd_state := Some saved_state\<rparr>) m) (\<lambda>m _.
     sbind (backup_database key external_database_backup config m) (\<lambda>m database.
     sbind (backup_edge key include_edge_state config m) (\<lambda>m _.
     let files = (case mc_backups m key of
                    None \<Rightarrow> [] | Some b \<Rightarrow> filter (\<lambda>name. name \<in> set (bd_files b)) backup_file_names) in
     sbind (quiets (length files) m) (\<lambda>m _.
     (m, Inr \<lparr>bm_schema_version = BACKUP_SCHEMA_VERSION, bm_name = snd key, bm_created_at_unix = ae_now env,
       bm_installation_id = ds_installation_id (mc_memory m), bm_config_schema_version = ic_schema_version config,
       bm_state_schema_version = ds_schema_version (mc_memory m), bm_release_version = ic_release_version config,
       bm_database = database, bm_edge_state_included = (eg_mode (ic_edge config) \<noteq> PublicAcme \<or> include_edge_state),
       bm_files = files\<rparr>))))))))))"

definition verify_backup :: "ustr \<times> ustr \<Rightarrow> ustr \<Rightarrow> machine \<Rightarrow> BackupManifest app" where
  "verify_backup key installation_id m =
     sbind (read_json (\<lambda>m. Option.bind (mc_backups m key) bd_manifest) m) (\<lambda>m manifest.
     sbind (app_require (bm_schema_version manifest = BACKUP_SCHEMA_VERSION
              \<and> bm_config_schema_version manifest = CONFIG_SCHEMA_VERSION
              \<and> bm_state_schema_version manifest = STATE_SCHEMA_VERSION) ''backup uses an unsupported schema version'' m) (\<lambda>m _.
     sbind (app_require (snd key = bm_name manifest) ''backup directory name does not match its manifest'' m) (\<lambda>m _.
     sbind (app_require (bm_installation_id manifest = installation_id) ''backup belongs to a different Talos installation'' m) (\<lambda>m _.
     sbind (app_require (bm_files manifest \<noteq> []) ''backup manifest contains no files'' m) (\<lambda>m _.
     sbind (quiets (length (bm_files manifest)) m) (\<lambda>m _.
     sbind (app_require (list_all (\<lambda>required. ascii required \<in> set (bm_files manifest))
              [''config.json'', ''secrets.json'', ''state.json'', ''database.dump'']) ''backup manifest is missing a file'' m) (\<lambda>m _.
     (m, Inr manifest))))))))"

text \<open>A backup that fails is renamed; the rename is best effort, and does not replace another directory.\<close>

definition set_aside :: "app_env \<Rightarrow> ustr \<times> ustr \<Rightarrow> machine \<Rightarrow> machine" where
  "set_aside env key m =
     (let failed = (fst key, snd key @ ascii ''.incomplete-'' @ nat_digits (unat (ae_now env))) in
      if mc_backups m failed = None
      then m\<lparr>mc_backups := (mc_backups m)(failed := mc_backups m key, key := None)\<rparr> else m)"

definition create_backup ::
    "app_env \<Rightarrow> ustr option \<Rightarrow> ustr option \<Rightarrow> bool \<Rightarrow> InstallationConfig \<Rightarrow> machine \<Rightarrow> ustr app" where
  "create_backup env backup_name external_database_backup include_edge_state config m =
     (let name = (case backup_name of None \<Rightarrow> ascii ''backup-'' @ nat_digits (unat (ae_now env)) | Some n \<Rightarrow> n);
          key = (ic_backup_directory config, name) in
      sbind (app_require (validate_backup_name name) ''invalid backup name'' m) (\<lambda>m _.
      sbind (quiet m) (\<lambda>m _.
      sbind (create_new_secure_directory key m) (\<lambda>m _.
      sbind (on_failure (backup_contents env key external_database_backup include_edge_state config m)
               (\<lambda>m e. case app_step (set_aside env key) m of
                          (m, Inl Crashed) \<Rightarrow> (m, Inl Crashed) | (m, _) \<Rightarrow> (m, Inl (Failed e)))) (\<lambda>m manifest.
      sbind (app_step (change_backup key (\<lambda>b. b\<lparr>bd_manifest := Some manifest\<rparr>)) m) (\<lambda>m _.
      sbind (verify_backup key (ds_installation_id (mc_memory m)) m) (\<lambda>m _.
      (m, Inr name))))))))"

end
