(* ===== verification/Appliance_Commands.thy ===== *)
theory Appliance_Commands
  imports Orchestrator
begin

text \<open>
  The commands of \<open>orchestrator.rs\<close>, from the lock to the last write of the journal. \<open>request\<close> is the
  configuration and database URL that \<open>InstallRequest::load\<close> returns, or \<^term>\<open>None\<close> where it refuses the file.
  \<open>materialize\<close> is the rendering of the assets, of the local certificate and of the environment file.
\<close>

section \<open>Install, start, stop, backup\<close>

type_synonym request = "(InstallationConfig \<times> ustr option) option"

definition load_request :: "request \<Rightarrow> machine \<Rightarrow> (InstallationConfig \<times> ustr option) app" where
  "load_request request m = sbind (quiet m) (\<lambda>m _. (m, ok_or (Failed ''invalid installation request'') request))"

definition materialize :: "machine \<Rightarrow> unit app" where
  "materialize = quiets 3"

definition install_prepare ::
    "app_env \<Rightarrow> InstallationConfig \<Rightarrow> ustr option \<Rightarrow> machine \<Rightarrow> (InstallationConfig \<times> SecretConfig) app" where
  "install_prepare env requested_config url m =
     (if mc_state m \<noteq> None then
        sbind (state_load env m) (\<lambda>m _.
        case ds_operation (mc_memory m) of
          None \<Rightarrow> app_fail ''installation already exists; use update, start, or status'' m
        | Some operation \<Rightarrow>
            sbind (app_require (oj_kind operation = Install) ''another incomplete operation must be recovered'' m) (\<lambda>m _.
            sbind (app_require (\<not> (oj_checkpoint operation \<ge> MigrationStarted \<and> oj_checkpoint operation < Healthy))
                     ''an interrupted install may have changed the database schema'' m) (\<lambda>m _.
            sbind (read_json mc_config m) (\<lambda>m config.
            sbind (app_require (config = requested_config) ''install retry configuration does not match'' m) (\<lambda>m _.
            sbind (read_json mc_secrets m) (\<lambda>m secrets.
            sbind (app_require (validate_for env config secrets) ''invalid secrets'' m) (\<lambda>m _.
            (m, Inr (config, secrets)))))))))
      else
        let secrets = secrets_generate env requested_config url in
        sbind (app_require (validate_for env requested_config secrets) ''invalid secrets'' m) (\<lambda>m _.
        sbind (persist_active_configuration requested_config secrets
                 (m\<lparr>mc_memory := new_install env requested_config\<rparr>)) (\<lambda>m _.
        sbind (save env m) (\<lambda>m _. (m, Inr (requested_config, secrets))))))"

definition install_traefik :: "app_env \<Rightarrow> InstallationConfig \<Rightarrow> machine \<Rightarrow> unit app" where
  "install_traefik env config m =
     sbind (pending_version m) (\<lambda>m version.
     sbind (if rx_digest (dv_traefik version) = [] then
              sbind (pull_release_images (ic_images config) m) (\<lambda>m _. resolve_traefik_latest env m)
            else
              sbind (ensure_recorded_images (ic_images config) (dv_traefik version) m) (\<lambda>m _.
              (m, Inr (dv_traefik version)))) (\<lambda>m traefik.
     save env (set_memory (\<lambda>s. s\<lparr>ds_current := map_option (\<lambda>v. v\<lparr>dv_traefik := traefik\<rparr>) (ds_current s)\<rparr>) m)))"

definition install_backup :: "app_env \<Rightarrow> ustr option \<Rightarrow> InstallationConfig \<Rightarrow> machine \<Rightarrow> unit app" where
  "install_backup env external_database_backup config m =
     (case ds_operation (mc_memory m) of
        None \<Rightarrow> (m, Inr ())
      | Some operation \<Rightarrow>
          if oj_checkpoint operation < BackupVerified then
            let backup_name = ascii ''pre-install-migration-'' @ take 8 (ds_installation_id (mc_memory m));
                key = (ic_backup_directory config, backup_name) in
            sbind (if mc_backups m key \<noteq> None
                   then sbind (verify_backup key (ds_installation_id (mc_memory m)) m) (\<lambda>m _. (m, Inr ()))
                   else sbind (create_backup env (Some backup_name) external_database_backup False config m)
                          (\<lambda>m _. (m, Inr ()))) (\<lambda>m _.
            advance_checkpoint env BackupVerified
              (set_memory (\<lambda>s. s\<lparr>ds_last_verified_backup := Some backup_name\<rparr>) m))
          else (m, Inr ()))"

definition fail_restore_required :: "app_env \<Rightarrow> machine \<Rightarrow> string \<Rightarrow> unit app" where
  "fail_restore_required env m e =
     sbind (save env (set_memory mark_restore_required m)) (\<lambda>m _. app_fail e m)"

definition install :: "app_env \<Rightarrow> request \<Rightarrow> ustr option \<Rightarrow> machine \<Rightarrow> unit app" where
  "install env request external_database_backup m =
     sbind (quiets 2 m) (\<lambda>m _.
     sbind (load_request request m) (\<lambda>m (requested_config, url).
     sbind (validate_custom_certificate_files requested_config m) (\<lambda>m _.
     sbind (install_prepare env requested_config url m) (\<lambda>m (config, secrets).
     sbind (quiets 2 m) (\<lambda>m _.
     sbind (advance_checkpoint env AssetsMaterialized m) (\<lambda>m _.
     sbind (quiets 2 m) (\<lambda>m _.
     sbind (advance_checkpoint env PrerequisitesReady m) (\<lambda>m _.
     sbind (install_traefik env config m) (\<lambda>m _.
     sbind (quiet m) (\<lambda>m _.
     sbind (advance_checkpoint env ImagesResolved m) (\<lambda>m _.
     sbind (docker (ValidateProject config) m) (\<lambda>m _.
     sbind (if is_bundled config then docker (UpDatabase config) m else (m, Inr ())) (\<lambda>m _.
     sbind (advance_checkpoint env DatabaseReady m) (\<lambda>m _.
     sbind (docker (DatabasePreflight config) m) (\<lambda>m _.
     sbind (advance_checkpoint env PreflightPassed m) (\<lambda>m _.
     sbind (install_backup env external_database_backup config m) (\<lambda>m _.
     sbind (advance_checkpoint env MigrationStarted m) (\<lambda>m _.
     sbind (on_failure (docker (DatabaseMigrate config) m) (fail_restore_required env)) (\<lambda>m _.
     sbind (advance_checkpoint env MigrationCompleted m) (\<lambda>m _.
     sbind (on_failure (start_and_verify env config m) (fail_restore_required env)) (\<lambda>m _.
     sbind (advance_checkpoint env ServicesStarted m) (\<lambda>m _.
     sbind (advance_checkpoint env EdgeReady m) (\<lambda>m _.
     sbind (on_memory promote_healthy m) (\<lambda>m _.
     save env m))))))))))))))))))))))))"

definition start :: "app_env \<Rightarrow> machine \<Rightarrow> unit app" where
  "start env m =
     sbind (quiet m) (\<lambda>m _.
     sbind (load_installation env m) (\<lambda>m (config, secrets).
     sbind (require_no_incomplete_operation m) (\<lambda>m _.
     sbind (app_require (ds_lifecycle (mc_memory m) \<noteq> RestoreRequired) ''installation requires a restore'' m) (\<lambda>m _.
     sbind (quiet m) (\<lambda>m _.
     sbind (pending_version m) (\<lambda>m version.
     sbind (ensure_recorded_images (ic_images config) (dv_traefik version) m) (\<lambda>m _.
     sbind (materialize m) (\<lambda>m _.
     sbind (docker (ValidateProject config) m) (\<lambda>m _.
     sbind (start_and_verify env config m) (\<lambda>m _.
     save env (set_memory (\<lambda>s. s\<lparr>ds_lifecycle := Running\<rparr>) m)))))))))))"

definition stop :: "app_env \<Rightarrow> machine \<Rightarrow> unit app" where
  "stop env m =
     sbind (quiet m) (\<lambda>m _.
     sbind (load_installation env m) (\<lambda>m _.
     sbind (require_no_incomplete_operation m) (\<lambda>m _.
     sbind (quiet m) (\<lambda>m _.
     sbind (docker StopAll m) (\<lambda>m _.
     save env (set_memory mark_stopped m))))))"

definition backup_command :: "app_env \<Rightarrow> ustr option \<Rightarrow> ustr option \<Rightarrow> machine \<Rightarrow> unit app" where
  "backup_command env name external_database_backup m =
     sbind (quiet m) (\<lambda>m _.
     sbind (load_installation env m) (\<lambda>m (config, secrets).
     sbind (require_no_incomplete_operation m) (\<lambda>m _.
     sbind (quiet m) (\<lambda>m _.
     let restore_stopped_database =
           (is_bundled config \<and> ds_lifecycle (mc_memory m) \<in> {Stopped, UninstalledDataPreserved});
         out = sbind (if is_bundled config then docker (UpDatabase config) m else (m, Inr ())) (\<lambda>m _.
               create_backup env name external_database_backup True config m) in
     sbind (if restore_stopped_database then run_with_guaranteed_cleanup out (docker StopDatabase) else out) (\<lambda>m backup_name.
     save env (set_memory (\<lambda>s. s\<lparr>ds_last_verified_backup := Some backup_name\<rparr>) m))))))"

section \<open>Update\<close>

definition recover_failed_update :: "app_env \<Rightarrow> machine \<Rightarrow> unit app" where
  "recover_failed_update env m =
     sbind (m, rollback_decision (mc_memory m)) (\<lambda>m decision.
     if decision = StopAndRestoreVerifiedBackup then
       sbind (pending_version m) (\<lambda>m _.
       case docker StopApplication m of
         (m, Inl Crashed) \<Rightarrow> (m, Inl Crashed)
       | (m, _) \<Rightarrow> save env (set_memory mark_restore_required m))
     else
       sbind (m, ok_or (Failed ''update recovery has no previous known-good version'') (ds_previous_good (mc_memory m))) (\<lambda>m previous.
       sbind (read_json mc_rollback_config m) (\<lambda>m previous_config.
       sbind (app_require (previous_config = dv_config previous) ''rollback snapshot does not match'' m) (\<lambda>m _.
       sbind (read_json mc_rollback_secrets m) (\<lambda>m previous_secrets.
       sbind (app_require (validate_for env previous_config previous_secrets) ''invalid secrets'' m) (\<lambda>m _.
       sbind (persist_active_configuration previous_config previous_secrets m) (\<lambda>m _.
       sbind (materialize m) (\<lambda>m _.
       sbind (start_and_verify env previous_config m) (\<lambda>m _.
       sbind (on_memory restore_previous_version m) (\<lambda>m _.
       save env m))))))))))"

definition recover_interrupted_update :: "app_env \<Rightarrow> machine \<Rightarrow> unit app" where
  "recover_interrupted_update env m =
     (case ds_operation (mc_memory m) of
        None \<Rightarrow> app_fail ''incomplete operation has no journal'' m
      | Some operation \<Rightarrow>
          sbind (app_require (oj_kind operation = Update) ''an incomplete non-update operation requires explicit recovery'' m) (\<lambda>m _.
          sbind (quiet m) (\<lambda>m _. recover_failed_update env m)))"

definition update_run :: "app_env \<Rightarrow> InstallationConfig \<Rightarrow> machine \<Rightarrow> unit app" where
  "update_run env candidate_config m =
     sbind (docker (ValidateProject candidate_config) m) (\<lambda>m _.
     sbind (if is_bundled candidate_config then docker (UpDatabase candidate_config) m else (m, Inr ())) (\<lambda>m _.
     sbind (advance_checkpoint env DatabaseReady m) (\<lambda>m _.
     sbind (docker (DatabasePreflight candidate_config) m) (\<lambda>m _.
     sbind (advance_checkpoint env PreflightPassed m) (\<lambda>m _.
     sbind (advance_checkpoint env MigrationStarted m) (\<lambda>m _.
     sbind (docker (DatabaseMigrate candidate_config) m) (\<lambda>m _.
     sbind (advance_checkpoint env MigrationCompleted m) (\<lambda>m _.
     sbind (start_and_verify env candidate_config m) (\<lambda>m _.
     sbind (advance_checkpoint env ServicesStarted m) (\<lambda>m _.
     advance_checkpoint env EdgeReady m))))))))))"

text \<open>A failed update reports its own error, whether its recovery succeeds or not.\<close>

definition update_recover :: "app_env \<Rightarrow> machine \<Rightarrow> string \<Rightarrow> unit app" where
  "update_recover env m e =
     (case recover_failed_update env m of (m, Inl Crashed) \<Rightarrow> (m, Inl Crashed) | (m, _) \<Rightarrow> (m, Inl (Failed e)))"

definition update_candidate ::
    "app_env \<Rightarrow> InstallationConfig \<Rightarrow> InstallationConfig \<Rightarrow> SecretConfig \<Rightarrow> ustr \<Rightarrow> machine \<Rightarrow> unit app" where
  "update_candidate env current_config candidate_config candidate_secrets backup_name m =
     sbind (pull_release_images (ic_images candidate_config) m) (\<lambda>m _.
     sbind (resolve_traefik_latest env m) (\<lambda>m candidate_traefik.
     let application_change =
           (ic_images current_config \<noteq> ic_images candidate_config \<or> ic_database current_config \<noteq> ic_database candidate_config
            \<or> ic_release_version current_config \<noteq> ic_release_version candidate_config) in
     sbind (on_memory (begin_update env \<lparr>dv_config = candidate_config, dv_traefik = candidate_traefik\<rparr> backup_name
              application_change) m) (\<lambda>m _.
     sbind (save env m) (\<lambda>m _.
     sbind (persist_active_configuration candidate_config candidate_secrets m) (\<lambda>m _.
     sbind (materialize m) (\<lambda>m _.
     advance_checkpoint env ImagesResolved m))))))"

definition update :: "app_env \<Rightarrow> request \<Rightarrow> ustr option \<Rightarrow> machine \<Rightarrow> unit app" where
  "update env request external_database_backup m =
     sbind (quiet m) (\<lambda>m _.
     sbind (load_installation env m) (\<lambda>m (current_config, current_secrets).
     if ds_operation (mc_memory m) \<noteq> None then
       sbind (recover_interrupted_update env m) (\<lambda>m _. app_fail ''the interrupted update was recovered'' m)
     else
       sbind (app_require (ds_lifecycle (mc_memory m) = Running) ''update requires a healthy running installation'' m) (\<lambda>m _.
       sbind (load_request request m) (\<lambda>m (candidate_config, secret_input).
       sbind (validate_custom_certificate_files candidate_config m) (\<lambda>m _.
       sbind (ensure_database_identity_unchanged (ic_database current_config) (ic_database candidate_config) m) (\<lambda>m _.
       sbind (app_require (eg_subnet (ic_edge candidate_config) = eg_subnet (ic_edge current_config)
                \<and> eg_proxy_ipv4 (ic_edge candidate_config) = eg_proxy_ipv4 (ic_edge current_config))
                ''update cannot change the active edge subnet or proxy address'' m) (\<lambda>m _.
       let candidate_secrets = update_database_secret env candidate_config secret_input current_secrets in
       sbind (app_require (validate_for env candidate_config candidate_secrets) ''invalid secrets'' m) (\<lambda>m _.
       sbind (quiet m) (\<lambda>m _.
       sbind (create_backup env
                (Some (ascii ''pre-update-'' @ nat_digits (unat (ae_now env)) @ ascii ''-''
                       @ take 8 (ds_installation_id (mc_memory m))))
                external_database_backup True current_config m) (\<lambda>m backup_name.
       sbind (persist_rollback_snapshot current_config current_secrets
                (set_memory (\<lambda>s. s\<lparr>ds_last_verified_backup := Some backup_name\<rparr>) m)) (\<lambda>m _.
       sbind (update_candidate env current_config candidate_config candidate_secrets backup_name m) (\<lambda>m _.
       sbind (on_failure (update_run env candidate_config m) (update_recover env)) (\<lambda>m _.
       sbind (on_memory promote_healthy m) (\<lambda>m _.
       save env m))))))))))))))"

section \<open>Restore and uninstall\<close>

definition restore_database_mode :: "bool \<Rightarrow> InstallationConfig \<Rightarrow> BackupManifest \<Rightarrow> machine \<Rightarrow> unit app" where
  "restore_database_mode external_database_restored config manifest m =
     (case (ic_database config, bm_database manifest) of
        (Bundled _ _, BundledPostgres major_version) \<Rightarrow>
          app_require (major_version = 16) ''backup database mode is incompatible'' m
      | (External _, ExternalOperatorSupplied) \<Rightarrow>
          app_require external_database_restored ''external database restore must be completed first'' m
      | _ \<Rightarrow> app_fail ''backup database mode is incompatible'' m)"

definition restore_run ::
    "app_env \<Rightarrow> ustr \<times> ustr \<Rightarrow> InstallationConfig \<Rightarrow> BackupManifest \<Rightarrow> machine \<Rightarrow> unit app" where
  "restore_run env key config manifest m =
     (let acme = (eg_mode (ic_edge config) = PublicAcme \<and> bm_edge_state_included manifest) in
      sbind (if is_bundled config then
               sbind (docker (UpDatabase config) m) (\<lambda>m _.
               sbind (docker VerifyDump m) (\<lambda>m _. docker (RestoreDump (snd key)) m))
             else (m, Inr ())) (\<lambda>m _.
      sbind (if acme then
               sbind (app_require (case mc_backups m key of None \<Rightarrow> False | Some b \<Rightarrow> ascii ''acme.json'' \<in> set (bd_files b))
                        ''public ACME backup is missing acme.json'' m) (\<lambda>m _. docker CopyToAcmeVolume m)
             else (m, Inr ())) (\<lambda>m _.
      sbind (docker (DatabasePreflight config) m) (\<lambda>m _.
      sbind (on_memory (state_checkpoint MigrationStarted) m) (\<lambda>m _.
      sbind (save env m) (\<lambda>m _.
      sbind (docker (DatabaseMigrate config) m) (\<lambda>m _.
      sbind (on_memory (state_checkpoint MigrationCompleted) m) (\<lambda>m _.
      sbind (save env m) (\<lambda>m _.
      sbind (start_and_verify env config m) (\<lambda>m _.
      if acme then docker RestartTraefik m else (m, Inr ())))))))))))"

definition restore_local_certificate_if_present :: "EdgeMode \<Rightarrow> machine \<Rightarrow> unit app" where
  "restore_local_certificate_if_present edge_mode m = (if edge_mode \<noteq> Local then (m, Inr ()) else quiets 4 m)"

text \<open>Everything before the first change: the backup is complete, belongs here, and can be deployed.\<close>

definition restore_check ::
    "app_env \<Rightarrow> ustr \<Rightarrow> ustr \<Rightarrow> bool \<Rightarrow> InstallationConfig \<Rightarrow> machine
     \<Rightarrow> (BackupManifest \<times> InstallationConfig \<times> SecretConfig \<times> DeploymentState) app" where
  "restore_check env backup_name confirmation external_database_restored current_config m =
     (let key = (ic_backup_directory current_config, backup_name) in
     sbind (app_require (confirmation = ds_installation_id (mc_memory m)) ''restore confirmation does not match'' m) (\<lambda>m _.
     sbind (app_require (\<not> (ds_operation (mc_memory m) \<noteq> None \<and> ds_lifecycle (mc_memory m) \<noteq> RestoreRequired))
              ''another incomplete operation must be resolved before restore'' m) (\<lambda>m _.
     sbind (app_require (validate_backup_name backup_name) ''invalid backup name'' m) (\<lambda>m _.
     sbind (verify_backup key (ds_installation_id (mc_memory m)) m) (\<lambda>m manifest.
     sbind (read_json (\<lambda>m. Option.bind (mc_backups m key) bd_config) m) (\<lambda>m restored_config.
     sbind (app_require (ic_installation_root restored_config = ae_root env) ''backup was created for a different root'' m) (\<lambda>m _.
     sbind (read_json (\<lambda>m. Option.bind (mc_backups m key) bd_secrets) m) (\<lambda>m restored_secrets.
     sbind (app_require (validate_for env restored_config restored_secrets) ''invalid secrets'' m) (\<lambda>m _.
     sbind (read_json (\<lambda>m. Option.bind (mc_backups m key) bd_state) m) (\<lambda>m restored_state.
     sbind (app_require (state_validate env restored_state) ''invalid deployment state'' m) (\<lambda>m _.
     sbind (app_require (ds_installation_id restored_state = ds_installation_id (mc_memory m))
              ''backup state belongs to a different installation'' m) (\<lambda>m _.
     sbind (restore_database_mode external_database_restored restored_config manifest m) (\<lambda>m _.
     sbind (validate_custom_certificate_files restored_config m) (\<lambda>m _.
     (m, Inr (manifest, restored_config, restored_secrets, restored_state))))))))))))))))"

definition clear_operation :: "DeploymentState \<Rightarrow> DeploymentState" where
  "clear_operation s = s\<lparr>ds_operation := None\<rparr>"

definition restore :: "app_env \<Rightarrow> ustr \<Rightarrow> ustr \<Rightarrow> bool \<Rightarrow> machine \<Rightarrow> unit app" where
  "restore env backup_name confirmation external_database_restored m =
     sbind (quiet m) (\<lambda>m _.
     sbind (load_installation env m) (\<lambda>m (current_config, current_secrets).
     sbind (restore_check env backup_name confirmation external_database_restored current_config m)
       (\<lambda>m (manifest, restored_config, restored_secrets, restored_state).
     sbind (quiet m) (\<lambda>m _.
     sbind (docker StopApplication m) (\<lambda>m _.
     sbind (quiets 3 m) (\<lambda>m _.
     sbind (on_memory (begin_restore env backup_name)
              (set_memory (\<lambda>s. if ds_lifecycle s = RestoreRequired then clear_operation s else s) m)) (\<lambda>m _.
     sbind (save env m) (\<lambda>m _.
     sbind (persist_active_configuration restored_config restored_secrets m) (\<lambda>m _.
     sbind (quiet m) (\<lambda>m _.
     sbind (restore_local_certificate_if_present (eg_mode (ic_edge restored_config)) m) (\<lambda>m _.
     sbind (quiet m) (\<lambda>m _.
     sbind (app_require (ds_current restored_state \<noteq> None) ''backup state has no deployed version'' m) (\<lambda>m _.
     sbind (quiet m) (\<lambda>m _.
     sbind (on_memory (begin_restore env backup_name) (set_memory (\<lambda>_. clear_operation restored_state) m)) (\<lambda>m _.
     sbind (save env m) (\<lambda>m _.
     sbind (on_failure (restore_run env (ic_backup_directory current_config, backup_name) restored_config manifest m)
              (fail_restore_required env)) (\<lambda>m _.
     sbind (on_memory promote_healthy m) (\<lambda>m _.
     save env (set_memory (\<lambda>s. s\<lparr>ds_last_verified_backup := Some backup_name\<rparr>) m)))))))))))))))))))"

definition normal_components :: "ustr \<Rightarrow> nat" where
  "normal_components path =
     length (filter (\<lambda>part. part \<noteq> [] \<and> part \<noteq> ascii ''.'' \<and> part \<noteq> ascii ''..'')
       (fold (\<lambda>c parts. if c = 47 then [] # parts else (hd parts @ [c]) # tl parts) path [[]]))"

definition validate_removal_root :: "app_env \<Rightarrow> ustr \<Rightarrow> machine \<Rightarrow> unit app" where
  "validate_removal_root env installation_id m =
     sbind (app_require (is_absolute (ae_root env) \<and> normal_components (ae_root env) \<ge> 2)
              ''refusing to remove an unsafe or overly broad state directory'' m) (\<lambda>m _.
     let live = mc_memory m in
     sbind (state_load env m) (\<lambda>m _.
     sbind (app_require (ds_installation_id (mc_memory m) = installation_id) ''state-directory marker does not match'' m) (\<lambda>m _.
     quiets 2 (m\<lparr>mc_memory := live\<rparr>))))"

text \<open>\<open>remove_dir_all\<close> deletes the files under the root in some order, and can stop between two of them.\<close>

datatype root_file = ConfigFile | SecretsFile | StateFile | RollbackConfigFile | RollbackSecretsFile | BackupFiles "ustr \<times> ustr"

fun remove_root_file :: "root_file \<Rightarrow> machine \<Rightarrow> machine" where
  "remove_root_file ConfigFile m = m\<lparr>mc_config := None\<rparr>"
| "remove_root_file SecretsFile m = m\<lparr>mc_secrets := None\<rparr>"
| "remove_root_file StateFile m = m\<lparr>mc_state := None\<rparr>"
| "remove_root_file RollbackConfigFile m = m\<lparr>mc_rollback_config := None\<rparr>"
| "remove_root_file RollbackSecretsFile m = m\<lparr>mc_rollback_secrets := None\<rparr>"
| "remove_root_file (BackupFiles key) m = m\<lparr>mc_backups := (mc_backups m)(key := None)\<rparr>"

primrec remove_dir_all :: "root_file list \<Rightarrow> machine \<Rightarrow> unit app" where
  "remove_dir_all [] m = (m, Inr ())"
| "remove_dir_all (f # fs) m = sbind (app_step (remove_root_file f) m) (\<lambda>m _. remove_dir_all fs m)"

definition uninstall :: "app_env \<Rightarrow> bool \<Rightarrow> ustr option \<Rightarrow> root_file list \<Rightarrow> machine \<Rightarrow> unit app" where
  "uninstall env remove_data confirmation root_files m =
     sbind (quiet m) (\<lambda>m _.
     sbind (load_installation env m) (\<lambda>m _.
     sbind (require_no_incomplete_operation m) (\<lambda>m _.
     sbind (quiet m) (\<lambda>m _.
     if remove_data then
       sbind (app_require (confirmation = Some (ds_installation_id (mc_memory m))) ''confirmation does not match'' m) (\<lambda>m _.
       sbind (validate_removal_root env (ds_installation_id (mc_memory m)) m) (\<lambda>m _.
       sbind (docker RemoveWithVolumes m) (\<lambda>m _. remove_dir_all root_files m)))
     else
       sbind (docker StopAll m) (\<lambda>m _.
       save env (set_memory (\<lambda>s. s\<lparr>ds_lifecycle := UninstalledDataPreserved\<rparr>) m))))))"

section \<open>Histories\<close>

text \<open>A history: commands one after another, each with its own environment and faults. The next command starts with
  what is on disk; what the last one had in memory is lost.\<close>

datatype command =
    InstallCmd request "ustr option" | StartCmd | StopCmd | BackupCmd "ustr option" "ustr option"
  | UpdateCmd request "ustr option" | RestoreCmd ustr ustr bool | UninstallCmd bool "ustr option" "root_file list"

fun run_command :: "app_env \<Rightarrow> command \<Rightarrow> machine \<Rightarrow> unit app" where
  "run_command env (InstallCmd request external) m = install env request external m"
| "run_command env StartCmd m = start env m"
| "run_command env StopCmd m = stop env m"
| "run_command env (BackupCmd name external) m = backup_command env name external m"
| "run_command env (UpdateCmd request external) m = update env request external m"
| "run_command env (RestoreCmd name confirmation restored) m = restore env name confirmation restored m"
| "run_command env (UninstallCmd remove confirmation files) m = uninstall env remove confirmation files m"

definition empty_machine :: "DeploymentState \<Rightarrow> machine" where
  "empty_machine s = \<lparr>mc_config = None, mc_secrets = None, mc_state = None, mc_rollback_config = None,
     mc_rollback_secrets = None, mc_backups = (\<lambda>_. None), mc_memory = s, mc_trace = [], mc_faults = []\<rparr>"

inductive reachable :: "machine \<Rightarrow> bool" where
  fresh_machine: "reachable (empty_machine s)"
| next_command: "reachable m \<Longrightarrow> reachable (fst (run_command env cmd (m\<lparr>mc_memory := s, mc_faults := faults\<rparr>)))"

end
