(* ===== verification/Appliance_Phases.thy ===== *)
theory Appliance_Phases
  imports Appliance_Commands
begin

text \<open>
  The rules that the proofs about the installer's commands are made of. \<open>after E Q out\<close> of the prelude
  says that \<open>E\<close> holds where an operation stops early, by an error or a crash, and \<open>Q\<close> where it succeeds. \<open>safe\<close> is the invariant of
  the disk and of the recorded Docker commands; \<open>live\<close> and \<open>synced\<close> add what the journal in memory is to the one on disk.
  A \<open>phase\<close> is a predicate that the operations without a visible effect keep.
\<close>

section \<open>Results\<close>

lemma after_on_failure:
  assumes "after E P out" "\<And>m e. E m \<Longrightarrow> after F P (handler m e)" "\<And>m. E m \<Longrightarrow> F m"
  shows "after F P (on_failure out handler)"
proof -
  obtain m r where out: "out = (m, r)"
    by (cases out)
  show ?thesis
    using assms(1) assms(2) [of m] assms(3) [of m] unfolding on_failure_def out
    by (auto split: sum.splits app_stop.splits)
qed

lemma after_app_step:
  assumes "\<And>fs. E (m\<lparr>mc_faults := fs\<rparr>)" "\<And>fs. Q () (effect (m\<lparr>mc_faults := fs\<rparr>))"
    and "\<And>fs. E (effect (m\<lparr>mc_faults := fs\<rparr>))"
  shows "after E Q (app_step effect m)"
proof -
  have same: "m = m\<lparr>mc_faults := mc_faults m\<rparr>"
    by simp
  show ?thesis
    using assms assms(2) [of "mc_faults m"]
    by (auto simp: app_step_def take_fault_def split: list.splits app_fault.splits simp flip: same)
qed

lemma after_app_fail [simp]: "after E Q (app_fail msg m) \<longleftrightarrow> E m"
  by (simp add: app_fail_def)

lemma after_app_require: "(b \<Longrightarrow> Q () m) \<Longrightarrow> (\<not> b \<Longrightarrow> E m) \<Longrightarrow> after E Q (app_require b msg m)"
  by (simp add: app_require_def)

lemma after_on_memory:
  assumes "\<And>s. f (mc_memory m) = Inr s \<Longrightarrow> Q () (m\<lparr>mc_memory := s\<rparr>)" "E m"
  shows "after E Q (on_memory f m)"
  using assms by (auto simp: on_memory_def split: sum.splits)

lemma after_cleanup:
  assumes "after E P out" "\<And>x m. P x m \<Longrightarrow> after E (\<lambda>_. P x) (cleanup m)" "\<And>m. E m \<Longrightarrow> after E (\<lambda>_. E) (cleanup m)"
  shows "after E P (run_with_guaranteed_cleanup out cleanup)"
proof -
  obtain m r where out: "out = (m, r)"
    by (cases out)
  obtain m' r' where run: "cleanup m = (m', r')"
    by (cases "cleanup m")
  show ?thesis
    using assms(1) assms(2) [of _ m] assms(3) [of m] unfolding run_with_guaranteed_cleanup_def out
    by (auto simp: run split: sum.splits app_stop.splits)
qed

section \<open>The invariant\<close>

definition required_files :: "ustr list" where
  "required_files = map ascii [''config.json'', ''secrets.json'', ''state.json'', ''database.dump'']"

definition verified_backup :: "backups \<Rightarrow> ustr \<Rightarrow> ustr \<Rightarrow> bool" where
  "verified_backup bks name installation_id \<longleftrightarrow>
     (\<exists>dir b manifest. bks (dir, name) = Some b \<and> bd_manifest b = Some manifest
        \<and> bm_installation_id manifest = installation_id \<and> set required_files \<subseteq> set (bm_files manifest))"

text \<open>The backup that the journal names: an install notes it in the state, the others in the operation.\<close>

definition recorded_backup :: "DeploymentState \<Rightarrow> OperationJournal \<Rightarrow> ustr option" where
  "recorded_backup s operation =
     (if oj_kind operation = Install then ds_last_verified_backup s else oj_backup_name operation)"

definition journal_backed :: "backups \<Rightarrow> DeploymentState \<Rightarrow> bool" where
  "journal_backed bks s \<longleftrightarrow>
     (\<forall>operation. ds_operation s = Some operation \<longrightarrow> BackupVerified \<le> oj_checkpoint operation \<longrightarrow>
        (\<exists>name. recorded_backup s operation = Some name \<and> verified_backup bks name (ds_installation_id s)))"

definition config_of :: "DeploymentState \<Rightarrow> InstallationConfig option" where
  "config_of s = map_option dv_config (ds_current s)"

text \<open>The schema may be new: the journal says that the migration started, and the images changed.\<close>

definition schema_may_be_new :: "DeploymentState \<Rightarrow> bool" where
  "schema_may_be_new s \<longleftrightarrow>
     (\<exists>operation. ds_operation s = Some operation \<and> MigrationStarted \<le> oj_checkpoint operation
        \<and> oj_application_images_changed operation)"

fun moment_ok :: "app_event \<Rightarrow> DeploymentState option \<Rightarrow> backups \<Rightarrow> bool" where
  "moment_ok (DatabaseMigrate config) durable bks \<longleftrightarrow>
     (\<exists>s operation name. durable = Some s \<and> ds_operation s = Some operation
        \<and> MigrationStarted \<le> oj_checkpoint operation \<and> recorded_backup s operation = Some name
        \<and> verified_backup bks name (ds_installation_id s))"
| "moment_ok (UpAll config) durable bks \<longleftrightarrow>
     (\<forall>s. durable = Some s \<longrightarrow> schema_may_be_new s \<longrightarrow> config_of s = Some config)"
| "moment_ok _ durable bks \<longleftrightarrow> True"

definition backup_consistent :: "backup_dir \<Rightarrow> bool" where
  "backup_consistent b \<longleftrightarrow>
     (\<forall>c s. bd_config b = Some c \<longrightarrow> bd_state b = Some s \<longrightarrow> config_of s = Some c)"

definition safe :: "machine \<Rightarrow> bool" where
  "safe m \<longleftrightarrow>
     (\<forall>s. mc_state m = Some s \<longrightarrow> journal_backed (mc_backups m) s)
     \<and> (\<forall>s operation. mc_state m = Some s \<longrightarrow> ds_operation s = Some operation \<longrightarrow> oj_kind operation = Install \<longrightarrow>
          mc_config m = config_of s)
     \<and> (\<forall>key b. mc_backups m key = Some b \<longrightarrow> backup_consistent b)
     \<and> list_all (\<lambda>mo. moment_ok (mo_event mo) (mo_state mo) (mo_backups mo)) (mc_trace m)"

text \<open>\<open>live\<close>: the journal in memory may be one checkpoint ahead of the one on disk, never behind.\<close>

fun journal_le :: "OperationJournal option \<Rightarrow> OperationJournal option \<Rightarrow> bool" where
  "journal_le None None \<longleftrightarrow> True"
| "journal_le (Some a) (Some b) \<longleftrightarrow>
     oj_checkpoint a \<le> oj_checkpoint b \<and> oj_kind a = oj_kind b
     \<and> oj_application_images_changed a = oj_application_images_changed b"
| "journal_le _ _ \<longleftrightarrow> False"

definition live :: "machine \<Rightarrow> bool" where
  "live m \<longleftrightarrow> safe m \<and> journal_backed (mc_backups m) (mc_memory m)
     \<and> (\<exists>s. mc_state m = Some s \<and> journal_le (ds_operation s) (ds_operation (mc_memory m))
          \<and> config_of s = config_of (mc_memory m))"

definition synced :: "machine \<Rightarrow> bool" where
  "synced m \<longleftrightarrow> live m \<and> map_option ds_operation (mc_state m) = Some (ds_operation (mc_memory m))"

lemma synced_live: "synced m \<Longrightarrow> live m"
  by (simp add: synced_def)

lemma live_safe: "live m \<Longrightarrow> safe m"
  by (simp add: live_def)

lemma journal_le_refl [simp]: "journal_le a a"
  by (cases a) simp_all

lemma safe_faults [simp]: "safe (m\<lparr>mc_faults := fs\<rparr>) = safe m"
  by (simp add: safe_def)

lemma live_faults [simp]: "live (m\<lparr>mc_faults := fs\<rparr>) = live m"
  by (simp add: live_def)

lemma synced_faults [simp]: "synced (m\<lparr>mc_faults := fs\<rparr>) = synced m"
  by (simp add: synced_def)

lemma safe_memory [simp]: "safe (m\<lparr>mc_memory := s\<rparr>) = safe m"
  by (simp add: safe_def)

definition event_ok :: "app_event \<Rightarrow> machine \<Rightarrow> bool" where
  "event_ok ev m = moment_ok ev (mc_state m) (mc_backups m)"

definition harmless :: "app_event \<Rightarrow> bool" where
  "harmless ev = (case ev of DatabaseMigrate _ \<Rightarrow> False | UpAll _ \<Rightarrow> False | _ \<Rightarrow> True)"

lemma harmless_ok: "harmless ev \<Longrightarrow> event_ok ev m"
  by (cases ev) (simp_all add: harmless_def event_ok_def)

lemma safe_event: "safe m \<Longrightarrow> event_ok ev m \<Longrightarrow> safe (record_event ev m)"
  by (simp add: safe_def record_event_def event_ok_def)

lemma record_event_fields [simp]:
  "mc_state (record_event ev m) = mc_state m" "mc_memory (record_event ev m) = mc_memory m"
  "mc_backups (record_event ev m) = mc_backups m" "mc_config (record_event ev m) = mc_config m"
  "mc_secrets (record_event ev m) = mc_secrets m" "mc_rollback_config (record_event ev m) = mc_rollback_config m"
  "mc_rollback_secrets (record_event ev m) = mc_rollback_secrets m"
  by (simp_all add: record_event_def)

lemma live_event: "live m \<Longrightarrow> event_ok ev m \<Longrightarrow> live (record_event ev m)"
  by (simp add: live_def safe_event)

lemma synced_event: "synced m \<Longrightarrow> event_ok ev m \<Longrightarrow> synced (record_event ev m)"
  by (simp add: synced_def live_event)

section \<open>Phases\<close>

locale phase =
  fixes P :: "machine \<Rightarrow> bool" and E :: "machine \<Rightarrow> bool"
  assumes kept_faults: "P m \<Longrightarrow> P (m\<lparr>mc_faults := fs\<rparr>)"
    and kept_event: "P m \<Longrightarrow> event_ok ev m \<Longrightarrow> P (record_event ev m)"
    and stops: "P m \<Longrightarrow> E m"
begin

lemma quiet_ok: "P m \<Longrightarrow> after E (\<lambda>_. P) (quiet m)"
  unfolding quiet_def by (rule after_app_step) (simp_all add: kept_faults stops)

lemma quiets_ok: "P m \<Longrightarrow> after E (\<lambda>_. P) (quiets n m)"
proof (induction n arbitrary: m)
  case (Suc n)
  show ?case
    using Suc.IH by (simp, intro after_sbind [OF quiet_ok [OF Suc.prems]])
qed simp

lemma materialize_ok: "P m \<Longrightarrow> after E (\<lambda>_. P) (materialize m)"
  by (simp add: materialize_def quiets_ok)

lemma docker_ok:
  assumes "P m" "event_ok ev m"
  shows "after E (\<lambda>_. P) (docker ev m)"
proof -
  have ok: "event_ok ev (m\<lparr>mc_faults := fs\<rparr>)" for fs
    using assms(2) by (simp add: event_ok_def)
  show ?thesis
    unfolding docker_def using assms(1) ok by (intro after_app_step) (simp_all add: kept_faults kept_event stops)
qed

lemma docker_harmless: "P m \<Longrightarrow> harmless ev \<Longrightarrow> after E (\<lambda>_. P) (docker ev m)"
  by (simp add: docker_ok harmless_ok)

lemma require_ok: "P m \<Longrightarrow> after E (\<lambda>_ m. P m \<and> b) (app_require b msg m)"
  by (rule after_app_require) (simp_all add: stops)

lemma require_same: "P m \<Longrightarrow> after E (\<lambda>_ m'. m' = m \<and> P m' \<and> b) (app_require b msg m)"
  by (rule after_app_require) (simp_all add: stops)

lemma read_json_ok: "P m \<Longrightarrow> after E (\<lambda>x m. P m \<and> field m = Some x) (read_json field m)"
  unfolding read_json_def
  by (rule after_sbind [OF quiet_ok]) (auto simp: after_def stops elim: ok_or.elims split: prod.splits sum.splits)

lemma pending_version_ok: "P m \<Longrightarrow> after E (\<lambda>v m. P m \<and> ds_current (mc_memory m) = Some v) (pending_version m)"
  by (cases "ds_current (mc_memory m)") (simp_all add: pending_version_def stops)

lemma pull_release_images_ok: "P m \<Longrightarrow> after E (\<lambda>_. P) (pull_release_images images m)"
  unfolding pull_release_images_def
  by (rule after_sbind [OF require_ok]) (simp_all add: docker_harmless harmless_def)

lemma ensure_recorded_images_ok: "P m \<Longrightarrow> after E (\<lambda>_. P) (ensure_recorded_images images traefik m)"
  unfolding ensure_recorded_images_def
  by (rule after_sbind [OF require_ok]) (simp_all add: docker_harmless harmless_def)

lemma option_ok: "P m \<Longrightarrow> after E (\<lambda>x m. P m \<and> v = Some x) (m, ok_or e v)"
  by (cases v) (simp_all add: stops)

lemma resolve_traefik_latest_ok: "P m \<Longrightarrow> after E (\<lambda>_. P) (resolve_traefik_latest env m)"
  unfolding resolve_traefik_latest_def
  by (intro after_sbind [OF docker_harmless] after_sbind [OF quiet_ok] after_sbind [OF option_ok])
    (simp_all add: harmless_def)

lemma validate_custom_certificate_files_ok: "P m \<Longrightarrow> after E (\<lambda>_. P) (validate_custom_certificate_files config m)"
  unfolding validate_custom_certificate_files_def
  by (auto intro!: after_sbind [OF require_ok] quiets_ok)

lemma load_request_ok: "P m \<Longrightarrow> after E (\<lambda>r m. P m \<and> request = Some r) (load_request request m)"
  unfolding load_request_def by (rule after_sbind [OF quiet_ok]) (simp_all add: option_ok)

lemma verify_backup_ok:
  assumes "P m"
  shows "after E (\<lambda>manifest m. P m \<and> verified_backup (mc_backups m) (snd key) installation_id)
           (verify_backup key installation_id m)"
proof -
  let ?R = "\<lambda>manifest m. P m \<and> Option.bind (mc_backups m key) bd_manifest = Some manifest"
  have "phase (?R manifest) E" for manifest
    by unfold_locales (auto simp: kept_faults kept_event stops)
  note R = phase.require_ok [OF this] phase.quiets_ok [OF this]
  have final: "verified_backup (mc_backups m) (snd key) installation_id"
    if "?R manifest m" "bm_installation_id manifest = installation_id" "set required_files \<subseteq> set (bm_files manifest)"
    for manifest m
    using that unfolding verified_backup_def by (cases key) (auto simp: bind_eq_Some_conv)
  show ?thesis
    unfolding verify_backup_def
    apply (rule after_sbind [OF read_json_ok [OF assms]])
    apply (rule after_sbind [OF R(1)], assumption)
    apply (rule after_sbind [OF R(1)], blast)
    apply (rule after_sbind [OF R(1)], blast)
    subgoal for manifest _ _ _ _ _ m'
      apply (rule after_sbind [where P = "\<lambda>_ m. ?R manifest m"])
       apply (rule after_weaken [OF R(1)], blast, blast, blast)
      apply (rule after_sbind [OF R(2)], assumption)
      apply (rule after_sbind [OF R(1)], assumption)
      using final by (auto simp: required_files_def)
    done
qed

end

lemma phase_conj:
  assumes "phase P E" "\<And>m fs. Q (m\<lparr>mc_faults := fs\<rparr>) = Q m" "\<And>m ev. Q (record_event ev m) = Q m"
  shows "phase (\<lambda>m. P m \<and> Q m) E"
  using assms by unfold_locales (auto simp: phase_def)

interpretation safely: phase safe safe
  by unfold_locales (simp_all add: safe_event)

interpretation lively: phase live live
  by unfold_locales (simp_all add: live_event)

interpretation in_sync: phase synced live
  by unfold_locales (simp_all add: synced_event synced_live)

end
