(* ===== verification/Appliance_Backup.thy ===== *)
theory Appliance_Backup
  imports Appliance_Phases
begin

text \<open>
  What saving the journal, advancing its checkpoint and making a backup keep. A new backup never
  touches a finished one: it fills a directory that did not exist, and only that directory is renamed on failure.
\<close>

section \<open>Saving\<close>

text \<open>Where a command at work on an operation of this kind may stop.\<close>

definition busy :: "OperationKind \<Rightarrow> machine \<Rightarrow> bool" where
  "busy kind m \<longleftrightarrow> live m \<and> map_option oj_kind (ds_operation (mc_memory m)) = Some kind"

definition covers :: "OperationKind \<Rightarrow> (machine \<Rightarrow> bool) \<Rightarrow> bool" where
  "covers kind E \<longleftrightarrow> (\<forall>m. busy kind m \<longrightarrow> E m)"

lemma covers_simps [simp]: "covers kind (busy kind)" "covers kind live" "covers kind safe"
  by (simp_all add: covers_def busy_def live_safe)

lemma coversD: "covers kind E \<Longrightarrow> busy kind m \<Longrightarrow> E m"
  by (simp add: covers_def)

lemma recorded_backup_simps [simp]:
  "recorded_backup (s\<lparr>ds_last_transition_unix := t\<rparr>) = recorded_backup s"
  "recorded_backup (s\<lparr>ds_operation := oo\<rparr>) = recorded_backup s"
  "recorded_backup s (operation\<lparr>oj_checkpoint := c\<rparr>) = recorded_backup s operation"
  by (auto simp: recorded_backup_def fun_eq_iff)

lemma stamp_journal [simp]:
  "journal_backed bks (s\<lparr>ds_last_transition_unix := t\<rparr>) = journal_backed bks s"
  "config_of (s\<lparr>ds_last_transition_unix := t\<rparr>) = config_of s"
  by (simp_all add: journal_backed_def config_of_def)

definition savable :: "machine \<Rightarrow> bool" where
  "savable m \<longleftrightarrow> safe m \<and> journal_backed (mc_backups m) (mc_memory m)
     \<and> (\<forall>operation. ds_operation (mc_memory m) = Some operation \<longrightarrow> oj_kind operation = Install \<longrightarrow>
          mc_config m = config_of (mc_memory m))"

lemma live_savable: "live m \<Longrightarrow> savable m"
  by (auto simp: live_def savable_def safe_def elim!: journal_le.elims(2))

definition saved :: "machine \<Rightarrow> machine \<Rightarrow> bool" where
  "saved m m' \<longleftrightarrow> (\<exists>fs t. let s = (mc_memory m)\<lparr>ds_last_transition_unix := t\<rparr> in
     m' = m\<lparr>mc_memory := s, mc_faults := fs, mc_state := Some s\<rparr>)"

lemma save_ok:
  assumes "savable m"
    and "\<And>m'. synced m' \<Longrightarrow> saved m m' \<Longrightarrow> E m'"
    and "\<And>t fs. E (m\<lparr>mc_memory := (mc_memory m)\<lparr>ds_last_transition_unix := t\<rparr>, mc_faults := fs\<rparr>)"
  shows "after E (\<lambda>_ m'. synced m' \<and> saved m m') (save env m)"
proof -
  let ?m = "\<lambda>fs. m\<lparr>mc_memory := (mc_memory m)\<lparr>ds_last_transition_unix := ae_now env\<rparr>, mc_faults := fs,
                   mc_state := Some ((mc_memory m)\<lparr>ds_last_transition_unix := ae_now env\<rparr>)\<rparr>"
  have sync: "synced (?m fs)" "saved m (?m fs)" for fs
    using assms(1) by (auto simp: savable_def synced_def live_def safe_def saved_def Let_def)
  show ?thesis
    unfolding save_def Let_def using assms(3) sync assms(2) [OF sync] by (intro after_app_step) simp_all
qed

lemma save_safe: "savable m \<Longrightarrow> after safe (\<lambda>_ m'. synced m' \<and> saved m m') (save env m)"
  by (rule save_ok) (simp_all add: savable_def synced_live live_safe)

lemma live_stamp [simp]: "live (m\<lparr>mc_memory := (mc_memory m)\<lparr>ds_last_transition_unix := t\<rparr>\<rparr>) = live m"
  by (simp add: live_def)

lemma save_busy:
  assumes "busy kind m" "covers kind E"
  shows "after E (\<lambda>_ m'. synced m' \<and> saved m m') (save env m)"
proof (rule save_ok)
  show "savable m"
    using assms(1) by (simp add: busy_def live_savable)
  show "E m'" if "synced m'" "saved m m'" for m'
    using that assms(1) by (intro coversD [OF assms(2)]) (auto simp: busy_def saved_def Let_def synced_live)
qed (use assms in \<open>auto simp: busy_def intro: coversD [OF assms(2)]\<close>)

section \<open>Checkpoints\<close>

text \<open>A command at work: the journal on disk is the one in memory, for this kind of operation and this configuration,
  and has reached the checkpoint.\<close>

definition working :: "OperationKind \<Rightarrow> InstallationConfig \<Rightarrow> Checkpoint \<Rightarrow> machine \<Rightarrow> bool" where
  "working kind config checkpoint m \<longleftrightarrow> synced m \<and> config_of (mc_memory m) = Some config
     \<and> (\<exists>operation. ds_operation (mc_memory m) = Some operation \<and> oj_kind operation = kind
          \<and> checkpoint \<le> oj_checkpoint operation)"

lemma working_busy: "working kind config checkpoint m \<Longrightarrow> busy kind m"
  by (auto simp: working_def busy_def synced_live)

lemma working_phase: "covers kind E \<Longrightarrow> phase (working kind config checkpoint) E"
  by unfold_locales (simp_all add: coversD working_busy, simp_all add: working_def synced_event)

lemma working_synced: "working kind config checkpoint m \<Longrightarrow> synced m"
  by (simp add: working_def)

lemma working_live: "working kind config checkpoint m \<Longrightarrow> live m"
  by (simp add: working_def synced_live)

lemma working_durable:
  assumes "working kind config checkpoint m"
  obtains s operation where "mc_state m = Some s" "ds_operation s = Some operation" "checkpoint \<le> oj_checkpoint operation"
    "oj_kind operation = kind" "config_of s = Some config" "journal_backed (mc_backups m) s"
  using assms unfolding working_def synced_def live_def safe_def by auto

lemma working_config: "working Install config checkpoint m \<Longrightarrow> mc_config m = Some config"
  using working_durable [of Install config checkpoint m] working_live [THEN live_safe]
  unfolding safe_def by metis

lemma migrate_ok:
  assumes "working kind config checkpoint m" "MigrationStarted \<le> checkpoint"
  shows "event_ok (DatabaseMigrate c) m"
proof -
  obtain s operation where d: "mc_state m = Some s" "ds_operation s = Some operation" "checkpoint \<le> oj_checkpoint operation"
    "journal_backed (mc_backups m) s"
    by (rule working_durable [OF assms(1)])
  have reached: "MigrationStarted \<le> oj_checkpoint operation"
    using assms(2) d(3) by (rule order.trans)
  have "BackupVerified \<le> oj_checkpoint operation"
    by (rule order.trans [OF _ reached]) (simp add: less_eq_Checkpoint_def)
  then show ?thesis
    using d reached by (auto simp: event_ok_def journal_backed_def)
qed

lemma up_all_ok: "working kind config checkpoint m \<Longrightarrow> event_ok (UpAll config) m"
  by (erule working_durable) (simp add: event_ok_def)

lemma journal_backed_checkpoint:
  assumes "journal_backed bks s" "ds_operation s = Some operation"
    and "c < BackupVerified \<or> BackupVerified \<le> oj_checkpoint operation"
  shows "journal_backed bks (s\<lparr>ds_operation := Some (operation\<lparr>oj_checkpoint := c\<rparr>)\<rparr>)"
  using assms by (auto simp: journal_backed_def)

text \<open>The journal in memory has moved to the checkpoint, and is not yet on disk.\<close>

definition ahead :: "OperationKind \<Rightarrow> InstallationConfig \<Rightarrow> Checkpoint \<Rightarrow> machine \<Rightarrow> bool" where
  "ahead kind config checkpoint m \<longleftrightarrow> busy kind m \<and> config_of (mc_memory m) = Some config
     \<and> (\<exists>operation. ds_operation (mc_memory m) = Some operation \<and> checkpoint \<le> oj_checkpoint operation)"

lemma checkpoint_ahead:
  assumes "working kind config p m" "covers kind E" "c < BackupVerified \<or> BackupVerified \<le> p"
  shows "after E (\<lambda>_. ahead kind config (max p c)) (on_memory (state_checkpoint c) m)"
proof (rule after_on_memory)
  show "E m"
    by (rule coversD [OF assms(2) working_busy [OF assms(1)]])
  fix s
  assume step: "state_checkpoint c (mc_memory m) = Inr s"
  obtain operation where op: "ds_operation (mc_memory m) = Some operation" "oj_kind operation = kind" "p \<le> oj_checkpoint operation"
    using assms(1) by (auto simp: working_def)
  have later: "oj_checkpoint operation \<le> c"
    and s: "s = (mc_memory m)\<lparr>ds_operation := Some (operation\<lparr>oj_checkpoint := c\<rparr>)\<rparr>"
    using step op by (auto simp: state_checkpoint_def split: if_splits)
  have backed: "journal_backed (mc_backups m) s"
    unfolding s using assms(1,3) op order.trans [OF _ op(3)]
    by (intro journal_backed_checkpoint) (auto simp: working_def synced_def live_def)
  have "live (m\<lparr>mc_memory := s\<rparr>)"
    using assms(1) op later backed by (auto simp: s working_def synced_def live_def config_of_def)
  then show "ahead kind config (max p c) (m\<lparr>mc_memory := s\<rparr>)"
    using assms(1) op later by (auto simp: ahead_def busy_def s working_def config_of_def)
qed

lemma save_ahead:
  assumes "ahead kind config c m" "covers kind E"
  shows "after E (\<lambda>_. working kind config c) (save env m)"
  using assms(1)
  by (intro after_weaken [OF save_busy [OF _ assms(2)]])
    (auto simp: ahead_def busy_def saved_def Let_def working_def)

lemma advance_checkpoint_ok:
  assumes "working kind config p m" "covers kind E" "c < BackupVerified \<or> BackupVerified \<le> p"
  shows "after E (\<lambda>_. working kind config (max p c)) (advance_checkpoint env c m)"
proof -
  obtain operation where op: "ds_operation (mc_memory m) = Some operation" "p \<le> oj_checkpoint operation"
    using assms(1) by (auto simp: working_def)
  have "after E (\<lambda>_. working kind config (max p c)) (sbind (on_memory (state_checkpoint c) m) (\<lambda>m _. save env m))"
    using assms by (intro after_sbind [OF checkpoint_ahead] save_ahead)
  moreover have "working kind config (max p c) m" if "\<not> oj_checkpoint operation < c"
    using assms(1) op that by (auto simp: working_def)
  ultimately show ?thesis
    using op by (auto simp: advance_checkpoint_def)
qed

section \<open>Backups\<close>

text \<open>A directory without a manifest can be changed, created or renamed: no finished backup is lost.\<close>

definition unfinished :: "backups \<Rightarrow> ustr \<times> ustr \<Rightarrow> bool" where
  "unfinished bks key \<longleftrightarrow> Option.bind (bks key) bd_manifest = None"

lemma verified_backup_upd:
  "unfinished bks key \<Longrightarrow> verified_backup bks name i \<Longrightarrow> verified_backup (bks(key := b)) name i"
  unfolding verified_backup_def unfinished_def
  by (elim exE conjE, rule_tac x = dir in exI) (auto simp: bind_eq_None_conv)

lemma journal_backed_upd:
  "unfinished bks key \<Longrightarrow> journal_backed bks s \<Longrightarrow> journal_backed (bks(key := b)) s"
  unfolding journal_backed_def by (meson verified_backup_upd)

lemma safe_upd:
  assumes "safe m" "unfinished (mc_backups m) key" "\<And>b'. b = Some b' \<Longrightarrow> backup_consistent b'"
  shows "safe (m\<lparr>mc_backups := (mc_backups m)(key := b)\<rparr>)"
  using assms by (auto simp: safe_def journal_backed_upd)

lemma live_upd:
  assumes "live m" "unfinished (mc_backups m) key" "\<And>b'. b = Some b' \<Longrightarrow> backup_consistent b'"
  shows "live (m\<lparr>mc_backups := (mc_backups m)(key := b)\<rparr>)"
  using assms by (auto simp: live_def safe_upd journal_backed_upd)

lemma synced_upd:
  assumes "synced m" "unfinished (mc_backups m) key" "\<And>b'. b = Some b' \<Longrightarrow> backup_consistent b'"
  shows "synced (m\<lparr>mc_backups := (mc_backups m)(key := b)\<rparr>)"
  using assms by (auto simp: synced_def live_upd)

text \<open>While a backup is written, the journals and the configuration do not change, and the directory holds copies of them.\<close>

definition copies_of :: "DeploymentState \<Rightarrow> backup_dir \<Rightarrow> bool" where
  "copies_of d b \<longleftrightarrow> bd_config b \<in> {None, config_of d} \<and> bd_state b \<in> {None, Some d}"

definition same_files :: "machine \<Rightarrow> machine \<Rightarrow> bool" where
  "same_files m0 m \<longleftrightarrow> mc_memory m = mc_memory m0 \<and> mc_state m = mc_state m0 \<and> mc_config m = mc_config m0
     \<and> mc_secrets m = mc_secrets m0 \<and> mc_rollback_config m = mc_rollback_config m0
     \<and> mc_rollback_secrets m = mc_rollback_secrets m0"

definition writing :: "machine \<Rightarrow> DeploymentState \<Rightarrow> ustr \<times> ustr \<Rightarrow> machine \<Rightarrow> bool" where
  "writing m0 d key m \<longleftrightarrow> synced m \<and> same_files m0 m \<and> mc_state m0 = Some d \<and> mc_config m0 = config_of d
     \<and> (\<exists>b. mc_backups m key = Some b \<and> bd_manifest b = None \<and> copies_of d b)"

lemma copies_consistent: "copies_of d b \<Longrightarrow> backup_consistent b"
  by (auto simp: copies_of_def backup_consistent_def)

text \<open>Where a backup stops, its directory has no manifest.\<close>

definition abandoned :: "ustr \<times> ustr \<Rightarrow> machine \<Rightarrow> bool" where
  "abandoned key m \<longleftrightarrow> live m \<and> unfinished (mc_backups m) key"

interpretation stopped: phase "abandoned key" "abandoned key" for key
  by unfold_locales (simp_all add: abandoned_def live_event)

interpretation backing: phase "writing m0 d key" "abandoned key" for m0 d key
  by unfold_locales
    (auto simp: abandoned_def writing_def same_files_def unfinished_def synced_event intro: synced_live)

lemma add_file_ok:
  assumes "writing m0 d key m"
    and f: "\<And>b. copies_of d b \<Longrightarrow> copies_of d (f b)" "\<And>b. bd_manifest (f b) = bd_manifest b"
  shows "after (abandoned key) (\<lambda>_. writing m0 d key) (add_file key name f m)"
proof -
  have step: "writing m0 d key (change_backup key (\<lambda>b. f (b\<lparr>bd_files := bd_files b @ [ascii name]\<rparr>)) m')"
    if w: "writing m0 d key m'" for m'
  proof -
    obtain b where b: "mc_backups m' key = Some b" "bd_manifest b = None" "copies_of d b"
      using w by (auto simp: writing_def)
    let ?b = "f (b\<lparr>bd_files := bd_files b @ [ascii name]\<rparr>)"
    have c: "copies_of d ?b" "bd_manifest ?b = None"
      using b f by (simp_all add: copies_of_def)
    have "synced (change_backup key (\<lambda>b. f (b\<lparr>bd_files := bd_files b @ [ascii name]\<rparr>)) m')"
      using w b copies_consistent [OF c(1)] unfolding change_backup_def
      by (intro synced_upd) (auto simp: writing_def unfinished_def)
    then show ?thesis
      using w b c by (auto simp: writing_def change_backup_def same_files_def)
  qed
  have faults: "writing m0 d key (m\<lparr>mc_faults := fs\<rparr>)" for fs
    using assms(1) by (simp add: writing_def same_files_def)
  show ?thesis
    unfolding add_file_def using step faults by (auto intro!: after_app_step intro: backing.stops)
qed


lemma backup_database_ok:
  assumes "writing m0 d key m"
  shows "after (abandoned key) (\<lambda>_. writing m0 d key) (backup_database key external config m)"
proof -
  show ?thesis
    unfolding backup_database_def using assms
    by (auto split: DatabaseConfig.split option.split intro!: after_sbind [OF backing.docker_harmless]
        after_sbind [OF add_file_ok] after_sbind [OF backing.quiets_ok] after_sbind [OF backing.require_ok]
        after_sbind [OF backing.quiet_ok] backing.stops simp: harmless_def)
qed

lemma backup_edge_ok:
  assumes "writing m0 d key m"
  shows "after (abandoned key) (\<lambda>_. writing m0 d key) (backup_edge key include config m)"
proof -
  have acme: "after (abandoned key) (\<lambda>_. writing m0 d key) (run_with_guaranteed_cleanup
      (sbind (docker CopyFromAcmeVolume m') (\<lambda>m _. add_file key ''acme.json'' id m))
      (\<lambda>m. if r then docker RestartTraefik m else (m, Inr ())))" if "writing m0 d key m'" for m' r
  proof (rule after_cleanup)
    show "after (abandoned key) (\<lambda>_. writing m0 d key)
        (sbind (docker CopyFromAcmeVolume m') (\<lambda>m _. add_file key ''acme.json'' id m))"
      by (rule after_sbind [OF backing.docker_harmless [OF that]])
        (auto intro!: add_file_ok simp: harmless_def)
  qed (auto intro!: backing.docker_harmless stopped.docker_harmless simp: harmless_def)
  have stop: "after (abandoned key) (\<lambda>_. writing m0 d key) (if r then docker StopTraefik m else (m, Inr ()))" for r
    using assms by (auto intro!: backing.docker_harmless simp: harmless_def)
  have public: "after (abandoned key) (\<lambda>_. writing m0 d key)
      (sbind (if r then docker StopTraefik m else (m, Inr ())) (\<lambda>m _.
       sbind (run_with_guaranteed_cleanup
                (sbind (docker CopyFromAcmeVolume m) (\<lambda>m _. add_file key ''acme.json'' id m))
                (\<lambda>m. if r then docker RestartTraefik m else (m, Inr ()))) (\<lambda>m _. quiet m)))" for r
    by (intro after_sbind [OF stop] after_sbind [OF acme] backing.quiet_ok)
  have local_files: "after (abandoned key) (\<lambda>_. writing m0 d key)
      (sbind (add_file key ''local-certificate.pem'' id m) (\<lambda>m _.
       sbind (add_file key ''local-private-key.pem'' id m) (\<lambda>m _.
       add_file key ''local-certificate-metadata.json'' id m)))"
    using assms by (auto intro!: after_sbind [OF add_file_ok] add_file_ok)
  show ?thesis
    unfolding backup_edge_def Let_def using assms public local_files
    by (cases "eg_mode (ic_edge config)"; cases "include") simp_all
qed

lemma backup_contents_ok:
  assumes "writing m0 d key m"
  shows "after (abandoned key) (\<lambda>manifest m. writing m0 d key m \<and> bm_installation_id manifest = ds_installation_id (mc_memory m0))
           (backup_contents env key external include config m)"
proof -
  have config: "config_of d = Some c" if "writing m0 d key m' \<and> mc_config m' = Some c" for m' c
    using that by (auto simp: writing_def same_files_def)
  have state: "s = d" if "writing m0 d key m' \<and> mc_state m' = Some s" for m' s
    using that by (auto simp: writing_def same_files_def)
  show ?thesis
    unfolding backup_contents_def Let_def
    apply (rule after_sbind [OF backing.read_json_ok [OF assms]])
    apply (rule after_sbind [OF add_file_ok [OF conjunct1]], assumption)
      apply (simp add: copies_of_def config)
     apply simp
    apply (rule after_sbind [OF backing.read_json_ok], assumption)
    apply (rule after_sbind [OF add_file_ok [OF conjunct1]], assumption)
      apply (simp add: copies_of_def)
     apply simp
    apply (rule after_sbind [OF backing.read_json_ok], assumption)
    apply (rule after_sbind [OF add_file_ok [OF conjunct1]], assumption)
      apply (simp add: copies_of_def state)
     apply simp
    apply (rule after_sbind [OF backup_database_ok], assumption)
    apply (rule after_sbind [OF backup_edge_ok], assumption)
    apply (rule after_sbind [OF backing.quiets_ok], assumption)
    apply (auto simp: writing_def same_files_def)
    done
qed

text \<open>A finished backup is verified, and nothing but the backups changed.\<close>

definition backed_up :: "machine \<Rightarrow> ustr \<Rightarrow> machine \<Rightarrow> bool" where
  "backed_up m0 name m \<longleftrightarrow> synced m \<and> same_files m0 m
     \<and> verified_backup (mc_backups m) name (ds_installation_id (mc_memory m0))"

lemma set_aside_live:
  assumes "live m" "unfinished (mc_backups m) key"
  shows "live (set_aside env key m)"
proof -
  define failed where "failed = (fst key, snd key @ ascii ''.incomplete-'' @ nat_digits (unat (ae_now env)))"
  have ne: "failed \<noteq> key"
    by (cases key) (simp add: failed_def ascii_def)
  have consistent: "backup_consistent b" if "mc_backups m key = Some b" for b
    using assms(1) that unfolding live_def safe_def by blast
  have moved: "live (m\<lparr>mc_backups := (mc_backups m)(failed := mc_backups m key, key := None)\<rparr>)"
    if "mc_backups m failed = None"
  proof -
    let ?m = "m\<lparr>mc_backups := (mc_backups m)(failed := mc_backups m key)\<rparr>"
    have "live ?m"
      using assms(1) that consistent by (intro live_upd) (auto simp: unfinished_def)
    moreover have "unfinished (mc_backups ?m) key"
      using assms(2) ne by (simp add: unfinished_def)
    ultimately show ?thesis
      using live_upd [of ?m key None] by simp
  qed
  show ?thesis
    using assms(1) moved unfolding set_aside_def Let_def failed_def [symmetric] by simp
qed

lemma writing_synced: "writing m0 d key m \<Longrightarrow> synced m"
  by (simp add: writing_def)

text \<open>The files are those of \<open>m0\<close>: a phase for the steps that change the backups only.\<close>

definition steady :: "machine \<Rightarrow> machine \<Rightarrow> bool" where
  "steady m0 m \<longleftrightarrow> synced m \<and> same_files m0 m"

interpretation steady: phase "steady m0" live for m0
  by unfold_locales (auto simp: steady_def same_files_def synced_event intro: synced_live)

lemma steady_refl: "synced m \<Longrightarrow> steady m m"
  by (simp add: steady_def same_files_def)

lemma create_directory_ok:
  assumes "steady m0 m" "mc_state m0 = Some d" "mc_config m0 = config_of d"
  shows "after live (\<lambda>_. writing m0 d key) (create_new_secure_directory key m)"
proof -
  have new: "writing m0 d key (m'\<lparr>mc_faults := fs, mc_backups := (mc_backups m')(key \<mapsto> empty_backup)\<rparr>)"
    if "steady m0 m'" "mc_backups m' key = None" for m' fs
    using that assms synced_upd [of "m'\<lparr>mc_faults := fs\<rparr>" key "Some empty_backup"]
    by (auto simp: steady_def writing_def same_files_def unfinished_def empty_backup_def copies_of_def
        backup_consistent_def)
  show ?thesis
    unfolding create_new_secure_directory_def
    apply (rule after_sbind [OF steady.quiet_ok [OF assms(1)]])
    apply (rule after_sbind [OF steady.require_same], assumption)
    apply (rule after_app_step)
      apply (simp add: steady.stops)
     apply (simp add: new)
    apply (simp add: synced_live [OF writing_synced [OF new]])
    done
qed

lemma finish_backup_ok:
  assumes "writing m0 d key m" "bm_installation_id manifest = ds_installation_id (mc_memory m0)"
  shows "after live (\<lambda>_. steady m0) (app_step (change_backup key (\<lambda>b. b\<lparr>bd_manifest := Some manifest\<rparr>)) m)"
proof -
  obtain b where b: "mc_backups m key = Some b" "bd_manifest b = None" "copies_of d b"
    using assms(1) by (auto simp: writing_def)
  have c: "backup_consistent (b\<lparr>bd_manifest := Some manifest\<rparr>)"
    using b(3) by (auto simp: copies_of_def backup_consistent_def)
  have new: "synced (change_backup key (\<lambda>b. b\<lparr>bd_manifest := Some manifest\<rparr>) (m\<lparr>mc_faults := fs\<rparr>))" for fs
    unfolding change_backup_def using assms(1) b c
    by (intro synced_upd) (auto simp: writing_def unfinished_def)
  show ?thesis
    by (rule after_app_step)
      (use assms(1) new synced_live [OF new] in
        \<open>auto simp: steady_def writing_def same_files_def change_backup_def intro: synced_live\<close>)
qed

lemma create_backup_ok:
  assumes "synced m" "mc_state m = Some d" "mc_config m = config_of d"
  shows "after live (\<lambda>name m'. backed_up m name m' \<and> (\<forall>n. backup_name = Some n \<longrightarrow> name = n)) (create_backup env backup_name external include config m)"
proof -
  define name where "name = (case backup_name of None \<Rightarrow> ascii ''backup-'' @ nat_digits (unat (ae_now env)) | Some n \<Rightarrow> n)"
  define key where "key = (ic_backup_directory config, name)"
  have aside: "after live Q (case app_step (set_aside env key) m' of
      (m, Inl Crashed) \<Rightarrow> (m, Inl Crashed) | (m, _) \<Rightarrow> (m, Inl (Failed e)))" if "abandoned key m'" for m' e Q
  proof -
    have "after live (\<lambda>_. live) (app_step (set_aside env key) m')"
      using that by (intro after_app_step set_aside_live) (simp_all add: abandoned_def)
    then show ?thesis
      by (auto simp: after_def split: prod.splits sum.splits app_stop.splits)
  qed
  have contents: "after live (\<lambda>manifest m'. writing m d key m' \<and> bm_installation_id manifest = ds_installation_id (mc_memory m))
      (on_failure (backup_contents env key external include config m')
        (\<lambda>m e. case app_step (set_aside env key) m of
                   (m, Inl Crashed) \<Rightarrow> (m, Inl Crashed) | (m, _) \<Rightarrow> (m, Inl (Failed e))))" if "writing m d key m'" for m'
    by (rule after_on_failure [OF backup_contents_ok [OF that]], rule aside, assumption, simp add: abandoned_def)
  show ?thesis
    unfolding create_backup_def Let_def name_def [symmetric] key_def [symmetric]
    apply (rule after_sbind [OF steady.require_ok [OF steady_refl [OF assms(1)]]])
    apply (rule after_sbind [OF steady.quiet_ok], blast)
    apply (rule after_sbind [OF create_directory_ok [OF _ assms(2,3)]], assumption)
    apply (rule after_sbind [OF contents], assumption)
    apply (rule after_sbind [OF finish_backup_ok], blast, blast)
    apply (rule after_sbind [OF steady.verify_backup_ok], assumption)
    apply (auto simp: backed_up_def steady_def same_files_def key_def name_def)
    done
qed

end
