(* ===== verification/Appliance_Safety.thy ===== *)
theory Appliance_Safety
  imports Appliance_Backup
begin

text \<open>
  Every command keeps the invariant of the machine, wherever an operation fails or the process dies, so it holds
  in every history. The migration therefore runs only behind a durable journal that names a verified backup, and no old
  version starts on a schema that may be new.
\<close>

section \<open>Loading\<close>

text \<open>What a command knows once it has read the installation.\<close>

definition read_back :: "machine \<Rightarrow> bool" where
  "read_back m \<longleftrightarrow> synced m \<and> mc_state m = Some (mc_memory m)"

definition loaded :: "InstallationConfig \<Rightarrow> machine \<Rightarrow> bool" where
  "loaded config m \<longleftrightarrow> read_back m \<and> config_of (mc_memory m) = Some config \<and> mc_config m = Some config"

definition idle :: "InstallationConfig \<Rightarrow> machine \<Rightarrow> bool" where
  "idle config m \<longleftrightarrow> loaded config m \<and> ds_operation (mc_memory m) = None"

lemma read_back_safe: "read_back m \<Longrightarrow> safe m"
  by (simp add: read_back_def synced_live live_safe)

interpretation reading: phase read_back safe
  by unfold_locales (auto simp: read_back_safe, auto simp: read_back_def synced_event)

interpretation reading_config: phase "\<lambda>m. read_back m \<and> mc_config m = Some config" safe for config
  by unfold_locales (auto simp: read_back_safe, auto simp: read_back_def synced_event)

interpretation load: phase "loaded config" safe for config
  by unfold_locales (auto simp: loaded_def read_back_safe, auto simp: read_back_def synced_event)

interpretation idling: phase "idle config" safe for config
  by unfold_locales (auto simp: idle_def loaded_def read_back_safe, auto simp: read_back_def synced_event)

lemma state_load_ok: "safe m \<Longrightarrow> after safe (\<lambda>_. read_back) (state_load env m)"
  unfolding state_load_def
  apply (rule after_sbind [OF safely.read_json_ok], assumption)
  apply (rule after_sbind [OF safely.require_same], blast)
  apply (auto simp: read_back_def synced_def live_def safe_def)
  done

lemma load_installation_ok:
  assumes "safe m"
  shows "after safe (\<lambda>(config, secrets) m. loaded config m) (load_installation env m)"
  unfolding load_installation_def
  apply (rule after_sbind [OF safely.quiet_ok [OF assms]])
  apply (rule after_sbind [OF state_load_ok], assumption)
  apply (rule after_sbind [OF reading.read_json_ok], assumption)
  apply (rule after_sbind [OF reading_config.read_json_ok], assumption)
  apply (rule after_sbind [OF reading_config.require_ok], blast)
  apply (rule after_sbind [OF reading_config.pending_version_ok], blast)
  apply (rule after_sbind [OF reading_config.require_same], blast)
  apply (auto simp: loaded_def config_of_def)
  done

lemma no_operation_savable: "safe m \<Longrightarrow> ds_operation (mc_memory m) = None \<Longrightarrow> savable m"
  by (simp add: savable_def journal_backed_def)

lemma idle_save:
  assumes "idle config m" "\<And>s. ds_operation (f s) = ds_operation s \<or> ds_operation (f s) = None"
  shows "after safe (\<lambda>_. safe) (save env (set_memory f m))"
proof -
  have "savable (set_memory f m)"
    using assms(1) assms(2) [of "mc_memory m"] idling.stops [OF assms(1)]
    by (intro no_operation_savable) (auto simp: set_memory_def idle_def)
  then show ?thesis
    by (intro after_weaken [OF save_safe]) (auto intro: live_safe synced_live)
qed

text \<open>The head of the commands that need an installation at rest.\<close>

lemma require_idle: "loaded config m \<Longrightarrow> after safe (\<lambda>_. idle config) (require_no_incomplete_operation m)"
  unfolding require_no_incomplete_operation_def
  by (rule after_weaken [OF load.require_same]) (auto simp: idle_def)

section \<open>Start, stop, backup, uninstall\<close>

lemma idle_up_all: "idle config m \<Longrightarrow> event_ok (UpAll c) m"
  by (simp add: idle_def loaded_def read_back_def event_ok_def schema_may_be_new_def)

lemma start_safe: "safe m \<Longrightarrow> after safe (\<lambda>_. safe) (start env m)"
  unfolding start_def
  apply (rule after_sbind [OF safely.quiet_ok], assumption)
  apply (rule after_sbind [OF load_installation_ok], assumption)
  apply clarsimp
  apply (rule after_sbind [OF require_idle], assumption)
  apply (rule after_sbind [OF idling.require_ok], assumption)
  apply (rule after_sbind [OF idling.quiet_ok], blast)
  apply (rule after_sbind [OF idling.pending_version_ok], assumption)
  apply (rule after_sbind [OF idling.ensure_recorded_images_ok], blast)
  apply (rule after_sbind [OF idling.materialize_ok], assumption)
  apply (rule after_sbind [OF idling.docker_harmless], assumption)
   apply (simp add: harmless_def)
  apply (rule after_sbind [where P = "\<lambda>_ m. idle config m" for config])
   apply (unfold start_and_verify_def)
   apply (rule after_sbind [OF idling.docker_ok], assumption, erule idle_up_all)
   apply (rule after_sbind [OF idling.quiet_ok], assumption)
   apply (rule after_weaken [OF idling.require_ok], assumption, assumption, blast)
  apply (rule idle_save, assumption, simp)
  done

lemma stop_safe: "safe m \<Longrightarrow> after safe (\<lambda>_. safe) (stop env m)"
  unfolding stop_def
  apply (rule after_sbind [OF safely.quiet_ok], assumption)
  apply (rule after_sbind [OF load_installation_ok], assumption)
  apply clarsimp
  apply (rule after_sbind [OF require_idle], assumption)
  apply (rule after_sbind [OF idling.quiet_ok], assumption)
  apply (rule after_sbind [OF idling.docker_harmless], assumption)
   apply (simp add: harmless_def)
  apply (rule idle_save, assumption, simp add: mark_stopped_def)
  done

lemma idle_steady: "idle config m0 \<Longrightarrow> steady m0 m \<Longrightarrow> idle config m"
  by (auto simp: idle_def loaded_def read_back_def steady_def same_files_def)

lemma backed_up_steady: "backed_up m0 name m \<Longrightarrow> steady m0 m"
  by (simp add: backed_up_def steady_def)

lemma idle_backup:
  assumes "idle config m"
  shows "after live (\<lambda>name. backed_up m name) (create_backup env backup_name external b config m)"
  using assms
  by (intro after_weaken [OF create_backup_ok [where d = "mc_memory m"]]) (auto simp: idle_def loaded_def read_back_def)

interpretation idling_live: phase "idle config" live for config
  by unfold_locales (auto simp: idling.kept_faults idling.kept_event, auto simp: idle_def loaded_def read_back_def synced_live)

text \<open>The backup of an idle installation leaves it idle, also where the database is stopped again after it.\<close>

lemma backup_out_ok:
  assumes "idle config m"
  shows "after live (\<lambda>_. idle config)
    (sbind (if is_bundled config then docker (UpDatabase config) m else (m, Inr ())) (\<lambda>m _.
     create_backup env name external True config m))"
proof -
  have up: "after live (\<lambda>_. idle config) (if is_bundled config then docker (UpDatabase config) m else (m, Inr ()))"
    using assms by (auto intro!: idling_live.docker_harmless simp: harmless_def)
  have saving: "after live (\<lambda>_. idle config) (create_backup env name external True config m')" if "idle config m'" for m'
    by (rule after_weaken [OF idle_backup [OF that]]) (auto intro: idle_steady [OF that] backed_up_steady)
  show ?thesis
    by (rule after_sbind [OF up saving])
qed

lemma backup_with_cleanup_ok:
  assumes "idle config m"
  shows "after safe (\<lambda>_. idle config)
    (let out = sbind (if is_bundled config then docker (UpDatabase config) m else (m, Inr ())) (\<lambda>m _.
               create_backup env name external True config m) in
     if stopped then run_with_guaranteed_cleanup out (docker StopDatabase) else out)"
proof -
  have clean: "after live (\<lambda>_. idle config)
      (run_with_guaranteed_cleanup (sbind (if is_bundled config then docker (UpDatabase config) m else (m, Inr ())) (\<lambda>m _.
         create_backup env name external True config m)) (docker StopDatabase))"
    by (rule after_cleanup [OF backup_out_ok [OF assms]])
      (auto intro!: idling_live.docker_harmless lively.docker_harmless simp: harmless_def)
  show ?thesis
    using after_weaken [OF clean, of safe "\<lambda>_. idle config"]
      after_weaken [OF backup_out_ok [OF assms], of safe "\<lambda>_. idle config"]
    by (auto simp: Let_def live_safe)
qed

lemma backup_command_safe: "safe m \<Longrightarrow> after safe (\<lambda>_. safe) (backup_command env name external m)"
  unfolding backup_command_def Let_def
  apply (rule after_sbind [OF safely.quiet_ok], assumption)
  apply (rule after_sbind [OF load_installation_ok], assumption)
  apply (simp only: case_prod_beta)
  apply (rule after_sbind [OF require_idle], assumption)
  apply (rule after_sbind [OF idling.quiet_ok], assumption)
  apply (rule after_sbind [OF backup_with_cleanup_ok [unfolded Let_def]], assumption)
  apply (rule idle_save, assumption, simp)
  done

text \<open>Data is removed only where no operation is recorded.\<close>

definition removable :: "machine \<Rightarrow> bool" where
  "removable m \<longleftrightarrow> safe m \<and> (\<forall>s. mc_state m = Some s \<longrightarrow> ds_operation s = None)"

interpretation removing: phase removable safe
  by unfold_locales (auto simp: removable_def safe_event)

lemma remove_root_file_ok: "removable m \<Longrightarrow> removable (remove_root_file f m)"
  by (cases f) (auto simp: removable_def safe_def journal_backed_def)

lemma remove_dir_all_ok: "removable m \<Longrightarrow> after safe (\<lambda>_. safe) (remove_dir_all files m)"
proof (induction files arbitrary: m)
  case (Cons f fs)
  have "after safe (\<lambda>_. removable) (app_step (remove_root_file f) m)"
    by (rule after_app_step; (rule removing.stops)?; intro remove_root_file_ok removing.kept_faults Cons.prems)
  then show ?case
    by (auto intro: after_sbind Cons.IH)
qed (simp add: removing.stops)

lemma validate_removal_root_ok: "idle config m \<Longrightarrow> after safe (\<lambda>_. removable) (validate_removal_root env i m)"
  unfolding validate_removal_root_def Let_def
  apply (rule after_sbind [OF idling.require_ok], assumption)
  apply (rule after_sbind [where P = "\<lambda>_. removable"])
   apply (unfold state_load_def)
   apply (rule after_sbind [where P = "\<lambda>_. removable"])
    apply (rule after_weaken [OF removing.read_json_ok])
      apply (auto simp: removable_def idle_def loaded_def read_back_def intro: live_safe synced_live)[1]
     apply assumption
    apply blast
   apply (rule after_sbind [OF removing.require_ok], assumption)
   apply (simp add: removable_def)
  apply (rule after_sbind [OF removing.require_ok], assumption)
  apply (rule removing.quiets_ok)
  apply (simp add: removable_def)
  done

lemma uninstall_safe: "safe m \<Longrightarrow> after safe (\<lambda>_. safe) (uninstall env remove_data confirmation files m)"
  unfolding uninstall_def
  apply (rule after_sbind [OF safely.quiet_ok], assumption)
  apply (rule after_sbind [OF load_installation_ok], assumption)
  apply clarsimp
  apply (rule after_sbind [OF require_idle], assumption)
  apply (rule after_sbind [OF idling.quiet_ok], assumption)
  apply (cases remove_data)
   apply (simp only: if_True)
   apply (rule after_sbind [OF idling.require_ok], assumption)
   apply (rule after_sbind [OF validate_removal_root_ok], blast)
   apply (rule after_sbind [OF removing.docker_harmless], assumption, simp add: harmless_def)
   apply (erule remove_dir_all_ok)
  apply (simp only: if_False)
  apply (rule after_sbind [OF idling.docker_harmless], assumption, simp add: harmless_def)
  apply (rule idle_save, assumption, simp)
  done

section \<open>Install\<close>

lemma persist_active_ok:
  assumes "P m" "\<And>m c. P m \<Longrightarrow> P (m\<lparr>mc_config := c\<rparr>)" "\<And>m s. P m \<Longrightarrow> P (m\<lparr>mc_secrets := s\<rparr>)"
    and "phase P E"
  shows "after E (\<lambda>_. P) (persist_active_configuration config secrets m)"
proof -
  have step: "after E (\<lambda>_. P) (app_step f m')" if "P m'" "\<And>m. P m \<Longrightarrow> P (f m)" for f m'
    using that assms(4) by (intro after_app_step) (auto simp: phase.kept_faults phase.stops)
  show ?thesis
    unfolding persist_active_configuration_def using assms by (intro after_sbind [OF step] step)
qed

lemma new_install_working:
  assumes "safe m" "mc_state m = None" "mc_memory m = new_install env config" "mc_config m = Some config"
  shows "after safe (\<lambda>_. working Install config ConfigurationStored) (save env m)"
proof -
  have "savable m"
    using assms by (auto simp: savable_def journal_backed_def new_install_def with_pending_config_def config_of_def
        less_eq_Checkpoint_def)
  then show ?thesis
    using assms by (intro after_weaken [OF save_safe])
      (auto simp: saved_def Let_def working_def new_install_def with_pending_config_def config_of_def)
qed

text \<open>The phase rules for a command at work that may stop anywhere, or that has a handler for its kind of operation.\<close>

interpretation work: phase "working kind config checkpoint" safe for kind config checkpoint
  by (rule working_phase) simp

interpretation handled: phase "working kind config checkpoint" "busy kind" for kind config checkpoint
  by (rule working_phase) simp

lemmas advance_safe = advance_checkpoint_ok [OF _ covers_simps(3)]
lemmas advance_handled = advance_checkpoint_ok [OF _ covers_simps(1)]

lemma start_and_verify_ok:
  assumes "phase (working kind config checkpoint) E" "working kind config checkpoint m"
  shows "after E (\<lambda>_. working kind config checkpoint) (start_and_verify env config m)"
  unfolding start_and_verify_def
  apply (rule after_sbind [OF phase.docker_ok [OF assms(1,2) up_all_ok [OF assms(2)]]])
  apply (rule after_sbind [OF phase.quiet_ok [OF assms(1)]], assumption)
  apply (rule after_weaken [OF phase.require_ok [OF assms(1)]], assumption, assumption, blast)
  done

lemma up_database_ok:
  "phase P E \<Longrightarrow> P m \<Longrightarrow> after E (\<lambda>_. P) (if b then docker (UpDatabase config) m else (m, Inr ()))"
  by (auto intro!: phase.docker_harmless simp: harmless_def)

lemma fresh_install_ok:
  assumes "safe m" "mc_state m = None" "mc_memory m = new_install env config"
  shows "after safe (\<lambda>_. working Install config ConfigurationStored)
           (sbind (persist_active_configuration config secrets m) (\<lambda>m _. save env m))"
proof -
  have set: "after safe (\<lambda>_ m. safe m \<and> mc_state m = None \<and> mc_memory m = new_install env config \<and> mc_config m = Some config)
      (persist_active_configuration config secrets m)"
    unfolding persist_active_configuration_def using assms
    by (intro after_sbind [where P = "\<lambda>_ m. safe m \<and> mc_state m = None \<and> mc_memory m = new_install env config
          \<and> mc_config m = Some config"] after_app_step) (auto simp: safe_def)
  show ?thesis
    by (rule after_sbind [OF set]) (auto intro: new_install_working)
qed

lemma read_back_working:
  assumes "read_back m" "ds_operation (mc_memory m) = Some operation" "oj_kind operation = Install" "mc_config m = Some config"
  shows "working Install config ConfigurationStored m"
  using assms by (auto simp: working_def read_back_def synced_def live_def safe_def less_eq_Checkpoint_def)

lemma install_prepare_ok:
  assumes "safe m"
  shows "after safe (\<lambda>(config, secrets). working Install config ConfigurationStored) (install_prepare env requested url m)"
proof (cases "mc_state m = None")
  case True
  let ?P = "working Install requested ConfigurationStored"
  have memory: "safe (m\<lparr>mc_memory := new_install env requested\<rparr>)"
    using assms by simp
  have fresh: "after safe (\<lambda>_. ?P) (sbind (persist_active_configuration requested secrets
      (m\<lparr>mc_memory := new_install env requested\<rparr>)) (\<lambda>m _. save env m))" for secrets
    using True by (intro fresh_install_ok [OF memory]) simp_all
  have assoc: "sbind (sbind a (\<lambda>m _. save env m)) k = sbind a (\<lambda>m _. sbind (save env m) k)" for a :: "unit app"
      and k :: "machine \<Rightarrow> unit \<Rightarrow> (InstallationConfig \<times> SecretConfig) app"
    by (cases "(a, k)" rule: sbind.cases) auto
  show ?thesis
    unfolding install_prepare_def Let_def assoc [symmetric] using True assms
    apply simp
    apply (rule after_sbind [OF safely.require_same], assumption)
    apply (auto intro!: after_sbind [OF fresh])
    done
next
  case False
  have go: "after safe (\<lambda>(config, secrets). working Install config ConfigurationStored)
      (case ds_operation (mc_memory m) of
          None \<Rightarrow> app_fail ''installation already exists; use update, start, or status'' m
        | Some operation \<Rightarrow>
            sbind (app_require (oj_kind operation = Install) ''another incomplete operation must be recovered'' m) (\<lambda>m _.
            sbind (app_require (\<not> (oj_checkpoint operation \<ge> MigrationStarted \<and> oj_checkpoint operation < Healthy))
                     ''an interrupted install may have changed the database schema'' m) (\<lambda>m _.
            sbind (read_json mc_config m) (\<lambda>m config.
            sbind (app_require (config = requested) ''install retry configuration does not match'' m) (\<lambda>m _.
            sbind (read_json mc_secrets m) (\<lambda>m secrets.
            sbind (app_require (validate_for env config secrets) ''invalid secrets'' m) (\<lambda>m _.
            (m, Inr (config, secrets)))))))))" if rb: "read_back m" for m
  proof (cases "ds_operation (mc_memory m)")
    case None
    then show ?thesis
      using rb by (simp add: reading.stops)
  next
    case (Some operation)
    let ?P = "\<lambda>m. read_back m \<and> ds_operation (mc_memory m) = Some operation"
    let ?C = "\<lambda>c m. ?P m \<and> mc_config m = Some c"
    have P: "phase ?P safe"
      by unfold_locales (auto simp: reading.kept_faults reading.kept_event reading.stops)
    have C: "phase (?C c) safe" for c
      by unfold_locales (auto simp: reading.kept_faults reading.kept_event reading.stops)
    have start: "?P m"
      using rb Some by simp
    show ?thesis
      unfolding Some option.case
      apply (rule after_sbind [OF phase.require_ok [OF P start]])
      apply (rule after_sbind [OF phase.require_ok [OF P]], blast)
      apply (rule after_sbind [OF phase.read_json_ok [OF P]], blast)
      apply (rule after_sbind [OF phase.require_ok [OF C]], assumption)
      apply (rule after_sbind [OF phase.read_json_ok [OF C]], blast)
      apply (rule after_sbind [OF phase.require_ok [OF C]], blast)
      apply (auto intro: read_back_working)
      done
  qed
  then show ?thesis
    using False assms by (auto simp: install_prepare_def intro!: after_sbind [OF state_load_ok])
qed

lemma working_steady: "working kind config c m0 \<Longrightarrow> steady m0 m \<Longrightarrow> working kind config c m"
  by (auto simp: working_def steady_def same_files_def)

lemma install_traefik_ok:
  assumes "working Install config c m"
  shows "after safe (\<lambda>_. working Install config c) (install_traefik env config m)"
proof -
  have resolved: "after safe (\<lambda>_. working Install config c) (sbind (pull_release_images images m') (\<lambda>m _. resolve_traefik_latest env m))"
    if "working Install config c m'" for m' images
    by (rule after_sbind [OF work.pull_release_images_ok [OF that] work.resolve_traefik_latest_ok])
  have kept: "after safe (\<lambda>_. working Install config c) (sbind (ensure_recorded_images images t m') (\<lambda>m _. (m, Inr t)))"
    if "working Install config c m'" for m' images t
    by (rule after_sbind [OF work.ensure_recorded_images_ok [OF that]]) simp
  have save: "after safe (\<lambda>_. working Install config c)
      (save env (set_memory (\<lambda>s. s\<lparr>ds_current := map_option (\<lambda>v. v\<lparr>dv_traefik := t\<rparr>) (ds_current s)\<rparr>) m'))"
    if "working Install config c m'" for m' t
  proof (rule save_ahead)
    show "ahead Install config c (set_memory (\<lambda>s. s\<lparr>ds_current := map_option (\<lambda>v. v\<lparr>dv_traefik := t\<rparr>) (ds_current s)\<rparr>) m')"
      using that by (auto simp: ahead_def busy_def working_def synced_def live_def set_memory_def config_of_def
          journal_backed_def recorded_backup_def option.map_comp comp_def)
  qed simp
  show ?thesis
    unfolding install_traefik_def
    apply (rule after_sbind [OF work.pending_version_ok [OF assms]])
    apply (rule after_sbind [where P = "\<lambda>_. working Install config c"])
     apply (auto intro: resolved kept)[1]
    apply (erule save)
    done
qed

text \<open>The backup that an install makes before its migration, or finds from an earlier attempt.\<close>

lemma backup_noted:
  assumes "working Install config c m" "verified_backup (mc_backups m) name (ds_installation_id (mc_memory m))"
    and "ds_operation (mc_memory m) = Some operation" "oj_checkpoint operation < BackupVerified"
  shows "after safe (\<lambda>_. working Install config BackupVerified)
           (advance_checkpoint env BackupVerified (set_memory (\<lambda>s. s\<lparr>ds_last_verified_backup := Some name\<rparr>) m))"
proof -
  let ?s = "(mc_memory m)\<lparr>ds_last_verified_backup := Some name, ds_operation := Some (operation\<lparr>oj_checkpoint := BackupVerified\<rparr>)\<rparr>"
  have "ahead Install config BackupVerified (m\<lparr>mc_memory := ?s\<rparr>)"
    using assms by (auto simp: ahead_def busy_def working_def synced_def live_def config_of_def journal_backed_def
        recorded_backup_def)
  then have "after safe (\<lambda>_. working Install config BackupVerified) (save env (m\<lparr>mc_memory := ?s\<rparr>))"
    by (rule save_ahead) simp
  then show ?thesis
    using assms(3,4) less_not_sym [OF assms(4)]
    by (simp add: advance_checkpoint_def set_memory_def on_memory_def state_checkpoint_def)
qed

lemma install_backup_ok:
  assumes "working Install config c m"
  shows "after safe (\<lambda>_. working Install config BackupVerified) (install_backup env external config m)"
proof -
  obtain operation where op: "ds_operation (mc_memory m) = Some operation"
    using assms by (auto simp: working_def)
  define name where "name = ascii ''pre-install-migration-'' @ take 8 (ds_installation_id (mc_memory m))"
  define key where "key = (ic_backup_directory config, name)"
  let ?Q = "\<lambda>m'. steady m m' \<and> verified_backup (mc_backups m') name (ds_installation_id (mc_memory m))"
  obtain d where d: "mc_state m = Some d" "config_of d = Some config"
    by (rule working_durable [OF assms])
  have here: "steady m m"
    by (rule steady_refl [OF working_synced [OF assms]])
  have old: "after safe (\<lambda>_. ?Q) (sbind (verify_backup key (ds_installation_id (mc_memory m)) m) (\<lambda>m _. (m, Inr ())))"
    by (rule after_sbind [OF after_weaken [OF steady.verify_backup_ok [OF here] live_safe]])
      (auto simp: key_def)
  have new: "after safe (\<lambda>_. ?Q) (sbind (create_backup env (Some name) external False config m) (\<lambda>m _. (m, Inr ())))"
  proof (rule after_sbind)
    show "after safe (\<lambda>n m'. backed_up m n m' \<and> n = name) (create_backup env (Some name) external False config m)"
      using d working_config [OF assms]
      by (intro after_weaken [OF create_backup_ok [OF working_synced [OF assms] d(1)] live_safe]) auto
  qed (auto simp: backed_up_def steady_def)
  have found: "after safe (\<lambda>_. ?Q) (if mc_backups m key \<noteq> None
      then sbind (verify_backup key (ds_installation_id (mc_memory m)) m) (\<lambda>m _. (m, Inr ()))
      else sbind (create_backup env (Some name) external False config m) (\<lambda>m _. (m, Inr ())))"
    using old new by simp
  have noted: "after safe (\<lambda>_. working Install config BackupVerified)
      (advance_checkpoint env BackupVerified (set_memory (\<lambda>s. s\<lparr>ds_last_verified_backup := Some name\<rparr>) m'))"
    if "?Q m'" "oj_checkpoint operation < BackupVerified" for m'
    using that op working_steady [OF assms]
    by (intro backup_noted [where operation = operation]) (auto simp: steady_def same_files_def)
  show ?thesis
  proof (cases "oj_checkpoint operation < BackupVerified")
    case True
    show ?thesis
      unfolding install_backup_def op option.case Let_def name_def [symmetric] key_def [symmetric] if_P [OF True]
      by (rule after_sbind [OF found]) (rule noted [OF _ True])
  next
    case False
    then show ?thesis
      using assms op by (auto simp: install_backup_def working_def)
  qed
qed

lemma fail_restore_required_ok:
  assumes "busy kind m"
  shows "after safe Q (fail_restore_required env m e)"
proof -
  have "busy kind (set_memory mark_restore_required m)"
    using assms by (auto simp: busy_def live_def set_memory_def mark_restore_required_def journal_backed_def
        recorded_backup_def config_of_def)
  then show ?thesis
    unfolding fail_restore_required_def
    by (rule after_sbind [OF save_busy]) (auto intro: live_safe synced_live)
qed

lemma promote_ok:
  assumes "working kind config c m"
    and "\<And>m. ds_operation (mc_memory m) = None \<Longrightarrow> safe m \<Longrightarrow> after safe (\<lambda>_. safe) (finish m)"
  shows "after safe (\<lambda>_. safe) (sbind (on_memory promote_healthy m) (\<lambda>m _. finish m))"
proof (rule after_sbind)
  show "after safe (\<lambda>_ m. safe m \<and> ds_operation (mc_memory m) = None) (on_memory promote_healthy m)"
    using work.stops [OF assms(1)]
    by (intro after_on_memory) (auto simp: promote_healthy_def state_checkpoint_def split: option.splits if_splits)
qed (use assms(2) in auto)

lemma save_at_rest:
  "ds_operation (mc_memory m) = None \<Longrightarrow> safe m \<Longrightarrow> after safe (\<lambda>_. safe) (save env m)"
  by (rule after_weaken [OF save_safe [OF no_operation_savable]]) (auto intro: live_safe synced_live)

text \<open>The whole command up to the promotion; what follows it is a parameter.\<close>

lemma install_chain:
  assumes "safe m"
    and final: "\<And>config c m. working Install config c m
      \<Longrightarrow> after safe Q (sbind (on_memory promote_healthy m) (\<lambda>m _. save env m))"
  shows "after safe Q (install env request external m)"
proof -
  have handled_by: "after safe (\<lambda>_. working k c p) (on_failure out (fail_restore_required env))"
    if "after (busy k) (\<lambda>_. working k c p) out" for k c p out
    by (rule after_on_failure [OF that]) (auto intro: fail_restore_required_ok simp: busy_def live_safe)
  note early = less_Checkpoint_def
  show ?thesis
    unfolding install_def
    apply (rule after_sbind [OF safely.quiets_ok [OF assms(1)]])
    apply (rule after_sbind [OF safely.load_request_ok], assumption)
    apply (simp only: case_prod_beta)
    apply (rule after_sbind [OF safely.validate_custom_certificate_files_ok], blast)
    apply (rule after_sbind [OF install_prepare_ok], assumption)
    apply (simp only: case_prod_beta)
    apply (rule after_sbind [OF work.quiets_ok], assumption)
    apply (rule after_sbind [OF advance_safe], assumption, simp add: early)
    apply (rule after_sbind [OF work.quiets_ok], assumption)
    apply (rule after_sbind [OF advance_safe], assumption, simp add: early)
    apply (rule after_sbind [OF install_traefik_ok], assumption)
    apply (rule after_sbind [OF work.quiet_ok], assumption)
    apply (rule after_sbind [OF advance_safe], assumption, simp add: early)
    apply (rule after_sbind [OF work.docker_harmless], assumption, simp add: harmless_def)
    apply (rule after_sbind [OF up_database_ok [OF work.phase_axioms]], assumption)
    apply (rule after_sbind [OF advance_safe], assumption, simp add: early)
    apply (rule after_sbind [OF work.docker_harmless], assumption, simp add: harmless_def)
    apply (rule after_sbind [OF advance_safe], assumption, simp add: early)
    apply (rule after_sbind [OF install_backup_ok], assumption)
    apply (rule after_sbind [OF advance_safe], assumption, simp)
    apply (rule after_sbind [OF handled_by [OF handled.docker_ok]], assumption, erule migrate_ok, simp)
    apply (rule after_sbind [OF advance_safe], assumption, simp add: le_max_iff_disj)
    apply (rule after_sbind [OF handled_by [OF start_and_verify_ok [OF handled.phase_axioms]]], assumption)
    apply (rule after_sbind [OF advance_safe], assumption, simp add: le_max_iff_disj)
    apply (rule after_sbind [OF advance_safe], assumption, simp add: le_max_iff_disj)
    apply (erule final)
    done
qed

lemma install_safe: "safe m \<Longrightarrow> after safe (\<lambda>_. safe) (install env request external m)"
  by (erule install_chain) (rule promote_ok, assumption, erule save_at_rest, assumption)

section \<open>The configuration on disk\<close>

text \<open>The steps that write neither the configuration nor anything but the journal.\<close>

definition on_disk :: "InstallationConfig option \<Rightarrow> machine \<Rightarrow> bool" where
  "on_disk c m \<longleftrightarrow> mc_config m = c"

interpretation disk: phase "on_disk c" "on_disk c" for c
  by unfold_locales (simp_all add: on_disk_def)

lemma disk_save: "on_disk c m \<Longrightarrow> after (on_disk c) (\<lambda>_. on_disk c) (save env m)"
  unfolding save_def Let_def by (rule after_app_step) (simp_all add: on_disk_def)

lemma disk_on_memory: "on_disk c m \<Longrightarrow> after (on_disk c) (\<lambda>_. on_disk c) (on_memory f m)"
  by (rule after_on_memory) (simp_all add: on_disk_def)

lemma disk_advance: "on_disk c m \<Longrightarrow> after (on_disk c) (\<lambda>_. on_disk c) (advance_checkpoint env p m)"
  unfolding advance_checkpoint_def
  by (auto split: option.split intro!: after_sbind [OF disk_on_memory] disk_save)

lemma disk_docker: "on_disk c m \<Longrightarrow> after (on_disk c) (\<lambda>_. on_disk c) (docker ev m)"
  unfolding docker_def by (rule after_app_step) (simp_all add: on_disk_def)

lemma disk_start_and_verify: "on_disk c m \<Longrightarrow> after (on_disk c) (\<lambda>_. on_disk c) (start_and_verify env config m)"
  unfolding start_and_verify_def
  by (rule after_sbind [OF disk_docker], assumption, rule after_sbind [OF disk.quiet_ok], assumption)
    (rule after_weaken [OF disk.require_ok], assumption, assumption, blast)

lemma disk_if_docker: "on_disk c m \<Longrightarrow> after (on_disk c) (\<lambda>_. on_disk c) (if b then docker ev m else (m, Inr ()))"
  by (simp add: disk_docker)

lemma disk_update_run: "on_disk c m \<Longrightarrow> after (on_disk c) (\<lambda>_. on_disk c) (update_run env config m)"
  unfolding update_run_def
  by (intro after_sbind [OF disk_docker] after_sbind [OF disk_if_docker] after_sbind [OF disk_advance]
      after_sbind [OF disk_start_and_verify] disk_advance)

lemma disk_restore_run: "on_disk c m \<Longrightarrow> after (on_disk c) (\<lambda>_. on_disk c) (restore_run env key config manifest m)"
  unfolding restore_run_def Let_def
  apply (rule after_sbind [where P = "\<lambda>_. on_disk c"])
   apply (auto intro!: after_sbind [OF disk_docker] disk_docker)[1]
  apply (rule after_sbind [where P = "\<lambda>_. on_disk c"])
   apply (auto intro!: after_sbind [OF disk.require_ok] disk_docker)[1]
  apply (intro after_sbind [OF disk_docker] after_sbind [OF disk_on_memory] after_sbind [OF disk_save]
      after_sbind [OF disk_start_and_verify] disk_if_docker; assumption)
  done

section \<open>Update\<close>

text \<open>The old version may run: the journal in memory, and so the one on disk, is before the migration or has the same
  images.\<close>

definition revertible :: "machine \<Rightarrow> bool" where
  "revertible m \<longleftrightarrow> live m \<and> (\<exists>operation. ds_operation (mc_memory m) = Some operation \<and> oj_kind operation \<noteq> Install
     \<and> \<not> (MigrationStarted \<le> oj_checkpoint operation \<and> oj_application_images_changed operation))"

interpretation reverting: phase revertible safe
  by unfold_locales (auto simp: revertible_def live_event live_safe)

lemma revertible_up_all:
  assumes "revertible m"
  shows "event_ok (UpAll c) m"
proof -
  obtain s a b where s: "mc_state m = Some s" "ds_operation s = Some a" "ds_operation (mc_memory m) = Some b"
    and le: "journal_le (Some a) (Some b)"
    and b: "\<not> (MigrationStarted \<le> oj_checkpoint b \<and> oj_application_images_changed b)"
    using assms by (auto simp: revertible_def live_def elim!: journal_le.elims(2))
  have "\<not> schema_may_be_new s"
    using s le b order.trans [of MigrationStarted "oj_checkpoint a" "oj_checkpoint b"]
    by (auto simp: schema_may_be_new_def)
  then show ?thesis
    using s(1) by (simp add: event_ok_def)
qed

lemma live_not_install:
  assumes "live m" "ds_operation (mc_memory m) = Some operation" "oj_kind operation \<noteq> Install"
  shows "live (m\<lparr>mc_config := c\<rparr>)"
  using assms by (auto simp: live_def safe_def elim!: journal_le.elims(2))

lemma recover_failed_update_ok:
  assumes "busy kind m" "kind \<noteq> Install"
  shows "after safe (\<lambda>_. safe) (recover_failed_update env m)"
proof -
  obtain operation where op: "ds_operation (mc_memory m) = Some operation" "oj_kind operation = kind"
    using assms(1) by (auto simp: busy_def)
  have decision: "rollback_decision (mc_memory m)
      = Inr (decide_rollback (oj_checkpoint operation) (oj_application_images_changed operation))"
    using op by (simp add: rollback_decision_def)
  show ?thesis
  proof (cases "decide_rollback (oj_checkpoint operation) (oj_application_images_changed operation) = StopAndRestoreVerifiedBackup")
    case True
    have marked: "after safe (\<lambda>_. safe) (save env (set_memory mark_restore_required m'))" if "busy kind m'" for m'
    proof -
      have "busy kind (set_memory mark_restore_required m')"
        using that by (auto simp: busy_def live_def set_memory_def mark_restore_required_def journal_backed_def
            recorded_backup_def config_of_def)
      then show ?thesis
        by (intro after_weaken [OF save_busy]) (auto intro: live_safe synced_live)
    qed
    have B: "phase (busy kind) (busy kind)"
      by unfold_locales (auto simp: busy_def live_event)
    have "after safe (\<lambda>_. safe) (case docker StopApplication m' of
        (m, Inl Crashed) \<Rightarrow> (m, Inl Crashed) | (m, _) \<Rightarrow> save env (set_memory mark_restore_required m))" if "busy kind m'" for m'
      using phase.docker_harmless [OF B that, of StopApplication] marked
      by (auto simp: after_def [of "busy kind"] harmless_def busy_def live_safe split: prod.splits sum.splits app_stop.splits)
    moreover have "after safe (\<lambda>_. busy kind) (pending_version m)"
      using assms(1) by (cases "ds_current (mc_memory m)") (auto simp: pending_version_def busy_def live_safe)
    ultimately show ?thesis
      unfolding recover_failed_update_def decision using True by (auto intro: after_sbind)
  next
    case False
    have rev: "revertible m"
      using assms op False by (auto simp: revertible_def busy_def decide_rollback_def split: if_splits)
    have persist: "after safe (\<lambda>_. revertible) (persist_active_configuration c sec m')" if "revertible m'" for c sec m'
    proof (rule persist_active_ok [where P = revertible])
      show "revertible (m\<lparr>mc_secrets := x\<rparr>)" if "revertible m" for m x
        using that by (auto simp: revertible_def live_def safe_def)
    qed (use that in \<open>auto simp: revertible_def live_not_install reverting.phase_axioms\<close>)
    have verify: "after safe (\<lambda>_. revertible) (start_and_verify env c m')" if "revertible m'" for c m'
      unfolding start_and_verify_def
      apply (rule after_sbind [OF reverting.docker_ok [OF that revertible_up_all [OF that]]])
      apply (rule after_sbind [OF reverting.quiet_ok], assumption)
      apply (rule after_weaken [OF reverting.require_ok], assumption, assumption, blast)
      done
    show ?thesis
      unfolding recover_failed_update_def decision using False
      apply simp
      apply (rule after_sbind [OF reverting.option_ok [OF rev]])
      apply (rule after_sbind [OF reverting.read_json_ok], blast)
      apply (rule after_sbind [OF reverting.require_ok], blast)
      apply (rule after_sbind [OF reverting.read_json_ok], blast)
      apply (rule after_sbind [OF reverting.require_ok], blast)
      apply (rule after_sbind [OF persist], blast)
      apply (rule after_sbind [OF reverting.materialize_ok], assumption)
      apply (rule after_sbind [OF verify], assumption)
      apply (rule after_sbind [where P = "\<lambda>_ m. safe m \<and> ds_operation (mc_memory m) = None"])
       apply (rule after_on_memory)
        apply (auto simp: restore_previous_version_def reverting.stops split: option.splits)[2]
      apply (blast intro: save_at_rest)
      done
  qed
qed

lemma recover_interrupted_update_ok:
  assumes "loaded config m"
  shows "after safe (\<lambda>_. safe) (recover_interrupted_update env m)"
proof (cases "ds_operation (mc_memory m)")
  case None
  then show ?thesis
    using load.stops [OF assms] by (simp add: recover_interrupted_update_def)
next
  case (Some operation)
  let ?P = "\<lambda>m. loaded config m \<and> ds_operation (mc_memory m) = Some operation"
  have P: "phase ?P safe"
    by unfold_locales (auto simp: load.kept_faults load.kept_event load.stops)
  have recover: "after safe (\<lambda>_. safe) (recover_failed_update env m')" if "?P m'" "oj_kind operation = Update" for m'
    using that by (intro recover_failed_update_ok [where kind = Update])
      (auto simp: busy_def loaded_def read_back_def synced_live)
  have start: "?P m"
    using assms Some by simp
  show ?thesis
  proof (cases "oj_kind operation = Update")
    case True
    show ?thesis
      unfolding recover_interrupted_update_def Some option.case
      apply (rule after_sbind [OF phase.require_ok [OF P start]])
      apply (rule after_sbind [OF phase.quiet_ok [OF P]], blast)
      apply (erule recover [OF _ True])
      done
  next
    case False
    then show ?thesis
      using load.stops [OF assms] by (simp add: recover_interrupted_update_def Some app_require_def app_fail_def)
  qed
qed

lemma working_not_install_persist:
  assumes "working kind config c m" "kind \<noteq> Install"
  shows "after safe (\<lambda>_. working kind config c) (persist_active_configuration cfg sec m)"
proof (rule persist_active_ok [where P = "working kind config c"])
  show "working kind config c (m\<lparr>mc_config := x\<rparr>)" if "working kind config c m" for m x
    using that assms(2) live_not_install [of m _ x] by (auto simp: working_def synced_def)
  show "working kind config c (m\<lparr>mc_secrets := x\<rparr>)" if "working kind config c m" for m x
    using that by (auto simp: working_def synced_def live_def safe_def)
qed (use assms work.phase_axioms in auto)

lemma persist_on_disk: "after (\<lambda>_. True) (\<lambda>_. on_disk (Some config)) (persist_active_configuration config secrets m)"
  unfolding persist_active_configuration_def
  by (rule after_sbind [where P = "\<lambda>_. on_disk (Some config)"]; rule after_app_step) (simp_all add: on_disk_def)

text \<open>An installation at rest with a verified backup: from here to the durable journal of the candidate.\<close>

definition noted :: "ustr \<Rightarrow> machine \<Rightarrow> bool" where
  "noted name m \<longleftrightarrow> safe m \<and> ds_operation (mc_memory m) = None
     \<and> verified_backup (mc_backups m) name (ds_installation_id (mc_memory m))"

interpretation noting: phase "noted name" safe for name
  by unfold_locales (auto simp: noted_def safe_event)

lemma begin_update_saved:
  assumes "noted name m"
  shows "after safe (\<lambda>_. working Update (dv_config candidate) BackupVerified)
           (sbind (on_memory (begin_update env candidate name change) m) (\<lambda>m _. save env m))"
proof (rule after_sbind)
  show "after safe (\<lambda>_ m'. savable m' \<and> config_of (mc_memory m') = Some (dv_config candidate)
             \<and> (\<exists>operation. ds_operation (mc_memory m') = Some operation \<and> oj_kind operation = Update
                  \<and> oj_checkpoint operation = BackupVerified))
           (on_memory (begin_update env candidate name change) m)"
    using assms
    by (intro after_on_memory)
      (auto simp: begin_update_def noted_def savable_def journal_backed_def recorded_backup_def config_of_def
        split: if_splits option.splits)
qed (rule after_weaken [OF save_safe], auto simp: saved_def Let_def working_def)

lemma sbind_assoc: "sbind (sbind a f) g = sbind a (\<lambda>m x. sbind (f m x) g)"
  by (cases "(a, f)" rule: sbind.cases) auto

lemma update_candidate_ok:
  assumes "noted name m"
  shows "after safe (\<lambda>_ m. working Update candidate_config BackupVerified m \<and> on_disk (Some candidate_config) m)
           (update_candidate env current_config candidate_config secrets name m)"
proof -
  let ?W = "\<lambda>m. working Update candidate_config BackupVerified m \<and> on_disk (Some candidate_config) m"
  have W: "phase ?W safe"
    by (rule phase_conj [OF work.phase_axioms]) (simp_all add: on_disk_def)
  have advance: "after safe (\<lambda>_. ?W) (advance_checkpoint env ImagesResolved m')" if "?W m'" for m'
    using that
    by (intro after_weaken [OF after_conj [OF advance_safe disk_advance]]) (auto simp: max_def less_eq_Checkpoint_def)
  have persisted: "after safe (\<lambda>_. ?W) (persist_active_configuration candidate_config sec m')"
    if "working Update candidate_config BackupVerified m'" for sec m'
    using that by (intro after_weaken [OF after_conj [OF working_not_install_persist persist_on_disk]]) auto
  have journaled: "after safe (\<lambda>_. working Update candidate_config BackupVerified)
      (sbind (on_memory (begin_update env \<lparr>dv_config = candidate_config, dv_traefik = t\<rparr> name change) m') (\<lambda>m _. save env m))"
    if "noted name m'" for m' t change
    using begin_update_saved [OF that, of "\<lparr>dv_config = candidate_config, dv_traefik = t\<rparr>"] by simp
  show ?thesis
    unfolding update_candidate_def Let_def
    apply (rule after_sbind [OF noting.pull_release_images_ok [OF assms]])
    apply (rule after_sbind [OF noting.resolve_traefik_latest_ok], assumption)
    apply (subst sbind_assoc [of _ "\<lambda>m _. save env m", symmetric])
    apply (rule after_sbind [OF journaled], assumption)
    apply (rule after_sbind [OF persisted], assumption)
    apply (rule after_sbind [OF phase.materialize_ok [OF W]], assumption)
    apply (erule advance)
    done
qed

lemma update_run_ok:
  "working Update config BackupVerified m \<Longrightarrow> after (busy Update) (\<lambda>_. working Update config BackupVerified) (update_run env config m)"
  unfolding update_run_def
  apply (rule after_sbind [OF handled.docker_harmless], assumption, simp add: harmless_def)
  apply (rule after_sbind [OF up_database_ok [OF handled.phase_axioms]], assumption)
  apply (rule after_sbind [OF advance_handled], assumption, simp)
  apply (rule after_sbind [OF handled.docker_harmless], assumption, simp add: harmless_def)
  apply (rule after_sbind [OF advance_handled], assumption, simp add: le_max_iff_disj)
  apply (rule after_sbind [OF advance_handled], assumption, simp add: le_max_iff_disj)
  apply (rule after_sbind [OF handled.docker_ok], assumption, erule migrate_ok, simp)
  apply (rule after_sbind [OF advance_handled], assumption, simp add: le_max_iff_disj)
  apply (rule after_sbind [OF start_and_verify_ok [OF handled.phase_axioms]], assumption)
  apply (rule after_sbind [OF advance_handled], assumption, simp add: le_max_iff_disj)
  apply (rule after_weaken [OF advance_handled], assumption, simp add: le_max_iff_disj, assumption)
  apply (auto simp: working_def)
  done

lemma update_recover_ok: "busy Update m \<Longrightarrow> after safe Q (update_recover env m e)"
  using recover_failed_update_ok [of Update m env]
  by (auto simp: update_recover_def after_def split: prod.splits sum.splits app_stop.splits)

lemma update_chain:
  assumes "safe m"
    and final: "\<And>config m. working Update config BackupVerified m \<Longrightarrow> on_disk (Some config) m
      \<Longrightarrow> after safe Q (sbind (on_memory promote_healthy m) (\<lambda>m _. save env m))"
  shows "after safe Q (update env request external m)"
proof -
  have run: "after safe (\<lambda>_ m. working Update c BackupVerified m \<and> on_disk (Some c) m)
      (on_failure (update_run env c m') (update_recover env))"
    if "working Update c BackupVerified m' \<and> on_disk (Some c) m'" for c m'
    using that
    by (intro after_on_failure [OF after_conj [OF update_run_ok disk_update_run]])
      (auto intro: update_recover_ok simp: busy_def live_safe)
  have backup: "after safe (\<lambda>n m''. noted n (set_memory (\<lambda>s. s\<lparr>ds_last_verified_backup := Some n\<rparr>) m''))
      (create_backup env backup_name external True c m')" if "idle c m'" for c m' backup_name
    using that
    by (intro after_weaken [OF idle_backup [OF that] live_safe])
      (auto simp: noted_def set_memory_def backed_up_def same_files_def idle_def intro: live_safe synced_live)
  have snapshot: "after safe (\<lambda>_. noted n) (persist_rollback_snapshot cfg sec m')" if "noted n m'" for n cfg sec m'
  proof -
    have step: "after safe (\<lambda>_. noted n) (app_step f m'')" if "noted n m''" "\<And>m. noted n m \<Longrightarrow> noted n (f m)" for f m''
      using that by (intro after_app_step) (auto simp: noting.kept_faults intro: noting.stops [of n])
    show ?thesis
      unfolding persist_rollback_snapshot_def
      by (intro after_sbind [OF noting.quiet_ok [OF that]] after_sbind [OF step] step)
        (auto simp: noted_def safe_def)
  qed
  have busy_update: "after safe Q (sbind (recover_interrupted_update env m') (\<lambda>m _. app_fail msg m))"
    if "loaded c m'" for c m' msg
    by (rule after_sbind [OF recover_interrupted_update_ok [OF that]]) simp
  show ?thesis
    unfolding update_def Let_def
    apply (rule after_sbind [OF safely.quiet_ok [OF assms(1)]])
    apply (rule after_sbind [OF load_installation_ok], assumption)
    apply (simp only: case_prod_beta)
    apply (rule if_split [THEN iffD2], intro conjI impI)
     apply (erule busy_update)
    apply (rule after_sbind [OF idling.require_ok], simp add: idle_def)
    apply (rule after_sbind [OF idling.load_request_ok], blast)
    apply (simp only: case_prod_beta)
    apply (rule after_sbind [OF idling.validate_custom_certificate_files_ok], blast)
    apply (unfold ensure_database_identity_unchanged_def)
    apply (rule after_sbind [OF idling.require_ok], assumption)
    apply (rule after_sbind [OF idling.require_ok], blast)
    apply (rule after_sbind [OF idling.require_ok], blast)
    apply (rule after_sbind [OF idling.quiet_ok], blast)
    apply (rule after_sbind [OF backup], assumption)
    apply (rule after_sbind [OF snapshot], assumption)
    apply (rule after_sbind [OF update_candidate_ok], assumption)
    apply (rule after_sbind [OF run], assumption)
    apply (blast intro: final)
    done
qed

lemma update_safe: "safe m \<Longrightarrow> after safe (\<lambda>_. safe) (update env request external m)"
  by (erule update_chain) (rule promote_ok, assumption, erule save_at_rest, assumption)

section \<open>Restore\<close>

text \<open>A verified backup of this installation, and what its files hold.\<close>

definition chosen :: "InstallationConfig \<Rightarrow> ustr \<Rightarrow> machine \<Rightarrow> bool" where
  "chosen config name m \<longleftrightarrow> loaded config m \<and> verified_backup (mc_backups m) name (ds_installation_id (mc_memory m))"

definition restorable :: "InstallationConfig \<Rightarrow> ustr \<Rightarrow> InstallationConfig \<Rightarrow> DeploymentState \<Rightarrow> machine \<Rightarrow> bool" where
  "restorable config name rc rs m \<longleftrightarrow> chosen config name m \<and> config_of rs = Some rc
     \<and> ds_installation_id rs = ds_installation_id (mc_memory m)"

interpretation choosing: phase "chosen config name" safe for config name
  unfolding chosen_def by (rule phase_conj [OF load.phase_axioms]) simp_all

interpretation choosing_config: phase "\<lambda>m. chosen config name m \<and> Option.bind (mc_backups m key) bd_config = Some rc" safe
  for config name key rc
  by (rule phase_conj [OF choosing.phase_axioms]) simp_all

interpretation choosing_state: phase "\<lambda>m. chosen config name m \<and> config_of rs = Some rc" safe for config name rc rs
  by (rule phase_conj [OF choosing.phase_axioms]) simp_all

interpretation restoring: phase "restorable config name rc rs" safe for config name rc rs
  by unfold_locales (auto simp: restorable_def choosing.kept_faults choosing.kept_event choosing.stops)

lemma chosen_consistent:
  assumes "chosen config name m" "Option.bind (mc_backups m key) bd_config = Some rc"
    "Option.bind (mc_backups m key) bd_state = Some rs"
  shows "config_of rs = Some rc"
  using assms choosing.stops [OF assms(1)] unfolding safe_def backup_consistent_def by (cases key) (auto simp: bind_eq_Some_conv)

lemma restore_database_mode_ok: "phase P E \<Longrightarrow> P m \<Longrightarrow> after E (\<lambda>_. P) (restore_database_mode b config manifest m)"
  unfolding restore_database_mode_def
  by (auto intro!: after_app_require simp: phase.stops split: DatabaseConfig.split BackupDatabase.split)

lemma restore_check_ok:
  assumes "loaded config m"
  shows "after safe (\<lambda>(manifest, rc, secrets, rs). restorable config name rc rs)
           (restore_check env name confirmation restored config m)"
proof -
  have verify: "after safe (\<lambda>_. chosen config name)
      (verify_backup (ic_backup_directory config, name) (ds_installation_id (mc_memory m')) m')" if "loaded config m'" for m'
  proof -
    let ?P = "\<lambda>m''. loaded config m'' \<and> ds_installation_id (mc_memory m'') = ds_installation_id (mc_memory m')"
    have P: "phase ?P safe"
      by (rule phase_conj [OF load.phase_axioms]) simp_all
    show ?thesis
      using that by (intro after_weaken [OF phase.verify_backup_ok [OF P]]) (auto simp: chosen_def)
  qed
  show ?thesis
    unfolding restore_check_def Let_def
    apply (rule after_sbind [OF load.require_ok [OF assms]])
    apply (rule after_sbind [OF load.require_ok], blast)
    apply (rule after_sbind [OF load.require_ok], blast)
    apply (rule after_sbind [OF verify], blast)
    apply (rule after_sbind [OF choosing.read_json_ok], assumption)
    apply (rule after_sbind [OF choosing_config.require_ok], assumption)
    apply (rule after_sbind [OF choosing_config.read_json_ok], blast)
    apply (rule after_sbind [OF choosing_config.require_ok], blast)
    apply (rule after_sbind [OF choosing_config.read_json_ok], blast)
    apply (rule after_sbind [OF choosing_state.require_ok])
     apply (blast intro: chosen_consistent)
    apply (rule after_sbind [OF choosing_state.require_same], blast)
    apply (rule after_sbind [OF restore_database_mode_ok [OF restoring.phase_axioms]])
     apply (auto simp: restorable_def)[1]
    apply (rule after_sbind [OF restoring.validate_custom_certificate_files_ok], assumption)
    apply simp
    done
qed

text \<open>A restore journal over a state of this installation, saved.\<close>

definition ready :: "ustr \<Rightarrow> ustr \<Rightarrow> machine \<Rightarrow> bool" where
  "ready name i m \<longleftrightarrow> verified_backup (mc_backups m) name i"

lemma ready_simps [simp]:
  "ready name i (m\<lparr>mc_faults := fs\<rparr>) = ready name i m" "ready name i (record_event ev m) = ready name i m"
  "ready name i (m\<lparr>mc_config := c\<rparr>) = ready name i m" "ready name i (m\<lparr>mc_secrets := s\<rparr>) = ready name i m"
  by (simp_all add: ready_def)

lemma begin_restore_saved:
  assumes "safe m" "ready name (ds_installation_id (mc_memory m)) m" "config_of (mc_memory m) = Some config"
  shows "after safe (\<lambda>_ m'. working Restore config BackupVerified m' \<and> ready name (ds_installation_id (mc_memory m)) m')
           (sbind (on_memory (begin_restore env name) m) (\<lambda>m _. save env m))"
proof (rule after_sbind)
  show "after safe (\<lambda>_ m'. savable m' \<and> config_of (mc_memory m') = Some config \<and> ready name (ds_installation_id (mc_memory m)) m'
             \<and> (\<exists>operation. ds_operation (mc_memory m') = Some operation \<and> oj_kind operation = Restore
                  \<and> oj_checkpoint operation = BackupVerified))
           (on_memory (begin_restore env name) m)"
    using assms
    by (intro after_on_memory)
      (auto simp: begin_restore_def savable_def journal_backed_def recorded_backup_def config_of_def ready_def split: if_splits)
qed (rule after_weaken [OF save_safe], auto simp: saved_def Let_def working_def ready_def)

lemma restore_run_ok:
  "working Restore config BackupVerified m
   \<Longrightarrow> after (busy Restore) (\<lambda>_. working Restore config BackupVerified) (restore_run env key config manifest m)"
  unfolding restore_run_def Let_def
  apply (rule after_sbind [where P = "\<lambda>_. working Restore config BackupVerified"])
   apply (auto intro!: after_sbind [OF handled.docker_harmless] handled.docker_harmless simp: harmless_def)[1]
  apply (rule after_sbind [where P = "\<lambda>_. working Restore config BackupVerified"])
   apply (auto intro!: after_sbind [OF handled.require_ok] handled.docker_harmless simp: harmless_def)[1]
  apply (rule after_sbind [OF handled.docker_harmless], assumption, simp add: harmless_def)
  apply (rule after_sbind [OF checkpoint_ahead [OF _ covers_simps(1)]], assumption, simp)
  apply (rule after_sbind [OF save_ahead [OF _ covers_simps(1)]], assumption)
  apply (rule after_sbind [OF handled.docker_ok], assumption, erule migrate_ok, simp)
  apply (rule after_sbind [OF checkpoint_ahead [OF _ covers_simps(1)]], assumption, simp)
  apply (rule after_sbind [OF save_ahead [OF _ covers_simps(1)]], assumption)
  apply (rule after_sbind [OF start_and_verify_ok [OF handled.phase_axioms]], assumption)
  apply (rule after_weaken [where E = "busy Restore" and P = "\<lambda>_. working Restore config (max (max BackupVerified MigrationStarted) MigrationCompleted)"])
    apply (auto intro!: handled.docker_harmless simp: harmless_def)[1]
   apply assumption
  apply (auto simp: working_def)
  done

lemma restore_chain:
  assumes "safe m"
    and final: "\<And>config m. working Restore config BackupVerified m \<Longrightarrow> on_disk (Some config) m
      \<Longrightarrow> after safe Q (sbind (on_memory promote_healthy m) (\<lambda>m _.
            save env (set_memory (\<lambda>s. s\<lparr>ds_last_verified_backup := Some name\<rparr>) m)))"
  shows "after safe Q (restore env name confirmation restored m)"
proof -
  let ?W = "\<lambda>config rc rs m. working Restore config BackupVerified m
    \<and> (ready name (ds_installation_id rs) m \<and> config_of rs = Some rc)"
  have W: "phase (?W config rc rs) safe" for config rc rs
    by (rule phase_conj [OF work.phase_axioms]) simp_all
  have persist: "after safe (\<lambda>_. ?W config rc rs) (persist_active_configuration c sec m')" if "?W config rc rs m'" for config rc rs c sec m'
  proof (rule persist_active_ok [where P = "?W config rc rs"])
    show "?W config rc rs (m\<lparr>mc_config := x\<rparr>)" if "?W config rc rs m" for m x
      using that live_not_install [of m _ x] by (auto simp: working_def synced_def)
    show "?W config rc rs (m\<lparr>mc_secrets := x\<rparr>)" if "?W config rc rs m" for m x
      using that by (auto simp: working_def synced_def live_def safe_def)
  qed (rule that W)+
  let ?V = "\<lambda>config rc rs m. ?W config rc rs m \<and> on_disk (Some rc) m"
  have V: "phase (?V config rc rs) safe" for config rc rs
    by (rule phase_conj [OF W]) (simp_all add: on_disk_def)
  have certificate: "after safe (\<lambda>_. ?V config rc rs) (restore_local_certificate_if_present mode m')" if "?V config rc rs m'" for config rc rs mode m'
    using that phase.quiets_ok [OF V] by (auto simp: restore_local_certificate_if_present_def)
  have persisted: "after safe (\<lambda>_. ?V config rc rs) (persist_active_configuration rc sec m')" if "?W config rc rs m'" for config rc rs sec m'
    using that by (intro after_weaken [OF after_conj [OF persist persist_on_disk]]) auto
  have first: "after safe (\<lambda>_ m''. ?W config rc rs m'')
      (sbind (on_memory (begin_restore env name)
         (set_memory (\<lambda>s. if ds_lifecycle s = RestoreRequired then clear_operation s else s) m')) (\<lambda>m _. save env m))"
    if "restorable config name rc rs m'" for config rc rs m'
    using that choosing.stops [of config name m']
      begin_restore_saved [of "set_memory (\<lambda>s. if ds_lifecycle s = RestoreRequired then clear_operation s else s) m'" name config env]
    by (auto simp: restorable_def chosen_def loaded_def set_memory_def clear_operation_def config_of_def ready_def
        split: if_splits)
  have journaled: "after safe (\<lambda>_ m. working Restore rc BackupVerified m \<and> on_disk (Some rc) m)
      (sbind (on_memory (begin_restore env name) (set_memory (\<lambda>_. clear_operation rs) m')) (\<lambda>m _. save env m))"
    if "?V config rc rs m'" for config rc rs m'
  proof -
    let ?m = "set_memory (\<lambda>_. clear_operation rs) m'"
    have "after safe (\<lambda>_. working Restore rc BackupVerified) (sbind (on_memory (begin_restore env name) ?m) (\<lambda>m _. save env m))"
      using that work.stops [of Restore config BackupVerified m']
      by (intro after_weaken [OF begin_restore_saved [where config = rc]])
        (auto simp: set_memory_def clear_operation_def config_of_def ready_def)
    moreover have "on_disk (Some rc) ?m"
      using that by (simp add: on_disk_def set_memory_def)
    then have "after (on_disk (Some rc)) (\<lambda>_. on_disk (Some rc)) (sbind (on_memory (begin_restore env name) ?m) (\<lambda>m _. save env m))"
      by (intro after_sbind [OF disk_on_memory] disk_save)
    ultimately show ?thesis
      by (rule after_weaken [OF after_conj]) auto
  qed
  have run: "after safe (\<lambda>_ m. working Restore c BackupVerified m \<and> on_disk (Some c) m)
      (on_failure (restore_run env key c manifest m') (fail_restore_required env))"
    if "working Restore c BackupVerified m' \<and> on_disk (Some c) m'" for c key manifest m'
    using that
    by (intro after_on_failure [OF after_conj [OF restore_run_ok disk_restore_run]])
      (auto intro: fail_restore_required_ok simp: busy_def live_safe)
  show ?thesis
    unfolding restore_def
    apply (rule after_sbind [OF safely.quiet_ok [OF assms(1)]])
    apply (rule after_sbind [OF load_installation_ok], assumption)
    apply (simp only: case_prod_beta)
    apply (rule after_sbind [OF restore_check_ok], assumption)
    apply (simp only: case_prod_beta)
    apply (rule after_sbind [OF restoring.quiet_ok], assumption)
    apply (rule after_sbind [OF restoring.docker_harmless], assumption, simp add: harmless_def)
    apply (rule after_sbind [OF restoring.quiets_ok], assumption)
    apply (subst sbind_assoc [of _ "\<lambda>m _. save env m", symmetric])
    apply (rule after_sbind [OF first], assumption)
    apply (rule after_sbind [OF persisted], assumption)
    apply (rule after_sbind [OF phase.quiet_ok [OF V]], assumption)
    apply (rule after_sbind [OF certificate], assumption)
    apply (rule after_sbind [OF phase.quiet_ok [OF V]], assumption)
    apply (rule after_sbind [OF phase.require_ok [OF V]], assumption)
    apply (rule after_sbind [OF phase.quiet_ok [OF V]], blast)
    apply (subst sbind_assoc [of _ "\<lambda>m _. save env m", symmetric])
    apply (rule after_sbind [OF journaled], assumption)
    apply (rule after_sbind [OF run], assumption)
    apply (blast intro: final)
    done
qed

lemma restore_safe: "safe m \<Longrightarrow> after safe (\<lambda>_. safe) (restore env name confirmation restored m)"
  by (erule restore_chain) (rule promote_ok, assumption, rule save_at_rest, simp_all add: set_memory_def)

section \<open>Histories\<close>

lemma run_command_safe: "safe m \<Longrightarrow> safe (fst (run_command env command m))"
  by (cases command)
    (auto intro!: after_fst install_safe start_safe stop_safe backup_command_safe update_safe restore_safe uninstall_safe)

lemma reachable_safe: "reachable m \<Longrightarrow> safe m"
proof (induction rule: reachable.induct)
  case (fresh_machine s)
  show ?case
    by (simp add: safe_def empty_machine_def)
next
  case (next_command m env cmd s faults)
  then show ?case
    by (intro run_command_safe) simp
qed

end
