(* ===== verification/Appliance_Example.thy ===== *)
theory Appliance_Example
  imports Appliance_Safety
begin

text \<open>
  A concrete installation that the properties of the installer are applied to. Its image references are as long as real
  ones, so what the validators say of them is proved once and the commands are run by rewriting.
\<close>

section \<open>Digest-qualified references\<close>

lemma starts_with_Nil [simp]: "starts_with s []"
  by (simp add: starts_with_iff)

lemma rsplit_once_last:
  assumes "pat \<noteq> []" "hd pat \<notin> set (tl pat)" "hd pat \<notin> set d"
  shows "rsplit_once pat (r @ pat @ d) = Some (r, d)"
proof -
  let ?s = "r @ pat @ d"
  have later: "\<not> starts_with (drop j ?s) pat" if "length r < j" for j
  proof
    assume "starts_with (drop j ?s) pat"
    then obtain t where "drop j ?s = pat @ t"
      by (auto simp: starts_with_iff)
    then have "drop (j - Suc (length r)) (tl pat @ d) = pat @ t"
      using that assms(1) by (cases pat) (auto simp: drop_Cons' split: if_splits)
    then have "hd pat \<in> set (tl pat @ d)"
      using assms(1) by (metis hd_append2 hd_in_set in_set_dropD append_is_Nil_conv)
    then show False
      using assms(2,3) by simp
  qed
  have here: "starts_with (drop (length r) ?s) pat"
    by (auto simp: starts_with_iff)
  have split: "[0..<Suc (length ?s)] = [0..<length r] @ length r # [Suc (length r)..<Suc (length ?s)]"
    by (metis upt_add_eq_append upt_conv_Cons le0 le_add1 length_append less_Suc_eq_le add_Suc_right le_SucI)
  have none: "filter (\<lambda>i. starts_with (drop i ?s) pat) (rev [Suc (length r)..<Suc (length ?s)]) = []"
    using later by (auto simp: filter_empty_conv simp del: upt_Suc)
  show ?thesis
    unfolding rsplit_once_def split using here none by (simp del: upt_Suc)
qed

lemma to_utf8_ascii: "list_all (\<lambda>c. c < 128) s \<Longrightarrow> length (to_utf8 s) = length s"
  by (induction s) (auto simp: to_utf8_def utf8_char_def)

lemma validate_digest_imageI:
  assumes "r \<noteq> []" "hd r \<noteq> 45" "list_all (\<lambda>c. is_ascii_alphanumeric c \<or> c \<in> set (ascii ''./_-:'')) r"
    and "length d = 64" "list_all is_ascii_hexdigit d" "length r \<le> 400"
  shows "validate_digest_image (r @ ascii ''@sha256:'' @ d)"
proof -
  let ?s = "r @ ascii ''@sha256:'' @ d"
  have plain: "45 \<le> c \<and> c < 128" if "c \<in> set ?s" for c
    using that assms(3,5)
    by (auto simp: list_all_iff is_ascii_alphanumeric_def is_ascii_hexdigit_def ascii_def)
  have "rsplit_once (ascii ''@sha256:'') ?s = Some (r, d)"
    using assms(5) by (intro rsplit_once_last) (auto simp: ascii_def list_all_iff is_ascii_hexdigit_def)
  moreover have "length (to_utf8 ?s) \<le> 512"
    using assms(4,6) plain by (subst to_utf8_ascii) (auto simp: list_all_iff ascii_def)
  moreover have "\<not> is_whitespace c" "c \<noteq> 39" "c \<noteq> 34" if "c \<in> set ?s" for c
    using plain [OF that] by (auto simp: is_whitespace_def)
  moreover have "\<not> starts_with r (ascii ''-'')"
    using assms(1,2) by (cases r) (auto simp: starts_with_iff ascii_def)
  ultimately show ?thesis
    unfolding validate_digest_image_def using assms(1,3,4,5) by auto
qed

section \<open>The example\<close>

definition demo_image :: "string \<Rightarrow> ustr" where
  "demo_image name = ascii name @ ascii ''@sha256:'' @ replicate 64 97"

definition demo_config :: "string \<Rightarrow> InstallationConfig" where
  "demo_config release = \<lparr>ic_schema_version = 1, ic_release_version = ascii release, ic_update_channel = ascii ''stable'',
     ic_installation_root = ascii ''/var/lib/talos'', ic_backup_directory = ascii ''/var/lib/talos/backups'',
     ic_images = \<lparr>ri_api_backend = demo_image ''api'', ri_frontend = demo_image ''web'', ri_relay = demo_image ''relay'',
       ri_control_server = demo_image ''server''\<rparr>,
     ic_database = Bundled (ascii ''talos'') (ascii ''talos''),
     ic_edge = \<lparr>eg_mode = Local, eg_frontend_domain = [], eg_api_domain = [], eg_control_domain = [], eg_relay_domain = [],
       eg_acme_email = None, eg_acme_ca_server = None, eg_certificate_path = None, eg_private_key_path = None,
       eg_http_port = 80, eg_https_port = 443, eg_subnet = [], eg_proxy_ipv4 = []\<rparr>\<rparr>"

definition demo_env :: app_env where
  "demo_env = \<lparr>ae_root = ascii ''/var/lib/talos'', ae_now = 7,
     ae_random = (\<lambda>i. replicate (if i = 4 then 32 else 64) 97), ae_identity_from_url = (\<lambda>_. None),
     ae_statuses = (\<lambda>_. map (\<lambda>s. \<lparr>ss_service = ascii s, ss_state = ascii ''running'', ss_health = None\<rparr>)
       [''api_backend'', ''frontend'', ''talos_relay'', ''talos_server'', ''traefik'', ''postgres'']),
     ae_repo_digests = (\<lambda>_. [demo_image ''traefik'']), ae_version_label = (\<lambda>_. None)\<rparr>"

definition demo_state :: DeploymentState where
  "demo_state = new_install demo_env (demo_config ''1'')"

definition demo_install :: "app_fault list \<Rightarrow> unit app" where
  "demo_install faults = run_command demo_env (InstallCmd (Some (demo_config ''1'', None)) None)
     ((empty_machine demo_state)\<lparr>mc_memory := demo_state, mc_faults := faults\<rparr>)"

text \<open>A running installation of the first release, and its update to the second.\<close>

definition demo_running :: "app_fault list \<Rightarrow> machine" where
  "demo_running faults =
     (let s = demo_state\<lparr>ds_lifecycle := Running, ds_operation := None,
                ds_current := Some \<lparr>dv_config = demo_config ''1'', dv_traefik = \<lparr>rx_digest = demo_image ''traefik'',
                  rx_version = [], rx_resolved_at_unix = 0\<rparr>\<rparr>\<rparr> in
      (empty_machine s)\<lparr>mc_config := Some (demo_config ''1''), mc_state := Some s,
        mc_secrets := Some (secrets_generate demo_env (demo_config ''1'') None), mc_faults := faults\<rparr>)"

definition demo_candidate :: "app_fault list \<Rightarrow> unit app" where
  "demo_candidate faults = update_candidate demo_env (demo_config ''1'') (demo_config ''2'')
     (secrets_generate demo_env (demo_config ''1'') None) (ascii ''pre-update'') (demo_running faults)"

lemma demo_image_valid: "name \<in> {''api'', ''web'', ''relay'', ''server'', ''traefik''} \<Longrightarrow> validate_digest_image (demo_image name)"
  unfolding demo_image_def
  by (rule validate_digest_imageI) (auto simp: ascii_def is_ascii_alphanumeric_def is_ascii_hexdigit_def list_all_iff)

lemma demo_config_simps [simp]:
  "images_validate (ic_images (demo_config r))" "is_bundled (demo_config r)"
  "ic_database (demo_config r) = Bundled (ascii ''talos'') (ascii ''talos'')"
  "eg_mode (ic_edge (demo_config r)) = Local" "ic_schema_version (demo_config r) = CONFIG_SCHEMA_VERSION"
  "ic_installation_root (demo_config r) = ae_root demo_env"
  "ic_backup_directory (demo_config r) = ascii ''/var/lib/talos/backups''"
  "ic_release_version (demo_config r) = ascii r"
  by (simp_all add: demo_config_def images_validate_def demo_image_valid is_bundled_def CONFIG_SCHEMA_VERSION_def
      demo_env_def)

lemma demo_traefik [simp]: "parse_traefik_repo_digests (ae_repo_digests demo_env evs) = Some (demo_image ''traefik'')"
proof -
  have "split_once_str (ascii ''@sha256:'') (demo_image ''traefik'') = Some (ascii ''traefik'', replicate 64 97)"
    by (simp add: split_once_str_def demo_image_def ascii_def starts_with_iff upt_rec numeral_eq_Suc)
  then show ?thesis
    by (simp add: parse_traefik_repo_digests_def demo_env_def demo_image_valid)
qed


lemma demo_secrets [simp]: "validate_for demo_env (demo_config r) (secrets_generate demo_env (demo_config r') url)"
  by (simp add: validate_for_def secrets_generate_def malformed_secret_def demo_env_def to_utf8_ascii list_all_iff
      is_ascii_hexdigit_def CONFIG_SCHEMA_VERSION_def)

lemma demo_ready [simp]: "list_all (service_ready (ae_statuses demo_env evs)) (required_services (demo_config r))"
  by (simp add: service_ready_def required_services_def demo_env_def ascii_def)

lemma demo_backup_name:
  "validate_backup_name (ascii ''pre-install-migration-'' @ take 8 (ae_random demo_env 4))"
  by (simp add: validate_backup_name_def demo_env_def ascii_def to_utf8_def utf8_char_def is_ascii_alphanumeric_def numeral_eq_Suc)

lemmas demo_backup_name_simp [simp] = demo_backup_name [simplified]

lemma app_step_fine: "mc_faults m = [] \<Longrightarrow> app_step f m = (f m, Inr ())"
  by (simp add: app_step_def take_fault_def)

lemma quiet_fine: "mc_faults m = [] \<Longrightarrow> quiet m = (m, Inr ())"
  by (simp add: quiet_def app_step_fine)

lemma quiets_fine: "mc_faults m = [] \<Longrightarrow> quiets n m = (m, Inr ())"
  by (induction n) (simp_all add: quiet_fine)

lemma record_event_faults [simp]: "mc_faults (record_event ev m) = mc_faults m"
  by (simp add: record_event_def)

lemmas fine_simps = app_step_fine quiet_fine quiets_fine docker_def read_json_def app_require_def save_def Let_def
  on_memory_def set_memory_def on_failure_def advance_checkpoint_def state_checkpoint_def less_Checkpoint_def
  less_eq_Checkpoint_def pending_version_def add_file_def change_backup_def
  materialize_def load_request_def validate_custom_certificate_files_def

lemmas command_simps = fine_simps demo_install_def demo_state_def empty_machine_def install_def install_prepare_def
    persist_active_configuration_def new_install_def with_pending_config_def install_traefik_def pull_release_images_def
    resolve_traefik_latest_def install_backup_def create_backup_def create_new_secure_directory_def backup_contents_def
    backup_database_def backup_edge_def empty_backup_def backup_file_names_def verify_backup_def start_and_verify_def
    promote_healthy_def BACKUP_SCHEMA_VERSION_def STATE_SCHEMA_VERSION_def

lemma demo_install_ok: "snd (demo_install []) = Inr ()"
  by (simp add: command_simps)

lemma demo_install_reachable: "reachable (fst (demo_install faults))"
  unfolding demo_install_def by (rule next_command [OF fresh_machine])

lemma demo_migrates: "\<exists>mo \<in> set (mc_trace (fst (demo_install []))). mo_event mo = DatabaseMigrate (demo_config ''1'')"
  by (simp add: command_simps record_event_def)

lemma demo_starts:
  "\<exists>mo \<in> set (mc_trace (fst (demo_install []))). mo_event mo = UpAll (demo_config ''1'')
     \<and> (\<exists>s. mo_state mo = Some s \<and> schema_may_be_new s)"
  by (simp add: command_simps record_event_def schema_may_be_new_def)

section \<open>The example interrupted\<close>

lemma app_step_next: "mc_faults m = NoFault # fs \<Longrightarrow> app_step f m = (f (m\<lparr>mc_faults := fs\<rparr>), Inr ())"
  by (simp add: app_step_def take_fault_def)

lemma app_step_crash: "mc_faults m = CrashAfter # fs \<Longrightarrow> app_step f m = (f (m\<lparr>mc_faults := fs\<rparr>), Inl Crashed)"
  by (simp add: app_step_def take_fault_def)

lemma quiets_numeral: "quiets (numeral n) m = sbind (quiet m) (\<lambda>m _. quiets (pred_numeral n) m)"
  by (simp add: numeral_eq_Suc)

lemma replicate_numeral: "replicate (numeral n) x = x # replicate (pred_numeral n) x"
  by (simp add: numeral_eq_Suc)

lemmas fault_simps = app_step_next app_step_crash quiet_def quiets_numeral replicate_numeral

lemma demo_releases: "demo_config ''1'' \<noteq> demo_config ''2''"
  by (simp add: demo_config_def)


text \<open>An install that dies once its backup directory exists, and an update that dies once its journal is written.\<close>

definition demo_half :: machine where
  "demo_half = fst (demo_install (replicate 26 NoFault @ [CrashAfter]))"

definition demo_torn :: machine where
  "demo_torn = fst (demo_candidate [NoFault, NoFault, NoFault, NoFault, CrashAfter])"

lemma demo_half_state:
  "\<exists>s operation b. mc_state demo_half = Some s \<and> ds_operation s = Some operation \<and> oj_checkpoint operation < BackupVerified
     \<and> ds_installation_id s = ae_random demo_env 4 \<and> mc_config demo_half = Some (demo_config ''1'')
     \<and> mc_backups demo_half (ascii ''/var/lib/talos/backups'', ascii ''pre-install-migration-'' @ take 8 (ae_random demo_env 4)) = Some b
     \<and> bd_manifest b = None"
  by (simp add: demo_half_def command_simps fault_simps)

lemma demo_torn_state:
  "\<exists>s. mc_state demo_torn = Some s \<and> mc_config demo_torn \<noteq> config_of s \<and> map_option oj_kind (ds_operation s) \<noteq> Some Install"
  by (simp add: demo_torn_def demo_candidate_def demo_running_def update_candidate_def begin_update_def config_of_def
      demo_releases command_simps fault_simps)

end
