(* ===== verification/Appliance_Properties.thy ===== *)
theory Appliance_Properties
  imports Appliance_Example
begin

text \<open>
  What holds after whole commands: a command that succeeds leaves a running deployment whose journal and configuration agree;
  an update or restore that stops between its journal and its configuration, and an install that dies in
  its first backup, leave an installation that no later command accepts.
\<close>

section \<open>Installations that no command accepts\<close>

text \<open>The journal names another configuration than the file, and no install is in progress.\<close>

definition mismatched :: "DeploymentState \<Rightarrow> InstallationConfig option \<Rightarrow> machine \<Rightarrow> bool" where
  "mismatched s c m \<longleftrightarrow> mc_state m = Some s \<and> mc_config m = c \<and> c \<noteq> config_of s
     \<and> map_option oj_kind (ds_operation s) \<noteq> Some Install"

interpretation mismatch: phase "mismatched s c" "mismatched s c" for s c
  by unfold_locales (simp_all add: mismatched_def)

definition mismatch_in :: "DeploymentState \<Rightarrow> InstallationConfig option \<Rightarrow> machine \<Rightarrow> bool" where
  "mismatch_in s c m \<longleftrightarrow> mismatched s c m \<and> mc_memory m = s"

interpretation mismatch_loaded: phase "mismatch_in s c" "mismatched s c" for s c
  unfolding mismatch_in_def by (rule phase_conj [OF mismatch.phase_axioms]) simp_all

lemma mismatch_state_load:
  "mismatched s c m \<Longrightarrow> after (mismatched s c) (\<lambda>_. mismatch_in s c) (state_load env m)"
  unfolding state_load_def
  apply (rule after_sbind [OF mismatch.read_json_ok], assumption)
  apply (rule after_sbind [OF mismatch.require_same], blast)
  apply (auto simp: mismatched_def mismatch_in_def)
  done

lemma mismatch_config: "mismatch_in s c m \<and> mc_config m = Some config \<Longrightarrow> c = Some config"
  unfolding mismatch_in_def mismatched_def by metis

lemma mismatch_current:
  "mismatch_in s (Some config) m \<Longrightarrow> ds_current (mc_memory m) = Some version \<Longrightarrow> config \<noteq> dv_config version"
  unfolding mismatch_in_def mismatched_def config_of_def by force

lemma mismatch_load:
  assumes "mismatched s c m"
  shows "after (mismatched s c) (\<lambda>_ _. False) (load_installation env m)"
proof -
  have tail: "after (mismatched s c) (\<lambda>_ _. False)
      (sbind (read_json mc_secrets m) (\<lambda>m secrets.
       sbind (app_require (validate_for env config secrets) ''invalid secrets'' m) (\<lambda>m _.
       sbind (pending_version m) (\<lambda>m version.
       sbind (app_require (config = dv_config version)
                ''active configuration does not match the durable deployment journal'' m) (\<lambda>m _.
       (m, Inr (config, secrets)))))))" if "mismatch_in s c m" "c = Some config" for m config
    apply (rule after_sbind [OF mismatch_loaded.read_json_ok [OF that(1)]])
    apply (rule after_sbind [OF mismatch_loaded.require_ok], blast)
    apply (rule after_sbind [OF mismatch_loaded.pending_version_ok], blast)
    apply (rule after_sbind [OF mismatch_loaded.require_same], blast)
    using mismatch_current [of s config] unfolding that(2) by blast
  show ?thesis
    unfolding load_installation_def
    apply (rule after_sbind [OF mismatch.quiet_ok [OF assms]])
    apply (rule after_sbind [OF mismatch_state_load], assumption)
    apply (rule after_sbind [OF mismatch_loaded.read_json_ok], assumption)
    apply (rule tail)
     apply blast
    apply (erule mismatch_config)
    done
qed

lemma mismatch_install: "mismatched s c m \<Longrightarrow> after (mismatched s c) (\<lambda>_ _. False) (install_prepare env requested url m)"
  unfolding install_prepare_def
  apply (subst if_P)
   apply (simp add: mismatched_def)
  apply (rule after_sbind [OF mismatch_state_load], assumption)
  apply (auto simp: mismatch_in_def mismatched_def app_require_def app_fail_def split: option.split)
  done

lemma mismatch_run:
  assumes "mismatched s c m"
  shows "after (mismatched s c) (\<lambda>_ _. False) (run_command env command m)"
proof -
  have loads: "after (mismatched s c) (\<lambda>_ _. False) (sbind (quiet m) (\<lambda>m _. sbind (load_installation env m) k))" for k :: "machine \<Rightarrow> _ \<Rightarrow> unit app"
    by (rule after_sbind [OF mismatch.quiet_ok [OF assms]], rule after_sbind [OF mismatch_load], assumption) simp
  have "after (mismatched s c) (\<lambda>_ _. False) (install env request external m)" for request external
    unfolding install_def
    apply (rule after_sbind [OF mismatch.quiets_ok [OF assms]])
    apply (rule after_sbind [OF mismatch.load_request_ok], assumption)
    apply (simp only: case_prod_beta)
    apply (rule after_sbind [OF mismatch.validate_custom_certificate_files_ok], blast)
    apply (rule after_sbind [OF mismatch_install], assumption)
    apply simp
    done
  then show ?thesis
    by (cases command) (auto simp: start_def stop_def backup_command_def update_def restore_def uninstall_def intro: loads)
qed


text \<open>An install that died in its backup: the directory is there without a manifest. The journal on disk, and when it
  is loaded the one in memory, say that the backup is still to be made.\<close>

definition half_backed :: "InstallationConfig \<Rightarrow> ustr \<Rightarrow> machine \<Rightarrow> bool" where
  "half_backed config i m \<longleftrightarrow>
     (\<exists>b. mc_backups m (ic_backup_directory config, ascii ''pre-install-migration-'' @ take 8 i) = Some b \<and> bd_manifest b = None)"

definition before_backup :: "ustr \<Rightarrow> DeploymentState \<Rightarrow> bool" where
  "before_backup i s \<longleftrightarrow> ds_installation_id s = i
     \<and> (\<exists>operation. ds_operation s = Some operation \<and> oj_checkpoint operation < BackupVerified)"

definition half_disk :: "InstallationConfig \<Rightarrow> ustr \<Rightarrow> machine \<Rightarrow> bool" where
  "half_disk config i m \<longleftrightarrow> half_backed config i m \<and> mc_config m = Some config
     \<and> (\<exists>s. mc_state m = Some s \<and> before_backup i s)"

definition half_installed :: "InstallationConfig \<Rightarrow> ustr \<Rightarrow> machine \<Rightarrow> bool" where
  "half_installed config i m \<longleftrightarrow> half_disk config i m \<and> before_backup i (mc_memory m)"

lemmas half_defs = half_installed_def half_disk_def half_backed_def

interpretation halfway: phase "half_disk config i" "half_disk config i" for config i
  by unfold_locales (simp_all add: half_defs)

interpretation half: phase "half_installed config i" "half_disk config i" for config i
  by unfold_locales (simp_all add: half_defs)

lemma half_save:
  assumes "half_disk config i m" "before_backup i (f (mc_memory m))"
  shows "after (half_disk config i) (\<lambda>_. half_installed config i) (save env (set_memory f m))"
  unfolding save_def Let_def
  by (rule after_app_step) (use assms in \<open>simp_all add: half_defs before_backup_def set_memory_def\<close>)

lemma half_advance:
  assumes "half_installed config i m" "c < BackupVerified"
  shows "after (half_disk config i) (\<lambda>_. half_installed config i) (advance_checkpoint env c m)"
proof -
  obtain operation where op: "ds_operation (mc_memory m) = Some operation"
    using assms(1) by (auto simp: half_installed_def before_backup_def)
  have step: "after (half_disk config i) (\<lambda>_. half_installed config i) (on_memory (state_checkpoint c) m)"
    using assms op by (intro after_on_memory)
      (auto simp: half_defs before_backup_def state_checkpoint_def split: if_splits)
  have "after (half_disk config i) (\<lambda>_. half_installed config i) (save env m')" if "half_installed config i m'" for m'
    using half_save [of config i m' id] that by (simp add: set_memory_def half_installed_def)
  then show ?thesis
    using assms(1) op step by (auto simp: advance_checkpoint_def intro: after_sbind)
qed

lemma half_install_backup:
  assumes "half_installed config i m"
  shows "after (half_disk config i) (\<lambda>_ _. False) (install_backup env external config m)"
proof -
  obtain operation where op: "ds_operation (mc_memory m) = Some operation" "oj_checkpoint operation < BackupVerified"
    and i: "ds_installation_id (mc_memory m) = i" and disk: "half_disk config i m"
    using assms by (auto simp: half_installed_def before_backup_def)
  define key where "key = (ic_backup_directory config, ascii ''pre-install-migration-'' @ take 8 i)"
  have none: "Option.bind (mc_backups m' key) bd_manifest = None" if "half_disk config i m'" for m'
    using that by (auto simp: half_defs key_def)
  have "after (half_disk config i) (\<lambda>_ _. False) (verify_backup key i m)"
    unfolding verify_backup_def
    by (rule after_sbind [OF halfway.read_json_ok [OF disk]]) (auto dest: none)
  then have "after (half_disk config i) (\<lambda>_ _. False) (sbind (verify_backup key i m) (\<lambda>m _. (m, Inr ())))"
    by (rule after_sbind) simp
  then have "after (half_disk config i) (\<lambda>_ _. False)
      (if mc_backups m key \<noteq> None then sbind (verify_backup key i m) (\<lambda>m _. (m, Inr ()))
       else sbind (create_backup env (Some (snd key)) external False config m) (\<lambda>m _. (m, Inr ())))"
    using disk by (auto simp: key_def half_defs)
  then show ?thesis
    unfolding install_backup_def op(1) option.case if_P [OF op(2)] Let_def i key_def snd_conv
    by (rule after_sbind) simp
qed

text \<open>A configuration other than the active one is refused.\<close>

lemma half_install_prepare:
  assumes "half_disk config i m"
  shows "after (half_disk config i) (\<lambda>r m. fst r = config \<and> half_installed config i m) (install_prepare env requested url m)"
proof -
  have load: "after (half_disk config i) (\<lambda>_. half_installed config i) (state_load env m)"
    unfolding state_load_def
    by (rule after_sbind [OF halfway.read_json_ok [OF assms]], rule after_sbind [OF halfway.require_same], blast)
      (auto simp: half_defs)
  have tail: "after (half_disk config i) (\<lambda>r m. fst r = config \<and> half_installed config i m)
      (sbind (read_json mc_config m) (\<lambda>m c. sbind (app_require (c = requested) e m) (\<lambda>m _.
       sbind (read_json mc_secrets m) (\<lambda>m secrets. sbind (app_require (b c secrets) e' m) (\<lambda>m _. (m, Inr (c, secrets)))))))"
    if "half_installed config i m" for m b e e'
  proof (rule after_sbind [OF half.read_json_ok [OF that]])
    fix c m
    assume c: "half_installed config i m \<and> mc_config m = Some c"
    then have "c = config"
      by (auto simp: half_installed_def half_disk_def)
    then show "after (half_disk config i) (\<lambda>r m. fst r = config \<and> half_installed config i m)
      (sbind (app_require (c = requested) e m) (\<lambda>m _.
       sbind (read_json mc_secrets m) (\<lambda>m secrets. sbind (app_require (b c secrets) e' m) (\<lambda>m _. (m, Inr (c, secrets))))))"
      using c by (auto intro!: after_sbind [OF half.require_ok] after_sbind [OF half.read_json_ok])
  qed
  have "mc_state m \<noteq> None"
    using assms by (auto simp: half_disk_def)
  then show ?thesis
    unfolding install_prepare_def
    by (subst if_P, assumption, intro after_sbind [OF load])
      (auto simp: half.stops split: option.split intro!: after_sbind [OF half.require_ok] tail)
qed

lemma half_install:
  assumes "half_disk config i m"
  shows "after (half_disk config i) (\<lambda>_ _. False) (install env request external m)"
proof -
  have traefik: "after (half_disk config i) (\<lambda>_. half_installed config i) (install_traefik env config m')"
    if "half_installed config i m'" for m'
    unfolding install_traefik_def
    apply (rule after_sbind [OF half.pending_version_ok [OF that]])
    apply (rule after_sbind [where P = "\<lambda>_. half_installed config i"])
     apply (auto intro!: after_sbind [OF half.pull_release_images_ok] half.resolve_traefik_latest_ok
        after_sbind [OF half.ensure_recorded_images_ok])[1]
    apply (rule half_save)
     apply (auto simp: half_installed_def before_backup_def)
    done
  have up: "after (half_disk config i) (\<lambda>_. half_installed config i) (if b then docker ev m' else (m', Inr ()))"
    if "half_installed config i m'" "harmless ev" for m' b ev
    using that by (simp add: half.docker_harmless)
  note early = less_Checkpoint_def
  show ?thesis
    unfolding install_def
    apply (rule after_sbind [OF halfway.quiets_ok [OF assms]])
    apply (rule after_sbind [OF halfway.load_request_ok], assumption)
    apply (simp only: case_prod_beta)
    apply (rule after_sbind [OF halfway.validate_custom_certificate_files_ok], blast)
    apply (rule after_sbind [OF half_install_prepare], assumption)
    apply (simp only: case_prod_beta)
    apply (rule after_sbind [OF half.quiets_ok], erule conjunct2)
    apply (rule after_sbind [OF half_advance], assumption, simp add: early)
    apply (rule after_sbind [OF half.quiets_ok], assumption)
    apply (rule after_sbind [OF half_advance], assumption, simp add: early)
    apply (rule after_sbind [OF traefik], assumption)
    apply (rule after_sbind [OF half.quiet_ok], assumption)
    apply (rule after_sbind [OF half_advance], assumption, simp add: early)
    apply (rule after_sbind [OF half.docker_harmless], assumption, simp add: harmless_def)
    apply (rule after_sbind [OF up], assumption, simp add: harmless_def)
    apply (rule after_sbind [OF half_advance], assumption, simp add: early)
    apply (rule after_sbind [OF half.docker_harmless], assumption, simp add: harmless_def)
    apply (rule after_sbind [OF half_advance], assumption, simp add: early)
    apply (rule after_sbind [OF half_install_backup], assumption)
    apply simp
    done
qed

text \<open>A sequence of installs, each in a process of its own: with any request, memory and failures.\<close>

record install_attempt =
  ia_env :: app_env
  ia_request :: request
  ia_external :: "ustr option"
  ia_memory :: DeploymentState
  ia_faults :: "app_fault list"

fun install_results :: "install_attempt list \<Rightarrow> machine \<Rightarrow> (app_stop + unit) list" where
  "install_results [] m = []"
| "install_results (a # as) m =
     (case install (ia_env a) (ia_request a) (ia_external a) (m\<lparr>mc_memory := ia_memory a, mc_faults := ia_faults a\<rparr>) of
        (m, r) \<Rightarrow> r # install_results as m)"

lemma length_install_results: "length (install_results attempts m) = length attempts"
  by (induction attempts arbitrary: m) (auto split: prod.split)

lemma half_attempts: "half_disk config i m \<Longrightarrow> list_all (\<lambda>r. \<exists>e. r = Inl e) (install_results attempts m)"
proof (induction attempts arbitrary: m)
  case (Cons a as)
  let ?m = "m\<lparr>mc_memory := ia_memory a, mc_faults := ia_faults a\<rparr>"
  have "half_disk config i ?m"
    using Cons.prems by (simp add: half_disk_def half_backed_def)
  from after_never [OF half_install [OF this, of "ia_env a" "ia_request a" "ia_external a"]] Cons.IH show ?case
    by (auto split: prod.split)
qed simp

section \<open>Deployment\<close>

definition deployed :: "InstallationConfig \<Rightarrow> machine \<Rightarrow> bool" where
  "deployed config m \<longleftrightarrow> (\<exists>s. mc_state m = Some s \<and> ds_lifecycle s = Running \<and> ds_operation s = None
     \<and> config_of s = Some config \<and> mc_config m = Some config)"

text \<open>Promotion of an operation whose configuration is the one on disk.\<close>

lemma promote_deployed:
  assumes "working kind config c m" "on_disk (Some config) m"
    and keeps: "\<And>s. ds_lifecycle (f s) = ds_lifecycle s" "\<And>s. ds_operation (f s) = ds_operation s" "\<And>s. config_of (f s) = config_of s"
  shows "after (\<lambda>_. True) (\<lambda>_. deployed config) (sbind (on_memory promote_healthy m) (\<lambda>m _. save env (set_memory f m)))"
proof (rule after_sbind)
  let ?R = "\<lambda>m. ds_lifecycle (mc_memory m) = Running \<and> ds_operation (mc_memory m) = None \<and> config_of (mc_memory m) = Some config
    \<and> mc_config m = Some config"
  show "after (\<lambda>_. True) (\<lambda>_. ?R) (on_memory promote_healthy m)"
    using assms(1,2) by (intro after_on_memory)
      (auto simp: promote_healthy_def state_checkpoint_def working_def on_disk_def config_of_def split: option.splits if_splits)
  show "after (\<lambda>_. True) (\<lambda>_. deployed config) (save env (set_memory f m'))" if "?R m'" for m'
    unfolding save_def Let_def using that keeps by (intro after_app_step) (simp_all add: deployed_def set_memory_def)
qed

lemma set_memory_id [simp]: "set_memory (\<lambda>s. s) m = m"
  by (simp add: set_memory_def)




lemma promote_both:
  assumes "working kind config c m" "on_disk (Some config) m"
    and "\<And>s. ds_lifecycle (f s) = ds_lifecycle s" "\<And>s. ds_operation (f s) = ds_operation s" "\<And>s. config_of (f s) = config_of s"
  shows "after safe (\<lambda>_ m. \<exists>config. deployed config m) (sbind (on_memory promote_healthy m) (\<lambda>m _. save env (set_memory f m)))"
proof (rule after_weaken [OF after_conj])
  show "after safe (\<lambda>_. safe) (sbind (on_memory promote_healthy m) (\<lambda>m _. save env (set_memory f m)))"
    using assms(4) by (intro promote_ok [OF assms(1)] save_at_rest) (simp_all add: set_memory_def)
  show "after (\<lambda>_. True) (\<lambda>_. deployed config) (sbind (on_memory promote_healthy m) (\<lambda>m _. save env (set_memory f m)))"
    using assms by (intro promote_deployed) auto
qed auto

lemma install_deployed: "safe m \<Longrightarrow> after safe (\<lambda>_ m. \<exists>config. deployed config m) (install env request external m)"
  using promote_both [where f = "\<lambda>s. s"] working_config
  by (intro install_chain) (auto simp: on_disk_def)

lemma update_deployed: "safe m \<Longrightarrow> after safe (\<lambda>_ m. \<exists>config. deployed config m) (update env request external m)"
  using promote_both [where f = "\<lambda>s. s"] by (intro update_chain) auto

lemma restore_deployed:
  "safe m \<Longrightarrow> after safe (\<lambda>_ m. \<exists>config. deployed config m) (restore env name confirmation restored m)"
  by (intro restore_chain promote_both) (auto simp: config_of_def)

definition changes_version :: "command \<Rightarrow> bool" where
  "changes_version command = (case command of InstallCmd _ _ \<Rightarrow> True | UpdateCmd _ _ \<Rightarrow> True | RestoreCmd _ _ _ \<Rightarrow> True | _ \<Rightarrow> False)"

section \<open>Properties\<close>

text \<open>C2. In every history of commands, with any operation failing and the process dying anywhere, the migration of the
  database runs only while the journal on disk says that it started and names a backup of this installation that
  was complete on disk at that moment: its manifest lists the configuration, the secrets, the state and the dump.\<close>

theorem migration_has_verified_backup:
  assumes "reachable m" "mo \<in> set (mc_trace m)" "mo_event mo = DatabaseMigrate config"
  shows "\<exists>s operation name. mo_state mo = Some s \<and> ds_operation s = Some operation \<and> MigrationStarted \<le> oj_checkpoint operation
    \<and> recorded_backup s operation = Some name \<and> verified_backup (mo_backups mo) name (ds_installation_id s)"
  using reachable_safe [OF assms(1)] assms(2,3) by (auto simp: safe_def list_all_iff)

theorem migration_has_verified_backup_witness:
  "\<exists>mo s operation name. mo \<in> set (mc_trace (fst (demo_install []))) \<and> mo_event mo = DatabaseMigrate (demo_config ''1'')
     \<and> mo_state mo = Some s \<and> ds_operation s = Some operation \<and> MigrationStarted \<le> oj_checkpoint operation
     \<and> recorded_backup s operation = Some name \<and> verified_backup (mo_backups mo) name (ds_installation_id s)"
  using migration_has_verified_backup [OF demo_install_reachable] demo_migrates by blast

text \<open>C3. In every history, services are started with the configuration that the journal on disk records whenever
  that journal says that a migration to other images may have begun: an old version never runs on a new schema.\<close>

theorem old_version_never_on_new_schema:
  assumes "reachable m" "mo \<in> set (mc_trace m)" "mo_event mo = UpAll config" "mo_state mo = Some s" "schema_may_be_new s"
  shows "config_of s = Some config"
  using reachable_safe [OF assms(1)] assms(2-5) by (fastforce simp: safe_def list_all_iff)

theorem old_version_never_on_new_schema_witness:
  "\<exists>mo s. mo \<in> set (mc_trace (fst (demo_install []))) \<and> mo_event mo = UpAll (demo_config ''1'') \<and> mo_state mo = Some s
     \<and> schema_may_be_new s \<and> config_of s = Some (demo_config ''1'')"
  using old_version_never_on_new_schema [OF demo_install_reachable] demo_starts by blast

text \<open>C35. An install, update or restore that reports success leaves a running deployment: the journal on disk
  has no operation, and its configuration is the active one.\<close>

theorem success_is_deployed:
  assumes "reachable m" "changes_version command" "snd (run_command env command (m\<lparr>mc_memory := s, mc_faults := faults\<rparr>)) = Inr ()"
  shows "\<exists>config. deployed config (fst (run_command env command (m\<lparr>mc_memory := s, mc_faults := faults\<rparr>)))"
proof -
  let ?m = "m\<lparr>mc_memory := s, mc_faults := faults\<rparr>"
  have "safe ?m"
    using reachable_safe [OF assms(1)] by simp
  then have "after safe (\<lambda>_ m. \<exists>config. deployed config m) (run_command env command ?m)"
    using assms(2) by (cases command) (simp_all add: changes_version_def install_deployed update_deployed restore_deployed)
  from after_success [OF this assms(3)] show ?thesis .
qed

theorem success_is_deployed_witness: "snd (demo_install []) = Inr () \<and> (\<exists>config. deployed config (fst (demo_install [])))"
  using success_is_deployed [OF fresh_machine [of demo_state], where command = "InstallCmd (Some (demo_config ''1'', None)) None"
      and env = demo_env and s = demo_state and faults = "[]"]
    demo_install_ok
  by (simp add: demo_install_def changes_version_def del: run_command.simps)

text \<open>C36. Where the journal on disk and the active configuration differ and no install is in progress, every command
  fails and changes neither of them. An update that stops between its two writes leaves such a machine.\<close>

theorem mismatch_locks_out:
  assumes "mc_state m = Some s" "mc_config m \<noteq> config_of s" "map_option oj_kind (ds_operation s) \<noteq> Some Install"
  shows "(\<exists>e. snd (run_command env command m) = Inl e) \<and> mc_state (fst (run_command env command m)) = Some s
    \<and> mc_config (fst (run_command env command m)) = mc_config m"
proof -
  have "mismatched s (mc_config m) m"
    using assms by (simp add: mismatched_def)
  from after_never [OF mismatch_run [OF this]] show ?thesis
    by (simp add: mismatched_def)
qed

theorem mismatch_locks_out_witness:
  "\<exists>s e. mc_state demo_torn = Some s \<and> mc_config demo_torn \<noteq> config_of s \<and> snd (run_command demo_env StartCmd demo_torn) = Inl e
     \<and> mc_state (fst (run_command demo_env StartCmd demo_torn)) = Some s"
  using mismatch_locks_out [of demo_torn _ demo_env StartCmd] demo_torn_state by blast

text \<open>C37. An install that died while it wrote its backup can never be repeated: the directory without a manifest is taken
  for the backup of an earlier attempt, its verification fails, and the machine stays as it is. So however often
  install is run on it, with any request and any failures, every run ends with an error.\<close>

theorem interrupted_backup_blocks_install:
  assumes "mc_state m = Some s" "ds_operation s = Some operation" "oj_checkpoint operation < BackupVerified"
    and "mc_config m = Some config" and "half_backed config (ds_installation_id s) m"
  shows "list_all (\<lambda>r. \<exists>e. r = Inl e) (install_results attempts m)"
  using assms by (intro half_attempts [of config "ds_installation_id s"]) (auto simp: half_disk_def before_backup_def)

definition demo_attempt :: install_attempt where
  "demo_attempt = \<lparr>ia_env = demo_env, ia_request = Some (demo_config ''1'', None), ia_external = None,
     ia_memory = demo_state, ia_faults = []\<rparr>"

theorem interrupted_backup_blocks_install_witness:
  "length (install_results [demo_attempt, demo_attempt] demo_half) = 2
   \<and> list_all (\<lambda>r. \<exists>e. r = Inl e) (install_results [demo_attempt, demo_attempt] demo_half)"
proof -
  obtain s operation b where s: "mc_state demo_half = Some s" "ds_operation s = Some operation"
      "oj_checkpoint operation < BackupVerified" "ds_installation_id s = ae_random demo_env 4"
    and c: "mc_config demo_half = Some (demo_config ''1'')"
    and b: "mc_backups demo_half (ascii ''/var/lib/talos/backups'', ascii ''pre-install-migration-'' @ take 8 (ae_random demo_env 4)) = Some b"
      "bd_manifest b = None"
    using demo_half_state by blast
  have "half_backed (demo_config ''1'') (ds_installation_id s) demo_half"
    unfolding half_backed_def s(4) demo_config_simps using b by blast
  from interrupted_backup_blocks_install [OF s(1,2,3) c this, of "[demo_attempt, demo_attempt]"] show ?thesis
    by (simp add: length_install_results del: install_results.simps)
qed

end
