(* ===== verification/Server_State.thy ===== *)
theory Server_State
  imports Rust_Strings "HOL-Library.AList"
begin

text \<open>
  The state of the control server (\<open>talos_server/src/main.rs\<close>, \<open>agent_directory.rs\<close>, \<open>config.rs\<close>): connected agents, the
  five kinds of viewer sessions, the requests that wait for an agent's answer, and the JSON values exchanged with the
  API backend.

  A \<open>HashMap\<close> is an association list with distinct keys (\<open>well_keyed\<close>), in the order in which an iteration meets the
  entries; the order of a hash map is not specified and no theorem depends on it. An \<open>Instant\<close> is a \<open>nat\<close> of
  nanoseconds, and \<open>duration_since\<close>, which saturates, is the subtraction of \<open>nat\<close>. The five session structs have
  fourteen fields in common, which are the fields of \<open>viewer_session\<close>; each struct is a record that extends it.
\<close>

section \<open>Strings, time, JSON\<close>

text \<open>A string literal of the source; \<open>lit\<close> keeps it folded.\<close>

definition lit :: "string \<Rightarrow> ustr" where
  "lit s = ascii s"

type_synonym instant = nat

definition secs :: "nat \<Rightarrow> nat" where
  "secs n = n * 1000000000"

datatype json = JNull | JBool bool | JInt int | JStr ustr | JArr "json list" | JObj "(ustr \<times> json) list"

definition json_opt_str :: "ustr option \<Rightarrow> json" where
  "json_opt_str s = (case s of None \<Rightarrow> JNull | Some s \<Rightarrow> JStr s)"

definition json_obj :: "(string \<times> json) list \<Rightarrow> json" where
  "json_obj fields = JObj (map (\<lambda>(name, value). (lit name, value)) fields)"

definition json_field :: "string \<Rightarrow> json \<Rightarrow> json option" where
  "json_field name j = (case j of JObj fields \<Rightarrow> map_of fields (lit name) | _ \<Rightarrow> None)"

text \<open>What a derived \<open>Deserialize\<close> takes for a field of type \<open>String\<close>, \<open>bool\<close> and \<open>Option<String>\<close>.\<close>

definition str_field :: "string \<Rightarrow> json \<Rightarrow> ustr option" where
  "str_field name j = (case json_field name j of Some (JStr s) \<Rightarrow> Some s | _ \<Rightarrow> None)"

definition bool_field :: "string \<Rightarrow> json \<Rightarrow> bool option" where
  "bool_field name j = (case json_field name j of Some (JBool b) \<Rightarrow> Some b | _ \<Rightarrow> None)"

definition opt_str_field :: "string \<Rightarrow> json \<Rightarrow> ustr option option" where
  "opt_str_field name j =
     (case json_field name j of None \<Rightarrow> Some None | Some JNull \<Rightarrow> Some None | Some (JStr s) \<Rightarrow> Some (Some s) | _ \<Rightarrow> None)"

section \<open>Errors\<close>

record app_error =
  ae_status :: nat
  ae_message :: ustr

definition not_found :: "string \<Rightarrow> app_error" where "not_found m = \<lparr>ae_status = 404, ae_message = lit m\<rparr>"
definition unauthorized :: "string \<Rightarrow> app_error" where "unauthorized m = \<lparr>ae_status = 401, ae_message = lit m\<rparr>"
definition bad_request :: "ustr \<Rightarrow> app_error" where "bad_request m = \<lparr>ae_status = 400, ae_message = m\<rparr>"
definition forbidden :: "ustr \<Rightarrow> app_error" where "forbidden m = \<lparr>ae_status = 403, ae_message = m\<rparr>"
definition gateway_timeout :: "string \<Rightarrow> app_error" where "gateway_timeout m = \<lparr>ae_status = 504, ae_message = lit m\<rparr>"
definition service_unavailable :: "ustr \<Rightarrow> app_error" where "service_unavailable m = \<lparr>ae_status = 503, ae_message = m\<rparr>"
definition gone :: "string \<Rightarrow> app_error" where "gone m = \<lparr>ae_status = 410, ae_message = lit m\<rparr>"
definition internal :: "ustr \<Rightarrow> app_error" where "internal m = \<lparr>ae_status = 500, ae_message = m\<rparr>"

text \<open>\<open>From<anyhow::Error>\<close>: the message of the error is logged and not passed on.\<close>

definition internal_server_error :: app_error where
  "internal_server_error = internal (lit ''internal server error'')"

section \<open>Platforms, features and capabilities\<close>

datatype agent_platform = Windows | Linux | Macos | UnknownPlatform

record agent_features =
  af_remote_desktop :: bool
  af_system_shell :: bool
  af_file_transfer :: bool
  af_remote_registry :: bool
  af_chat :: bool
  af_system_info :: bool

definition features_windows :: agent_features where
  "features_windows = \<lparr>af_remote_desktop = True, af_system_shell = True, af_file_transfer = True,
     af_remote_registry = True, af_chat = True, af_system_info = True\<rparr>"

definition features_linux :: agent_features where
  "features_linux = \<lparr>af_remote_desktop = False, af_system_shell = True, af_file_transfer = True,
     af_remote_registry = False, af_chat = False, af_system_info = True\<rparr>"

definition features_macos :: agent_features where
  "features_macos = \<lparr>af_remote_desktop = True, af_system_shell = True, af_file_transfer = True,
     af_remote_registry = False, af_chat = True, af_system_info = True\<rparr>"

definition features_unsupported :: agent_features where
  "features_unsupported = \<lparr>af_remote_desktop = False, af_system_shell = False, af_file_transfer = False,
     af_remote_registry = False, af_chat = False, af_system_info = True\<rparr>"

fun features_for_platform :: "agent_platform \<Rightarrow> agent_features" where
  "features_for_platform Windows = features_windows"
| "features_for_platform Linux = features_linux"
| "features_for_platform Macos = features_macos"
| "features_for_platform UnknownPlatform = features_unsupported"

definition default_features :: agent_features where
  "default_features = features_windows"

record display_profile =
  dp_id :: ustr
  dp_protocol :: ustr
  dp_codec :: ustr
  dp_compression :: ustr
  dp_priority :: u8

record rd_capabilities =
  rc_codecs :: "ustr list"
  rc_encoding :: ustr
  rc_transports :: "ustr list"
  rc_platform :: agent_platform
  rc_features :: agent_features
  rc_display_profiles :: "display_profile list"
  rc_selected_display_profile :: "ustr option"

datatype transport_mode = RemoteDesktopMode | HeadlessRemoteDesktopMode | FileTransferMode | RemoteRegistryMode | ShellMode | ChatMode

record reflex_address =
  ra_ip :: ustr
  ra_port :: u16

record local_addr =
  la_ip :: ustr
  la_prefix :: u8

section \<open>Connected agents\<close>

text \<open>The sender of an agent is the number of its channel, so that \<open>same_channel\<close> is equality.\<close>

record agent_connection =
  ac_sender :: nat
  ac_host :: "ustr option"
  ac_local_addrs :: "local_addr list"
  ac_is_admin :: bool
  ac_hostname :: "ustr option"
  ac_os :: "ustr option"
  ac_version :: "ustr option"
  ac_platform :: agent_platform
  ac_features :: agent_features

record agent_registration =
  ar_sender :: nat
  ar_host :: "ustr option"
  ar_local_addrs :: "local_addr list option"
  ar_is_admin :: "bool option"
  ar_hostname :: "ustr option"
  ar_os :: "ustr option"
  ar_version :: "ustr option"
  ar_platform :: agent_platform
  ar_features :: agent_features

section \<open>Viewer sessions\<close>

record viewer_identity =
  vi_user_id :: ustr
  vi_user_email :: "ustr option"

record viewer_session =
  vs_token :: ustr
  vs_agent_id :: ustr
  vs_viewer_user_id :: "ustr option"
  vs_viewer_user_email :: "ustr option"
  vs_agent_reflex :: "reflex_address option"
  vs_viewer_reflex :: "reflex_address option"
  vs_agent_host :: "ustr option"
  vs_agent_local_addrs :: "local_addr list"
  vs_e2e_key :: bytes
  vs_relay_url :: "ustr option"
  vs_created_at :: instant
  vs_attached_at :: "instant option"
  vs_viewer_connected_at :: "instant option"
  vs_viewer_last_heartbeat_at :: "instant option"

record remote_desktop_session = viewer_session +
  rd_mode :: transport_mode
  rd_hide_cursor :: bool
  rd_capabilities :: rd_capabilities
  rd_psk_cert_pem :: ustr
  rd_agent_hostname :: "ustr option"
  rd_agent_os :: "ustr option"
  rd_agent_version :: "ustr option"

record active_shell_session = viewer_session +
  sh_transports :: "ustr list"
  sh_platform :: agent_platform
  sh_features :: agent_features
  sh_psk_cert_pem :: "ustr option"

record file_transfer_session = viewer_session +
  ft_transports :: "ustr list"
  ft_platform :: agent_platform
  ft_features :: agent_features
  ft_psk_cert_pem :: ustr

record remote_registry_session = viewer_session +
  rr_transports :: "ustr list"
  rr_platform :: agent_platform
  rr_features :: agent_features
  rr_psk_cert_pem :: ustr

record chat_session = viewer_session +
  ch_transports :: "ustr list"
  ch_platform :: agent_platform
  ch_features :: agent_features
  ch_psk_cert_pem :: ustr
  ch_parent_desktop_session_id :: "ustr option"

datatype session_kind = RemoteDesktop | Shell | FileTransfer | RemoteRegistry | Chat

section \<open>Requests that wait for an agent\<close>

record shell_offer =
  so_session_id :: ustr
  so_stream_port :: u16
  so_host :: ustr
  so_local_addrs :: "local_addr list"
  so_reflex :: "reflex_address option"

record shell_output =
  out_request_id :: ustr
  out_output :: ustr
  out_exit_code :: "int option"

record rdp_session_info =
  rs_logical_session_id :: u32
  rs_native_session_id :: u32
  rs_kind :: ustr
  rs_win_station :: ustr
  rs_user_name :: ustr
  rs_state :: ustr

datatype quic_reflex_result = ReflexSuccess reflex_address | DisplayUnavailable ustr "ustr option"

text \<open>Every pending request owns the sending half of a \<open>oneshot\<close> channel. A channel is a number; \<open>st_mailbox\<close> holds what
  was sent into it. The sending half is dropped with the table entry that holds it.\<close>

datatype agent_reply =
    ShellReply "ustr + shell_offer"
  | DetailReply json
  | CommandReply shell_output
  | RdpReply "rdp_session_info list"
  | CapabilityReply rd_capabilities
  | ReflexReply quic_reflex_result

record pending =
  pd_channel :: nat
  pd_created_at :: instant

section \<open>The state\<close>

record app_state =
  st_agents :: "(ustr \<times> agent_connection) list"
  st_shell_sessions :: "(ustr \<times> pending) list"
  st_active_shell_sessions :: "(ustr \<times> active_shell_session) list"
  st_detail_requests :: "(ustr \<times> pending) list"
  st_shell_commands :: "(ustr \<times> pending) list"
  st_rdp_sessions_requests :: "(ustr \<times> pending) list"
  st_capability_requests :: "(ustr \<times> pending) list"
  st_quic_reflex_requests :: "(ustr \<times> pending) list"
  st_remote_desktop_sessions :: "(ustr \<times> remote_desktop_session) list"
  st_file_transfer_sessions :: "(ustr \<times> file_transfer_session) list"
  st_remote_registry_sessions :: "(ustr \<times> remote_registry_session) list"
  st_chat_sessions :: "(ustr \<times> chat_session) list"
  st_last_snapshot_request :: "(ustr \<times> instant) list"
  st_mailbox :: "nat \<Rightarrow> agent_reply option"
  st_next_channel :: nat

definition initial_state :: app_state where
  "initial_state = \<lparr>st_agents = [], st_shell_sessions = [], st_active_shell_sessions = [], st_detail_requests = [],
     st_shell_commands = [], st_rdp_sessions_requests = [], st_capability_requests = [], st_quic_reflex_requests = [],
     st_remote_desktop_sessions = [], st_file_transfer_sessions = [], st_remote_registry_sessions = [],
     st_chat_sessions = [], st_last_snapshot_request = [], st_mailbox = Map.empty, st_next_channel = 0\<rparr>"

definition well_keyed :: "('k \<times> 'v) list \<Rightarrow> bool" where
  "well_keyed m \<longleftrightarrow> distinct (map fst m)"

text \<open>\<open>HashMap::retain\<close>, and \<open>get_mut\<close> with a change of the value.\<close>

definition hm_retain :: "('k \<Rightarrow> 'v \<Rightarrow> bool) \<Rightarrow> ('k \<times> 'v) list \<Rightarrow> ('k \<times> 'v) list" where
  "hm_retain P m = filter (\<lambda>(k, v). P k v) m"

definition hm_modify :: "'k \<Rightarrow> ('v \<Rightarrow> 'v) \<Rightarrow> ('k \<times> 'v) list \<Rightarrow> ('k \<times> 'v) list" where
  "hm_modify k f m = map (\<lambda>(k', v). (k', if k' = k then f v else v)) m"

lemma map_of_hm_modify: "map_of (hm_modify k f m) = (\<lambda>x. if x = k then map_option f (map_of m x) else map_of m x)"
  by (induction m) (auto simp: hm_modify_def)

lemma keys_hm_modify [simp]: "map fst (hm_modify k f m) = map fst m"
  by (induction m) (auto simp: hm_modify_def)

lemma well_keyed_update [simp]: "well_keyed m \<Longrightarrow> well_keyed (AList.update k v m)"
  by (simp add: well_keyed_def distinct_update)

lemma well_keyed_delete [simp]: "well_keyed m \<Longrightarrow> well_keyed (AList.delete k m)"
  by (simp add: well_keyed_def distinct_delete)

lemma well_keyed_modify [simp]: "well_keyed (hm_modify k f m) \<longleftrightarrow> well_keyed m"
  by (simp add: well_keyed_def)

lemma well_keyed_retain [simp]: "well_keyed m \<Longrightarrow> well_keyed (hm_retain P m)"
  by (simp add: well_keyed_def hm_retain_def distinct_map_filter)

lemma well_keyed_Nil [simp]: "well_keyed []"
  by (simp add: well_keyed_def)

text \<open>In a map with distinct keys, to be an entry and to be looked up are the same.\<close>

lemma well_keyed_lookup: "well_keyed m \<Longrightarrow> map_of m k = Some v \<longleftrightarrow> (k, v) \<in> set m"
  by (simp add: well_keyed_def)

lemma set_update_subset: "set (AList.update k v m) \<subseteq> insert (k, v) (set m)"
  by (induction m) auto

lemma set_delete_subset: "set (AList.delete k m) \<subseteq> set m"
  by (auto simp: AList.delete_eq)

lemma hm_modify_entry: "(k', v') \<in> set (hm_modify k f m) \<Longrightarrow> \<exists>v. (k', v) \<in> set m \<and> (v' = v \<or> k' = k \<and> v' = f v)"
  by (auto simp: hm_modify_def split: if_splits)

section \<open>Configuration\<close>

text \<open>The fields of \<open>Config\<close> that the modelled code reads; of the libraries, the two Base64 encodings of the \<open>base64\<close>
  crate and the text of the time of day, as \<open>chrono\<close> prints it and as it serialises it.\<close>

record server_env =
  se_api_base_url :: ustr
  se_telemetry_producer_url :: "ustr option"
  se_api_key :: "ustr option"
  se_max_output_bytes :: nat
  se_max_execution_secs :: nat
  se_relay_url :: "ustr option"
  se_base64_standard :: "bytes \<Rightarrow> ustr"
  se_base64_url_safe :: "bytes \<Rightarrow> ustr"
  se_rfc3339 :: "instant \<Rightarrow> ustr"
  se_serialized_time :: "instant \<Rightarrow> ustr"

end
