(* ===== verification/Server_Task.thy ===== *)
theory Server_Task
  imports Server_State
begin

text \<open>
  The handlers of the control server run concurrently: each is an \<open>async fn\<close>, and between two of its steps any other
  may run. A handler is therefore modelled as a \<open>task\<close>, the tree of its steps, and not as a function from state to state.

  \<^item> \<open>Locked u k\<close> is one critical section: the lock is taken at the time \<open>now\<close>, the state becomes \<open>u now s\<close>, and the task
    goes on with \<open>k now s\<close>, which sees the state the section found. A handler that locks a map twice has two such steps.
  \<^item> \<open>NewUuid\<close>, \<open>SelfSigned\<close> and \<open>RandomKey\<close> ask the libraries for an identifier, a certificate with its key (\<open>None\<close> when
    that fails) and 32 random bytes.
  \<^item> \<open>SendTo\<close> puts a message into the channel of an agent's socket; it fails when the receiving half is gone.
  \<^item> \<open>Http\<close> sends a request to the API backend or the telemetry service and waits for the outcome.

  How tasks interleave is the step relation of \<open>Server_Run\<close>.
\<close>

section \<open>Messages and exchanges\<close>

datatype shell_run_as = RunAsUser | RunAsSystem

record tunnel_prepare =
  tp_session_id :: ustr
  tp_psk_cert_pem :: ustr
  tp_psk_key_pem :: ustr
  tp_relay_url :: "ustr option"
  tp_e2e_key :: "ustr option"
  tp_mode :: transport_mode
  tp_selected_display_profile :: "ustr option"
  tp_hide_cursor :: bool
  tp_viewer_session_token :: "ustr option"
  tp_parent_desktop_session_id :: "ustr option"

record relay_prepare =
  rp_session_id :: ustr
  rp_relay_url :: ustr
  rp_e2e_key :: ustr
  rp_mode :: transport_mode
  rp_selected_display_profile :: "ustr option"
  rp_hide_cursor :: bool

record shell_start =
  ss_session_id :: ustr
  ss_token :: ustr
  ss_run_as :: shell_run_as
  ss_target_session_id :: "u32 option"
  ss_relay_url :: "ustr option"
  ss_e2e_key :: "ustr option"
  ss_psk_cert_pem :: "ustr option"
  ss_psk_key_pem :: "ustr option"

text \<open>The five queues of jobs an agent polls: each has a message that jobs are available, and one that brings them.\<close>

datatype job_kind = PatchJob | PreflightJob | StageIsoJob | StartJob | RemediationJob

text \<open>The messages to an agent, by the \<open>message_type\<close> of their envelope.\<close>

datatype agent_message =
    Ping
  | SessionCapabilitiesRequest ustr
  | TunnelPrepare tunnel_prepare
  | RelayPrepare relay_prepare
  | PunchStart ustr reflex_address
  | SessionEnd ustr ustr
  | ShellStart shell_start
  | ShellCommand ustr ustr
  | RdpSessionsRequest ustr
  | FetchDetails ustr
  | RequestFullSnapshot ustr
  | JobsAvailable job_kind ustr "ustr option"
  | Jobs job_kind ustr "json list"
  | PatchActionPlan "ustr option" json
  | LinuxShellCredentialStored ustr ustr

datatype http_method = GET | POST | PATCH

record http_request =
  hr_method :: http_method
  hr_url :: ustr
  hr_bearer :: "ustr option"
  hr_server_key :: "ustr option"
  hr_body :: "json option"

text \<open>\<open>Responded status body json err\<close>: the body as text (\<open>None\<close> when it cannot be read), the JSON value it parses to,
  and the error text of the parser for the case that it does not parse to the wanted type.\<close>

datatype http_outcome = RequestFailed ustr | Responded nat "ustr option" "json option" ustr

section \<open>Tasks\<close>

datatype 'a task =
    Done 'a
  | Locked "instant \<Rightarrow> app_state \<Rightarrow> app_state" "instant \<Rightarrow> app_state \<Rightarrow> 'a task"
  | NewUuid "ustr \<Rightarrow> 'a task"
  | SelfSigned "(ustr \<times> ustr) option \<Rightarrow> 'a task"
  | RandomKey "bytes \<Rightarrow> 'a task"
  | SendTo nat agent_message "bool \<Rightarrow> 'a task"
  | Http http_request "http_outcome \<Rightarrow> 'a task"

primrec tbind :: "'a task \<Rightarrow> ('a \<Rightarrow> 'b task) \<Rightarrow> 'b task" where
  "tbind (Done a) f = f a"
| "tbind (Locked u k) f = Locked u (\<lambda>now s. tbind (k now s) f)"
| "tbind (NewUuid k) f = NewUuid (\<lambda>x. tbind (k x) f)"
| "tbind (SelfSigned k) f = SelfSigned (\<lambda>x. tbind (k x) f)"
| "tbind (RandomKey k) f = RandomKey (\<lambda>x. tbind (k x) f)"
| "tbind (SendTo c m k) f = SendTo c m (\<lambda>x. tbind (k x) f)"
| "tbind (Http q k) f = Http q (\<lambda>x. tbind (k x) f)"

text \<open>The operator \<open>?\<close> of the source.\<close>

definition ttry :: "('e + 'a) task \<Rightarrow> ('a \<Rightarrow> ('e + 'b) task) \<Rightarrow> ('e + 'b) task" where
  "ttry t f = tbind t (\<lambda>r. case r of Inl e \<Rightarrow> Done (Inl e) | Inr a \<Rightarrow> f a)"

definition look :: "(app_state \<Rightarrow> 'b) \<Rightarrow> ('b \<Rightarrow> 'a task) \<Rightarrow> 'a task" where
  "look f k = Locked (\<lambda>_ s. s) (\<lambda>_ s. k (f s))"

definition clock :: "(instant \<Rightarrow> 'a task) \<Rightarrow> 'a task" where
  "clock k = Locked (\<lambda>_ s. s) (\<lambda>now _. k now)"

definition change :: "(instant \<Rightarrow> app_state \<Rightarrow> app_state) \<Rightarrow> 'a task \<Rightarrow> 'a task" where
  "change u k = Locked u (\<lambda>_ _. k)"

text \<open>A message to an agent: \<open>send_required\<close> where a closed channel is the error \<open>agent unavailable\<close>, \<open>send_ignored\<close> for
  \<open>let _ = sender.send(..)\<close>.\<close>

definition agent_unavailable :: app_error where
  "agent_unavailable = bad_request (lit ''agent unavailable'')"

definition send_required :: "nat \<Rightarrow> agent_message \<Rightarrow> (app_error + unit) task" where
  "send_required sender m = SendTo sender m (\<lambda>ok. Done (if ok then Inr () else Inl agent_unavailable))"

definition send_ignored :: "nat \<Rightarrow> agent_message \<Rightarrow> unit task" where
  "send_ignored sender m = SendTo sender m (\<lambda>_. Done ())"

definition find_agent :: "app_error \<Rightarrow> ustr \<Rightarrow> (agent_connection \<Rightarrow> (app_error + 'a) task) \<Rightarrow> (app_error + 'a) task" where
  "find_agent e agent_id k =
     look (\<lambda>s. map_of (st_agents s) agent_id) (\<lambda>agent. case agent of None \<Rightarrow> Done (Inl e) | Some agent \<Rightarrow> k agent)"

section \<open>Session tables\<close>

text \<open>One of the maps of the state: how it is read and how it is changed.\<close>

record 'v table =
  tb_get :: "app_state \<Rightarrow> (ustr \<times> 'v) list"
  tb_update :: "((ustr \<times> 'v) list \<Rightarrow> (ustr \<times> 'v) list) \<Rightarrow> app_state \<Rightarrow> app_state"

definition desktops :: "remote_desktop_session table" where
  "desktops = \<lparr>tb_get = st_remote_desktop_sessions, tb_update = st_remote_desktop_sessions_update\<rparr>"

definition shells :: "active_shell_session table" where
  "shells = \<lparr>tb_get = st_active_shell_sessions, tb_update = st_active_shell_sessions_update\<rparr>"

definition transfers :: "file_transfer_session table" where
  "transfers = \<lparr>tb_get = st_file_transfer_sessions, tb_update = st_file_transfer_sessions_update\<rparr>"

definition registries :: "remote_registry_session table" where
  "registries = \<lparr>tb_get = st_remote_registry_sessions, tb_update = st_remote_registry_sessions_update\<rparr>"

definition chats :: "chat_session table" where
  "chats = \<lparr>tb_get = st_chat_sessions, tb_update = st_chat_sessions_update\<rparr>"

definition shell_requests :: "pending table" where
  "shell_requests = \<lparr>tb_get = st_shell_sessions, tb_update = st_shell_sessions_update\<rparr>"

definition detail_requests :: "pending table" where
  "detail_requests = \<lparr>tb_get = st_detail_requests, tb_update = st_detail_requests_update\<rparr>"

definition command_requests :: "pending table" where
  "command_requests = \<lparr>tb_get = st_shell_commands, tb_update = st_shell_commands_update\<rparr>"

definition rdp_requests :: "pending table" where
  "rdp_requests = \<lparr>tb_get = st_rdp_sessions_requests, tb_update = st_rdp_sessions_requests_update\<rparr>"

definition capability_requests :: "pending table" where
  "capability_requests = \<lparr>tb_get = st_capability_requests, tb_update = st_capability_requests_update\<rparr>"

definition reflex_requests :: "pending table" where
  "reflex_requests = \<lparr>tb_get = st_quic_reflex_requests, tb_update = st_quic_reflex_requests_update\<rparr>"

definition insert_entry :: "'v table \<Rightarrow> ustr \<Rightarrow> 'v \<Rightarrow> app_state \<Rightarrow> app_state" where
  "insert_entry T key v = tb_update T (AList.update key v)"

definition remove_entry :: "'v table \<Rightarrow> ustr \<Rightarrow> app_state \<Rightarrow> app_state" where
  "remove_entry T key = tb_update T (AList.delete key)"

definition modify_entry :: "'v table \<Rightarrow> ustr \<Rightarrow> ('v \<Rightarrow> 'v) \<Rightarrow> app_state \<Rightarrow> app_state" where
  "modify_entry T key f = tb_update T (hm_modify key f)"

section \<open>Waiting for an agent's answer\<close>

text \<open>A pending request is inserted with the sending half of a new channel. The task then waits with a time limit: it
  goes on with the value that was sent, with an error when the sending half is gone, or because the time is over. When
  the wait ends is up to the schedule; what it ends with is what the channel holds then.\<close>

datatype awaited = Received agent_reply | SenderDropped | TimedOut

definition open_request :: "pending table \<Rightarrow> ustr \<Rightarrow> (nat \<Rightarrow> 'a task) \<Rightarrow> 'a task" where
  "open_request T key k =
     Locked
       (\<lambda>now s. (insert_entry T key \<lparr>pd_channel = st_next_channel s, pd_created_at = now\<rparr> s)
          \<lparr>st_next_channel := Suc (st_next_channel s)\<rparr>)
       (\<lambda>_ s. k (st_next_channel s))"

definition poll_reply :: "pending table \<Rightarrow> ustr \<Rightarrow> nat \<Rightarrow> app_state \<Rightarrow> awaited" where
  "poll_reply T key channel s =
     (case st_mailbox s channel of
        Some reply \<Rightarrow> Received reply
      | None \<Rightarrow> if map_option pd_channel (map_of (tb_get T s) key) = Some channel then TimedOut else SenderDropped)"

definition await_reply :: "pending table \<Rightarrow> ustr \<Rightarrow> nat \<Rightarrow> (awaited \<Rightarrow> 'a task) \<Rightarrow> 'a task" where
  "await_reply T key channel k = look (poll_reply T key channel) k"

definition close_request :: "pending table \<Rightarrow> ustr \<Rightarrow> 'a task \<Rightarrow> 'a task" where
  "close_request T key k = change (\<lambda>_. remove_entry T key) k"

text \<open>An answer of an agent: the entry is removed, and the value sent into its channel.\<close>

definition answer_request :: "pending table \<Rightarrow> ustr \<Rightarrow> agent_reply \<Rightarrow> app_state \<Rightarrow> app_state" where
  "answer_request T key reply s =
     (case map_of (tb_get T s) key of
        None \<Rightarrow> s
      | Some p \<Rightarrow> (remove_entry T key s)\<lparr>st_mailbox := (st_mailbox s)(pd_channel p \<mapsto> reply)\<rparr>)"

section \<open>Lenses\<close>

text \<open>A table is a part of the state: what is put is what is read.\<close>

locale state_table =
  fixes T :: "'v table"
  assumes get_update: "tb_get T (tb_update T f s) = f (tb_get T s)"
begin

lemma get_insert: "tb_get T (insert_entry T key v s) = AList.update key v (tb_get T s)"
  by (simp add: insert_entry_def get_update)

lemma get_remove: "tb_get T (remove_entry T key s) = AList.delete key (tb_get T s)"
  by (simp add: remove_entry_def get_update)

lemma get_modify: "tb_get T (modify_entry T key f s) = hm_modify key f (tb_get T s)"
  by (simp add: modify_entry_def get_update)

lemma lookup_insert: "map_of (tb_get T (insert_entry T key v s)) = (map_of (tb_get T s))(key \<mapsto> v)"
  by (simp add: get_insert update_conv')

lemma lookup_remove: "map_of (tb_get T (remove_entry T key s)) = (map_of (tb_get T s))(key := None)"
  by (simp add: get_remove delete_conv')

lemma lookup_modify:
  "map_of (tb_get T (modify_entry T key f s)) k =
     (if k = key then map_option f (map_of (tb_get T s) k) else map_of (tb_get T s) k)"
  by (simp add: get_modify map_of_hm_modify)

end

interpretation desktop_table: state_table desktops by unfold_locales (simp add: desktops_def)
interpretation shell_table: state_table shells by unfold_locales (simp add: shells_def)
interpretation transfer_table: state_table transfers by unfold_locales (simp add: transfers_def)
interpretation registry_table: state_table registries by unfold_locales (simp add: registries_def)
interpretation chat_table: state_table chats by unfold_locales (simp add: chats_def)
interpretation shell_request_table: state_table shell_requests by unfold_locales (simp add: shell_requests_def)
interpretation detail_table: state_table detail_requests by unfold_locales (simp add: detail_requests_def)
interpretation command_table: state_table command_requests by unfold_locales (simp add: command_requests_def)
interpretation rdp_table: state_table rdp_requests by unfold_locales (simp add: rdp_requests_def)
interpretation capability_table: state_table capability_requests by unfold_locales (simp add: capability_requests_def)
interpretation reflex_table: state_table reflex_requests by unfold_locales (simp add: reflex_requests_def)

end
