(* ===== verification/Server_Access.thy ===== *)
theory Server_Access
  imports Server_Task
begin

text \<open>
  What every handler of the control server uses: the request headers, the calls of the API backend, the identity and
  organisation checks, audit records, the features of an agent, the choice of a display profile, and the deep links that
  open the viewer.
\<close>

section \<open>Headers\<close>

text \<open>Header names are in lower case, as \<open>HeaderMap\<close> keeps them; \<open>to_str\<close> takes visible ASCII and tabs.\<close>

type_synonym headers = "(ustr \<times> bytes) list"

definition header_str :: "bytes \<Rightarrow> ustr option" where
  "header_str value = (if list_all (\<lambda>b. b = 9 \<or> 32 \<le> b \<and> b < 127) value then Some (map unat value) else None)"

definition header :: "string \<Rightarrow> headers \<Rightarrow> ustr option" where
  "header name hs = Option.bind (map_of hs (lit name)) header_str"

definition extract_bearer :: "headers \<Rightarrow> ustr option" where
  "extract_bearer hs =
     Option.bind (header ''authorization'' hs) (\<lambda>value.
     Option.bind (split_once 32 value) (\<lambda>(scheme, token).
       if eq_ignore_ascii_case (trim scheme) (lit ''bearer'') \<and> trim token \<noteq> [] then Some (trim token) else None))"

definition extract_agent_registration_token :: "headers \<Rightarrow> ustr option" where
  "extract_agent_registration_token hs =
     (let from_header = (case header ''x-rmm-token'' hs of
            Some value \<Rightarrow> if trim value \<noteq> [] then Some (trim value) else None
          | None \<Rightarrow> None) in
      case extract_bearer hs of
        Some value \<Rightarrow> if trim value \<noteq> [] then Some (trim value) else from_header
      | None \<Rightarrow> from_header)"

definition extract_api_base :: "headers \<Rightarrow> ustr option" where
  "extract_api_base hs =
     (case Option.bind (case map_of hs (lit ''x-forwarded-host'') of Some v \<Rightarrow> Some v | None \<Rightarrow> map_of hs (lit ''host''))
             header_str of
        None \<Rightarrow> None
      | Some host \<Rightarrow>
          let proto = (case header ''x-forwarded-proto'' hs of Some proto \<Rightarrow> proto | None \<Rightarrow> lit ''http'') in
          Some (proto @ lit ''://'' @ host))"

section \<open>The API backend\<close>

definition nonempty :: "ustr option \<Rightarrow> ustr option" where
  "nonempty value = (case value of Some v \<Rightarrow> if v = [] then None else Some v | None \<Rightarrow> None)"

definition api_url :: "server_env \<Rightarrow> ustr \<Rightarrow> ustr" where
  "api_url env path = trim_end_matches 47 (se_api_base_url env) @ lit ''/'' @ dropWhile (\<lambda>c. c = 47) path"

definition telemetry_url :: "server_env \<Rightarrow> ustr \<Rightarrow> ustr" where
  "telemetry_url env path_suffix =
     (case se_telemetry_producer_url env of
        Some base \<Rightarrow> trim_end_matches 47 base @ lit ''/telemetry/'' @ path_suffix
      | None \<Rightarrow> api_url env (lit ''rmm/telemetry/'' @ path_suffix))"

definition full_snapshot_ingest_url :: "server_env \<Rightarrow> ustr" where
  "full_snapshot_ingest_url env =
     (case se_telemetry_producer_url env of
        Some _ \<Rightarrow> telemetry_url env (lit ''snapshots'')
      | None \<Rightarrow> api_url env (lit ''rmm/telemetry/snapshots/upsert''))"

text \<open>\<open>decode\<close> stands for the type the caller wants. For a \<open>serde_json::Value\<close> it is \<open>Some\<close>.\<close>

definition api_result :: "ustr \<Rightarrow> (json \<Rightarrow> 'a option) \<Rightarrow> http_outcome \<Rightarrow> app_error + 'a" where
  "api_result what decode outcome =
     (case outcome of
        RequestFailed err \<Rightarrow> Inl (internal (lit ''api request failed: '' @ err))
      | Responded status body json err \<Rightarrow>
          if 200 \<le> status \<and> status < 300 then
            (case Option.bind json decode of
               Some a \<Rightarrow> Inr a
             | None \<Rightarrow> Inl (internal (lit ''api parse failed: '' @ err)))
          else Inl \<lparr>ae_status = status, ae_message = (case body of Some message \<Rightarrow> message | None \<Rightarrow> what)\<rparr>)"

definition api_request_with_url ::
  "server_env \<Rightarrow> http_method \<Rightarrow> ustr \<Rightarrow> ustr option \<Rightarrow> json option \<Rightarrow> bool \<Rightarrow> string \<Rightarrow> (json \<Rightarrow> 'a option)
   \<Rightarrow> (app_error + 'a) task" where
  "api_request_with_url env method url bearer body use_server_key what decode =
     (let send = (\<lambda>key. Http \<lparr>hr_method = method, hr_url = url, hr_bearer = bearer, hr_server_key = key, hr_body = body\<rparr>
                          (\<lambda>outcome. Done (api_result (lit what) decode outcome))) in
      if use_server_key then
        (case nonempty (se_api_key env) of
           None \<Rightarrow> Done (Inl (internal (lit ''RMM_SERVER_API_KEY must be configured'')))
         | Some key \<Rightarrow> send (Some key))
      else send None)"

definition api_request ::
  "server_env \<Rightarrow> http_method \<Rightarrow> ustr \<Rightarrow> ustr option \<Rightarrow> json option \<Rightarrow> bool \<Rightarrow> string \<Rightarrow> (json \<Rightarrow> 'a option)
   \<Rightarrow> (app_error + 'a) task" where
  "api_request env method path = api_request_with_url env method (api_url env path)"

section \<open>Identity and organisation\<close>

record user_context =
  uc_user_id :: ustr
  uc_organization_id :: ustr
  uc_role :: ustr
  uc_email :: "ustr option"

definition decode_user_context :: "json \<Rightarrow> user_context option" where
  "decode_user_context j =
     Option.bind (str_field ''userId'' j) (\<lambda>user_id.
     Option.bind (str_field ''organizationId'' j) (\<lambda>organization_id.
     Option.bind (str_field ''role'' j) (\<lambda>role.
     Option.bind (opt_str_field ''email'' j) (\<lambda>email.
       Some \<lparr>uc_user_id = user_id, uc_organization_id = organization_id, uc_role = role, uc_email = email\<rparr>))))"

record device_scope =
  ds_organization_id :: ustr
  ds_customer_id :: "ustr option"
  ds_site_id :: "ustr option"

definition decode_device_scope :: "json \<Rightarrow> device_scope option" where
  "decode_device_scope j =
     Option.bind (str_field ''organizationId'' j) (\<lambda>organization_id.
     Option.bind (opt_str_field ''customerId'' j) (\<lambda>customer_id.
     Option.bind (opt_str_field ''siteId'' j) (\<lambda>site_id.
       Some \<lparr>ds_organization_id = organization_id, ds_customer_id = customer_id, ds_site_id = site_id\<rparr>)))"

definition require_internal_server_key :: "server_env \<Rightarrow> headers \<Rightarrow> app_error + unit" where
  "require_internal_server_key env hs =
     (case nonempty (map_option trim (se_api_key env)) of
        None \<Rightarrow> Inl (service_unavailable (lit ''RMM_SERVER_API_KEY must be configured''))
      | Some expected \<Rightarrow>
          let presented = (case header ''x-rmm-server-key'' hs of Some value \<Rightarrow> trim value | None \<Rightarrow> []) in
          if presented \<noteq> expected then Inl (unauthorized ''unauthorized'') else Inr ())"

definition require_user_context :: "server_env \<Rightarrow> headers \<Rightarrow> (app_error + user_context) task" where
  "require_user_context env hs =
     (case extract_bearer hs of
        None \<Rightarrow> Done (Inl (unauthorized ''missing bearer token''))
      | Some token \<Rightarrow> api_request env GET (lit ''/auth/context'') (Some token) None False ''fetch user context'' decode_user_context)"

definition ensure_device_in_organization :: "server_env \<Rightarrow> ustr \<Rightarrow> ustr \<Rightarrow> (app_error + unit) task" where
  "ensure_device_in_organization env agent_id organization_id =
     ttry (api_request env POST (lit ''/rmm/devices/'' @ agent_id @ lit ''/ensure-org'') None
             (Some (json_obj [(''organizationId'', JStr organization_id)])) True ''ensure device in organization'' Some)
       (\<lambda>_. Done (Inr ()))"

definition scope_path :: "ustr \<Rightarrow> ustr" where
  "scope_path agent_id = lit ''/rmm/devices/'' @ agent_id @ lit ''/scope''"

definition fetch_device_scope :: "server_env \<Rightarrow> ustr \<Rightarrow> (app_error + device_scope) task" where
  "fetch_device_scope env agent_id =
     ttry (api_request env GET (scope_path agent_id) None None True ''fetch device scope'' decode_device_scope)
       (\<lambda>response. let organization_id = trim (ds_organization_id response) in
          if organization_id = [] then Done (Inl (forbidden (lit ''device is not assigned to an organization'')))
          else Done (Inr (response\<lparr>ds_organization_id := organization_id\<rparr>)))"

text \<open>The check at the start of every handler for a signed-in user: the identity of the user, the device made known to
  the organisation, and the organisation of the device compared with the one of the user.\<close>

definition authorize_device :: "server_env \<Rightarrow> headers \<Rightarrow> ustr \<Rightarrow> (app_error + user_context \<times> device_scope) task" where
  "authorize_device env hs agent_id =
     ttry (require_user_context env hs) (\<lambda>user.
     ttry (ensure_device_in_organization env agent_id (uc_organization_id user)) (\<lambda>_.
     ttry (fetch_device_scope env agent_id) (\<lambda>scope.
       if ds_organization_id scope \<noteq> uc_organization_id user
       then Done (Inl (forbidden (lit ''device does not belong to your organization'')))
       else Done (Inr (user, scope)))))"

text \<open>The check of the handlers that the AI runner calls: the server key, and the organisation it names.\<close>

definition authorize_ai_runner :: "server_env \<Rightarrow> headers \<Rightarrow> ustr \<Rightarrow> ustr \<Rightarrow> (app_error + device_scope) task" where
  "authorize_ai_runner env hs organization_id agent_id =
     ttry (Done (require_internal_server_key env hs)) (\<lambda>_.
     if trim organization_id = [] then Done (Inl (bad_request (lit ''organizationId is required''))) else
     ttry (fetch_device_scope env agent_id) (\<lambda>scope.
       if ds_organization_id scope \<noteq> trim organization_id
       then Done (Inl (forbidden (lit ''device does not belong to the requested organization'')))
       else Done (Inr scope)))"

section \<open>Audit records\<close>

definition log_audit_event ::
  "server_env \<Rightarrow> device_scope \<Rightarrow> ustr \<Rightarrow> viewer_identity option \<Rightarrow> string \<Rightarrow> ustr option \<Rightarrow> string \<Rightarrow> ustr option \<Rightarrow> json
   \<Rightarrow> (app_error + unit) task" where
  "log_audit_event env scope agent_id identity action_type target_name result session_id metadata =
     ttry (api_request env POST (lit ''/audit/events'') None
        (Some (json_obj
          [(''organizationId'', JStr (ds_organization_id scope)),
           (''customerId'', json_opt_str (ds_customer_id scope)),
           (''siteId'', json_opt_str (ds_site_id scope)),
           (''agentId'', JStr agent_id),
           (''actorType'', JStr (if identity \<noteq> None then lit ''user'' else lit ''service'')),
           (''userId'', json_opt_str (map_option vi_user_id identity)),
           (''userEmail'', json_opt_str (Option.bind identity vi_user_email)),
           (''actionType'', JStr (lit action_type)),
           (''targetType'', JStr (lit ''rmm_device'')),
           (''targetId'', JStr agent_id),
           (''targetName'', json_opt_str target_name),
           (''result'', JStr (lit result)),
           (''sessionId'', json_opt_str session_id),
           (''metadata'', metadata)]))
        True ''log audit event'' Some)
       (\<lambda>_. Done (Inr ()))"

section \<open>Platforms and features\<close>

definition platform_from_os :: "ustr option \<Rightarrow> agent_platform" where
  "platform_from_os os =
     (let normalized = to_ascii_lowercase (case os of Some os \<Rightarrow> os | None \<Rightarrow> []);
          has = (\<lambda>part. contains_str normalized (lit part)) in
      if has ''windows'' then Windows
      else if has ''linux'' \<or> has ''ubuntu'' \<or> has ''debian'' \<or> has ''fedora'' \<or> has ''rhel'' \<or> has ''centos''
              \<or> has ''rocky'' \<or> has ''alma'' \<or> has ''suse'' \<or> has ''arch'' then Linux
      else if has ''macos'' \<or> has ''mac os'' \<or> has ''darwin'' then Macos
      else UnknownPlatform)"

definition normalize_agent_platform :: "agent_platform \<Rightarrow> ustr option \<Rightarrow> agent_platform" where
  "normalize_agent_platform platform os = (if platform \<noteq> UnknownPlatform then platform else platform_from_os os)"

definition features_for_agent :: "agent_connection \<Rightarrow> agent_features" where
  "features_for_agent agent =
     (let features = (if ac_features agent = default_features \<and> ac_platform agent \<noteq> Windows
                      then features_for_platform (ac_platform agent) else ac_features agent) in
      if ac_platform agent = Macos \<and> \<not> ac_is_admin agent then features\<lparr>af_system_shell := False\<rparr> else features)"

fun platform_name :: "agent_platform \<Rightarrow> ustr" where
  "platform_name Windows = lit ''Windows''"
| "platform_name Linux = lit ''Linux''"
| "platform_name Macos = lit ''Macos''"
| "platform_name UnknownPlatform = lit ''Unknown''"

definition app_error_for_unsupported :: "string \<Rightarrow> agent_platform \<Rightarrow> app_error" where
  "app_error_for_unsupported feature platform =
     bad_request (lit feature @ lit '' unsupported_platform ('' @ platform_name platform @ lit '')'')"

definition system_shell_requires_elevation_message :: "agent_platform \<Rightarrow> ustr" where
  "system_shell_requires_elevation_message platform =
     (case platform of
        Macos \<Rightarrow> lit ''macOS system shell unavailable; install and run the Talos worker as a root LaunchDaemon''
      | _ \<Rightarrow> lit ''system shell unavailable (agent not elevated)'')"

definition user_shell_unsupported_message :: "agent_platform \<Rightarrow> ustr" where
  "user_shell_unsupported_message platform =
     (case platform of
        Macos \<Rightarrow> lit ''user shell unavailable on macOS; macOS shell sessions run as system/root''
      | Linux \<Rightarrow> lit ''user shell unavailable on Linux; Linux shell sessions use the configured shell user''
      | _ \<Rightarrow> lit ''user shell unavailable on this platform'')"

definition normalize_host :: "ustr \<Rightarrow> ustr option" where
  "normalize_host host = (if trim host = [] \<or> trim host = lit ''unknown'' then None else Some (trim host))"

definition normalize_text_value :: "ustr option \<Rightarrow> ustr option" where
  "normalize_text_value value =
     (case value of
        None \<Rightarrow> None
      | Some raw \<Rightarrow> if trim raw = [] \<or> eq_ignore_ascii_case (trim raw) (lit ''unknown'') then None else Some (trim raw))"

section \<open>Display profiles\<close>

definition profile_modern_gpu :: ustr where "profile_modern_gpu = lit ''modern_gpu''"
definition profile_modern_cpu :: ustr where "profile_modern_cpu = lit ''modern_cpu''"
definition profile_legacy :: ustr where "profile_legacy = lit ''legacy''"
definition profile_experimental :: ustr where "profile_experimental = lit ''experimental''"
definition profile_screenshot_only :: ustr where "profile_screenshot_only = lit ''screenshot_only''"

definition remote_desktop_profile_supported :: "rd_capabilities \<Rightarrow> ustr \<Rightarrow> bool" where
  "remote_desktop_profile_supported caps profile_id \<longleftrightarrow> list_ex (\<lambda>p. dp_id p = profile_id) (rc_display_profiles caps)"

definition choose_remote_desktop_profile :: "rd_capabilities \<Rightarrow> bool \<Rightarrow> ustr option" where
  "choose_remote_desktop_profile caps prefer_screenshot_only =
     (let preferred = (if prefer_screenshot_only
            then [profile_screenshot_only, profile_modern_gpu, profile_legacy, profile_modern_cpu, profile_experimental]
            else [profile_modern_gpu, profile_legacy, profile_modern_cpu, profile_experimental]) in
      case find (remote_desktop_profile_supported caps) preferred of
        Some profile \<Rightarrow> Some profile
      | None \<Rightarrow>
          (case rc_selected_display_profile caps of
             Some selected \<Rightarrow>
               if remote_desktop_profile_supported caps selected
                  \<and> (prefer_screenshot_only \<or> selected \<noteq> profile_screenshot_only) then Some selected else None
           | None \<Rightarrow> None))"

definition choose_remote_desktop_normal_profile :: "rd_capabilities \<Rightarrow> ustr option" where
  "choose_remote_desktop_normal_profile caps = choose_remote_desktop_profile caps False"

definition choose_remote_desktop_preferred_profile :: "rd_capabilities \<Rightarrow> ustr list \<Rightarrow> ustr option" where
  "choose_remote_desktop_preferred_profile caps preferred_profiles =
     find (remote_desktop_profile_supported caps)
       (filter (\<lambda>p. p \<noteq> profile_screenshot_only) (filter (\<lambda>p. p \<noteq> []) (map trim preferred_profiles)))"

definition choose_remote_desktop_headless_profile :: "rd_capabilities \<Rightarrow> app_error + ustr option" where
  "choose_remote_desktop_headless_profile caps =
     (if \<not> remote_desktop_profile_supported caps profile_screenshot_only
      then Inl (service_unavailable (lit ''Headless screenshot capture is not supported by this agent''))
      else Inr (choose_remote_desktop_profile caps True))"

definition choose_remote_desktop_legacy_fallback_profile :: "rd_capabilities \<Rightarrow> ustr option" where
  "choose_remote_desktop_legacy_fallback_profile caps =
     find (\<lambda>candidate. list_ex (\<lambda>p. dp_id p = candidate) (rc_display_profiles caps)) [profile_legacy, profile_modern_cpu]"

definition remote_desktop_h264_startup_failure :: "ustr \<Rightarrow> bool" where
  "remote_desktop_h264_startup_failure reason \<longleftrightarrow>
     reason = lit ''h264_encoder_unavailable'' \<or> reason = lit ''h264_encode_failed''"

section \<open>Deep links\<close>

text \<open>\<open>Display\<close> of an unsigned integer.\<close>

fun decimal :: "nat \<Rightarrow> ustr" where
  "decimal n = (if n < 10 then [48 + n] else decimal (n div 10) @ [48 + n mod 10])"

declare decimal.simps [simp del]

definition api_parameter :: "ustr option \<Rightarrow> ustr" where
  "api_parameter api_base = (case api_base of Some api \<Rightarrow> lit ''&api='' @ api | None \<Rightarrow> [])"

definition build_connect_url ::
  "ustr \<Rightarrow> u16 \<Rightarrow> ustr \<Rightarrow> ustr \<Rightarrow> ustr \<Rightarrow> ustr option \<Rightarrow> ustr option \<Rightarrow> shell_run_as option \<Rightarrow> u32 option \<Rightarrow> bool
   \<Rightarrow> ustr option \<Rightarrow> ustr option \<Rightarrow> ustr" where
  "build_connect_url host port session_id token agent_id api_base mode run_as target_session_id system_supported
      relay_url e2e_key =
     lit ''rmm://connect?host='' @ host @ lit ''&port='' @ decimal (unat port) @ lit ''&session='' @ session_id
     @ lit ''&token='' @ token @ lit ''&agent='' @ agent_id
     @ (case mode of Some mode \<Rightarrow> lit ''&mode='' @ mode | None \<Rightarrow> [])
     @ (case run_as of Some RunAsUser \<Rightarrow> lit ''&runAs=user'' | Some RunAsSystem \<Rightarrow> lit ''&runAs=system'' | None \<Rightarrow> [])
     @ (case target_session_id of Some i \<Rightarrow> lit ''&targetSessionId='' @ decimal (unat i) | None \<Rightarrow> [])
     @ (if system_supported then lit ''&system=1'' else [])
     @ api_parameter api_base
     @ (case relay_url of Some relay_url \<Rightarrow> lit ''&relayUrl='' @ relay_url | None \<Rightarrow> [])
     @ (case e2e_key of Some e2e_key \<Rightarrow> lit ''&e2eKey='' @ e2e_key | None \<Rightarrow> [])"

definition build_desktop_connect_url_with_mode :: "ustr \<Rightarrow> ustr \<Rightarrow> ustr \<Rightarrow> ustr option \<Rightarrow> ustr \<Rightarrow> ustr" where
  "build_desktop_connect_url_with_mode session_id token agent_id api_base mode =
     lit ''rmm://connect?session='' @ session_id @ lit ''&token='' @ token @ lit ''&agent='' @ agent_id
     @ lit ''&mode='' @ mode @ api_parameter api_base"

definition build_file_transfer_connect_url :: "ustr \<Rightarrow> ustr \<Rightarrow> ustr \<Rightarrow> ustr option \<Rightarrow> ustr" where
  "build_file_transfer_connect_url session_id token agent_id api_base =
     lit ''rmm://connect?session='' @ session_id @ lit ''&token='' @ token @ lit ''&agent='' @ agent_id
     @ lit ''&mode=file-transfer'' @ api_parameter api_base"

definition build_registry_connect_url :: "ustr \<Rightarrow> ustr \<Rightarrow> ustr \<Rightarrow> ustr option \<Rightarrow> ustr" where
  "build_registry_connect_url session_id token agent_id api_base =
     lit ''rmm://connect?session='' @ session_id @ lit ''&token='' @ token @ lit ''&agent='' @ agent_id
     @ lit ''&mode=registry'' @ api_parameter api_base"

definition build_chat_connect_url :: "ustr \<Rightarrow> ustr \<Rightarrow> ustr \<Rightarrow> ustr option \<Rightarrow> ustr" where
  "build_chat_connect_url session_id token agent_id api_base =
     lit ''rmm://connect?session='' @ session_id @ lit ''&token='' @ token @ lit ''&agent='' @ agent_id
     @ lit ''&mode=chat'' @ api_parameter api_base"

section \<open>Staleness\<close>

definition pending_request_ttl :: nat where "pending_request_ttl = secs 60"
definition unattached_session_ttl :: nat where "unattached_session_ttl = secs (15 * 60)"
definition viewer_heartbeat_ttl :: nat where "viewer_heartbeat_ttl = secs 6"

definition is_stale :: "instant \<Rightarrow> nat \<Rightarrow> instant \<Rightarrow> bool" where
  "is_stale created_at ttl now \<longleftrightarrow> now - created_at > ttl"

definition is_unattached_session_stale :: "instant \<Rightarrow> instant option \<Rightarrow> instant \<Rightarrow> bool" where
  "is_unattached_session_stale created_at attached_at now \<longleftrightarrow>
     attached_at = None \<and> is_stale created_at unattached_session_ttl now"

definition is_presence_live :: "instant \<Rightarrow> instant option \<Rightarrow> bool" where
  "is_presence_live now last_heartbeat_at =
     (case last_heartbeat_at of None \<Rightarrow> False | Some t \<Rightarrow> now - t \<le> viewer_heartbeat_ttl)"

datatype launch_state = LaunchPending | LaunchConnected

definition viewer_state_from_heartbeat :: "instant \<Rightarrow> instant option \<Rightarrow> launch_state" where
  "viewer_state_from_heartbeat now last_heartbeat_at =
     (if is_presence_live now last_heartbeat_at then LaunchConnected else LaunchPending)"

end
