(* ===== verification/Server_Start.thy ===== *)
theory Server_Start
  imports Server_Access
begin

text \<open>
  How the control server starts a viewer session: the five \<open>start_*_session\<close> functions, the handlers of the web
  dashboard and of the AI runner that call them, and the handlers that open one session from another.
\<close>

record connect_response =
  cr_url :: ustr
  cr_session_id :: ustr

section \<open>Shared steps\<close>

text \<open>The capabilities of the agent, the same in four of the five functions.\<close>

definition request_capabilities :: "agent_connection \<Rightarrow> ustr \<Rightarrow> (app_error + rd_capabilities) task" where
  "request_capabilities agent request_id =
     open_request capability_requests request_id (\<lambda>channel.
     ttry (send_required (ac_sender agent) (SessionCapabilitiesRequest request_id)) (\<lambda>_.
     await_reply capability_requests request_id channel (\<lambda>answer. case answer of
       Received (CapabilityReply capabilities) \<Rightarrow> Done (Inr capabilities)
     | _ \<Rightarrow> close_request capability_requests request_id (Done (Inl (gateway_timeout ''capabilities request timed out''))))))"

text \<open>The tunnel of a file transfer, registry or chat session: the agent's public address, or \<open>None\<close> for the relay only.\<close>

definition prepare_tunnel :: "agent_connection \<Rightarrow> tunnel_prepare \<Rightarrow> (app_error + reflex_address option) task" where
  "prepare_tunnel agent payload =
     open_request reflex_requests (tp_session_id payload) (\<lambda>channel.
     ttry (send_required (ac_sender agent) (TunnelPrepare payload)) (\<lambda>_.
     await_reply reflex_requests (tp_session_id payload) channel (\<lambda>answer. case answer of
       Received (ReflexReply (ReflexSuccess reflex)) \<Rightarrow> Done (Inr (Some reflex))
     | _ \<Rightarrow> close_request reflex_requests (tp_session_id payload) (Done (Inr None)))))"

definition agent_addresses :: "agent_connection \<Rightarrow> local_addr list" where
  "agent_addresses agent =
     (if ac_local_addrs agent \<noteq> [] then ac_local_addrs agent
      else case ac_host agent of Some ip \<Rightarrow> [\<lparr>la_ip = ip, la_prefix = 24\<rparr>] | None \<Rightarrow> [])"

definition relay_e2e_key :: "server_env \<Rightarrow> bytes \<Rightarrow> ustr option" where
  "relay_e2e_key env e2e_key = map_option (\<lambda>_. se_base64_standard env e2e_key) (se_relay_url env)"

text \<open>The last steps of every start: the scope of the device, the audit record, the answer. The session is in its table by
  then.\<close>

definition audit_start ::
  "server_env \<Rightarrow> ustr \<Rightarrow> viewer_identity option \<Rightarrow> string \<Rightarrow> ustr option \<Rightarrow> ustr \<Rightarrow> json \<Rightarrow> ustr
   \<Rightarrow> (app_error + connect_response) task" where
  "audit_start env agent_id identity action target_name session_id metadata url =
     ttry (fetch_device_scope env agent_id) (\<lambda>scope.
     ttry (log_audit_event env scope agent_id identity action target_name ''success'' (Some session_id) metadata) (\<lambda>_.
     Done (Inr \<lparr>cr_url = url, cr_session_id = session_id\<rparr>)))"

definition json_strs :: "ustr list \<Rightarrow> json" where
  "json_strs xs = JArr (map JStr xs)"

section \<open>Remote desktop\<close>

text \<open>The loop that sends \<open>tunnel_prepare\<close>: when the agent reports that its H.264 encoder does not start, it is tried once more
  with a legacy profile. The result is the agent's address and the profile that was used last.\<close>

function reflex_loop ::
  "agent_connection \<Rightarrow> rd_capabilities \<Rightarrow> tunnel_prepare \<Rightarrow> bool \<Rightarrow> (app_error + reflex_address option \<times> ustr option) task" where
  "reflex_loop agent capabilities payload h264_fallback_attempted =
     open_request reflex_requests (tp_session_id payload) (\<lambda>channel.
     ttry (send_required (ac_sender agent) (TunnelPrepare payload)) (\<lambda>_.
     await_reply reflex_requests (tp_session_id payload) channel (\<lambda>answer. case answer of
       Received (ReflexReply (ReflexSuccess reflex)) \<Rightarrow> Done (Inr (Some reflex, tp_selected_display_profile payload))
     | Received (ReflexReply (DisplayUnavailable reason message)) \<Rightarrow>
         close_request reflex_requests (tp_session_id payload)
           (let failed = Done (Inl (service_unavailable
                  (lit ''Remote desktop unavailable: '' @ (case message of Some m \<Rightarrow> m | None \<Rightarrow> reason)))) in
            if \<not> h264_fallback_attempted \<and> remote_desktop_h264_startup_failure reason then
              (case choose_remote_desktop_legacy_fallback_profile capabilities of
                 Some fallback \<Rightarrow>
                   reflex_loop agent capabilities (payload\<lparr>tp_selected_display_profile := Some fallback\<rparr>) True
               | None \<Rightarrow> failed)
            else failed)
     | _ \<Rightarrow> close_request reflex_requests (tp_session_id payload) (Done (Inr (None, tp_selected_display_profile payload))))))"
  by pat_completeness auto
termination
  by (relation "measure (\<lambda>(_, _, _, attempted). if attempted then 0 else 1)") auto

declare reflex_loop.simps [simp del]

definition select_display_profile :: "transport_mode \<Rightarrow> ustr list option \<Rightarrow> rd_capabilities \<Rightarrow> app_error + ustr option" where
  "select_display_profile mode preference capabilities =
     (if mode = HeadlessRemoteDesktopMode then choose_remote_desktop_headless_profile capabilities
      else case preference of
        Some preferred \<Rightarrow>
          (case choose_remote_desktop_preferred_profile capabilities preferred of
             Some profile \<Rightarrow> Inr (Some profile)
           | None \<Rightarrow> Inr (choose_remote_desktop_normal_profile capabilities))
      | None \<Rightarrow> Inr (choose_remote_desktop_normal_profile capabilities))"

definition start_remote_desktop_session ::
  "server_env \<Rightarrow> ustr \<Rightarrow> ustr option \<Rightarrow> string \<Rightarrow> transport_mode \<Rightarrow> viewer_identity option \<Rightarrow> ustr list option \<Rightarrow> bool
   \<Rightarrow> (app_error + connect_response) task" where
  "start_remote_desktop_session env agent_id api_base deep_link_mode session_mode identity preference hide_cursor =
     find_agent (not_found ''agent not connected'') agent_id (\<lambda>agent.
     NewUuid (\<lambda>session_id. NewUuid (\<lambda>token. NewUuid (\<lambda>request_id.
     ttry (request_capabilities agent request_id) (\<lambda>capabilities.
     ttry (Done (select_display_profile session_mode preference capabilities)) (\<lambda>selected.
     if \<not> af_remote_desktop (rc_features capabilities)
     then Done (Inl (app_error_for_unsupported ''remote_desktop'' (rc_platform capabilities))) else
     SelfSigned (\<lambda>certificate. case certificate of None \<Rightarrow> Done (Inl internal_server_error) | Some (cert_pem, key_pem) \<Rightarrow>
     RandomKey (\<lambda>e2e_key.
     let payload = \<lparr>tp_session_id = session_id, tp_psk_cert_pem = cert_pem, tp_psk_key_pem = key_pem,
           tp_relay_url = se_relay_url env, tp_e2e_key = relay_e2e_key env e2e_key, tp_mode = session_mode,
           tp_selected_display_profile = selected, tp_hide_cursor = hide_cursor, tp_viewer_session_token = None,
           tp_parent_desktop_session_id = None\<rparr> in
     ttry (if session_mode = HeadlessRemoteDesktopMode
           then ttry (send_required (ac_sender agent) (TunnelPrepare payload)) (\<lambda>_. Done (Inr (None, selected)))
           else reflex_loop agent (capabilities\<lparr>rc_selected_display_profile := selected\<rparr>) payload False) (\<lambda>(agent_reflex, selected).
     change (\<lambda>now. insert_entry desktops session_id
       \<lparr>vs_token = token, vs_agent_id = agent_id, vs_viewer_user_id = map_option vi_user_id identity,
        vs_viewer_user_email = Option.bind identity vi_user_email, vs_agent_reflex = agent_reflex,
        vs_viewer_reflex = None, vs_agent_host = ac_host agent, vs_agent_local_addrs = agent_addresses agent,
        vs_e2e_key = e2e_key, vs_relay_url = se_relay_url env, vs_created_at = now, vs_attached_at = None,
        vs_viewer_connected_at = None, vs_viewer_last_heartbeat_at = None,
        rd_mode = session_mode, rd_hide_cursor = hide_cursor,
        rd_capabilities = capabilities\<lparr>rc_selected_display_profile := selected\<rparr>, rd_psk_cert_pem = cert_pem,
        rd_agent_hostname = ac_hostname agent, rd_agent_os = ac_os agent, rd_agent_version = ac_version agent\<rparr>)
     (audit_start env agent_id identity ''remote_desktop.start'' (ac_hostname agent) session_id
        (json_obj [(''deepLinkMode'', JStr (lit deep_link_mode)), (''transports'', json_strs (rc_transports capabilities)),
           (''selectedDisplayProfile'', json_opt_str selected), (''hideCursor'', JBool hide_cursor)])
        (build_desktop_connect_url_with_mode session_id token agent_id api_base (lit deep_link_mode))))))))))))"

section \<open>File transfer, registry and chat\<close>

definition start_file_transfer_session ::
  "server_env \<Rightarrow> ustr \<Rightarrow> ustr option \<Rightarrow> viewer_identity option \<Rightarrow> (app_error + connect_response) task" where
  "start_file_transfer_session env agent_id api_base identity =
     find_agent (not_found ''agent not connected'') agent_id (\<lambda>agent.
     NewUuid (\<lambda>session_id. NewUuid (\<lambda>token. NewUuid (\<lambda>request_id.
     ttry (request_capabilities agent request_id) (\<lambda>capabilities.
     if \<not> af_file_transfer (rc_features capabilities)
     then Done (Inl (app_error_for_unsupported ''file_transfer'' (rc_platform capabilities))) else
     SelfSigned (\<lambda>certificate. case certificate of None \<Rightarrow> Done (Inl internal_server_error) | Some (cert_pem, key_pem) \<Rightarrow>
     RandomKey (\<lambda>e2e_key.
     ttry (prepare_tunnel agent \<lparr>tp_session_id = session_id, tp_psk_cert_pem = cert_pem, tp_psk_key_pem = key_pem,
           tp_relay_url = se_relay_url env, tp_e2e_key = relay_e2e_key env e2e_key, tp_mode = FileTransferMode,
           tp_selected_display_profile = None, tp_hide_cursor = False, tp_viewer_session_token = None,
           tp_parent_desktop_session_id = None\<rparr>) (\<lambda>agent_reflex.
     change (\<lambda>now. insert_entry transfers session_id
       \<lparr>vs_token = token, vs_agent_id = agent_id, vs_viewer_user_id = map_option vi_user_id identity,
        vs_viewer_user_email = Option.bind identity vi_user_email, vs_agent_reflex = agent_reflex,
        vs_viewer_reflex = None, vs_agent_host = ac_host agent, vs_agent_local_addrs = agent_addresses agent,
        vs_e2e_key = e2e_key, vs_relay_url = se_relay_url env, vs_created_at = now, vs_attached_at = None,
        vs_viewer_connected_at = None, vs_viewer_last_heartbeat_at = None,
        ft_transports = rc_transports capabilities, ft_platform = rc_platform capabilities,
        ft_features = rc_features capabilities, ft_psk_cert_pem = cert_pem\<rparr>)
     (audit_start env agent_id identity ''file_transfer.start'' (ac_hostname agent) session_id
        (json_obj [(''transports'', json_strs (rc_transports capabilities))])
        (build_file_transfer_connect_url session_id token agent_id api_base))))))))))"

definition start_remote_registry_session ::
  "server_env \<Rightarrow> ustr \<Rightarrow> ustr option \<Rightarrow> viewer_identity option \<Rightarrow> (app_error + connect_response) task" where
  "start_remote_registry_session env agent_id api_base identity =
     find_agent (not_found ''agent not connected'') agent_id (\<lambda>agent.
     NewUuid (\<lambda>session_id. NewUuid (\<lambda>token. NewUuid (\<lambda>request_id.
     ttry (request_capabilities agent request_id) (\<lambda>capabilities.
     if \<not> af_remote_registry (rc_features capabilities)
     then Done (Inl (app_error_for_unsupported ''remote_registry'' (rc_platform capabilities))) else
     SelfSigned (\<lambda>certificate. case certificate of None \<Rightarrow> Done (Inl internal_server_error) | Some (cert_pem, key_pem) \<Rightarrow>
     RandomKey (\<lambda>e2e_key.
     ttry (prepare_tunnel agent \<lparr>tp_session_id = session_id, tp_psk_cert_pem = cert_pem, tp_psk_key_pem = key_pem,
           tp_relay_url = se_relay_url env, tp_e2e_key = relay_e2e_key env e2e_key, tp_mode = RemoteRegistryMode,
           tp_selected_display_profile = None, tp_hide_cursor = False, tp_viewer_session_token = None,
           tp_parent_desktop_session_id = None\<rparr>) (\<lambda>agent_reflex.
     change (\<lambda>now. insert_entry registries session_id
       \<lparr>vs_token = token, vs_agent_id = agent_id, vs_viewer_user_id = map_option vi_user_id identity,
        vs_viewer_user_email = Option.bind identity vi_user_email, vs_agent_reflex = agent_reflex,
        vs_viewer_reflex = None, vs_agent_host = ac_host agent, vs_agent_local_addrs = agent_addresses agent,
        vs_e2e_key = e2e_key, vs_relay_url = se_relay_url env, vs_created_at = now, vs_attached_at = None,
        vs_viewer_connected_at = None, vs_viewer_last_heartbeat_at = None,
        rr_transports = rc_transports capabilities, rr_platform = rc_platform capabilities,
        rr_features = rc_features capabilities, rr_psk_cert_pem = cert_pem\<rparr>)
     (audit_start env agent_id identity ''registry.start'' (ac_hostname agent) session_id
        (json_obj [(''transports'', json_strs (rc_transports capabilities))])
        (build_registry_connect_url session_id token agent_id api_base))))))))))"

definition start_chat_session ::
  "server_env \<Rightarrow> ustr \<Rightarrow> ustr option \<Rightarrow> viewer_identity option \<Rightarrow> ustr option \<Rightarrow> (app_error + connect_response) task" where
  "start_chat_session env agent_id api_base identity parent_desktop_session_id =
     find_agent (not_found ''agent not connected'') agent_id (\<lambda>agent.
     NewUuid (\<lambda>session_id. NewUuid (\<lambda>token. NewUuid (\<lambda>request_id.
     ttry (request_capabilities agent request_id) (\<lambda>capabilities.
     if \<not> af_chat (rc_features capabilities)
     then Done (Inl (app_error_for_unsupported ''chat'' (rc_platform capabilities))) else
     SelfSigned (\<lambda>certificate. case certificate of None \<Rightarrow> Done (Inl internal_server_error) | Some (cert_pem, key_pem) \<Rightarrow>
     RandomKey (\<lambda>e2e_key.
     ttry (prepare_tunnel agent \<lparr>tp_session_id = session_id, tp_psk_cert_pem = cert_pem, tp_psk_key_pem = key_pem,
           tp_relay_url = se_relay_url env, tp_e2e_key = relay_e2e_key env e2e_key, tp_mode = ChatMode,
           tp_selected_display_profile = None, tp_hide_cursor = False, tp_viewer_session_token = Some token,
           tp_parent_desktop_session_id = parent_desktop_session_id\<rparr>) (\<lambda>agent_reflex.
     change (\<lambda>now. insert_entry chats session_id
       \<lparr>vs_token = token, vs_agent_id = agent_id, vs_viewer_user_id = map_option vi_user_id identity,
        vs_viewer_user_email = Option.bind identity vi_user_email, vs_agent_reflex = agent_reflex,
        vs_viewer_reflex = None, vs_agent_host = ac_host agent, vs_agent_local_addrs = agent_addresses agent,
        vs_e2e_key = e2e_key, vs_relay_url = se_relay_url env, vs_created_at = now, vs_attached_at = None,
        vs_viewer_connected_at = None, vs_viewer_last_heartbeat_at = None,
        ch_transports = rc_transports capabilities, ch_platform = rc_platform capabilities,
        ch_features = rc_features capabilities, ch_psk_cert_pem = cert_pem,
        ch_parent_desktop_session_id = parent_desktop_session_id\<rparr>)
     (audit_start env agent_id identity ''chat.start'' (ac_hostname agent) session_id
        (json_obj [(''parentDesktopSessionId'', json_opt_str parent_desktop_session_id),
           (''transports'', json_strs (rc_transports capabilities))])
        (build_chat_connect_url session_id token agent_id api_base))))))))))"

section \<open>Shell\<close>

record shell_start_options =
  op_api_base :: "ustr option"
  op_run_as :: shell_run_as
  op_target_session_id :: "u32 option"
  op_viewer_identity :: "viewer_identity option"
  op_audit_scope :: device_scope
  op_audit_action :: string
  op_audit_metadata :: "(string \<times> json) list"
  op_reuse_session :: "(ustr \<times> ustr) option"

definition json_run_as :: "shell_run_as \<Rightarrow> json" where
  "json_run_as run_as = JStr (case run_as of RunAsUser \<Rightarrow> lit ''user'' | RunAsSystem \<Rightarrow> lit ''system'')"

text \<open>The checks before a shell is started.\<close>

definition check_shell_support :: "agent_connection \<Rightarrow> shell_run_as \<Rightarrow> app_error + unit" where
  "check_shell_support agent run_as =
     (if \<not> af_system_shell (features_for_agent agent) then
        (if ac_platform agent = Macos \<and> \<not> ac_is_admin agent
         then Inl (bad_request (system_shell_requires_elevation_message (ac_platform agent)))
         else Inl (app_error_for_unsupported ''system_shell'' (ac_platform agent)))
      else if run_as = RunAsUser \<and> ac_platform agent \<noteq> Windows
      then Inl (bad_request (user_shell_unsupported_message (ac_platform agent)))
      else if run_as = RunAsSystem \<and> \<not> ac_is_admin agent
      then Inl (bad_request (system_shell_requires_elevation_message (ac_platform agent)))
      else Inr ())"

text \<open>The session and the token of a shell: those of the request, or new ones.\<close>

definition shell_ids :: "(ustr \<times> ustr) option \<Rightarrow> (ustr \<Rightarrow> ustr \<Rightarrow> 'a task) \<Rightarrow> 'a task" where
  "shell_ids reuse k =
     (case reuse of Some (session_id, token) \<Rightarrow> k session_id token | None \<Rightarrow> NewUuid (\<lambda>session_id. NewUuid (\<lambda>token. k session_id token)))"

definition await_shell_offer :: "agent_connection \<Rightarrow> shell_start \<Rightarrow> (app_error + shell_offer) task" where
  "await_shell_offer agent payload =
     open_request shell_requests (ss_session_id payload) (\<lambda>channel.
     ttry (send_required (ac_sender agent) (ShellStart payload)) (\<lambda>_.
     await_reply shell_requests (ss_session_id payload) channel (\<lambda>answer. case answer of
       Received (ShellReply (Inr offer)) \<Rightarrow> Done (Inr offer)
     | Received (ShellReply (Inl message)) \<Rightarrow> Done (Inl (bad_request message))
     | SenderDropped \<Rightarrow>
         close_request shell_requests (ss_session_id payload) (Done (Inl (bad_request (lit ''shell session aborted''))))
     | _ \<Rightarrow>
         close_request shell_requests (ss_session_id payload) (Done (Inl (gateway_timeout ''shell session timed out''))))))"

definition start_shell_session :: "server_env \<Rightarrow> ustr \<Rightarrow> shell_start_options \<Rightarrow> (app_error + connect_response) task" where
  "start_shell_session env agent_id options =
     find_agent (not_found ''agent not connected'') agent_id (\<lambda>agent.
     ttry (Done (check_shell_support agent (op_run_as options))) (\<lambda>_.
     RandomKey (\<lambda>e2e_key.
     let shell_e2e_key = map_option (\<lambda>_. se_base64_url_safe env e2e_key) (se_relay_url env) in
     SelfSigned (\<lambda>certificate. case certificate of None \<Rightarrow> Done (Inl internal_server_error) | Some (cert_pem, key_pem) \<Rightarrow>
     shell_ids (op_reuse_session options) (\<lambda>session_id token.
     ttry (await_shell_offer agent \<lparr>ss_session_id = session_id, ss_token = token, ss_run_as = op_run_as options,
           ss_target_session_id = op_target_session_id options, ss_relay_url = se_relay_url env,
           ss_e2e_key = shell_e2e_key, ss_psk_cert_pem = Some cert_pem, ss_psk_key_pem = Some key_pem\<rparr>) (\<lambda>offer.
     let host = (if trim (so_host offer) = [] then (case ac_host agent of Some host \<Rightarrow> host | None \<Rightarrow> lit ''127.0.0.1'')
                 else so_host offer);
         url = build_connect_url host (so_stream_port offer) (so_session_id offer) token agent_id (op_api_base options)
                 (Some (lit ''shell'')) (Some (op_run_as options)) (op_target_session_id options) (ac_is_admin agent)
                 (se_relay_url env) shell_e2e_key;
         transports = (if so_reflex offer \<noteq> None \<and> cert_pem \<noteq> [] then [lit ''quic''] else [])
                      @ (if se_relay_url env \<noteq> None then [lit ''relay''] else []) in
     change (\<lambda>now. insert_entry shells session_id
       \<lparr>vs_token = token, vs_agent_id = agent_id,
        vs_viewer_user_id = map_option vi_user_id (op_viewer_identity options),
        vs_viewer_user_email = Option.bind (op_viewer_identity options) vi_user_email,
        vs_agent_reflex = so_reflex offer, vs_viewer_reflex = None, vs_agent_host = Some host,
        vs_agent_local_addrs = so_local_addrs offer, vs_e2e_key = e2e_key, vs_relay_url = se_relay_url env,
        vs_created_at = now, vs_attached_at = Some now, vs_viewer_connected_at = None,
        vs_viewer_last_heartbeat_at = None,
        sh_transports = transports, sh_platform = ac_platform agent, sh_features = features_for_agent agent,
        sh_psk_cert_pem = Some cert_pem\<rparr>)
     (ttry (log_audit_event env (op_audit_scope options) agent_id (op_viewer_identity options) (op_audit_action options) None
              ''success'' (Some session_id)
              (json_obj (op_audit_metadata options @
                 [(''runAs'', json_run_as (op_run_as options)),
                  (''targetSessionId'', (case op_target_session_id options of Some i \<Rightarrow> JInt (uint i) | None \<Rightarrow> JNull)),
                  (''transports'', json_strs transports)]))) (\<lambda>_.
      Done (Inr \<lparr>cr_url = url, cr_session_id = session_id\<rparr>)))))))))"

section \<open>Handlers for signed-in users\<close>

definition identity_of_user :: "user_context \<Rightarrow> viewer_identity" where
  "identity_of_user user = \<lparr>vi_user_id = uc_user_id user, vi_user_email = uc_email user\<rparr>"

definition connect_device :: "server_env \<Rightarrow> headers \<Rightarrow> ustr \<Rightarrow> (app_error + connect_response) task" where
  "connect_device env hs agent_id =
     ttry (authorize_device env hs agent_id) (\<lambda>(user, _).
     start_remote_desktop_session env agent_id (extract_api_base hs) ''desktop'' RemoteDesktopMode
       (Some (identity_of_user user)) None False)"

definition connect_file_transfer :: "server_env \<Rightarrow> headers \<Rightarrow> ustr \<Rightarrow> (app_error + connect_response) task" where
  "connect_file_transfer env hs agent_id =
     ttry (authorize_device env hs agent_id) (\<lambda>(user, _).
     start_file_transfer_session env agent_id (extract_api_base hs) (Some (identity_of_user user)))"

definition connect_registry :: "server_env \<Rightarrow> headers \<Rightarrow> ustr \<Rightarrow> (app_error + connect_response) task" where
  "connect_registry env hs agent_id =
     ttry (authorize_device env hs agent_id) (\<lambda>(user, _).
     start_remote_registry_session env agent_id (extract_api_base hs) (Some (identity_of_user user)))"

section \<open>Handlers that present a session token\<close>

text \<open>The session is read, and the token compared with its own.\<close>

definition with_token ::
  "'a viewer_session_scheme table \<Rightarrow> string \<Rightarrow> string \<Rightarrow> ustr \<Rightarrow> ustr \<Rightarrow> ('a viewer_session_scheme \<Rightarrow> (app_error + 'b) task)
   \<Rightarrow> (app_error + 'b) task" where
  "with_token T missing mismatch session_id token k =
     look (\<lambda>s. map_of (tb_get T s) session_id) (\<lambda>session. case session of
       None \<Rightarrow> Done (Inl (not_found missing))
     | Some session \<Rightarrow> if vs_token session \<noteq> token then Done (Inl (unauthorized mismatch)) else k session)"

definition session_identity :: "'a viewer_session_scheme \<Rightarrow> viewer_identity option" where
  "session_identity session =
     map_option (\<lambda>user_id. \<lparr>vi_user_id = user_id, vi_user_email = vs_viewer_user_email session\<rparr>) (vs_viewer_user_id session)"

record shell_query =
  sq_run_as :: "shell_run_as option"
  sq_target_session_id :: "u32 option"
  sq_session :: "ustr option"
  sq_token :: "ustr option"

definition connect_shell :: "server_env \<Rightarrow> headers \<Rightarrow> ustr \<Rightarrow> shell_query \<Rightarrow> (app_error + connect_response) task" where
  "connect_shell env hs agent_id query =
     (let run_as = (case sq_run_as query of Some r \<Rightarrow> r | None \<Rightarrow> RunAsSystem);
          start = (\<lambda>identity scope reuse. start_shell_session env agent_id
            \<lparr>op_api_base = extract_api_base hs, op_run_as = run_as, op_target_session_id = sq_target_session_id query,
             op_viewer_identity = identity, op_audit_scope = scope, op_audit_action = ''shell.start'',
             op_audit_metadata = [], op_reuse_session = reuse\<rparr>) in
      if extract_bearer hs \<noteq> None then
        ttry (authorize_device env hs agent_id) (\<lambda>(user, scope).
        start (Some (identity_of_user user)) scope
          (case (sq_session query, sq_token query) of (Some session_id, Some token) \<Rightarrow> Some (session_id, token) | _ \<Rightarrow> None))
      else case (sq_session query, sq_token query) of
        (Some session_id, Some token) \<Rightarrow>
          with_token desktops ''session not found'' ''invalid session token'' session_id token (\<lambda>session.
          if vs_agent_id session \<noteq> agent_id then Done (Inl (forbidden (lit ''session does not match agent''))) else
          ttry (fetch_device_scope env agent_id) (\<lambda>scope. start (session_identity session) scope None))
      | _ \<Rightarrow> Done (Inl (unauthorized ''missing bearer token'')))"

definition open_desktop_from_shell :: "server_env \<Rightarrow> headers \<Rightarrow> ustr \<Rightarrow> ustr \<Rightarrow> (app_error + connect_response) task" where
  "open_desktop_from_shell env hs session_id token =
     with_token shells ''shell session not found'' ''invalid shell session token'' session_id token (\<lambda>session.
     start_remote_desktop_session env (vs_agent_id session) (extract_api_base hs) ''desktop'' RemoteDesktopMode
       (session_identity session) None False)"

definition open_file_transfer_from_shell :: "server_env \<Rightarrow> headers \<Rightarrow> ustr \<Rightarrow> ustr \<Rightarrow> (app_error + connect_response) task" where
  "open_file_transfer_from_shell env hs session_id token =
     with_token shells ''shell session not found'' ''invalid shell session token'' session_id token (\<lambda>session.
     start_file_transfer_session env (vs_agent_id session) (extract_api_base hs) (session_identity session))"

definition open_registry_from_shell :: "server_env \<Rightarrow> headers \<Rightarrow> ustr \<Rightarrow> ustr \<Rightarrow> (app_error + connect_response) task" where
  "open_registry_from_shell env hs session_id token =
     with_token shells ''shell session not found'' ''invalid shell session token'' session_id token (\<lambda>session.
     start_remote_registry_session env (vs_agent_id session) (extract_api_base hs) (session_identity session))"

definition open_file_transfer_from_session :: "server_env \<Rightarrow> headers \<Rightarrow> ustr \<Rightarrow> ustr \<Rightarrow> (app_error + connect_response) task" where
  "open_file_transfer_from_session env hs session_id token =
     with_token desktops ''session not found'' ''invalid session token'' session_id token (\<lambda>session.
     start_file_transfer_session env (vs_agent_id session) (extract_api_base hs) (session_identity session))"

definition open_registry_from_session :: "server_env \<Rightarrow> headers \<Rightarrow> ustr \<Rightarrow> ustr \<Rightarrow> (app_error + connect_response) task" where
  "open_registry_from_session env hs session_id token =
     with_token desktops ''session not found'' ''invalid session token'' session_id token (\<lambda>session.
     start_remote_registry_session env (vs_agent_id session) (extract_api_base hs) (session_identity session))"

definition open_chat_from_session :: "server_env \<Rightarrow> headers \<Rightarrow> ustr \<Rightarrow> ustr \<Rightarrow> (app_error + connect_response) task" where
  "open_chat_from_session env hs session_id token =
     with_token desktops ''session not found'' ''invalid session token'' session_id token (\<lambda>session.
     start_chat_session env (vs_agent_id session) (extract_api_base hs) (session_identity session) (Some session_id))"

section \<open>Handlers for the AI runner\<close>

record ai_connect_request =
  ai_organization_id :: ustr
  ai_job_id :: "ustr option"
  ai_api_base_url :: "ustr option"
  ai_desktop_mode :: "ustr option"
  ai_display_profile_preference :: "ustr list"
  ai_hide_cursor :: "bool option"
  ai_run_as :: "shell_run_as option"
  ai_target_session_id :: "u32 option"

datatype ai_desktop_mode = Interactive | ScreenshotOnly

definition ai_desktop_mode_from_request :: "ustr option \<Rightarrow> ai_desktop_mode" where
  "ai_desktop_mode_from_request value =
     (case nonempty (map_option trim value) of
        Some v \<Rightarrow> if eq_ignore_ascii_case v (lit ''interactive'') then Interactive else ScreenshotOnly
      | None \<Rightarrow> ScreenshotOnly)"

definition ai_api_base :: "ai_connect_request \<Rightarrow> headers \<Rightarrow> ustr option" where
  "ai_api_base body hs =
     (case nonempty (map_option trim (ai_api_base_url body)) of Some api \<Rightarrow> Some api | None \<Rightarrow> extract_api_base hs)"

definition connect_ai_runner_desktop_session_internal ::
  "server_env \<Rightarrow> headers \<Rightarrow> ustr \<Rightarrow> ai_connect_request \<Rightarrow> (app_error + connect_response) task" where
  "connect_ai_runner_desktop_session_internal env hs agent_id body =
     ttry (authorize_ai_runner env hs (ai_organization_id body) agent_id) (\<lambda>scope.
     let desktop_mode = ai_desktop_mode_from_request (ai_desktop_mode body);
         session_mode = (case desktop_mode of Interactive \<Rightarrow> RemoteDesktopMode | ScreenshotOnly \<Rightarrow> HeadlessRemoteDesktopMode);
         preference = (if desktop_mode = Interactive then Some (ai_display_profile_preference body) else None);
         hide_cursor = (case ai_hide_cursor body of Some hide \<Rightarrow> hide | None \<Rightarrow> desktop_mode = Interactive) in
     ttry (start_remote_desktop_session env agent_id (ai_api_base body hs) ''headless'' session_mode None preference hide_cursor)
       (\<lambda>response.
     ttry (log_audit_event env scope agent_id None ''ai_runner.headless_session_lease'' None ''success''
             (Some (cr_session_id response))
             (json_obj [(''jobId'', json_opt_str (ai_job_id body)), (''desktopMode'', json_opt_str (ai_desktop_mode body)),
                (''displayProfilePreference'', json_strs (ai_display_profile_preference body)),
                (''hideCursor'', JBool hide_cursor)])) (\<lambda>_.
     Done (Inr response))))"

definition connect_ai_runner_chat_approval_internal ::
  "server_env \<Rightarrow> headers \<Rightarrow> ustr \<Rightarrow> ai_connect_request \<Rightarrow> (app_error + connect_response) task" where
  "connect_ai_runner_chat_approval_internal env hs agent_id body =
     ttry (authorize_ai_runner env hs (ai_organization_id body) agent_id) (\<lambda>scope.
     ttry (start_chat_session env agent_id (ai_api_base body hs) None None) (\<lambda>response.
     ttry (log_audit_event env scope agent_id None ''ai_runner.chat_approval_session'' None ''success''
             (Some (cr_session_id response)) (json_obj [(''jobId'', json_opt_str (ai_job_id body))])) (\<lambda>_.
     Done (Inr response))))"

definition connect_ai_runner_shell_session_internal ::
  "server_env \<Rightarrow> headers \<Rightarrow> ustr \<Rightarrow> ai_connect_request \<Rightarrow> (app_error + connect_response) task" where
  "connect_ai_runner_shell_session_internal env hs agent_id body =
     ttry (authorize_ai_runner env hs (ai_organization_id body) agent_id) (\<lambda>scope.
     start_shell_session env agent_id
       \<lparr>op_api_base = ai_api_base body hs, op_run_as = (case ai_run_as body of Some r \<Rightarrow> r | None \<Rightarrow> RunAsSystem),
        op_target_session_id = ai_target_session_id body, op_viewer_identity = None, op_audit_scope = scope,
        op_audit_action = ''ai_runner.shell_session_lease'',
        op_audit_metadata = [(''jobId'', json_opt_str (ai_job_id body))], op_reuse_session = None\<rparr>)"

end
