(* ===== verification/Server_Viewer.thy ===== *)
theory Server_Viewer
  imports Server_Start
begin

text \<open>
  What a viewer does with its session: report its presence, ask for the connection data, ask the agent to use the relay,
  end the session; and what the dashboard sees of it. The handlers of the five kinds have the same shape; the parts they
  share are definitions over a table, and each handler names its table and its messages.
\<close>

section \<open>Presence\<close>

text \<open>The updates of a session. \<open>Instant::now()\<close> is read before the lock is taken, except where the value is written in the
  critical section itself.\<close>

definition mark_connected :: "instant \<Rightarrow> 'a viewer_session_scheme \<Rightarrow> 'a viewer_session_scheme" where
  "mark_connected now session =
     session\<lparr>vs_attached_at := Some now,
             vs_viewer_connected_at := (case vs_viewer_connected_at session of None \<Rightarrow> Some now | Some t \<Rightarrow> Some t),
             vs_viewer_last_heartbeat_at := Some now\<rparr>"

definition mark_heartbeat :: "instant \<Rightarrow> 'a viewer_session_scheme \<Rightarrow> 'a viewer_session_scheme" where
  "mark_heartbeat now session = session\<lparr>vs_attached_at := Some now, vs_viewer_last_heartbeat_at := Some now\<rparr>"

definition mark_reflex :: "reflex_address \<Rightarrow> instant \<Rightarrow> 'a viewer_session_scheme \<Rightarrow> 'a viewer_session_scheme" where
  "mark_reflex reflex now session = session\<lparr>vs_viewer_reflex := Some reflex, vs_attached_at := Some now\<rparr>"

definition mark_attached :: "instant \<Rightarrow> 'a viewer_session_scheme \<Rightarrow> 'a viewer_session_scheme" where
  "mark_attached now session = session\<lparr>vs_attached_at := Some now\<rparr>"

definition presence ::
  "'a viewer_session_scheme table \<Rightarrow> string \<Rightarrow> string \<Rightarrow> (instant \<Rightarrow> 'a viewer_session_scheme \<Rightarrow> 'a viewer_session_scheme)
   \<Rightarrow> ustr \<Rightarrow> ustr \<Rightarrow> (app_error + unit) task" where
  "presence T missing mismatch mark session_id token =
     with_token T missing mismatch session_id token (\<lambda>_.
     clock (\<lambda>now. change (\<lambda>_. modify_entry T session_id (mark now)) (Done (Inr ()))))"

definition viewer_connected :: "ustr \<Rightarrow> ustr \<Rightarrow> (app_error + unit) task" where
  "viewer_connected = presence desktops ''session not found'' ''invalid session token'' mark_connected"

definition viewer_heartbeat :: "ustr \<Rightarrow> ustr \<Rightarrow> (app_error + unit) task" where
  "viewer_heartbeat = presence desktops ''session not found'' ''invalid session token'' mark_heartbeat"

definition file_transfer_viewer_connected :: "ustr \<Rightarrow> ustr \<Rightarrow> (app_error + unit) task" where
  "file_transfer_viewer_connected =
     presence transfers ''file transfer session not found'' ''invalid session token'' mark_connected"

definition file_transfer_viewer_heartbeat :: "ustr \<Rightarrow> ustr \<Rightarrow> (app_error + unit) task" where
  "file_transfer_viewer_heartbeat =
     presence transfers ''file transfer session not found'' ''invalid session token'' mark_heartbeat"

definition chat_viewer_connected :: "ustr \<Rightarrow> ustr \<Rightarrow> (app_error + unit) task" where
  "chat_viewer_connected = presence chats ''chat session not found'' ''invalid session token'' mark_connected"

definition chat_viewer_heartbeat :: "ustr \<Rightarrow> ustr \<Rightarrow> (app_error + unit) task" where
  "chat_viewer_heartbeat = presence chats ''chat session not found'' ''invalid session token'' mark_heartbeat"

definition registry_viewer_connected :: "ustr \<Rightarrow> ustr \<Rightarrow> (app_error + unit) task" where
  "registry_viewer_connected =
     presence registries ''remote registry session not found'' ''invalid session token'' mark_connected"

definition registry_viewer_heartbeat :: "ustr \<Rightarrow> ustr \<Rightarrow> (app_error + unit) task" where
  "registry_viewer_heartbeat =
     presence registries ''remote registry session not found'' ''invalid session token'' mark_heartbeat"

definition shell_viewer_connected :: "ustr \<Rightarrow> ustr \<Rightarrow> (app_error + unit) task" where
  "shell_viewer_connected =
     presence shells ''shell session not found'' ''invalid shell session token'' mark_connected"

definition shell_viewer_heartbeat :: "ustr \<Rightarrow> ustr \<Rightarrow> (app_error + unit) task" where
  "shell_viewer_heartbeat =
     presence shells ''shell session not found'' ''invalid shell session token'' mark_heartbeat"

section \<open>The viewer's public address\<close>

definition report_reflex ::
  "'a viewer_session_scheme table \<Rightarrow> string \<Rightarrow> ustr \<Rightarrow> ustr \<Rightarrow> reflex_address \<Rightarrow> (app_error + unit) task" where
  "report_reflex T missing session_id token reflex =
     with_token T missing ''invalid session token'' session_id token (\<lambda>session.
     change (\<lambda>now. modify_entry T session_id (mark_reflex reflex now))
     (look (\<lambda>s. map_of (st_agents s) (vs_agent_id session)) (\<lambda>agent. case agent of
        None \<Rightarrow> Done (Inr ())
      | Some agent \<Rightarrow> tbind (send_ignored (ac_sender agent) (PunchStart session_id reflex)) (\<lambda>_. Done (Inr ())))))"

definition viewer_reflex :: "ustr \<Rightarrow> ustr \<Rightarrow> reflex_address \<Rightarrow> (app_error + unit) task" where
  "viewer_reflex = report_reflex desktops ''session not found''"

definition file_transfer_viewer_reflex :: "ustr \<Rightarrow> ustr \<Rightarrow> reflex_address \<Rightarrow> (app_error + unit) task" where
  "file_transfer_viewer_reflex = report_reflex transfers ''file transfer session not found''"

definition chat_viewer_reflex :: "ustr \<Rightarrow> ustr \<Rightarrow> reflex_address \<Rightarrow> (app_error + unit) task" where
  "chat_viewer_reflex = report_reflex chats ''chat session not found''"

definition registry_viewer_reflex :: "ustr \<Rightarrow> ustr \<Rightarrow> reflex_address \<Rightarrow> (app_error + unit) task" where
  "registry_viewer_reflex = report_reflex registries ''remote registry session not found''"

definition shell_viewer_reflex :: "ustr \<Rightarrow> ustr \<Rightarrow> reflex_address \<Rightarrow> (app_error + unit) task" where
  "shell_viewer_reflex = report_reflex shells ''shell session not found''"

section \<open>The relay\<close>

definition ask_relay ::
  "server_env \<Rightarrow> 'a viewer_session_scheme table \<Rightarrow> string \<Rightarrow> string \<Rightarrow> string
   \<Rightarrow> ('a viewer_session_scheme \<Rightarrow> transport_mode \<times> ustr option \<times> bool) \<Rightarrow> ustr \<Rightarrow> ustr \<Rightarrow> (app_error + unit) task" where
  "ask_relay env T missing mismatch no_relay options session_id token =
     with_token T missing mismatch session_id token (\<lambda>session.
     case vs_relay_url session of None \<Rightarrow> Done (Inl (bad_request (lit no_relay))) | Some relay_url \<Rightarrow>
     find_agent (not_found ''agent not connected'') (vs_agent_id session) (\<lambda>agent.
     change (\<lambda>now. modify_entry T session_id (mark_attached now))
     (case options session of (mode, selected, hide_cursor) \<Rightarrow>
      send_required (ac_sender agent) (RelayPrepare
        \<lparr>rp_session_id = session_id, rp_relay_url = relay_url, rp_e2e_key = se_base64_standard env (vs_e2e_key session),
         rp_mode = mode, rp_selected_display_profile = selected, rp_hide_cursor = hide_cursor\<rparr>))))"

definition request_relay :: "server_env \<Rightarrow> ustr \<Rightarrow> ustr \<Rightarrow> (app_error + unit) task" where
  "request_relay env = ask_relay env desktops ''session not found'' ''invalid session token''
     ''relay not configured for this session''
     (\<lambda>session. (rd_mode session, rc_selected_display_profile (rd_capabilities session), rd_hide_cursor session))"

definition request_file_transfer_relay :: "server_env \<Rightarrow> ustr \<Rightarrow> ustr \<Rightarrow> (app_error + unit) task" where
  "request_file_transfer_relay env = ask_relay env transfers ''file transfer session not found'' ''invalid session token''
     ''relay not configured for this session'' (\<lambda>_. (FileTransferMode, None, False))"

definition request_registry_relay :: "server_env \<Rightarrow> ustr \<Rightarrow> ustr \<Rightarrow> (app_error + unit) task" where
  "request_registry_relay env = ask_relay env registries ''remote registry session not found'' ''invalid session token''
     ''relay not configured for this session'' (\<lambda>_. (RemoteRegistryMode, None, False))"

definition request_shell_relay :: "server_env \<Rightarrow> ustr \<Rightarrow> ustr \<Rightarrow> (app_error + unit) task" where
  "request_shell_relay env = ask_relay env shells ''shell session not found'' ''invalid shell session token''
     ''shell relay not configured'' (\<lambda>_. (ShellMode, None, False))"

text \<open>The chat handler reads the session twice, sends first and marks the session afterwards.\<close>

definition request_chat_relay :: "server_env \<Rightarrow> ustr \<Rightarrow> ustr \<Rightarrow> (app_error + unit) task" where
  "request_chat_relay env session_id token =
     with_token chats ''chat session not found'' ''invalid session token'' session_id token (\<lambda>existing.
     case se_relay_url env of
       None \<Rightarrow> Done (Inl (service_unavailable (lit ''relay unavailable on server configuration'')))
     | Some configured \<Rightarrow>
     if vs_relay_url existing \<noteq> Some configured then Done (Inl (bad_request (lit ''relay url mismatch''))) else
     find_agent agent_unavailable (vs_agent_id existing) (\<lambda>agent.
     look (\<lambda>s. map_of (tb_get chats s) session_id) (\<lambda>again. case again of
       None \<Rightarrow> Done (Inl (not_found ''chat session not found''))
     | Some existing \<Rightarrow>
     (case vs_relay_url existing of None \<Rightarrow> Done (Inl (bad_request (lit ''relay url missing''))) | Some relay_url \<Rightarrow>
     ttry (send_required (ac_sender agent) (RelayPrepare
        \<lparr>rp_session_id = session_id, rp_relay_url = relay_url, rp_e2e_key = se_base64_standard env (vs_e2e_key existing),
         rp_mode = ChatMode, rp_selected_display_profile = None, rp_hide_cursor = False\<rparr>)) (\<lambda>_.
     change (\<lambda>now. modify_entry chats session_id (mark_heartbeat now)) (Done (Inr ())))))))"

section \<open>Connection data\<close>

text \<open>The answer of the capability handlers, with the fields the five responses have in common; \<open>cd_desktop\<close> has those of a
  remote desktop. The end-to-end key is part of it when the session has a relay.\<close>

record connection_data =
  cd_transports :: "ustr list"
  cd_platform :: agent_platform
  cd_features :: agent_features
  cd_agent_reflex :: "reflex_address option"
  cd_agent_host :: "ustr option"
  cd_agent_local_addrs :: "local_addr list"
  cd_psk_cert_pem :: "ustr option"
  cd_relay_url :: "ustr option"
  cd_e2e_key :: "ustr option"
  cd_desktop :: "(rd_capabilities \<times> ustr option \<times> ustr option \<times> ustr option) option"

definition connection_of ::
  "server_env \<Rightarrow> 'a viewer_session_scheme \<Rightarrow> ustr list \<Rightarrow> agent_platform \<Rightarrow> agent_features \<Rightarrow> ustr option
   \<Rightarrow> (rd_capabilities \<times> ustr option \<times> ustr option \<times> ustr option) option \<Rightarrow> connection_data" where
  "connection_of env session transports platform features cert_pem desktop =
     \<lparr>cd_transports = transports, cd_platform = platform, cd_features = features,
      cd_agent_reflex = vs_agent_reflex session, cd_agent_host = vs_agent_host session,
      cd_agent_local_addrs = vs_agent_local_addrs session, cd_psk_cert_pem = cert_pem,
      cd_relay_url = vs_relay_url session,
      cd_e2e_key = map_option (\<lambda>_. se_base64_standard env (vs_e2e_key session)) (vs_relay_url session),
      cd_desktop = desktop\<rparr>"

definition get_session_capabilities :: "server_env \<Rightarrow> ustr \<Rightarrow> ustr \<Rightarrow> (app_error + connection_data) task" where
  "get_session_capabilities env session_id token =
     with_token desktops ''session not found'' ''invalid session token'' session_id token (\<lambda>session.
     let caps = rd_capabilities session in
     Done (Inr (connection_of env session (rc_transports caps) (rc_platform caps) (rc_features caps)
       (Some (rd_psk_cert_pem session))
       (Some (caps, rd_agent_hostname session, rd_agent_os session, rd_agent_version session)))))"

definition get_file_transfer_capabilities :: "server_env \<Rightarrow> ustr \<Rightarrow> ustr \<Rightarrow> (app_error + connection_data) task" where
  "get_file_transfer_capabilities env session_id token =
     with_token transfers ''file transfer session not found'' ''invalid session token'' session_id token (\<lambda>session.
     Done (Inr (connection_of env session (ft_transports session) (ft_platform session) (ft_features session)
       (Some (ft_psk_cert_pem session)) None)))"

definition get_registry_capabilities :: "server_env \<Rightarrow> ustr \<Rightarrow> ustr \<Rightarrow> (app_error + connection_data) task" where
  "get_registry_capabilities env session_id token =
     with_token registries ''remote registry session not found'' ''invalid session token'' session_id token (\<lambda>session.
     Done (Inr (connection_of env session (rr_transports session) (rr_platform session) (rr_features session)
       (Some (rr_psk_cert_pem session)) None)))"

definition get_chat_capabilities :: "server_env \<Rightarrow> ustr \<Rightarrow> ustr \<Rightarrow> (app_error + connection_data) task" where
  "get_chat_capabilities env session_id token =
     with_token chats ''chat session not found'' ''invalid session token'' session_id token (\<lambda>session.
     Done (Inr (connection_of env session (ch_transports session) (ch_platform session) (ch_features session)
       (Some (ch_psk_cert_pem session)) None)))"

definition get_shell_capabilities :: "server_env \<Rightarrow> ustr \<Rightarrow> ustr \<Rightarrow> (app_error + connection_data) task" where
  "get_shell_capabilities env session_id token =
     with_token shells ''shell session not found'' ''invalid session token'' session_id token (\<lambda>session.
     Done (Inr (connection_of env session (sh_transports session) (sh_platform session) (sh_features session)
       (sh_psk_cert_pem session) None)))"

text \<open>The sudo password of a Linux device, for the user of a shell session.\<close>

record linux_shell_credential =
  lc_agent_id :: ustr
  lc_username :: ustr
  lc_password :: ustr
  lc_credential_id :: "ustr option"
  lc_version :: "int option"
  lc_updated_at :: "ustr option"

definition opt_i32_field :: "string \<Rightarrow> json \<Rightarrow> int option option" where
  "opt_i32_field name j =
     (case json_field name j of
        None \<Rightarrow> Some None
      | Some JNull \<Rightarrow> Some None
      | Some (JInt i) \<Rightarrow> if - (2 ^ 31) \<le> i \<and> i < 2 ^ 31 then Some (Some i) else None
      | _ \<Rightarrow> None)"

definition decode_linux_shell_credential :: "json \<Rightarrow> linux_shell_credential option" where
  "decode_linux_shell_credential j =
     Option.bind (str_field ''agentId'' j) (\<lambda>agent_id.
     Option.bind (str_field ''username'' j) (\<lambda>username.
     Option.bind (str_field ''password'' j) (\<lambda>password.
     Option.bind (opt_str_field ''credentialId'' j) (\<lambda>credential_id.
     Option.bind (opt_i32_field ''version'' j) (\<lambda>version.
     Option.bind (opt_str_field ''updatedAt'' j) (\<lambda>updated_at.
       Some \<lparr>lc_agent_id = agent_id, lc_username = username, lc_password = password, lc_credential_id = credential_id,
             lc_version = version, lc_updated_at = updated_at\<rparr>))))))"

definition get_linux_shell_credential_for_shell_session ::
  "server_env \<Rightarrow> ustr \<Rightarrow> ustr option \<Rightarrow> (app_error + linux_shell_credential) task" where
  "get_linux_shell_credential_for_shell_session env session_id query_token =
     (case query_token of
        Some token \<Rightarrow>
          if trim token = [] then Done (Inl (unauthorized ''missing session token'')) else
          with_token shells ''shell session not found'' ''invalid session token'' session_id token (\<lambda>session.
          case vs_viewer_user_id session of
            None \<Rightarrow> Done (Inl (forbidden (lit ''viewer identity unavailable'')))
          | Some user_id \<Rightarrow>
              api_request env POST
                (lit ''/rmm/devices/'' @ vs_agent_id session @ lit ''/linux-shell-credential/reveal-for-user'') None
                (Some (json_obj [(''userId'', JStr user_id)])) True ''reveal Linux shell credential for viewer''
                decode_linux_shell_credential)
      | None \<Rightarrow> Done (Inl (unauthorized ''missing session token'')))"

section \<open>The end of a session\<close>

definition notify_agent_session_end :: "ustr \<Rightarrow> ustr \<Rightarrow> string \<Rightarrow> unit task" where
  "notify_agent_session_end agent_id session_id kind =
     look (\<lambda>s. map_of (st_agents s) agent_id) (\<lambda>agent. case agent of
       None \<Rightarrow> Done ()
     | Some agent \<Rightarrow> send_ignored (ac_sender agent) (SessionEnd session_id (lit kind)))"

fun notify_all :: "(ustr \<times> ustr) list \<Rightarrow> string \<Rightarrow> unit task" where
  "notify_all [] kind = Done ()"
| "notify_all ((agent_id, session_id) # rest) kind =
     tbind (notify_agent_session_end agent_id session_id kind) (\<lambda>_. notify_all rest kind)"

definition audit_end :: "server_env \<Rightarrow> ustr \<Rightarrow> viewer_identity option \<Rightarrow> string \<Rightarrow> ustr \<Rightarrow> (string \<times> json) list \<Rightarrow> (app_error + unit) task" where
  "audit_end env agent_id identity action session_id metadata =
     ttry (fetch_device_scope env agent_id) (\<lambda>scope.
     log_audit_event env scope agent_id identity action None ''success'' (Some session_id)
       (json_obj ((''endedBy'', JStr (lit ''viewer'')) # metadata)))"

text \<open>The session is looked up again under the write lock, and removed.\<close>

definition take_entry :: "'v table \<Rightarrow> string \<Rightarrow> ustr \<Rightarrow> (app_error + 'b) task \<Rightarrow> (app_error + 'b) task" where
  "take_entry T missing session_id k =
     Locked (\<lambda>_. remove_entry T session_id)
       (\<lambda>_ s. if map_of (tb_get T s) session_id = None then Done (Inl (not_found missing)) else k)"

definition end_session ::
  "server_env \<Rightarrow> 'a viewer_session_scheme table \<Rightarrow> string \<Rightarrow> string \<Rightarrow> string \<Rightarrow> string
   \<Rightarrow> ('a viewer_session_scheme \<Rightarrow> (string \<times> json) list) \<Rightarrow> ustr \<Rightarrow> ustr \<Rightarrow> (app_error + unit) task" where
  "end_session env T missing mismatch kind action metadata session_id token =
     with_token T missing mismatch session_id token (\<lambda>session.
     take_entry T missing session_id
     (tbind (notify_agent_session_end (vs_agent_id session) session_id kind) (\<lambda>_.
      audit_end env (vs_agent_id session) (session_identity session) action session_id (metadata session))))"

definition end_chat_session :: "server_env \<Rightarrow> ustr \<Rightarrow> ustr \<Rightarrow> (app_error + unit) task" where
  "end_chat_session env = end_session env chats ''chat session not found'' ''invalid session token'' ''chat'' ''chat.end''
     (\<lambda>session. [(''parentDesktopSessionId'', json_opt_str (ch_parent_desktop_session_id session))])"

definition end_file_transfer_session :: "server_env \<Rightarrow> ustr \<Rightarrow> ustr \<Rightarrow> (app_error + unit) task" where
  "end_file_transfer_session env = end_session env transfers ''file transfer session not found'' ''invalid session token''
     ''file_transfer'' ''file_transfer.end'' (\<lambda>_. [])"

definition end_remote_registry_session :: "server_env \<Rightarrow> ustr \<Rightarrow> ustr \<Rightarrow> (app_error + unit) task" where
  "end_remote_registry_session env = end_session env registries ''remote registry session not found''
     ''invalid session token'' ''remote_registry'' ''registry.end'' (\<lambda>_. [])"

definition end_shell_session :: "server_env \<Rightarrow> ustr \<Rightarrow> ustr \<Rightarrow> (app_error + unit) task" where
  "end_shell_session env = end_session env shells ''shell session not found'' ''invalid shell session token''
     ''shell'' ''shell.end'' (\<lambda>_. [])"

text \<open>The chats opened from a desktop session. They are looked up under a read lock and removed under a write lock.\<close>

definition child_chat_ids :: "(chat_session \<Rightarrow> bool) \<Rightarrow> ustr \<Rightarrow> app_state \<Rightarrow> ustr list" where
  "child_chat_ids P session_id s =
     map fst (filter (\<lambda>(_, chat). ch_parent_desktop_session_id chat = Some session_id \<and> P chat) (tb_get chats s))"

definition remove_chats :: "ustr list \<Rightarrow> app_state \<Rightarrow> app_state" where
  "remove_chats ids s = fold (remove_entry chats) ids s"

definition end_remote_desktop_session :: "server_env \<Rightarrow> ustr \<Rightarrow> ustr \<Rightarrow> (app_error + unit) task" where
  "end_remote_desktop_session env session_id token =
     with_token desktops ''session not found'' ''invalid session token'' session_id token (\<lambda>session.
     take_entry desktops ''session not found'' session_id
     (look (child_chat_ids (\<lambda>_. True) session_id) (\<lambda>child_ids.
      change (\<lambda>_. remove_chats child_ids)
      (tbind (notify_agent_session_end (vs_agent_id session) session_id ''remote_desktop'') (\<lambda>_.
       tbind (notify_all (map (\<lambda>chat_id. (vs_agent_id session, chat_id)) child_ids) ''chat'') (\<lambda>_.
       audit_end env (vs_agent_id session) (session_identity session) ''remote_desktop.end'' session_id []))))))"

text \<open>The AI runner removes a session by its kind, its id and the agent it belongs to.\<close>

record cleanup_request =
  cl_session_id :: ustr
  cl_kind :: ustr
  cl_agent_id :: ustr

definition remove_owned ::
  "'a viewer_session_scheme table \<Rightarrow> ustr \<Rightarrow> ustr \<Rightarrow> (bool \<Rightarrow> (app_error + 'b) task) \<Rightarrow> (app_error + 'b) task" where
  "remove_owned T session_id agent_id k =
     Locked
       (\<lambda>_ s. if map_option vs_agent_id (map_of (tb_get T s) session_id) = Some agent_id then remove_entry T session_id s else s)
       (\<lambda>_ s. case map_option vs_agent_id (map_of (tb_get T s) session_id) of
          None \<Rightarrow> k False
        | Some owner \<Rightarrow> if owner \<noteq> agent_id then Done (Inl (forbidden (lit ''session belongs to another agent''))) else k True)"

definition cleanup_ai_runner_session_internal ::
  "server_env \<Rightarrow> headers \<Rightarrow> cleanup_request \<Rightarrow> (app_error + bool) task" where
  "cleanup_ai_runner_session_internal env hs request =
     ttry (Done (require_internal_server_key env hs)) (\<lambda>_.
     let session_id = trim (cl_session_id request); agent_id = trim (cl_agent_id request);
         kind = to_ascii_lowercase (trim (cl_kind request));
         notify_if = (\<lambda>removed name. if removed then notify_agent_session_end agent_id session_id name else Done ()) in
     if session_id = [] \<or> agent_id = [] then Done (Inl (bad_request (lit ''sessionId and agentId are required'')))
     else if kind = lit ''desktop'' \<or> kind = lit ''remote_desktop'' then
       remove_owned desktops session_id agent_id (\<lambda>removed.
       look (child_chat_ids (\<lambda>chat. vs_agent_id chat = agent_id) session_id) (\<lambda>child_ids.
       change (\<lambda>_. remove_chats child_ids)
       (tbind (notify_if removed ''remote_desktop'') (\<lambda>_.
        tbind (notify_all (map (\<lambda>chat_id. (agent_id, chat_id)) child_ids) ''chat'') (\<lambda>_. Done (Inr removed))))))
     else if kind = lit ''shell'' then
       remove_owned shells session_id agent_id (\<lambda>removed.
       tbind (notify_if removed ''shell'') (\<lambda>_. Done (Inr removed)))
     else if kind = lit ''chat'' then
       remove_owned chats session_id agent_id (\<lambda>removed.
       tbind (notify_if removed ''chat'') (\<lambda>_. Done (Inr removed)))
     else Done (Inl (bad_request (lit ''unsupported session kind''))))"

section \<open>What the dashboard sees\<close>

record session_snapshot =
  sn_session_id :: ustr
  sn_kind :: session_kind
  sn_agent_id :: ustr
  sn_user_id :: "ustr option"
  sn_user_email :: "ustr option"
  sn_attached_at :: "instant option"
  sn_viewer_connected_at :: "instant option"
  sn_viewer_last_heartbeat_at :: "instant option"

definition snapshot_of :: "session_kind \<Rightarrow> ustr \<Rightarrow> 'a viewer_session_scheme \<Rightarrow> session_snapshot" where
  "snapshot_of kind session_id session =
     \<lparr>sn_session_id = session_id, sn_kind = kind, sn_agent_id = vs_agent_id session,
      sn_user_id = vs_viewer_user_id session, sn_user_email = vs_viewer_user_email session,
      sn_attached_at = vs_attached_at session, sn_viewer_connected_at = vs_viewer_connected_at session,
      sn_viewer_last_heartbeat_at = vs_viewer_last_heartbeat_at session\<rparr>"

definition find_in ::
  "'a viewer_session_scheme table \<Rightarrow> session_kind \<Rightarrow> ustr \<Rightarrow> (session_snapshot option \<Rightarrow> 'b task) \<Rightarrow> 'b task \<Rightarrow> 'b task" where
  "find_in T kind session_id k otherwise =
     look (\<lambda>s. map_of (tb_get T s) session_id) (\<lambda>session. case session of
       Some session \<Rightarrow> k (Some (snapshot_of kind session_id session))
     | None \<Rightarrow> otherwise)"

definition find_viewer_session_snapshot :: "ustr \<Rightarrow> (session_snapshot option \<Rightarrow> 'b task) \<Rightarrow> 'b task" where
  "find_viewer_session_snapshot session_id k =
     find_in desktops RemoteDesktop session_id k
     (find_in shells Shell session_id k
     (find_in transfers FileTransfer session_id k
     (find_in registries RemoteRegistry session_id k
     (find_in chats Chat session_id k (k None)))))"

record session_status =
  vr_snapshot :: session_snapshot
  vr_state :: launch_state
  vr_connected :: bool
  vr_attached :: bool

definition viewer_status_response_from_snapshot :: "instant \<Rightarrow> session_snapshot \<Rightarrow> session_status" where
  "viewer_status_response_from_snapshot now snapshot =
     (let state = viewer_state_from_heartbeat now (sn_viewer_last_heartbeat_at snapshot) in
      \<lparr>vr_snapshot = snapshot, vr_state = state, vr_connected = (state = LaunchConnected),
       vr_attached = (sn_attached_at snapshot \<noteq> None)\<rparr>)"

definition get_viewer_session_status :: "server_env \<Rightarrow> headers \<Rightarrow> ustr \<Rightarrow> (app_error + session_status) task" where
  "get_viewer_session_status env hs session_id =
     ttry (require_user_context env hs) (\<lambda>user.
     find_viewer_session_snapshot session_id (\<lambda>found. case found of
       None \<Rightarrow> Done (Inl (not_found ''viewer session not found''))
     | Some snapshot \<Rightarrow>
     ttry (ensure_device_in_organization env (sn_agent_id snapshot) (uc_organization_id user)) (\<lambda>_.
     ttry (fetch_device_scope env (sn_agent_id snapshot)) (\<lambda>scope.
     if ds_organization_id scope \<noteq> uc_organization_id user
     then Done (Inl (forbidden (lit ''device does not belong to your organization'')))
     else clock (\<lambda>now. Done (Inr (viewer_status_response_from_snapshot now snapshot)))))))"

text \<open>The live sessions of one table, of one agent if the query names one.\<close>

definition live_snapshots ::
  "session_kind \<Rightarrow> ustr option \<Rightarrow> instant \<Rightarrow> (ustr \<times> 'a viewer_session_scheme) list \<Rightarrow> session_snapshot list" where
  "live_snapshots kind agent now sessions =
     map (\<lambda>(session_id, session). snapshot_of kind session_id session)
       (filter (\<lambda>(_, session). is_presence_live now (vs_viewer_last_heartbeat_at session)
                  \<and> (case agent of Some a \<Rightarrow> a = vs_agent_id session | None \<Rightarrow> True)) sessions)"

definition collect_live ::
  "'a viewer_session_scheme table \<Rightarrow> session_kind \<Rightarrow> ustr option \<Rightarrow> (session_snapshot list \<Rightarrow> 'b task) \<Rightarrow> 'b task" where
  "collect_live T kind agent k = Locked (\<lambda>_ s. s) (\<lambda>now s. k (live_snapshots kind agent now (tb_get T s)))"

fun authorized_snapshots :: "server_env \<Rightarrow> ustr \<Rightarrow> session_snapshot list \<Rightarrow> (app_error + session_snapshot list) task" where
  "authorized_snapshots env organization_id [] = Done (Inr [])"
| "authorized_snapshots env organization_id (snapshot # rest) =
     ttry (fetch_device_scope env (sn_agent_id snapshot)) (\<lambda>scope.
     ttry (authorized_snapshots env organization_id rest) (\<lambda>others.
     Done (Inr (if ds_organization_id scope = organization_id then snapshot # others else others))))"

definition list_viewer_connections :: "server_env \<Rightarrow> headers \<Rightarrow> ustr option \<Rightarrow> (app_error + session_snapshot list) task" where
  "list_viewer_connections env hs agent =
     ttry (require_user_context env hs) (\<lambda>user.
     ttry (case agent of
             None \<Rightarrow> Done (Inr ())
           | Some agent_id \<Rightarrow>
               ttry (ensure_device_in_organization env agent_id (uc_organization_id user)) (\<lambda>_.
               ttry (fetch_device_scope env agent_id) (\<lambda>scope.
               if ds_organization_id scope \<noteq> uc_organization_id user
               then Done (Inl (forbidden (lit ''device does not belong to your organization''))) else Done (Inr ())))) (\<lambda>_.
     collect_live desktops RemoteDesktop agent (\<lambda>d.
     collect_live shells Shell agent (\<lambda>sh.
     collect_live transfers FileTransfer agent (\<lambda>f.
     collect_live registries RemoteRegistry agent (\<lambda>r.
     collect_live chats Chat agent (\<lambda>c.
     ttry (authorized_snapshots env (uc_organization_id user) (d @ sh @ f @ r @ c)) (\<lambda>snapshots.
     Done (Inr (rev (sort_key (\<lambda>n. case sn_viewer_last_heartbeat_at n of None \<Rightarrow> 0 | Some t \<Rightarrow> Suc t) (rev snapshots))))))))))))"

end
