(* ===== verification/Server_Jobs.thy ===== *)
theory Server_Jobs
  imports Server_Access "HOL-Library.List_Lexorder"
begin

text \<open>
  The job queues of the control server: patch jobs, the three kinds of feature-upgrade jobs and remediation commands. The
  API backend keeps the queues; the server tells agents that there is something to fetch, claims jobs for an agent that
  polls, and passes on what the agent reports. Jobs themselves are passed through as JSON values.
\<close>

section \<open>Claiming jobs\<close>

definition decode_jobs :: "json \<Rightarrow> json list option" where
  "decode_jobs j = (case json_field ''jobs'' j of Some (JArr jobs) \<Rightarrow> Some jobs | _ \<Rightarrow> None)"

definition clamp :: "nat \<Rightarrow> nat \<Rightarrow> nat \<Rightarrow> nat" where
  "clamp lo hi n = max lo (min hi n)"

definition agent_queue_path :: "ustr \<Rightarrow> string \<Rightarrow> ustr" where
  "agent_queue_path agent_id suffix = lit ''/rmm/telemetry/remediation/agents/'' @ agent_id @ lit suffix"

definition claim_patch_jobs_for_agent :: "server_env \<Rightarrow> ustr \<Rightarrow> u32 \<Rightarrow> (app_error + json list) task" where
  "claim_patch_jobs_for_agent env agent_id limit =
     api_request env POST (agent_queue_path agent_id ''/patch-jobs/claim'') None
       (Some (json_obj [(''limit'', JInt (int (clamp 1 3 (unat limit))))])) True ''claim patch jobs'' decode_jobs"

definition claim_remediation_jobs_for_agent :: "server_env \<Rightarrow> ustr \<Rightarrow> u32 \<Rightarrow> (app_error + json list) task" where
  "claim_remediation_jobs_for_agent env agent_id limit =
     api_request env POST (agent_queue_path agent_id ''/jobs/claim'') None
       (Some (json_obj [(''limit'', JInt (int (clamp 1 10 (unat limit))))])) True ''claim remediation jobs'' decode_jobs"

definition claim_feature_upgrade_jobs :: "string \<Rightarrow> string \<Rightarrow> server_env \<Rightarrow> ustr \<Rightarrow> u32 \<Rightarrow> (app_error + json list) task" where
  "claim_feature_upgrade_jobs path what env agent_id limit =
     api_request env POST (lit path) None
       (Some (json_obj [(''agentId'', JStr agent_id), (''limit'', JInt (int (clamp 1 3 (unat limit))))])) True what decode_jobs"

definition claim_feature_upgrade_preflight_jobs_for_agent :: "server_env \<Rightarrow> ustr \<Rightarrow> u32 \<Rightarrow> (app_error + json list) task" where
  "claim_feature_upgrade_preflight_jobs_for_agent = claim_feature_upgrade_jobs
     ''/rmm/feature-upgrades/internal/preflight/jobs/claim'' ''claim feature upgrade preflight jobs''"

definition claim_feature_upgrade_stage_iso_jobs_for_agent :: "server_env \<Rightarrow> ustr \<Rightarrow> u32 \<Rightarrow> (app_error + json list) task" where
  "claim_feature_upgrade_stage_iso_jobs_for_agent = claim_feature_upgrade_jobs
     ''/rmm/feature-upgrades/internal/stage-iso/jobs/claim'' ''claim feature upgrade stage ISO jobs''"

definition claim_feature_upgrade_start_jobs_for_agent :: "server_env \<Rightarrow> ustr \<Rightarrow> u32 \<Rightarrow> (app_error + json list) task" where
  "claim_feature_upgrade_start_jobs_for_agent = claim_feature_upgrade_jobs
     ''/rmm/feature-upgrades/internal/start/jobs/claim'' ''claim feature upgrade start jobs''"

fun claim_jobs :: "job_kind \<Rightarrow> server_env \<Rightarrow> ustr \<Rightarrow> u32 \<Rightarrow> (app_error + json list) task" where
  "claim_jobs PatchJob = claim_patch_jobs_for_agent"
| "claim_jobs PreflightJob = claim_feature_upgrade_preflight_jobs_for_agent"
| "claim_jobs StageIsoJob = claim_feature_upgrade_stage_iso_jobs_for_agent"
| "claim_jobs StartJob = claim_feature_upgrade_start_jobs_for_agent"
| "claim_jobs RemediationJob = claim_remediation_jobs_for_agent"

section \<open>Reports of agents\<close>

definition decode_accepted :: "json \<Rightarrow> bool option" where
  "decode_accepted j = bool_field ''accepted'' j"

definition decode_progress :: "json \<Rightarrow> bool option" where
  "decode_progress j =
     (case (bool_field ''accepted'' j, json_field ''updated'' j) of
        (Some accepted, Some (JInt n)) \<Rightarrow> if 0 \<le> n then Some accepted else None
      | _ \<Rightarrow> None)"

definition decode_status :: "json \<Rightarrow> (bool \<times> ustr) option" where
  "decode_status j =
     Option.bind (bool_field ''updated'' j) (\<lambda>updated. Option.bind (str_field ''status'' j) (\<lambda>status. Some (updated, status)))"

definition require_accepted :: "string \<Rightarrow> (app_error + bool) task \<Rightarrow> (app_error + unit) task" where
  "require_accepted message t =
     ttry t (\<lambda>accepted. Done (if accepted then Inr () else Inl (internal (lit message))))"

definition json_int_opt :: "int option \<Rightarrow> json" where
  "json_int_opt i = JInt (case i of Some i \<Rightarrow> i | None \<Rightarrow> 0)"

definition json_value_opt :: "json option \<Rightarrow> json" where
  "json_value_opt v = (case v of Some v \<Rightarrow> v | None \<Rightarrow> JNull)"

record job_update =
  ju_job_id :: ustr
  ju_status :: ustr
  ju_step_index :: "int option"
  ju_evidence :: "json option"

definition status_request_body :: "job_update \<Rightarrow> json" where
  "status_request_body payload =
     json_obj [(''status'', JStr (ju_status payload)), (''stepIndex'', json_int_opt (ju_step_index payload)),
       (''evidence'', json_value_opt (ju_evidence payload))]"

definition report_patch_job_update_for_agent :: "server_env \<Rightarrow> ustr \<Rightarrow> job_update \<Rightarrow> (app_error + unit) task" where
  "report_patch_job_update_for_agent env agent_id payload =
     ttry (api_request env PATCH
             (lit ''/rmm/telemetry/remediation/agents/'' @ agent_id @ lit ''/patch-jobs/'' @ ju_job_id payload @ lit ''/status'')
             None (Some (status_request_body payload)) True ''report patch job update'' decode_status)
       (\<lambda>_. Done (Inr ()))"

definition publish_remediation_status_for_agent :: "server_env \<Rightarrow> ustr \<Rightarrow> job_update \<Rightarrow> (app_error + unit) task" where
  "publish_remediation_status_for_agent env agent_id payload =
     ttry (api_request env PATCH
             (lit ''/rmm/telemetry/remediation/agents/'' @ agent_id @ lit ''/jobs/'' @ ju_job_id payload @ lit ''/status'')
             None (Some (status_request_body payload)) True ''report remediation job status'' decode_status)
       (\<lambda>(updated, status).
          if \<not> updated \<or> status \<noteq> ju_status payload
          then Done (Inl (internal (lit ''telemetry api did not persist remediation status''))) else Done (Inr ()))"

record progress =
  pg_operation_id :: ustr
  pg_run_id :: ustr
  pg_organization_id :: ustr
  pg_agent_id :: ustr
  pg_status :: ustr
  pg_phase :: ustr
  pg_extra :: "(ustr \<times> json) list"

text \<open>\<open>serde_json::Map::insert\<close>, for a list of fields.\<close>

definition insert_fields :: "(string \<times> json) list \<Rightarrow> (ustr \<times> json) list \<Rightarrow> json" where
  "insert_fields entries extra = JObj (fold (\<lambda>(name, value). AList.update (lit name) value) entries extra)"

definition patch_progress_url :: "server_env \<Rightarrow> ustr" where
  "patch_progress_url env =
     (case se_telemetry_producer_url env of
        Some base \<Rightarrow> trim_end_matches 47 base @ lit ''/telemetry/patch/progress''
      | None \<Rightarrow> trim_end_matches 47 (se_api_base_url env) @ lit ''/rmm/telemetry/patch/progress'')"

text \<open>In the progress of a patch job the job and the command take the place of the operation and the run.\<close>

definition publish_patch_progress_for_agent :: "server_env \<Rightarrow> ustr \<Rightarrow> progress \<Rightarrow> (app_error + unit) task" where
  "publish_patch_progress_for_agent env connected_agent_id payload =
     (if pg_agent_id payload \<noteq> connected_agent_id then Done (Inr ()) else
      require_accepted ''patch progress destination did not accept progress''
        (api_request_with_url env POST (patch_progress_url env) None
          (Some (json_obj [(''progress'', JArr [insert_fields
             [(''organizationId'', JStr (pg_organization_id payload)), (''agentId'', JStr (pg_agent_id payload)),
              (''jobId'', JStr (pg_operation_id payload)), (''commandId'', JStr (pg_run_id payload)),
              (''status'', JStr (pg_status payload)), (''phase'', JStr (pg_phase payload))] (pg_extra payload)])]))
          True ''publish patch progress'' decode_accepted))"

definition publish_feature_upgrade_preflight_progress_for_agent ::
  "server_env \<Rightarrow> ustr \<Rightarrow> progress \<Rightarrow> json list \<Rightarrow> (app_error + unit) task" where
  "publish_feature_upgrade_preflight_progress_for_agent env connected_agent_id payload checks =
     (if pg_agent_id payload \<noteq> connected_agent_id then Done (Inr ()) else
      require_accepted ''api backend did not accept feature upgrade preflight progress''
        (api_request env POST (lit ''/rmm/feature-upgrades/internal/preflight/progress'') None
          (Some (json_obj
             [(''operationId'', JStr (pg_operation_id payload)), (''runId'', JStr (pg_run_id payload)),
              (''organizationId'', JStr (pg_organization_id payload)), (''agentId'', JStr (pg_agent_id payload)),
              (''status'', JStr (pg_status payload)), (''phase'', JStr (pg_phase payload)), (''checks'', JArr checks)]))
          True ''publish feature upgrade preflight progress'' decode_progress))"

definition publish_upgrade_progress ::
  "string \<Rightarrow> string \<Rightarrow> string \<Rightarrow> server_env \<Rightarrow> ustr \<Rightarrow> progress \<Rightarrow> (app_error + unit) task" where
  "publish_upgrade_progress path what rejected env connected_agent_id payload =
     (if pg_agent_id payload \<noteq> connected_agent_id then Done (Inr ()) else
      clock (\<lambda>now.
      require_accepted rejected
        (api_request env POST (lit path) None
          (Some (insert_fields
             [(''operationId'', JStr (pg_operation_id payload)), (''runId'', JStr (pg_run_id payload)),
              (''organizationId'', JStr (pg_organization_id payload)), (''agentId'', JStr (pg_agent_id payload)),
              (''status'', JStr (pg_status payload)), (''phase'', JStr (pg_phase payload)),
              (''receivedAt'', JStr (se_rfc3339 env now))] (pg_extra payload)))
          True what decode_progress)))"

definition publish_feature_upgrade_stage_iso_progress_for_agent ::
  "server_env \<Rightarrow> ustr \<Rightarrow> progress \<Rightarrow> (app_error + unit) task" where
  "publish_feature_upgrade_stage_iso_progress_for_agent = publish_upgrade_progress
     ''/rmm/feature-upgrades/internal/stage-iso/progress'' ''publish feature upgrade stage ISO progress''
     ''api backend did not accept feature upgrade stage ISO progress''"

definition publish_feature_upgrade_start_progress_for_agent ::
  "server_env \<Rightarrow> ustr \<Rightarrow> progress \<Rightarrow> (app_error + unit) task" where
  "publish_feature_upgrade_start_progress_for_agent = publish_upgrade_progress
     ''/rmm/feature-upgrades/internal/start/progress'' ''publish feature upgrade start progress''
     ''api backend did not accept feature upgrade start progress''"

definition evaluate_patch_state_for_agent :: "server_env \<Rightarrow> ustr \<Rightarrow> ustr option \<Rightarrow> json \<Rightarrow> (app_error + json) task" where
  "evaluate_patch_state_for_agent env agent_id observed_at patch_state =
     clock (\<lambda>now.
     api_request env POST (lit ''/rmm/telemetry/patch/checkin'') None
       (Some (json_obj [(''agentId'', JStr agent_id),
          (''observedAt'', JStr (case observed_at of Some t \<Rightarrow> t | None \<Rightarrow> se_rfc3339 env now)), (''state'', patch_state)]))
       True ''evaluate patch state check-in'' (json_field ''plan''))"

record action_result =
  re_operation_id :: ustr
  re_action :: ustr
  re_status :: ustr
  re_update_keys :: "ustr list"
  re_evidence :: json

definition report_patch_action_result_for_agent :: "server_env \<Rightarrow> ustr \<Rightarrow> action_result \<Rightarrow> (app_error + unit) task" where
  "report_patch_action_result_for_agent env agent_id payload =
     ttry (api_request env POST (lit ''/rmm/telemetry/patch/action-result'') None
       (Some (json_obj [(''agentId'', JStr agent_id), (''operationId'', JStr (re_operation_id payload)),
          (''action'', JStr (re_action payload)), (''status'', JStr (re_status payload)),
          (''updateKeys'', JArr (map JStr (re_update_keys payload))), (''evidence'', re_evidence payload)]))
       True ''report patch action result'' decode_accepted)
       (\<lambda>_. Done (Inr ()))"

definition report_macos_update_account_status_for_agent ::
  "server_env \<Rightarrow> ustr \<Rightarrow> ustr \<Rightarrow> json \<Rightarrow> (app_error + unit) task" where
  "report_macos_update_account_status_for_agent env connected_agent_id payload_agent_id status =
     (if payload_agent_id \<noteq> connected_agent_id then Done (Inr ()) else
      require_accepted ''api backend did not accept macOS update account status''
        (api_request env POST (lit ''/rmm/devices/'' @ connected_agent_id @ lit ''/macos-update-account-status'') None
          (Some status) True ''persist macOS update account status'' decode_accepted))"

section \<open>Telling agents that there are jobs\<close>

definition send_jobs_available_to_agent :: "job_kind \<Rightarrow> ustr \<Rightarrow> ustr \<Rightarrow> ustr option \<Rightarrow> (app_error + bool) task" where
  "send_jobs_available_to_agent kind agent_id reason requested_by =
     look (\<lambda>s. map_of (st_agents s) agent_id) (\<lambda>agent. case agent of
       None \<Rightarrow> Done (Inr False)
     | Some agent \<Rightarrow> ttry (send_required (ac_sender agent) (JobsAvailable kind reason requested_by)) (\<lambda>_. Done (Inr True)))"

definition send_patch_jobs_available_to_agent :: "ustr \<Rightarrow> ustr \<Rightarrow> ustr option \<Rightarrow> (app_error + bool) task" where
  "send_patch_jobs_available_to_agent = send_jobs_available_to_agent PatchJob"

definition send_feature_upgrade_preflight_jobs_available_to_agent :: "ustr \<Rightarrow> ustr \<Rightarrow> ustr option \<Rightarrow> (app_error + bool) task" where
  "send_feature_upgrade_preflight_jobs_available_to_agent = send_jobs_available_to_agent PreflightJob"

definition send_feature_upgrade_stage_iso_jobs_available_to_agent :: "ustr \<Rightarrow> ustr \<Rightarrow> ustr option \<Rightarrow> (app_error + bool) task" where
  "send_feature_upgrade_stage_iso_jobs_available_to_agent = send_jobs_available_to_agent StageIsoJob"

definition send_feature_upgrade_start_jobs_available_to_agent :: "ustr \<Rightarrow> ustr \<Rightarrow> ustr option \<Rightarrow> (app_error + bool) task" where
  "send_feature_upgrade_start_jobs_available_to_agent = send_jobs_available_to_agent StartJob"

definition send_remediation_jobs_available_to_agent :: "ustr \<Rightarrow> ustr \<Rightarrow> ustr option \<Rightarrow> (app_error + bool) task" where
  "send_remediation_jobs_available_to_agent = send_jobs_available_to_agent RemediationJob"

text \<open>The loop over the agents; \<open>unwrap_or(false)\<close> makes a failed send an agent that was not told.\<close>

fun notify_agents :: "(ustr \<Rightarrow> (app_error + bool) task) \<Rightarrow> ustr list \<Rightarrow> nat \<Rightarrow> nat task" where
  "notify_agents send [] notified = Done notified"
| "notify_agents send (agent_id # rest) notified =
     tbind (send agent_id) (\<lambda>sent. notify_agents send rest (if sent = Inr True then Suc notified else notified))"

record notify_request =
  nr_agent_ids :: "ustr list option"
  nr_reason :: "ustr option"
  nr_requested_by :: "ustr option"

definition notify_jobs_internal ::
  "(ustr \<Rightarrow> ustr \<Rightarrow> ustr option \<Rightarrow> (app_error + bool) task) \<Rightarrow> string \<Rightarrow> server_env \<Rightarrow> headers \<Rightarrow> notify_request
   \<Rightarrow> (app_error + nat \<times> nat) task" where
  "notify_jobs_internal send default_reason env hs body =
     ttry (Done (require_internal_server_key env hs)) (\<lambda>_.
     let reason = (case nr_reason body of Some reason \<Rightarrow> reason | None \<Rightarrow> lit default_reason);
         targets = filter (\<lambda>a. a \<noteq> []) (map trim (case nr_agent_ids body of Some ids \<Rightarrow> ids | None \<Rightarrow> [])) in
     look (\<lambda>s. if targets = [] then map fst (st_agents s) else filter (\<lambda>a. map_of (st_agents s) a \<noteq> None) targets) (\<lambda>agents.
     tbind (notify_agents (\<lambda>agent_id. send agent_id reason (nr_requested_by body)) agents 0) (\<lambda>notified.
     Done (Inr (length agents, notified)))))"

definition notify_patch_jobs_internal :: "server_env \<Rightarrow> headers \<Rightarrow> notify_request \<Rightarrow> (app_error + nat \<times> nat) task" where
  "notify_patch_jobs_internal = notify_jobs_internal send_patch_jobs_available_to_agent ''patch_jobs_available''"

definition notify_feature_upgrade_preflight_internal :: "server_env \<Rightarrow> headers \<Rightarrow> notify_request \<Rightarrow> (app_error + nat \<times> nat) task" where
  "notify_feature_upgrade_preflight_internal =
     notify_jobs_internal send_feature_upgrade_preflight_jobs_available_to_agent ''feature_upgrade_preflight_available''"

definition notify_feature_upgrade_stage_iso_internal :: "server_env \<Rightarrow> headers \<Rightarrow> notify_request \<Rightarrow> (app_error + nat \<times> nat) task" where
  "notify_feature_upgrade_stage_iso_internal =
     notify_jobs_internal send_feature_upgrade_stage_iso_jobs_available_to_agent ''feature_upgrade_stage_iso_available''"

definition notify_feature_upgrade_start_internal :: "server_env \<Rightarrow> headers \<Rightarrow> notify_request \<Rightarrow> (app_error + nat \<times> nat) task" where
  "notify_feature_upgrade_start_internal =
     notify_jobs_internal send_feature_upgrade_start_jobs_available_to_agent ''feature_upgrade_start_available''"

definition notify_patch_jobs_for_device :: "server_env \<Rightarrow> headers \<Rightarrow> ustr \<Rightarrow> (app_error + nat \<times> nat) task" where
  "notify_patch_jobs_for_device env hs agent_id =
     ttry (authorize_device env hs agent_id) (\<lambda>(user, scope).
     look (\<lambda>s. Option.bind (map_of (st_agents s) agent_id) ac_hostname) (\<lambda>target_name.
     ttry (send_patch_jobs_available_to_agent agent_id (lit ''manual'') (Some (uc_user_id user))) (\<lambda>notified.
     ttry (log_audit_event env (scope\<lparr>ds_organization_id := uc_organization_id user\<rparr>) agent_id
             (Some \<lparr>vi_user_id = uc_user_id user, vi_user_email = uc_email user\<rparr>) ''patch.jobs.notify'' target_name
             (if notified then ''success'' else ''failure'') None
             (json_obj [(''reason'', JStr (lit ''manual'')), (''notified'', JBool notified)])) (\<lambda>_.
     Done (Inr (of_bool notified, of_bool notified))))))"

section \<open>Remediation commands\<close>

record remediation_job =
  rj_command_id :: ustr
  rj_organization_id :: ustr
  rj_agent_id :: ustr
  rj_intent_id :: ustr
  rj_approval_state :: ustr
  rj_steps :: "json list"

definition dispatchable :: "remediation_job \<Rightarrow> bool" where
  "dispatchable job \<longleftrightarrow>
     \<not> (trim (rj_command_id job) = [] \<or> trim (rj_organization_id job) = [] \<or> trim (rj_agent_id job) = []
        \<or> trim (rj_intent_id job) = [] \<or> rj_steps job = [] \<or> rj_approval_state job = lit ''pending_approval''
        \<or> rj_intent_id job = lit ''talos.patch.install'')"

text \<open>The two sets of the loop as lists without repetition; the agents are sorted at the end.\<close>

definition notification_targets :: "remediation_job list \<Rightarrow> nat \<times> ustr list" where
  "notification_targets commands =
     (let jobs = filter dispatchable commands in
      (length (remdups (map (\<lambda>job. (rj_agent_id job, rj_command_id job)) jobs)), sort (remdups (map rj_agent_id jobs))))"

definition enqueue_remediation_commands_internal ::
  "server_env \<Rightarrow> headers \<Rightarrow> remediation_job list \<Rightarrow> (app_error + nat \<times> nat \<times> nat) task" where
  "enqueue_remediation_commands_internal env hs commands =
     ttry (Done (require_internal_server_key env hs)) (\<lambda>_.
     case notification_targets commands of (queued, targets) \<Rightarrow>
     look (\<lambda>s. length (filter (\<lambda>a. map_of (st_agents s) a \<noteq> None) targets)) (\<lambda>connected.
     tbind (notify_agents (\<lambda>agent_id. send_remediation_jobs_available_to_agent agent_id (lit ''remediation_command_queued'') None)
              targets 0) (\<lambda>notified.
     Done (Inr (queued, connected, notified)))))"

end
