(* ===== verification/Server_Agents.thy ===== *)
theory Server_Agents
  imports Server_Viewer Server_Jobs
begin

text \<open>
  The side of the control server that faces the agents: the directory of connected agents, the socket of an agent from
  its first message to the cleanup after it, the answers to pending requests; the handlers that ask an agent for
  something (a script, device details, a snapshot, the Windows sessions); and the reaper.
\<close>

section \<open>The agent directory\<close>

definition newer :: "'a option \<Rightarrow> 'a option \<Rightarrow> 'a option" where
  "newer new old = (case new of Some a \<Rightarrow> Some a | None \<Rightarrow> old)"

text \<open>A registration replaces what it brings and keeps the rest of an existing entry.\<close>

definition register_connection :: "agent_registration \<Rightarrow> agent_connection option \<Rightarrow> agent_connection" where
  "register_connection r existing =
     (let entry = (case existing of
            Some entry \<Rightarrow> entry
          | None \<Rightarrow> \<lparr>ac_sender = ar_sender r, ac_host = None, ac_local_addrs = [], ac_is_admin = False, ac_hostname = None,
              ac_os = None, ac_version = None, ac_platform = UnknownPlatform, ac_features = default_features\<rparr>) in
      \<lparr>ac_sender = ar_sender r, ac_host = newer (ar_host r) (ac_host entry),
       ac_local_addrs = (case ar_local_addrs r of
          Some addrs \<Rightarrow> if addrs \<noteq> [] then addrs else ac_local_addrs entry | None \<Rightarrow> ac_local_addrs entry),
       ac_is_admin = (case ar_is_admin r of Some b \<Rightarrow> b | None \<Rightarrow> ac_is_admin entry),
       ac_hostname = newer (ar_hostname r) (ac_hostname entry), ac_os = newer (ar_os r) (ac_os entry),
       ac_version = newer (ar_version r) (ac_version entry), ac_platform = ar_platform r, ac_features = ar_features r\<rparr>)"

definition register_agent :: "ustr \<Rightarrow> agent_registration \<Rightarrow> app_state \<Rightarrow> app_state" where
  "register_agent agent_id r s =
     s\<lparr>st_agents := AList.update agent_id (register_connection r (map_of (st_agents s) agent_id)) (st_agents s)\<rparr>"

definition owns_entry :: "ustr \<Rightarrow> nat \<Rightarrow> app_state \<Rightarrow> bool" where
  "owns_entry agent_id sender s = (case map_of (st_agents s) agent_id of None \<Rightarrow> True | Some c \<Rightarrow> ac_sender c = sender)"

definition disconnect_unless_replaced :: "ustr \<Rightarrow> nat \<Rightarrow> (bool \<Rightarrow> 'a task) \<Rightarrow> 'a task" where
  "disconnect_unless_replaced agent_id sender k =
     Locked
       (\<lambda>_ s. if owns_entry agent_id sender s then s\<lparr>st_agents := AList.delete agent_id (st_agents s)\<rparr> else s)
       (\<lambda>_ s. k (owns_entry agent_id sender s))"

section \<open>Devices\<close>

record device_summary =
  dv_agent_id :: ustr
  dv_hostname :: ustr
  dv_os :: ustr
  dv_ip :: ustr
  dv_version :: "ustr option"
  dv_last_seen :: ustr
  dv_last_inventory :: "json option"
  dv_device_details :: "json option"
  dv_customer_id :: "ustr option"
  dv_customer_name :: "ustr option"

definition value_field :: "string \<Rightarrow> json \<Rightarrow> json option" where
  "value_field name j = (case json_field name j of Some JNull \<Rightarrow> None | v \<Rightarrow> v)"

text \<open>The time stamp is kept as text.\<close>

definition decode_device_summary :: "json \<Rightarrow> device_summary option" where
  "decode_device_summary j =
     Option.bind (str_field ''agentId'' j) (\<lambda>agent_id.
     Option.bind (str_field ''hostname'' j) (\<lambda>hostname.
     Option.bind (str_field ''os'' j) (\<lambda>os.
     Option.bind (str_field ''ip'' j) (\<lambda>ip.
     Option.bind (opt_str_field ''version'' j) (\<lambda>version.
     Option.bind (str_field ''lastSeen'' j) (\<lambda>last_seen.
     Option.bind (opt_str_field ''customerId'' j) (\<lambda>customer_id.
     Option.bind (opt_str_field ''customerName'' j) (\<lambda>customer_name.
       Some \<lparr>dv_agent_id = agent_id, dv_hostname = hostname, dv_os = os, dv_ip = ip, dv_version = version,
             dv_last_seen = last_seen, dv_last_inventory = value_field ''lastInventory'' j,
             dv_device_details = value_field ''deviceDetails'' j, dv_customer_id = customer_id,
             dv_customer_name = customer_name\<rparr>))))))))"

text \<open>The error of a function that returns \<open>anyhow::Result\<close> loses its status and message.\<close>

definition via_anyhow :: "(app_error + 'a) task \<Rightarrow> (app_error + 'a) task" where
  "via_anyhow t = tbind t (\<lambda>r. case r of Inl _ \<Rightarrow> Done (Inl internal_server_error) | Inr a \<Rightarrow> Done (Inr a))"

definition update_device_details :: "server_env \<Rightarrow> ustr \<Rightarrow> json \<Rightarrow> (app_error + device_summary) task" where
  "update_device_details env agent_id details =
     ttry (api_request env PATCH (lit ''/rmm/devices/'' @ agent_id) None (Some (json_obj [(''deviceDetails'', details)]))
             True ''update device details'' decode_device_summary)
       (\<lambda>updated. Done (Inr (updated\<lparr>dv_device_details := Some details\<rparr>)))"

definition fetch_device_details_for_agent :: "server_env \<Rightarrow> ustr \<Rightarrow> (app_error + device_summary) task" where
  "fetch_device_details_for_agent env agent_id =
     find_agent (not_found ''agent not connected'') agent_id (\<lambda>agent.
     NewUuid (\<lambda>request_id.
     open_request detail_requests request_id (\<lambda>channel.
     ttry (send_required (ac_sender agent) (FetchDetails request_id)) (\<lambda>_.
     await_reply detail_requests request_id channel (\<lambda>answer. case answer of
       Received (DetailReply details) \<Rightarrow> via_anyhow (update_device_details env agent_id details)
     | _ \<Rightarrow> close_request detail_requests request_id (Done (Inl (gateway_timeout ''device details request timed out''))))))))"

definition fetch_device_summary_from_api :: "server_env \<Rightarrow> ustr \<Rightarrow> (app_error + device_summary) task" where
  "fetch_device_summary_from_api env agent_id =
     api_request env GET (lit ''/rmm/devices/'' @ agent_id) None None True ''fetch device summary'' decode_device_summary"

definition parse_refresh_flag :: "ustr option \<Rightarrow> bool" where
  "parse_refresh_flag value =
     (case value of
        None \<Rightarrow> True
      | Some raw \<Rightarrow> to_ascii_lowercase (trim raw) \<notin> {lit ''0'', lit ''false'', lit ''no'', lit ''off''})"

record device_info =
  di_device :: device_summary
  di_refreshed :: bool
  di_refresh_error :: "ustr option"

definition get_session_device_info :: "server_env \<Rightarrow> ustr \<Rightarrow> ustr \<Rightarrow> ustr option \<Rightarrow> (app_error + device_info) task" where
  "get_session_device_info env session_id token refresh =
     with_token desktops ''session not found'' ''invalid session token'' session_id token (\<lambda>session.
     let cached = (\<lambda>error. ttry (fetch_device_summary_from_api env (vs_agent_id session)) (\<lambda>device.
           Done (Inr \<lparr>di_device = device, di_refreshed = False, di_refresh_error = error\<rparr>))) in
     if parse_refresh_flag refresh then
       tbind (fetch_device_details_for_agent env (vs_agent_id session)) (\<lambda>r. case r of
         Inr device \<Rightarrow> Done (Inr \<lparr>di_device = device, di_refreshed = True, di_refresh_error = None\<rparr>)
       | Inl err \<Rightarrow> cached (Some (ae_message err)))
     else cached None)"

text \<open>Five routes that have moved to the API backend.\<close>

definition list_devices :: "(app_error + unit) task" where
  "list_devices = Done (Inl (gone ''devices list has moved to the API backend''))"

definition bulk_update_customer :: "(app_error + unit) task" where
  "bulk_update_customer = Done (Inl (gone ''bulk customer updates have moved to the API backend''))"

definition bulk_delete_devices :: "(app_error + unit) task" where
  "bulk_delete_devices = Done (Inl (gone ''bulk device deletes have moved to the API backend''))"

definition get_device :: "ustr \<Rightarrow> (app_error + unit) task" where
  "get_device agent_id = Done (Inl (gone ''device details have moved to the API backend''))"

definition delete_device :: "ustr \<Rightarrow> (app_error + unit) task" where
  "delete_device agent_id = Done (Inl (gone ''device deletes have moved to the API backend''))"

text \<open>These three handlers take no credentials.\<close>

definition fetch_device_details :: "server_env \<Rightarrow> ustr \<Rightarrow> (app_error + device_summary) task" where
  "fetch_device_details env agent_id = fetch_device_details_for_agent env agent_id"

definition list_rdp_sessions :: "ustr \<Rightarrow> (app_error + rdp_session_info list) task" where
  "list_rdp_sessions agent_id =
     find_agent (not_found ''agent not connected'') agent_id (\<lambda>agent.
     NewUuid (\<lambda>request_id.
     open_request rdp_requests request_id (\<lambda>channel.
     ttry (send_required (ac_sender agent) (RdpSessionsRequest request_id)) (\<lambda>_.
     await_reply rdp_requests request_id channel (\<lambda>answer. case answer of
       Received (RdpReply sessions) \<Rightarrow> Done (Inr sessions)
     | _ \<Rightarrow> close_request rdp_requests request_id (Done (Inl (gateway_timeout ''rdp session enumeration timed out''))))))))"

definition decode_snapshot_status :: "json \<Rightarrow> unit option" where
  "decode_snapshot_status j =
     Option.bind (str_field ''requestId'' j) (\<lambda>_. Option.bind (str_field ''status'' j) (\<lambda>_. Some ()))"

definition request_snapshot :: "server_env \<Rightarrow> ustr \<Rightarrow> (app_error + ustr) task" where
  "request_snapshot env agent_id =
     clock (\<lambda>now.
     let limited = (\<lambda>s. case map_of (st_last_snapshot_request s) agent_id of
                      Some t \<Rightarrow> (now - t) div 1000000000 < 30 | None \<Rightarrow> False);
         register = (\<lambda>request_id status what. api_request env POST
                       (lit ''/rmm/devices/'' @ agent_id @ lit ''/snapshot-requests'') None
                       (Some (json_obj [(''requestId'', JStr request_id), (''status'', JStr (lit status))])) True what
                       decode_snapshot_status) in
     Locked
       (\<lambda>_ s. if limited s then s
              else s\<lparr>st_last_snapshot_request := AList.update agent_id now (st_last_snapshot_request s)\<rparr>)
       (\<lambda>_ s. if limited s then Done (Inl (bad_request (lit ''snapshot request is limited to once every 30 seconds''))) else
     find_agent (not_found ''agent not connected'') agent_id (\<lambda>agent.
     NewUuid (\<lambda>request_id.
     ttry (register request_id ''pending'' ''register snapshot request'') (\<lambda>_.
     SendTo (ac_sender agent) (RequestFullSnapshot request_id) (\<lambda>sent.
     if sent then Done (Inr request_id)
     else tbind (register request_id ''failed'' ''mark snapshot request failed'') (\<lambda>_. Done (Inl agent_unavailable))))))))"

section \<open>Scripts\<close>

definition as_i32 :: "nat \<Rightarrow> int" where
  "as_i32 n = sint (of_nat n :: 32 word)"

definition truncation_suffix :: ustr where
  "truncation_suffix = [10, 10] @ lit ''[output truncated]''"

definition truncate_output :: "ustr \<Rightarrow> nat \<Rightarrow> ustr \<times> int" where
  "truncate_output out max_bytes =
     (let bs = to_utf8 out in
      if length bs \<le> max_bytes then (out, as_i32 (length bs))
      else (from_utf8_lossy (take (max_bytes - length (to_utf8 truncation_suffix)) bs) @ truncation_suffix, as_i32 max_bytes))"

definition parse_i64 :: "ustr \<Rightarrow> int option" where
  "parse_i64 s =
     (case s of
        [] \<Rightarrow> None
      | c # t \<Rightarrow>
          if c = 45 then (if t = [] then None else map_option (\<lambda>n. - int n) (parse_digits (2 ^ 63) 0 t))
          else map_option int (parse_unsigned (2 ^ 63 - 1) s))"

record policy_validation =
  pv_allowed :: bool
  pv_reason :: "ustr option"
  pv_matched_policy_id :: "ustr option"

definition decode_validation :: "json \<Rightarrow> policy_validation option" where
  "decode_validation j =
     Option.bind (bool_field ''allowed'' j) (\<lambda>allowed.
     Option.bind (opt_str_field ''reason'' j) (\<lambda>reason.
     Option.bind (opt_str_field ''matchedPolicyId'' j) (\<lambda>matched_policy_id.
       Some \<lparr>pv_allowed = allowed, pv_reason = reason, pv_matched_policy_id = matched_policy_id\<rparr>)))"

definition validation_body :: "ustr \<Rightarrow> user_context \<Rightarrow> device_scope \<Rightarrow> json" where
  "validation_body script user scope =
     json_obj [(''command'', JStr script), (''organizationId'', JStr (uc_organization_id user)),
       (''customerId'', json_opt_str (ds_customer_id scope)), (''role'', JStr (uc_role user))]"

definition json_opt_int :: "int option \<Rightarrow> json" where
  "json_opt_int i = (case i of Some i \<Rightarrow> JInt i | None \<Rightarrow> JNull)"

definition log_command_execution ::
  "server_env \<Rightarrow> user_context \<Rightarrow> device_scope \<Rightarrow> ustr \<Rightarrow> ustr \<Rightarrow> bool \<Rightarrow> ustr option \<Rightarrow> int option \<Rightarrow> int option
   \<Rightarrow> int option \<Rightarrow> int option \<Rightarrow> (app_error + unit) task" where
  "log_command_execution env user scope agent_id command was_allowed denial_reason matched_policy_id execution_time_ms
      output_length exit_code =
     ttry (api_request env POST (lit ''/rmm/command-log'') None
       (Some (json_obj
          [(''organizationId'', JStr (uc_organization_id user)), (''customerId'', json_opt_str (ds_customer_id scope)),
           (''siteId'', json_opt_str (ds_site_id scope)), (''userId'', JStr (uc_user_id user)),
           (''userEmail'', json_opt_str (uc_email user)), (''agentId'', JStr agent_id), (''command'', JStr command),
           (''wasAllowed'', JBool was_allowed), (''denialReason'', json_opt_str denial_reason),
           (''matchedPolicyId'', json_opt_int matched_policy_id), (''executionTimeMs'', json_opt_int execution_time_ms),
           (''outputLength'', json_opt_int output_length), (''exitCode'', json_opt_int exit_code)]))
       True ''log command execution'' Some)
       (\<lambda>_. Done (Inr ()))"

definition execute_script :: "server_env \<Rightarrow> headers \<Rightarrow> ustr \<Rightarrow> ustr \<Rightarrow> (app_error + ustr \<times> int option) task" where
  "execute_script env hs agent_id script =
     (if trim script = [] then Done (Inl (bad_request (lit ''script must not be empty''))) else
     ttry (authorize_device env hs agent_id) (\<lambda>(user, scope).
     ttry (api_request env POST (lit ''/policies/validate'') None (Some (validation_body script user scope)) True
             ''validate command policy'' decode_validation) (\<lambda>validation.
     let matched = Option.bind (pv_matched_policy_id validation) parse_i64;
         reason = (case pv_reason validation of Some r \<Rightarrow> r | None \<Rightarrow> lit ''Command not allowed'') in
     if \<not> pv_allowed validation then
       ttry (log_command_execution env user scope agent_id script False (Some reason) matched None None None) (\<lambda>_.
       Done (Inl (forbidden reason)))
     else
     find_agent (not_found ''agent not connected'') agent_id (\<lambda>agent.
     NewUuid (\<lambda>request_id.
     open_request command_requests request_id (\<lambda>channel.
     ttry (send_required (ac_sender agent) (ShellCommand request_id script)) (\<lambda>_.
     clock (\<lambda>start.
     await_reply command_requests request_id channel (\<lambda>answer. case answer of
       Received (CommandReply result) \<Rightarrow>
         clock (\<lambda>end_time.
         case truncate_output (out_output result) (se_max_output_bytes env) of (text, len) \<Rightarrow>
         ttry (log_command_execution env user scope agent_id script True None matched
                 (Some (as_i32 ((end_time - start) div 1000000))) (Some len) (out_exit_code result)) (\<lambda>_.
         Done (Inr (text, out_exit_code result))))
     | _ \<Rightarrow> close_request command_requests request_id (Done (Inl (gateway_timeout ''script execution timed out''))))))))))))"

section \<open>Messages of an agent\<close>

record agent_hello =
  ah_agent_id :: ustr
  ah_hostname :: ustr
  ah_os :: ustr
  ah_ip :: ustr
  ah_local_addrs :: "local_addr list option"
  ah_version :: "ustr option"
  ah_is_admin :: bool
  ah_platform :: agent_platform
  ah_features :: agent_features

record inventory_update =
  iu_agent_id :: ustr
  iu_hostname :: ustr
  iu_os :: ustr
  iu_ip :: ustr
  iu_version :: "ustr option"
  iu_inventory :: json

record shell_credential =
  sc_agent_id :: ustr
  sc_username :: ustr
  sc_password :: ustr
  sc_credential_id :: ustr
  sc_version :: int
  sc_generated_at :: ustr

text \<open>A message after it was parsed; \<open>Malformed\<close> is text that does not parse, \<open>UnknownMessage\<close> an unknown type.\<close>

datatype incoming =
    AgentHello agent_hello
  | InventoryUpdate inventory_update
  | FullSnapshot ustr ustr json "ustr option"
  | TelemetryEvents ustr "json list"
  | JobsPoll job_kind ustr "u32 option"
  | PatchStateCheckin "ustr option" "ustr option" json
  | PatchActionResult action_result
  | PatchJobUpdate job_update
  | PatchJobProgress progress
  | MacosUpdateAccountStatus ustr json
  | PreflightProgress progress "json list"
  | StageIsoProgress progress
  | StartProgress progress
  | RemediationJobUpdate job_update
  | LinuxShellCredential shell_credential
  | DeviceDetails ustr json
  | ShellOffer shell_offer
  | ShellError ustr ustr
  | ShellOutput shell_output
  | RdpSessionsResponse ustr "rdp_session_info list"
  | SessionCapabilitiesResponse ustr rd_capabilities
  | QuicReflex ustr reflex_address
  | RemoteDesktopUnavailable ustr ustr "ustr option"
  | UnknownMessage
  | Malformed

definition decode_enrollment :: "json \<Rightarrow> (bool \<times> ustr) option" where
  "decode_enrollment j =
     Option.bind (bool_field ''enrolled'' j) (\<lambda>enrolled. Option.bind (str_field ''organizationId'' j) (\<lambda>organization_id.
       Some (enrolled, organization_id)))"

definition enroll_agent ::
  "server_env \<Rightarrow> ustr \<Rightarrow> ustr \<Rightarrow> ustr \<Rightarrow> ustr \<Rightarrow> ustr \<Rightarrow> ustr option \<Rightarrow> (app_error + ustr) task" where
  "enroll_agent env registration_token agent_id hostname os ip version =
     ttry (api_request env POST (lit ''/rmm/installers/enroll'') None
       (Some (json_obj [(''token'', JStr registration_token), (''agentId'', JStr agent_id), (''hostname'', JStr hostname),
          (''os'', JStr os), (''ip'', JStr ip), (''version'', json_opt_str version)])) True ''enroll agent'' decode_enrollment)
       (\<lambda>(enrolled, organization_id).
          if \<not> enrolled then Done (Inl (forbidden (lit ''agent enrollment was rejected'')))
          else if trim organization_id = []
          then Done (Inl (forbidden (lit ''agent enrollment did not return organization scope'')))
          else Done (Inr organization_id))"

definition upsert_device :: "server_env \<Rightarrow> agent_hello \<Rightarrow> ustr \<Rightarrow> (app_error + unit) task" where
  "upsert_device env hello organization_id =
     ttry (api_request env POST (lit ''/rmm/devices'') None
       (Some (json_obj [(''agentId'', JStr (ah_agent_id hello)), (''organizationId'', JStr organization_id),
          (''hostname'', JStr (ah_hostname hello)), (''os'', JStr (ah_os hello)), (''ip'', JStr (ah_ip hello)),
          (''version'', json_opt_str (ah_version hello))])) True ''upsert device'' decode_device_summary)
       (\<lambda>_. Done (Inr ()))"

definition upsert_inventory :: "server_env \<Rightarrow> inventory_update \<Rightarrow> ustr \<Rightarrow> (app_error + unit) task" where
  "upsert_inventory env update organization_id =
     ttry (api_request env POST (lit ''/rmm/devices/'' @ iu_agent_id update @ lit ''/inventory'') None
       (Some (json_obj [(''agentId'', JStr (iu_agent_id update)), (''organizationId'', JStr organization_id),
          (''hostname'', JStr (iu_hostname update)), (''os'', JStr (iu_os update)), (''ip'', JStr (iu_ip update)),
          (''version'', json_opt_str (iu_version update)), (''inventory'', iu_inventory update)]))
       True ''upsert inventory'' decode_device_summary)
       (\<lambda>_. Done (Inr ()))"

definition report_agent_connection_status ::
  "server_env \<Rightarrow> ustr \<Rightarrow> ustr option \<Rightarrow> string \<Rightarrow> ustr option \<Rightarrow> (app_error + unit) task" where
  "report_agent_connection_status env agent_id organization_id status version =
     clock (\<lambda>now.
     ttry (api_request env POST (lit ''/rmm/devices/'' @ agent_id @ lit ''/connection-status'') None
       (Some (json_obj [(''organizationId'', json_opt_str organization_id), (''status'', JStr (lit status)),
          (''observedAt'', JStr (se_serialized_time env now)), (''version'', json_opt_str version)]))
       True ''report agent connection status'' Some)
       (\<lambda>_. Done (Inr ())))"

definition upsert_full_snapshot :: "server_env \<Rightarrow> ustr \<Rightarrow> ustr \<Rightarrow> json \<Rightarrow> ustr option \<Rightarrow> (app_error + unit) task" where
  "upsert_full_snapshot env agent_id collected_at snapshot snapshot_request_id =
     ttry (fetch_device_scope env agent_id) (\<lambda>scope.
     let body = json_obj [(''organizationId'', JStr (ds_organization_id scope)), (''agentId'', JStr agent_id),
           (''collectedAt'', JStr collected_at), (''snapshot'', snapshot),
           (''snapshotRequestId'', json_opt_str snapshot_request_id)] in
     ttry (require_accepted ''telemetry api did not accept snapshot''
       (api_request_with_url env POST (full_snapshot_ingest_url env) None (Some body) True ''enqueue full snapshot''
          decode_accepted)) (\<lambda>_.
     if se_telemetry_producer_url env = None then Done (Inr ())
     else require_accepted ''telemetry api did not project snapshot''
       (api_request_with_url env POST (api_url env (lit ''rmm/telemetry/snapshots/upsert'')) None (Some body) True
          ''project full snapshot read model'' decode_accepted)))"

definition upsert_telemetry_events :: "server_env \<Rightarrow> ustr \<Rightarrow> json list \<Rightarrow> (app_error + unit) task" where
  "upsert_telemetry_events env agent_id events =
     ttry (fetch_device_scope env agent_id) (\<lambda>scope.
     require_accepted ''telemetry api did not accept events''
       (api_request_with_url env POST (telemetry_url env (lit ''events'')) None
          (Some (json_obj [(''organizationId'', JStr (ds_organization_id scope)), (''agentId'', JStr agent_id),
             (''events'', JArr events)])) True ''enqueue telemetry events'' decode_accepted))"

definition decode_credential_store :: "json \<Rightarrow> (bool \<times> ustr \<times> ustr) option" where
  "decode_credential_store j =
     Option.bind (bool_field ''accepted'' j) (\<lambda>accepted.
     Option.bind (str_field ''credentialId'' j) (\<lambda>credential_id.
     Option.bind (str_field ''storedAt'' j) (\<lambda>stored_at. Some (accepted, credential_id, stored_at))))"

definition store_linux_shell_credential ::
  "server_env \<Rightarrow> shell_credential \<Rightarrow> (app_error + bool \<times> ustr \<times> ustr) task" where
  "store_linux_shell_credential env c =
     api_request env POST (lit ''/rmm/devices/'' @ sc_agent_id c @ lit ''/linux-shell-credential'') None
       (Some (json_obj [(''username'', JStr (sc_username c)), (''password'', JStr (sc_password c)),
          (''credentialId'', JStr (sc_credential_id c)), (''version'', JInt (sc_version c)),
          (''generatedAt'', JStr (sc_generated_at c))])) True ''store Linux shell credential'' decode_credential_store"

text \<open>The answers to pending requests. The session or request id in the message selects the request; which agent sent it is
  not compared with the agent that was asked.\<close>

definition handle_shell_offer :: "shell_offer \<Rightarrow> app_state \<Rightarrow> app_state" where
  "handle_shell_offer offer = answer_request shell_requests (so_session_id offer) (ShellReply (Inr offer))"

definition handle_shell_error :: "ustr \<Rightarrow> ustr \<Rightarrow> app_state \<Rightarrow> app_state" where
  "handle_shell_error session_id error = answer_request shell_requests session_id (ShellReply (Inl error))"

definition handle_device_details :: "ustr \<Rightarrow> json \<Rightarrow> app_state \<Rightarrow> app_state" where
  "handle_device_details request_id details = answer_request detail_requests request_id (DetailReply details)"

definition handle_shell_output :: "shell_output \<Rightarrow> app_state \<Rightarrow> app_state" where
  "handle_shell_output result = answer_request command_requests (out_request_id result) (CommandReply result)"

definition handle_rdp_sessions_response :: "ustr \<Rightarrow> rdp_session_info list \<Rightarrow> app_state \<Rightarrow> app_state" where
  "handle_rdp_sessions_response request_id sessions = answer_request rdp_requests request_id (RdpReply sessions)"

definition handle_session_capabilities_response :: "ustr \<Rightarrow> rd_capabilities \<Rightarrow> app_state \<Rightarrow> app_state" where
  "handle_session_capabilities_response request_id caps =
     answer_request capability_requests request_id (CapabilityReply caps)"

definition handle_quic_reflex :: "ustr \<Rightarrow> reflex_address \<Rightarrow> app_state \<Rightarrow> app_state" where
  "handle_quic_reflex session_id reflex = answer_request reflex_requests session_id (ReflexReply (ReflexSuccess reflex))"

definition handle_remote_desktop_unavailable :: "ustr \<Rightarrow> ustr \<Rightarrow> ustr option \<Rightarrow> app_state \<Rightarrow> app_state" where
  "handle_remote_desktop_unavailable session_id reason message =
     answer_request reflex_requests session_id (ReflexReply (DisplayUnavailable reason message))"

text \<open>The two messages that register an agent.\<close>

definition handle_hello :: "server_env \<Rightarrow> ustr \<Rightarrow> nat \<Rightarrow> agent_hello \<Rightarrow> (app_error + ustr option) task" where
  "handle_hello env registration_token sender hello =
     (let hostname = normalize_text_value (Some (ah_hostname hello));
          os = normalize_text_value (Some (ah_os hello));
          version = normalize_text_value (ah_version hello);
          platform = normalize_agent_platform (ah_platform hello) os;
          features = (if ah_features hello = default_features \<and> platform \<noteq> Windows
                      then features_for_platform platform else ah_features hello) in
      ttry (enroll_agent env registration_token (ah_agent_id hello) (ah_hostname hello) (ah_os hello) (ah_ip hello)
              (ah_version hello)) (\<lambda>organization_id.
      ttry (upsert_device env hello organization_id) (\<lambda>_.
      tbind (report_agent_connection_status env (ah_agent_id hello) (Some organization_id) ''connected'' version) (\<lambda>_.
      change (\<lambda>_. register_agent (ah_agent_id hello)
        \<lparr>ar_sender = sender, ar_host = normalize_host (ah_ip hello), ar_local_addrs = ah_local_addrs hello,
         ar_is_admin = Some (ah_is_admin hello), ar_hostname = hostname, ar_os = os, ar_version = version,
         ar_platform = platform, ar_features = features\<rparr>)
      (Done (Inr (Some (ah_agent_id hello))))))))"

definition handle_inventory :: "server_env \<Rightarrow> ustr \<Rightarrow> nat \<Rightarrow> inventory_update \<Rightarrow> (app_error + ustr option) task" where
  "handle_inventory env registration_token sender update =
     (let hostname = normalize_text_value (Some (iu_hostname update));
          os = normalize_text_value (Some (iu_os update));
          version = normalize_text_value (iu_version update);
          platform = normalize_agent_platform UnknownPlatform os in
      ttry (enroll_agent env registration_token (iu_agent_id update) (iu_hostname update) (iu_os update) (iu_ip update)
              (iu_version update)) (\<lambda>organization_id.
      ttry (upsert_inventory env update organization_id) (\<lambda>_.
      tbind (report_agent_connection_status env (iu_agent_id update) (Some organization_id) ''connected'' version) (\<lambda>_.
      change (\<lambda>_. register_agent (iu_agent_id update)
        \<lparr>ar_sender = sender, ar_host = normalize_host (iu_ip update), ar_local_addrs = None, ar_is_admin = None,
         ar_hostname = hostname, ar_os = os, ar_version = version, ar_platform = platform,
         ar_features = features_for_platform platform\<rparr>)
      (Done (Inr (Some (iu_agent_id update))))))))"

definition handle_poll :: "server_env \<Rightarrow> nat \<Rightarrow> ustr \<Rightarrow> job_kind \<Rightarrow> ustr \<Rightarrow> u32 option \<Rightarrow> (app_error + unit) task" where
  "handle_poll env sender agent_id kind request_id limit =
     tbind (claim_jobs kind env agent_id (case limit of Some n \<Rightarrow> n | None \<Rightarrow> 1)) (\<lambda>claimed.
     send_required sender (Jobs kind request_id (case claimed of Inr jobs \<Rightarrow> jobs | Inl _ \<Rightarrow> [])))"

definition empty_patch_plan :: "server_env \<Rightarrow> instant \<Rightarrow> ustr \<Rightarrow> json" where
  "empty_patch_plan env now agent_id =
     json_obj [(''schemaVersion'', JInt 1), (''generatedAt'', JStr (se_rfc3339 env now)), (''agentId'', JStr agent_id),
       (''managedMode'', JBool False), (''nativeWindowsUpdateControl'', JBool False), (''actions'', JArr [])]"

definition handle_checkin ::
  "server_env \<Rightarrow> nat \<Rightarrow> ustr \<Rightarrow> ustr option \<Rightarrow> ustr option \<Rightarrow> json \<Rightarrow> (app_error + unit) task" where
  "handle_checkin env sender agent_id request_id observed_at patch_state =
     tbind (evaluate_patch_state_for_agent env agent_id observed_at patch_state) (\<lambda>plan.
     clock (\<lambda>now.
     send_required sender (PatchActionPlan request_id (case plan of Inr plan \<Rightarrow> plan | Inl _ \<Rightarrow> empty_patch_plan env now agent_id))))"

definition handle_credential :: "server_env \<Rightarrow> nat \<Rightarrow> shell_credential \<Rightarrow> (app_error + ustr option) task" where
  "handle_credential env sender c =
     ttry (store_linux_shell_credential env c) (\<lambda>(accepted, credential_id, stored_at).
     if \<not> accepted then Done (Inl (internal (lit ''api did not accept Linux shell credential''))) else
     ttry (send_required sender (LinuxShellCredentialStored credential_id stored_at)) (\<lambda>_.
     Done (Inr (Some (sc_agent_id c)))))"

text \<open>A report about which the server only logs a failure; before a registration it is dropped.\<close>

definition for_registered :: "ustr option \<Rightarrow> (ustr \<Rightarrow> (app_error + unit) task) \<Rightarrow> (app_error + ustr option) task" where
  "for_registered agent_id report =
     (case agent_id of
        None \<Rightarrow> Done (Inr None)
      | Some a \<Rightarrow> tbind (report a) (\<lambda>_. Done (Inr agent_id)))"

definition for_registered_send :: "ustr option \<Rightarrow> (ustr \<Rightarrow> (app_error + unit) task) \<Rightarrow> (app_error + ustr option) task" where
  "for_registered_send agent_id answer =
     (case agent_id of
        None \<Rightarrow> Done (Inr None)
      | Some a \<Rightarrow> ttry (answer a) (\<lambda>_. Done (Inr agent_id)))"

text \<open>\<open>handle_agent_message\<close> changes the variable \<open>agent_id\<close> of its socket; the result has its new value.\<close>

fun handle_agent_message :: "server_env \<Rightarrow> ustr \<Rightarrow> nat \<Rightarrow> ustr option \<Rightarrow> incoming \<Rightarrow> (app_error + ustr option) task" where
  "handle_agent_message env token sender agent_id (AgentHello hello) = handle_hello env token sender hello"
| "handle_agent_message env token sender agent_id (InventoryUpdate update) = handle_inventory env token sender update"
| "handle_agent_message env token sender agent_id (FullSnapshot claimed collected_at snapshot request_id) =
     ttry (upsert_full_snapshot env claimed collected_at snapshot request_id) (\<lambda>_. Done (Inr (Some claimed)))"
| "handle_agent_message env token sender agent_id (TelemetryEvents claimed events) =
     ttry (upsert_telemetry_events env claimed events) (\<lambda>_. Done (Inr (Some claimed)))"
| "handle_agent_message env token sender agent_id (JobsPoll kind request_id limit) =
     for_registered_send agent_id (\<lambda>a. handle_poll env sender a kind request_id limit)"
| "handle_agent_message env token sender agent_id (PatchStateCheckin request_id observed_at patch_state) =
     for_registered_send agent_id (\<lambda>a. handle_checkin env sender a request_id observed_at patch_state)"
| "handle_agent_message env token sender agent_id (PatchActionResult result) =
     for_registered agent_id (\<lambda>a. report_patch_action_result_for_agent env a result)"
| "handle_agent_message env token sender agent_id (PatchJobUpdate update) =
     for_registered agent_id (\<lambda>a. report_patch_job_update_for_agent env a update)"
| "handle_agent_message env token sender agent_id (PatchJobProgress p) =
     for_registered agent_id (\<lambda>a. publish_patch_progress_for_agent env a p)"
| "handle_agent_message env token sender agent_id (MacosUpdateAccountStatus claimed status) =
     for_registered agent_id (\<lambda>a. report_macos_update_account_status_for_agent env a claimed status)"
| "handle_agent_message env token sender agent_id (PreflightProgress p checks) =
     for_registered agent_id (\<lambda>a. publish_feature_upgrade_preflight_progress_for_agent env a p checks)"
| "handle_agent_message env token sender agent_id (StageIsoProgress p) =
     for_registered agent_id (\<lambda>a. publish_feature_upgrade_stage_iso_progress_for_agent env a p)"
| "handle_agent_message env token sender agent_id (StartProgress p) =
     for_registered agent_id (\<lambda>a. publish_feature_upgrade_start_progress_for_agent env a p)"
| "handle_agent_message env token sender agent_id (RemediationJobUpdate update) =
     for_registered agent_id (\<lambda>a. publish_remediation_status_for_agent env a update)"
| "handle_agent_message env token sender agent_id (LinuxShellCredential c) = handle_credential env sender c"
| "handle_agent_message env token sender agent_id (DeviceDetails request_id details) =
     change (\<lambda>_. handle_device_details request_id details) (Done (Inr agent_id))"
| "handle_agent_message env token sender agent_id (ShellOffer offer) =
     change (\<lambda>_. handle_shell_offer offer) (Done (Inr agent_id))"
| "handle_agent_message env token sender agent_id (ShellError session_id error) =
     change (\<lambda>_. handle_shell_error session_id error) (Done (Inr agent_id))"
| "handle_agent_message env token sender agent_id (ShellOutput result) =
     change (\<lambda>_. handle_shell_output result) (Done (Inr agent_id))"
| "handle_agent_message env token sender agent_id (RdpSessionsResponse request_id sessions) =
     change (\<lambda>_. handle_rdp_sessions_response request_id sessions) (Done (Inr agent_id))"
| "handle_agent_message env token sender agent_id (SessionCapabilitiesResponse request_id caps) =
     change (\<lambda>_. handle_session_capabilities_response request_id caps) (Done (Inr agent_id))"
| "handle_agent_message env token sender agent_id (QuicReflex session_id reflex) =
     change (\<lambda>_. handle_quic_reflex session_id reflex) (Done (Inr agent_id))"
| "handle_agent_message env token sender agent_id (RemoteDesktopUnavailable session_id reason message) =
     change (\<lambda>_. handle_remote_desktop_unavailable session_id reason message) (Done (Inr agent_id))"
| "handle_agent_message env token sender agent_id UnknownMessage = Done (Inr agent_id)"
| "handle_agent_message env token sender agent_id Malformed = Done (Inl (internal (lit ''parse message envelope'')))"

section \<open>The socket of an agent\<close>

text \<open>What happens on the socket, in order: a ping that is due, a text or binary frame, a frame without meaning, the end. A
  binary frame that is not UTF-8 is \<open>Ignored\<close>.\<close>

datatype frame = PingDue | TextFrame incoming | Ignored | CloseFrame

fun handle_frames :: "server_env \<Rightarrow> ustr \<Rightarrow> nat \<Rightarrow> frame list \<Rightarrow> ustr option \<Rightarrow> ustr option task" where
  "handle_frames env token sender [] agent_id = Done agent_id"
| "handle_frames env token sender (PingDue # rest) agent_id =
     SendTo sender Ping (\<lambda>sent. if sent then handle_frames env token sender rest agent_id else Done agent_id)"
| "handle_frames env token sender (TextFrame m # rest) agent_id =
     tbind (handle_agent_message env token sender agent_id m) (\<lambda>r. case r of
       Inl _ \<Rightarrow> Done agent_id
     | Inr agent_id' \<Rightarrow> handle_frames env token sender rest agent_id')"
| "handle_frames env token sender (Ignored # rest) agent_id = handle_frames env token sender rest agent_id"
| "handle_frames env token sender (CloseFrame # rest) agent_id = Done agent_id"

text \<open>The sessions of an agent that is gone, one table after the other: looked up under a read lock, removed under a write
  lock.\<close>

definition sessions_of_agent :: "'a viewer_session_scheme table \<Rightarrow> ustr \<Rightarrow> app_state \<Rightarrow> ustr list" where
  "sessions_of_agent T agent_id s = map fst (filter (\<lambda>(_, session). vs_agent_id session = agent_id) (tb_get T s))"

definition drop_sessions :: "'a viewer_session_scheme table \<Rightarrow> ustr \<Rightarrow> 'b task \<Rightarrow> 'b task" where
  "drop_sessions T agent_id k =
     look (sessions_of_agent T agent_id) (\<lambda>ids. change (\<lambda>_ s. fold (remove_entry T) ids s) k)"

definition handle_socket :: "server_env \<Rightarrow> ustr \<Rightarrow> nat \<Rightarrow> frame list \<Rightarrow> unit task" where
  "handle_socket env token sender frames =
     tbind (handle_frames env token sender frames None) (\<lambda>agent. case agent of
       None \<Rightarrow> Done ()
     | Some agent_id \<Rightarrow>
         disconnect_unless_replaced agent_id sender (\<lambda>owned. if \<not> owned then Done () else
         tbind (report_agent_connection_status env agent_id None ''disconnected'' None) (\<lambda>_.
         drop_sessions shells agent_id
         (drop_sessions transfers agent_id
         (drop_sessions desktops agent_id
         (drop_sessions registries agent_id
         (drop_sessions chats agent_id (Done ()))))))))"

definition agent_ws :: "server_env \<Rightarrow> headers \<Rightarrow> nat \<Rightarrow> frame list \<Rightarrow> (app_error + unit) task" where
  "agent_ws env hs sender frames =
     (case extract_agent_registration_token hs of
        None \<Rightarrow> Done (Inl (unauthorized ''unauthorized''))
      | Some token \<Rightarrow> tbind (handle_socket env token sender frames) (\<lambda>_. Done (Inr ())))"

section \<open>The reaper\<close>

text \<open>One pass of the loop in \<open>spawn_session_reaper\<close>. The time is read once, at its start; the heartbeat of a chat is
  compared with the time under the lock.\<close>

definition reap_pending :: "instant \<Rightarrow> pending table \<Rightarrow> 'a task \<Rightarrow> 'a task" where
  "reap_pending now T k = change (\<lambda>_. tb_update T (hm_retain (\<lambda>_ p. \<not> is_stale (pd_created_at p) pending_request_ttl now))) k"

definition reap_sessions :: "instant \<Rightarrow> 'b viewer_session_scheme table \<Rightarrow> 'a task \<Rightarrow> 'a task" where
  "reap_sessions now T k = change (\<lambda>_. tb_update T (hm_retain (\<lambda>_ session.
     \<not> is_unattached_session_stale (vs_created_at session) (vs_attached_at session) now))) k"

definition stale_chat :: "instant \<Rightarrow> instant \<Rightarrow> chat_session \<Rightarrow> bool" where
  "stale_chat now locked_at chat \<longleftrightarrow>
     is_unattached_session_stale (vs_created_at chat) (vs_attached_at chat) now
     \<or> (vs_attached_at chat \<noteq> None
        \<and> (case vs_viewer_last_heartbeat_at chat of Some t \<Rightarrow> locked_at - t > viewer_heartbeat_ttl | None \<Rightarrow> False))"

definition reap_chats :: "instant \<Rightarrow> ((ustr \<times> ustr) list \<Rightarrow> 'a task) \<Rightarrow> 'a task" where
  "reap_chats now k =
     Locked
       (\<lambda>locked_at. tb_update chats (hm_retain (\<lambda>_ chat. \<not> stale_chat now locked_at chat)))
       (\<lambda>locked_at s. k (map (\<lambda>(session_id, chat). (vs_agent_id chat, session_id))
          (filter (\<lambda>(_, chat). stale_chat now locked_at chat) (tb_get chats s))))"

definition session_reaper_pass :: "unit task" where
  "session_reaper_pass =
     clock (\<lambda>now.
     reap_pending now shell_requests
     (reap_pending now detail_requests
     (reap_pending now command_requests
     (reap_pending now rdp_requests
     (reap_pending now capability_requests
     (reap_pending now reflex_requests
     (reap_sessions now desktops
     (reap_sessions now transfers
     (reap_sessions now registries
     (reap_chats now (\<lambda>stale.
      tbind (notify_all stale ''chat'') (\<lambda>_.
      reap_sessions now shells (Done ())))))))))))))"

end
