(* ===== verification/Server_Run.thy ===== *)
theory Server_Run
  imports Server_Agents
begin

text \<open>
  The running control server: the routes of \<open>main\<close>, the interleaving of all requests, agent sockets and reaper passes as a
  step relation, and a calculus to prove what holds in every execution.

  A \<open>world\<close> is the state, the clock, the tasks that are running, and the history. The history has one event for every
  critical section (who entered it, when, the state found and the state left), for every identifier that was generated,
  every message to an agent, every exchange with the API backend, and every answer. Nothing is assumed about the order in
  which tasks run, about what the API backend answers, or about the identifiers; a random key has 32 bytes.
\<close>

section \<open>Requests and answers\<close>

datatype request =
    ConnectDevice headers ustr
  | ConnectFileTransfer headers ustr
  | ConnectRegistry headers ustr
  | ConnectShell headers ustr shell_query
  | AiDesktop headers ustr ai_connect_request
  | AiChatApproval headers ustr ai_connect_request
  | AiShell headers ustr ai_connect_request
  | Cleanup headers cleanup_request
  | OpenDesktopFromShell headers ustr ustr
  | OpenFileTransferFromShell headers ustr ustr
  | OpenRegistryFromShell headers ustr ustr
  | OpenFileTransferFromSession headers ustr ustr
  | OpenRegistryFromSession headers ustr ustr
  | OpenChatFromSession headers ustr ustr
  | Connected session_kind ustr ustr
  | Heartbeat session_kind ustr ustr
  | Reflex session_kind ustr ustr reflex_address
  | Relay session_kind ustr ustr
  | Capabilities session_kind ustr ustr
  | EndSession session_kind ustr ustr
  | ShellCredential ustr "ustr option"
  | SessionDeviceInfo ustr ustr "ustr option"
  | ViewerStatus headers ustr
  | ViewerConnections headers "ustr option"
  | ExecuteScript headers ustr ustr
  | FetchDeviceDetails ustr
  | RequestSnapshot ustr
  | ListRdpSessions ustr
  | NotifyPatchJobsForDevice headers ustr
  | NotifyJobs job_kind headers notify_request
  | EnqueueRemediation headers "remediation_job list"
  | ListDevices
  | BulkUpdateCustomer
  | BulkDeleteDevices
  | GetDevice ustr
  | DeleteDevice ustr

datatype response =
    ConnectTo connect_response
  | Acknowledged
  | CleanedUp bool
  | ConnectionData connection_data
  | Credential linux_shell_credential
  | DeviceInfo device_info
  | Device device_summary
  | Status session_status
  | Connections "session_snapshot list"
  | ScriptResult ustr "int option"
  | SnapshotRequested ustr
  | RdpSessions "rdp_session_info list"
  | Notified nat nat
  | Enqueued nat nat nat

definition respond :: "('a \<Rightarrow> response) \<Rightarrow> (app_error + 'a) task \<Rightarrow> (app_error + response) task" where
  "respond f t = tbind t (\<lambda>r. Done (rmap f r))"

definition serve_presence :: "session_kind \<Rightarrow> ustr \<Rightarrow> ustr \<Rightarrow> (app_error + unit) task" where
  "serve_presence kind = (case kind of RemoteDesktop \<Rightarrow> viewer_connected | Shell \<Rightarrow> shell_viewer_connected
     | FileTransfer \<Rightarrow> file_transfer_viewer_connected | RemoteRegistry \<Rightarrow> registry_viewer_connected
     | Chat \<Rightarrow> chat_viewer_connected)"

definition serve_heartbeat :: "session_kind \<Rightarrow> ustr \<Rightarrow> ustr \<Rightarrow> (app_error + unit) task" where
  "serve_heartbeat kind = (case kind of RemoteDesktop \<Rightarrow> viewer_heartbeat | Shell \<Rightarrow> shell_viewer_heartbeat
     | FileTransfer \<Rightarrow> file_transfer_viewer_heartbeat | RemoteRegistry \<Rightarrow> registry_viewer_heartbeat
     | Chat \<Rightarrow> chat_viewer_heartbeat)"

definition serve_reflex :: "session_kind \<Rightarrow> ustr \<Rightarrow> ustr \<Rightarrow> reflex_address \<Rightarrow> (app_error + unit) task" where
  "serve_reflex kind = (case kind of RemoteDesktop \<Rightarrow> viewer_reflex | Shell \<Rightarrow> shell_viewer_reflex
     | FileTransfer \<Rightarrow> file_transfer_viewer_reflex | RemoteRegistry \<Rightarrow> registry_viewer_reflex
     | Chat \<Rightarrow> chat_viewer_reflex)"

definition serve_relay :: "server_env \<Rightarrow> session_kind \<Rightarrow> ustr \<Rightarrow> ustr \<Rightarrow> (app_error + unit) task" where
  "serve_relay env kind = (case kind of RemoteDesktop \<Rightarrow> request_relay env | Shell \<Rightarrow> request_shell_relay env
     | FileTransfer \<Rightarrow> request_file_transfer_relay env | RemoteRegistry \<Rightarrow> request_registry_relay env
     | Chat \<Rightarrow> request_chat_relay env)"

definition serve_capabilities :: "server_env \<Rightarrow> session_kind \<Rightarrow> ustr \<Rightarrow> ustr \<Rightarrow> (app_error + connection_data) task" where
  "serve_capabilities env kind = (case kind of RemoteDesktop \<Rightarrow> get_session_capabilities env
     | Shell \<Rightarrow> get_shell_capabilities env | FileTransfer \<Rightarrow> get_file_transfer_capabilities env
     | RemoteRegistry \<Rightarrow> get_registry_capabilities env | Chat \<Rightarrow> get_chat_capabilities env)"

definition serve_end :: "server_env \<Rightarrow> session_kind \<Rightarrow> ustr \<Rightarrow> ustr \<Rightarrow> (app_error + unit) task" where
  "serve_end env kind = (case kind of RemoteDesktop \<Rightarrow> end_remote_desktop_session env
     | Shell \<Rightarrow> end_shell_session env | FileTransfer \<Rightarrow> end_file_transfer_session env
     | RemoteRegistry \<Rightarrow> end_remote_registry_session env | Chat \<Rightarrow> end_chat_session env)"

definition serve_notify :: "job_kind \<Rightarrow> server_env \<Rightarrow> headers \<Rightarrow> notify_request \<Rightarrow> (app_error + nat \<times> nat) task" where
  "serve_notify kind = (case kind of PatchJob \<Rightarrow> notify_patch_jobs_internal
     | PreflightJob \<Rightarrow> notify_feature_upgrade_preflight_internal
     | StageIsoJob \<Rightarrow> notify_feature_upgrade_stage_iso_internal
     | StartJob \<Rightarrow> notify_feature_upgrade_start_internal
     | RemediationJob \<Rightarrow> (\<lambda>_ _ _. Done (Inl (not_found ''''))))"

fun serve :: "server_env \<Rightarrow> request \<Rightarrow> (app_error + response) task" where
  "serve env (ConnectDevice hs a) = respond ConnectTo (connect_device env hs a)"
| "serve env (ConnectFileTransfer hs a) = respond ConnectTo (connect_file_transfer env hs a)"
| "serve env (ConnectRegistry hs a) = respond ConnectTo (connect_registry env hs a)"
| "serve env (ConnectShell hs a q) = respond ConnectTo (connect_shell env hs a q)"
| "serve env (AiDesktop hs a body) = respond ConnectTo (connect_ai_runner_desktop_session_internal env hs a body)"
| "serve env (AiChatApproval hs a body) = respond ConnectTo (connect_ai_runner_chat_approval_internal env hs a body)"
| "serve env (AiShell hs a body) = respond ConnectTo (connect_ai_runner_shell_session_internal env hs a body)"
| "serve env (Cleanup hs body) = respond CleanedUp (cleanup_ai_runner_session_internal env hs body)"
| "serve env (OpenDesktopFromShell hs sid token) = respond ConnectTo (open_desktop_from_shell env hs sid token)"
| "serve env (OpenFileTransferFromShell hs sid token) = respond ConnectTo (open_file_transfer_from_shell env hs sid token)"
| "serve env (OpenRegistryFromShell hs sid token) = respond ConnectTo (open_registry_from_shell env hs sid token)"
| "serve env (OpenFileTransferFromSession hs sid token) = respond ConnectTo (open_file_transfer_from_session env hs sid token)"
| "serve env (OpenRegistryFromSession hs sid token) = respond ConnectTo (open_registry_from_session env hs sid token)"
| "serve env (OpenChatFromSession hs sid token) = respond ConnectTo (open_chat_from_session env hs sid token)"
| "serve env (Connected kind sid token) = respond (\<lambda>_. Acknowledged) (serve_presence kind sid token)"
| "serve env (Heartbeat kind sid token) = respond (\<lambda>_. Acknowledged) (serve_heartbeat kind sid token)"
| "serve env (Reflex kind sid token reflex) = respond (\<lambda>_. Acknowledged) (serve_reflex kind sid token reflex)"
| "serve env (Relay kind sid token) = respond (\<lambda>_. Acknowledged) (serve_relay env kind sid token)"
| "serve env (Capabilities kind sid token) = respond ConnectionData (serve_capabilities env kind sid token)"
| "serve env (EndSession kind sid token) = respond (\<lambda>_. Acknowledged) (serve_end env kind sid token)"
| "serve env (ShellCredential sid token) = respond Credential (get_linux_shell_credential_for_shell_session env sid token)"
| "serve env (SessionDeviceInfo sid token refresh) = respond DeviceInfo (get_session_device_info env sid token refresh)"
| "serve env (ViewerStatus hs sid) = respond Status (get_viewer_session_status env hs sid)"
| "serve env (ViewerConnections hs agent) = respond Connections (list_viewer_connections env hs agent)"
| "serve env (ExecuteScript hs a script) = respond (\<lambda>(text, code). ScriptResult text code) (execute_script env hs a script)"
| "serve env (FetchDeviceDetails a) = respond Device (fetch_device_details env a)"
| "serve env (RequestSnapshot a) = respond SnapshotRequested (request_snapshot env a)"
| "serve env (ListRdpSessions a) = respond RdpSessions (list_rdp_sessions a)"
| "serve env (NotifyPatchJobsForDevice hs a) = respond (\<lambda>(m, n). Notified m n) (notify_patch_jobs_for_device env hs a)"
| "serve env (NotifyJobs kind hs body) = respond (\<lambda>(m, n). Notified m n) (serve_notify kind env hs body)"
| "serve env (EnqueueRemediation hs jobs) =
     respond (\<lambda>(q, m, n). Enqueued q m n) (enqueue_remediation_commands_internal env hs jobs)"
| "serve env ListDevices = respond (\<lambda>_. Acknowledged) list_devices"
| "serve env BulkUpdateCustomer = respond (\<lambda>_. Acknowledged) bulk_update_customer"
| "serve env BulkDeleteDevices = respond (\<lambda>_. Acknowledged) bulk_delete_devices"
| "serve env (GetDevice a) = respond (\<lambda>_. Acknowledged) (get_device a)"
| "serve env (DeleteDevice a) = respond (\<lambda>_. Acknowledged) (delete_device a)"

section \<open>Worlds and steps\<close>

text \<open>What runs as a task: a request, the socket of an agent with its channel, a pass of the reaper.\<close>

datatype job = Serve request | Socket headers nat "frame list" | Reap

fun program :: "server_env \<Rightarrow> job \<Rightarrow> (app_error + response) task" where
  "program env (Serve r) = serve env r"
| "program env (Socket hs sender frames) = respond (\<lambda>_. Acknowledged) (agent_ws env hs sender frames)"
| "program env Reap = tbind session_reaper_pass (\<lambda>_. Done (Inr Acknowledged))"

datatype event =
    Section job instant app_state app_state
  | Minted job ustr
  | Delivered job nat agent_message bool
  | Exchanged job http_request http_outcome
  | Answered job "app_error + response"

record world =
  wd_state :: app_state
  wd_clock :: instant
  wd_tasks :: "(job \<times> (app_error + response) task) list"
  wd_log :: "event list"

definition initial_world :: world where
  "initial_world = \<lparr>wd_state = initial_state, wd_clock = 0, wd_tasks = [], wd_log = []\<rparr>"

definition proceed :: "nat \<Rightarrow> job \<Rightarrow> (app_error + response) task \<Rightarrow> event \<Rightarrow> world \<Rightarrow> world" where
  "proceed i j t e w = w\<lparr>wd_tasks := (wd_tasks w)[i := (j, t)], wd_log := e # wd_log w\<rparr>"

definition running :: "world \<Rightarrow> nat \<Rightarrow> job \<Rightarrow> (app_error + response) task \<Rightarrow> bool" where
  "running w i j t \<longleftrightarrow> i < length (wd_tasks w) \<and> wd_tasks w ! i = (j, t)"

inductive step :: "server_env \<Rightarrow> world \<Rightarrow> world \<Rightarrow> bool" for env where
  arrive: "step env w (w\<lparr>wd_tasks := wd_tasks w @ [(j, program env j)]\<rparr>)"
| critical: "running w i j (Locked u k) \<Longrightarrow> wd_clock w \<le> now \<Longrightarrow>
    step env w (proceed i j (k now (wd_state w)) (Section j now (wd_state w) (u now (wd_state w)))
      (w\<lparr>wd_clock := now, wd_state := u now (wd_state w)\<rparr>))"
| uuid: "running w i j (NewUuid k) \<Longrightarrow> step env w (proceed i j (k x) (Minted j x) w)"
| certificate: "running w i j (SelfSigned k) \<Longrightarrow> step env w (w\<lparr>wd_tasks := (wd_tasks w)[i := (j, k c)]\<rparr>)"
| random_key: "running w i j (RandomKey k) \<Longrightarrow> length key = 32 \<Longrightarrow> step env w (w\<lparr>wd_tasks := (wd_tasks w)[i := (j, k key)]\<rparr>)"
| send: "running w i j (SendTo c m k) \<Longrightarrow> step env w (proceed i j (k ok) (Delivered j c m ok) w)"
| exchange: "running w i j (Http q k) \<Longrightarrow> step env w (proceed i j (k r) (Exchanged j q r) w)"
| answer: "running w i j (Done r) \<Longrightarrow>
    step env w (w\<lparr>wd_tasks := take i (wd_tasks w) @ drop (Suc i) (wd_tasks w), wd_log := Answered j r # wd_log w\<rparr>)"

inductive running_server :: "server_env \<Rightarrow> world \<Rightarrow> bool" for env where
  start: "running_server env initial_world"
| go: "running_server env w \<Longrightarrow> step env w w' \<Longrightarrow> running_server env w'"

inductive_cases stepE: "step env w w'"

section \<open>A calculus for tasks\<close>

text \<open>\<open>meets j I G S Q t L\<close>: run from a history that contains \<open>L\<close>, interleaved with anything that keeps \<open>I\<close>, the task \<open>t\<close> of
  job \<open>j\<close> keeps the invariant \<open>I\<close> in each of its sections, makes only changes of which \<open>G\<close> holds, sends only messages of which
  \<open>S\<close> holds, and ends with a result of which \<open>Q\<close> holds. All four may refer to the history, which only grows.\<close>

type_synonym invariant = "event set \<Rightarrow> app_state \<Rightarrow> bool"
type_synonym change_rule = "event set \<Rightarrow> job \<Rightarrow> instant \<Rightarrow> app_state \<Rightarrow> app_state \<Rightarrow> bool"
type_synonym send_rule = "event set \<Rightarrow> job \<Rightarrow> nat \<Rightarrow> agent_message \<Rightarrow> bool"

primrec meets ::
  "job \<Rightarrow> invariant \<Rightarrow> change_rule \<Rightarrow> send_rule \<Rightarrow> (event set \<Rightarrow> 'a \<Rightarrow> bool) \<Rightarrow> 'a task \<Rightarrow> event set \<Rightarrow> bool" where
  "meets j I G S Q (Done a) = (\<lambda>L. Q L a)"
| "meets j I G S Q (Locked u k) = (\<lambda>L. \<forall>now s L'. insert (Section j now s (u now s)) L \<subseteq> L' \<longrightarrow> I L' s \<longrightarrow>
     I L' (u now s) \<and> G L' j now s (u now s) \<and> meets j I G S Q (k now s) L')"
| "meets j I G S Q (NewUuid k) = (\<lambda>L. \<forall>x. meets j I G S Q (k x) (insert (Minted j x) L))"
| "meets j I G S Q (SelfSigned k) = (\<lambda>L. \<forall>c. meets j I G S Q (k c) L)"
| "meets j I G S Q (RandomKey k) = (\<lambda>L. \<forall>key. length key = 32 \<longrightarrow> meets j I G S Q (k key) L)"
| "meets j I G S Q (SendTo c m k) = (\<lambda>L. S L j c m \<and> (\<forall>ok. meets j I G S Q (k ok) (insert (Delivered j c m ok) L)))"
| "meets j I G S Q (Http q k) = (\<lambda>L. \<forall>r. meets j I G S Q (k r) (insert (Exchanged j q r) L))"

definition history_mono :: "(event set \<Rightarrow> 'a \<Rightarrow> bool) \<Rightarrow> bool" where
  "history_mono P \<longleftrightarrow> (\<forall>L L' x. L \<subseteq> L' \<longrightarrow> P L x \<longrightarrow> P L' x)"

text \<open>Strengthening the history, and weakening the postcondition.\<close>

lemma meets_weaken:
  assumes "meets j I G S Q t L" and "L \<subseteq> L2"
    and Q: "\<And>L1 L' a. L1 \<subseteq> L' \<Longrightarrow> L2 \<subseteq> L' \<Longrightarrow> Q L1 a \<Longrightarrow> Q' L' a"
    and S: "\<And>L L' j c m. L \<subseteq> L' \<Longrightarrow> S L j c m \<Longrightarrow> S L' j c m"
  shows "meets j I G S Q' t L2"
  using assms(1,2) Q
proof (induction t arbitrary: L L2)
  case (Done a)
  then show ?case by auto
next
  case (Locked u k)
  show ?case
  proof (clarsimp, intro conjI)
    fix now s L'
    assume L': "Section j now s (u now s) \<in> L'" "L2 \<subseteq> L'" "I L' s"
    have now: "insert (Section j now s (u now s)) L \<subseteq> L'" using L' Locked.prems by auto
    with Locked.prems(1) L'(3) have
      k: "I L' (u now s)" "G L' j now s (u now s)" "meets j I G S Q (k now s) L'" by auto
    show "I L' (u now s)" "G L' j now s (u now s)" using k by auto
    show "meets j I G S Q' (k now s) L'"
    proof (rule Locked.IH [OF _ _ k(3)])
      show "\<And>L1 L'' a. L1 \<subseteq> L'' \<Longrightarrow> L' \<subseteq> L'' \<Longrightarrow> Q L1 a \<Longrightarrow> Q' L'' a"
        using Locked.prems(3) L'(2) by (meson order_trans)
    qed auto
  qed
next
  case (NewUuid k)
  show ?case
  proof clarsimp
    fix x
    show "meets j I G S Q' (k x) (insert (Minted j x) L2)"
    proof (rule NewUuid.IH)
      show "meets j I G S Q (k x) (insert (Minted j x) L)" using NewUuid.prems(1) by simp
    qed (use NewUuid.prems in auto)
  qed
next
  case (SelfSigned k)
  show ?case
  proof clarsimp
    fix x
    show "meets j I G S Q' (k x) L2"
      by (rule SelfSigned.IH [OF _ _ SelfSigned.prems(2)]) (use SelfSigned.prems in auto)
  qed
next
  case (RandomKey k)
  show ?case
  proof clarsimp
    fix x :: bytes
    assume "length x = 32"
    then show "meets j I G S Q' (k x) L2"
      by (intro RandomKey.IH [OF _ _ RandomKey.prems(2)]) (use RandomKey.prems in auto)
  qed
next
  case (SendTo c m k)
  show ?case
  proof (clarsimp, intro conjI allI)
    show "S L2 j c m" using SendTo.prems(1,2) S by auto
    fix x
    show "meets j I G S Q' (k x) (insert (Delivered j c m x) L2)"
    proof (rule SendTo.IH)
      show "meets j I G S Q (k x) (insert (Delivered j c m x) L)" using SendTo.prems(1) by simp
    qed (use SendTo.prems in auto)
  qed
next
  case (Http q k)
  show ?case
  proof clarsimp
    fix x
    show "meets j I G S Q' (k x) (insert (Exchanged j q x) L2)"
    proof (rule Http.IH)
      show "meets j I G S Q (k x) (insert (Exchanged j q x) L)" using Http.prems(1) by simp
    qed (use Http.prems in auto)
  qed
qed

lemma meets_tbind: "meets j I G S Q (tbind t f) L \<longleftrightarrow> meets j I G S (\<lambda>L a. meets j I G S Q (f a) L) t L"
proof (induction t arbitrary: L)
  case (Locked u k)
  have "meets j I G S Q (tbind (k now s) f) L = meets j I G S (\<lambda>L a. meets j I G S Q (f a) L) (k now s) L" for now s L
    by (rule Locked.IH) auto
  then show ?case by simp
qed simp_all

lemma meets_Locked_D:
  assumes "meets j I G S Q (Locked u k) L" and "insert (Section j now s (u now s)) L \<subseteq> L'" and "I L' s"
  shows "I L' (u now s)" and "G L' j now s (u now s)" and "meets j I G S Q (k now s) L'"
  using assms by (simp_all del: insert_subset)

lemma meets_ttry:
  "meets j I G S Q (ttry t f) L \<longleftrightarrow>
   meets j I G S (\<lambda>L r. case r of Inl e \<Rightarrow> Q L (Inl e) | Inr a \<Rightarrow> meets j I G S Q (f a) L) t L"
  unfolding ttry_def meets_tbind
  by (rule arg_cong [where f = "\<lambda>Q. meets j I G S Q t L"]) (auto simp: fun_eq_iff split: sum.splits)

section \<open>Contracts\<close>

text \<open>A contract of the server: an invariant, a rule for changes, one for messages and one for answers, such that every job
  meets it. Then they hold in every execution.\<close>

locale server_contract =
  fixes env :: server_env and I :: invariant and G :: change_rule and S :: send_rule
    and Q :: "job \<Rightarrow> event set \<Rightarrow> app_error + response \<Rightarrow> bool"
  assumes invariant_grows: "L \<subseteq> L' \<Longrightarrow> I L s \<Longrightarrow> I L' s"
    and change_grows: "L \<subseteq> L' \<Longrightarrow> G L j now s s' \<Longrightarrow> G L' j now s s'"
    and send_grows: "L \<subseteq> L' \<Longrightarrow> S L j c m \<Longrightarrow> S L' j c m"
    and answer_grows: "L \<subseteq> L' \<Longrightarrow> Q j L r \<Longrightarrow> Q j L' r"
    and initially: "I {} initial_state"
    and programs: "meets j I G S (Q j) (program env j) {}"
begin

fun event_ok :: "event set \<Rightarrow> event \<Rightarrow> bool" where
  "event_ok L (Section j now s s') = G L j now s s'"
| "event_ok L (Delivered j c m ok) = S L j c m"
| "event_ok L (Answered j r) = Q j L r"
| "event_ok L _ = True"

definition world_ok :: "world \<Rightarrow> bool" where
  "world_ok w \<longleftrightarrow> I (set (wd_log w)) (wd_state w)
     \<and> (\<forall>(j, t) \<in> set (wd_tasks w). meets j I G S (Q j) t (set (wd_log w)))
     \<and> (\<forall>e \<in> set (wd_log w). event_ok (set (wd_log w)) e)
     \<and> (\<forall>j now s s'. Section j now s s' \<in> set (wd_log w) \<longrightarrow> now \<le> wd_clock w)"

lemma event_ok_grows: "L \<subseteq> L' \<Longrightarrow> event_ok L e \<Longrightarrow> event_ok L' e"
  by (cases e) (auto intro: change_grows send_grows answer_grows)

lemma meets_grows: "meets j I G S (Q j) t L \<Longrightarrow> L \<subseteq> L' \<Longrightarrow> meets j I G S (Q j) t L'"
  by (erule meets_weaken) (auto intro: answer_grows send_grows)

lemma running_meets: "world_ok w \<Longrightarrow> running w i j t \<Longrightarrow> meets j I G S (Q j) t (set (wd_log w))"
  unfolding world_ok_def running_def by (metis (mono_tags, lifting) case_prodD nth_mem)

lemma others_meet:
  assumes "world_ok w" and "(j', t') \<in> set ((wd_tasks w)[i := (j, t)])"
    and "meets j I G S (Q j) t L" and "set (wd_log w) \<subseteq> L"
  shows "meets j' I G S (Q j') t' L"
proof -
  have "(j', t') = (j, t) \<or> (j', t') \<in> set (wd_tasks w)"
    using assms(2) set_update_subset_insert by fastforce
  then show ?thesis using assms(1,3,4) unfolding world_ok_def by (auto intro: meets_grows)
qed

text \<open>A step of a task that adds one event and may change the state.\<close>

lemma proceed_ok:
  assumes w: "world_ok w" and I: "I (insert e (set (wd_log w))) (wd_state w')"
    and t: "meets j I G S (Q j) t (insert e (set (wd_log w)))" and e: "event_ok (insert e (set (wd_log w))) e"
    and eq: "wd_tasks w' = wd_tasks w" "wd_log w' = wd_log w" "wd_clock w \<le> wd_clock w'"
    and now: "\<And>j now s s'. e = Section j now s s' \<Longrightarrow> now \<le> wd_clock w'"
  shows "world_ok (proceed i j t e w')"
proof -
  have "set (wd_log w) \<subseteq> insert e (set (wd_log w))" by auto
  note grows = this
  have tasks: "meets j' I G S (Q j') t' (insert e (set (wd_log w)))"
    if "(j', t') \<in> set ((wd_tasks w)[i := (j, t)])" for j' t'
    using others_meet [OF w that t grows] .
  have events: "event_ok (insert e (set (wd_log w))) e'" if "e' \<in> insert e (set (wd_log w))" for e'
    using that w e event_ok_grows [OF grows] unfolding world_ok_def by auto
  have times: "now \<le> wd_clock w'" if "Section j now s s' \<in> insert e (set (wd_log w))" for j now s s'
  proof (cases "e = Section j now s s'")
    case False
    with that have "now \<le> wd_clock w" using w unfolding world_ok_def by blast
    with eq(3) show ?thesis by simp
  qed (use now in blast)
  show ?thesis
    unfolding world_ok_def proceed_def using I tasks events times eq by auto
qed

lemma step_ok: assumes "step env w w'" and w: "world_ok w" shows "world_ok w'"
  using assms(1)
proof cases
  case (arrive j)
  then show ?thesis
    using w programs meets_grows [OF programs] unfolding world_ok_def by auto
next
  case (critical i j u k now)
  let ?e = "Section j now (wd_state w) (u now (wd_state w))"
  have "meets j I G S (Q j) (Locked u k) (set (wd_log w))" using running_meets [OF w critical(2)] .
  moreover have "I (insert ?e (set (wd_log w))) (wd_state w)"
    using w invariant_grows unfolding world_ok_def by blast
  note meets_Locked_D [OF calculation(1) order_refl this]
  then show ?thesis unfolding critical(1) using critical(3) by (intro proceed_ok [OF w]) auto
next
  case (uuid i j k x)
  have "meets j I G S (Q j) (k x) (insert (Minted j x) (set (wd_log w)))" using running_meets [OF w uuid(2)] by simp
  moreover have "I (insert (Minted j x) (set (wd_log w))) (wd_state w)"
    using w invariant_grows unfolding world_ok_def by blast
  ultimately show ?thesis unfolding uuid(1) by (intro proceed_ok [OF w]) auto
next
  case (certificate i j k c)
  have "meets j I G S (Q j) (k c) (set (wd_log w))" using running_meets [OF w certificate(2)] by simp
  from others_meet [OF w _ this order_refl] show ?thesis using w certificate(1) unfolding world_ok_def by auto
next
  case (random_key i j k key)
  have "meets j I G S (Q j) (k key) (set (wd_log w))" using running_meets [OF w random_key(2)] random_key(3) by simp
  from others_meet [OF w _ this order_refl] show ?thesis using w random_key(1) unfolding world_ok_def by auto
next
  case (send i j c m k ok)
  let ?e = "Delivered j c m ok"
  have "S (set (wd_log w)) j c m" "meets j I G S (Q j) (k ok) (insert ?e (set (wd_log w)))"
    using running_meets [OF w send(2)] by simp_all
  moreover have "I (insert ?e (set (wd_log w))) (wd_state w)"
    using w invariant_grows unfolding world_ok_def by blast
  moreover have "S (insert ?e (set (wd_log w))) j c m" using calculation(1) send_grows by blast
  ultimately show ?thesis unfolding send(1) by (intro proceed_ok [OF w]) auto
next
  case (exchange i j q k r)
  let ?e = "Exchanged j q r"
  have "meets j I G S (Q j) (k r) (insert ?e (set (wd_log w)))" using running_meets [OF w exchange(2)] by simp
  moreover have "I (insert ?e (set (wd_log w))) (wd_state w)"
    using w invariant_grows unfolding world_ok_def by blast
  ultimately show ?thesis unfolding exchange(1) by (intro proceed_ok [OF w]) auto
next
  case (answer i j r)
  let ?L = "insert (Answered j r) (set (wd_log w))"
  have grows: "set (wd_log w) \<subseteq> ?L" by auto
  have "Q j (set (wd_log w)) r" using running_meets [OF w answer(2)] by simp
  then have q: "Q j ?L r" using answer_grows [OF grows] by blast
  have "meets j' I G S (Q j') t' ?L" if "(j', t') \<in> set (take i (wd_tasks w) @ drop (Suc i) (wd_tasks w))" for j' t'
  proof -
    have "(j', t') \<in> set (wd_tasks w)" using that by (auto dest: in_set_takeD in_set_dropD)
    then show ?thesis using w meets_grows [OF _ grows] unfolding world_ok_def by blast
  qed
  then show ?thesis
    using w q unfolding answer(1) world_ok_def
    by (auto intro: event_ok_grows [OF grows] invariant_grows [OF grows])
qed

lemma running_ok: "running_server env w \<Longrightarrow> world_ok w"
proof (induction rule: running_server.induct)
  case start
  show ?case using initially by (simp add: world_ok_def initial_world_def)
next
  case (go w w')
  then show ?case using step_ok by blast
qed

lemma always_invariant: "running_server env w \<Longrightarrow> I (set (wd_log w)) (wd_state w)"
  using running_ok unfolding world_ok_def by blast

lemma always_change: "running_server env w \<Longrightarrow> Section j now s s' \<in> set (wd_log w) \<Longrightarrow> G (set (wd_log w)) j now s s'"
  using running_ok unfolding world_ok_def by fastforce

lemma always_send: "running_server env w \<Longrightarrow> Delivered j c m ok \<in> set (wd_log w) \<Longrightarrow> S (set (wd_log w)) j c m"
  using running_ok unfolding world_ok_def by fastforce

lemma always_answer: "running_server env w \<Longrightarrow> Answered j r \<in> set (wd_log w) \<Longrightarrow> Q j (set (wd_log w)) r"
  using running_ok unfolding world_ok_def by fastforce

lemma always_past: "running_server env w \<Longrightarrow> Section j now s s' \<in> set (wd_log w) \<Longrightarrow> now \<le> wd_clock w"
  using running_ok unfolding world_ok_def by blast

end

end
