(* ===== verification/Server_Calm.thy ===== *)
theory Server_Calm
  imports Server_Run
begin

text \<open>
  Most steps of the control server leave the sessions and the agent directory alone: they ask the API backend, look
  things up, open and close pending requests, and send messages that open nothing on a device. A task of such steps is
  \<open>calm\<close>. The theory shows which parts of the server are calm, so that the proofs about the running server
  (\<open>Server_Contract\<close>) only deal with the steps that are not.
\<close>

section \<open>Calm tasks\<close>

text \<open>The agents and the five session tables.\<close>

definition core_of :: "app_state \<Rightarrow> (ustr \<times> agent_connection) list \<times> (ustr \<times> remote_desktop_session) list
    \<times> (ustr \<times> active_shell_session) list \<times> (ustr \<times> file_transfer_session) list \<times> (ustr \<times> remote_registry_session) list
    \<times> (ustr \<times> chat_session) list" where
  "core_of s = (st_agents s, tb_get desktops s, tb_get shells s, tb_get transfers s, tb_get registries s, tb_get chats s)"

text \<open>The other maps: distinct keys, and every pending request has a channel that was handed out.\<close>

definition requests_of :: "app_state \<Rightarrow> (ustr \<times> pending) list list" where
  "requests_of s = [tb_get shell_requests s, tb_get detail_requests s, tb_get command_requests s, tb_get rdp_requests s,
     tb_get capability_requests s, tb_get reflex_requests s]"

definition maps_ok :: "app_state \<Rightarrow> bool" where
  "maps_ok s \<longleftrightarrow> well_keyed (st_last_snapshot_request s)
     \<and> (\<forall>m \<in> set (requests_of s). well_keyed m \<and> (\<forall>(_, p) \<in> set m. pd_channel p < st_next_channel s))
     \<and> (\<forall>c. st_mailbox s c \<noteq> None \<longrightarrow> c < st_next_channel s)"

text \<open>The messages that open something on a device.\<close>

fun privileged :: "agent_message \<Rightarrow> bool" where
  "privileged (TunnelPrepare _) = True"
| "privileged (RelayPrepare _) = True"
| "privileged (ShellStart _) = True"
| "privileged (ShellCommand _ _) = True"
| "privileged _ = False"

definition harmless :: "app_state \<Rightarrow> app_state \<Rightarrow> bool" where
  "harmless s s' \<longleftrightarrow> core_of s' = core_of s \<and> (maps_ok s \<longrightarrow> maps_ok s')"

primrec calm :: "'a task \<Rightarrow> bool" where
  "calm (Done a) = True"
| "calm (Locked u k) = (\<forall>now s. harmless s (u now s) \<and> calm (k now s))"
| "calm (NewUuid k) = (\<forall>x. calm (k x))"
| "calm (SelfSigned k) = (\<forall>x. calm (k x))"
| "calm (RandomKey k) = (\<forall>x. calm (k x))"
| "calm (SendTo c m k) = (\<not> privileged m \<and> (\<forall>x. calm (k x)))"
| "calm (Http q k) = (\<forall>x. calm (k x))"

named_theorems calm_rules

lemma harmless_refl [simp]: "harmless s s"
  by (simp add: harmless_def)

lemma calm_tbind [calm_rules]: "calm t \<Longrightarrow> (\<And>a. calm (f a)) \<Longrightarrow> calm (tbind t f)"
proof (induction t)
  case (Locked u k)
  have "calm (tbind (k now s) f)" for now s
    by (rule Locked.IH) (use Locked.prems in auto)
  with Locked.prems show ?case by simp
qed auto

lemma calm_ttry [calm_rules]: "calm t \<Longrightarrow> (\<And>a. calm (f a)) \<Longrightarrow> calm (ttry t f)"
  unfolding ttry_def by (intro calm_tbind) (auto split: sum.splits)

lemma calm_look [simp]: "calm (look f k) \<longleftrightarrow> (\<forall>s. calm (k (f s)))"
  by (simp add: look_def)

lemma calm_clock [simp]: "calm (clock k) \<longleftrightarrow> (\<forall>now. calm (k now))"
  by (simp add: clock_def)

lemma calm_change [simp]: "calm (change u k) \<longleftrightarrow> (\<forall>now s. harmless s (u now s)) \<and> calm k"
  by (auto simp: change_def)

lemma calm_send_required [simp]: "calm (send_required c m) \<longleftrightarrow> \<not> privileged m"
  by (simp add: send_required_def)

lemma calm_send_ignored [simp]: "calm (send_ignored c m) \<longleftrightarrow> \<not> privileged m"
  by (simp add: send_ignored_def)

lemma calm_find_agent [calm_rules]: "(\<And>a. calm (k a)) \<Longrightarrow> calm (find_agent e agent_id k)"
  by (auto simp: find_agent_def split: option.splits)

section \<open>Pending requests\<close>

definition pending_tables :: "pending table set" where
  "pending_tables = {shell_requests, detail_requests, command_requests, rdp_requests, capability_requests, reflex_requests}"

lemmas pending_defs = shell_requests_def detail_requests_def command_requests_def rdp_requests_def capability_requests_def
  reflex_requests_def

lemmas session_defs = desktops_def shells_def transfers_def registries_def chats_def

lemma pending_tables_in [simp]:
  "shell_requests \<in> pending_tables" "detail_requests \<in> pending_tables" "command_requests \<in> pending_tables"
  "rdp_requests \<in> pending_tables" "capability_requests \<in> pending_tables" "reflex_requests \<in> pending_tables"
  by (simp_all add: pending_tables_def)

text \<open>A change of one pending table that keeps its keys distinct and its channels bounded is harmless.\<close>

lemma pending_update_frame:
  assumes "T \<in> pending_tables"
  shows "core_of (tb_update T f s) = core_of s"
    and "st_next_channel (tb_update T f s) = st_next_channel s"
    and "st_mailbox (tb_update T f s) = st_mailbox s"
    and "st_last_snapshot_request (tb_update T f s) = st_last_snapshot_request s"
    and "set (requests_of (tb_update T f s)) \<subseteq> insert (f (tb_get T s)) (set (requests_of s))"
    and "tb_get T s \<in> set (requests_of s)"
  using assms unfolding pending_tables_def core_of_def requests_of_def
  by (elim insertE; simp add: pending_defs session_defs)+

lemma harmless_tb_update:
  assumes T: "T \<in> pending_tables"
    and keys: "well_keyed (tb_get T s) \<Longrightarrow> well_keyed (f (tb_get T s))"
    and entries: "\<And>key p. (key, p) \<in> set (f (tb_get T s)) \<Longrightarrow> (key, p) \<in> set (tb_get T s) \<or> pd_channel p < st_next_channel s"
  shows "harmless s (tb_update T f s)"
proof -
  have "maps_ok (tb_update T f s)" if ok: "maps_ok s"
  proof -
    have new: "well_keyed (f (tb_get T s)) \<and> (\<forall>(_, p) \<in> set (f (tb_get T s)). pd_channel p < st_next_channel s)"
      using ok pending_update_frame(6) [OF T, of s] keys entries unfolding maps_ok_def by blast
    have "well_keyed m \<and> (\<forall>(_, p) \<in> set m. pd_channel p < st_next_channel s)"
      if "m \<in> set (requests_of (tb_update T f s))" for m
      using that pending_update_frame(5) [OF T, of f s] new ok unfolding maps_ok_def by blast
    then show ?thesis
      using ok unfolding maps_ok_def pending_update_frame(2-4) [OF T] by blast
  qed
  then show ?thesis by (simp add: harmless_def pending_update_frame(1) [OF T])
qed

lemma harmless_trans: "harmless s s' \<Longrightarrow> harmless s' s'' \<Longrightarrow> harmless s s''"
  by (simp add: harmless_def)

lemma harmless_remove [simp]: "T \<in> pending_tables \<Longrightarrow> harmless s (remove_entry T key s)"
  unfolding remove_entry_def by (rule harmless_tb_update) (auto dest: set_delete_subset [THEN subsetD])

lemma set_hm_retain: "set (hm_retain P m) = {(k, v) \<in> set m. P k v}"
  by (auto simp: hm_retain_def)

lemma harmless_retain [simp]: "T \<in> pending_tables \<Longrightarrow> harmless s (tb_update T (hm_retain P) s)"
  by (rule harmless_tb_update) (auto simp: set_hm_retain)

lemma harmless_open:
  assumes T: "T \<in> pending_tables"
  shows "harmless s ((insert_entry T key \<lparr>pd_channel = st_next_channel s, pd_created_at = now\<rparr> s)\<lparr>st_next_channel := Suc (st_next_channel s)\<rparr>)"
proof -
  let ?s = "s\<lparr>st_next_channel := Suc (st_next_channel s)\<rparr>"
  let ?p = "\<lparr>pd_channel = st_next_channel s, pd_created_at = now\<rparr>"
  have "(insert_entry T key ?p s)\<lparr>st_next_channel := Suc (st_next_channel s)\<rparr> = insert_entry T key ?p ?s"
    using T unfolding pending_tables_def insert_entry_def by (elim insertE; simp add: pending_defs)
  moreover have "harmless s ?s"
    unfolding harmless_def maps_ok_def core_of_def requests_of_def
    by (auto simp: pending_defs session_defs less_Suc_eq)
  moreover have "harmless ?s (insert_entry T key ?p ?s)"
    unfolding insert_entry_def by (rule harmless_tb_update [OF T]) (auto dest: set_update_subset [THEN subsetD])
  ultimately show ?thesis by (metis harmless_trans)
qed

lemma calm_open_request [calm_rules]:
  "T \<in> pending_tables \<Longrightarrow> (\<And>c. calm (k c)) \<Longrightarrow> calm (open_request T key k)"
  by (simp add: open_request_def harmless_open)

lemma calm_await_reply [calm_rules]: "(\<And>a. calm (k a)) \<Longrightarrow> calm (await_reply T key channel k)"
  by (simp add: await_reply_def)

lemma calm_close_request [calm_rules]: "T \<in> pending_tables \<Longrightarrow> calm k \<Longrightarrow> calm (close_request T key k)"
  by (simp add: close_request_def)

lemma harmless_mailbox: "(maps_ok s \<Longrightarrow> c < st_next_channel s) \<Longrightarrow> harmless s (s\<lparr>st_mailbox := (st_mailbox s)(c \<mapsto> reply)\<rparr>)"
  unfolding harmless_def maps_ok_def core_of_def requests_of_def by (auto simp: pending_defs session_defs)

lemma harmless_answer [simp]:
  assumes T: "T \<in> pending_tables"
  shows "harmless s (answer_request T key reply s)"
proof (cases "map_of (tb_get T s) key")
  case (Some p)
  have "pd_channel p < st_next_channel s" if "maps_ok s"
    using that map_of_SomeD [OF Some] pending_update_frame(6) [OF T, of s] unfolding maps_ok_def by blast
  then have "harmless s (s\<lparr>st_mailbox := (st_mailbox s)(pd_channel p \<mapsto> reply)\<rparr>)" (is "harmless s ?s")
    by (rule harmless_mailbox)
  moreover have "answer_request T key reply s = remove_entry T key ?s"
    using T Some unfolding pending_tables_def answer_request_def remove_entry_def by (elim insertE; simp add: pending_defs)
  ultimately show ?thesis using harmless_remove [OF T] by (metis harmless_trans)
qed (simp add: answer_request_def)

section \<open>Which parts of the server are calm\<close>

lemma calm_api_request_with_url [simp]: "calm (api_request_with_url env method url bearer body use_server_key what decode)"
  by (auto simp: api_request_with_url_def Let_def split: option.splits)

lemma calm_api_request [simp]: "calm (api_request env method path bearer body use_server_key what decode)"
  by (simp add: api_request_def)

lemma calm_require_user_context [simp]: "calm (require_user_context env hs)"
  by (simp add: require_user_context_def split: option.splits)

lemma calm_ensure_device_in_organization [simp]: "calm (ensure_device_in_organization env a org)"
  by (auto simp: ensure_device_in_organization_def intro!: calm_rules)

lemma calm_fetch_device_scope [simp]: "calm (fetch_device_scope env a)"
  by (auto simp: fetch_device_scope_def Let_def intro!: calm_rules)

lemma calm_authorize_device [simp]: "calm (authorize_device env hs a)"
  by (auto simp: authorize_device_def intro!: calm_rules)

lemma calm_authorize_ai_runner [simp]: "calm (authorize_ai_runner env hs org a)"
  by (auto simp: authorize_ai_runner_def intro!: calm_rules)

lemma calm_log_audit_event [simp]: "calm (log_audit_event env scope a identity action target result sid metadata)"
  by (auto simp: log_audit_event_def intro!: calm_rules)

lemma calm_audit_start [simp]: "calm (audit_start env a identity action target sid metadata url)"
  by (auto simp: audit_start_def intro!: calm_rules)

lemma calm_audit_end [simp]: "calm (audit_end env a identity action sid metadata)"
  by (auto simp: audit_end_def intro!: calm_rules)

lemma calm_request_capabilities [simp]: "calm (request_capabilities agent request_id)"
  by (auto simp: request_capabilities_def intro!: calm_rules split: awaited.splits agent_reply.splits)

lemma calm_notify_agent_session_end [simp]: "calm (notify_agent_session_end a sid kind)"
  by (auto simp: notify_agent_session_end_def split: option.splits)

lemma calm_notify_all [simp]: "calm (notify_all ends kind)"
  by (induction ends kind rule: notify_all.induct) (auto intro!: calm_rules)

lemma calm_respond [calm_rules]: "calm t \<Longrightarrow> calm (respond f t)"
  by (auto simp: respond_def intro!: calm_rules)

lemma calm_via_anyhow [calm_rules]: "calm t \<Longrightarrow> calm (via_anyhow t)"
  by (auto simp: via_anyhow_def intro!: calm_rules split: sum.splits)

lemma calm_update_device_details [simp]: "calm (update_device_details env a details)"
  by (auto simp: update_device_details_def intro!: calm_rules)

lemma calm_fetch_device_details_for_agent [simp]: "calm (fetch_device_details_for_agent env a)"
  by (auto simp: fetch_device_details_for_agent_def intro!: calm_rules split: awaited.splits agent_reply.splits)

lemma calm_fetch_device_summary_from_api [simp]: "calm (fetch_device_summary_from_api env a)"
  by (simp add: fetch_device_summary_from_api_def)

lemma calm_list_rdp_sessions [simp]: "calm (list_rdp_sessions a)"
  by (auto simp: list_rdp_sessions_def intro!: calm_rules split: awaited.splits agent_reply.splits)

lemma harmless_snapshot_time: "harmless s (s\<lparr>st_last_snapshot_request := AList.update a now (st_last_snapshot_request s)\<rparr>)"
  unfolding harmless_def maps_ok_def core_of_def requests_of_def by (auto simp: pending_defs session_defs)

lemma calm_request_snapshot [simp]: "calm (request_snapshot env a)"
  by (auto simp: request_snapshot_def Let_def harmless_snapshot_time intro!: calm_rules)

lemma calm_log_command_execution [simp]:
  "calm (log_command_execution env user scope a command was_allowed reason policy time len code)"
  by (auto simp: log_command_execution_def intro!: calm_rules)

subsection \<open>Jobs\<close>

lemma calm_claim_jobs [simp]: "calm (claim_jobs kind env a limit)"
  by (cases kind) (simp_all add: claim_patch_jobs_for_agent_def claim_remediation_jobs_for_agent_def
    claim_feature_upgrade_jobs_def claim_feature_upgrade_preflight_jobs_for_agent_def
    claim_feature_upgrade_stage_iso_jobs_for_agent_def claim_feature_upgrade_start_jobs_for_agent_def)

lemma calm_require_accepted [calm_rules]: "calm t \<Longrightarrow> calm (require_accepted message t)"
  by (auto simp: require_accepted_def intro!: calm_rules)

lemma calm_publish_upgrade_progress [simp]: "calm (publish_upgrade_progress path what rejected env a payload)"
  by (auto simp: publish_upgrade_progress_def intro!: calm_rules)

lemma calm_reports [simp]:
  "calm (report_patch_job_update_for_agent env a update)"
  "calm (publish_remediation_status_for_agent env a update)"
  "calm (publish_patch_progress_for_agent env a payload)"
  "calm (publish_feature_upgrade_preflight_progress_for_agent env a payload checks)"
  "calm (publish_feature_upgrade_stage_iso_progress_for_agent env a payload)"
  "calm (publish_feature_upgrade_start_progress_for_agent env a payload)"
  "calm (evaluate_patch_state_for_agent env a observed_at patch_state)"
  "calm (report_patch_action_result_for_agent env a result)"
  "calm (report_macos_update_account_status_for_agent env a claimed status)"
  by (auto simp: report_patch_job_update_for_agent_def publish_remediation_status_for_agent_def
    publish_patch_progress_for_agent_def publish_feature_upgrade_preflight_progress_for_agent_def
    publish_feature_upgrade_stage_iso_progress_for_agent_def publish_feature_upgrade_start_progress_for_agent_def
    evaluate_patch_state_for_agent_def report_patch_action_result_for_agent_def
    report_macos_update_account_status_for_agent_def intro!: calm_rules)

lemma calm_send_jobs_available [simp]: "calm (send_jobs_available_to_agent kind a reason by)"
  by (auto simp: send_jobs_available_to_agent_def intro!: calm_rules split: option.splits)

lemma calm_notify_agents [calm_rules]: "(\<And>a. calm (send a)) \<Longrightarrow> calm (notify_agents send agents n)"
  by (induction agents arbitrary: n) (auto intro!: calm_rules)

lemma calm_notify_jobs_internal [calm_rules]:
  "(\<And>a reason by. calm (send a reason by)) \<Longrightarrow> calm (notify_jobs_internal send reason env hs body)"
  by (auto simp: notify_jobs_internal_def Let_def intro!: calm_rules)

lemmas send_jobs_defs = send_patch_jobs_available_to_agent_def send_feature_upgrade_preflight_jobs_available_to_agent_def
  send_feature_upgrade_stage_iso_jobs_available_to_agent_def send_feature_upgrade_start_jobs_available_to_agent_def
  send_remediation_jobs_available_to_agent_def

lemma calm_serve_notify [simp]: "calm (serve_notify kind env hs body)"
  by (cases kind) (auto simp: serve_notify_def notify_patch_jobs_internal_def notify_feature_upgrade_preflight_internal_def
    notify_feature_upgrade_stage_iso_internal_def notify_feature_upgrade_start_internal_def send_jobs_defs
    intro!: calm_rules)

lemma calm_notify_patch_jobs_for_device [simp]: "calm (notify_patch_jobs_for_device env hs a)"
  by (auto simp: notify_patch_jobs_for_device_def send_jobs_defs intro!: calm_rules)

lemma calm_enqueue_remediation [simp]: "calm (enqueue_remediation_commands_internal env hs commands)"
  by (auto simp: enqueue_remediation_commands_internal_def send_jobs_defs intro!: calm_rules split: prod.splits)

subsection \<open>Messages of agents\<close>

lemma calm_enroll_agent [simp]: "calm (enroll_agent env token a hostname os ip version)"
  by (auto simp: enroll_agent_def intro!: calm_rules)

lemma calm_upserts [simp]:
  "calm (upsert_device env hello org)"
  "calm (upsert_inventory env update org)"
  "calm (report_agent_connection_status env a org_opt status version)"
  "calm (upsert_full_snapshot env a collected_at snapshot request_id)"
  "calm (upsert_telemetry_events env a events)"
  "calm (store_linux_shell_credential env c)"
  by (auto simp: upsert_device_def upsert_inventory_def report_agent_connection_status_def upsert_full_snapshot_def
    upsert_telemetry_events_def store_linux_shell_credential_def Let_def intro!: calm_rules)

lemma calm_for_registered [calm_rules]: "(\<And>a. calm (report a)) \<Longrightarrow> calm (for_registered agent_id report)"
  by (auto simp: for_registered_def intro!: calm_rules split: option.splits)

lemma calm_for_registered_send [calm_rules]: "(\<And>a. calm (answer a)) \<Longrightarrow> calm (for_registered_send agent_id answer)"
  by (auto simp: for_registered_send_def intro!: calm_rules split: option.splits)

lemma calm_handle_poll [simp]: "calm (handle_poll env sender a kind request_id limit)"
  by (auto simp: handle_poll_def intro!: calm_rules)

lemma calm_handle_checkin [simp]: "calm (handle_checkin env sender a request_id observed_at patch_state)"
  by (auto simp: handle_checkin_def intro!: calm_rules)

lemma calm_handle_credential [simp]: "calm (handle_credential env sender c)"
  by (auto simp: handle_credential_def intro!: calm_rules)

fun registers :: "incoming \<Rightarrow> bool" where
  "registers (AgentHello _) = True"
| "registers (InventoryUpdate _) = True"
| "registers _ = False"

lemma calm_handle_agent_message [simp]:
  "\<not> registers m \<Longrightarrow> calm (handle_agent_message env token sender agent_id m)"
  by (cases m) (auto simp: handle_shell_offer_def handle_shell_error_def handle_device_details_def handle_shell_output_def
    handle_rdp_sessions_response_def handle_session_capabilities_response_def handle_quic_reflex_def
    handle_remote_desktop_unavailable_def intro!: calm_rules)

subsection \<open>Requests\<close>

lemma calm_with_token [calm_rules]: "(\<And>v. calm (k v)) \<Longrightarrow> calm (with_token T missing mismatch sid token k)"
  by (auto simp: with_token_def split: option.splits)

lemma calm_get_session_device_info [simp]: "calm (get_session_device_info env sid token refresh)"
  by (auto simp: get_session_device_info_def Let_def intro!: calm_rules split: sum.splits)

lemma calm_moved [simp]:
  "calm list_devices" "calm bulk_update_customer" "calm bulk_delete_devices" "calm (get_device a)" "calm (delete_device a)"
  by (simp_all add: list_devices_def bulk_update_customer_def bulk_delete_devices_def get_device_def delete_device_def)

section \<open>Calm tasks keep every contract\<close>

lemma meets_calm:
  assumes "calm t"
    and I: "\<And>L s s'. I L s \<Longrightarrow> harmless s s' \<Longrightarrow> I L s'"
    and G: "\<And>L now s s'. I L s \<Longrightarrow> harmless s s' \<Longrightarrow> G L j now s s'"
    and S: "\<And>L c m. \<not> privileged m \<Longrightarrow> S L j c m"
    and Q: "\<And>L' a. L \<subseteq> L' \<Longrightarrow> Q L' a"
  shows "meets j I G S Q t L"
  using assms(1) Q
proof (induction t arbitrary: L)
  case (Locked u k)
  show ?case
  proof (clarsimp, intro conjI)
    fix now s L'
    assume L': "L \<subseteq> L'" "I L' s"
    have h: "harmless s (u now s)" using Locked.prems by simp
    show "I L' (u now s)" "G L' j now s (u now s)" using I G L' h by blast+
    show "meets j I G S Q (k now s) L'"
      by (rule Locked.IH) (use Locked.prems L' in auto)
  qed
next
  case (NewUuid k)
  show ?case by (clarsimp, rule NewUuid.IH) (use NewUuid.prems in auto)
next
  case (SelfSigned k)
  show ?case by (clarsimp, rule SelfSigned.IH) (use SelfSigned.prems in auto)
next
  case (RandomKey k)
  show ?case by (clarsimp, rule RandomKey.IH) (use RandomKey.prems in auto)
next
  case (SendTo c m k)
  have "meets j I G S Q (k x) (insert (Delivered j c m x) L)" for x
    by (rule SendTo.IH) (use SendTo.prems in auto)
  moreover have "S L j c m" using SendTo.prems S by simp
  ultimately show ?case by simp
next
  case (Http q k)
  show ?case by (clarsimp, rule Http.IH) (use Http.prems in auto)
qed simp

end
