(* ===== verification/Server_Rules.thy ===== *)
theory Server_Rules
  imports Server_Calm
begin

text \<open>
  The contract of the control server, stated over its history: what holds of every session and of the agent directory
  (\<open>state_ok\<close>), why a session or an entry of the directory may change (\<open>rule\<close>), what must have happened before a message that
  opens something on a device (\<open>sendable\<close>), and what an answer may contain (\<open>answer_ok\<close>). All four only look at events of
  the history, so they stay true as it grows. \<open>Server_Contract\<close> shows that every task of the server keeps the contract.
\<close>

section \<open>Sessions of any kind\<close>

fun entries :: "session_kind \<Rightarrow> app_state \<Rightarrow> (ustr \<times> viewer_session) list" where
  "entries RemoteDesktop s = map (apsnd viewer_session.truncate) (tb_get desktops s)"
| "entries Shell s = map (apsnd viewer_session.truncate) (tb_get shells s)"
| "entries FileTransfer s = map (apsnd viewer_session.truncate) (tb_get transfers s)"
| "entries RemoteRegistry s = map (apsnd viewer_session.truncate) (tb_get registries s)"
| "entries Chat s = map (apsnd viewer_session.truncate) (tb_get chats s)"

definition session_at :: "session_kind \<Rightarrow> app_state \<Rightarrow> ustr \<Rightarrow> viewer_session option" where
  "session_at kind s sid = map_of (entries kind s) sid"

lemma truncate_simps [simp]:
  "vs_token (viewer_session.truncate v) = vs_token v"
  "vs_agent_id (viewer_session.truncate v) = vs_agent_id v"
  "vs_viewer_user_id (viewer_session.truncate v) = vs_viewer_user_id v"
  "vs_viewer_user_email (viewer_session.truncate v) = vs_viewer_user_email v"
  "vs_e2e_key (viewer_session.truncate v) = vs_e2e_key v"
  "vs_relay_url (viewer_session.truncate v) = vs_relay_url v"
  "vs_created_at (viewer_session.truncate v) = vs_created_at v"
  "vs_attached_at (viewer_session.truncate v) = vs_attached_at v"
  "vs_viewer_connected_at (viewer_session.truncate v) = vs_viewer_connected_at v"
  "vs_viewer_last_heartbeat_at (viewer_session.truncate v) = vs_viewer_last_heartbeat_at v"
  by (simp_all add: viewer_session.truncate_def)

section \<open>Who is allowed what\<close>

text \<open>The API backend has told job \<open>j\<close> who the bearer of the token in \<open>hs\<close> is.\<close>

definition context_request :: "server_env \<Rightarrow> ustr \<Rightarrow> http_request" where
  "context_request env token = \<lparr>hr_method = GET, hr_url = api_url env (lit ''/auth/context''), hr_bearer = Some token,
     hr_server_key = None, hr_body = None\<rparr>"

definition signed_in :: "server_env \<Rightarrow> event set \<Rightarrow> job \<Rightarrow> headers \<Rightarrow> user_context \<Rightarrow> bool" where
  "signed_in env L j hs user \<longleftrightarrow> (\<exists>token r. extract_bearer hs = Some token \<and> Exchanged j (context_request env token) r \<in> L
     \<and> api_result (lit ''fetch user context'') decode_user_context r = Inr user)"

text \<open>The API backend has told job \<open>j\<close> that the device belongs to the organisation.\<close>

definition scope_request :: "server_env \<Rightarrow> ustr \<Rightarrow> ustr \<Rightarrow> http_request" where
  "scope_request env key a = \<lparr>hr_method = GET, hr_url = api_url env (scope_path a), hr_bearer = None,
     hr_server_key = Some key, hr_body = None\<rparr>"

definition in_organization :: "server_env \<Rightarrow> event set \<Rightarrow> job \<Rightarrow> ustr \<Rightarrow> ustr \<Rightarrow> bool" where
  "in_organization env L j a org \<longleftrightarrow> org \<noteq> [] \<and> (\<exists>key r scope. Exchanged j (scope_request env key a) r \<in> L
     \<and> api_result (lit ''fetch device scope'') decode_device_scope r = Inr scope \<and> trim (ds_organization_id scope) = org)"

text \<open>The requests with which a signed-in user, and the AI runner, start a session on a device.\<close>

fun connects :: "job \<Rightarrow> headers \<Rightarrow> ustr \<Rightarrow> bool" where
  "connects (Serve (ConnectDevice hs' a')) hs a = (hs' = hs \<and> a' = a)"
| "connects (Serve (ConnectFileTransfer hs' a')) hs a = (hs' = hs \<and> a' = a)"
| "connects (Serve (ConnectRegistry hs' a')) hs a = (hs' = hs \<and> a' = a)"
| "connects (Serve (ConnectShell hs' a' _)) hs a = (hs' = hs \<and> a' = a)"
| "connects _ hs a = False"

fun runner_connects :: "job \<Rightarrow> headers \<Rightarrow> ustr \<Rightarrow> ustr \<Rightarrow> bool" where
  "runner_connects (Serve (AiDesktop hs' a' body)) hs a org = (hs' = hs \<and> a' = a \<and> trim (ai_organization_id body) = org)"
| "runner_connects (Serve (AiChatApproval hs' a' body)) hs a org = (hs' = hs \<and> a' = a \<and> trim (ai_organization_id body) = org)"
| "runner_connects (Serve (AiShell hs' a' body)) hs a org = (hs' = hs \<and> a' = a \<and> trim (ai_organization_id body) = org)"
| "runner_connects _ hs a org = False"

text \<open>A session of user \<open>u\<close>, or one without a user, on device \<open>a\<close> is authorised.\<close>

fun authorised :: "server_env \<Rightarrow> event set \<Rightarrow> ustr option \<Rightarrow> ustr \<Rightarrow> bool" where
  "authorised env L (Some u) a = (\<exists>j hs user. connects j hs a \<and> signed_in env L j hs user \<and> uc_user_id user = u
     \<and> in_organization env L j a (uc_organization_id user))"
| "authorised env L None a = (\<exists>j hs org. runner_connects j hs a org \<and> require_internal_server_key env hs = Inr ()
     \<and> in_organization env L j a org)"

text \<open>What job \<open>j\<close> has seen of a session in one of its critical sections.\<close>

definition saw :: "event set \<Rightarrow> job \<Rightarrow> session_kind \<Rightarrow> ustr \<Rightarrow> (viewer_session \<Rightarrow> bool) \<Rightarrow> bool" where
  "saw L j kind sid P \<longleftrightarrow> (\<exists>now s v. Section j now s s \<in> L \<and> session_at kind s sid = Some v \<and> P v)"

text \<open>The requests that open a session from another one, whose token they present. A request for a shell without a bearer token
  is one of them.\<close>

fun opens_from :: "job \<Rightarrow> session_kind \<Rightarrow> ustr \<Rightarrow> ustr \<Rightarrow> bool" where
  "opens_from (Serve (OpenDesktopFromShell hs sid' token')) kind sid token = (kind = Shell \<and> sid' = sid \<and> token' = token)"
| "opens_from (Serve (OpenFileTransferFromShell hs sid' token')) kind sid token = (kind = Shell \<and> sid' = sid \<and> token' = token)"
| "opens_from (Serve (OpenRegistryFromShell hs sid' token')) kind sid token = (kind = Shell \<and> sid' = sid \<and> token' = token)"
| "opens_from (Serve (OpenFileTransferFromSession hs sid' token')) kind sid token
     = (kind = RemoteDesktop \<and> sid' = sid \<and> token' = token)"
| "opens_from (Serve (OpenRegistryFromSession hs sid' token')) kind sid token
     = (kind = RemoteDesktop \<and> sid' = sid \<and> token' = token)"
| "opens_from (Serve (OpenChatFromSession hs sid' token')) kind sid token
     = (kind = RemoteDesktop \<and> sid' = sid \<and> token' = token)"
| "opens_from (Serve (ConnectShell hs a q)) kind sid token
     = (kind = RemoteDesktop \<and> extract_bearer hs = None \<and> sq_session q = Some sid \<and> sq_token q = Some token)"
| "opens_from _ kind sid token = False"

text \<open>Job \<open>j\<close> itself may open a session of user \<open>u\<close>, or one without a user, on device \<open>a\<close>: its user signed in and the device
  is in the user's organisation; or it has the server key and the device is in the organisation it names; or it
  presented the token of a session of that user on that device.\<close>

definition entitled :: "server_env \<Rightarrow> event set \<Rightarrow> job \<Rightarrow> ustr option \<Rightarrow> ustr \<Rightarrow> bool" where
  "entitled env L j u a \<longleftrightarrow>
     (\<exists>hs user. connects j hs a \<and> signed_in env L j hs user \<and> u = Some (uc_user_id user)
        \<and> in_organization env L j a (uc_organization_id user))
     \<or> (\<exists>hs org. runner_connects j hs a org \<and> require_internal_server_key env hs = Inr () \<and> u = None
        \<and> in_organization env L j a org)
     \<or> (\<exists>kind sid token. opens_from j kind sid token
        \<and> saw L j kind sid (\<lambda>v. vs_token v = token \<and> vs_agent_id v = a \<and> vs_viewer_user_id v = u))"

definition cleared :: "server_env \<Rightarrow> event set \<Rightarrow> job \<Rightarrow> ustr option \<Rightarrow> ustr \<Rightarrow> bool" where
  "cleared env L j u a \<longleftrightarrow> entitled env L j u a \<and> authorised env L u a"

text \<open>The socket with channel \<open>c\<close> has enrolled as agent \<open>a\<close> with the token of its headers, and the API backend accepted it.\<close>

definition enrolled :: "server_env \<Rightarrow> event set \<Rightarrow> nat \<Rightarrow> ustr \<Rightarrow> bool" where
  "enrolled env L c a \<longleftrightarrow> (\<exists>hs fs token q rest r org. extract_agent_registration_token hs = Some token
     \<and> Exchanged (Socket hs c fs) q r \<in> L \<and> hr_url q = api_url env (lit ''/rmm/installers/enroll'')
     \<and> hr_body q = Some (json_obj ((''token'', JStr token) # (''agentId'', JStr a) # rest))
     \<and> api_result (lit ''enroll agent'') decode_enrollment r = Inr (True, org) \<and> trim org \<noteq> [])"

definition reaches :: "server_env \<Rightarrow> event set \<Rightarrow> nat \<Rightarrow> ustr \<Rightarrow> bool" where
  "reaches env L c a \<longleftrightarrow> enrolled env L c a
     \<and> (\<exists>j now s agent. Section j now s s \<in> L \<and> map_of (st_agents s) a = Some agent \<and> ac_sender agent = c)"

section \<open>The invariant\<close>

definition happened :: "event set \<Rightarrow> instant \<Rightarrow> bool" where
  "happened L t \<longleftrightarrow> (\<exists>j now s s'. Section j now s s' \<in> L \<and> t \<le> now)"

definition session_ok :: "server_env \<Rightarrow> event set \<Rightarrow> session_kind \<Rightarrow> viewer_session \<Rightarrow> bool" where
  "session_ok env L kind v \<longleftrightarrow>
     authorised env L (vs_viewer_user_id v) (vs_agent_id v)
     \<and> length (vs_e2e_key v) = 32 \<and> vs_relay_url v = se_relay_url env
     \<and> (vs_viewer_user_email v \<noteq> None \<longrightarrow> vs_viewer_user_id v \<noteq> None)
     \<and> (vs_viewer_connected_at v \<noteq> None \<longrightarrow> vs_viewer_last_heartbeat_at v \<noteq> None)
     \<and> (vs_viewer_last_heartbeat_at v \<noteq> None \<longrightarrow> vs_attached_at v \<noteq> None)
     \<and> (kind = Shell \<longrightarrow> vs_attached_at v \<noteq> None)
     \<and> happened L (vs_created_at v)
     \<and> (\<forall>t \<in> set_option (vs_attached_at v) \<union> set_option (vs_viewer_connected_at v)
              \<union> set_option (vs_viewer_last_heartbeat_at v). happened L t)"

definition state_ok :: "server_env \<Rightarrow> event set \<Rightarrow> app_state \<Rightarrow> bool" where
  "state_ok env L s \<longleftrightarrow> maps_ok s
     \<and> well_keyed (st_agents s) \<and> (\<forall>(a, agent) \<in> set (st_agents s). enrolled env L (ac_sender agent) a)
     \<and> (\<forall>kind. well_keyed (entries kind s) \<and> (\<forall>(sid, v) \<in> set (entries kind s). session_ok env L kind v))"

section \<open>The rule of change\<close>

text \<open>Job \<open>j\<close> has seen a chat of a desktop session.\<close>

definition saw_child :: "event set \<Rightarrow> job \<Rightarrow> ustr \<Rightarrow> ustr \<Rightarrow> (chat_session \<Rightarrow> bool) \<Rightarrow> bool" where
  "saw_child L j sid parent P \<longleftrightarrow> (\<exists>now s chat. Section j now s s \<in> L \<and> map_of (tb_get chats s) sid = Some chat
     \<and> ch_parent_desktop_session_id chat = Some parent \<and> P chat)"

text \<open>The kind a clean-up request names.\<close>

definition names_kind :: "ustr \<Rightarrow> session_kind \<Rightarrow> bool" where
  "names_kind name kind \<longleftrightarrow>
     kind = RemoteDesktop \<and> to_ascii_lowercase (trim name) \<in> {lit ''desktop'', lit ''remote_desktop''}
     \<or> kind = Shell \<and> to_ascii_lowercase (trim name) = lit ''shell''
     \<or> kind = Chat \<and> to_ascii_lowercase (trim name) = lit ''chat''"

text \<open>The viewer's requests that change a session and keep it.\<close>

fun presents :: "job \<Rightarrow> session_kind \<Rightarrow> ustr \<Rightarrow> ustr \<Rightarrow> bool" where
  "presents (Serve (Connected kind' sid' token')) kind sid token = (kind' = kind \<and> sid' = sid \<and> token' = token)"
| "presents (Serve (Heartbeat kind' sid' token')) kind sid token = (kind' = kind \<and> sid' = sid \<and> token' = token)"
| "presents (Serve (Reflex kind' sid' token' _)) kind sid token = (kind' = kind \<and> sid' = sid \<and> token' = token)"
| "presents (Serve (Relay kind' sid' token')) kind sid token = (kind' = kind \<and> sid' = sid \<and> token' = token)"
| "presents _ kind sid token = False"

definition same_identity :: "viewer_session \<Rightarrow> viewer_session \<Rightarrow> bool" where
  "same_identity v v' \<longleftrightarrow> vs_token v' = vs_token v \<and> vs_agent_id v' = vs_agent_id v
     \<and> vs_viewer_user_id v' = vs_viewer_user_id v \<and> vs_viewer_user_email v' = vs_viewer_user_email v
     \<and> vs_e2e_key v' = vs_e2e_key v \<and> vs_relay_url v' = vs_relay_url v \<and> vs_created_at v' = vs_created_at v"

text \<open>The socket of agent \<open>a\<close> has left the directory and was not replaced.\<close>

definition left :: "event set \<Rightarrow> job \<Rightarrow> nat \<Rightarrow> ustr \<Rightarrow> bool" where
  "left L j c a \<longleftrightarrow> (\<exists>now s s'. Section j now s s' \<in> L \<and> owns_entry a c s \<and> map_of (st_agents s') a = None)"

definition stale_session :: "event set \<Rightarrow> instant \<Rightarrow> session_kind \<Rightarrow> viewer_session \<Rightarrow> bool" where
  "stale_session L now kind v \<longleftrightarrow>
     kind \<noteq> Shell \<and> (\<exists>started s. Section Reap started s s \<in> L
       \<and> is_unattached_session_stale (vs_created_at v) (vs_attached_at v) started)
     \<or> kind = Chat \<and> vs_attached_at v \<noteq> None
       \<and> (\<exists>t. vs_viewer_last_heartbeat_at v = Some t \<and> now - t > viewer_heartbeat_ttl)"

fun may_end :: "server_env \<Rightarrow> event set \<Rightarrow> job \<Rightarrow> instant \<Rightarrow> session_kind \<Rightarrow> ustr \<Rightarrow> viewer_session \<Rightarrow> bool" where
  "may_end env L (Serve (EndSession kind' sid' token)) now kind sid v =
     (saw L (Serve (EndSession kind' sid' token)) kind' sid' (\<lambda>v. vs_token v = token)
      \<and> (kind' = kind \<and> sid' = sid
         \<or> kind' = RemoteDesktop \<and> kind = Chat \<and> saw_child L (Serve (EndSession kind' sid' token)) sid sid' (\<lambda>_. True)))"
| "may_end env L (Serve (Cleanup hs body)) now kind sid v =
     (require_internal_server_key env hs = Inr ()
      \<and> (names_kind (cl_kind body) kind \<and> sid = trim (cl_session_id body) \<and> vs_agent_id v = trim (cl_agent_id body)
         \<or> kind = Chat \<and> names_kind (cl_kind body) RemoteDesktop
           \<and> saw_child L (Serve (Cleanup hs body)) sid (trim (cl_session_id body)) (\<lambda>chat. vs_agent_id chat = trim (cl_agent_id body))))"
| "may_end env L (Socket hs c frames) now kind sid v =
     (\<exists>a. left L (Socket hs c frames) c a \<and> saw L (Socket hs c frames) kind sid (\<lambda>v. vs_agent_id v = a))"
| "may_end env L Reap now kind sid v = stale_session L now kind v"
| "may_end env L _ now kind sid v = False"

text \<open>A session is opened under an identifier the job generated, or, by a signed-in user, as a shell session under an
  identifier the request names.\<close>

definition opened :: "event set \<Rightarrow> job \<Rightarrow> session_kind \<Rightarrow> ustr \<Rightarrow> bool" where
  "opened L j kind sid \<longleftrightarrow> Minted j sid \<in> L
     \<or> (\<exists>hs a q. j = Serve (ConnectShell hs a q) \<and> extract_bearer hs \<noteq> None \<and> sq_session q = Some sid \<and> kind = Shell)"

definition explained :: "server_env \<Rightarrow> event set \<Rightarrow> job \<Rightarrow> instant \<Rightarrow> session_kind \<Rightarrow> ustr \<Rightarrow> viewer_session option
    \<Rightarrow> viewer_session option \<Rightarrow> bool" where
  "explained env L j now kind sid old new =
     (case (old, new) of
        (Some v, None) \<Rightarrow> may_end env L j now kind sid v
      | (Some v, Some v') \<Rightarrow>
          same_identity v v' \<and> (\<exists>token. presents j kind sid token \<and> saw L j kind sid (\<lambda>v. vs_token v = token))
          \<or> opened L j kind sid \<and> vs_created_at v' = now \<and> entitled env L j (vs_viewer_user_id v') (vs_agent_id v')
      | (None, Some v') \<Rightarrow>
          opened L j kind sid \<and> vs_created_at v' = now \<and> entitled env L j (vs_viewer_user_id v') (vs_agent_id v')
      | (None, None) \<Rightarrow> True)"

definition agent_explained :: "server_env \<Rightarrow> event set \<Rightarrow> job \<Rightarrow> ustr \<Rightarrow> agent_connection option \<Rightarrow> agent_connection option \<Rightarrow> bool" where
  "agent_explained env L j a old new \<longleftrightarrow> (\<exists>hs c frames. j = Socket hs c frames
     \<and> (case new of
          Some agent \<Rightarrow> ac_sender agent = c \<and> enrolled env L c a
        | None \<Rightarrow> \<exists>agent. old = Some agent \<and> ac_sender agent = c))"

definition rule :: "server_env \<Rightarrow> event set \<Rightarrow> job \<Rightarrow> instant \<Rightarrow> app_state \<Rightarrow> app_state \<Rightarrow> bool" where
  "rule env L j now s s' \<longleftrightarrow>
     (\<forall>kind sid. session_at kind s' sid \<noteq> session_at kind s sid
        \<longrightarrow> explained env L j now kind sid (session_at kind s sid) (session_at kind s' sid))
     \<and> (\<forall>a. map_of (st_agents s') a \<noteq> map_of (st_agents s) a
        \<longrightarrow> agent_explained env L j a (map_of (st_agents s) a) (map_of (st_agents s') a))"

section \<open>Messages and answers\<close>

definition validate_request :: "server_env \<Rightarrow> ustr \<Rightarrow> ustr \<Rightarrow> user_context \<Rightarrow> device_scope \<Rightarrow> http_request" where
  "validate_request env key script user scope = \<lparr>hr_method = POST, hr_url = api_url env (lit ''/policies/validate''),
     hr_bearer = None, hr_server_key = Some key, hr_body = Some (validation_body script user scope)\<rparr>"

definition policy_allows :: "server_env \<Rightarrow> event set \<Rightarrow> job \<Rightarrow> ustr \<Rightarrow> user_context \<Rightarrow> bool" where
  "policy_allows env L j script user \<longleftrightarrow> (\<exists>key scope r validation. ds_organization_id scope = uc_organization_id user
     \<and> Exchanged j (validate_request env key script user scope) r \<in> L
     \<and> api_result (lit ''validate command policy'') decode_validation r = Inr validation \<and> pv_allowed validation)"

definition script_allowed :: "server_env \<Rightarrow> event set \<Rightarrow> job \<Rightarrow> nat \<Rightarrow> ustr \<Rightarrow> bool" where
  "script_allowed env L j c script \<longleftrightarrow> (\<exists>hs a user. j = Serve (ExecuteScript hs a script)
     \<and> signed_in env L j hs user \<and> in_organization env L j a (uc_organization_id user)
     \<and> policy_allows env L j script user \<and> reaches env L c a)"

text \<open>The message that makes the agent dial the relay: from a request that presented the token of the session, to a socket of the
  device of that session, with the relay address and the key the request saw in the session.\<close>

definition relay_allowed :: "server_env \<Rightarrow> event set \<Rightarrow> job \<Rightarrow> nat \<Rightarrow> relay_prepare \<Rightarrow> bool" where
  "relay_allowed env L j c p \<longleftrightarrow> (\<exists>kind token a u v. j = Serve (Relay kind (rp_session_id p) token)
     \<and> saw L j kind (rp_session_id p) (\<lambda>v. vs_token v = token \<and> vs_agent_id v = a \<and> vs_viewer_user_id v = u)
     \<and> authorised env L u a \<and> reaches env L c a
     \<and> saw L j kind (rp_session_id p) (\<lambda>v'. v' = v) \<and> vs_relay_url v = Some (rp_relay_url p)
     \<and> rp_e2e_key p = se_base64_standard env (vs_e2e_key v))"

fun sendable :: "server_env \<Rightarrow> event set \<Rightarrow> job \<Rightarrow> nat \<Rightarrow> agent_message \<Rightarrow> bool" where
  "sendable env L j c (TunnelPrepare p) = (\<exists>a user. cleared env L j user a \<and> reaches env L c a)"
| "sendable env L j c (ShellStart p) = (\<exists>a user. cleared env L j user a \<and> reaches env L c a)"
| "sendable env L j c (RelayPrepare p) = relay_allowed env L j c p"
| "sendable env L j c (ShellCommand request_id script) = script_allowed env L j c script"
| "sendable env L j c _ = True"

definition reveal_request :: "server_env \<Rightarrow> ustr \<Rightarrow> ustr \<Rightarrow> ustr \<Rightarrow> http_request" where
  "reveal_request env key a user_id = \<lparr>hr_method = POST,
     hr_url = api_url env (lit ''/rmm/devices/'' @ a @ lit ''/linux-shell-credential/reveal-for-user''),
     hr_bearer = None, hr_server_key = Some key, hr_body = Some (json_obj [(''userId'', JStr user_id)])\<rparr>"

definition connection_shown :: "server_env \<Rightarrow> event set \<Rightarrow> job \<Rightarrow> session_kind \<Rightarrow> ustr \<Rightarrow> ustr \<Rightarrow> connection_data \<Rightarrow> bool" where
  "connection_shown env L j kind sid token d \<longleftrightarrow>
     saw L j kind sid (\<lambda>v. vs_token v = token \<and> cd_relay_url d = vs_relay_url v
       \<and> cd_e2e_key d = map_option (\<lambda>_. se_base64_standard env (vs_e2e_key v)) (vs_relay_url v))"

definition credential_shown :: "server_env \<Rightarrow> event set \<Rightarrow> job \<Rightarrow> ustr \<Rightarrow> ustr option \<Rightarrow> linux_shell_credential \<Rightarrow> bool" where
  "credential_shown env L j sid token c \<longleftrightarrow> (\<exists>t u key reply a. token = Some t
     \<and> saw L j Shell sid (\<lambda>v. vs_token v = t \<and> vs_viewer_user_id v = Some u \<and> vs_agent_id v = a)
     \<and> Exchanged j (reveal_request env key a u) reply \<in> L
     \<and> api_result (lit ''reveal Linux shell credential for viewer'') decode_linux_shell_credential reply = Inr c)"

definition devices_shown :: "server_env \<Rightarrow> event set \<Rightarrow> job \<Rightarrow> headers \<Rightarrow> ustr set \<Rightarrow> bool" where
  "devices_shown env L j hs devices \<longleftrightarrow> (\<exists>user. signed_in env L j hs user
     \<and> (\<forall>a \<in> devices. in_organization env L j a (uc_organization_id user)))"

definition answer_ok :: "server_env \<Rightarrow> job \<Rightarrow> event set \<Rightarrow> app_error + response \<Rightarrow> bool" where
  "answer_ok env j L r \<longleftrightarrow>
     (\<forall>kind sid token d. j = Serve (Capabilities kind sid token) \<and> r = Inr (ConnectionData d) \<longrightarrow>
        connection_shown env L j kind sid token d)
     \<and> (\<forall>sid token c. j = Serve (ShellCredential sid token) \<and> r = Inr (Credential c) \<longrightarrow> credential_shown env L j sid token c)
     \<and> (\<forall>hs sid st. j = Serve (ViewerStatus hs sid) \<and> r = Inr (Status st) \<longrightarrow>
        devices_shown env L j hs {sn_agent_id (vr_snapshot st)})
     \<and> (\<forall>hs agent snapshots. j = Serve (ViewerConnections hs agent) \<and> r = Inr (Connections snapshots) \<longrightarrow>
        devices_shown env L j hs (sn_agent_id ` set snapshots))"

section \<open>The history only grows\<close>

lemma signed_in_mono: "signed_in env L j hs user \<Longrightarrow> L \<subseteq> L' \<Longrightarrow> signed_in env L' j hs user"
  unfolding signed_in_def by blast

lemma in_organization_mono: "in_organization env L j a org \<Longrightarrow> L \<subseteq> L' \<Longrightarrow> in_organization env L' j a org"
  unfolding in_organization_def by blast

lemma authorised_mono: "authorised env L u a \<Longrightarrow> L \<subseteq> L' \<Longrightarrow> authorised env L' u a"
  by (cases u) (auto intro: signed_in_mono in_organization_mono)

declare authorised.simps [simp del]

lemma saw_mono: "saw L j kind sid P \<Longrightarrow> L \<subseteq> L' \<Longrightarrow> saw L' j kind sid P"
  unfolding saw_def by blast

lemma saw_weaken: "saw L j kind sid P \<Longrightarrow> (\<And>v. P v \<Longrightarrow> P' v) \<Longrightarrow> saw L j kind sid P'"
  unfolding saw_def by blast

lemma entitled_mono: "entitled env L j u a \<Longrightarrow> L \<subseteq> L' \<Longrightarrow> entitled env L' j u a"
  unfolding entitled_def by (blast intro: saw_mono signed_in_mono in_organization_mono)

lemma cleared_mono: "cleared env L j u a \<Longrightarrow> L \<subseteq> L' \<Longrightarrow> cleared env L' j u a"
  unfolding cleared_def by (blast intro: entitled_mono authorised_mono)

lemma cleared_authorised: "cleared env L j u a \<Longrightarrow> authorised env L u a"
  by (simp add: cleared_def)

lemma enrolled_mono: "enrolled env L c a \<Longrightarrow> L \<subseteq> L' \<Longrightarrow> enrolled env L' c a"
  unfolding enrolled_def by (meson subsetD)

lemma reaches_mono: "reaches env L c a \<Longrightarrow> L \<subseteq> L' \<Longrightarrow> reaches env L' c a"
  using enrolled_mono unfolding reaches_def by blast

lemma happened_mono: "happened L t \<Longrightarrow> L \<subseteq> L' \<Longrightarrow> happened L' t"
  unfolding happened_def by blast

lemma session_ok_mono: "session_ok env L kind v \<Longrightarrow> L \<subseteq> L' \<Longrightarrow> session_ok env L' kind v"
  unfolding session_ok_def by (meson authorised_mono happened_mono)

lemma inv_mono: "state_ok env L s \<Longrightarrow> L \<subseteq> L' \<Longrightarrow> state_ok env L' s"
  unfolding state_ok_def by (fast intro: session_ok_mono enrolled_mono)

lemma saw_child_mono: "saw_child L j sid parent P \<Longrightarrow> L \<subseteq> L' \<Longrightarrow> saw_child L' j sid parent P"
  unfolding saw_child_def by blast

lemma left_mono: "left L j c a \<Longrightarrow> L \<subseteq> L' \<Longrightarrow> left L' j c a"
  unfolding left_def by blast

lemma stale_session_mono: "stale_session L now kind v \<Longrightarrow> L \<subseteq> L' \<Longrightarrow> stale_session L' now kind v"
  unfolding stale_session_def by blast

lemma may_end_mono: "may_end env L j now kind sid v \<Longrightarrow> L \<subseteq> L' \<Longrightarrow> may_end env L' j now kind sid v"
  by (induction env L j now kind sid v rule: may_end.induct)
    (auto intro: saw_mono saw_child_mono left_mono stale_session_mono)

lemma opened_mono: "opened L j kind sid \<Longrightarrow> L \<subseteq> L' \<Longrightarrow> opened L' j kind sid"
  unfolding opened_def by blast

lemma explained_mono: "explained env L j now kind sid old new \<Longrightarrow> L \<subseteq> L' \<Longrightarrow> explained env L' j now kind sid old new"
  unfolding explained_def by (auto intro: may_end_mono opened_mono saw_mono entitled_mono split: option.splits)

lemma agent_explained_mono: "agent_explained env L j a old new \<Longrightarrow> L \<subseteq> L' \<Longrightarrow> agent_explained env L' j a old new"
  by (cases new) (auto simp: agent_explained_def intro: enrolled_mono)

lemma rule_mono: "rule env L j now s s' \<Longrightarrow> L \<subseteq> L' \<Longrightarrow> rule env L' j now s s'"
  unfolding rule_def by (blast intro: explained_mono agent_explained_mono)

lemma policy_allows_mono: "policy_allows env L j script user \<Longrightarrow> L \<subseteq> L' \<Longrightarrow> policy_allows env L' j script user"
  unfolding policy_allows_def by blast

lemma script_allowed_mono: "script_allowed env L j c script \<Longrightarrow> L \<subseteq> L' \<Longrightarrow> script_allowed env L' j c script"
  unfolding script_allowed_def by (blast intro: signed_in_mono in_organization_mono policy_allows_mono reaches_mono)

lemma relay_allowed_mono: "relay_allowed env L j c p \<Longrightarrow> L \<subseteq> L' \<Longrightarrow> relay_allowed env L' j c p"
  unfolding relay_allowed_def
  by (elim exE conjE, intro exI conjI) (assumption | erule (1) saw_mono authorised_mono reaches_mono)+

lemma sendable_mono: "sendable env L j c m \<Longrightarrow> L \<subseteq> L' \<Longrightarrow> sendable env L' j c m"
  by (cases m) (auto intro: cleared_mono reaches_mono script_allowed_mono relay_allowed_mono)

lemma connection_shown_mono:
  "connection_shown env L j kind sid token d \<Longrightarrow> L \<subseteq> L' \<Longrightarrow> connection_shown env L' j kind sid token d"
  unfolding connection_shown_def by (rule saw_mono)

lemma credential_shown_mono: "credential_shown env L j sid token c \<Longrightarrow> L \<subseteq> L' \<Longrightarrow> credential_shown env L' j sid token c"
  using saw_mono unfolding credential_shown_def by blast

lemma devices_shown_mono: "devices_shown env L j hs devices \<Longrightarrow> L \<subseteq> L' \<Longrightarrow> devices_shown env L' j hs devices"
  unfolding devices_shown_def by (meson signed_in_mono in_organization_mono)

lemma answer_ok_mono:
  assumes "answer_ok env j L r" and L: "L \<subseteq> L'"
  shows "answer_ok env j L' r"
proof -
  note grows = connection_shown_mono [OF _ L] credential_shown_mono [OF _ L] devices_shown_mono [OF _ L]
  show ?thesis
    unfolding answer_ok_def
    by (intro conjI allI impI; rule grows; use assms(1) in \<open>simp add: answer_ok_def\<close>)
qed

end
