(* ===== verification/Server_Contract.thy ===== *)
theory Server_Contract
  imports Server_Rules
begin

text \<open>
  Rules to show that a task keeps the contract of \<open>Server_Rules\<close>, and the operations on one session table: the locale
  \<open>session_table\<close> has what a table promises (its entries are the sessions of one kind, and a change of it changes nothing
  else), and shows once for all five tables that the shared parts of the handlers keep the contract.
\<close>

section \<open>Rules\<close>

abbreviation safe :: "server_env \<Rightarrow> job \<Rightarrow> (event set \<Rightarrow> 'a \<Rightarrow> bool) \<Rightarrow> 'a task \<Rightarrow> event set \<Rightarrow> bool" where
  "safe env j Q t L \<equiv> meets j (state_ok env) (rule env) (sendable env) Q t L"

lemma harmless_entries: "harmless s s' \<Longrightarrow> st_agents s' = st_agents s \<and> entries kind s' = entries kind s"
  by (cases kind) (auto simp: harmless_def core_of_def)

lemma inv_harmless: "state_ok env L s \<Longrightarrow> harmless s s' \<Longrightarrow> state_ok env L s'"
  by (simp add: state_ok_def harmless_entries) (simp add: harmless_def)

lemma rule_harmless: "harmless s s' \<Longrightarrow> rule env L j now s s'"
  by (simp add: rule_def session_at_def harmless_entries)

lemma sendable_unprivileged: "\<not> privileged m \<Longrightarrow> sendable env L j c m"
  by (cases m) auto

lemma safe_calm: "calm t \<Longrightarrow> (\<And>L' a. L \<subseteq> L' \<Longrightarrow> Q L' a) \<Longrightarrow> safe env j Q t L"
  by (rule meets_calm) (auto intro: inv_harmless rule_harmless sendable_unprivileged)

lemma safe_Locked:
  assumes "\<And>now s L'. L \<subseteq> L' \<Longrightarrow> Section j now s (u now s) \<in> L' \<Longrightarrow> state_ok env L' s \<Longrightarrow>
      state_ok env L' (u now s) \<and> rule env L' j now s (u now s) \<and> safe env j Q (k now s) L'"
  shows "safe env j Q (Locked u k) L"
  using assms by simp

lemma safe_look:
  assumes "\<And>now s L'. L \<subseteq> L' \<Longrightarrow> Section j now s s \<in> L' \<Longrightarrow> state_ok env L' s \<Longrightarrow> safe env j Q (k (f s)) L'"
  shows "safe env j Q (look f k) L"
  unfolding look_def by (rule safe_Locked) (use assms in \<open>auto intro: rule_harmless\<close>)

lemma safe_clock:
  assumes "\<And>now s L'. L \<subseteq> L' \<Longrightarrow> Section j now s s \<in> L' \<Longrightarrow> safe env j Q (k now) L'"
  shows "safe env j Q (clock k) L"
  unfolding clock_def by (rule safe_Locked) (use assms in \<open>auto intro: rule_harmless\<close>)

lemma safe_change:
  assumes "\<And>now s L'. L \<subseteq> L' \<Longrightarrow> Section j now s (u now s) \<in> L' \<Longrightarrow> state_ok env L' s \<Longrightarrow>
      state_ok env L' (u now s) \<and> rule env L' j now s (u now s)"
    and "\<And>L'. L \<subseteq> L' \<Longrightarrow> safe env j Q k L'"
  shows "safe env j Q (change u k) L"
  unfolding change_def by (rule safe_Locked) (use assms in auto)

lemma safe_NewUuid:
  "(\<And>x L'. L \<subseteq> L' \<Longrightarrow> Minted j x \<in> L' \<Longrightarrow> safe env j Q (k x) L') \<Longrightarrow> safe env j Q (NewUuid k) L"
  by simp blast

lemma safe_SendTo:
  "sendable env L j c m \<Longrightarrow> (\<And>ok L'. L \<subseteq> L' \<Longrightarrow> safe env j Q (k ok) L') \<Longrightarrow> safe env j Q (SendTo c m k) L"
  by simp blast

lemma safe_send_required:
  "sendable env L j c m \<Longrightarrow> (\<And>r L'. L \<subseteq> L' \<Longrightarrow> Q L' r) \<Longrightarrow> safe env j Q (send_required c m) L"
  unfolding send_required_def by (rule safe_SendTo) simp_all

lemma safe_mono:
  assumes "safe env j P t L" and "\<And>L' a. L \<subseteq> L' \<Longrightarrow> P L' a \<Longrightarrow> Q L' a" and "\<And>L L' a. L \<subseteq> L' \<Longrightarrow> P L a \<Longrightarrow> P L' a"
  shows "safe env j Q t L"
proof (rule meets_weaken [OF assms(1) order_refl])
  show "Q L' a" if "L1 \<subseteq> L'" "L \<subseteq> L'" "P L1 a" for L1 L' a
    by (rule assms(2) [OF that(2) assms(3) [OF that(1,3)]])
qed (rule sendable_mono)

lemma safe_tbind:
  assumes "safe env j P t L" and "\<And>L L' a. L \<subseteq> L' \<Longrightarrow> P L a \<Longrightarrow> P L' a"
    and "\<And>L' a. L \<subseteq> L' \<Longrightarrow> P L' a \<Longrightarrow> safe env j Q (f a) L'"
  shows "safe env j Q (tbind t f) L"
  unfolding meets_tbind by (rule safe_mono [OF assms(1) assms(3) assms(2)])

lemma safe_calm_tbind:
  "calm t \<Longrightarrow> (\<And>L' a. L \<subseteq> L' \<Longrightarrow> safe env j Q (f a) L') \<Longrightarrow> safe env j Q (tbind t f) L"
  unfolding meets_tbind by (rule safe_calm)

text \<open>A step that may fail: what is known of its result when it succeeds.\<close>

definition when_ok :: "(event set \<Rightarrow> 'a \<Rightarrow> bool) \<Rightarrow> event set \<Rightarrow> 'e + 'a \<Rightarrow> bool" where
  "when_ok P L r = (case r of Inl _ \<Rightarrow> True | Inr a \<Rightarrow> P L a)"

lemma when_ok_simps [simp]: "when_ok P L (Inl e)" "when_ok P L (Inr a) = P L a"
  by (simp_all add: when_ok_def)

lemma safe_ttry:
  assumes "safe env j (when_ok P) t L" and "\<And>L L' a. L \<subseteq> L' \<Longrightarrow> P L a \<Longrightarrow> P L' a"
    and "\<And>L' a. L \<subseteq> L' \<Longrightarrow> P L' a \<Longrightarrow> safe env j Q (f a) L'" and "\<And>L' e. L \<subseteq> L' \<Longrightarrow> Q L' (Inl e)"
  shows "safe env j Q (ttry t f) L"
  unfolding meets_ttry
  by (rule safe_mono [OF assms(1)]) (use assms(2-) in \<open>auto simp: when_ok_def split: sum.splits\<close>)

lemma safe_calm_ttry:
  assumes "calm t" and "\<And>L' a. L \<subseteq> L' \<Longrightarrow> safe env j Q (f a) L'" and "\<And>L' e. L \<subseteq> L' \<Longrightarrow> Q L' (Inl e)"
  shows "safe env j Q (ttry t f) L"
  by (rule safe_ttry [where P = "\<lambda>_ _. True", OF safe_calm [OF assms(1)]])
    (use assms(2-) in \<open>auto simp: when_ok_def split: sum.splits\<close>)

lemma safe_ttry_Done:
  "(\<And>a. r = Inr a \<Longrightarrow> safe env j Q (f a) L) \<Longrightarrow> (\<And>e. r = Inl e \<Longrightarrow> Q L (Inl e)) \<Longrightarrow> safe env j Q (ttry (Done r) f) L"
  by (cases r) (simp_all add: ttry_def)

section \<open>Facts from the API backend\<close>

lemma safe_api_request:
  assumes "\<And>key r L'. L \<subseteq> L' \<Longrightarrow> (key = None \<longleftrightarrow> \<not> use_server_key) \<Longrightarrow>
      Exchanged j \<lparr>hr_method = method, hr_url = api_url env path, hr_bearer = bearer, hr_server_key = key, hr_body = body\<rparr> r \<in> L' \<Longrightarrow>
      Q L' (api_result (lit what) decode r)"
    and "\<And>L' e. L \<subseteq> L' \<Longrightarrow> Q L' (Inl e)"
  shows "safe env j Q (api_request env method path bearer body use_server_key what decode) L"
  unfolding api_request_def api_request_with_url_def Let_def
  using assms(1) [of "insert _ L", OF subset_insertI] assms(2) [OF order_refl] by (auto split: option.splits)

lemma safe_require_user_context: "safe env j (when_ok (\<lambda>L user. signed_in env L j hs user)) (require_user_context env hs) L"
proof (cases "extract_bearer hs")
  case (Some token)
  then show ?thesis
    unfolding require_user_context_def
    by (auto intro!: safe_api_request simp: when_ok_def signed_in_def context_request_def split: sum.splits)
qed (simp add: require_user_context_def)

lemma safe_fetch_device_scope:
  "safe env j (when_ok (\<lambda>L scope. in_organization env L j a (ds_organization_id scope))) (fetch_device_scope env a) L"
proof -
  let ?P = "\<lambda>L response. \<exists>key r. Exchanged j (scope_request env key a) r \<in> L
      \<and> api_result (lit ''fetch device scope'') decode_device_scope r = Inr response"
  have "safe env j (when_ok ?P)
    (api_request env GET (scope_path a) None None True ''fetch device scope'' decode_device_scope) L"
    by (rule safe_api_request) (auto simp: when_ok_def scope_request_def split: sum.splits)
  then show ?thesis
    unfolding fetch_device_scope_def
    by (rule safe_ttry) (auto simp: Let_def in_organization_def)
qed

lemma safe_authorize_device:
  "safe env j (when_ok (\<lambda>L (user, scope). signed_in env L j hs user \<and> in_organization env L j a (uc_organization_id user)
     \<and> ds_organization_id scope = uc_organization_id user)) (authorize_device env hs a) L"
  unfolding authorize_device_def
proof (rule safe_ttry [OF safe_require_user_context], goal_cases)
  case (2 L1 user)
  show ?case
  proof (rule safe_calm_ttry, goal_cases)
    case (2 L2)
    show ?case
      by (rule safe_ttry [OF safe_fetch_device_scope])
        (use \<open>signed_in env L1 j hs user\<close> \<open>L1 \<subseteq> L2\<close> in \<open>auto intro: in_organization_mono signed_in_mono\<close>)
  qed simp_all
qed (auto intro: signed_in_mono)

lemma safe_authorize_ai_runner:
  "safe env j (when_ok (\<lambda>L scope. require_internal_server_key env hs = Inr () \<and> in_organization env L j a (trim org)))
     (authorize_ai_runner env hs org a) L"
  unfolding authorize_ai_runner_def
proof (rule safe_ttry_Done, goal_cases)
  case 1
  show ?case
  proof (cases "trim org = []")
    case False
    have "safe env j (when_ok (\<lambda>L scope. require_internal_server_key env hs = Inr () \<and> in_organization env L j a (trim org)))
      (ttry (fetch_device_scope env a) (\<lambda>scope. if ds_organization_id scope \<noteq> trim org
         then Done (Inl (forbidden (lit ''device does not belong to the requested organization''))) else Done (Inr scope))) L"
      by (rule safe_ttry [OF safe_fetch_device_scope]) (use 1 in \<open>auto intro: in_organization_mono\<close>)
    with False show ?thesis by simp
  qed simp
qed simp

section \<open>Agents\<close>

lemma inv_agent: "state_ok env L s \<Longrightarrow> map_of (st_agents s) a = Some agent \<Longrightarrow> enrolled env L (ac_sender agent) a"
  unfolding state_ok_def by (auto dest: map_of_SomeD)

lemma safe_find_agent:
  assumes "\<And>agent L'. L \<subseteq> L' \<Longrightarrow> reaches env L' (ac_sender agent) a \<Longrightarrow> safe env j Q (k agent) L'"
    and "\<And>L'. L \<subseteq> L' \<Longrightarrow> Q L' (Inl e)"
  shows "safe env j Q (find_agent e a k) L"
  unfolding find_agent_def
proof (rule safe_look, goal_cases)
  case (1 now s L')
  show ?case
  proof (cases "map_of (st_agents s) a")
    case (Some agent)
    with 1 have "reaches env L' (ac_sender agent) a" unfolding reaches_def using inv_agent by blast
    with Some show ?thesis using assms(1) 1(1) by simp
  qed (use assms(2) 1(1) in simp)
qed

section \<open>One session table\<close>

locale session_table = state_table T for T :: "'a viewer_session_scheme table" +
  fixes kind :: session_kind
  assumes entries_kind: "entries kind s = map (apsnd viewer_session.truncate) (tb_get T s)"
    and entries_update: "kind' \<noteq> kind \<Longrightarrow> entries kind' (tb_update T f s) = entries kind' s"
    and agents_update: "st_agents (tb_update T f s) = st_agents s"
    and maps_update: "maps_ok (tb_update T f s) = maps_ok s"
    and update_id: "tb_update T (\<lambda>m. m) s = s"
    and update_update: "tb_update T g (tb_update T f s) = tb_update T (\<lambda>m. g (f m)) s"
begin

lemma session_at_kind: "session_at kind s sid = map_option viewer_session.truncate (map_of (tb_get T s) sid)"
proof -
  have "map_of (map (apsnd viewer_session.truncate) m) sid = map_option viewer_session.truncate (map_of m sid)"
    for m :: "(ustr \<times> 'a viewer_session_scheme) list"
    by (induction m) auto
  then show ?thesis by (simp add: session_at_def entries_kind)
qed

lemma table_keyed: "state_ok env L s \<Longrightarrow> well_keyed (tb_get T s)"
proof -
  assume "state_ok env L s"
  then have "well_keyed (entries kind s)" unfolding state_ok_def by blast
  then show ?thesis by (simp add: entries_kind well_keyed_def o_def)
qed

lemma table_entry: "state_ok env L s \<Longrightarrow> (sid, v) \<in> set (tb_get T s) \<Longrightarrow> session_ok env L kind (viewer_session.truncate v)"
proof -
  assume "state_ok env L s" and v: "(sid, v) \<in> set (tb_get T s)"
  then have "\<forall>(sid, v) \<in> set (entries kind s). session_ok env L kind v" unfolding state_ok_def by blast
  moreover have "(sid, viewer_session.truncate v) \<in> set (entries kind s)"
    using v by (force simp: entries_kind)
  ultimately show ?thesis by blast
qed

lemma inv_update:
  assumes s: "state_ok env L s" and keys: "well_keyed (f (tb_get T s))"
    and ok: "\<And>sid v. (sid, v) \<in> set (f (tb_get T s)) \<Longrightarrow> session_ok env L kind (viewer_session.truncate v)"
  shows "state_ok env L (tb_update T f s)"
proof -
  have "well_keyed (entries kind' (tb_update T f s))
      \<and> (\<forall>(sid, v) \<in> set (entries kind' (tb_update T f s)). session_ok env L kind' v)" for kind'
  proof (cases "kind' = kind")
    case True
    then show ?thesis using keys ok by (auto simp: entries_kind get_update well_keyed_def o_def)
  next
    case False
    then show ?thesis using s unfolding state_ok_def entries_update [OF False] by blast
  qed
  then show ?thesis using s unfolding state_ok_def agents_update maps_update by blast
qed

lemma rule_update:
  assumes "\<And>sid. map_of (f (tb_get T s)) sid \<noteq> map_of (tb_get T s) sid \<Longrightarrow>
    explained env L j now kind sid (map_option viewer_session.truncate (map_of (tb_get T s) sid))
      (map_option viewer_session.truncate (map_of (f (tb_get T s)) sid))"
  shows "rule env L j now s (tb_update T f s)"
proof -
  have "explained env L j now kind' sid (session_at kind' s sid) (session_at kind' (tb_update T f s) sid)"
    if "session_at kind' (tb_update T f s) sid \<noteq> session_at kind' s sid" for kind' sid
  proof (cases "kind' = kind")
    case True
    with that have "map_of (f (tb_get T s)) sid \<noteq> map_of (tb_get T s) sid"
      by (auto simp: session_at_kind get_update)
    with True show ?thesis using assms by (simp add: session_at_kind get_update)
  next
    case False
    then show ?thesis using that by (simp add: session_at_def entries_update)
  qed
  then show ?thesis by (simp add: rule_def agents_update)
qed

subsection \<open>A viewer presents its token\<close>

lemma sawI: "Section j now s s \<in> L \<Longrightarrow> map_of (tb_get T s) sid = Some v \<Longrightarrow> P (viewer_session.truncate v) \<Longrightarrow> saw L j kind sid P"
  unfolding saw_def by (auto simp: session_at_kind)

lemma safe_with_token:
  assumes "\<And>v L'. L \<subseteq> L' \<Longrightarrow> saw L' j kind sid (\<lambda>v'. v' = viewer_session.truncate v) \<Longrightarrow> vs_token v = token \<Longrightarrow>
      session_ok env L' kind (viewer_session.truncate v) \<Longrightarrow> safe env j Q (k v) L'"
    and "\<And>L' e. L \<subseteq> L' \<Longrightarrow> Q L' (Inl e)"
  shows "safe env j Q (with_token T missing mismatch sid token k) L"
  unfolding with_token_def
proof (rule safe_look, goal_cases)
  case (1 now s L')
  show ?case
  proof (cases "map_of (tb_get T s) sid")
    case (Some v)
    then show ?thesis
      using assms 1 table_entry [OF 1(3) map_of_SomeD [OF Some]] by (auto intro: sawI)
  qed (use assms(2) 1(1) in simp)
qed

text \<open>A mark keeps the identity of a session and the invariant.\<close>

definition marks :: "server_env \<Rightarrow> event set \<Rightarrow> ('a viewer_session_scheme \<Rightarrow> 'a viewer_session_scheme) \<Rightarrow> bool" where
  "marks env L f \<longleftrightarrow> (\<forall>v. same_identity (viewer_session.truncate v) (viewer_session.truncate (f v))
     \<and> (session_ok env L kind (viewer_session.truncate v) \<longrightarrow> session_ok env L kind (viewer_session.truncate (f v))))"

lemma marks_connected: "happened L now \<Longrightarrow> marks env L (mark_connected now)"
  by (auto simp: marks_def mark_connected_def same_identity_def session_ok_def split: option.splits)

lemma marks_heartbeat: "happened L now \<Longrightarrow> marks env L (mark_heartbeat now)"
  by (auto simp: marks_def mark_heartbeat_def same_identity_def session_ok_def)

lemma marks_reflex: "happened L now \<Longrightarrow> marks env L (mark_reflex reflex now)"
  by (auto simp: marks_def mark_reflex_def same_identity_def session_ok_def)

lemma marks_attached: "happened L now \<Longrightarrow> marks env L (mark_attached now)"
  by (auto simp: marks_def mark_attached_def same_identity_def session_ok_def)

lemma safe_modify:
  assumes token: "presents j kind sid token" "saw L j kind sid (\<lambda>v. vs_token v = token)"
    and marks: "\<And>now L'. L \<subseteq> L' \<Longrightarrow> happened L' now \<Longrightarrow> marks env L' (f now)"
    and k: "\<And>L'. L \<subseteq> L' \<Longrightarrow> safe env j Q k L'"
  shows "safe env j Q (change (\<lambda>now. modify_entry T sid (f now)) k) L"
proof (rule safe_change)
  fix now s L'
  assume L': "L \<subseteq> L'" "Section j now s (modify_entry T sid (f now) s) \<in> L'" "state_ok env L' s"
  then have "happened L' now" unfolding happened_def by blast
  then have m: "marks env L' (f now)" using marks L'(1) by blast
  have inv: "state_ok env L' (modify_entry T sid (f now) s)"
    unfolding modify_entry_def
    by (rule inv_update [OF L'(3)])
      (use table_keyed [OF L'(3)] table_entry [OF L'(3)] m in \<open>auto simp: marks_def dest!: hm_modify_entry\<close>)
  have "rule env L' j now s (modify_entry T sid (f now) s)"
    unfolding modify_entry_def
    by (rule rule_update)
      (use m token saw_mono [OF token(2) L'(1)] in \<open>auto simp: map_of_hm_modify marks_def explained_def split: if_splits option.splits\<close>)
  with inv show "state_ok env L' (modify_entry T sid (f now) s) \<and> rule env L' j now s (modify_entry T sid (f now) s)" by blast
qed (rule k)

lemma safe_presence:
  assumes token: "presents j kind sid token"
    and mark: "\<And>now L. happened L now \<Longrightarrow> marks env L (mark now)" and Q: "\<And>L' r. L \<subseteq> L' \<Longrightarrow> Q L' r"
  shows "safe env j Q (presence T missing mismatch mark sid token) L"
  unfolding presence_def
proof (rule safe_with_token, goal_cases)
  case (1 v L1)
  have saw: "saw L1 j kind sid (\<lambda>v. vs_token v = token)" by (rule saw_weaken [OF 1(2)]) (simp add: 1(3))
  show ?case
  proof (rule safe_clock, goal_cases)
    case (1 now s L2)
    then have "happened L2 now" unfolding happened_def by blast
    show ?case
      by (rule safe_modify [where f = "\<lambda>_. mark now", OF token saw_mono [OF saw \<open>L1 \<subseteq> L2\<close>]])
        (use mark happened_mono [OF \<open>happened L2 now\<close>] Q \<open>L \<subseteq> L1\<close> \<open>L1 \<subseteq> L2\<close> in \<open>auto intro: Q\<close>)
  qed
qed (rule Q)

lemma safe_report_reflex:
  assumes token: "presents j kind sid token" and Q: "\<And>L' r. L \<subseteq> L' \<Longrightarrow> Q L' r"
  shows "safe env j Q (report_reflex T missing sid token reflex) L"
  unfolding report_reflex_def
proof (rule safe_with_token, goal_cases)
  case (1 v L1)
  have saw: "saw L1 j kind sid (\<lambda>v. vs_token v = token)" by (rule saw_weaken [OF 1(2)]) (simp add: 1(3))
  show ?case
  proof (rule safe_modify [OF token saw marks_reflex], goal_cases)
    case (2 L2)
    have "calm (look (\<lambda>s. map_of (st_agents s) (vs_agent_id v)) (\<lambda>agent. case agent of
        None \<Rightarrow> Done (Inr ())
      | Some agent \<Rightarrow> tbind (send_ignored (ac_sender agent) (PunchStart sid reflex)) (\<lambda>_. Done (Inr ()))))"
      by (auto intro!: calm_rules split: option.splits)
    then show ?case by (rule safe_calm) (use 1 2 Q in auto)
  qed
qed (rule Q)

lemma safe_ask_relay:
  assumes j: "j = Serve (Relay kind sid token)" and Q: "\<And>L' r. L \<subseteq> L' \<Longrightarrow> Q L' r"
  shows "safe env j Q (ask_relay env T missing mismatch no_relay options sid token) L"
  unfolding ask_relay_def
proof (rule safe_with_token, goal_cases)
  case (1 v L1)
  note v = 1
  have token: "presents j kind sid token" by (simp add: j)
  have saw: "saw L1 j kind sid (\<lambda>v. vs_token v = token)" by (rule saw_weaken [OF 1(2)]) (simp add: 1(3))
  have owner: "saw L1 j kind sid (\<lambda>v'. vs_token v' = token \<and> vs_agent_id v' = vs_agent_id v
      \<and> vs_viewer_user_id v' = vs_viewer_user_id v)"
    by (rule saw_weaken [OF 1(2)]) (simp add: 1(3))
  show ?case
  proof (cases "vs_relay_url v")
    case (Some relay_url)
    show ?thesis
      unfolding Some option.case
    proof (rule safe_find_agent, goal_cases)
      case (1 agent L2)
      note agent = 1
      show ?case
      proof (rule safe_modify [OF token saw_mono [OF saw agent(1)] marks_attached], goal_cases)
        case (2 L3)
        have "relay_allowed env L3 j (ac_sender agent) \<lparr>rp_session_id = sid, rp_relay_url = relay_url,
            rp_e2e_key = se_base64_standard env (vs_e2e_key v), rp_mode = m, rp_selected_display_profile = d, rp_hide_cursor = h\<rparr>"
          for m d h
          unfolding relay_allowed_def
          by (rule exI [of _ kind], rule exI [of _ token], rule exI [of _ "vs_agent_id v"], rule exI [of _ "vs_viewer_user_id v"],
              rule exI [of _ "viewer_session.truncate v"])
            (use j owner v(2,4) agent 2(1) Some in \<open>auto simp: session_ok_def intro: saw_mono authorised_mono reaches_mono\<close>)
        then show ?case
          by (auto intro!: safe_send_required split: prod.splits) (use Q v(1) agent(1) 2(1) in auto)
      qed
    qed (use Q v(1) in auto)
  qed (use Q v(1) in simp)
qed (rule Q)

subsection \<open>Sessions are opened\<close>

lemma safe_insert:
  assumes ok: "\<And>now L'. L \<subseteq> L' \<Longrightarrow> happened L' now \<Longrightarrow> session_ok env L' kind (viewer_session.truncate (v now))"
    and new: "opened L j kind sid" "\<And>now. vs_created_at (v now) = now"
    and who: "\<And>now. entitled env L j (vs_viewer_user_id (v now)) (vs_agent_id (v now))"
    and k: "\<And>L'. L \<subseteq> L' \<Longrightarrow> safe env j Q k L'"
  shows "safe env j Q (change (\<lambda>now. insert_entry T sid (v now)) k) L"
proof (rule safe_change)
  fix now s L'
  assume L': "L \<subseteq> L'" "Section j now s (insert_entry T sid (v now) s) \<in> L'" "state_ok env L' s"
  then have "happened L' now" unfolding happened_def by blast
  then have v: "session_ok env L' kind (viewer_session.truncate (v now))" using ok L'(1) by blast
  have "state_ok env L' (insert_entry T sid (v now) s)"
    unfolding insert_entry_def
    by (rule inv_update [OF L'(3)])
      (use table_keyed [OF L'(3)] table_entry [OF L'(3)] v in \<open>auto dest: set_update_subset [THEN subsetD]\<close>)
  moreover have "rule env L' j now s (insert_entry T sid (v now) s)"
    unfolding insert_entry_def
    by (rule rule_update)
      (use new(2) opened_mono [OF new(1) L'(1)] entitled_mono [OF who L'(1)] in \<open>auto simp: update_conv' explained_def split: if_splits option.splits\<close>)
  ultimately show "state_ok env L' (insert_entry T sid (v now) s) \<and> rule env L' j now s (insert_entry T sid (v now) s)" by blast
qed (rule k)

subsection \<open>Sessions end\<close>

text \<open>A change that only removes entries.\<close>

lemma shrink_ok:
  assumes s: "state_ok env L s" and keys: "well_keyed (f (tb_get T s))" and sub: "set (f (tb_get T s)) \<subseteq> set (tb_get T s)"
    and may: "\<And>sid v. (sid, v) \<in> set (tb_get T s) \<Longrightarrow> (sid, v) \<notin> set (f (tb_get T s)) \<Longrightarrow>
      may_end env L j now kind sid (viewer_session.truncate v)"
  shows "state_ok env L (tb_update T f s) \<and> rule env L j now s (tb_update T f s)"
proof
  show "state_ok env L (tb_update T f s)"
    by (rule inv_update [where f = f, OF s keys]) (use sub table_entry [OF s] in blast)
  show "rule env L j now s (tb_update T f s)"
  proof (rule rule_update)
    fix sid
    assume ne: "map_of (f (tb_get T s)) sid \<noteq> map_of (tb_get T s) sid"
    note lookup = well_keyed_lookup [OF keys, of sid] well_keyed_lookup [OF table_keyed [OF s], of sid]
    show "explained env L j now kind sid (map_option viewer_session.truncate (map_of (tb_get T s) sid))
      (map_option viewer_session.truncate (map_of (f (tb_get T s)) sid))"
    proof (cases "map_of (tb_get T s) sid")
      case None
      with ne lookup sub show ?thesis by (metis not_None_eq subsetD)
    next
      case (Some v)
      have none: "map_of (f (tb_get T s)) sid = None"
        using ne lookup sub Some by (metis not_None_eq option.inject subsetD)
      then have "(sid, v) \<notin> set (f (tb_get T s))" using lookup by auto
      from may [OF map_of_SomeD [OF Some] this] show ?thesis by (simp add: Some none explained_def)
    qed
  qed
qed

lemma remove_ok:
  assumes "state_ok env L s" and "\<And>v. map_of (tb_get T s) sid = Some v \<Longrightarrow> may_end env L j now kind sid (viewer_session.truncate v)"
  shows "state_ok env L (remove_entry T sid s) \<and> rule env L j now s (remove_entry T sid s)"
  unfolding remove_entry_def
proof (rule shrink_ok [where f = "AList.delete sid", OF assms(1)])
  show "well_keyed (AList.delete sid (tb_get T s))" using table_keyed [OF assms(1)] by simp
  show "may_end env L j now kind k (viewer_session.truncate v)"
    if "(k, v) \<in> set (tb_get T s)" "(k, v) \<notin> set (AList.delete sid (tb_get T s))" for k v
    using that assms(2) table_keyed [OF assms(1)] by (auto simp: AList.delete_eq well_keyed_lookup)
qed (rule set_delete_subset)

lemma fold_remove: "fold (remove_entry T) ids s = tb_update T (filter (\<lambda>(k, _). k \<notin> set ids)) s"
proof (induction ids arbitrary: s)
  case Nil
  have "(\<lambda>m. m) = filter (\<lambda>(k :: ustr, _ :: 'a viewer_session_scheme). k \<notin> set [])" by (auto simp: fun_eq_iff)
  then show ?case using update_id by simp
next
  case (Cons a ids)
  have "(\<lambda>m. filter (\<lambda>(k, _). k \<notin> set ids) (AList.delete a m))
      = filter (\<lambda>(k :: ustr, _ :: 'a viewer_session_scheme). k \<notin> set (a # ids))"
    by (auto simp: fun_eq_iff AList.delete_eq filter_filter intro!: filter_cong)
  then show ?case using Cons by (simp add: remove_entry_def update_update)
qed

lemma remove_many_ok:
  assumes s: "state_ok env L s"
    and may: "\<And>sid v. sid \<in> set ids \<Longrightarrow> map_of (tb_get T s) sid = Some v \<Longrightarrow> may_end env L j now kind sid (viewer_session.truncate v)"
  shows "state_ok env L (fold (remove_entry T) ids s) \<and> rule env L j now s (fold (remove_entry T) ids s)"
  unfolding fold_remove
  by (rule shrink_ok [OF s])
    (use may table_keyed [OF s] in \<open>auto simp: well_keyed_lookup well_keyed_def distinct_map_filter\<close>)

lemma safe_end_session:
  assumes j: "j = Serve (EndSession kind sid token)" and Q: "\<And>L' r. L \<subseteq> L' \<Longrightarrow> Q L' r"
  shows "safe env j Q (end_session env T missing mismatch name action metadata sid token) L"
  unfolding end_session_def
proof (rule safe_with_token, goal_cases)
  case (1 v L1)
  have saw: "saw L1 j kind sid (\<lambda>v. vs_token v = token)" by (rule saw_weaken [OF 1(2)]) (simp add: 1(3))
  have "calm (tbind (notify_agent_session_end (vs_agent_id v) sid name)
      (\<lambda>_. audit_end env (vs_agent_id v) (session_identity v) action sid (metadata v)))"
    by (auto intro!: calm_rules)
  note calm = this
  show ?case
    unfolding take_entry_def
  proof (rule safe_Locked, goal_cases)
    case (1 now s L2)
    have "state_ok env L2 (remove_entry T sid s) \<and> rule env L2 j now s (remove_entry T sid s)"
      by (rule remove_ok [OF 1(3)]) (use saw_mono [OF saw 1(1)] j in simp)
    then show ?case using \<open>L \<subseteq> L1\<close> 1(1) Q by (auto intro!: safe_calm [OF calm])
  qed
qed (rule Q)

lemma safe_remove_owned:
  assumes j: "j = Serve (Cleanup hs body)" "require_internal_server_key env hs = Inr ()"
      "sid = trim (cl_session_id body)" "a = trim (cl_agent_id body)" "names_kind (cl_kind body) kind"
    and k: "\<And>removed L'. L \<subseteq> L' \<Longrightarrow> safe env j Q (k removed) L'" and Q: "\<And>L' e. L \<subseteq> L' \<Longrightarrow> Q L' (Inl e)"
  shows "safe env j Q (remove_owned T sid a k) L"
  unfolding remove_owned_def
proof (rule safe_Locked, goal_cases)
  case (1 now s L')
  have "state_ok env L' (remove_entry T sid s) \<and> rule env L' j now s (remove_entry T sid s)"
    if "map_option vs_agent_id (map_of (tb_get T s) sid) = Some a"
    by (rule remove_ok [OF 1(3)]) (use that j in auto)
  then show ?case using 1 k Q by (auto intro: rule_harmless split: option.splits)
qed

lemma safe_drop_sessions:
  assumes j: "j = Socket hs c frames" and gone: "left L j c a" and k: "\<And>L'. L \<subseteq> L' \<Longrightarrow> safe env j Q k L'"
  shows "safe env j Q (drop_sessions T a k) L"
  unfolding drop_sessions_def
proof (rule safe_look, goal_cases)
  case (1 now s L1)
  note found = 1
  have saw: "saw L1 j kind sid (\<lambda>v. vs_agent_id v = a)" if "sid \<in> set (sessions_of_agent T a s)" for sid
    using that found(2) table_keyed [OF found(3)]
    by (auto simp: sessions_of_agent_def well_keyed_lookup intro!: sawI [where s = s])
  show ?case
  proof (rule safe_change, goal_cases)
    case (1 now' s' L2)
    show ?case
      by (rule remove_many_ok [OF 1(3)])
        (use j saw_mono [OF saw \<open>L1 \<subseteq> L2\<close>] left_mono [OF gone] found(1) 1(1) in \<open>auto intro!: exI [of _ a]\<close>)
  next
    case (2 L2)
    then show ?case using k found(1) by blast
  qed
qed

lemma safe_reap_sessions:
  assumes j: "j = Reap" and started: "Section Reap now s0 s0 \<in> L" and k: "\<And>L'. L \<subseteq> L' \<Longrightarrow> safe env j Q k L'"
  shows "safe env j Q (reap_sessions now T k) L"
  unfolding reap_sessions_def
proof (rule safe_change, goal_cases)
  case (1 now' s L')
  show ?case
  proof (rule shrink_ok [OF 1(3)], goal_cases)
    case (3 sid v)
    then have stale: "is_unattached_session_stale (vs_created_at v) (vs_attached_at v) now" by (auto simp: set_hm_retain)
    with table_entry [OF 1(3) 3(1)] have "kind \<noteq> Shell" by (auto simp: session_ok_def is_unattached_session_stale_def)
    with stale started 1(1) show ?case unfolding j may_end.simps stale_session_def by auto
  qed (use table_keyed [OF 1(3)] in \<open>auto simp: set_hm_retain\<close>)
qed (rule k)

end

interpretation desktop_sessions: session_table desktops RemoteDesktop
proof (unfold_locales, goal_cases)
  case (2 kind' f s)
  then show ?case by (cases kind') (simp_all add: session_defs)
qed (simp_all add: session_defs maps_ok_def requests_of_def pending_defs)

interpretation shell_sessions: session_table shells Shell
proof (unfold_locales, goal_cases)
  case (2 kind' f s)
  then show ?case by (cases kind') (simp_all add: session_defs)
qed (simp_all add: session_defs maps_ok_def requests_of_def pending_defs)

interpretation transfer_sessions: session_table transfers FileTransfer
proof (unfold_locales, goal_cases)
  case (2 kind' f s)
  then show ?case by (cases kind') (simp_all add: session_defs)
qed (simp_all add: session_defs maps_ok_def requests_of_def pending_defs)

interpretation registry_sessions: session_table registries RemoteRegistry
proof (unfold_locales, goal_cases)
  case (2 kind' f s)
  then show ?case by (cases kind') (simp_all add: session_defs)
qed (simp_all add: session_defs maps_ok_def requests_of_def pending_defs)

interpretation chat_sessions: session_table chats Chat
proof (unfold_locales, goal_cases)
  case (2 kind' f s)
  then show ?case by (cases kind') (simp_all add: session_defs)
qed (simp_all add: session_defs maps_ok_def requests_of_def pending_defs)

end
