(* ===== verification/Server_Safe.thy ===== *)
theory Server_Safe
  imports Server_Contract
begin

text \<open>
  Every task of the control server keeps the contract of \<open>Server_Rules\<close>: the functions that start a session, the
  requests, the sockets of the agents and the passes of the reaper. At the end the contract is an interpretation of
  \<open>server_contract\<close>, so it holds in every execution.
\<close>

section \<open>Pending requests\<close>

lemma safe_open_request:
  "T \<in> pending_tables \<Longrightarrow> (\<And>c L'. L \<subseteq> L' \<Longrightarrow> safe env j Q (k c) L') \<Longrightarrow> safe env j Q (open_request T key k) L"
  unfolding open_request_def
  by (rule safe_Locked) (auto intro: inv_harmless rule_harmless harmless_open)

lemma safe_await_reply: "(\<And>a L'. L \<subseteq> L' \<Longrightarrow> safe env j Q (k a) L') \<Longrightarrow> safe env j Q (await_reply T key channel k) L"
  unfolding await_reply_def by (rule safe_look)

lemma safe_close_request:
  "T \<in> pending_tables \<Longrightarrow> (\<And>L'. L \<subseteq> L' \<Longrightarrow> safe env j Q k L') \<Longrightarrow> safe env j Q (close_request T key k) L"
  unfolding close_request_def
  by (rule safe_change) (auto intro: inv_harmless rule_harmless)

text \<open>A request is opened, a message sent, and the answer awaited.\<close>

lemma safe_ask_agent:
  assumes "T \<in> pending_tables" and send: "sendable env L j c m"
    and k: "\<And>channel L'. L \<subseteq> L' \<Longrightarrow> safe env j Q (k channel) L'" and Q: "\<And>L' e. L \<subseteq> L' \<Longrightarrow> Q L' (Inl e)"
  shows "safe env j Q (open_request T key (\<lambda>channel. ttry (send_required c m) (\<lambda>_. k channel))) L"
proof (rule safe_open_request [OF assms(1)])
  fix channel L'
  assume L': "L \<subseteq> L'"
  show "safe env j Q (ttry (send_required c m) (\<lambda>_. k channel)) L'"
    by (rule safe_ttry [where P = "\<lambda>_ _. True", OF safe_send_required [OF sendable_mono [OF send L']]])
      (use k Q L' in \<open>auto simp: when_ok_def split: sum.splits\<close>)
qed

lemma safe_prepare_tunnel:
  assumes "sendable env L j (ac_sender agent) (TunnelPrepare payload)" and Q: "\<And>L' r. L \<subseteq> L' \<Longrightarrow> Q L' r"
  shows "safe env j Q (prepare_tunnel agent payload) L"
  unfolding prepare_tunnel_def
proof (rule safe_ask_agent [OF _ assms(1)])
  fix channel L'
  assume "L \<subseteq> L'"
  then show "safe env j Q (await_reply reflex_requests (tp_session_id payload) channel (\<lambda>answer. case answer of
       Received (ReflexReply (ReflexSuccess reflex)) \<Rightarrow> Done (Inr (Some reflex))
     | _ \<Rightarrow> close_request reflex_requests (tp_session_id payload) (Done (Inr None)))) L'"
    by (intro safe_calm)
      (use Q in \<open>auto intro!: calm_rules split: awaited.splits agent_reply.splits quic_reflex_result.splits\<close>)
qed (use Q in auto)

lemma safe_await_shell_offer:
  assumes "sendable env L j (ac_sender agent) (ShellStart payload)" and Q: "\<And>L' r. L \<subseteq> L' \<Longrightarrow> Q L' r"
  shows "safe env j Q (await_shell_offer agent payload) L"
  unfolding await_shell_offer_def
proof (rule safe_ask_agent [OF _ assms(1)], goal_cases)
  case (2 channel L')
  then show ?case
    by (intro safe_calm) (use Q in \<open>auto intro!: calm_rules split: awaited.splits agent_reply.splits sum.splits\<close>)
qed (use Q in auto)

text \<open>The loop of the remote desktop: the message of the second round needs no more than that of the first.\<close>

lemma safe_reflex_loop_again:
  assumes "sendable env L j (ac_sender agent) (TunnelPrepare payload)" and Q: "\<And>L' r. L \<subseteq> L' \<Longrightarrow> Q L' r"
  shows "safe env j Q (reflex_loop agent caps payload True) L"
  unfolding reflex_loop.simps [of agent caps payload]
proof (rule safe_ask_agent [OF _ assms(1)], goal_cases)
  case (2 channel L')
  then show ?case
    by (intro safe_calm)
      (use Q in \<open>auto simp: Let_def intro!: calm_rules split: awaited.splits agent_reply.splits quic_reflex_result.splits\<close>)
qed (use Q in auto)

lemma safe_reflex_loop:
  assumes send: "\<And>payload. sendable env L j (ac_sender agent) (TunnelPrepare payload)" and Q: "\<And>L' r. L \<subseteq> L' \<Longrightarrow> Q L' r"
  shows "safe env j Q (reflex_loop agent caps payload False) L"
  unfolding reflex_loop.simps [of agent caps payload]
proof (rule safe_ask_agent [OF _ send], goal_cases)
  case (2 channel L')
  note L' = this
  have again: "safe env j Q (reflex_loop agent caps payload' True) L''" if "L' \<subseteq> L''" for payload' L''
    by (rule safe_reflex_loop_again) (use sendable_mono [OF send] Q L' that in \<open>blast intro: order_trans\<close>)+
  show ?case
    by (auto intro!: safe_await_reply safe_close_request simp: Let_def
        split: awaited.splits agent_reply.splits quic_reflex_result.splits option.splits)
      (use Q L' again in \<open>auto intro: order_trans\<close>)
qed (use Q in auto)

section \<open>Starting a session\<close>

lemma safe_SelfSigned: "(\<And>c. safe env j Q (k c) L) \<Longrightarrow> safe env j Q (SelfSigned k) L"
  by simp

lemma safe_RandomKey: "(\<And>key. length key = 32 \<Longrightarrow> safe env j Q (k key) L) \<Longrightarrow> safe env j Q (RandomKey k) L"
  by simp

text \<open>The first steps of the four functions that ask for the agent's capabilities.\<close>

lemma safe_start:
  assumes k: "\<And>agent sid token caps L'. L \<subseteq> L' \<Longrightarrow> reaches env L' (ac_sender agent) a \<Longrightarrow> Minted j sid \<in> L' \<Longrightarrow>
      safe env j Q (k agent sid token caps) L'"
    and Q: "\<And>L' e. L \<subseteq> L' \<Longrightarrow> Q L' (Inl e)"
  shows "safe env j Q (find_agent e a (\<lambda>agent. NewUuid (\<lambda>sid. NewUuid (\<lambda>token. NewUuid (\<lambda>request_id.
    ttry (request_capabilities agent request_id) (\<lambda>caps. k agent sid token caps)))))) L"
proof (intro safe_find_agent safe_NewUuid safe_calm_ttry calm_request_capabilities, goal_cases)
  case (1 agent L1 sid L2 token L3 request_id L4 L5 caps)
  then have "L1 \<subseteq> L5" by blast
  with 1 show ?case by (intro k reaches_mono [OF 1(2)]) blast+
qed (use Q in \<open>auto intro: order_trans\<close>)

lemma safe_certificate:
  assumes "\<And>cert_pem key_pem e2e_key. length e2e_key = 32 \<Longrightarrow> safe env j Q (k cert_pem key_pem e2e_key) L" and "Q L (Inl e)"
  shows "safe env j Q (SelfSigned (\<lambda>certificate. case certificate of None \<Rightarrow> Done (Inl e)
    | Some (cert_pem, key_pem) \<Rightarrow> RandomKey (\<lambda>e2e_key. k cert_pem key_pem e2e_key))) L"
  by (intro safe_SelfSigned) (use assms in \<open>auto split: option.splits\<close>)

lemma new_session_ok:
  "authorised env L (map_option vi_user_id identity) a \<Longrightarrow> length e2e_key = 32 \<Longrightarrow> happened L now \<Longrightarrow>
   (kind = Shell \<longrightarrow> attached = Some now) \<Longrightarrow> attached \<in> {None, Some now} \<Longrightarrow>
   session_ok env L kind \<lparr>vs_token = token, vs_agent_id = a, vs_viewer_user_id = map_option vi_user_id identity,
     vs_viewer_user_email = Option.bind identity vi_user_email, vs_agent_reflex = agent_reflex, vs_viewer_reflex = None,
     vs_agent_host = host, vs_agent_local_addrs = addrs, vs_e2e_key = e2e_key, vs_relay_url = se_relay_url env,
     vs_created_at = now, vs_attached_at = attached, vs_viewer_connected_at = None, vs_viewer_last_heartbeat_at = None\<rparr>"
  by (cases identity) (auto simp: session_ok_def)

lemma tunnel_sendable:
  "cleared env L j user a \<Longrightarrow> reaches env L c a \<Longrightarrow> L \<subseteq> L' \<Longrightarrow> sendable env L' j c (TunnelPrepare payload)"
  by (auto intro: cleared_mono reaches_mono)

lemma safe_if: "(P \<Longrightarrow> safe env j Q t L) \<Longrightarrow> (\<not> P \<Longrightarrow> safe env j Q u L) \<Longrightarrow> safe env j Q (if P then t else u) L"
  by simp

text \<open>The steps that file transfer, registry and chat sessions have in common: certificate, key, tunnel, new entry, audit.\<close>

context session_table
begin

lemma safe_tunnel_session:
  assumes auth: "cleared env L j user a" and reach: "reaches env L (ac_sender agent) a" and new: "Minted j sid \<in> L"
    and v: "\<And>cert_pem agent_reflex e2e_key now L'. length e2e_key = 32 \<Longrightarrow> authorised env L' user a \<Longrightarrow> happened L' now \<Longrightarrow>
        session_ok env L' kind (viewer_session.truncate (v cert_pem agent_reflex e2e_key now))"
      "\<And>cert_pem agent_reflex e2e_key now. vs_created_at (v cert_pem agent_reflex e2e_key now) = now"
      "\<And>cert_pem agent_reflex e2e_key now. vs_viewer_user_id (v cert_pem agent_reflex e2e_key now) = user"
      "\<And>cert_pem agent_reflex e2e_key now. vs_agent_id (v cert_pem agent_reflex e2e_key now) = a"
    and Q: "\<And>L' r. L \<subseteq> L' \<Longrightarrow> Q L' r"
  shows "safe env j Q (SelfSigned (\<lambda>certificate. case certificate of None \<Rightarrow> Done (Inl e)
    | Some (cert_pem, key_pem) \<Rightarrow> RandomKey (\<lambda>e2e_key.
        ttry (prepare_tunnel agent (payload cert_pem key_pem e2e_key)) (\<lambda>agent_reflex.
        change (\<lambda>now. insert_entry T sid (v cert_pem agent_reflex e2e_key now))
          (audit_start env a identity action target sid metadata url))))) L"
proof (rule safe_certificate)
  fix cert_pem key_pem and e2e_key :: bytes
  assume key: "length e2e_key = 32"
  show "safe env j Q (ttry (prepare_tunnel agent (payload cert_pem key_pem e2e_key)) (\<lambda>agent_reflex.
      change (\<lambda>now. insert_entry T sid (v cert_pem agent_reflex e2e_key now))
        (audit_start env a identity action target sid metadata url))) L"
  proof (rule safe_ttry [where P = "\<lambda>_ _. True", OF safe_prepare_tunnel], goal_cases)
    case 1
    show ?case by (rule tunnel_sendable [OF auth reach order_refl])
  next
    case (4 L2 agent_reflex)
    then show ?case
      by (intro safe_insert) (use v key new Q cleared_mono [OF auth] in \<open>auto simp: opened_def cleared_def intro!: safe_calm\<close>)
  qed (use Q in \<open>auto simp: when_ok_def split: sum.splits\<close>)
qed (use Q in auto)

end

lemma safe_start_file_transfer:
  assumes auth: "cleared env L j (map_option vi_user_id identity) a" and Q: "\<And>L' r. L \<subseteq> L' \<Longrightarrow> Q L' r"
  shows "safe env j Q (start_file_transfer_session env a api_base identity) L"
  unfolding start_file_transfer_session_def
  by (intro safe_start safe_if transfer_sessions.safe_tunnel_session [OF cleared_mono [OF auth]])
    (use Q in \<open>auto simp: viewer_session.truncate_def intro!: new_session_ok\<close>)

lemma safe_start_registry:
  assumes auth: "cleared env L j (map_option vi_user_id identity) a" and Q: "\<And>L' r. L \<subseteq> L' \<Longrightarrow> Q L' r"
  shows "safe env j Q (start_remote_registry_session env a api_base identity) L"
  unfolding start_remote_registry_session_def
  by (intro safe_start safe_if registry_sessions.safe_tunnel_session [OF cleared_mono [OF auth]])
    (use Q in \<open>auto simp: viewer_session.truncate_def intro!: new_session_ok\<close>)

lemma safe_start_chat:
  assumes auth: "cleared env L j (map_option vi_user_id identity) a" and Q: "\<And>L' r. L \<subseteq> L' \<Longrightarrow> Q L' r"
  shows "safe env j Q (start_chat_session env a api_base identity parent) L"
  unfolding start_chat_session_def
  by (intro safe_start safe_if chat_sessions.safe_tunnel_session [OF cleared_mono [OF auth]])
    (use Q in \<open>auto simp: viewer_session.truncate_def intro!: new_session_ok\<close>)

lemma safe_start_remote_desktop:
  assumes auth: "cleared env L j (map_option vi_user_id identity) a" and Q: "\<And>L' r. L \<subseteq> L' \<Longrightarrow> Q L' r"
  shows "safe env j Q (start_remote_desktop_session env a api_base link mode identity preference hide_cursor) L"
  unfolding start_remote_desktop_session_def Let_def
proof (intro safe_start safe_ttry_Done safe_if safe_certificate, goal_cases)
  case (2 agent sid token caps L1 selected cert_pem key_pem e2e_key)
  have send: "sendable env L1 j (ac_sender agent) (TunnelPrepare payload)" for payload
    by (rule tunnel_sendable [OF cleared_mono [OF auth 2(1)] 2(2) order_refl])
  show ?case
  proof (rule safe_ttry [where P = "\<lambda>_ _. True"], goal_cases)
    case 1
    show ?case
      by (intro safe_if safe_reflex_loop safe_ttry [where P = "\<lambda>_ _. True"] safe_send_required send)
        (auto simp: when_ok_def split: sum.splits)
  next
    case (3 L2 r)
    have "L \<subseteq> L2" using 2(1) 3(1) by blast
    then show ?case
      unfolding case_prod_beta
      by (intro desktop_sessions.safe_insert)
        (use 2 3(1) Q cleared_mono [OF auth] in \<open>auto simp: opened_def viewer_session.truncate_def cleared_def
           intro!: new_session_ok safe_calm\<close>)
  qed (use 2(1) Q in auto)
qed (use Q in auto)

text \<open>A shell session may reuse an identifier that the request names.\<close>

lemma safe_shell_ids:
  assumes "\<And>sid token L'. L \<subseteq> L' \<Longrightarrow> Minted j sid \<in> L' \<or> reuse = Some (sid, token) \<Longrightarrow> safe env j Q (k sid token) L'"
  shows "safe env j Q (shell_ids reuse k) L"
proof (cases reuse)
  case None
  show ?thesis
    unfolding shell_ids_def None option.case
    by (intro safe_NewUuid assms) auto
next
  case (Some ids)
  then show ?thesis using assms [OF order_refl] by (cases ids) (simp add: shell_ids_def)
qed

lemma safe_start_shell:
  assumes auth: "cleared env L j (map_option vi_user_id (op_viewer_identity options)) a"
    and reuse: "\<And>sid token. op_reuse_session options = Some (sid, token) \<Longrightarrow> opened L j Shell sid"
    and Q: "\<And>L' r. L \<subseteq> L' \<Longrightarrow> Q L' r"
  shows "safe env j Q (start_shell_session env a options) L"
  unfolding start_shell_session_def Let_def
proof (intro safe_find_agent safe_ttry_Done safe_RandomKey safe_SelfSigned, goal_cases)
  case (1 agent L1 _ e2e_key certificate)
  note start = this
  show ?case
  proof (cases certificate)
    case (Some pems)
    obtain cert_pem key_pem where pems: "pems = (cert_pem, key_pem)" by (cases pems)
    show ?thesis
      unfolding Some pems option.case prod.case
    proof (rule safe_shell_ids, goal_cases)
      case (1 sid token L2)
      note ids = this
      have L2: "L \<subseteq> L2" using start(1) ids(1) by blast
      have new: "opened L2 j Shell sid"
        using ids(2)
      proof
        assume "Minted j sid \<in> L2"
        then show ?thesis by (simp add: opened_def)
      qed (rule opened_mono [OF reuse L2])
      have "sendable env L2 j (ac_sender agent) (ShellStart payload)" for payload
        using cleared_mono [OF auth L2] reaches_mono [OF start(2) ids(1)] by auto
      then show ?case
      proof (rule safe_ttry [where P = "\<lambda>_ _. True", OF safe_await_shell_offer], goal_cases)
        case (3 L3 offer)
        then show ?case
          by (intro shell_sessions.safe_insert)
            (use L2 start(4) Q cleared_mono [OF auth] opened_mono [OF new] in \<open>auto simp: viewer_session.truncate_def cleared_def
               intro!: new_session_ok safe_calm calm_rules\<close>)
      qed (use L2 Q in \<open>auto simp: when_ok_def split: sum.splits\<close>)
    qed
  qed (use start(1) Q in simp)
qed (use Q in auto)

section \<open>Requests that start a session\<close>

lemma clearedI:
  "connects j hs a \<Longrightarrow> signed_in env L j hs user \<Longrightarrow> in_organization env L j a (uc_organization_id user) \<Longrightarrow>
   cleared env L j (Some (vi_user_id (identity_of_user user))) a"
  by (auto simp: identity_of_user_def authorised.simps cleared_def entitled_def)

lemma safe_for_user:
  assumes "connects j hs a"
    and "\<And>user scope L'. L \<subseteq> L' \<Longrightarrow> cleared env L' j (map_option vi_user_id (Some (identity_of_user user))) a \<Longrightarrow>
      safe env j Q (k (user, scope)) L'"
    and "\<And>L' e. L \<subseteq> L' \<Longrightarrow> Q L' (Inl e)"
  shows "safe env j Q (ttry (authorize_device env hs a) k) L"
proof (rule safe_ttry [OF safe_authorize_device], goal_cases)
  case (2 L' r)
  then show ?case
    using assms(2) [OF 2(1)] clearedI [OF assms(1), of env L' "fst r"] by (cases r) simp
qed (use assms(3) in \<open>auto intro: signed_in_mono in_organization_mono\<close>)

lemma safe_connect_device:
  "j = Serve (ConnectDevice hs a) \<Longrightarrow> (\<And>L' r. L \<subseteq> L' \<Longrightarrow> Q L' r) \<Longrightarrow> safe env j Q (connect_device env hs a) L"
  unfolding connect_device_def by (rule safe_for_user) (auto intro!: safe_start_remote_desktop)

lemma safe_connect_file_transfer:
  "j = Serve (ConnectFileTransfer hs a) \<Longrightarrow> (\<And>L' r. L \<subseteq> L' \<Longrightarrow> Q L' r) \<Longrightarrow> safe env j Q (connect_file_transfer env hs a) L"
  unfolding connect_file_transfer_def by (rule safe_for_user) (auto intro!: safe_start_file_transfer)

lemma safe_connect_registry:
  "j = Serve (ConnectRegistry hs a) \<Longrightarrow> (\<And>L' r. L \<subseteq> L' \<Longrightarrow> Q L' r) \<Longrightarrow> safe env j Q (connect_registry env hs a) L"
  unfolding connect_registry_def by (rule safe_for_user) (auto intro!: safe_start_registry)

text \<open>Opening a session from another one: the new session has the user and the device of the old one.\<close>

lemma cleared_again:
  assumes "opens_from j kind sid token" "saw L j kind sid (\<lambda>v'. v' = viewer_session.truncate v)" "vs_token v = token"
    and "session_ok env L kind (viewer_session.truncate v)"
  shows "cleared env L j (map_option vi_user_id (session_identity v)) (vs_agent_id v)"
proof -
  have user: "map_option vi_user_id (session_identity v) = vs_viewer_user_id v"
    by (simp add: session_identity_def option.map_comp o_def option.map_ident)
  have "saw L j kind sid (\<lambda>v'. vs_token v' = token \<and> vs_agent_id v' = vs_agent_id v \<and> vs_viewer_user_id v' = vs_viewer_user_id v)"
    by (rule saw_weaken [OF assms(2)]) (simp add: assms(3))
  then show ?thesis using assms(1,4) unfolding cleared_def entitled_def user session_ok_def by auto
qed

lemma safe_connect_shell:
  assumes j: "j = Serve (ConnectShell hs a query)" and Q: "\<And>L' r. L \<subseteq> L' \<Longrightarrow> Q L' r"
  shows "safe env j Q (connect_shell env hs a query) L"
proof (cases "extract_bearer hs = None")
  case False
  then show ?thesis
    unfolding connect_shell_def Let_def
    by (intro safe_if safe_for_user [where hs = hs])
      (use j Q in \<open>auto simp: opened_def intro!: safe_start_shell split: option.splits\<close>)
next
  case True
  show ?thesis
  proof (cases "(sq_session query, sq_token query)")
    case (Pair s t)
    have fails: "safe env j Q (Done (Inl e)) L" for e using Q by simp
    have with_token: "safe env j Q (with_token desktops ''session not found'' ''invalid session token'' sid token (\<lambda>session.
          if vs_agent_id session \<noteq> a then Done (Inl (forbidden (lit ''session does not match agent''))) else
          ttry (fetch_device_scope env a) (\<lambda>scope. start_shell_session env a
            \<lparr>op_api_base = extract_api_base hs, op_run_as = run_as, op_target_session_id = sq_target_session_id query,
             op_viewer_identity = session_identity session, op_audit_scope = scope, op_audit_action = ''shell.start'',
             op_audit_metadata = [], op_reuse_session = None\<rparr>))) L"
      if ids: "sq_session query = Some sid" "sq_token query = Some token" for sid token run_as
    proof (rule desktop_sessions.safe_with_token, goal_cases)
      case (1 v L')
      have "opens_from j RemoteDesktop sid token" using j True ids by simp
      note auth = cleared_again [OF this 1(2,3,4)]
      show ?case
        by (intro safe_if safe_calm_ttry safe_start_shell)
          (use 1(1) Q auth in \<open>auto intro: cleared_mono\<close>)
    qed (use Q in auto)
    show ?thesis
      unfolding connect_shell_def Let_def
      using True with_token fails by (auto split: option.splits)
  qed
qed

lemma safe_open_desktop_from_shell:
  "j = Serve (OpenDesktopFromShell hs sid token) \<Longrightarrow> (\<And>L' r. L \<subseteq> L' \<Longrightarrow> Q L' r) \<Longrightarrow> safe env j Q (open_desktop_from_shell env hs sid token) L"
  unfolding open_desktop_from_shell_def
  by (rule shell_sessions.safe_with_token) (auto intro!: safe_start_remote_desktop cleared_again)

lemma safe_open_file_transfer_from_shell:
  "j = Serve (OpenFileTransferFromShell hs sid token) \<Longrightarrow> (\<And>L' r. L \<subseteq> L' \<Longrightarrow> Q L' r) \<Longrightarrow> safe env j Q (open_file_transfer_from_shell env hs sid token) L"
  unfolding open_file_transfer_from_shell_def
  by (rule shell_sessions.safe_with_token) (auto intro!: safe_start_file_transfer cleared_again)

lemma safe_open_registry_from_shell:
  "j = Serve (OpenRegistryFromShell hs sid token) \<Longrightarrow> (\<And>L' r. L \<subseteq> L' \<Longrightarrow> Q L' r) \<Longrightarrow> safe env j Q (open_registry_from_shell env hs sid token) L"
  unfolding open_registry_from_shell_def
  by (rule shell_sessions.safe_with_token) (auto intro!: safe_start_registry cleared_again)

lemma safe_open_file_transfer_from_session:
  "j = Serve (OpenFileTransferFromSession hs sid token) \<Longrightarrow> (\<And>L' r. L \<subseteq> L' \<Longrightarrow> Q L' r) \<Longrightarrow> safe env j Q (open_file_transfer_from_session env hs sid token) L"
  unfolding open_file_transfer_from_session_def
  by (rule desktop_sessions.safe_with_token) (auto intro!: safe_start_file_transfer cleared_again)

lemma safe_open_registry_from_session:
  "j = Serve (OpenRegistryFromSession hs sid token) \<Longrightarrow> (\<And>L' r. L \<subseteq> L' \<Longrightarrow> Q L' r) \<Longrightarrow> safe env j Q (open_registry_from_session env hs sid token) L"
  unfolding open_registry_from_session_def
  by (rule desktop_sessions.safe_with_token) (auto intro!: safe_start_registry cleared_again)

lemma safe_open_chat_from_session:
  "j = Serve (OpenChatFromSession hs sid token) \<Longrightarrow> (\<And>L' r. L \<subseteq> L' \<Longrightarrow> Q L' r) \<Longrightarrow> safe env j Q (open_chat_from_session env hs sid token) L"
  unfolding open_chat_from_session_def
  by (rule desktop_sessions.safe_with_token) (auto intro!: safe_start_chat cleared_again)

text \<open>The AI runner.\<close>

lemma safe_for_runner:
  assumes "runner_connects j hs a (trim org)"
    and "\<And>scope L'. L \<subseteq> L' \<Longrightarrow> cleared env L' j None a \<Longrightarrow> safe env j Q (k scope) L'"
    and "\<And>L' e. L \<subseteq> L' \<Longrightarrow> Q L' (Inl e)"
  shows "safe env j Q (ttry (authorize_ai_runner env hs org a) k) L"
proof (rule safe_ttry [OF safe_authorize_ai_runner], goal_cases)
  case (2 L' scope)
  then have "cleared env L' j None a" using assms(1) by (auto simp: authorised.simps cleared_def entitled_def)
  then show ?case by (rule assms(2) [OF 2(1)])
qed (use assms(3) in \<open>auto intro: in_organization_mono\<close>)

lemma safe_then_audit:
  assumes "safe env j (\<lambda>_ _. True) t L" and Q: "\<And>L' r. L \<subseteq> L' \<Longrightarrow> Q L' r" and "\<And>r. calm (audit r)"
  shows "safe env j Q (ttry t (\<lambda>r. ttry (audit r) (\<lambda>_. Done (Inr r)))) L"
proof (rule safe_ttry [where P = "\<lambda>_ _. True"], goal_cases)
  case 1
  show ?case by (rule safe_mono [OF assms(1)]) (auto simp: when_ok_def split: sum.splits)
next
  case (3 L' r)
  show ?case by (rule safe_calm) (use assms(3) Q 3(1) in \<open>auto intro!: calm_rules\<close>)
qed (use Q in auto)

lemma safe_ai_desktop:
  assumes j: "j = Serve (AiDesktop hs a body)" and Q: "\<And>L' r. L \<subseteq> L' \<Longrightarrow> Q L' r"
  shows "safe env j Q (connect_ai_runner_desktop_session_internal env hs a body) L"
  unfolding connect_ai_runner_desktop_session_internal_def Let_def
  by (intro safe_for_runner safe_then_audit safe_start_remote_desktop) (use j Q in auto)

lemma safe_ai_chat:
  assumes j: "j = Serve (AiChatApproval hs a body)" and Q: "\<And>L' r. L \<subseteq> L' \<Longrightarrow> Q L' r"
  shows "safe env j Q (connect_ai_runner_chat_approval_internal env hs a body) L"
  unfolding connect_ai_runner_chat_approval_internal_def
  by (intro safe_for_runner safe_then_audit safe_start_chat) (use j Q in auto)

lemma safe_ai_shell:
  assumes j: "j = Serve (AiShell hs a body)" and Q: "\<And>L' r. L \<subseteq> L' \<Longrightarrow> Q L' r"
  shows "safe env j Q (connect_ai_runner_shell_session_internal env hs a body) L"
  unfolding connect_ai_runner_shell_session_internal_def
  by (intro safe_for_runner safe_start_shell) (use j Q in auto)

section \<open>Scripts\<close>

lemma safe_execute_script:
  assumes j: "j = Serve (ExecuteScript hs a script)" and Q: "\<And>L' r. L \<subseteq> L' \<Longrightarrow> Q L' r"
  shows "safe env j Q (execute_script env hs a script) L"
  unfolding execute_script_def
proof (rule safe_if, goal_cases)
  case 2
  show ?case
  proof (rule safe_ttry [OF safe_authorize_device], goal_cases)
    case (2 L1 r)
    obtain user scope where r: "r = (user, scope)" by (cases r)
    have auth: "signed_in env L1 j hs user" "in_organization env L1 j a (uc_organization_id user)"
        "ds_organization_id scope = uc_organization_id user"
      using 2(2) unfolding r by auto
    let ?valid = "\<lambda>L validation. pv_allowed validation \<longrightarrow> policy_allows env L j script user"
    have valid: "safe env j (when_ok ?valid) (api_request env POST (lit ''/policies/validate'') None
        (Some (validation_body script user scope)) True ''validate command policy'' decode_validation) L1"
      by (rule safe_api_request)
        (use auth(3) in \<open>auto simp: when_ok_def policy_allows_def validate_request_def split: sum.splits\<close>)
    show ?case
      unfolding r prod.case Let_def
    proof (rule safe_ttry [OF valid], goal_cases)
      case (2 L2 validation)
      note allowed = this
      show ?case
      proof (rule safe_if, goal_cases)
        case 1
        show ?case by (rule safe_calm) (use Q \<open>L \<subseteq> L1\<close> allowed(1) in \<open>auto intro!: calm_rules\<close>)
      next
        case 2
        show ?case
        proof (intro safe_find_agent safe_NewUuid safe_ask_agent, goal_cases)
          case (2 agent L3 request_id L4)
          then have L4: "L1 \<subseteq> L4" "L2 \<subseteq> L4" using allowed(1) by auto
          have "script_allowed env L4 j (ac_sender agent) script"
            unfolding script_allowed_def
            by (rule exI [of _ hs], rule exI [of _ a], rule exI [of _ user])
              (use signed_in_mono [OF auth(1) L4(1)] in_organization_mono [OF auth(2) L4(1)] allowed(2) \<open>\<not> \<not> pv_allowed validation\<close>
                policy_allows_mono [OF _ L4(2)] reaches_mono [OF 2(2) 2(3)] j in \<open>auto\<close>)
          then show ?case by simp
        next
          case (3 agent L3 request_id L4 channel L5)
          then show ?case
            by (intro safe_calm) (use Q \<open>L \<subseteq> L1\<close> allowed(1) in \<open>auto intro!: calm_rules split: awaited.splits agent_reply.splits prod.splits\<close>)
        qed (use Q \<open>L \<subseteq> L1\<close> allowed(1) in auto)
      qed
    qed (use Q \<open>L \<subseteq> L1\<close> in \<open>auto intro: policy_allows_mono\<close>)
  qed (use Q in \<open>auto intro: signed_in_mono in_organization_mono\<close>)
qed (use Q in simp)

end
