(* ===== verification/Server_Whole.thy ===== *)
theory Server_Whole
  imports Server_Safe
begin

text \<open>
  The remaining tasks: what a viewer does with its session, what the dashboard and the AI runner see and end, the
  sockets of the agents and the reaper. Then the whole server: every job keeps the contract.
\<close>

section \<open>The viewer and its session\<close>

lemma safe_serve_presence:
  "j = Serve (Connected kind sid token) \<Longrightarrow> (\<And>L' r. L \<subseteq> L' \<Longrightarrow> Q L' r) \<Longrightarrow> safe env j Q (serve_presence kind sid token) L"
  by (cases kind)
    (auto simp: serve_presence_def viewer_connected_def shell_viewer_connected_def file_transfer_viewer_connected_def
       registry_viewer_connected_def chat_viewer_connected_def
     intro!: desktop_sessions.safe_presence desktop_sessions.marks_connected shell_sessions.safe_presence
       shell_sessions.marks_connected transfer_sessions.safe_presence transfer_sessions.marks_connected
       registry_sessions.safe_presence registry_sessions.marks_connected chat_sessions.safe_presence
       chat_sessions.marks_connected)

lemma safe_serve_heartbeat:
  "j = Serve (Heartbeat kind sid token) \<Longrightarrow> (\<And>L' r. L \<subseteq> L' \<Longrightarrow> Q L' r) \<Longrightarrow> safe env j Q (serve_heartbeat kind sid token) L"
  by (cases kind)
    (auto simp: serve_heartbeat_def viewer_heartbeat_def shell_viewer_heartbeat_def file_transfer_viewer_heartbeat_def
       registry_viewer_heartbeat_def chat_viewer_heartbeat_def
     intro!: desktop_sessions.safe_presence desktop_sessions.marks_heartbeat shell_sessions.safe_presence
       shell_sessions.marks_heartbeat transfer_sessions.safe_presence transfer_sessions.marks_heartbeat
       registry_sessions.safe_presence registry_sessions.marks_heartbeat chat_sessions.safe_presence
       chat_sessions.marks_heartbeat)

lemma safe_serve_reflex:
  "j = Serve (Reflex kind sid token reflex) \<Longrightarrow> (\<And>L' r. L \<subseteq> L' \<Longrightarrow> Q L' r) \<Longrightarrow>
   safe env j Q (serve_reflex kind sid token reflex) L"
  by (cases kind)
    (auto simp: serve_reflex_def viewer_reflex_def shell_viewer_reflex_def file_transfer_viewer_reflex_def
       registry_viewer_reflex_def chat_viewer_reflex_def
     intro!: desktop_sessions.safe_report_reflex shell_sessions.safe_report_reflex transfer_sessions.safe_report_reflex
       registry_sessions.safe_report_reflex chat_sessions.safe_report_reflex)

text \<open>The chat handler reads the session a second time before it sends.\<close>

lemma safe_request_chat_relay:
  assumes j: "j = Serve (Relay Chat sid token)" and Q: "\<And>L' r. L \<subseteq> L' \<Longrightarrow> Q L' r"
  shows "safe env j Q (request_chat_relay env sid token) L"
  unfolding request_chat_relay_def
proof (rule chat_sessions.safe_with_token, goal_cases)
  case (1 v L1)
  note first = this
  have saw: "saw L1 j Chat sid (\<lambda>v. vs_token v = token)" by (rule saw_weaken [OF 1(2)]) (simp add: 1(3))
  have owner: "saw L1 j Chat sid (\<lambda>v'. vs_token v' = token \<and> vs_agent_id v' = vs_agent_id v
      \<and> vs_viewer_user_id v' = vs_viewer_user_id v)"
    by (rule saw_weaken [OF 1(2)]) (simp add: 1(3))
  have QD: "safe env j Q (Done r) L'" if "L1 \<subseteq> L'" for r L' using Q that 1(1) by simp
  show ?case
  proof (cases "se_relay_url env")
    case (Some configured)
    show ?thesis
      unfolding Some option.case
    proof (intro safe_if safe_find_agent safe_look, goal_cases)
      case (2 agent L2 now s L3)
      note second = this
      have L3: "L1 \<subseteq> L3" using 2(2,4) by blast
      show ?case
      proof (cases "map_of (tb_get chats s) sid")
        case chat: (Some w)
        show ?thesis
        proof (cases "vs_relay_url w")
          case url: (Some relay_url)
          have send: "sendable env L3 j (ac_sender agent) (RelayPrepare \<lparr>rp_session_id = sid, rp_relay_url = relay_url,
              rp_e2e_key = se_base64_standard env (vs_e2e_key w), rp_mode = ChatMode, rp_selected_display_profile = None,
              rp_hide_cursor = False\<rparr>)"
            unfolding sendable.simps relay_allowed_def
            by (rule exI [of _ Chat], rule exI [of _ token], rule exI [of _ "vs_agent_id v"], rule exI [of _ "vs_viewer_user_id v"],
                rule exI [of _ "viewer_session.truncate w"])
              (use j url saw_mono [OF owner L3] chat_sessions.sawI [OF second(5) chat] first(4) second(3,4) L3
                in \<open>auto simp: session_ok_def intro: authorised_mono reaches_mono\<close>)
          show ?thesis
            unfolding chat url option.case
          proof (rule safe_ttry [where P = "\<lambda>_ _. True", OF safe_send_required [OF send]], goal_cases)
            case (3 L4)
            show ?case
              by (rule chat_sessions.safe_modify [where token = token])
                (use j saw_mono [OF saw] L3 3(1) QD in \<open>auto intro: chat_sessions.marks_heartbeat\<close>)
          qed (use L3 first(1) Q in \<open>auto simp: when_ok_def split: sum.splits\<close>)
        qed (use chat QD L3 in simp)
      qed (use QD L3 in simp)
    qed (use first(1) Q in auto)
  qed (use QD in simp)
qed (use Q in auto)

lemma safe_serve_relay:
  "j = Serve (Relay kind sid token) \<Longrightarrow> (\<And>L' r. L \<subseteq> L' \<Longrightarrow> Q L' r) \<Longrightarrow> safe env j Q (serve_relay env kind sid token) L"
  by (cases kind)
    (auto simp: serve_relay_def request_relay_def request_shell_relay_def request_file_transfer_relay_def
       request_registry_relay_def
     intro!: desktop_sessions.safe_ask_relay shell_sessions.safe_ask_relay transfer_sessions.safe_ask_relay
       registry_sessions.safe_ask_relay safe_request_chat_relay)

text \<open>Connection data are shown to the bearer of the session's token.\<close>

context session_table
begin

lemma safe_connection:
  assumes "\<And>v. k v = Done (Inr (connection_of env v (f v) (g v) (h v) (c v) (d v)))"
  shows "safe env j (when_ok (\<lambda>L. connection_shown env L j kind sid token)) (with_token T missing mismatch sid token k) L"
proof (rule safe_with_token, goal_cases)
  case (1 v L')
  then show ?case
    unfolding assms connection_of_def connection_shown_def by (auto intro: saw_weaken)
qed simp

end

lemma safe_serve_capabilities:
  "safe env j (when_ok (\<lambda>L. connection_shown env L j kind sid token)) (serve_capabilities env kind sid token) L"
  by (cases kind)
    (auto simp: serve_capabilities_def get_session_capabilities_def get_shell_capabilities_def
       get_file_transfer_capabilities_def get_registry_capabilities_def get_chat_capabilities_def Let_def
     intro!: desktop_sessions.safe_connection shell_sessions.safe_connection transfer_sessions.safe_connection
       registry_sessions.safe_connection chat_sessions.safe_connection)

lemma safe_shell_credential:
  "safe env j (when_ok (\<lambda>L. credential_shown env L j sid token)) (get_linux_shell_credential_for_shell_session env sid token) L"
proof (cases token)
  case (Some t)
  show ?thesis
    unfolding get_linux_shell_credential_for_shell_session_def Some option.case
  proof (intro safe_if shell_sessions.safe_with_token, goal_cases)
    case (2 v L')
    show ?case
    proof (cases "vs_viewer_user_id v")
      case user: (Some u)
      have saw: "saw L' j Shell sid (\<lambda>v'. vs_token v' = t \<and> vs_viewer_user_id v' = Some u \<and> vs_agent_id v' = vs_agent_id v)"
        by (rule saw_weaken [OF 2(3)]) (simp add: 2(4) user)
      show ?thesis
        unfolding user option.case
      proof (rule safe_api_request, goal_cases)
        case (1 key r L2)
        then obtain k where "key = Some k" by auto
        with 1 saw_mono [OF saw 1(1)] show ?case
          by (auto simp: when_ok_def credential_shown_def reveal_request_def Some split: sum.splits)
      qed simp
    qed simp
  qed simp_all
qed (simp add: get_linux_shell_credential_for_shell_session_def)

section \<open>The end of sessions\<close>

lemma saw_childI:
  assumes "Section j now s s \<in> L" and "state_ok env L s" and "sid \<in> set (child_chat_ids P parent s)"
  shows "saw_child L j sid parent P"
proof -
  obtain chat where "(sid, chat) \<in> set (tb_get chats s)" and "ch_parent_desktop_session_id chat = Some parent" and "P chat"
    using assms(3) by (auto simp: child_chat_ids_def)
  then show ?thesis
    using assms(1) well_keyed_lookup [OF chat_sessions.table_keyed [OF assms(2)]] unfolding saw_child_def by blast
qed

text \<open>The children of a desktop session are looked up and removed.\<close>

lemma safe_remove_children:
  assumes may: "\<And>sid v now L'. L \<subseteq> L' \<Longrightarrow> saw_child L' j sid parent P \<Longrightarrow> may_end env L' j now Chat sid v"
    and k: "\<And>ids L'. L \<subseteq> L' \<Longrightarrow> safe env j Q (k ids) L'"
  shows "safe env j Q (look (child_chat_ids P parent) (\<lambda>ids. change (\<lambda>_. remove_chats ids) (k ids))) L"
proof (rule safe_look, goal_cases)
  case (1 now s L1)
  note found = this
  show ?case
    unfolding remove_chats_def
  proof (rule safe_change, goal_cases)
    case (1 now' s' L2)
    note child = saw_child_mono [OF saw_childI [OF found(2,3)] 1(1)]
    show ?case
      by (rule chat_sessions.remove_many_ok [OF 1(3)]) (rule may [OF order_trans [OF found(1) 1(1)] child])
  qed (use k found(1) in blast)
qed

lemma safe_end_remote_desktop:
  assumes j: "j = Serve (EndSession RemoteDesktop sid token)" and Q: "\<And>L' r. L \<subseteq> L' \<Longrightarrow> Q L' r"
  shows "safe env j Q (end_remote_desktop_session env sid token) L"
  unfolding end_remote_desktop_session_def
proof (rule desktop_sessions.safe_with_token, goal_cases)
  case (1 v L1)
  note first = this
  have saw: "saw L1 j RemoteDesktop sid (\<lambda>v. vs_token v = token)" by (rule saw_weaken [OF 1(2)]) (simp add: 1(3))
  show ?case
    unfolding take_entry_def
  proof (rule safe_Locked, goal_cases)
    case (1 now s L2)
    have "state_ok env L2 (remove_entry desktops sid s) \<and> rule env L2 j now s (remove_entry desktops sid s)"
      by (rule desktop_sessions.remove_ok [OF 1(3)]) (use saw_mono [OF saw 1(1)] j in simp)
    moreover have "safe env j Q (look (child_chat_ids (\<lambda>_. True) sid) (\<lambda>child_ids.
      change (\<lambda>_. remove_chats child_ids)
      (tbind (notify_agent_session_end (vs_agent_id v) sid ''remote_desktop'') (\<lambda>_.
       tbind (notify_all (map (\<lambda>chat_id. (vs_agent_id v, chat_id)) child_ids) ''chat'') (\<lambda>_.
       audit_end env (vs_agent_id v) (session_identity v) ''remote_desktop.end'' sid []))))) L2"
    proof (rule safe_remove_children, goal_cases)
      case (1 sid' v' now' L3)
      then show ?case using j saw_mono [OF saw] \<open>L1 \<subseteq> L2\<close> by auto
    next
      case (2 ids L3)
      then show ?case by (intro safe_calm) (use Q first(1) \<open>L1 \<subseteq> L2\<close> in \<open>auto intro!: calm_rules\<close>)
    qed
    ultimately show ?case using Q first(1) 1(1) by simp
  qed
qed (rule Q)

lemma safe_serve_end:
  "j = Serve (EndSession kind sid token) \<Longrightarrow> (\<And>L' r. L \<subseteq> L' \<Longrightarrow> Q L' r) \<Longrightarrow> safe env j Q (serve_end env kind sid token) L"
  by (cases kind)
    (auto simp: serve_end_def end_shell_session_def end_file_transfer_session_def end_remote_registry_session_def
       end_chat_session_def
     intro!: safe_end_remote_desktop shell_sessions.safe_end_session transfer_sessions.safe_end_session
       registry_sessions.safe_end_session chat_sessions.safe_end_session)

lemma safe_cleanup:
  assumes j: "j = Serve (Cleanup hs body)" and Q: "\<And>L' r. L \<subseteq> L' \<Longrightarrow> Q L' r"
  shows "safe env j Q (cleanup_ai_runner_session_internal env hs body) L"
  unfolding cleanup_ai_runner_session_internal_def Let_def
proof (intro safe_ttry_Done safe_if, goal_cases)
  case (2 u)
  then show ?case
    by (intro desktop_sessions.safe_remove_owned [OF j] safe_remove_children safe_calm)
      (use j Q in \<open>auto simp: names_kind_def intro!: calm_rules\<close>)
next
  case (3 u)
  then show ?case
    by (intro shell_sessions.safe_remove_owned [OF j] safe_calm) (use Q in \<open>auto simp: names_kind_def intro!: calm_rules\<close>)
next
  case (4 u)
  then show ?case
    by (intro chat_sessions.safe_remove_owned [OF j] safe_calm) (use Q in \<open>auto simp: names_kind_def intro!: calm_rules\<close>)
qed (use Q in auto)

section \<open>The dashboard\<close>

lemma safe_find_in:
  assumes "\<And>found L'. L \<subseteq> L' \<Longrightarrow> safe env j Q (k found) L'" and "\<And>L'. L \<subseteq> L' \<Longrightarrow> safe env j Q otherwise L'"
  shows "safe env j Q (find_in T kind sid k otherwise) L"
  unfolding find_in_def by (rule safe_look) (auto intro: assms split: option.splits)

lemma safe_find_snapshot:
  assumes "\<And>found L'. L \<subseteq> L' \<Longrightarrow> safe env j Q (k found) L'"
  shows "safe env j Q (find_viewer_session_snapshot sid k) L"
  unfolding find_viewer_session_snapshot_def by (intro safe_find_in assms; blast)

lemma safe_viewer_status:
  "safe env j (when_ok (\<lambda>L st. devices_shown env L j hs {sn_agent_id (vr_snapshot st)})) (get_viewer_session_status env hs sid) L"
  unfolding get_viewer_session_status_def
proof (rule safe_ttry [OF safe_require_user_context], goal_cases)
  case (2 L1 user)
  note user = this
  show ?case
  proof (rule safe_find_snapshot, goal_cases)
    case (1 found L2)
    note L2 = this
    show ?case
    proof (cases found)
      case (Some snapshot)
      show ?thesis
        unfolding Some option.case
      proof (rule safe_calm_ttry, goal_cases)
        case (2 L3)
        note L3 = this
        show ?case
        proof (rule safe_ttry [OF safe_fetch_device_scope], goal_cases)
          case (2 L4 scope)
          have "L1 \<subseteq> L4" using L2 L3 2(1) by blast
          with 2(2) user(2) have "devices_shown env L' j hs {sn_agent_id snapshot}"
            if "L4 \<subseteq> L'" "ds_organization_id scope = uc_organization_id user" for L'
            unfolding devices_shown_def using that by (auto intro!: exI [of _ user] intro: signed_in_mono in_organization_mono)
          then show ?case
            by (intro safe_if safe_clock) (auto simp: viewer_status_response_from_snapshot_def Let_def)
        qed (auto intro: in_organization_mono)
      qed simp_all
    qed simp
  qed
qed (auto intro: signed_in_mono)

lemma safe_authorized_snapshots:
  "safe env j (when_ok (\<lambda>L ns. \<forall>n \<in> set ns. in_organization env L j (sn_agent_id n) org)) (authorized_snapshots env org snapshots) L"
proof (induction snapshots arbitrary: L)
  case (Cons snapshot rest)
  show ?case
    unfolding authorized_snapshots.simps
  proof (rule safe_ttry [OF safe_fetch_device_scope], goal_cases)
    case (2 L1 scope)
    note scope = this
    show ?case
    proof (rule safe_ttry [OF Cons.IH], goal_cases)
      case (2 L2 others)
      then show ?case using in_organization_mono [OF scope(2) 2(1)] by auto
    qed (auto intro: in_organization_mono)
  qed (auto intro: in_organization_mono)
qed simp

lemma safe_collect_live:
  "(\<And>ns L'. L \<subseteq> L' \<Longrightarrow> safe env j Q (k ns) L') \<Longrightarrow> safe env j Q (collect_live T kind agent k) L"
  unfolding collect_live_def by (rule safe_Locked) (auto intro: rule_harmless)

lemma safe_viewer_connections:
  "safe env j (when_ok (\<lambda>L ns. devices_shown env L j hs (sn_agent_id ` set ns))) (list_viewer_connections env hs agent) L"
  unfolding list_viewer_connections_def
proof (rule safe_ttry [OF safe_require_user_context], goal_cases)
  case (2 L1 user)
  note user = this
  show ?case
  proof (rule safe_calm_ttry, goal_cases)
    case 1
    show ?case by (auto intro!: calm_rules split: option.splits)
  next
    case (2 L2)
    note L2 = this
    show ?case
    proof (intro safe_collect_live, goal_cases)
      case (1 d L3 sh L4 f L5 r L6 c L7)
      have "L1 \<subseteq> L7" using L2 1 by blast
      note here = signed_in_mono [OF user(2)] this
      show ?case
        by (rule safe_ttry [OF safe_authorized_snapshots])
          (use here in \<open>auto simp: devices_shown_def intro!: exI [of _ user] intro: in_organization_mono\<close>)
    qed
  qed simp
qed (auto intro: signed_in_mono)

section \<open>Sockets of agents\<close>

text \<open>A change of the agent directory.\<close>

lemma agents_update_ok:
  assumes s: "state_ok env L s" and keys: "well_keyed agents"
    and ok: "\<And>a agent. (a, agent) \<in> set agents \<Longrightarrow> enrolled env L (ac_sender agent) a"
    and why: "\<And>a. map_of agents a \<noteq> map_of (st_agents s) a \<Longrightarrow> agent_explained env L j a (map_of (st_agents s) a) (map_of agents a)"
  shows "state_ok env L (s\<lparr>st_agents := agents\<rparr>) \<and> rule env L j now s (s\<lparr>st_agents := agents\<rparr>)"
proof -
  have "entries kind (s\<lparr>st_agents := agents\<rparr>) = entries kind s" for kind
    by (cases kind) (simp_all add: session_defs)
  moreover have "maps_ok (s\<lparr>st_agents := agents\<rparr>) = maps_ok s"
    by (simp add: maps_ok_def requests_of_def pending_defs)
  ultimately show ?thesis using assms unfolding state_ok_def rule_def session_at_def by auto
qed

lemma register_connection_sender [simp]: "ac_sender (register_connection r existing) = ar_sender r"
  by (simp add: register_connection_def Let_def)

lemma safe_register:
  assumes j: "j = Socket hs c frames" and r: "ar_sender r = c" and enrolled: "enrolled env L c a"
    and k: "\<And>L'. L \<subseteq> L' \<Longrightarrow> safe env j Q k L'"
  shows "safe env j Q (change (\<lambda>_. register_agent a r) k) L"
proof (rule safe_change, goal_cases)
  case (1 now s L')
  note here = enrolled_mono [OF enrolled 1(1)]
  have agents: "well_keyed (st_agents s)" "\<And>a agent. (a, agent) \<in> set (st_agents s) \<Longrightarrow> enrolled env L' (ac_sender agent) a"
    using 1(3) unfolding state_ok_def by blast+
  show ?case
    unfolding register_agent_def
    by (rule agents_update_ok [OF 1(3)])
      (use agents here r j in \<open>auto simp: update_conv' agent_explained_def split: if_splits dest: set_update_subset [THEN subsetD]\<close>)
qed (rule k)

lemma safe_enroll:
  assumes j: "j = Socket hs c frames" and token: "extract_agent_registration_token hs = Some token"
  shows "safe env j (when_ok (\<lambda>L _. enrolled env L c a)) (enroll_agent env token a hostname os ip version) L"
proof -
  let ?rest = "[(''hostname'', JStr hostname), (''os'', JStr os), (''ip'', JStr ip), (''version'', json_opt_str version)]"
  let ?body = "json_obj ((''token'', JStr token) # (''agentId'', JStr a) # ?rest)"
  let ?P = "\<lambda>L (enrolled, org). \<exists>q r. Exchanged j q r \<in> L \<and> hr_url q = api_url env (lit ''/rmm/installers/enroll'')
      \<and> hr_body q = Some ?body \<and> api_result (lit ''enroll agent'') decode_enrollment r = Inr (enrolled, org)"
  have "safe env j (when_ok ?P)
    (api_request env POST (lit ''/rmm/installers/enroll'') None (Some ?body) True ''enroll agent'' decode_enrollment) L"
  proof (rule safe_api_request, goal_cases)
    case (1 key r L')
    let ?q = "\<lparr>hr_method = POST, hr_url = api_url env (lit ''/rmm/installers/enroll''), hr_bearer = None,
      hr_server_key = key, hr_body = Some ?body\<rparr>"
    have "?P L' b" if "api_result (lit ''enroll agent'') decode_enrollment r = Inr b" for b
      using that 1(3) by (cases b, intro case_prodI2 exI [of _ ?q] exI [of _ r]) simp
    then show ?case by (simp add: when_ok_def split: sum.splits)
  qed simp
  then show ?thesis
    unfolding enroll_agent_def
  proof (rule safe_ttry, goal_cases)
    case (2 L' r)
    obtain accepted org where r: "r = (accepted, org)" by (cases r)
    have "enrolled env L' c a" if "accepted = True" "trim org \<noteq> []"
      using 2(2) that(2) token unfolding r that(1) prod.case enrolled_def j by blast
    then show ?case unfolding r by simp
  qed auto
qed

lemma safe_handle_hello:
  assumes j: "j = Socket hs c frames" and token: "extract_agent_registration_token hs = Some token"
    and Q: "\<And>L' r. L \<subseteq> L' \<Longrightarrow> Q L' r"
  shows "safe env j Q (handle_hello env token c hello) L"
  unfolding handle_hello_def Let_def
proof (rule safe_ttry [OF safe_enroll [OF j token]], goal_cases)
  case (2 L1 org)
  show ?case
    by (intro safe_calm_ttry safe_calm_tbind safe_register [OF j])
      (use 2 Q in \<open>auto intro: enrolled_mono\<close>)
qed (use Q in \<open>auto intro: enrolled_mono\<close>)

lemma safe_handle_inventory:
  assumes j: "j = Socket hs c frames" and token: "extract_agent_registration_token hs = Some token"
    and Q: "\<And>L' r. L \<subseteq> L' \<Longrightarrow> Q L' r"
  shows "safe env j Q (handle_inventory env token c update) L"
  unfolding handle_inventory_def Let_def
proof (rule safe_ttry [OF safe_enroll [OF j token]], goal_cases)
  case (2 L1 org)
  show ?case
    by (intro safe_calm_ttry safe_calm_tbind safe_register [OF j])
      (use 2 Q in \<open>auto intro: enrolled_mono\<close>)
qed (use Q in \<open>auto intro: enrolled_mono\<close>)

lemma safe_handle_agent_message:
  assumes "j = Socket hs c frames" and "extract_agent_registration_token hs = Some token" and Q: "\<And>L' r. L \<subseteq> L' \<Longrightarrow> Q L' r"
  shows "safe env j Q (handle_agent_message env token c agent_id m) L"
proof (cases "registers m")
  case True
  then show ?thesis
    by (cases m) (use assms in \<open>auto intro!: safe_handle_hello safe_handle_inventory\<close>)
qed (use Q in \<open>auto intro!: safe_calm\<close>)

lemma safe_handle_frames:
  assumes j: "j = Socket hs c frames" and token: "extract_agent_registration_token hs = Some token"
    and Q: "\<And>L' r. L \<subseteq> L' \<Longrightarrow> Q L' r"
  shows "safe env j Q (handle_frames env token c fs agent_id) L"
  using Q
proof (induction fs arbitrary: agent_id L)
  case (Cons f fs)
  have rest: "safe env j Q (handle_frames env token c fs agent') L'" if "L \<subseteq> L'" for agent' L'
    by (rule Cons.IH) (use Cons.prems that in blast)
  show ?case
  proof (cases f)
    case PingDue
    show ?thesis
      unfolding PingDue handle_frames.simps
      by (intro safe_SendTo safe_if rest) (use Cons.prems in simp_all)
  next
    case (TextFrame m)
    show ?thesis
      unfolding TextFrame handle_frames.simps
    proof (rule safe_tbind [where P = "\<lambda>_ _. True", OF safe_handle_agent_message [OF j token]], goal_cases)
      case (3 L' r)
      then show ?case using rest Cons.prems by (cases r) simp_all
    qed simp_all
  next
    case Ignored
    then show ?thesis using rest [OF order_refl] by simp
  next
    case CloseFrame
    then show ?thesis using Cons.prems by simp
  qed
qed simp

lemma safe_disconnect:
  assumes j: "j = Socket hs c frames"
    and k: "\<And>L'. L \<subseteq> L' \<Longrightarrow> left L' j c a \<Longrightarrow> safe env j Q (k True) L'" "\<And>L'. L \<subseteq> L' \<Longrightarrow> safe env j Q (k False) L'"
  shows "safe env j Q (disconnect_unless_replaced a c k) L"
  unfolding disconnect_unless_replaced_def
proof (rule safe_Locked, goal_cases)
  case (1 now s L')
  show ?case
  proof (cases "owns_entry a c s")
    case True
    have agents: "well_keyed (st_agents s)" "\<And>a agent. (a, agent) \<in> set (st_agents s) \<Longrightarrow> enrolled env L' (ac_sender agent) a"
      using 1(3) unfolding state_ok_def by blast+
    have "agent_explained env L' j a' (map_of (st_agents s) a') (map_of (AList.delete a (st_agents s)) a')"
      if "map_of (AList.delete a (st_agents s)) a' \<noteq> map_of (st_agents s) a'" for a'
      using that True j
      by (cases "map_of (st_agents s) a") (auto simp: delete_conv' agent_explained_def owns_entry_def split: if_splits)
    then have "state_ok env L' (s\<lparr>st_agents := AList.delete a (st_agents s)\<rparr>)
        \<and> rule env L' j now s (s\<lparr>st_agents := AList.delete a (st_agents s)\<rparr>)"
      by (intro agents_update_ok [OF 1(3)]) (use agents in \<open>auto dest: set_delete_subset [THEN subsetD]\<close>)
    moreover have "left L' j c a"
      unfolding left_def
      by (rule exI [of _ now], rule exI [of _ s], rule exI [of _ "s\<lparr>st_agents := AList.delete a (st_agents s)\<rparr>"])
        (use 1(2) True in \<open>simp add: delete_conv'\<close>)
    ultimately show ?thesis using True k(1) [OF 1(1)] by simp
  qed (use 1 k(2) in \<open>auto intro: rule_harmless\<close>)
qed

lemma safe_drop_all:
  assumes j: "j = Socket hs c frames" and gone: "left L j c a" and Q: "\<And>L'. L \<subseteq> L' \<Longrightarrow> Q L' ()"
  shows "safe env j Q (drop_sessions shells a (drop_sessions transfers a (drop_sessions desktops a
    (drop_sessions registries a (drop_sessions chats a (Done ())))))) L"
  by (intro shell_sessions.safe_drop_sessions [OF j] transfer_sessions.safe_drop_sessions [OF j]
      desktop_sessions.safe_drop_sessions [OF j] registry_sessions.safe_drop_sessions [OF j]
      chat_sessions.safe_drop_sessions [OF j];
    (rule left_mono [OF gone], blast)?; (simp only: meets.simps, rule Q, blast)?)

lemma safe_handle_socket:
  assumes j: "j = Socket hs c frames" and token: "extract_agent_registration_token hs = Some token"
    and Q: "\<And>L' r. L \<subseteq> L' \<Longrightarrow> Q L' r"
  shows "safe env j Q (handle_socket env token c fs) L"
  unfolding handle_socket_def
proof (rule safe_tbind [where P = "\<lambda>_ _. True", OF safe_handle_frames [OF j token]], goal_cases)
  case (3 L1 agent)
  show ?case
  proof (cases agent)
    case (Some a)
    show ?thesis
      unfolding Some option.case
    proof (rule safe_disconnect [OF j], goal_cases)
      case (1 L2)
      have "safe env j Q (tbind (report_agent_connection_status env a None ''disconnected'' None) (\<lambda>_.
        drop_sessions shells a (drop_sessions transfers a (drop_sessions desktops a
        (drop_sessions registries a (drop_sessions chats a (Done ()))))))) L2"
        by (rule safe_calm_tbind) (use 1 3(1) Q left_mono in \<open>auto intro!: safe_drop_all [OF j]\<close>)
      then show ?case by simp
    qed (use 3(1) Q in simp)
  qed (use 3(1) Q in simp)
qed auto

section \<open>The reaper\<close>

lemma safe_reap_pending:
  "T \<in> pending_tables \<Longrightarrow> (\<And>L'. L \<subseteq> L' \<Longrightarrow> safe env j Q k L') \<Longrightarrow> safe env j Q (reap_pending now T k) L"
  unfolding reap_pending_def by (rule safe_change) (auto intro: inv_harmless rule_harmless)

lemma safe_reap_chats:
  assumes j: "j = Reap" and started: "Section Reap now s0 s0 \<in> L" and k: "\<And>stale L'. L \<subseteq> L' \<Longrightarrow> safe env j Q (k stale) L'"
  shows "safe env j Q (reap_chats now k) L"
  unfolding reap_chats_def
proof (rule safe_Locked, goal_cases)
  case (1 locked_at s L')
  have "state_ok env L' (tb_update chats (hm_retain (\<lambda>_ chat. \<not> stale_chat now locked_at chat)) s)
      \<and> rule env L' j locked_at s (tb_update chats (hm_retain (\<lambda>_ chat. \<not> stale_chat now locked_at chat)) s)"
  proof (rule chat_sessions.shrink_ok [OF 1(3)], goal_cases)
    case (3 sid v)
    then have "stale_chat now locked_at v" by (auto simp: set_hm_retain)
    with started 1(1) show ?case
      unfolding j may_end.simps stale_session_def stale_chat_def by (auto split: option.splits)
  qed (use chat_sessions.table_keyed [OF 1(3)] in \<open>auto simp: set_hm_retain\<close>)
  then show ?case using k [OF 1(1)] by blast
qed

lemma safe_reaper:
  assumes j: "j = Reap" and Q: "\<And>L' r. L \<subseteq> L' \<Longrightarrow> Q L' r"
  shows "safe env j Q session_reaper_pass L"
  unfolding session_reaper_pass_def
proof (rule safe_clock, goal_cases)
  case (1 now s L1)
  have started: "Section Reap now s s \<in> L'" if "L1 \<subseteq> L'" for L' using 1(2) that j by auto
  have Q': "Q L' r" if "L1 \<subseteq> L'" for L' r using 1(1) that Q by blast
  show ?case
    by (intro safe_reap_pending pending_tables_in desktop_sessions.safe_reap_sessions [OF j]
        transfer_sessions.safe_reap_sessions [OF j] registry_sessions.safe_reap_sessions [OF j] safe_reap_chats [OF j]
        safe_calm_tbind calm_notify_all shell_sessions.safe_reap_sessions [OF j];
      (rule started, blast)?; (simp only: meets.simps, rule Q', blast)?)
qed

section \<open>Every job\<close>

lemma safe_respond:
  "safe env j (\<lambda>L r. Q L (rmap f r)) t L \<Longrightarrow> safe env j Q (respond f t) L"
  unfolding respond_def meets_tbind by simp

text \<open>The answers of a job that is not one of the four for which the contract says something.\<close>

lemma answer_other:
  assumes "\<And>kind sid token. j \<noteq> Serve (Capabilities kind sid token)" and "\<And>sid token. j \<noteq> Serve (ShellCredential sid token)"
    and "\<And>hs sid. j \<noteq> Serve (ViewerStatus hs sid)" and "\<And>hs agent. j \<noteq> Serve (ViewerConnections hs agent)"
  shows "answer_ok env j L r"
  using assms by (simp add: answer_ok_def)

lemma safe_respond_calm: "calm t \<Longrightarrow> (\<And>L' r. L \<subseteq> L' \<Longrightarrow> Q L' r) \<Longrightarrow> safe env j Q (respond f t) L"
  by (intro safe_respond safe_calm)

lemma safe_serve: "safe env (Serve r) (answer_ok env (Serve r)) (serve env r) L"
proof (cases r)
  case (ConnectDevice hs a)
  then show ?thesis by (simp, intro safe_respond safe_connect_device) (simp_all add: answer_other)
next
  case (ConnectFileTransfer hs a)
  then show ?thesis by (simp, intro safe_respond safe_connect_file_transfer) (simp_all add: answer_other)
next
  case (ConnectRegistry hs a)
  then show ?thesis by (simp, intro safe_respond safe_connect_registry) (simp_all add: answer_other)
next
  case (ConnectShell hs a q)
  then show ?thesis by (simp, intro safe_respond safe_connect_shell) (simp_all add: answer_other)
next
  case (AiDesktop hs a body)
  then show ?thesis by (simp, intro safe_respond safe_ai_desktop) (simp_all add: answer_other)
next
  case (AiChatApproval hs a body)
  then show ?thesis by (simp, intro safe_respond safe_ai_chat) (simp_all add: answer_other)
next
  case (AiShell hs a body)
  then show ?thesis by (simp, intro safe_respond safe_ai_shell) (simp_all add: answer_other)
next
  case (Cleanup hs body)
  then show ?thesis by (simp, intro safe_respond safe_cleanup) (simp_all add: answer_other)
next
  case (OpenDesktopFromShell hs sid token)
  then show ?thesis by (simp, intro safe_respond safe_open_desktop_from_shell) (simp_all add: answer_other)
next
  case (OpenFileTransferFromShell hs sid token)
  then show ?thesis by (simp, intro safe_respond safe_open_file_transfer_from_shell) (simp_all add: answer_other)
next
  case (OpenRegistryFromShell hs sid token)
  then show ?thesis by (simp, intro safe_respond safe_open_registry_from_shell) (simp_all add: answer_other)
next
  case (OpenFileTransferFromSession hs sid token)
  then show ?thesis by (simp, intro safe_respond safe_open_file_transfer_from_session) (simp_all add: answer_other)
next
  case (OpenRegistryFromSession hs sid token)
  then show ?thesis by (simp, intro safe_respond safe_open_registry_from_session) (simp_all add: answer_other)
next
  case (OpenChatFromSession hs sid token)
  then show ?thesis by (simp, intro safe_respond safe_open_chat_from_session) (simp_all add: answer_other)
next
  case (Connected kind sid token)
  then show ?thesis by (simp, intro safe_respond safe_serve_presence) (simp_all add: answer_other)
next
  case (Heartbeat kind sid token)
  then show ?thesis by (simp, intro safe_respond safe_serve_heartbeat) (simp_all add: answer_other)
next
  case (Reflex kind sid token reflex)
  then show ?thesis by (simp, intro safe_respond safe_serve_reflex) (simp_all add: answer_other)
next
  case (Relay kind sid token)
  then show ?thesis by (simp, intro safe_respond safe_serve_relay) (simp_all add: answer_other)
next
  case (EndSession kind sid token)
  then show ?thesis by (simp, intro safe_respond safe_serve_end) (simp_all add: answer_other)
next
  case (ExecuteScript hs a script)
  then show ?thesis by (simp, intro safe_respond safe_execute_script) (simp_all add: answer_other)
next
  case (Capabilities kind sid token)
  then show ?thesis
    by (simp, intro safe_respond safe_mono [OF safe_serve_capabilities])
      (auto simp: when_ok_def answer_ok_def intro: connection_shown_mono split: sum.splits)
next
  case (ShellCredential sid token)
  then show ?thesis
    by (simp, intro safe_respond safe_mono [OF safe_shell_credential])
      (auto simp: when_ok_def answer_ok_def intro: credential_shown_mono split: sum.splits)
next
  case (ViewerStatus hs sid)
  then show ?thesis
    by (simp, intro safe_respond safe_mono [OF safe_viewer_status])
      (auto simp: when_ok_def answer_ok_def intro: devices_shown_mono split: sum.splits)
next
  case (ViewerConnections hs agent)
  then show ?thesis
    by (simp, intro safe_respond safe_mono [OF safe_viewer_connections])
      (auto simp: when_ok_def answer_ok_def intro: devices_shown_mono split: sum.splits)
qed (simp_all add: safe_respond_calm answer_other fetch_device_details_def)

lemma safe_program: "safe env j (answer_ok env j) (program env j) L"
proof (cases j)
  case (Serve r)
  then show ?thesis using safe_serve by simp
next
  case (Socket hs c frames)
  have "safe env j (answer_ok env j) (respond (\<lambda>_. Acknowledged) (agent_ws env hs c frames)) L"
  proof (cases "extract_agent_registration_token hs")
    case (Some token)
    show ?thesis
      unfolding agent_ws_def Some option.case
      by (intro safe_respond safe_tbind [where P = "\<lambda>_ _. True", OF safe_handle_socket [OF Socket Some]])
        (simp_all add: Socket answer_other)
  qed (simp add: agent_ws_def respond_def Socket answer_other)
  then show ?thesis by (simp add: Socket)
next
  case Reap
  have "safe env j (answer_ok env j) (tbind session_reaper_pass (\<lambda>_. Done (Inr Acknowledged))) L"
    by (rule safe_tbind [where P = "\<lambda>_ _. True", OF safe_reaper [OF Reap]]) (simp_all add: Reap answer_other)
  then show ?thesis by (simp add: Reap)
qed

lemma initial_state_ok: "state_ok env L initial_state"
proof -
  have "entries kind initial_state = []" for kind by (cases kind) (simp_all add: session_defs initial_state_def)
  then show ?thesis by (simp add: state_ok_def maps_ok_def requests_of_def pending_defs initial_state_def)
qed

interpretation server: server_contract env "state_ok env" "rule env" "sendable env" "answer_ok env" for env
proof
  show "state_ok env {} initial_state" by (rule initial_state_ok)
  show "safe env j (answer_ok env j) (program env j) {}" for j by (rule safe_program)
qed (rule inv_mono rule_mono sendable_mono answer_ok_mono, assumption+)+

end
