(* ===== verification/Server_Example.thy ===== *)
theory Server_Example
  imports Server_Whole
begin

text \<open>
  Concrete executions of the control server. \<open>perform\<close> plays a list of moves: a job arrives, a task makes its next step
  with a given input (the time, a generated identifier, an answer of the API backend), a finished task gives its answer.
  Whatever it reaches is a world of \<open>running_server\<close>, so an evaluation shows that an execution exists.
\<close>

section \<open>Playing moves\<close>

datatype input =
    At instant
  | Uuid ustr
  | Certificate "(ustr \<times> ustr) option"
  | Key bytes
  | Sent bool
  | Reply http_outcome

text \<open>The next step of a task: the time and the state after it, the rest of the task, and its event, if it is not a
  section.\<close>

fun react :: "job \<Rightarrow> input \<Rightarrow> instant \<Rightarrow> app_state \<Rightarrow> 'a task \<Rightarrow> (instant \<times> app_state \<times> 'a task \<times> event list) option" where
  "react j (At now) c s (Locked u k) = (if c \<le> now then Some (now, u now s, k now s, []) else None)"
| "react j (Uuid x) c s (NewUuid k) = Some (c, s, k x, [Minted j x])"
| "react j (Certificate x) c s (SelfSigned k) = Some (c, s, k x, [])"
| "react j (Key x) c s (RandomKey k) = (if length x = 32 then Some (c, s, k x, []) else None)"
| "react j (Sent x) c s (SendTo ch m k) = Some (c, s, k x, [Delivered j ch m x])"
| "react j (Reply x) c s (Http q k) = Some (c, s, k x, [Exchanged j q x])"
| "react j _ c s _ = None"

datatype move = Arrive job | Act nat input | Answer nat

type_synonym config = "instant \<times> app_state \<times> (job \<times> (app_error + response) task) list \<times> event list"

fun make :: "server_env \<Rightarrow> move \<Rightarrow> config \<Rightarrow> config option" where
  "make env (Arrive j) (c, s, ts, es) = Some (c, s, ts @ [(j, program env j)], es)"
| "make env (Act i x) (c, s, ts, es) =
     (if i < length ts then
        (case ts ! i of (j, t) \<Rightarrow>
           (case react j x c s t of
              None \<Rightarrow> None
            | Some (c', s', t', e) \<Rightarrow> Some (c', s', ts[i := (j, t')], e @ es)))
      else None)"
| "make env (Answer i) (c, s, ts, es) =
     (if i < length ts then
        (case ts ! i of (j, Done r) \<Rightarrow> Some (c, s, take i ts @ drop (Suc i) ts, Answered j r # es) | _ \<Rightarrow> None)
      else None)"

fun perform :: "server_env \<Rightarrow> move list \<Rightarrow> config \<Rightarrow> config option" where
  "perform env [] cfg = Some cfg"
| "perform env (m # ms) cfg = (case make env m cfg of None \<Rightarrow> None | Some cfg' \<Rightarrow> perform env ms cfg')"

definition no_section :: "event \<Rightarrow> bool" where
  "no_section e \<longleftrightarrow> (case e of Section _ _ _ _ \<Rightarrow> False | _ \<Rightarrow> True)"

definition config_of :: "world \<Rightarrow> config" where
  "config_of w = (wd_clock w, wd_state w, wd_tasks w, filter no_section (wd_log w))"

lemma react_steps:
  assumes "react j x (wd_clock w) (wd_state w) t = Some (c, s, t', e)" and "running w i j t"
  shows "\<exists>w'. step env w w' \<and> config_of w' = (c, s, (wd_tasks w)[i := (j, t')], e @ filter no_section (wd_log w))"
proof (cases t)
  case (Locked u k)
  with assms obtain now where "x = At now" and now: "wd_clock w \<le> now" "c = now" "s = u now (wd_state w)"
    "t' = k now (wd_state w)" "e = []" by (cases x) (auto split: if_splits)
  from assms(2) Locked have "running w i j (Locked u k)" by simp
  from critical [OF this now(1)] show ?thesis
    using now by (intro exI conjI) (assumption, simp add: config_of_def proceed_def no_section_def)
next
  case (NewUuid k)
  with assms obtain y where y: "c = wd_clock w" "s = wd_state w" "t' = k y" "e = [Minted j y]" by (cases x) auto
  from assms(2) NewUuid have "running w i j (NewUuid k)" by simp
  from uuid [OF this, of env y] show ?thesis
    using y by (intro exI conjI) (assumption, simp add: config_of_def proceed_def no_section_def)
next
  case (SelfSigned k)
  with assms obtain y where y: "c = wd_clock w" "s = wd_state w" "t' = k y" "e = []" by (cases x) auto
  from assms(2) SelfSigned have "running w i j (SelfSigned k)" by simp
  from certificate [OF this, of env y] show ?thesis
    using y by (intro exI conjI) (assumption, simp add: config_of_def)
next
  case (RandomKey k)
  with assms obtain y where y: "length y = 32" "c = wd_clock w" "s = wd_state w" "t' = k y" "e = []"
    by (cases x) (auto split: if_splits)
  from assms(2) RandomKey have "running w i j (RandomKey k)" by simp
  from random_key [OF this y(1), of env] show ?thesis
    using y by (intro exI conjI) (assumption, simp add: config_of_def)
next
  case (SendTo ch m k)
  with assms obtain y where y: "c = wd_clock w" "s = wd_state w" "t' = k y" "e = [Delivered j ch m y]" by (cases x) auto
  from assms(2) SendTo have "running w i j (SendTo ch m k)" by simp
  from send [OF this, of env y] show ?thesis
    using y by (intro exI conjI) (assumption, simp add: config_of_def proceed_def no_section_def)
next
  case (Http q k)
  with assms obtain y where y: "c = wd_clock w" "s = wd_state w" "t' = k y" "e = [Exchanged j q y]" by (cases x) auto
  from assms(2) Http have "running w i j (Http q k)" by simp
  from exchange [OF this, of env y] show ?thesis
    using y by (intro exI conjI) (assumption, simp add: config_of_def proceed_def no_section_def)
qed (use assms in \<open>cases x; simp\<close>)

lemma make_steps:
  assumes "make env m (config_of w) = Some cfg" shows "\<exists>w'. step env w w' \<and> config_of w' = cfg"
proof (cases m)
  case (Arrive j)
  then show ?thesis
    using assms arrive [of env w j] by (intro exI conjI) (assumption, simp add: config_of_def)
next
  case (Act i x)
  obtain j t where t: "wd_tasks w ! i = (j, t)" by (cases "wd_tasks w ! i")
  with assms Act obtain c s t' e where i: "i < length (wd_tasks w)" and
    r: "react j x (wd_clock w) (wd_state w) t = Some (c, s, t', e)" and
    cfg: "cfg = (c, s, (wd_tasks w)[i := (j, t')], e @ filter no_section (wd_log w))"
    by (auto simp: config_of_def split: if_splits option.splits)
  have "running w i j t" using t i by (simp add: running_def)
  from react_steps [OF r this] show ?thesis unfolding cfg .
next
  case (Answer i)
  obtain j t where t: "wd_tasks w ! i = (j, t)" by (cases "wd_tasks w ! i")
  with assms Answer obtain r where i: "i < length (wd_tasks w)" "t = Done r" and
    cfg: "cfg = (wd_clock w, wd_state w, take i (wd_tasks w) @ drop (Suc i) (wd_tasks w),
            Answered j r # filter no_section (wd_log w))"
    by (auto simp: config_of_def split: if_splits task.splits)
  have "running w i j (Done r)" using t i by (simp add: running_def)
  from answer [OF this, of env] show ?thesis
    using cfg by (intro exI conjI) (assumption, simp add: config_of_def no_section_def)
qed

lemma perform_runs:
  "running_server env w \<Longrightarrow> perform env ms (config_of w) = Some cfg \<Longrightarrow> \<exists>w'. running_server env w' \<and> config_of w' = cfg"
proof (induction ms arbitrary: w)
  case (Cons m ms)
  then obtain cfg' where m: "make env m (config_of w) = Some cfg'" and ms: "perform env ms cfg' = Some cfg"
    by (auto split: option.splits)
  obtain w' where w': "step env w w'" "config_of w' = cfg'" using make_steps [OF m] by blast
  show ?case using Cons.IH [of w'] go [OF Cons.prems(1) w'(1)] ms w'(2) by simp
qed auto

definition begin_config :: config where
  "begin_config = (0, initial_state, [], [])"

lemma performed:
  assumes "perform env ms begin_config = Some (c, s, ts, es)"
  obtains w where "running_server env w" and "wd_state w = s" and "wd_clock w = c" and "wd_tasks w = ts"
    and "filter no_section (wd_log w) = es"
proof -
  have "config_of initial_world = begin_config" by (simp add: config_of_def initial_world_def begin_config_def)
  with assms perform_runs [OF start, of env ms] that show thesis by (auto simp: config_of_def)
qed

section \<open>Evaluating a task step by step\<close>

text \<open>With these rules the simplifier evaluates a task only as far as its next step.\<close>

lemma lazy_congs:
  "Locked u k = Locked u k" "NewUuid k1 = NewUuid k1" "SelfSigned k2 = SelfSigned k2" "RandomKey k3 = RandomKey k3"
  by (rule refl)+

lemma lazy_SendTo: "ch = ch' \<Longrightarrow> SendTo ch m k = SendTo ch' m k" by simp
lemma lazy_Http: "Http q k = Http q k" by (rule refl)
lemma lazy_tbind: "t = t' \<Longrightarrow> tbind t f = tbind t' f" by simp
lemma lazy_look: "look f k = look f k" by (rule refl)
lemma lazy_clock: "clock k = clock k" by (rule refl)
lemma lazy_change: "change u k = change u k" by (rule refl)

lemmas lazy = lazy_congs lazy_SendTo lazy_Http lazy_tbind lazy_look lazy_clock lazy_change

lemma ttry_unfold: "ttry t f = tbind t (\<lambda>r. case r of Inl e \<Rightarrow> Done (Inl e) | Inr a \<Rightarrow> f a)"
  by (simp add: ttry_def)

lemma lit_eq [simp]: "lit a = lit b \<longleftrightarrow> a = b"
  by (auto simp: lit_def ascii_def inj_map_eq_map inj_def)

section \<open>An example\<close>

text \<open>Two organisations with a device and a user each.\<close>

definition example_env :: server_env where
  "example_env = \<lparr>se_api_base_url = lit ''http://api'', se_telemetry_producer_url = None, se_api_key = Some (lit ''k''),
     se_max_output_bytes = 64, se_max_execution_secs = 30, se_relay_url = Some (lit ''r''), se_base64_standard = (\<lambda>_. []),
     se_base64_url_safe = (\<lambda>_. []), se_rfc3339 = (\<lambda>_. []), se_serialized_time = (\<lambda>_. [])\<rparr>"

definition bearer :: "string \<Rightarrow> headers" where
  "bearer token = [(lit ''authorization'', map of_nat (lit ''Bearer '' @ lit token))]"

definition answer_with :: "(string \<times> json) list \<Rightarrow> http_outcome" where
  "answer_with fs = Responded 200 None (Some (json_obj fs)) []"

definition ok :: "(string \<times> json) list \<Rightarrow> input" where
  "ok fs = Reply (answer_with fs)"

definition hello :: "string \<Rightarrow> incoming" where
  "hello a = AgentHello \<lparr>ah_agent_id = lit a, ah_hostname = lit ''h'', ah_os = lit ''w'', ah_ip = lit ''i'', ah_local_addrs = None,
     ah_version = None, ah_is_admin = True, ah_platform = Windows, ah_features = features_windows\<rparr>"

definition offer :: "string \<Rightarrow> shell_offer" where
  "offer sid = \<lparr>so_session_id = lit sid, so_stream_port = 1, so_host = lit ''h'', so_local_addrs = [], so_reflex = None\<rparr>"

text \<open>The socket of the agent \<open>a\<close> in organisation \<open>org\<close>, up to its registration.\<close>

definition enroll_moves :: "nat \<Rightarrow> string \<Rightarrow> string \<Rightarrow> move list" where
  "enroll_moves i a org = map (Act i)
     [ok [(''enrolled'', JBool True), (''organizationId'', JStr (lit org))],
      ok [(''agentId'', JStr (lit a)), (''hostname'', JStr (lit ''h'')), (''os'', JStr (lit ''w'')), (''ip'', JStr (lit ''i'')),
          (''lastSeen'', JStr (lit ''t''))],
      At 0, ok [], At 0]"

text \<open>A user of organisation \<open>org\<close> is authorised.\<close>

definition sign_in :: "string \<Rightarrow> string \<Rightarrow> input list" where
  "sign_in user org =
     [ok [(''userId'', JStr (lit user)), (''organizationId'', JStr (lit org)), (''role'', JStr (lit ''r''))],
      ok [], ok [(''organizationId'', JStr (lit org))]]"

lemmas example_defs = ok_def answer_with_def hello_def offer_def enroll_moves_def sign_in_def begin_config_def initial_state_def

lemmas task_defs = ttry_unfold look_def clock_def change_def respond_def send_required_def send_ignored_def find_agent_def
  open_request_def await_reply_def poll_reply_def close_request_def api_request_def api_request_with_url_def api_result_def
  nonempty_def insert_entry_def remove_entry_def modify_entry_def answer_request_def with_token_def Let_def

lemmas access_defs = require_user_context_def ensure_device_in_organization_def fetch_device_scope_def authorize_device_def
  decode_user_context_def decode_device_scope_def str_field_def opt_str_field_def bool_field_def json_field_def json_obj_def
  log_audit_event_def

lemmas socket_defs = agent_ws_def handle_socket_def handle_hello_def enroll_agent_def upsert_device_def
  report_agent_connection_status_def register_agent_def register_connection_def decode_enrollment_def
  decode_device_summary_def handle_shell_offer_def handle_shell_output_def normalize_agent_platform_def features_for_agent_def

lemmas shell_defs = connect_shell_def start_shell_session_def check_shell_support_def shell_ids_def await_shell_offer_def
  shell_requests_def shells_def command_requests_def features_windows_def

lemmas header_defs = extract_bearer_def bearer_def header_def header_str_def lit_def trim_def is_whitespace_def
  eq_ignore_ascii_case_def to_ascii_lowercase_def to_ascii_lowercase_char_def

lemma bearer_token [simp]: "extract_bearer (bearer ''a'') = Some (lit ''a'')" "extract_bearer (bearer ''b'') = Some (lit ''b'')"
  by (simp_all add: header_defs)

lemma registration_token [simp]:
  "extract_agent_registration_token (bearer ''a'') = Some (lit ''a'')"
  "extract_agent_registration_token (bearer ''b'') = Some (lit ''b'')"
  by (simp_all add: extract_agent_registration_token_def) (simp_all add: header_defs)

lemma trim_examples [simp]: "trim (lit ''o'') = lit ''o''" "trim (lit ''p'') = lit ''p''" "trim (lit ''h'') = lit ''h''"
  "trim (lit ''x'') = lit ''x''" "trim (lit ''t'') = lit ''t''" "lit ''x'' \<noteq> []" "lit ''t'' \<noteq> []"
  "lit ''o'' \<noteq> []" "lit ''p'' \<noteq> []" "lit ''h'' \<noteq> []"  "lit ''k'' \<noteq> []"
  by (simp_all add: lit_def trim_def is_whitespace_def)

lemma example_env_simps [simp]:
  "se_api_key example_env = Some (lit ''k'')" "se_relay_url example_env = Some (lit ''r'')" "se_max_output_bytes example_env = 64"
  "se_telemetry_producer_url example_env = None"
  by (simp_all add: example_env_def)

text \<open>The jobs of the example. The first device has the identifier \<open>d\<close> and belongs to organisation \<open>o\<close>.\<close>

definition device :: job where
  "device = Socket (bearer ''a'') 0 [TextFrame (hello ''d''), TextFrame (ShellOffer (offer ''s'')),
     TextFrame (ShellOutput \<lparr>out_request_id = lit ''q'', out_output = lit ''x'', out_exit_code = Some 0\<rparr>)]"

definition open_shell :: job where
  "open_shell = Serve (ConnectShell (bearer ''a'') (lit ''d'')
     \<lparr>sq_run_as = None, sq_target_session_id = None, sq_session = None, sq_token = None\<rparr>)"

definition run_script :: job where
  "run_script = Serve (ExecuteScript (bearer ''a'') (lit ''d'') (lit ''x''))"

definition connected :: job where "connected = Serve (Connected Shell (lit ''s'') (lit ''t''))"
definition use_relay :: job where "use_relay = Serve (Relay Shell (lit ''s'') (lit ''t''))"
definition capabilities :: job where "capabilities = Serve (Capabilities Shell (lit ''s'') (lit ''t''))"
definition credential :: job where "credential = Serve (ShellCredential (lit ''s'') (Some (lit ''t'')))"
definition connections :: job where "connections = Serve (ViewerConnections (bearer ''a'') None)"

lemmas job_defs = device_def open_shell_def run_script_def connected_def use_relay_def capabilities_def credential_def
  connections_def

lemma programs_of_jobs:
  "program example_env device = respond (\<lambda>_. Acknowledged) (agent_ws example_env (bearer ''a'') 0
     [TextFrame (hello ''d''), TextFrame (ShellOffer (offer ''s'')),
      TextFrame (ShellOutput \<lparr>out_request_id = lit ''q'', out_output = lit ''x'', out_exit_code = Some 0\<rparr>)])"
  "program example_env open_shell = respond ConnectTo (connect_shell example_env (bearer ''a'') (lit ''d'')
     \<lparr>sq_run_as = None, sq_target_session_id = None, sq_session = None, sq_token = None\<rparr>)"
  "program example_env run_script = respond (\<lambda>(text, code). ScriptResult text code)
     (execute_script example_env (bearer ''a'') (lit ''d'') (lit ''x''))"
  "program example_env connected = respond (\<lambda>_. Acknowledged) (shell_viewer_connected (lit ''s'') (lit ''t''))"
  "program example_env use_relay = respond (\<lambda>_. Acknowledged) (request_shell_relay example_env (lit ''s'') (lit ''t''))"
  "program example_env capabilities = respond ConnectionData (get_shell_capabilities example_env (lit ''s'') (lit ''t''))"
  "program example_env credential =
     respond Credential (get_linux_shell_credential_for_shell_session example_env (lit ''s'') (Some (lit ''t'')))"
  "program example_env connections = respond Connections (list_viewer_connections example_env (bearer ''a'') None)"
  by (simp_all add: job_defs serve_presence_def serve_relay_def serve_capabilities_def)

section \<open>A shell session and a script\<close>

definition shell_moves :: "move list" where
  "shell_moves = Arrive device # enroll_moves 0 ''d'' ''o'' @ Arrive open_shell
     # map (Act 1) (sign_in ''u'' ''o'' @ [At 0, Key (replicate 32 0), Certificate (Some ([], [])), Uuid (lit ''s''), Uuid (lit ''t''),
         At 0, Sent True])
     @ Act 0 (At 0) # map (Act 1) [At 0, At 0, ok []] @ [Answer 1]"

definition script_moves :: "move list" where
  "script_moves = Arrive run_script
     # map (Act 1) (sign_in ''u'' ''o'' @ [ok [(''allowed'', JBool True)], At 0, Uuid (lit ''q''), At 0, Sent True, At 0])
     @ Act 0 (At 0) # map (Act 1) [At 0, At 0, ok []] @ [Answer 1]"

definition viewer_moves :: "move list" where
  "viewer_moves =
     [Arrive connected, Act 1 (At 0), Act 1 (At 0), Act 1 (At 0), Answer 1,
      Arrive use_relay, Act 1 (At 0), Act 1 (At 0), Act 1 (At 0), Act 1 (Sent True), Answer 1,
      Arrive capabilities, Act 1 (At 0), Answer 1,
      Arrive credential, Act 1 (At 0),
      Act 1 (ok [(''agentId'', JStr (lit ''d'')), (''username'', JStr (lit ''n'')), (''password'', JStr (lit ''p''))]), Answer 1,
      Arrive connections, Act 1 (ok [(''userId'', JStr (lit ''u'')), (''organizationId'', JStr (lit ''o'')), (''role'', JStr (lit ''r''))]),
      Act 1 (At 0), Act 1 (At 0), Act 1 (At 0), Act 1 (At 0), Act 1 (At 0), Act 1 (ok [(''organizationId'', JStr (lit ''o''))]),
      Answer 1]"

lemmas viewer_defs = shell_viewer_connected_def presence_def mark_connected_def request_shell_relay_def ask_relay_def
  mark_attached_def get_shell_capabilities_def connection_of_def get_linux_shell_credential_for_shell_session_def
  decode_linux_shell_credential_def opt_i32_field_def list_viewer_connections_def collect_live_def live_snapshots_def
  desktops_def transfers_def registries_def chats_def is_presence_live_def hm_modify_def snapshot_of_def

lemmas script_defs = execute_script_def decode_validation_def log_command_execution_def

lemmas run_defs = example_defs task_defs access_defs socket_defs shell_defs viewer_defs script_defs programs_of_jobs

lemma truncate_example [simp]: "truncate_output (lit ''x'') 64 = (lit ''x'', 1)"
  by (simp add: truncate_output_def lit_def as_i32_def to_utf8_def utf8_char_def Let_def)

text \<open>A device enrols, its user opens a shell session, runs a script and connects the viewer.\<close>

lemma example_performed:
  "\<exists>c s ts es. perform example_env (shell_moves @ script_moves @ viewer_moves) begin_config = Some (c, s, ts, es)
     \<and> session_at Shell s (lit ''s'') \<noteq> None \<and> map_of (st_agents s) (lit ''d'') \<noteq> None
     \<and> (\<exists>p. Delivered open_shell 0 (ShellStart p) True \<in> set es)
     \<and> (\<exists>p. Delivered use_relay 0 (RelayPrepare p) True \<in> set es)
     \<and> Delivered run_script 0 (ShellCommand (lit ''q'') (lit ''x'')) True \<in> set es
     \<and> (\<exists>d. Answered capabilities (Inr (ConnectionData d)) \<in> set es)
     \<and> (\<exists>d. Answered credential (Inr (Credential d)) \<in> set es)
     \<and> (\<exists>n. Answered connections (Inr (Connections [n])) \<in> set es)"
  by (simp add: shell_moves_def script_moves_def viewer_moves_def run_defs session_at_def cong: lazy)

lemma example_world:
  obtains w v p p' d d' n where "running_server example_env w" and "session_at Shell (wd_state w) (lit ''s'') = Some v"
    and "map_of (st_agents (wd_state w)) (lit ''d'') \<noteq> None"
    and "Delivered open_shell 0 (ShellStart p) True \<in> set (wd_log w)"
    and "Delivered use_relay 0 (RelayPrepare p') True \<in> set (wd_log w)"
    and "Delivered run_script 0 (ShellCommand (lit ''q'') (lit ''x'')) True \<in> set (wd_log w)"
    and "Answered capabilities (Inr (ConnectionData d)) \<in> set (wd_log w)"
    and "Answered credential (Inr (Credential d')) \<in> set (wd_log w)"
    and "Answered connections (Inr (Connections [n])) \<in> set (wd_log w)"
proof -
  obtain c s ts es v p p' d d' n where run: "perform example_env (shell_moves @ script_moves @ viewer_moves) begin_config = Some (c, s, ts, es)"
    and facts: "session_at Shell s (lit ''s'') = Some v" "map_of (st_agents s) (lit ''d'') \<noteq> None"
      "Delivered open_shell 0 (ShellStart p) True \<in> set es"
      "Delivered use_relay 0 (RelayPrepare p') True \<in> set es"
      "Delivered run_script 0 (ShellCommand (lit ''q'') (lit ''x'')) True \<in> set es"
      "Answered capabilities (Inr (ConnectionData d)) \<in> set es" "Answered credential (Inr (Credential d')) \<in> set es"
      "Answered connections (Inr (Connections [n])) \<in> set es"
    using example_performed by auto
  obtain w where w: "running_server example_env w" "wd_state w = s" "filter no_section (wd_log w) = es"
    using performed [OF run] by metis
  have "set es \<subseteq> set (wd_log w)" using w(3) by auto
  with that [OF w(1)] facts w(2) show thesis by blast
qed

section \<open>A shell session that another one replaces\<close>

text \<open>A second device \<open>e\<close> in organisation \<open>p\<close>, whose user names the session \<open>s\<close> of the first.\<close>

definition other_device :: job where
  "other_device = Socket (bearer ''b'') 1 [TextFrame (hello ''e''), TextFrame (ShellOffer (offer ''s''))]"

definition open_other :: job where
  "open_other = Serve (ConnectShell (bearer ''b'') (lit ''e'')
     \<lparr>sq_run_as = None, sq_target_session_id = None, sq_session = Some (lit ''s''), sq_token = Some (lit ''z'')\<rparr>)"

lemma programs_of_others:
  "program example_env other_device = respond (\<lambda>_. Acknowledged) (agent_ws example_env (bearer ''b'') 1
     [TextFrame (hello ''e''), TextFrame (ShellOffer (offer ''s''))])"
  "program example_env open_other = respond ConnectTo (connect_shell example_env (bearer ''b'') (lit ''e'')
     \<lparr>sq_run_as = None, sq_target_session_id = None, sq_session = Some (lit ''s''), sq_token = Some (lit ''z'')\<rparr>)"
  by (simp_all add: other_device_def open_other_def)

definition other_moves :: "move list" where
  "other_moves = Arrive other_device # enroll_moves 1 ''e'' ''p'' @ Arrive open_other
     # map (Act 2) (sign_in ''v'' ''p'' @ [At 0, Key (replicate 32 0), Certificate (Some ([], [])), At 0, Sent True])
     @ [Act 1 (At 0), Act 2 (At 0)]"

text \<open>The identifiers the server has generated.\<close>

definition minted :: "event list \<Rightarrow> ustr list" where
  "minted log = concat (map (\<lambda>e. case e of Minted _ x \<Rightarrow> [x] | _ \<Rightarrow> []) log)"

lemma minted_no_section: "minted (filter no_section log) = minted log"
  by (induction log) (auto simp: minted_def no_section_def split: event.splits)

lemma other_performed:
  "\<exists>s ts es u k v v' j. perform example_env (shell_moves @ other_moves) begin_config = Some (0, s, ts, es)
     \<and> 2 < length ts \<and> ts ! 2 = (open_other, Locked u k)
     \<and> session_at Shell s (lit ''s'') = Some v \<and> session_at Shell (u 0 s) (lit ''s'') = Some v'
     \<and> vs_viewer_user_id v = Some (lit ''u'') \<and> vs_viewer_user_id v' = Some (lit ''v'')
     \<and> vs_agent_id v = lit ''d'' \<and> vs_agent_id v' = lit ''e'' \<and> vs_token v = lit ''t''
     \<and> distinct (minted es) \<and> Minted open_other (lit ''s'') \<notin> set es
     \<and> Exchanged j (scope_request example_env (lit ''k'') (lit ''d'')) (answer_with [(''organizationId'', JStr (lit ''o''))]) \<in> set es
     \<and> Exchanged open_other (scope_request example_env (lit ''k'') (lit ''e'')) (answer_with [(''organizationId'', JStr (lit ''p''))]) \<in> set es"
  by (simp add: shell_moves_def other_moves_def run_defs programs_of_others session_at_def identity_of_user_def scope_request_def
      minted_def cong: lazy)
    (simp add: open_other_def open_shell_def)

lemma example_scope:
  "Exchanged j (scope_request example_env (lit ''k'') a) (answer_with [(''organizationId'', JStr (lit [c]))]) \<in> L \<Longrightarrow>
   trim (lit [c]) = lit [c] \<Longrightarrow> in_organization example_env L j a (lit [c])"
  unfolding in_organization_def
  by (rule conjI, simp add: lit_def, rule exI, rule exI,
      rule exI [of _ "\<lparr>ds_organization_id = lit [c], ds_customer_id = None, ds_site_id = None\<rparr>"], rule conjI, assumption)
    (simp add: access_defs api_result_def answer_with_def)

section \<open>A socket that never enrolled\<close>

text \<open>It sends telemetry of the device \<open>d\<close> and then asks for jobs.\<close>

definition impostor :: job where
  "impostor = Socket (bearer ''b'') 1 [TextFrame (TelemetryEvents (lit ''d'') []), TextFrame (JobsPoll PatchJob (lit ''q'') None)]"

lemma program_of_impostor:
  "program example_env impostor = respond (\<lambda>_. Acknowledged) (agent_ws example_env (bearer ''b'') 1
     [TextFrame (TelemetryEvents (lit ''d'') []), TextFrame (JobsPoll PatchJob (lit ''q'') None)])"
  by (simp add: impostor_def)

definition impostor_moves :: "move list" where
  "impostor_moves = Arrive impostor
     # map (Act 0) [ok [(''organizationId'', JStr (lit ''o''))], ok [(''accepted'', JBool True)], ok [(''jobs'', JArr [JStr (lit ''j'')])],
         Sent True]"

lemmas poll_defs = upsert_telemetry_events_def telemetry_url_def require_accepted_def decode_accepted_def for_registered_send_def
  handle_poll_def claim_patch_jobs_for_agent_def decode_jobs_def

lemma other_urls:
  "api_url example_env (scope_path (lit ''d'')) \<noteq> api_url example_env (lit ''/rmm/installers/enroll'')"
  "api_url example_env (lit ''rmm/telemetry/'' @ lit ''events'') \<noteq> api_url example_env (lit ''/rmm/installers/enroll'')"
  "api_url example_env (agent_queue_path (lit ''d'') ''/patch-jobs/claim'') \<noteq> api_url example_env (lit ''/rmm/installers/enroll'')"
  by (simp_all add: api_url_def example_env_def scope_path_def agent_queue_path_def lit_def trim_end_matches_def)

lemma impostor_performed:
  "\<exists>c s ts es. perform example_env impostor_moves begin_config = Some (c, s, ts, es)
     \<and> Delivered impostor 1 (Jobs PatchJob (lit ''q'') [JStr (lit ''j'')]) True \<in> set es
     \<and> (\<exists>q r. Exchanged impostor q r \<in> set es \<and> hr_url q = api_url example_env (agent_queue_path (lit ''d'') ''/patch-jobs/claim''))
     \<and> (\<forall>j q r. Exchanged j q r \<in> set es \<longrightarrow> hr_url q \<noteq> api_url example_env (lit ''/rmm/installers/enroll''))"
  by (simp add: impostor_moves_def run_defs poll_defs program_of_impostor cong: lazy) (auto simp: other_urls)

end
