(* ===== verification/Server_Desktop.thy ===== *)
theory Server_Desktop
  imports Server_Start
begin

text \<open>
  Properties of the start of a remote desktop session that concern its task alone: how often the agent is asked for a
  tunnel, and which display profile is chosen.
\<close>

section \<open>Counting tunnels\<close>

text \<open>On every path through a task, at most so many tunnels are asked for.\<close>

primrec tunnels_le :: "'a task \<Rightarrow> nat \<Rightarrow> bool" where
  "tunnels_le (Done a) = (\<lambda>n. True)"
| "tunnels_le (Locked u k) = (\<lambda>n. \<forall>now s. tunnels_le (k now s) n)"
| "tunnels_le (NewUuid k) = (\<lambda>n. \<forall>x. tunnels_le (k x) n)"
| "tunnels_le (SelfSigned k) = (\<lambda>n. \<forall>x. tunnels_le (k x) n)"
| "tunnels_le (RandomKey k) = (\<lambda>n. \<forall>x. tunnels_le (k x) n)"
| "tunnels_le (SendTo c m k) = (\<lambda>n. \<forall>x. (case m of TunnelPrepare _ \<Rightarrow> 0 < n \<and> tunnels_le (k x) (n - 1) | _ \<Rightarrow> tunnels_le (k x) n))"
| "tunnels_le (Http q k) = (\<lambda>n. \<forall>x. tunnels_le (k x) n)"

lemma tunnels_mono: "tunnels_le t n \<Longrightarrow> n \<le> n' \<Longrightarrow> tunnels_le t n'"
proof (induction t arbitrary: n n')
  case (SendTo c m k)
  have up: "tunnels_le (k x) i \<Longrightarrow> i \<le> i' \<Longrightarrow> tunnels_le (k x) i'" for x i i' by (rule SendTo.IH) auto
  have less: "n - 1 \<le> n' - 1" using SendTo.prems(2) by simp
  show ?case
  proof (cases "\<exists>p. m = TunnelPrepare p")
    case True
    with SendTo.prems(1) have "0 < n \<and> (\<forall>x. tunnels_le (k x) (n - 1))" by auto
    with up [OF _ less] SendTo.prems(2) True show ?thesis by auto
  next
    case False
    then have "tunnels_le (k x) n" for x using SendTo.prems(1) by (cases m) auto
    with up [OF _ SendTo.prems(2)] False show ?thesis by (cases m) simp_all
  qed
qed (simp; blast)+

lemma tunnels_tbind:
  "tunnels_le t m \<Longrightarrow> (\<And>a. tunnels_le (f a) n) \<Longrightarrow> tunnels_le (tbind t f) (m + n)"
proof (induction t arbitrary: m)
  case (Done a)
  then show ?case using tunnels_mono [of "f a" n "m + n"] by simp
next
  case (SendTo c msg k)
  show ?case
  proof (cases "\<exists>p. msg = TunnelPrepare p")
    case True
    then obtain p where p: "msg = TunnelPrepare p" by blast
    with SendTo.prems have m: "0 < m" "\<And>x. tunnels_le (k x) (m - 1)" by auto
    have "tunnels_le (tbind (k x) f) (m - 1 + n)" for x by (rule SendTo.IH [OF _ m(2)]) (use SendTo.prems in auto)
    with m(1) show ?thesis using p by simp
  next
    case False
    then have "tunnels_le (k x) m" for x using SendTo.prems by (cases msg) auto
    then have "tunnels_le (tbind (k x) f) (m + n)" for x by (intro SendTo.IH) (use SendTo.prems in auto)
    then show ?thesis using False by (cases msg) auto
  qed
qed (simp; blast)+

lemma tunnels_ttry:
  "tunnels_le t m \<Longrightarrow> (\<And>a. tunnels_le (f a) n) \<Longrightarrow> tunnels_le (ttry t f) (m + n)"
  unfolding ttry_def by (rule tunnels_tbind) (auto split: sum.splits)

lemma tunnels_ttry_0: "tunnels_le t 0 \<Longrightarrow> (\<And>a. tunnels_le (f a) n) \<Longrightarrow> tunnels_le (ttry t f) n"
  using tunnels_ttry [of t 0 f n] by simp

lemma tunnels_steps [simp]:
  "tunnels_le (look g k) n \<longleftrightarrow> (\<forall>s. tunnels_le (k (g s)) n)"
  "tunnels_le (change u t) n \<longleftrightarrow> tunnels_le t n"
  "tunnels_le (open_request T key k') n \<longleftrightarrow> (\<forall>s :: app_state. tunnels_le (k' (st_next_channel s)) n)"
  "tunnels_le (await_reply T key ch k'') n \<longleftrightarrow> (\<forall>s. tunnels_le (k'' (poll_reply T key ch s)) n)"
  "tunnels_le (close_request T key t) n \<longleftrightarrow> tunnels_le t n"
  "tunnels_le (find_agent e a k3) n \<longleftrightarrow> (\<forall>agent (s :: app_state). map_of (st_agents s) a = Some agent \<longrightarrow> tunnels_le (k3 agent) n)"
  by (auto simp add: look_def change_def open_request_def await_reply_def close_request_def find_agent_def split: option.splits)

lemma tunnels_api [simp]: "tunnels_le (api_request env method path bearer body key what decode) n"
  by (simp add: api_request_def api_request_with_url_def Let_def split: option.splits)

lemma tunnels_send_tunnel:
  "(\<And>a. tunnels_le (f a) n) \<Longrightarrow> tunnels_le (ttry (send_required c (TunnelPrepare p)) f) (Suc n)"
  using tunnels_ttry [of "send_required c (TunnelPrepare p)" 1 f n] by (simp add: send_required_def)

lemma tunnels_reflex_again: "tunnels_le (reflex_loop agent caps payload True) (Suc 0)"
  unfolding reflex_loop.simps [of agent caps payload True]
  by (simp, intro allI tunnels_send_tunnel)
    (auto simp: Let_def split: awaited.splits agent_reply.splits quic_reflex_result.splits)

lemma tunnels_reflex: "tunnels_le (reflex_loop agent caps payload False) (Suc (Suc 0))"
  unfolding reflex_loop.simps [of agent caps payload False]
  by (simp, intro allI tunnels_send_tunnel)
    (auto simp: Let_def tunnels_reflex_again split: awaited.splits agent_reply.splits quic_reflex_result.splits option.splits)

lemma tunnels_scope [simp]: "tunnels_le (fetch_device_scope env a) n"
  unfolding fetch_device_scope_def by (rule tunnels_ttry_0) (auto simp: Let_def)

lemma tunnels_audit [simp]: "tunnels_le (log_audit_event env scope a identity action target result sid metadata) n"
  unfolding log_audit_event_def by (rule tunnels_ttry_0) auto

lemma tunnels_capabilities [simp]: "tunnels_le (request_capabilities agent request_id) n"
  unfolding request_capabilities_def
  by simp (intro allI tunnels_ttry_0, auto simp: send_required_def split: awaited.splits agent_reply.splits)

lemma tunnels_started:
  "tunnels_le (if headless then ttry (send_required c (TunnelPrepare p)) (\<lambda>_. Done (Inr r)) else reflex_loop agent caps p False)
     (Suc (Suc 0))"
  using tunnels_reflex tunnels_send_tunnel [of "\<lambda>_. Done (Inr r)" "Suc 0"] by auto

lemma tunnels_ttry_end: "tunnels_le t n \<Longrightarrow> (\<And>a. tunnels_le (f a) 0) \<Longrightarrow> tunnels_le (ttry t f) n"
  using tunnels_ttry [of t n f 0] by simp

lemma tunnels_intros:
  "(\<And>agent. tunnels_le (k agent) n) \<Longrightarrow> tunnels_le (find_agent e a k) n"
  "(\<And>x. tunnels_le (k1 x) n) \<Longrightarrow> tunnels_le (NewUuid k1) n"
  "(\<And>x. tunnels_le (k2 x) n) \<Longrightarrow> tunnels_le (SelfSigned k2) n"
  "(\<And>x. tunnels_le (k3 x) n) \<Longrightarrow> tunnels_le (RandomKey k3) n"
  "tunnels_le t n \<Longrightarrow> (\<And>x. tunnels_le (f x) n) \<Longrightarrow> tunnels_le (case opt of None \<Rightarrow> t | Some x \<Rightarrow> f x) n"
  "(\<And>x y. tunnels_le (g x y) n) \<Longrightarrow> tunnels_le (case pair of (x, y) \<Rightarrow> g x y) n"
  "tunnels_le (Done r) n"
  by (auto split: option.splits prod.splits)

lemma tunnels_if: "tunnels_le t n \<Longrightarrow> tunnels_le t' n \<Longrightarrow> tunnels_le (if b then t else t') n"
  by simp

lemma tunnels_audit_start [simp]: "tunnels_le (audit_start env a identity action target sid metadata url) n"
  unfolding audit_start_def by (intro tunnels_ttry_0 tunnels_scope tunnels_audit tunnels_intros)

text \<open>C15. To start a remote desktop the agent is asked for a tunnel at most twice: once, and a second time with a legacy
  display profile when its H.264 encoder does not start. The loop of the source ends.\<close>

theorem remote_desktop_at_most_two_tunnels:
  "tunnels_le (start_remote_desktop_session env agent_id api_base link mode identity preference hide_cursor) 2"
  unfolding start_remote_desktop_session_def numeral_2_eq_2 Let_def
  by (intro tunnels_intros tunnels_ttry_0 [OF tunnels_capabilities] tunnels_ttry_0 [of "Done _"] tunnels_if
    tunnels_ttry_end [OF tunnels_started]) simp_all

lemma found: "find P xs = Some x \<Longrightarrow> P x \<and> x \<in> set xs"
  by (induction xs) (auto split: if_splits)

lemma normal_profile:
  "choose_remote_desktop_normal_profile caps = Some profile \<Longrightarrow>
   remote_desktop_profile_supported caps profile \<and> profile \<noteq> profile_screenshot_only"
  unfolding choose_remote_desktop_normal_profile_def choose_remote_desktop_profile_def
  by (auto simp: Let_def profile_modern_gpu_def profile_modern_cpu_def profile_legacy_def profile_experimental_def
    profile_screenshot_only_def lit_def dest!: found split: option.splits if_splits)

lemma preferred_profile:
  "choose_remote_desktop_preferred_profile caps preferred = Some profile \<Longrightarrow>
   remote_desktop_profile_supported caps profile \<and> profile \<noteq> profile_screenshot_only"
  unfolding choose_remote_desktop_preferred_profile_def by (auto dest!: found)

lemma headless_profile:
  "choose_remote_desktop_headless_profile caps = Inr selected \<Longrightarrow>
   remote_desktop_profile_supported caps profile_screenshot_only \<and> selected = Some profile_screenshot_only"
  unfolding choose_remote_desktop_headless_profile_def choose_remote_desktop_profile_def
  by (auto simp: Let_def split: if_splits)

text \<open>The display profile of a session is one the agent offers. For a session on the screen it is never the one that only
  takes screenshots, whatever the caller prefers; a headless session gets exactly that one, or the start is refused.\<close>

theorem display_profile_chosen:
  assumes "select_display_profile mode preference caps = Inr selected"
  shows "(case selected of
      Some profile \<Rightarrow> remote_desktop_profile_supported caps profile
        \<and> (profile = profile_screenshot_only \<longleftrightarrow> mode = HeadlessRemoteDesktopMode)
    | None \<Rightarrow> mode \<noteq> HeadlessRemoteDesktopMode)"
  using assms unfolding select_display_profile_def
  by (auto dest: headless_profile normal_profile preferred_profile split: if_splits option.splits)

definition two_profiles :: rd_capabilities where
  "two_profiles = \<lparr>rc_codecs = [], rc_encoding = [], rc_transports = [], rc_platform = Windows, rc_features = features_windows,
     rc_display_profiles =
       [\<lparr>dp_id = profile_screenshot_only, dp_protocol = [], dp_codec = [], dp_compression = [], dp_priority = 0\<rparr>,
        \<lparr>dp_id = profile_legacy, dp_protocol = [], dp_codec = [], dp_compression = [], dp_priority = 1\<rparr>],
     rc_selected_display_profile = None\<rparr>"

theorem display_profile_chosen_witness:
  "select_display_profile RemoteDesktopMode (Some [profile_screenshot_only]) two_profiles = Inr (Some profile_legacy)
   \<and> remote_desktop_profile_supported two_profiles profile_legacy \<and> profile_legacy \<noteq> profile_screenshot_only"
proof -
  have eq: "select_display_profile RemoteDesktopMode (Some [profile_screenshot_only]) two_profiles = Inr (Some profile_legacy)"
    by (simp add: select_display_profile_def choose_remote_desktop_preferred_profile_def choose_remote_desktop_normal_profile_def
      choose_remote_desktop_profile_def remote_desktop_profile_supported_def two_profiles_def Let_def profile_modern_gpu_def
      profile_legacy_def profile_screenshot_only_def lit_def trim_def is_whitespace_def)
  with display_profile_chosen [OF eq] show ?thesis by simp
qed

end
