(* ===== verification/Server_Properties.thy ===== *)
theory Server_Properties
  imports Server_Example Server_Desktop
begin

text \<open>
  What holds in every execution of the control server, whatever requests and agents arrive, in whatever order the tasks
  run, and whatever the API backend answers. The theorems apply the contract of \<open>Server_Rules\<close>, which \<open>Server_Whole\<close>
  establishes, to the worlds of \<open>running_server\<close>. Each witness takes a world that \<open>Server_Example\<close> reaches.
\<close>

section \<open>Well-formed sessions\<close>

definition session_well_formed :: "server_env \<Rightarrow> instant \<Rightarrow> session_kind \<Rightarrow> viewer_session \<Rightarrow> bool" where
  "session_well_formed env now kind v \<longleftrightarrow>
     length (vs_e2e_key v) = 32 \<and> vs_relay_url v = se_relay_url env
     \<and> (vs_viewer_user_email v = None \<or> vs_viewer_user_id v \<noteq> None)
     \<and> (vs_viewer_connected_at v = None \<or> vs_viewer_last_heartbeat_at v \<noteq> None)
     \<and> (vs_viewer_last_heartbeat_at v = None \<or> vs_attached_at v \<noteq> None)
     \<and> (kind = Shell \<longrightarrow> vs_attached_at v \<noteq> None)
     \<and> vs_created_at v \<le> now
     \<and> (\<forall>t \<in> set_option (vs_attached_at v) \<union> set_option (vs_viewer_connected_at v)
              \<union> set_option (vs_viewer_last_heartbeat_at v). t \<le> now)"

section \<open>Changes of the state\<close>

text \<open>The step from \<open>w\<close> to \<open>w'\<close> is a section of the running job \<open>j\<close>, at time \<open>now\<close>: the newest event of the history.\<close>

definition section_of :: "world \<Rightarrow> world \<Rightarrow> job \<Rightarrow> instant \<Rightarrow> bool" where
  "section_of w w' j now \<longleftrightarrow> j \<in> fst ` set (wd_tasks w) \<and> wd_clock w' = now
     \<and> wd_log w' = Section j now (wd_state w) (wd_state w') # wd_log w"

lemma running_job: "running w i j t \<Longrightarrow> j \<in> fst ` set (wd_tasks w)"
  by (metis fst_conv image_eqI nth_mem running_def)

lemma step_section: "step env w w' \<Longrightarrow> wd_state w' \<noteq> wd_state w \<Longrightarrow> \<exists>j now. section_of w w' j now"
  by (erule stepE) (auto simp: proceed_def section_of_def dest: running_job)

lemma step_rule:
  assumes "running_server env w" and "step env w w'" and "wd_state w' \<noteq> wd_state w"
  shows "\<exists>j now. section_of w w' j now \<and> rule env (set (wd_log w')) j now (wd_state w) (wd_state w')"
proof -
  obtain j now where "section_of w w' j now"
    using step_section [OF assms(2,3)] by blast
  moreover from this have "Section j now (wd_state w) (wd_state w') \<in> set (wd_log w')"
    by (simp add: section_of_def)
  ultimately show ?thesis
    using server.always_change [OF go [OF assms(1,2)]] by blast
qed

lemma first_change:
  "running_server env w \<Longrightarrow> P (wd_state w) \<Longrightarrow> \<not> P initial_state \<Longrightarrow>
   \<exists>w1 w2. running_server env w1 \<and> step env w1 w2 \<and> \<not> P (wd_state w1) \<and> P (wd_state w2)"
proof (induction rule: running_server.induct)
  case (go w w')
  then show ?case by (cases "P (wd_state w)") blast+
qed (simp add: initial_world_def)

lemma session_entry:
  assumes "running_server env w" and "session_at kind (wd_state w) sid = Some v"
  shows "session_ok env (set (wd_log w)) kind v"
  using server.always_invariant [OF assms(1)] assms(2) map_of_SomeD
  unfolding state_ok_def session_at_def by fastforce

lemma no_initial_session [simp]: "session_at kind initial_state sid = None"
  by (cases kind) (simp_all add: session_at_def initial_state_def desktops_def shells_def transfers_def registries_def chats_def)

section \<open>Sessions\<close>

text \<open>C4. Tenant isolation. In every execution of the server, each viewer session in a table was authorised: a session of a
  user, because that user signed in with a bearer token at a request for that device and the API backend said the device
  belongs to the organisation of the user; a session without a user, because a request with the server key named the
  organisation the device belongs to. Sessions opened from other sessions included.\<close>

theorem viewer_sessions_authorised:
  assumes "running_server env w" and "session_at kind (wd_state w) sid = Some v"
  shows "authorised env (set (wd_log w)) (vs_viewer_user_id v) (vs_agent_id v)"
  using session_entry [OF assms] by (simp add: session_ok_def)

theorem viewer_sessions_authorised_witness:
  "\<exists>w v. running_server example_env w \<and> session_at Shell (wd_state w) (lit ''s'') = Some v
     \<and> authorised example_env (set (wd_log w)) (vs_viewer_user_id v) (vs_agent_id v)"
proof -
  obtain w v where w: "running_server example_env w" "session_at Shell (wd_state w) (lit ''s'') = Some v"
    using example_world by metis
  with viewer_sessions_authorised [OF w] show ?thesis by blast
qed

text \<open>C6. Every step that changes an entry of a session table is a critical section of a running job, the one whose event is
  the newest of the history, and this job has one of four causes. It opens the session, under an identifier it generated
  itself, or as a shell session under one that its request, with a bearer token, names; then the job itself was entitled to a session of this user on this
  device (the user signed in and the device is in the user's organisation, or it has the server key and the device is in the organisation it names, or it presented the
  token of a session of this user on this device). Or it is a request of the viewer that presented the token and marks the session,
  which changes neither identity nor keys. Or it ends the session: it presented its token (for a chat also that of its desktop
  session), or has the server key and names the kind, the identifier and the agent of the session, or is the socket of its
  agent, which has left. Or it is the reaper, and the session is stale.\<close>

theorem session_changes_explained:
  assumes "running_server env w" and "step env w w'"
    and "session_at kind (wd_state w') sid \<noteq> session_at kind (wd_state w) sid"
  shows "\<exists>j now. section_of w w' j now
    \<and> explained env (set (wd_log w')) j now kind sid (session_at kind (wd_state w) sid) (session_at kind (wd_state w') sid)"
proof -
  have "wd_state w' \<noteq> wd_state w" using assms(3) by auto
  from step_rule [OF assms(1,2) this] show ?thesis using assms(3) unfolding rule_def by blast
qed

theorem session_changes_explained_witness:
  "\<exists>w w' j now v. running_server example_env w \<and> step example_env w w' \<and> session_at Shell (wd_state w) (lit ''s'') = None
     \<and> session_at Shell (wd_state w') (lit ''s'') = Some v \<and> section_of w w' j now
     \<and> explained example_env (set (wd_log w')) j now Shell (lit ''s'') None (Some v)"
proof -
  obtain w where "running_server example_env w" "session_at Shell (wd_state w) (lit ''s'') \<noteq> None"
    using example_world by (metis option.distinct(1))
  from first_change [of _ _ "\<lambda>s. session_at Shell s (lit ''s'') \<noteq> None", OF this] obtain w1 w2
    where w: "running_server example_env w1" "step example_env w1 w2" "session_at Shell (wd_state w1) (lit ''s'') = None"
      "session_at Shell (wd_state w2) (lit ''s'') \<noteq> None" by auto
  then obtain v where v: "session_at Shell (wd_state w2) (lit ''s'') = Some v" by auto
  with session_changes_explained [OF w(1,2), of Shell "lit ''s''"] w show ?thesis by (metis option.distinct(1))
qed

lemma happened_past: "running_server env w \<Longrightarrow> happened (set (wd_log w)) t \<Longrightarrow> t \<le> wd_clock w"
  using server.always_past unfolding happened_def by (meson order_trans)

text \<open>C10. The tables of the server are well formed in every execution: keys are distinct in all of them, and every session
  has a key of 32 bytes, the relay address of the configuration, an e-mail address only with a user, a connection time only
  with a heartbeat and a heartbeat only with an attachment; a shell session is attached; and none of its times lies in the
  future.\<close>

theorem server_state_well_formed:
  assumes "running_server env w"
  shows "maps_ok (wd_state w) \<and> well_keyed (st_agents (wd_state w)) \<and> well_keyed (entries kind (wd_state w))
    \<and> (session_at kind (wd_state w) sid = Some v \<longrightarrow> session_well_formed env (wd_clock w) kind v)"
proof (intro conjI impI)
  show "session_well_formed env (wd_clock w) kind v" if "session_at kind (wd_state w) sid = Some v"
    using session_entry [OF assms that] happened_past [OF assms] unfolding session_ok_def session_well_formed_def by blast
qed (use server.always_invariant [OF assms] in \<open>auto simp: state_ok_def\<close>)

theorem server_state_well_formed_witness:
  "\<exists>w v. running_server example_env w \<and> session_at Shell (wd_state w) (lit ''s'') = Some v
     \<and> session_well_formed example_env (wd_clock w) Shell v"
proof -
  obtain w v where w: "running_server example_env w" "session_at Shell (wd_state w) (lit ''s'') = Some v"
    using example_world by metis
  with server_state_well_formed [OF w(1), of Shell "lit ''s''" v] show ?thesis by blast
qed

section \<open>Agents\<close>

text \<open>C11. The directory of agents. Every step that changes entry \<open>a\<close> is a critical section of a running socket, the job
  whose event is the newest of the history. When the step registers or replaces \<open>a\<close>, the new entry has the channel of this
  socket, which enrolled as \<open>a\<close> with its token before; when it removes \<open>a\<close>, the old entry had the channel of this socket. In particular a
  socket that is closed late does not remove the one that replaced it.\<close>

theorem directory_changes_explained:
  assumes "running_server env w" and "step env w w'" and "map_of (st_agents (wd_state w')) a \<noteq> map_of (st_agents (wd_state w)) a"
  shows "\<exists>j now. section_of w w' j now
    \<and> agent_explained env (set (wd_log w')) j a (map_of (st_agents (wd_state w)) a) (map_of (st_agents (wd_state w')) a)"
proof -
  have "wd_state w' \<noteq> wd_state w" using assms(3) by auto
  from step_rule [OF assms(1,2) this] show ?thesis using assms(3) unfolding rule_def by blast
qed

theorem directory_changes_explained_witness:
  "\<exists>w w' j now. running_server example_env w \<and> step example_env w w'
     \<and> map_of (st_agents (wd_state w')) (lit ''d'') \<noteq> map_of (st_agents (wd_state w)) (lit ''d'') \<and> section_of w w' j now
     \<and> agent_explained example_env (set (wd_log w')) j (lit ''d'') (map_of (st_agents (wd_state w)) (lit ''d''))
         (map_of (st_agents (wd_state w')) (lit ''d''))"
proof -
  obtain w where "running_server example_env w" "map_of (st_agents (wd_state w)) (lit ''d'') \<noteq> None"
    using example_world by metis
  from first_change [of _ _ "\<lambda>s. map_of (st_agents s) (lit ''d'') \<noteq> None", OF this] obtain w1 w2
    where w: "running_server example_env w1" "step example_env w1 w2"
      "map_of (st_agents (wd_state w2)) (lit ''d'') \<noteq> map_of (st_agents (wd_state w1)) (lit ''d'')"
    by (auto simp: initial_state_def)
  with directory_changes_explained [OF w] show ?thesis by blast
qed

section \<open>Messages that open something on a device\<close>

text \<open>C5. A script reaches a device only in a request in which the user signed in, the device belongs to the organisation of
  the user, the policy service allowed this script for this user, and the socket that gets it had enrolled as that
  device.\<close>

theorem scripts_only_after_policy:
  assumes "running_server env w" and "Delivered j c (ShellCommand request_id script) sent \<in> set (wd_log w)"
  shows "\<exists>hs a user. j = Serve (ExecuteScript hs a script) \<and> signed_in env (set (wd_log w)) j hs user
    \<and> in_organization env (set (wd_log w)) j a (uc_organization_id user)
    \<and> policy_allows env (set (wd_log w)) j script user \<and> reaches env (set (wd_log w)) c a"
  using server.always_send [OF assms] by (simp add: script_allowed_def)

theorem scripts_only_after_policy_witness:
  "\<exists>w hs a user. running_server example_env w
     \<and> Delivered run_script 0 (ShellCommand (lit ''q'') (lit ''x'')) True \<in> set (wd_log w)
     \<and> run_script = Serve (ExecuteScript hs a (lit ''x'')) \<and> policy_allows example_env (set (wd_log w)) run_script (lit ''x'') user"
proof -
  obtain w where w: "running_server example_env w"
    "Delivered run_script 0 (ShellCommand (lit ''q'') (lit ''x'')) True \<in> set (wd_log w)"
    using example_world by metis
  with scripts_only_after_policy [OF w] show ?thesis by blast
qed

text \<open>C12. Messages that open something on a device. The message that prepares a tunnel and the one that starts a shell carry the end-to-end
  key of a session that is being opened; they are sent only by a job that is itself entitled to a session on that device (a
  signed-in user or the server key, with the device in the organisation, or the token of another session on that device),
  and only to a socket that enrolled as the device. The message that asks for a relay connection is sent only by a relay
  request that presented the token of the session it names, to a socket that enrolled as the device of that session, with the
  relay address and the key that the request saw in the session.\<close>

theorem device_messages_authorised:
  assumes "running_server env w" and "Delivered j c m sent \<in> set (wd_log w)"
  shows "(m = TunnelPrepare p \<or> m = ShellStart q \<longrightarrow>
      (\<exists>a user. entitled env (set (wd_log w)) j user a \<and> authorised env (set (wd_log w)) user a \<and> reaches env (set (wd_log w)) c a))
    \<and> (m = RelayPrepare r \<longrightarrow> relay_allowed env (set (wd_log w)) j c r)"
  using server.always_send [OF assms(1,2)] by (auto simp: cleared_def)

theorem device_messages_authorised_witness:
  "(\<exists>w r. running_server example_env w \<and> Delivered use_relay 0 (RelayPrepare r) True \<in> set (wd_log w)
     \<and> relay_allowed example_env (set (wd_log w)) use_relay 0 r)
   \<and> (\<exists>w p a user. running_server example_env w \<and> Delivered open_shell 0 (ShellStart p) True \<in> set (wd_log w)
     \<and> entitled example_env (set (wd_log w)) open_shell user a \<and> reaches example_env (set (wd_log w)) 0 a)"
proof -
  obtain w p r where w: "running_server example_env w" "Delivered use_relay 0 (RelayPrepare r) True \<in> set (wd_log w)"
      "Delivered open_shell 0 (ShellStart p) True \<in> set (wd_log w)"
    using example_world by metis
  from device_messages_authorised [OF w(1,2), of undefined undefined r] device_messages_authorised [OF w(1,3), of undefined p] w
  show ?thesis by blast
qed

section \<open>Answers\<close>

text \<open>C13. Secrets. The connection data of a session, with the end-to-end key, are shown only to a request that presents the
  token of that session; the sudo password of a device is revealed only to a request with the token of a shell session,
  and only after the API backend revealed it for the user and the device of that session.\<close>

theorem secrets_only_for_token:
  assumes "running_server env w" and "Answered (Serve q) (Inr answer) \<in> set (wd_log w)"
  shows "(q = Capabilities kind sid token \<and> answer = ConnectionData d \<longrightarrow>
            connection_shown env (set (wd_log w)) (Serve q) kind sid token d)
    \<and> (q = ShellCredential sid presented \<and> answer = Credential c \<longrightarrow>
            credential_shown env (set (wd_log w)) (Serve q) sid presented c)"
  using server.always_answer [OF assms] by (simp add: answer_ok_def)

theorem secrets_only_for_token_witness:
  "\<exists>w d. running_server example_env w \<and> Answered credential (Inr (Credential d)) \<in> set (wd_log w)
     \<and> credential_shown example_env (set (wd_log w)) credential (lit ''s'') (Some (lit ''t'')) d"
proof -
  obtain w d where w: "running_server example_env w" "Answered credential (Inr (Credential d)) \<in> set (wd_log w)"
    using example_world by metis
  with secrets_only_for_token [of example_env w "ShellCredential (lit ''s'') (Some (lit ''t''))" "Credential d"]
  show ?thesis unfolding credential_def by blast
qed

text \<open>C14. The dashboard shows a user only sessions on devices that the API backend placed in the organisation of that user
  during the same request.\<close>

theorem dashboard_own_organization:
  assumes "running_server env w" and "Answered (Serve q) (Inr answer) \<in> set (wd_log w)"
  shows "(q = ViewerStatus hs sid \<and> answer = Status st \<longrightarrow>
            devices_shown env (set (wd_log w)) (Serve q) hs {sn_agent_id (vr_snapshot st)})
    \<and> (q = ViewerConnections hs agent \<and> answer = Connections snapshots \<longrightarrow>
            devices_shown env (set (wd_log w)) (Serve q) hs (sn_agent_id ` set snapshots))"
  using server.always_answer [OF assms] by (simp add: answer_ok_def)

theorem dashboard_own_organization_witness:
  "\<exists>w n. running_server example_env w \<and> Answered connections (Inr (Connections [n])) \<in> set (wd_log w)
     \<and> devices_shown example_env (set (wd_log w)) connections (bearer ''a'') {sn_agent_id n}"
proof -
  obtain w n where w: "running_server example_env w" "Answered connections (Inr (Connections [n])) \<in> set (wd_log w)"
    using example_world by metis
  then have "devices_shown example_env (set (wd_log w)) connections (bearer ''a'') {sn_agent_id n}"
    using dashboard_own_organization [of example_env w "ViewerConnections (bearer ''a'') None" "Connections [n]"
      "bearer ''a''" _ _ None "[n]"] unfolding connections_def by simp
  with w show ?thesis by blast
qed

section \<open>Where the server falls short\<close>

text \<open>C38. The reaper never removes a shell session: whatever the time, its pass over the shell sessions leaves the state of
  a running server as it is. Such a session is created as attached, so the rule that removes sessions to which no viewer
  came within fifteen minutes never applies to it.\<close>

theorem shell_sessions_never_reaped:
  assumes "running_server env w"
  shows "\<exists>u. reap_sessions started shells k = change u k \<and> (\<forall>now. u now (wd_state w) = wd_state w)"
proof -
  have "\<not> is_unattached_session_stale (vs_created_at v) (vs_attached_at v) started"
    if "(sid, v) \<in> set (st_active_shell_sessions (wd_state w))" for sid v
  proof -
    have "(sid, viewer_session.truncate v) \<in> set (entries Shell (wd_state w))" using that by (force simp: shells_def)
    with server.always_invariant [OF assms] have "session_ok env (set (wd_log w)) Shell (viewer_session.truncate v)"
      unfolding state_ok_def by blast
    then show ?thesis by (auto simp: session_ok_def is_unattached_session_stale_def)
  qed
  then have eq: "hm_retain (\<lambda>_ v. \<not> is_unattached_session_stale (vs_created_at v) (vs_attached_at v) started)
    (st_active_shell_sessions (wd_state w)) = st_active_shell_sessions (wd_state w)"
    unfolding hm_retain_def by (auto intro!: filter_True)
  show ?thesis unfolding reap_sessions_def by (rule exI, rule conjI, rule refl) (simp add: shells_def eq)
qed

theorem shell_sessions_never_reaped_witness:
  "\<exists>w u. running_server example_env w \<and> st_active_shell_sessions (wd_state w) \<noteq> []
     \<and> reap_sessions (secs 100000) shells (Done ()) = change u (Done ()) \<and> u (secs 100000) (wd_state w) = wd_state w"
proof -
  obtain w v where w: "running_server example_env w" "session_at Shell (wd_state w) (lit ''s'') = Some v"
    using example_world by metis
  then have "st_active_shell_sessions (wd_state w) \<noteq> []" by (auto simp: session_at_def shells_def)
  with w shell_sessions_never_reaped [OF w(1), of "secs 100000" "Done ()"] show ?thesis by blast
qed

text \<open>C39. A user can replace the shell session of another organisation, knowing only its identifier: there is an execution, in
  which no identifier is ever generated twice, and in it a shell session of one user, on a device of that user's organisation, is overwritten in
  a section of a \<open>connect_shell\<close> request of another user, by a session of that user on a device of another organisation. The query of
  this request names the identifier of the session, which the request did not generate, and does not have its token.\<close>

theorem shell_session_replaced_across_organizations:
  "\<exists>env w w' hs a q now sid v v' j o1 o2. running_server env w \<and> step env w w'
     \<and> section_of w w' (Serve (ConnectShell hs a q)) now
     \<and> sq_session q = Some sid \<and> sq_token q \<noteq> Some (vs_token v)
     \<and> distinct (minted (wd_log w')) \<and> Minted (Serve (ConnectShell hs a q)) sid \<notin> set (wd_log w')
     \<and> session_at Shell (wd_state w) sid = Some v \<and> session_at Shell (wd_state w') sid = Some v'
     \<and> vs_viewer_user_id v \<noteq> vs_viewer_user_id v'
     \<and> in_organization env (set (wd_log w)) j (vs_agent_id v) o1
     \<and> in_organization env (set (wd_log w)) (Serve (ConnectShell hs a q)) (vs_agent_id v') o2 \<and> o1 \<noteq> o2"
proof -
  obtain s ts es u k v v' j where run: "perform example_env (shell_moves @ other_moves) begin_config = Some (0, s, ts, es)"
    and task: "2 < length ts" "ts ! 2 = (open_other, Locked u k)"
    and v: "session_at Shell s (lit ''s'') = Some v" "session_at Shell (u 0 s) (lit ''s'') = Some v'"
      "vs_viewer_user_id v = Some (lit ''u'')" "vs_viewer_user_id v' = Some (lit ''v'')"
      "vs_agent_id v = lit ''d''" "vs_agent_id v' = lit ''e''" "vs_token v = lit ''t''"
    and ids: "distinct (minted es)" "Minted open_other (lit ''s'') \<notin> set es"
    and es: "Exchanged j (scope_request example_env (lit ''k'') (lit ''d'')) (answer_with [(''organizationId'', JStr (lit ''o''))]) \<in> set es"
      "Exchanged open_other (scope_request example_env (lit ''k'') (lit ''e'')) (answer_with [(''organizationId'', JStr (lit ''p''))]) \<in> set es"
    using other_performed by blast
  obtain w where w: "running_server example_env w" "wd_state w = s" "wd_clock w = 0" "wd_tasks w = ts"
    "filter no_section (wd_log w) = es"
    using performed [OF run] by metis
  have running: "running w 2 open_other (Locked u k)" using task w(4) by (simp add: running_def)
  define w' where "w' = proceed 2 open_other (k 0 (wd_state w)) (Section open_other 0 (wd_state w) (u 0 (wd_state w)))
    (w\<lparr>wd_clock := 0, wd_state := u 0 (wd_state w)\<rparr>)"
  have step: "step example_env w w'"
    unfolding w'_def by (rule critical [OF running]) (simp add: w(3))
  have sec: "section_of w w' open_other 0"
    using running_job [OF running] by (simp add: section_of_def w'_def proceed_def)
  have log: "set es \<subseteq> set (wd_log w)" using w(5) by auto
  have new: "distinct (minted (wd_log w'))" "Minted open_other (lit ''s'') \<notin> set (wd_log w')"
    using ids w(5) minted_no_section [of "wd_log w"] by (auto simp: w'_def proceed_def minted_def no_section_def)
  have v': "session_at Shell (wd_state w) (lit ''s'') = Some v" "session_at Shell (wd_state w') (lit ''s'') = Some v'"
    "vs_viewer_user_id v \<noteq> vs_viewer_user_id v'" using v w(2) by (simp_all add: w'_def proceed_def)
  have org: "in_organization example_env (set (wd_log w)) j (vs_agent_id v) (lit ''o'')"
    "in_organization example_env (set (wd_log w)) open_other (vs_agent_id v') (lit ''p'')"
    using in_organization_mono [OF example_scope [OF es(1)] log] in_organization_mono [OF example_scope [OF es(2)] log] v(5,6)
    by simp_all
  let ?q = "\<lparr>sq_run_as = None, sq_target_session_id = None, sq_session = Some (lit ''s''), sq_token = Some (lit ''z'')\<rparr>"
  show ?thesis
    by (rule exI [of _ example_env], rule exI [of _ w], rule exI [of _ w'], rule exI [of _ "bearer ''b''"],
        rule exI [of _ "lit ''e''"], rule exI [of _ ?q], rule exI [of _ 0], rule exI [of _ "lit ''s''"], rule exI [of _ v],
        rule exI [of _ v'], rule exI [of _ j], rule exI [of _ "lit ''o''"], rule exI [of _ "lit ''p''"])
      (use w(1) step sec new v' org v(7) in \<open>simp add: open_other_def\<close>)
qed

text \<open>C40. A socket that never enrolled can take the jobs of a device: there is an execution in which a socket, to which the
  API backend never granted an enrolment, claims the patch jobs of a device and receives them. A message with telemetry is
  enough to make the server treat the socket as the device the message names.\<close>

theorem unenrolled_socket_receives_jobs:
  "\<exists>env w hs c frames request_id jobs a q r. running_server env w
     \<and> Delivered (Socket hs c frames) c (Jobs PatchJob request_id jobs) True \<in> set (wd_log w) \<and> jobs \<noteq> []
     \<and> Exchanged (Socket hs c frames) q r \<in> set (wd_log w) \<and> hr_url q = api_url env (agent_queue_path a ''/patch-jobs/claim'')
     \<and> \<not> enrolled env (set (wd_log w)) c a"
proof -
  obtain c s ts es q r where run: "perform example_env impostor_moves begin_config = Some (c, s, ts, es)"
    and es: "Delivered impostor 1 (Jobs PatchJob (lit ''q'') [JStr (lit ''j'')]) True \<in> set es" "Exchanged impostor q r \<in> set es"
      "hr_url q = api_url example_env (agent_queue_path (lit ''d'') ''/patch-jobs/claim'')"
      "\<And>j q r. Exchanged j q r \<in> set es \<Longrightarrow> hr_url q \<noteq> api_url example_env (lit ''/rmm/installers/enroll'')"
    using impostor_performed by metis
  obtain w where w: "running_server example_env w" "filter no_section (wd_log w) = es"
    using performed [OF run] by metis
  have "Exchanged j q r \<in> set es" if "Exchanged j q r \<in> set (wd_log w)" for j q r
    using that w(2) by (auto simp: no_section_def)
  then have "\<not> enrolled example_env (set (wd_log w)) 1 (lit ''d'')" using es(4) unfolding enrolled_def by blast
  moreover have "set es \<subseteq> set (wd_log w)" using w(2) by auto
  ultimately show ?thesis using w(1) es(1,2,3) unfolding impostor_def by blast
qed

end
