(* ===== verification/Spec2Isabelle.thy ===== *)
theory Spec2Isabelle
  imports Wire_Frames Display_Records Tile_Stream Tile_Picture Tile_Merge Exact_Map Atlas_Plan Relay_Copy Relay_Pairing
    Compositor_Records Supervisor_Update Appliance_Properties Server_Properties
begin

text \<open>
  Talos Community is a remote-management system. An agent on each managed device (worker, worker helper, supervisor)
  keeps a socket to the control server; the web dashboard and an AI runner ask the control server for sessions; a viewer
  program connects to the device, directly or through a relay; and an installer (the appliance) deploys and updates the
  servers. This development models the parts of that system whose behaviour is code of the repository and proves what they
  promise. Paths below are relative to \<open>src/apps\<close>.

  \<^bold>\<open>Shared theories.\<close> \<open>Talos_Prelude\<close> has the machine integers, checked, saturating and wrapping arithmetic, slices that can
  panic, results with errors as values, and the integer encodings with their round trips; \<open>Rust_Strings\<close> what the
  sources use of Rust's strings. Every component theory imports them.

  \<^bold>\<open>Wire formats\<close> (\<open>talos_protocol/src/lib.rs\<close>, readers in \<open>talos_worker/src\<close>). \<open>Wire_Frames\<close>: control, shell, chat and file-transfer
  frames; the locales \<open>frame_codec\<close> and \<open>frame_reader\<close> are the contract of building and parsing, and of reading a stream frame
  by frame. \<open>Display_Records\<close>: the seven display records, builders and decoder; a frame decodes to a record exactly when it
  is the frame built for that record, and no bytes make the decoder panic.

  \<^bold>\<open>Tile commands\<close> (\<open>talos_worker_helper/src/tile_commands.rs\<close>). \<open>Tile_Commands\<close> has the data, the writers, the loops over a
  stream, the wire chunks and the merging of solid tiles; \<open>Tile_Decode\<close> the pixel decoders. \<open>Tile_Stream\<close> relates the loops to
  lists of commands (locale \<open>command_walk\<close>); \<open>Tile_Paint\<close> and \<open>Tile_Picture\<close> show that decoding a stream computes its picture
  (locale \<open>painter\<close>, one interpretation per command kind); \<open>Tile_Merge\<close> that merging leaves the picture unchanged, for
  sound commands with disjoint rectangles; \<open>Exact_Map\<close> has the state of the encoder and its operations, and shows that along every run
  (\<open>encoder_run\<close>) its map of exactly transmitted tiles is sound.

  \<^bold>\<open>Capture atlas\<close> (\<open>talos_worker_helper/src/atlas.rs\<close>). \<open>Atlas\<close>, \<open>Atlas_Geometry\<close> and \<open>Atlas_Plan\<close>: merging, splitting, packing and
  tiling of dirty rectangles, as sets of pixels (locale \<open>region_step\<close>); the plan of a frame covers every pixel of the dirty
  rectangles that lie in the frame.

  \<^bold>\<open>Viewer compositor\<close> (\<open>talos_viewer/src-tauri/src/display_delta.rs\<close>). \<open>Compositor\<close> is the state and every record arm;
  \<open>Compositor_Pixels\<close> the pixel operations; \<open>Compositor_Queue\<close> the queue of deferred frames; \<open>Compositor_Records\<close> the invariant and
  the one record that breaks the code.

  \<^bold>\<open>Relay\<close> (\<open>talos_relay/src/main.rs\<close>, client side \<open>talos_protocol/src/relay_transport.rs\<close>). \<open>Relay_Transport\<close>: target, HTTP head, encrypted
  frames; \<open>Relay_Server\<close>: handshake, pending connections, clean-up, frame probe, copy loop (the step relation \<open>copy_step\<close>).
  \<open>Relay_Pairing\<close> shows whom the relay pairs, \<open>Relay_Copy\<close> that it forwards faithfully and ends.

  \<^bold>\<open>Updates\<close> (\<open>talos_update_common/src/lib.rs\<close>, \<open>talos_supervisor/src\<close>). \<open>Update_Common\<close> and \<open>Update_Download\<close>: manifests, checks and
  downloads; \<open>Supervisor\<close> and \<open>Supervisor_Update\<close>: the update cycle and the replacement of files. Every disk operation takes
  the next entry of a list of faults, so a theorem covers every combination of failures.

  \<^bold>\<open>Installer\<close> (\<open>talos_appliance/src\<close>). \<open>Appliance\<close>: configuration and journal (\<open>config.rs\<close>, \<open>state.rs\<close>); \<open>Orchestrator\<close>,
  \<open>Appliance_Commands\<close>: backups and commands (\<open>backup.rs\<close>, \<open>orchestrator.rs\<close>) on a machine where each operation can fail and
  the process can die before or after it. \<open>Appliance_Phases\<close> has the proof rules (locale \<open>phase\<close>), \<open>Appliance_Backup\<close> and
  \<open>Appliance_Safety\<close> the invariant of every history of commands, \<open>Appliance_Example\<close> a concrete installation, and
  \<open>Appliance_Properties\<close> what whole commands achieve and where they get stuck.

  \<^bold>\<open>Control server\<close> (\<open>talos_server/src/main.rs\<close>, \<open>agent_directory.rs\<close>, \<open>remediation.rs\<close>, \<open>config.rs\<close>). \<open>Server_State\<close> is \<open>AppState\<close> and the
  data exchanged with the API backend; \<open>Server_Task\<close> the tasks: an \<open>async\<close> handler is the tree of its steps, one node per
  critical section, message, call of the API backend, generated identifier or key. \<open>Server_Access\<close> has the functions all
  handlers share; \<open>Server_Start\<close> the starting of sessions, \<open>Server_Viewer\<close> what a viewer and the dashboard do with them,
  \<open>Server_Jobs\<close> the job queues, \<open>Server_Agents\<close> the directory, the agent socket with all its messages, scripts, and the
  reaper. \<open>Server_Run\<close> is the table of routes and the step relation \<open>step\<close>, in which all requests, sockets and reaper passes
  interleave and nothing is assumed of the API backend, the agents or the schedule; its locale \<open>server_contract\<close> turns a
  property of every task into one of every execution. \<open>Server_Rules\<close> is the specification, over the history of an
  execution: who was authorised, why a session or a directory entry may change, which messages may be sent and what an
  answer may show. \<open>Server_Calm\<close>, \<open>Server_Contract\<close> (locale \<open>session_table\<close>, interpreted for the five tables), \<open>Server_Safe\<close> and
  \<open>Server_Whole\<close> prove that every handler keeps it, and interpret \<open>server_contract\<close>. \<open>Server_Desktop\<close> has properties of single tasks,
  \<open>Server_Example\<close> evaluates concrete executions, and \<open>Server_Properties\<close> states what holds in every execution, and where the
  server falls short.

  \<^bold>\<open>How the model corresponds to the code.\<close> A definition has the name of the function, method or type it translates; a
  helper without a counterpart of its own (an arm of a match, a decoder of a JSON type, a step that several handlers have in
  common) belongs to the definitions that use it. Words have the width of the source and wrap where the source does not
  check; a \<open>usize\<close> is a natural number with the 64-bit bound written out where it is checked. A slice out of range or
  an \<open>unwrap\<close> is the value \<open>Panic\<close>. Errors carry the status and text of the source where the code has them. A hash map is an
  association list with distinct keys, an instant a natural number, a duration of two instants the truncated difference.

  \<^bold>\<open>Code outside the repository\<close> is a parameter: the ciphers, RSA, SHA-256, Base64, version and URL parsing, the ZIP reader,
  the H.264 decoder and the presentation of the viewer, Direct3D with the output of the shaders, Docker, the service manager, the API backend. A theorem names
  what it needs of them as a hypothesis (decryption inverts encryption, a decoder returns full pictures), and its
  witness instantiates them.

  \<^bold>\<open>Bounds and fuel.\<close> Two loops have fuel. \<open>read_frames\<close> in \<open>Wire_Frames\<close> is the receive loops over a finite stream: a frame
  has at least one byte, so the length of the stream is enough, and the theorems hold for every larger value. \<open>flush_loop\<close>
  in \<open>Compositor\<close> has one round more than the queue is long: a round that goes on takes a frame off the queue, and
  \<open>flush_in_order\<close> shows that every larger number of rounds gives the same result. All other loops are total functions with a termination proof or step relations whose termination is a theorem
  (\<open>relay_copy_terminates\<close>). The limits of the source (65535 bytes of control payload, 65536 bytes of response head, 64 deferred
  frames of 192 MiB, the texture limits of the device levels, the time-outs of the server) are constants of the model.

  \<^bold>\<open>Not modelled.\<close> The worker, the worker helper and the viewer outside the parts above: they drive operating-system
  interfaces (desktop duplication, encoders, Windows Update, package managers, windows), and what is left without them is
  small. The AI runner and the telemetry services: calls of language models, Kafka and a database. The API backend and the
  frontend: TypeScript services, of which the server model uses only that they may answer anything. Of the control server:
  loading the configuration, CORS, logging, the parsing of JSON text (a message arrives parsed, or as \<open>Malformed\<close>), the
  health route, and the transport of a WebSocket; that a queued message later reaches the agent is not claimed. Of the
  supervisor: the macOS bundle, and changes of the staging directory while it is walked; of the installer: rendered templates, permissions, diagnostics and console output. Time-outs
  are modelled by their outcome: a wait can end with what its channel holds at any moment.
\<close>

end
